(* ===== verification/Go_Prelude.thy ===== *)
theory Go_Prelude
  imports Main "HOL-Library.Word"
begin

text \<open>
  The part of Go and of its standard library that the modelled code uses, and the lemmas the
  component theories share.

  A Go \<^verbatim>\<open>string\<close> and a Go \<^verbatim>\<open>[]byte\<close> are both sequences of bytes; HOL's \<^typ>\<open>char\<close> is exactly a
  byte, so both are \<^typ>\<open>string\<close> here and the conversions \<^verbatim>\<open>string(b)\<close> and \<^verbatim>\<open>[]byte(s)\<close> are the
  identity. A \<^verbatim>\<open>rune\<close> is a code point, a natural number, and \<open>go_runes\<close> is the conversion
  \<^verbatim>\<open>[]rune(s)\<close>, which decodes UTF-8 and turns an invalid byte into U+FFFD.
  A \<^verbatim>\<open>time.Duration\<close> is its count of nanoseconds and a \<^verbatim>\<open>time.Time\<close> the nanoseconds since the
  Unix epoch; a protobuf timestamp is one of those or nil, and \<^verbatim>\<open>AsTime\<close> of nil is the epoch.
\<close>

section \<open>Types\<close>

type_synonym rune = nat
type_synonym bytes = string
type_synonym duration = int
type_synonym time = int
type_synonym timestamp = "time option"

text \<open>Rules the component proofs unfold together: accessors of possibly-nil messages.\<close>

named_theorems nil_simps

text \<open>Protobuf's generated getters: reading a field through a nil message gives its zero value.\<close>

definition getf :: "('m \<Rightarrow> 'a) \<Rightarrow> 'a \<Rightarrow> 'm option \<Rightarrow> 'a" where
  "getf f z m = (case m of None \<Rightarrow> z | Some x \<Rightarrow> f x)"

lemma getf_None [simp, nil_simps]: "getf f z None = z"
  by (simp add: getf_def)

lemma getf_Some [simp, nil_simps]: "getf f z (Some x) = f x"
  by (simp add: getf_def)

definition as_time :: "timestamp \<Rightarrow> time" where
  "as_time t = (case t of None \<Rightarrow> 0 | Some x \<Rightarrow> x)"

lemma as_time_simps [simp, nil_simps]: "as_time None = 0" "as_time (Some x) = x"
  by (simp_all add: as_time_def)

definition as_duration :: "duration option \<Rightarrow> duration" where
  "as_duration d = (case d of None \<Rightarrow> 0 | Some x \<Rightarrow> x)"

lemma as_duration_simps [simp, nil_simps]: "as_duration None = 0" "as_duration (Some x) = x"
  by (simp_all add: as_duration_def)

text \<open>The zero \<^verbatim>\<open>time.Time\<close> is the first instant of the year 1.\<close>

definition zero_time :: time where
  "zero_time = - 62135596800000000000"

abbreviation second :: duration where "second \<equiv> 1000000000"
abbreviation minute :: duration where "minute \<equiv> 60000000000"
abbreviation hour :: duration where "hour \<equiv> 3600000000000"

section \<open>Numbers as text\<close>

definition digit_char :: "nat \<Rightarrow> char" where
  "digit_char n = ''0123456789'' ! n"

fun nat_str :: "nat \<Rightarrow> string" where
  "nat_str n = (if n < 10 then [digit_char n] else nat_str (n div 10) @ [digit_char (n mod 10)])"

declare nat_str.simps [simp del]

text \<open>The verb \<^verbatim>\<open>%d\<close>.\<close>

definition int_str :: "int \<Rightarrow> string" where
  "int_str i = (if i < 0 then CHR ''-'' # nat_str (nat (- i)) else nat_str (nat i))"

text \<open>
  \<^verbatim>\<open>time.Duration.String\<close>: the fraction \<open>v / 10 ^ prec\<close> is written without trailing zeros, and
  without its point when nothing is left.
\<close>

fun pad_digits :: "nat \<Rightarrow> nat \<Rightarrow> string" where
  "pad_digits 0 v = []"
| "pad_digits (Suc k) v = pad_digits k (v div 10) @ [digit_char (v mod 10)]"

definition fmt_frac :: "nat \<Rightarrow> nat \<Rightarrow> string" where
  "fmt_frac v prec =
     (let ds = rev (dropWhile (\<lambda>c. c = CHR ''0'') (rev (pad_digits prec v)))
      in if ds = [] then [] else CHR ''.'' # ds)"

lemma pad_digits_0: "pad_digits k 0 = replicate k (CHR ''0'')"
  by (induction k) (simp_all add: digit_char_def replicate_append_same)

lemma fmt_frac_0 [simp]: "fmt_frac 0 k = []"
  by (simp add: fmt_frac_def pad_digits_0 dropWhile_eq_Nil_conv)

definition micro_sign :: string where
  "micro_sign = [CHR 0xC2, CHR 0xB5]"

definition duration_string :: "duration \<Rightarrow> string" where
  "duration_string d =
     (let u = nat \<bar>d\<bar>;
          body =
            (if u = 0 then ''0s''
             else if u < 1000 then nat_str u @ ''ns''
             else if u < 1000000
             then nat_str (u div 1000) @ fmt_frac (u mod 1000) 3 @ micro_sign @ ''s''
             else if u < 1000000000
             then nat_str (u div 1000000) @ fmt_frac (u mod 1000000) 6 @ ''ms''
             else
               (let secs = u div 1000000000;
                    s = nat_str (secs mod 60) @ fmt_frac (u mod 1000000000) 9 @ ''s'';
                    m = secs div 60
                in if m = 0 then s
                   else if m div 60 = 0 then nat_str m @ ''m'' @ s
                   else nat_str (m div 60) @ ''h'' @ nat_str (m mod 60) @ ''m'' @ s))
      in if d < 0 then CHR ''-'' # body else body)"

section \<open>Runes\<close>

definition rune_error :: rune where "rune_error = 0xFFFD"

definition byte_at :: "string \<Rightarrow> nat \<Rightarrow> nat" where
  "byte_at s i = (if i < length s then of_char (s ! i) else 0)"

definition in_range :: "nat \<Rightarrow> nat \<Rightarrow> nat \<Rightarrow> bool" where
  "in_range lo hi b \<longleftrightarrow> lo \<le> b \<and> b \<le> hi"

text \<open>
  \<^verbatim>\<open>utf8.DecodeRune\<close>: the code point at the front and its width in bytes. Overlong forms,
  surrogates, code points past U+10FFFF and truncated sequences are the error rune of width one.
\<close>

definition decode_rune :: "string \<Rightarrow> rune \<times> nat" where
  "decode_rune s =
     (let b0 = byte_at s 0; b1 = byte_at s 1; b2 = byte_at s 2; b3 = byte_at s 3;
          n = length s; tail = in_range 0x80 0xBF
      in if b0 < 0x80 then (b0, 1)
         else if in_range 0xC2 0xDF b0 \<and> 2 \<le> n \<and> tail b1
         then ((b0 - 0xC0) * 64 + (b1 - 0x80), 2)
         else if in_range 0xE0 0xEF b0 \<and> 3 \<le> n \<and> tail b1 \<and> tail b2 \<and>
                 (b0 = 0xE0 \<longrightarrow> 0xA0 \<le> b1) \<and> (b0 = 0xED \<longrightarrow> b1 \<le> 0x9F)
         then ((b0 - 0xE0) * 4096 + (b1 - 0x80) * 64 + (b2 - 0x80), 3)
         else if in_range 0xF0 0xF4 b0 \<and> 4 \<le> n \<and> tail b1 \<and> tail b2 \<and> tail b3 \<and>
                 (b0 = 0xF0 \<longrightarrow> 0x90 \<le> b1) \<and> (b0 = 0xF4 \<longrightarrow> b1 \<le> 0x8F)
         then ((b0 - 0xF0) * 262144 + (b1 - 0x80) * 4096 + (b2 - 0x80) * 64 + (b3 - 0x80), 4)
         else (rune_error, 1))"

lemma decode_rune_width: "1 \<le> snd (decode_rune s)"
  by (auto simp: decode_rune_def Let_def)

function go_runes :: "string \<Rightarrow> rune list" where
  "go_runes s =
     (if s = [] then [] else fst (decode_rune s) # go_runes (drop (snd (decode_rune s)) s))"
  by pat_completeness auto
termination
proof (relation "measure length")
  fix s :: string
  assume "s \<noteq> []"
  with decode_rune_width [of s] show "(drop (snd (decode_rune s)) s, s) \<in> measure length"
    by (cases s) auto
qed simp

declare go_runes.simps [simp del]

lemma go_runes_Nil [simp]: "go_runes [] = []"
  by (simp add: go_runes.simps)

text \<open>ASCII text is its own sequence of runes.\<close>

definition is_ascii :: "string \<Rightarrow> bool" where
  "is_ascii s = list_all (\<lambda>c. (of_char c :: nat) < 128) s"

lemma is_ascii_simps [simp]:
  "is_ascii []"
  "is_ascii (c # s) \<longleftrightarrow> (of_char c :: nat) < 128 \<and> is_ascii s"
  "is_ascii (s @ t) \<longleftrightarrow> is_ascii s \<and> is_ascii t"
  by (simp_all add: is_ascii_def)

lemma go_runes_Cons_ascii:
  "(of_char c :: nat) < 128 \<Longrightarrow> go_runes (c # s) = of_char c # go_runes s"
  by (subst go_runes.simps) (simp add: decode_rune_def byte_at_def Let_def)

lemma go_runes_ascii: "is_ascii s \<Longrightarrow> go_runes s = map of_char s"
  by (induction s) (simp_all add: go_runes_Cons_ascii)

lemma go_runes_append_ascii:
  "is_ascii s \<Longrightarrow> go_runes (s @ t) = map of_char s @ go_runes t"
  by (induction s) (simp_all add: go_runes_Cons_ascii)

text \<open>
  \<^verbatim>\<open>unicode.ToLower\<close>. The ASCII half is written out; the case tables beyond it are the parameter
  \<open>ul\<close>, which the modelled code reads only through this function.
\<close>

definition to_lower :: "(rune \<Rightarrow> rune) \<Rightarrow> rune \<Rightarrow> rune" where
  "to_lower ul r = (if 65 \<le> r \<and> r \<le> 90 then r + 32 else if r < 128 then r else ul r)"

lemma to_lower_ascii [simp]: "r < 128 \<Longrightarrow> to_lower ul r < 128"
  by (simp add: to_lower_def)

lemma to_lower_id: "r < 128 \<Longrightarrow> r < 65 \<or> 90 < r \<Longrightarrow> to_lower ul r = r"
  by (auto simp: to_lower_def)

section \<open>The strings package\<close>

definition has_prefix :: "string \<Rightarrow> string \<Rightarrow> bool" where
  "has_prefix s p \<longleftrightarrow> take (length p) s = p"

lemma has_prefix_append [simp]: "has_prefix (p @ s) p"
  by (simp add: has_prefix_def)

lemma has_prefix_split: "has_prefix s p \<Longrightarrow> s = p @ drop (length p) s"
  unfolding has_prefix_def by (metis append_take_drop_id)

definition has_suffix :: "string \<Rightarrow> string \<Rightarrow> bool" where
  "has_suffix s p \<longleftrightarrow> has_prefix (rev s) (rev p)"

text \<open>
  The UTF-8 encodings of the code points for which \<^verbatim>\<open>unicode.IsSpace\<close> holds. No such encoding is a
  proper prefix of another, and none can start inside a valid sequence, so trimming and splitting
  at spaces can be done on bytes.
\<close>

definition space_encodings :: "string list" where
  "space_encodings =
     [[CHR 0x09], [CHR 0x0A], [CHR 0x0B], [CHR 0x0C], [CHR 0x0D], '' '',
      [CHR 0xC2, CHR 0x85], [CHR 0xC2, CHR 0xA0], [CHR 0xE1, CHR 0x9A, CHR 0x80],
      [CHR 0xE2, CHR 0x80, CHR 0x80], [CHR 0xE2, CHR 0x80, CHR 0x81],
      [CHR 0xE2, CHR 0x80, CHR 0x82], [CHR 0xE2, CHR 0x80, CHR 0x83],
      [CHR 0xE2, CHR 0x80, CHR 0x84], [CHR 0xE2, CHR 0x80, CHR 0x85],
      [CHR 0xE2, CHR 0x80, CHR 0x86], [CHR 0xE2, CHR 0x80, CHR 0x87],
      [CHR 0xE2, CHR 0x80, CHR 0x88], [CHR 0xE2, CHR 0x80, CHR 0x89],
      [CHR 0xE2, CHR 0x80, CHR 0x8A], [CHR 0xE2, CHR 0x80, CHR 0xA8],
      [CHR 0xE2, CHR 0x80, CHR 0xA9], [CHR 0xE2, CHR 0x80, CHR 0xAF],
      [CHR 0xE2, CHR 0x81, CHR 0x9F], [CHR 0xE3, CHR 0x80, CHR 0x80]]"

definition leading_of :: "string list \<Rightarrow> string \<Rightarrow> nat" where
  "leading_of encs s =
     (case find (\<lambda>e. e \<noteq> [] \<and> has_prefix s e) encs of None \<Rightarrow> 0 | Some e \<Rightarrow> length e)"

lemma leading_of_pos: "leading_of encs s \<noteq> 0 \<Longrightarrow> s \<noteq> []"
  by (auto simp: leading_of_def has_prefix_def find_Some_iff split: option.splits)

function strip_leading :: "string list \<Rightarrow> string \<Rightarrow> string" where
  "strip_leading encs s =
     (if leading_of encs s = 0 then s else strip_leading encs (drop (leading_of encs s) s))"
  by pat_completeness auto
termination
proof (relation "measure (\<lambda>(encs, s). length s)")
  fix encs s
  assume "leading_of encs s \<noteq> 0"
  with leading_of_pos [OF this]
  show "((encs, drop (leading_of encs s) s), encs, s) \<in> measure (\<lambda>(encs, s). length s)"
    by (cases s) auto
qed simp

declare strip_leading.simps [simp del]

definition trim_space :: "string \<Rightarrow> string" where
  "trim_space s =
     rev (strip_leading (map rev space_encodings) (rev (strip_leading space_encodings s)))"

text \<open>A character that no space encoding starts or ends with is never trimmed.\<close>

definition not_space :: "char \<Rightarrow> bool" where
  "not_space c \<longleftrightarrow> (of_char c :: nat) \<in> {33..<128}"

lemma space_encodings_ends:
  "list_all (\<lambda>e. e \<noteq> [] \<and> \<not> not_space (hd e) \<and> \<not> not_space (last e)) space_encodings"
  by (simp add: space_encodings_def not_space_def)

lemma leading_of_no_match:
  assumes "list_all (\<lambda>e. e \<noteq> [] \<and> hd e \<noteq> c) encs"
  shows "leading_of encs (c # s) = 0"
proof -
  have "find (\<lambda>e. e \<noteq> [] \<and> has_prefix (c # s) e) encs = None"
  proof (unfold find_None_iff, rule notI, elim exE conjE)
    fix e
    assume "e \<in> set encs" "e \<noteq> []" "has_prefix (c # s) e"
    with assms show False
      by (cases e) (auto simp: has_prefix_def list_all_iff)
  qed
  then show ?thesis by (simp add: leading_of_def)
qed

lemma leading_of_not_space [simp]:
  assumes "not_space c"
  shows "leading_of space_encodings (c # s) = 0"
    and "leading_of (map rev space_encodings) (c # s) = 0"
  using assms space_encodings_ends
  by (auto intro!: leading_of_no_match simp: list_all_iff hd_rev)

lemma strip_leading_stop: "leading_of encs s = 0 \<Longrightarrow> strip_leading encs s = s"
  by (simp add: strip_leading.simps)

lemma leading_of_Nil [simp]: "leading_of encs [] = 0"
  using leading_of_pos [of encs "[]"] by blast

lemma trim_space_id:
  assumes "s \<noteq> []" "not_space (hd s)" "not_space (last s)"
  shows "trim_space s = s"
proof -
  obtain c t where s: "s = c # t" using assms(1) by (cases s) auto
  have "strip_leading space_encodings s = s"
    using assms(2) by (simp add: s strip_leading_stop)
  moreover have "rev s = last s # tl (rev s)"
    using assms(1) by (metis list.collapse rev_is_Nil_conv hd_rev)
  then have "strip_leading (map rev space_encodings) (rev s) = rev s"
    using assms(3) leading_of_not_space(2) by (metis strip_leading_stop)
  ultimately show ?thesis by (simp add: trim_space_def)
qed

text \<open>\<^verbatim>\<open>strings.Split(s, sep)\<close> and \<^verbatim>\<open>strings.Cut(s, sep)\<close> for a separator of one byte.\<close>

fun split_on :: "char \<Rightarrow> string \<Rightarrow> string list" where
  "split_on c [] = [[]]"
| "split_on c (x # xs) =
     (if x = c then [] # split_on c xs
      else case split_on c xs of [] \<Rightarrow> [[x]] | y # ys \<Rightarrow> (x # y) # ys)"

lemma split_on_not_Nil [simp]: "split_on c s \<noteq> []"
  by (induction s) (auto split: list.splits)

definition cut :: "char \<Rightarrow> string \<Rightarrow> (string \<times> string) option" where
  "cut c s =
     (if c \<in> set s then Some (takeWhile (\<lambda>x. x \<noteq> c) s, tl (dropWhile (\<lambda>x. x \<noteq> c) s)) else None)"

fun join :: "string \<Rightarrow> string list \<Rightarrow> string" where
  "join sep [] = []"
| "join sep [x] = x"
| "join sep (x # y # xs) = x @ sep @ join sep (y # xs)"

lemma join_split_on: "join [c] (split_on c s) = s"
proof (induction s)
  case (Cons x xs)
  obtain y ys where y: "split_on c xs = y # ys"
    by (cases "split_on c xs") auto
  with Cons show ?case by (cases ys) auto
qed simp

text \<open>\<^verbatim>\<open>strings.Index\<close>: the offset of the first occurrence.\<close>

fun index_of :: "string \<Rightarrow> string \<Rightarrow> nat option" where
  "index_of p [] = (if p = [] then Some 0 else None)"
| "index_of p (x # xs) =
     (if has_prefix (x # xs) p then Some 0 else map_option Suc (index_of p xs))"

lemma index_of_Some:
  "index_of p s = Some i \<Longrightarrow> i \<le> length s \<and> s = take i s @ p @ drop (i + length p) s"
proof (induction s arbitrary: i)
  case Nil
  then show ?case by (simp split: if_splits)
next
  case (Cons x xs)
  show ?case
  proof (cases "has_prefix (x # xs) p")
    case True
    with Cons.prems show ?thesis using has_prefix_split [OF True] by simp
  next
    case False
    with Cons.prems obtain j where "index_of p xs = Some j" "i = Suc j" by auto
    with Cons.IH [of j] show ?thesis by simp
  qed
qed

lemma index_of_append:
  assumes "p \<noteq> []" "\<And>k. k < length s \<Longrightarrow> \<not> has_prefix (drop k (s @ p @ t)) p"
  shows "index_of p (s @ p @ t) = Some (length s)"
  using assms
proof (induction s)
  case Nil
  then show ?case by (cases p) (simp_all add: has_prefix_def)
next
  case (Cons x s)
  have "\<not> has_prefix (x # s @ p @ t) p" using Cons.prems(2) [of 0] by simp
  moreover have "index_of p (s @ p @ t) = Some (length s)"
    using Cons.prems(1) Cons.prems(2) [of "Suc _"] by (intro Cons.IH) auto
  ultimately show ?case by simp
qed

text \<open>\<^verbatim>\<open>strings.LastIndex\<close> of a single byte: everything before the last occurrence, and after it.\<close>

definition cut_last :: "(char \<Rightarrow> bool) \<Rightarrow> string \<Rightarrow> (string \<times> string) option" where
  "cut_last P s =
     (if \<exists>x \<in> set s. P x
      then Some (rev (tl (dropWhile (\<lambda>x. \<not> P x) (rev s))), rev (takeWhile (\<lambda>x. \<not> P x) (rev s)))
      else None)"

lemma cut_last_Some:
  assumes "cut_last P s = Some (a, b)"
  shows "\<exists>c. P c \<and> s = a @ c # b \<and> (\<forall>x \<in> set b. \<not> P x)"
proof -
  let ?d = "dropWhile (\<lambda>x. \<not> P x) (rev s)"
  from assms have ab: "a = rev (tl ?d)" "b = rev (takeWhile (\<lambda>x. \<not> P x) (rev s))"
    and ex: "\<exists>x \<in> set s. P x"
    by (auto simp: cut_last_def split: if_splits)
  from ex have "?d \<noteq> []" by (auto simp: dropWhile_eq_Nil_conv)
  then have "P (hd ?d)" by (metis hd_dropWhile)
  have "rev s = takeWhile (\<lambda>x. \<not> P x) (rev s) @ hd ?d # tl ?d"
    using \<open>?d \<noteq> []\<close> by simp
  then have "rev (rev s) = a @ hd ?d # b"
    unfolding ab by (metis rev_append rev.simps(2) append_assoc append_Cons append_Nil rev_rev_ident)
  then have "s = a @ hd ?d # b" by simp
  moreover have "\<forall>x \<in> set b. \<not> P x" using ab by (auto dest: set_takeWhileD)
  ultimately show ?thesis using \<open>P (hd ?d)\<close> by blast
qed

text \<open>\<^verbatim>\<open>strings.Fields\<close>: the maximal runs of bytes between space runes.\<close>

function fields_from :: "string \<Rightarrow> string \<Rightarrow> string list" where
  "fields_from acc s =
     (if s = [] then (if acc = [] then [] else [rev acc])
      else let n = leading_of space_encodings s
        in if n = 0 then fields_from (hd s # acc) (tl s)
           else (if acc = [] then [] else [rev acc]) @ fields_from [] (drop n s))"
  by pat_completeness auto
termination
  by (relation "measure (\<lambda>(acc, s). length s)") auto

declare fields_from.simps [simp del]

definition fields :: "string \<Rightarrow> string list" where
  "fields s = fields_from [] s"

text \<open>\<^verbatim>\<open>filepath.Base\<close> on the platforms the agent runs on.\<close>

definition file_base :: "string \<Rightarrow> string" where
  "file_base p =
     (if p = [] then ''.''
      else let q = rev (dropWhile (\<lambda>c. c = CHR ''/'') (rev p))
        in if q = [] then ''/''
           else case cut_last (\<lambda>c. c = CHR ''/'') q of None \<Rightarrow> q | Some (_, b) \<Rightarrow> b)"

section \<open>Lists\<close>

text \<open>
  A loop that returns the first element passing a test is \<^const>\<open>find\<close>; these read its result.
\<close>

lemma find_SomeD: "find P xs = Some x \<Longrightarrow> x \<in> set xs \<and> P x"
  by (auto simp: find_Some_iff in_set_conv_nth)

lemma find_NoneD: "find P xs = None \<Longrightarrow> x \<in> set xs \<Longrightarrow> \<not> P x"
  by (simp add: find_None_iff)

lemma find_filter: "find P (filter Q xs) = find (\<lambda>x. Q x \<and> P x) xs"
  by (induction xs) auto

lemma Max_insert_two: "finite S \<Longrightarrow> Max (insert a (insert b S)) = Max (insert (max a b) S)"
  for a b :: "'a::linorder"
  by (cases "S = {}") (simp_all add: max.assoc)

text \<open>The last \<open>n\<close> entries, which is what a bounded ledger keeps.\<close>

definition tail_of :: "nat \<Rightarrow> 'a list \<Rightarrow> 'a list" where
  "tail_of n xs = drop (length xs - n) xs"

lemma length_tail_of [simp]: "length (tail_of n xs) = min n (length xs)"
  by (simp add: tail_of_def)

lemma set_tail_of: "set (tail_of n xs) \<subseteq> set xs"
  by (simp add: tail_of_def set_drop_subset)

lemma tail_of_short [simp]: "length xs \<le> n \<Longrightarrow> tail_of n xs = xs"
  by (simp add: tail_of_def)

lemma last_in_tail_of: "0 < n \<Longrightarrow> x \<in> set (tail_of n (xs @ [x]))"
  by (simp add: tail_of_def)

text \<open>Updating the first element that passes a test, in place: a loop that breaks after a write.\<close>

fun update_first :: "('a \<Rightarrow> bool) \<Rightarrow> ('a \<Rightarrow> 'a) \<Rightarrow> 'a list \<Rightarrow> 'a list" where
  "update_first P f [] = []"
| "update_first P f (x # xs) = (if P x then f x # xs else x # update_first P f xs)"

lemma length_update_first [simp]: "length (update_first P f xs) = length xs"
  by (induction xs) auto

lemma update_first_id: "find P xs = None \<Longrightarrow> update_first P f xs = xs"
  by (induction xs) (auto split: if_splits)

lemma map_update_first [simp]:
  "(\<And>x. P x \<Longrightarrow> g (f x) = g x) \<Longrightarrow> map g (update_first P f xs) = map g xs"
  by (induction xs) auto

lemma in_update_firstD:
  "y \<in> set (update_first P f xs) \<Longrightarrow> y \<in> set xs \<or> (\<exists>x \<in> set xs. P x \<and> y = f x)"
  by (induction xs) (auto split: if_splits)

lemma find_update_first:
  "(\<And>x. P x \<Longrightarrow> P (f x)) \<Longrightarrow> find P (update_first P f xs) = map_option f (find P xs)"
  by (induction xs) auto

lemma update_first_member: "find P xs = Some x \<Longrightarrow> f x \<in> set (update_first P f xs)"
  by (induction xs) (auto split: if_splits)

lemma update_first_none: "\<not> list_ex P xs \<Longrightarrow> update_first P f xs = xs"
  by (induction xs) auto

lemma map_update_first_image:
  "(\<And>x. Q (g x) = P x) \<Longrightarrow> (\<And>x. P x \<Longrightarrow> g (f x) = h (g x)) \<Longrightarrow>
   map g (update_first P f xs) = update_first Q h (map g xs)"
  by (induction xs) auto

lemma find_update_first_other:
  "(\<And>x. P x \<Longrightarrow> \<not> Q x) \<Longrightarrow> (\<And>x. P x \<Longrightarrow> \<not> Q (f x)) \<Longrightarrow> find Q (update_first P f xs) = find Q xs"
  by (induction xs) auto

lemma tail_of_append: "length ys \<le> n \<Longrightarrow> \<exists>zs. tail_of n (xs @ ys) = zs @ ys \<and> set zs \<subseteq> set xs"
  by (rule exI [of _ "drop (length xs + length ys - n) xs"]) (auto simp: tail_of_def dest: in_set_dropD)

end
