(* ===== verification/Messages.thy ===== *)
theory Messages
  imports Go_Prelude
begin

text \<open>
  The protocol messages of \<^verbatim>\<open>proto/ladulas/v1/approval.proto\<close> that the approval path reads and
  writes, as the Go code sees them. A message field is an \<^typ>\<open>'a option\<close> (a nil pointer is
  \<^const>\<open>None\<close>), a scalar field has its zero value when unset, and the \<^verbatim>\<open>oneof\<close> of an approval
  request is a datatype. Enumerations are open in proto3: a value this build does not know is kept
  as its number, because the code's \<^verbatim>\<open>default\<close> branches decide what happens to it.
\<close>

section \<open>Requests\<close>

datatype request_kind =
    REQUEST_KIND_UNSPECIFIED
  | REQUEST_KIND_SSH_AUTH
  | REQUEST_KIND_GIT_SIGN
  | REQUEST_KIND_SSHSIG
  | REQUEST_KIND_OPAQUE_SIGN
  | REQUEST_KIND_KEY_LIST
  | REQUEST_KIND_PAIRING
  | REQUEST_KIND_UNKNOWN int

record key_ref =
  kr_fingerprint :: string
  kr_algorithm :: string
  kr_public_key :: bytes
  kr_comment :: string
  kr_label :: string
  kr_agent_use :: "bool option"

record host_key =
  hk_blob :: bytes
  hk_algorithm :: string
  hk_fingerprint :: string
  hk_known_hosts_names :: "string list"
  hk_known :: bool

record session_binding =
  sb_host_key :: "host_key option"
  sb_session_id :: bytes
  sb_is_forwarding :: bool
  sb_signature_verified :: bool
  sb_hop :: int

record process_ancestor =
  pa_pid :: int
  pa_executable :: string
  pa_command_line :: string
  pa_session_leader :: bool
  pa_started_session :: bool

record client_process =
  cp_pid :: int
  cp_uid :: int
  cp_gid :: int
  cp_executable :: string
  cp_command_line :: string
  cp_user_name :: string
  cp_session_id :: int
  cp_ancestry :: "process_ancestor list"

record requester_info =
  ri_instance_id :: string
  ri_name :: string
  ri_local :: bool
  ri_headless :: bool
  ri_remote_address :: string
  ri_process :: "client_process option"

record ssh_auth_request =
  sa_username :: string
  sa_service :: string
  sa_method :: string
  sa_session_id :: bytes
  sa_bound :: bool
  sa_forwarded :: bool
  sa_destination :: "host_key option"
  sa_binding_chain :: "session_binding list"
  sa_destination_label :: string
  sa_forwarded_hops :: int
  sa_payload_destination :: "host_key option"

record git_identity =
  gi_name :: string
  gi_email :: string
  gi_time :: timestamp
  gi_timezone :: string

record git_object =
  go_type :: string
  go_tree :: string
  go_parents :: "string list"
  go_author :: "git_identity option"
  go_committer :: "git_identity option"
  go_tagged_object :: string
  go_tagged_type :: string
  go_tag :: string
  go_tagger :: "git_identity option"
  go_subject :: string
  go_message :: string
  go_extra_headers :: "(string \<times> string) list"

datatype git_diff_line_kind =
    GIT_DIFF_LINE_KIND_UNSPECIFIED
  | GIT_DIFF_LINE_KIND_CONTEXT
  | GIT_DIFF_LINE_KIND_ADDED
  | GIT_DIFF_LINE_KIND_REMOVED
  | GIT_DIFF_LINE_KIND_NOTE
  | GIT_DIFF_LINE_KIND_UNKNOWN int

record git_diff_line =
  gl_kind :: git_diff_line_kind
  gl_text :: string

record git_diff_hunk =
  gh_header :: string
  gh_lines :: "git_diff_line list"

record git_diff_file =
  gf_old_path :: string
  gf_new_path :: string
  gf_status :: string
  gf_insertions :: int
  gf_deletions :: int
  gf_binary :: bool
  gf_mode_change :: string
  gf_hunks :: "git_diff_hunk list"
  gf_truncated :: bool

record git_diff =
  gd_files :: "git_diff_file list"
  gd_files_changed :: int
  gd_insertions :: int
  gd_deletions :: int
  gd_truncated :: bool
  gd_truncation_note :: string
  gd_range :: string
  gd_error :: string

record git_context =
  gc_repository_path :: string
  gc_origin_url :: string
  gc_branch :: string
  gc_operation :: string
  gc_diff :: "git_diff option"
  gc_project_id :: string
  gc_object_type :: string
  gc_object :: bytes
  gc_parsed :: "git_object option"
  gc_verified_against_payload :: bool
  gc_verification_error :: string

record sshsig_request =
  ss_namespace :: string
  ss_hash_algorithm :: string
  ss_message_digest :: bytes
  ss_git_context :: "git_context option"

record opaque_sign_request =
  os_payload_length :: nat
  os_payload_sha256 :: bytes
  os_reason :: string
  os_prefix :: bytes

record pairing_attempt =
  pt_source :: string
  pt_at :: timestamp
  pt_outcome :: string

record pairing_request =
  pr_peer_name :: string
  pr_peer_fingerprint :: string
  pr_remote_address :: string
  pr_peer_may_approve :: bool
  pr_peer_may_request :: bool
  pr_attributes :: "string \<rightharpoonup> string"
  pr_local_fingerprint :: string
  pr_local_name :: string
  pr_initiated_locally :: bool
  pr_peer_addresses :: "string list"
  pr_key_from_code :: bool
  pr_failed_attempts :: "pairing_attempt list"

record local_key =
  lk_added_by :: "client_process option"
  lk_added_at :: timestamp
  lk_expires_at :: timestamp
  lk_confirm :: bool

datatype operation =
    NoOperation
  | OpSshAuth ssh_auth_request
  | OpSshsig sshsig_request
  | OpOpaqueSign opaque_sign_request
  | OpPairing pairing_request
  | OpKeyList string

record approval_request =
  ar_request_id :: string
  ar_created_at :: timestamp
  ar_requester :: "requester_info option"
  ar_kind :: request_kind
  ar_key :: "key_ref option"
  ar_timeout :: "duration option"
  ar_signature_flags :: nat
  ar_signature_algorithm :: string
  ar_payload_sha256 :: bytes
  ar_grant_only :: bool
  ar_requested_grant_ttl :: "duration option"
  ar_local_key :: "local_key option"
  ar_operation :: operation

section \<open>Getters through possibly absent messages\<close>

definition get_ssh_auth :: "approval_request \<Rightarrow> ssh_auth_request option" where
  "get_ssh_auth r = (case ar_operation r of OpSshAuth a \<Rightarrow> Some a | _ \<Rightarrow> None)"

definition get_sshsig :: "approval_request \<Rightarrow> sshsig_request option" where
  "get_sshsig r = (case ar_operation r of OpSshsig s \<Rightarrow> Some s | _ \<Rightarrow> None)"

definition get_git_context :: "approval_request \<Rightarrow> git_context option" where
  "get_git_context r = getf ss_git_context None (get_sshsig r)"

definition requester_id :: "approval_request \<Rightarrow> string" where
  "requester_id r = getf ri_instance_id [] (ar_requester r)"

definition requester_process :: "approval_request \<Rightarrow> client_process option" where
  "requester_process r = getf ri_process None (ar_requester r)"

definition key_fingerprint :: "approval_request \<Rightarrow> string" where
  "key_fingerprint r = getf kr_fingerprint [] (ar_key r)"

lemmas getter_defs = get_ssh_auth_def get_sshsig_def get_git_context_def requester_id_def
  requester_process_def key_fingerprint_def

section \<open>Decisions\<close>

datatype decision =
    DECISION_UNSPECIFIED
  | DECISION_APPROVE
  | DECISION_DENY
  | DECISION_UNKNOWN int

datatype decision_source =
    DECISION_SOURCE_UNSPECIFIED
  | DECISION_SOURCE_USER
  | DECISION_SOURCE_POLICY
  | DECISION_SOURCE_GRANT
  | DECISION_SOURCE_HARD_RULE
  | DECISION_SOURCE_TIMEOUT
  | DECISION_SOURCE_CANCELLED
  | DECISION_SOURCE_NO_APPROVER
  | DECISION_SOURCE_ERROR
  | DECISION_SOURCE_UNKNOWN int

section \<open>Promises\<close>

record grant_scope =
  gs_key_fingerprint :: string
  gs_kind :: request_kind
  gs_destination :: string
  gs_repository :: string
  gs_requester_instance_id :: string
  gs_username :: string
  gs_destination_fingerprint :: string
  gs_session_id :: int

record grant_use =
  gu_grant_id :: string
  gu_request_id :: string
  gu_used_at :: timestamp
  gu_reported_at :: timestamp
  gu_kind :: request_kind
  gu_subject :: string

record grant =
  gr_grant_id :: string
  gr_scope :: grant_scope
  gr_created_at :: timestamp
  gr_expires_at :: timestamp
  gr_origin_request_id :: string
  gr_description :: string
  gr_promise_subject :: string
  gr_delegated :: bool
  gr_delegate_fingerprint :: string
  gr_delegate_name :: string
  gr_use_count :: "32 word"
  gr_recent_uses :: "grant_use list"
  gr_revoke_pending :: bool
  gr_revoke_requested_at :: timestamp
  gr_endorsed :: bool
  gr_published_to :: "string list"
  gr_unreached_holders :: "string list"

record delegation =
  dg_delegation_id :: string
  dg_scope :: grant_scope
  dg_created_at :: timestamp
  dg_expires_at :: timestamp
  dg_origin_request_id :: string
  dg_description :: string
  dg_approver_fingerprint :: string
  dg_approver_name :: string
  dg_requester_fingerprint :: string

record endorsement =
  en_endorsement_id :: string
  en_scope :: grant_scope
  en_created_at :: timestamp
  en_expires_at :: timestamp
  en_origin_request_id :: string
  en_description :: string
  en_issuer_fingerprint :: string
  en_issuer_name :: string
  en_requester_fingerprint :: string
  en_requester_name :: string
  en_key_fingerprint :: string

record retraction =
  rt_retraction_id :: string
  rt_key_fingerprint :: string
  rt_endorsement_id :: string
  rt_issued_before :: timestamp
  rt_issued_at :: timestamp
  rt_remember_until :: timestamp
  rt_issuer_fingerprint :: string
  rt_issuer_name :: string
  rt_reason :: string

text \<open>
  Signed artifacts. An approval and a delegation carry the bytes that were signed and one
  signature made with the identity key; an endorsement and a retraction carry a second one, made
  with the key they are about.
\<close>

record signed_artifact =
  sg_body :: bytes
  sg_public_key :: bytes
  sg_fingerprint :: string
  sg_algorithm :: string
  sg_signature :: bytes
  sg_key_signature :: bytes

record approver_info =
  ai_instance_id :: string
  ai_name :: string
  ai_local :: bool

record approval_response =
  rs_request_id :: string
  rs_request_digest :: bytes
  rs_decision :: decision
  rs_source :: decision_source
  rs_decided_at :: timestamp
  rs_approver :: "approver_info option"
  rs_reason :: string
  rs_grant :: "grant option"
  rs_delegation :: "signed_artifact option"
  rs_endorsement :: "signed_artifact option"
  rs_notify_only :: bool

definition approved :: "approval_response \<Rightarrow> bool" where
  "approved r \<longleftrightarrow> rs_decision r = DECISION_APPROVE"

section \<open>Sample messages\<close>

text \<open>Empty messages to start concrete requests from, as a Go composite literal does.\<close>

definition empty_process :: client_process where
  "empty_process = \<lparr>cp_pid = 0, cp_uid = 0, cp_gid = 0, cp_executable = [], cp_command_line = [],
     cp_user_name = [], cp_session_id = 0, cp_ancestry = []\<rparr>"

definition empty_requester :: requester_info where
  "empty_requester = \<lparr>ri_instance_id = [], ri_name = [], ri_local = False, ri_headless = False,
     ri_remote_address = [], ri_process = None\<rparr>"

definition empty_key_ref :: key_ref where
  "empty_key_ref = \<lparr>kr_fingerprint = [], kr_algorithm = [], kr_public_key = [], kr_comment = [],
     kr_label = [], kr_agent_use = None\<rparr>"

definition empty_ssh_auth :: ssh_auth_request where
  "empty_ssh_auth = \<lparr>sa_username = [], sa_service = [], sa_method = [], sa_session_id = [],
     sa_bound = False, sa_forwarded = False, sa_destination = None, sa_binding_chain = [],
     sa_destination_label = [], sa_forwarded_hops = 0, sa_payload_destination = None\<rparr>"

definition empty_git_context :: git_context where
  "empty_git_context = \<lparr>gc_repository_path = [], gc_origin_url = [], gc_branch = [],
     gc_operation = [], gc_diff = None, gc_project_id = [], gc_object_type = [], gc_object = [], gc_parsed = None,
     gc_verified_against_payload = False, gc_verification_error = []\<rparr>"

definition empty_git_object :: git_object where
  "empty_git_object = \<lparr>go_type = [], go_tree = [], go_parents = [], go_author = None,
     go_committer = None, go_tagged_object = [], go_tagged_type = [], go_tag = [],
     go_tagger = None, go_subject = [], go_message = [], go_extra_headers = []\<rparr>"

definition empty_request :: approval_request where
  "empty_request = \<lparr>ar_request_id = [], ar_created_at = None, ar_requester = None,
     ar_kind = REQUEST_KIND_UNSPECIFIED, ar_key = None, ar_timeout = None,
     ar_signature_flags = 0, ar_signature_algorithm = [], ar_payload_sha256 = [],
     ar_grant_only = False, ar_requested_grant_ttl = None, ar_local_key = None,
     ar_operation = NoOperation\<rparr>"

definition empty_response :: approval_response where
  "empty_response = \<lparr>rs_request_id = [], rs_request_digest = [], rs_decision = DECISION_UNSPECIFIED,
     rs_source = DECISION_SOURCE_UNSPECIFIED, rs_decided_at = None, rs_approver = None,
     rs_reason = [], rs_grant = None, rs_delegation = None, rs_endorsement = None,
     rs_notify_only = False\<rparr>"

definition empty_scope :: grant_scope where
  "empty_scope = \<lparr>gs_key_fingerprint = [], gs_kind = REQUEST_KIND_UNSPECIFIED,
     gs_destination = [], gs_repository = [], gs_requester_instance_id = [], gs_username = [],
     gs_destination_fingerprint = [], gs_session_id = 0\<rparr>"

definition empty_grant :: grant where
  "empty_grant = \<lparr>gr_grant_id = [], gr_scope = empty_scope, gr_created_at = None,
     gr_expires_at = None, gr_origin_request_id = [], gr_description = [],
     gr_promise_subject = [], gr_delegated = False, gr_delegate_fingerprint = [],
     gr_delegate_name = [], gr_use_count = 0, gr_recent_uses = [], gr_revoke_pending = False,
     gr_revoke_requested_at = None, gr_endorsed = False, gr_published_to = [],
     gr_unreached_holders = []\<rparr>"

lemmas empty_defs = empty_process_def empty_requester_def empty_key_ref_def empty_ssh_auth_def
  empty_git_context_def empty_git_object_def empty_request_def empty_response_def
  empty_scope_def empty_grant_def

end
