(* ===== verification/Policy.thy ===== *)
theory Policy
  imports Messages
begin

text \<open>
  The policy document and its evaluation, \<^verbatim>\<open>src/pkg/approval/policy.go\<close>: the budgets and promise
  lengths a document sets, the attributes of a request that rules match on, and the first-match
  evaluation of the rules. The glob matcher is the code's backtracking loop over runes, kept with
  its four indices, and is compared with a recursive definition of what a glob means.
\<close>

section \<open>The document\<close>

datatype action =
    ACTION_UNSPECIFIED
  | ACTION_PROMPT
  | ACTION_APPROVE
  | ACTION_DENY
  | ACTION_UNKNOWN int

datatype tristate =
    TRISTATE_ANY
  | TRISTATE_TRUE
  | TRISTATE_FALSE
  | TRISTATE_UNKNOWN int

record match_message =
  m_kinds :: "request_kind list"
  m_key_fingerprints :: "string list"
  m_key_labels :: "string list"
  m_destinations :: "string list"
  m_usernames :: "string list"
  m_repositories :: "string list"
  m_namespaces :: "string list"
  m_requester_instances :: "string list"
  m_executables :: "string list"
  m_forwarded :: tristate
  m_bound :: tristate
  m_local :: tristate

record rule_message =
  ru_name :: string
  ru_description :: string
  ru_match :: "match_message option"
  ru_action :: action
  ru_notify :: "bool option"

record defaults_message =
  df_unbound_ssh_auth :: action
  df_fallback :: action
  df_ssh_auth_timeout :: "duration option"
  df_sign_timeout :: "duration option"
  df_grant_ttl_options :: "duration list"

record policy_document =
  pd_version :: int
  pd_defaults :: "defaults_message option"
  pd_rules :: "rule_message list"

definition empty_match :: match_message where
  "empty_match = \<lparr>m_kinds = [], m_key_fingerprints = [], m_key_labels = [], m_destinations = [],
     m_usernames = [], m_repositories = [], m_namespaces = [], m_requester_instances = [],
     m_executables = [], m_forwarded = TRISTATE_ANY, m_bound = TRISTATE_ANY,
     m_local = TRISTATE_ANY\<rparr>"

definition empty_defaults :: defaults_message where
  "empty_defaults = \<lparr>df_unbound_ssh_auth = ACTION_UNSPECIFIED, df_fallback = ACTION_UNSPECIFIED,
     df_ssh_auth_timeout = None, df_sign_timeout = None, df_grant_ttl_options = []\<rparr>"

section \<open>Budgets and promise lengths\<close>

definition DefaultSSHAuthTimeout :: duration where "DefaultSSHAuthTimeout = 90 * second"
definition DefaultSignTimeout :: duration where "DefaultSignTimeout = hour"
definition MinSignTimeout :: duration where "MinSignTimeout = 30 * second"
definition MaxSignTimeout :: duration where "MaxSignTimeout = 24 * hour"

definition DefaultGrantTTLs :: "duration list" where
  "DefaultGrantTTLs = [15 * minute, hour, 3 * hour, 8 * hour]"

definition DefaultPolicy :: policy_document where
  "DefaultPolicy =
     \<lparr>pd_version = 1,
      pd_defaults = Some (empty_defaults\<lparr>df_unbound_ssh_auth := ACTION_PROMPT,
                                         df_fallback := ACTION_PROMPT\<rparr>),
      pd_rules = []\<rparr>"

definition NewPolicy :: "policy_document option \<Rightarrow> policy_document" where
  "NewPolicy doc = (case doc of None \<Rightarrow> DefaultPolicy | Some d \<Rightarrow> d)"

text \<open>
  Loading and saving. What the file system answers is an argument, and the protojson codec is a
  parameter.
\<close>

datatype file_read = NotExist | ReadFailed string | Contents bytes

definition LoadPolicy ::
    "(bytes \<Rightarrow> string + policy_document) \<Rightarrow> file_read \<Rightarrow> string + policy_document" where
  "LoadPolicy unmarshal file =
     (case file of
        NotExist \<Rightarrow> Inr DefaultPolicy
      | ReadFailed e \<Rightarrow> Inl (''read policy: '' @ e)
      | Contents body \<Rightarrow>
          (case unmarshal body of
             Inl e \<Rightarrow> Inl (''parse policy: '' @ e)
           | Inr doc \<Rightarrow> Inr (NewPolicy (Some doc))))"

definition Save ::
    "(policy_document \<Rightarrow> string + bytes) \<Rightarrow> (bytes \<Rightarrow> string option) \<Rightarrow> policy_document
       \<Rightarrow> string + bytes" where
  "Save marshal write_error doc =
     (case marshal doc of
        Inl e \<Rightarrow> Inl (''marshal policy: '' @ e)
      | Inr body \<Rightarrow>
          (case write_error (body @ [CHR 0x0A]) of
             Some e \<Rightarrow> Inl (''write policy: '' @ e)
           | None \<Rightarrow> Inr (body @ [CHR 0x0A])))"

definition durationOr :: "duration option \<Rightarrow> duration \<Rightarrow> duration" where
  "durationOr d fallback = (if d = None \<or> as_duration d \<le> 0 then fallback else as_duration d)"

definition plural :: "int \<Rightarrow> string \<Rightarrow> string \<Rightarrow> string" where
  "plural n one many = (if n = 1 then int_str n @ '' '' @ one else int_str n @ '' '' @ many)"

definition HumanDuration :: "duration \<Rightarrow> string" where
  "HumanDuration d =
     (if d < minute then duration_string d
      else
        (let hours = d div hour; minutes = (d mod hour) div minute
         in if hours = 0 then plural minutes ''minute'' ''minutes''
            else if minutes = 0 then plural hours ''hour'' ''hours''
            else plural hours ''hour'' ''hours'' @ '' '' @ plural minutes ''minute'' ''minutes''))"

definition SetSignTimeout :: "policy_document \<Rightarrow> duration \<Rightarrow> string + policy_document" where
  "SetSignTimeout p d =
     (if d < MinSignTimeout \<or> MaxSignTimeout < d
      then Inl (''a signing request waits for at least '' @ HumanDuration MinSignTimeout @
                '' and at most '' @ HumanDuration MaxSignTimeout)
      else
        (let defaults = (case pd_defaults p of None \<Rightarrow> empty_defaults | Some x \<Rightarrow> x)
         in Inr (p\<lparr>pd_defaults := Some (defaults\<lparr>df_sign_timeout := Some d\<rparr>)\<rparr>)))"

definition GrantRequestTimeout :: "policy_document \<Rightarrow> duration" where
  "GrantRequestTimeout p = durationOr (getf df_sign_timeout None (pd_defaults p)) DefaultSignTimeout"

definition Timeout :: "policy_document \<Rightarrow> request_kind \<Rightarrow> duration" where
  "Timeout p kind =
     (case kind of
        REQUEST_KIND_SSH_AUTH \<Rightarrow>
          durationOr (getf df_ssh_auth_timeout None (pd_defaults p)) DefaultSSHAuthTimeout
      | REQUEST_KIND_PAIRING \<Rightarrow> 0
      | _ \<Rightarrow> durationOr (getf df_sign_timeout None (pd_defaults p)) DefaultSignTimeout)"

definition GrantTTLs :: "policy_document \<Rightarrow> duration list" where
  "GrantTTLs p =
     (let options = getf df_grant_ttl_options [] (pd_defaults p)
      in if options = [] then DefaultGrantTTLs else options)"

definition MaxGrantTTL :: "policy_document \<Rightarrow> duration" where
  "MaxGrantTTL p =
     (let longest = fold (\<lambda>ttl longest. if ttl > longest then ttl else longest) (GrantTTLs p) 0
      in if longest \<le> 0 then last DefaultGrantTTLs else longest)"

section \<open>Evaluation\<close>

record evaluation =
  ev_action :: action
  ev_rule :: string
  ev_notify :: bool

record facts =
  f_kind :: request_kind
  f_keyFingerprint :: string
  f_keyLabel :: string
  f_destination :: "string list"
  f_username :: string
  f_repository :: "string list"
  f_namespace :: string
  f_requesterInstance :: string
  f_executable :: string
  f_forwarded :: bool
  f_bound :: bool
  f_local :: bool

definition factsFor :: "approval_request \<Rightarrow> facts" where
  "factsFor req =
     (let auth = get_ssh_auth req; sig = get_sshsig req; git = get_git_context req;
          label = getf sa_destination_label [] auth
      in \<lparr>f_kind = ar_kind req,
          f_keyFingerprint = getf kr_fingerprint [] (ar_key req),
          f_keyLabel = getf kr_label [] (ar_key req),
          f_destination =
            (if auth \<noteq> None \<and> label \<noteq> [] \<and> getf sa_bound False auth then [label] else []) @
            (case getf sa_destination None auth of
               None \<Rightarrow> []
             | Some host \<Rightarrow> hk_known_hosts_names host @ [hk_fingerprint host]),
          f_username = getf sa_username [] auth,
          f_repository =
            filter (\<lambda>s. s \<noteq> []) [getf gc_repository_path [] git] @
            filter (\<lambda>s. s \<noteq> []) [getf gc_origin_url [] git],
          f_namespace = getf ss_namespace [] sig,
          f_requesterInstance = getf ri_instance_id [] (ar_requester req),
          f_executable = getf cp_executable [] (requester_process req),
          f_forwarded = getf sa_forwarded False auth,
          f_bound = getf sa_bound False auth,
          f_local = getf ri_local False (ar_requester req)\<rparr>)"

text \<open>
  The loop of \<open>globMatchBytes\<close>: \<open>p\<close> and \<open>v\<close> are positions in the pattern and the value, \<open>star\<close>
  the position of the last star taken as a wildcard, \<open>vas\<close> where in the value it was met. The code
  tests for an equal rune before it tests for a star.
\<close>

function glob_loop ::
    "rune list \<Rightarrow> rune list \<Rightarrow> nat \<Rightarrow> nat \<Rightarrow> nat option \<Rightarrow> nat \<Rightarrow> nat option" where
  "glob_loop P V p v star vas =
     (if v < length V then
        (if p < length P \<and> (P ! p = 63 \<or> P ! p = V ! v)
         then glob_loop P V (Suc p) (Suc v) star vas
         else if p < length P \<and> P ! p = 42
         then glob_loop P V (Suc p) v (Some p) v
         else (case star of
                 Some s \<Rightarrow> glob_loop P V (Suc s) (Suc vas) star (Suc vas)
               | None \<Rightarrow> None))
      else Some p)"
  by pat_completeness auto

text \<open>
  Every round either advances in the value, or meets a later star, or restarts one rune further
  on. The first component of the measure covers states the code never starts from.
\<close>

definition glob_settled :: "nat \<Rightarrow> nat \<Rightarrow> nat option \<Rightarrow> nat \<Rightarrow> bool" where
  "glob_settled p v star vas \<longleftrightarrow> vas \<le> v \<and> (case star of None \<Rightarrow> True | Some s \<Rightarrow> s < p)"

termination glob_loop
  by (relation "measures
        [\<lambda>(P, V, p, v, star, vas). if glob_settled p v star vas then 0 else 1,
         \<lambda>(P, V, p, v, star, vas). length V - vas,
         \<lambda>(P, V, p, v, star, vas). case star of None \<Rightarrow> Suc (length P) | Some s \<Rightarrow> length P - s,
         \<lambda>(P, V, p, v, star, vas). length V - v]")
     (auto simp: glob_settled_def split: option.splits if_splits)

declare glob_loop.simps [simp del]

definition globMatchRunes :: "rune list \<Rightarrow> rune list \<Rightarrow> bool" where
  "globMatchRunes P V =
     (case glob_loop P V 0 0 None 0 of
        None \<Rightarrow> False
      | Some p \<Rightarrow> p + length (takeWhile (\<lambda>r. r = 42) (drop p P)) = length P)"

definition globMatchBytes :: "string \<Rightarrow> string \<Rightarrow> bool" where
  "globMatchBytes pattern val = globMatchRunes (go_runes pattern) (go_runes val)"

text \<open>
  With \<open>fold\<close> both sides are lower-cased first. \<^verbatim>\<open>strings.ToLower\<close> maps every rune and
  re-encodes, so the runes of its result are the lower-cased runes of its argument.
\<close>

definition globMatch :: "(rune \<Rightarrow> rune) \<Rightarrow> string \<Rightarrow> string \<Rightarrow> bool \<Rightarrow> bool" where
  "globMatch ul pattern val fold_case =
     (if fold_case
      then globMatchRunes (map (to_lower ul) (go_runes pattern)) (map (to_lower ul) (go_runes val))
      else globMatchBytes pattern val)"

definition anyMatch :: "(rune \<Rightarrow> rune) \<Rightarrow> string list \<Rightarrow> string list \<Rightarrow> bool \<Rightarrow> bool" where
  "anyMatch ul patterns vals fold_case =
     list_ex (\<lambda>pattern. list_ex (\<lambda>val. val \<noteq> [] \<and> globMatch ul pattern val fold_case) vals) patterns"

definition tristateMatches :: "tristate \<Rightarrow> bool \<Rightarrow> bool" where
  "tristateMatches want val =
     (case want of TRISTATE_TRUE \<Rightarrow> val | TRISTATE_FALSE \<Rightarrow> \<not> val | _ \<Rightarrow> True)"

definition matches :: "(rune \<Rightarrow> rune) \<Rightarrow> match_message option \<Rightarrow> facts \<Rightarrow> bool" where
  "matches ul mm f =
     (case mm of
        None \<Rightarrow> True
      | Some m \<Rightarrow>
          (m_kinds m = [] \<or> f_kind f \<in> set (m_kinds m)) \<and>
          list_all (\<lambda>(patterns, vals, fold_case). patterns = [] \<or> anyMatch ul patterns vals fold_case)
            [(m_key_fingerprints m, [f_keyFingerprint f], False),
             (m_key_labels m, [f_keyLabel f], True),
             (m_destinations m, f_destination f, True),
             (m_usernames m, [f_username f], False),
             (m_repositories m, f_repository f, False),
             (m_namespaces m, [f_namespace f], False),
             (m_requester_instances m, [f_requesterInstance f], False),
             (m_executables m, [f_executable f], False)] \<and>
          list_all (\<lambda>(want, val). tristateMatches want val)
            [(m_forwarded m, f_forwarded f), (m_bound m, f_bound f), (m_local m, f_local f)])"

definition actionOr :: "action \<Rightarrow> action \<Rightarrow> action" where
  "actionOr a fallback = (if a = ACTION_UNSPECIFIED then fallback else a)"

definition Evaluate :: "(rune \<Rightarrow> rune) \<Rightarrow> policy_document \<Rightarrow> approval_request \<Rightarrow> evaluation" where
  "Evaluate ul p req =
     (case find (\<lambda>rule. matches ul (ru_match rule) (factsFor req)) (pd_rules p) of
        Some rule \<Rightarrow>
          \<lparr>ev_action = ru_action rule,
           ev_rule = (if ru_name rule = [] then ''unnamed rule'' else ru_name rule),
           ev_notify = (ru_notify rule = Some True \<or> ru_notify rule = None)\<rparr>
      | None \<Rightarrow>
          (if ar_kind req = REQUEST_KIND_SSH_AUTH \<and> \<not> getf sa_bound False (get_ssh_auth req)
           then \<lparr>ev_action = actionOr (getf df_unbound_ssh_auth ACTION_UNSPECIFIED (pd_defaults p))
                               ACTION_PROMPT,
                 ev_rule = ''default for unbound SSH authentication'', ev_notify = True\<rparr>
           else \<lparr>ev_action = actionOr (getf df_fallback ACTION_UNSPECIFIED (pd_defaults p))
                               ACTION_PROMPT,
                 ev_rule = ''default'', ev_notify = True\<rparr>))"

section \<open>What a glob means\<close>

text \<open>The reference: a star stands for any run of runes, a question mark for any one rune.\<close>

fun glob :: "rune list \<Rightarrow> rune list \<Rightarrow> bool" where
  "glob [] vs \<longleftrightarrow> vs = []"
| "glob (p # ps) vs \<longleftrightarrow>
     (if p = 42 then \<exists>k \<le> length vs. glob ps (drop k vs)
      else vs \<noteq> [] \<and> (p = 63 \<or> p = hd vs) \<and> glob ps (tl vs))"

lemma glob_star: "glob (42 # ps) vs \<longleftrightarrow> (\<exists>k \<le> length vs. glob ps (drop k vs))"
  by simp

lemma glob_star_absorb: "glob (42 # ps) (drop k vs) \<Longrightarrow> j \<le> k \<Longrightarrow> glob (42 # ps) (drop j vs)"
proof (unfold glob_star, elim exE conjE)
  fix i
  assume *: "j \<le> k" "i \<le> length (drop k vs)" "glob ps (drop i (drop k vs))"
  show "\<exists>i \<le> length (drop j vs). glob ps (drop i (drop j vs))"
  proof (cases "k \<le> length vs")
    case True
    with * show ?thesis by (intro exI [of _ "i + k - j"]) (auto simp: add.commute)
  next
    case False
    with * show ?thesis
      by (intro exI [of _ "length vs - j"]) (auto simp: le_diff_conv)
  qed
qed

lemma glob_Nil_iff: "glob ps [] \<longleftrightarrow> (\<forall>p \<in> set ps. p = 42)"
  by (induction ps) auto

lemma takeWhile_all_iff:
  "p + length (takeWhile Q (drop p P)) = length P \<longleftrightarrow> (\<forall>x \<in> set (drop p P). Q x)" if "p \<le> length P"
proof -
  have "p + length (takeWhile Q (drop p P)) = length P \<longleftrightarrow>
        length (takeWhile Q (drop p P)) = length (drop p P)" using that by auto
  also have "\<dots> \<longleftrightarrow> takeWhile Q (drop p P) = drop p P"
    using takeWhile_dropWhile_id by (metis length_append add_cancel_left_right length_0_conv append_Nil2)
  finally show ?thesis by (simp add: takeWhile_eq_all_conv)
qed

lemma glob_at:
  assumes "p < length P"
  shows "glob (drop p P) vs \<longleftrightarrow>
    (if P ! p = 42 then \<exists>k \<le> length vs. glob (drop (Suc p) P) (drop k vs)
     else vs \<noteq> [] \<and> (P ! p = 63 \<or> P ! p = hd vs) \<and> glob (drop (Suc p) P) (tl vs))"
  by (subst Cons_nth_drop_Suc [OF assms, symmetric]) simp

lemma glob_mismatch:
  assumes "v < length V" "\<not> (p < length P \<and> (P ! p = 63 \<or> P ! p = V ! v))"
    "\<not> (p < length P \<and> P ! p = 42)"
  shows "\<not> glob (drop p P) (drop v V)"
proof (cases "p < length P")
  case True
  with assms show ?thesis by (simp add: glob_at hd_drop_conv_nth)
next
  case False
  with assms(1) show ?thesis by simp
qed

lemma glob_loop_retry:
  assumes "v < length V" "\<not> (p < length P \<and> (P ! p = 63 \<or> P ! p = V ! v))"
    "\<not> (p < length P \<and> P ! p = 42)"
  shows "glob_loop P V p v (Some s) vas = glob_loop P V (Suc s) (Suc vas) (Some s) (Suc vas)"
proof -
  have "glob_loop P V p v (Some s) vas =
        (if v < length V then
          (if p < length P \<and> (P ! p = 63 \<or> P ! p = V ! v)
           then glob_loop P V (Suc p) (Suc v) (Some s) vas
           else if p < length P \<and> P ! p = 42 then glob_loop P V (Suc p) v (Some p) v
           else glob_loop P V (Suc s) (Suc vas) (Some s) (Suc vas))
         else Some p)"
    by (subst glob_loop.simps) (simp only: option.case)
  then show ?thesis using assms by (simp only: if_True if_False)
qed

text \<open>A star-free stretch of the pattern consumes exactly its own length.\<close>

lemma glob_segment:
  assumes "42 \<notin> set seg" "glob (seg @ ps) vs"
  shows "length seg \<le> length vs \<and> glob ps (drop (length seg) vs)"
  using assms
proof (induction seg arbitrary: vs)
  case (Cons q seg)
  then obtain w ws where "vs = w # ws" "glob (seg @ ps) ws" by (cases vs) auto
  with Cons show ?case by auto
qed simp

text \<open>
  What holds between rounds while the value has no star in it: the pattern after the last star
  has matched, star-free, exactly the value from \<open>vas\<close> to \<open>v\<close>.
\<close>

definition glob_inv :: "rune list \<Rightarrow> rune list \<Rightarrow> nat \<Rightarrow> nat \<Rightarrow> nat option \<Rightarrow> nat \<Rightarrow> bool" where
  "glob_inv P V p v star vas \<longleftrightarrow>
     p \<le> length P \<and> v \<le> length V \<and>
     (case star of
        None \<Rightarrow> True
      | Some s \<Rightarrow> s < p \<and> P ! s = 42 \<and> vas \<le> v \<and> v - vas = p - Suc s \<and>
                  (\<forall>i. s < i \<and> i < p \<longrightarrow> P ! i \<noteq> 42))"

definition glob_final :: "rune list \<Rightarrow> nat option \<Rightarrow> bool" where
  "glob_final P r \<longleftrightarrow> (case r of None \<Rightarrow> False | Some p \<Rightarrow> p \<le> length P \<and> glob (drop p P) [])"

text \<open>The alternatives still open: from here, or from the last star at a later rune.\<close>

definition glob_open :: "rune list \<Rightarrow> rune list \<Rightarrow> nat \<Rightarrow> nat \<Rightarrow> nat option \<Rightarrow> nat \<Rightarrow> bool" where
  "glob_open P V p v star vas \<longleftrightarrow>
     glob (drop p P) (drop v V) \<or>
     (\<exists>s j. star = Some s \<and> vas < j \<and> j \<le> length V \<and> glob (drop (Suc s) P) (drop j V))"

lemma glob_seg_split:
  assumes "glob_inv P V p v (Some s) vas" "glob (drop (Suc s) P) (drop j V)"
  shows "v - vas \<le> length V - j \<and> glob (drop p P) (drop (j + (v - vas)) V)"
proof -
  let ?seg = "take (p - Suc s) (drop (Suc s) P)"
  have inv: "s < p" "p \<le> length P" "v - vas = p - Suc s" "\<forall>i. s < i \<and> i < p \<longrightarrow> P ! i \<noteq> 42"
    using assms(1) by (auto simp: glob_inv_def)
  have "drop (Suc s) P = ?seg @ drop p P"
    using inv(1) append_take_drop_id [of "p - Suc s" "drop (Suc s) P"]
    by (simp add: drop_drop del: append_take_drop_id)
  moreover have "length ?seg = v - vas" using inv by auto
  moreover have "42 \<notin> set ?seg"
    using inv by (auto simp: in_set_conv_nth)
  ultimately show ?thesis
    using glob_segment [of ?seg "drop p P" "drop j V"] assms(2) by (auto simp: add.commute)
qed

lemma glob_loop_correct:
  assumes "42 \<notin> set V" "glob_inv P V p v star vas"
  shows "glob_final P (glob_loop P V p v star vas) \<longleftrightarrow> glob_open P V p v star vas"
  using assms
proof (induction P V p v star vas rule: glob_loop.induct)
  case (1 P V p v star vas)
  note inv = 1(5)
  consider (ended) "\<not> v < length V"
    | (eq) "v < length V" "p < length P" "P ! p = 63 \<or> P ! p = V ! v"
    | (atstar) "v < length V" "\<not> (p < length P \<and> (P ! p = 63 \<or> P ! p = V ! v))"
        "p < length P" "P ! p = 42"
    | (retry) s where "v < length V" "\<not> (p < length P \<and> (P ! p = 63 \<or> P ! p = V ! v))"
        "\<not> (p < length P \<and> P ! p = 42)" "star = Some s"
    | (fail) "v < length V" "\<not> (p < length P \<and> (P ! p = 63 \<or> P ! p = V ! v))"
        "\<not> (p < length P \<and> P ! p = 42)" "star = None"
    by (cases star) blast+
  then show ?case
  proof cases
    case ended
    then have v: "v = length V" using inv by (simp add: glob_inv_def)
    have no: False if "star = Some s" "vas < j" "j \<le> length V" "glob (drop (Suc s) P) (drop j V)" for s j
      using glob_seg_split [of P V p v s vas j] that inv v by (auto simp: glob_inv_def)
    have "glob_loop P V p v star vas = Some p" using ended by (simp add: glob_loop.simps)
    moreover have "p \<le> length P" using inv by (simp add: glob_inv_def)
    moreover have "glob_open P V p v star vas \<longleftrightarrow> glob (drop p P) []"
      unfolding glob_open_def using no v by auto
    ultimately show ?thesis by (simp add: glob_final_def)
  next
    case eq
    have "P ! p \<noteq> 42" using eq 1(4) by (auto simp: in_set_conv_nth)
    then have step: "glob (drop p P) (drop v V) \<longleftrightarrow> glob (drop (Suc p) P) (drop (Suc v) V)"
      using eq by (auto simp: glob_at hd_drop_conv_nth tl_drop drop_Suc [symmetric])
    have "glob_inv P V (Suc p) (Suc v) star vas"
      using inv eq \<open>P ! p \<noteq> 42\<close> by (auto simp: glob_inv_def less_Suc_eq split: option.splits)
    then have "glob_final P (glob_loop P V (Suc p) (Suc v) star vas) \<longleftrightarrow>
               glob_open P V (Suc p) (Suc v) star vas"
      using 1(1) 1(4) eq by blast
    then show ?thesis
      using eq step by (simp add: glob_loop.simps [of P V p v] glob_open_def)
  next
    case atstar
    have "glob_inv P V (Suc p) v (Some p) v" using atstar by (auto simp: glob_inv_def)
    then have IH: "glob_final P (glob_loop P V (Suc p) v (Some p) v) \<longleftrightarrow>
               glob_open P V (Suc p) v (Some p) v"
      using 1(2) 1(4) atstar by blast
    have here: "glob (drop p P) (drop v V) \<longleftrightarrow> glob_open P V (Suc p) v (Some p) v" (is "?l \<longleftrightarrow> ?r")
    proof
      assume ?l
      then obtain k where k: "k \<le> length V - v" "glob (drop (Suc p) P) (drop (k + v) V)"
        using atstar by (auto simp: glob_at)
      show ?r
      proof (cases "k = 0")
        case True
        with k show ?thesis by (simp add: glob_open_def)
      next
        case False
        with k atstar(1) show ?thesis by (auto simp: glob_open_def intro!: exI [of _ "k + v"])
      qed
    next
      assume ?r
      then obtain j where "v \<le> j" "j \<le> length V" "glob (drop (Suc p) P) (drop j V)"
        unfolding glob_open_def using atstar(1) less_imp_le by blast
      then show ?l
        using atstar by (auto simp: glob_at intro!: exI [of _ "j - v"])
    qed
    have old: "glob (drop p P) (drop v V)"
      if "star = Some s" "vas < j" "j \<le> length V" "glob (drop (Suc s) P) (drop j V)" for s j
    proof -
      have "glob (drop p P) (drop (j + (v - vas)) V)"
        using glob_seg_split [of P V p v s vas j] that inv by simp
      moreover have "v \<le> j + (v - vas)" using that by simp
      ultimately show ?thesis
        using glob_star_absorb [of "drop (Suc p) P" "j + (v - vas)" V v] atstar
        by (metis Cons_nth_drop_Suc)
    qed
    have "glob_loop P V p v star vas = glob_loop P V (Suc p) v (Some p) v"
      using atstar by (subst glob_loop.simps) simp
    moreover have "glob_open P V p v star vas \<longleftrightarrow> glob (drop p P) (drop v V)"
      using old by (auto simp: glob_open_def)
    ultimately show ?thesis using IH here by simp
  next
    case (retry s)
    have s: "s < p" "p \<le> length P" "vas \<le> v" using inv retry by (auto simp: glob_inv_def)
    have "glob_inv P V (Suc s) (Suc vas) (Some s) (Suc vas)"
      using inv retry s by (auto simp: glob_inv_def)
    then have "glob_final P (glob_loop P V (Suc s) (Suc vas) star (Suc vas)) \<longleftrightarrow>
               glob_open P V (Suc s) (Suc vas) star (Suc vas)"
      using 1(3) [of s] 1(4) retry by blast
    moreover have "\<not> glob (drop p P) (drop v V)" using retry by (intro glob_mismatch) auto
    moreover have "(\<exists>j>vas. j \<le> length V \<and> Q j) \<longleftrightarrow> Q (Suc vas) \<or> (\<exists>j>Suc vas. j \<le> length V \<and> Q j)"
      for Q
    proof -
      have "Suc vas \<le> length V" using retry(1) s(3) by simp
      then show ?thesis by (auto simp: less_eq_Suc_le [symmetric]) (metis Suc_lessI, metis Suc_lessD)
    qed
    ultimately show ?thesis
      using retry glob_loop_retry [of v V p P s vas] by (simp add: glob_open_def)
  next
    case fail
    have "\<not> glob (drop p P) (drop v V)" using fail by (intro glob_mismatch) auto
    then show ?thesis
      using fail by (auto simp: glob_loop.simps [of P V p v] glob_open_def glob_final_def)
  qed
qed

lemma glob_loop_result_le:
  "glob_loop P V p v star vas = Some q \<Longrightarrow> p \<le> length P \<Longrightarrow>
   (\<forall>s. star = Some s \<longrightarrow> s < length P) \<Longrightarrow> q \<le> length P"
proof (induction P V p v star vas rule: glob_loop.induct)
  case (1 P V p v star vas)
  show ?case
    using 1(4-)
    by (subst (asm) glob_loop.simps)
       (auto split: if_splits option.splits intro: 1(1-3) simp: Suc_leI)
qed

lemma globMatchRunes_final: "globMatchRunes P V \<longleftrightarrow> glob_final P (glob_loop P V 0 0 None 0)"
proof (cases "glob_loop P V 0 0 None 0")
  case (Some q)
  then have "q \<le> length P" using glob_loop_result_le [of P V 0 0 None 0 q] by simp
  then show ?thesis
    using Some by (simp add: globMatchRunes_def glob_final_def takeWhile_all_iff glob_Nil_iff)
qed (simp add: globMatchRunes_def glob_final_def)

lemma globMatchRunes_glob: "42 \<notin> set V \<Longrightarrow> globMatchRunes P V \<longleftrightarrow> glob P V"
  using glob_loop_correct [of V P 0 0 None 0]
  by (simp add: globMatchRunes_final glob_inv_def glob_open_def)

text \<open>
  With stars in the value one direction is left: what the loop accepts, the glob means. A star of
  the pattern that met a star of the value was compared as a literal, which is one of the runs it
  may stand for.
\<close>

definition glob_back :: "rune list \<Rightarrow> rune list \<Rightarrow> nat \<Rightarrow> nat \<Rightarrow> nat option \<Rightarrow> nat \<Rightarrow> bool" where
  "glob_back P V p v star vas \<longleftrightarrow>
     glob (drop p P) (drop v V) \<or> (\<exists>s. star = Some s \<and> glob (drop s P) (drop vas V))"

lemma glob_loop_sound:
  assumes "glob_final P (glob_loop P V p v star vas)" "v \<le> length V" "vas \<le> v"
    "\<forall>s. star = Some s \<longrightarrow> s < length P \<and> P ! s = 42"
  shows "glob_back P V p v star vas"
  using assms
proof (induction P V p v star vas rule: glob_loop.induct)
  case (1 P V p v star vas)
  note hyps = 1(4-7)
  consider (ended) "\<not> v < length V"
    | (eq) "v < length V" "p < length P" "P ! p = 63 \<or> P ! p = V ! v"
    | (atstar) "v < length V" "\<not> (p < length P \<and> (P ! p = 63 \<or> P ! p = V ! v))"
        "p < length P" "P ! p = 42"
    | (retry) s where "v < length V" "\<not> (p < length P \<and> (P ! p = 63 \<or> P ! p = V ! v))"
        "\<not> (p < length P \<and> P ! p = 42)" "star = Some s"
    | (fail) "v < length V" "\<not> (p < length P \<and> (P ! p = 63 \<or> P ! p = V ! v))"
        "\<not> (p < length P \<and> P ! p = 42)" "star = None"
    by (cases star) blast+
  then show ?case
  proof cases
    case ended
    then show ?thesis
      using hyps(1) by (simp add: glob_loop.simps glob_final_def glob_back_def)
  next
    case eq
    then have "glob_back P V (Suc p) (Suc v) star vas"
      using 1(1) hyps by (simp add: glob_loop.simps [of P V p v])
    moreover have "glob (drop (Suc p) P) (drop (Suc v) V) \<Longrightarrow> glob (drop p P) (drop v V)"
      using eq by (cases "P ! p = 42")
        (auto simp: glob_at hd_drop_conv_nth tl_drop drop_Suc [symmetric] intro!: exI [of _ 1])
    ultimately show ?thesis by (auto simp: glob_back_def)
  next
    case atstar
    then have "glob_final P (glob_loop P V (Suc p) v (Some p) v)"
      using hyps(1) by (subst (asm) glob_loop.simps) simp
    then have "glob_back P V (Suc p) v (Some p) v" using 1(2) hyps(2) atstar by simp
    then have "glob (drop p P) (drop v V)"
      using atstar by (auto simp: glob_back_def glob_at intro: exI [of _ 0])
    then show ?thesis by (simp add: glob_back_def)
  next
    case (retry s)
    then have "glob_final P (glob_loop P V (Suc s) (Suc vas) star (Suc vas))"
      using hyps(1) glob_loop_retry [of v V p P s vas] by simp
    then have later: "glob_back P V (Suc s) (Suc vas) star (Suc vas)"
      using 1(3) [of s] hyps retry by simp
    have star: "s < length P" "P ! s = 42" using hyps(4) retry by auto
    have "glob (drop s P) (drop vas V)"
      using later star retry(1) hyps(3) unfolding glob_back_def retry(4)
    proof (elim disjE exE conjE)
      assume "glob (drop (Suc s) P) (drop (Suc vas) V)"
      with star retry(1) hyps(3) show ?thesis
        by (auto simp: glob_at intro!: exI [of _ 1])
    next
      fix s'
      assume "Some s = Some s'" "glob (drop s' P) (drop (Suc vas) V)"
      with star show ?thesis
        using glob_star_absorb [of "drop (Suc s) P" "Suc vas" V vas] by (metis Cons_nth_drop_Suc le_SucI option.inject order_refl)
    qed
    then show ?thesis using retry by (simp add: glob_back_def)
  next
    case fail
    then show ?thesis
      using hyps(1) by (auto simp add: glob_loop.simps [of P V p v] glob_final_def)
  qed
qed

lemma globMatchRunes_sound: "globMatchRunes P V \<Longrightarrow> glob P V"
  using glob_loop_sound [of P V 0 0 None 0]
  by (simp add: globMatchRunes_final glob_back_def)

section \<open>Evaluation and budgets\<close>

lemma fold_max:
  "fold (\<lambda>ttl longest. if ttl > longest then ttl else longest) xs (a :: int) = Max (insert a (set xs))"
proof (induction xs arbitrary: a)
  case (Cons x xs)
  have "Max (insert (if x > a then x else a) (set xs)) = Max (insert a (set (x # xs)))"
  proof -
    have "Max (insert a (set (x # xs))) = Max (insert a (insert x (set xs)))" by simp
    also have "\<dots> = Max (insert (max a x) (set xs))"
      by (rule Max_insert_two) simp
    finally show ?thesis by (simp add: max_def)
  qed
  with Cons show ?case by simp
qed simp

lemma GrantTTLs_not_Nil: "GrantTTLs p \<noteq> []"
  by (simp add: GrantTTLs_def DefaultGrantTTLs_def Let_def)

lemma MaxGrantTTL_pos: "0 < MaxGrantTTL p"
  by (simp add: MaxGrantTTL_def Let_def DefaultGrantTTLs_def)

lemma MaxGrantTTL_upper: "ttl \<in> set (GrantTTLs p) \<Longrightarrow> ttl \<le> MaxGrantTTL p"
proof -
  assume "ttl \<in> set (GrantTTLs p)"
  then have "ttl \<le> Max (insert 0 (set (GrantTTLs p)))" by simp
  moreover have "(0 :: int) \<le> 8 * hour" by simp
  ultimately show ?thesis
    unfolding MaxGrantTTL_def fold_max Let_def DefaultGrantTTLs_def by (simp del: Max_insert Max_le_iff)
qed

lemma MaxGrantTTL_attained:
  "MaxGrantTTL p \<in> set (GrantTTLs p) \<or> MaxGrantTTL p = 8 * hour \<and> (\<forall>t \<in> set (GrantTTLs p). t \<le> 0)"
proof -
  let ?m = "Max (insert 0 (set (GrantTTLs p)))"
  have "?m \<in> insert 0 (set (GrantTTLs p))" by (rule Max_in) auto
  moreover have le: "\<forall>t \<in> set (GrantTTLs p). t \<le> ?m" by simp
  moreover have "MaxGrantTTL p = (if ?m \<le> 0 then 8 * hour else ?m)"
    unfolding MaxGrantTTL_def fold_max Let_def by (simp add: DefaultGrantTTLs_def del: Max_le_iff)
  moreover have "?m \<le> 0 \<Longrightarrow> \<forall>t \<in> set (GrantTTLs p). t \<le> 0" using le order_trans by blast
  ultimately show ?thesis by (cases "?m \<le> 0") (auto simp del: Max_le_iff)
qed

lemma HumanDuration_bounds [simp]:
  "HumanDuration MinSignTimeout = ''30s''" "HumanDuration MaxSignTimeout = ''24 hours''"
  by (simp_all add: HumanDuration_def MinSignTimeout_def MaxSignTimeout_def duration_string_def
      plural_def int_str_def nat_str.simps digit_char_def Let_def)

lemma find_append_none: "list_all (\<lambda>x. \<not> P x) xs \<Longrightarrow> find P (xs @ ys) = find P ys"
  by (induction xs) auto

lemma Evaluate_no_match:
  "list_all (\<lambda>r. \<not> matches ul (ru_match r) (factsFor req)) (pd_rules p) \<Longrightarrow>
   ev_action (Evaluate ul p req) =
     actionOr (getf (if ar_kind req = REQUEST_KIND_SSH_AUTH \<and> \<not> getf sa_bound False (get_ssh_auth req)
                     then df_unbound_ssh_auth else df_fallback)
                ACTION_UNSPECIFIED (pd_defaults p)) ACTION_PROMPT"
proof -
  assume "list_all (\<lambda>r. \<not> matches ul (ru_match r) (factsFor req)) (pd_rules p)"
  then have "find (\<lambda>r. matches ul (ru_match r) (factsFor req)) (pd_rules p) = None"
    by (simp add: find_None_iff list_all_iff)
  then show ?thesis by (simp add: Evaluate_def)
qed

lemma Evaluate_defaults:
  assumes "getf df_unbound_ssh_auth ACTION_UNSPECIFIED d =
             getf df_unbound_ssh_auth ACTION_UNSPECIFIED (pd_defaults p)"
    "getf df_fallback ACTION_UNSPECIFIED d = getf df_fallback ACTION_UNSPECIFIED (pd_defaults p)"
  shows "Evaluate ul (p\<lparr>pd_defaults := d\<rparr>) req = Evaluate ul p req"
  using assms by (auto simp: Evaluate_def split: option.split)

section \<open>Properties\<close>

text \<open>
  C29: the backtracking matcher terminates on every pattern and value and, on a value with no
  literal star, accepts exactly the values the pattern describes.
\<close>

theorem globMatchBytes_correct:
  "42 \<notin> set (go_runes val) \<Longrightarrow> globMatchBytes pattern val \<longleftrightarrow> glob (go_runes pattern) (go_runes val)"
  by (simp add: globMatchBytes_def globMatchRunes_glob)

theorem globMatchBytes_correct_witness:
  "42 \<notin> set (go_runes ''/src/x'') \<and>
   globMatchBytes ''/s*/?'' ''/src/x'' = glob (go_runes ''/s*/?'') (go_runes ''/src/x'')"
proof -
  have "42 \<notin> set (go_runes ''/src/x'')" by (simp add: go_runes_ascii)
  with globMatchBytes_correct [of "''/src/x''" "''/s*/?''"] show ?thesis by simp
qed

text \<open>
  C13: with no such restriction the matcher is only sound, not complete: it never accepts a value the
  pattern does not describe, but a star of the pattern that meets a star in the value is compared
  as a literal and forgotten, so the pattern \<^verbatim>\<open>*\<close> does not match the value \<^verbatim>\<open>*a\<close>.
\<close>

theorem globMatchBytes_star_incomplete:
  "(globMatchBytes pattern val \<longrightarrow> glob (go_runes pattern) (go_runes val)) \<and>
   \<not> globMatchBytes ''*'' ''*a'' \<and> glob (go_runes ''*'') (go_runes ''*a'')"
proof (intro conjI impI)
  show "glob (go_runes pattern) (go_runes val)" if "globMatchBytes pattern val"
    using that by (simp add: globMatchBytes_def globMatchRunes_sound)
  show "\<not> globMatchBytes ''*'' ''*a''"
    by (simp add: globMatchBytes_def globMatchRunes_def go_runes_ascii glob_loop.simps)
  show "glob (go_runes ''*'') (go_runes ''*a'')"
    by (auto simp: go_runes_ascii intro!: exI [of _ 2])
qed

theorem globMatchBytes_star_incomplete_witness:
  "globMatchBytes ''*'' ''a'' \<and> glob (go_runes ''*'') (go_runes ''a'') \<and> \<not> globMatchBytes ''*'' ''*a''"
proof -
  have "globMatchBytes ''*'' ''a''"
    by (simp add: globMatchBytes_def globMatchRunes_def go_runes_ascii glob_loop.simps)
  with globMatchBytes_star_incomplete [of "''*''" "''a''"] show ?thesis by simp
qed

text \<open>
  rules are tried in order and the first that matches decides, whatever stands after it; when
  none matches, the default for the kind of request decides, and an absent default asks a person.
\<close>

theorem Evaluate_first_match:
  assumes "list_all (\<lambda>r. \<not> matches ul (ru_match r) (factsFor req)) before"
  shows "ev_action (Evaluate ul (p\<lparr>pd_rules := before @ rules\<rparr>) req) =
     (case rules of
        [] \<Rightarrow> actionOr (getf (if ar_kind req = REQUEST_KIND_SSH_AUTH \<and> \<not> getf sa_bound False (get_ssh_auth req)
                      then df_unbound_ssh_auth else df_fallback)
                 ACTION_UNSPECIFIED (pd_defaults p)) ACTION_PROMPT
      | rule # after \<Rightarrow>
          if matches ul (ru_match rule) (factsFor req) then ru_action rule
          else ev_action (Evaluate ul (p\<lparr>pd_rules := after\<rparr>) req))"
proof (cases rules)
  case Nil
  with assms show ?thesis using Evaluate_no_match [of ul req "p\<lparr>pd_rules := before\<rparr>"] by simp
next
  case (Cons rule after)
  with assms show ?thesis by (auto simp: Evaluate_def find_append_none split: option.split)
qed

text \<open>A deny rule for one kind above a rule that approves everything.\<close>

definition sample_rule :: "match_message option \<Rightarrow> action \<Rightarrow> rule_message" where
  "sample_rule m a = \<lparr>ru_name = [], ru_description = [], ru_match = m, ru_action = a, ru_notify = None\<rparr>"

definition sample_rules :: "rule_message list" where
  "sample_rules =
     [sample_rule (Some (empty_match\<lparr>m_kinds := [REQUEST_KIND_SSHSIG]\<rparr>)) ACTION_DENY,
      sample_rule None ACTION_APPROVE]"

theorem Evaluate_first_match_witness:
  "ev_action (Evaluate id (DefaultPolicy\<lparr>pd_rules := sample_rules\<rparr>)
     (empty_request\<lparr>ar_kind := REQUEST_KIND_GIT_SIGN\<rparr>)) = ACTION_APPROVE"
proof -
  let ?req = "empty_request\<lparr>ar_kind := REQUEST_KIND_GIT_SIGN\<rparr>"
  have "list_all (\<lambda>r. \<not> matches id (ru_match r) (factsFor ?req)) (take 1 sample_rules)"
    by (simp add: sample_rules_def sample_rule_def matches_def factsFor_def empty_defs getter_defs
        empty_match_def Let_def)
  from Evaluate_first_match [OF this, where p = DefaultPolicy and rules = "drop 1 sample_rules"] show ?thesis
    by (simp add: sample_rules_def sample_rule_def matches_def)
qed

text \<open>
  the longest promise a policy makes is positive, bounds every length it offers, and is one of
  the offered lengths unless none of them is positive, when it is eight hours.
\<close>

theorem MaxGrantTTL_bounds:
  "0 < MaxGrantTTL p \<and> (\<forall>ttl \<in> set (GrantTTLs p). ttl \<le> MaxGrantTTL p) \<and>
   (MaxGrantTTL p \<in> set (GrantTTLs p) \<or>
    MaxGrantTTL p = 8 * hour \<and> (\<forall>t \<in> set (GrantTTLs p). t \<le> 0))"
  using MaxGrantTTL_pos MaxGrantTTL_upper MaxGrantTTL_attained by blast

theorem MaxGrantTTL_bounds_witness:
  "MaxGrantTTL DefaultPolicy \<in> set [15 * minute, hour, 3 * hour, 8 * hour]"
  using MaxGrantTTL_bounds [of DefaultPolicy]
  by (auto simp: GrantTTLs_def DefaultPolicy_def empty_defaults_def DefaultGrantTTLs_def)

text \<open>
  a signing budget is accepted exactly between thirty seconds and a day; what was set is what
  signing requests and promise requests then wait for, logins, pairings, rules and offered lengths
  are untouched, and a refused length leaves an error and no document.
\<close>

theorem SetSignTimeout_spec:
  "if 30 * second \<le> d \<and> d \<le> 24 * hour
   then \<exists>p'. SetSignTimeout p d = Inr p' \<and>
          Timeout p' REQUEST_KIND_GIT_SIGN = d \<and> GrantRequestTimeout p' = d \<and>
          Timeout p' REQUEST_KIND_SSH_AUTH = Timeout p REQUEST_KIND_SSH_AUTH \<and>
          Timeout p' REQUEST_KIND_PAIRING = 0 \<and> GrantTTLs p' = GrantTTLs p \<and>
          Evaluate ul p' req = Evaluate ul p req
   else SetSignTimeout p d = Inl ''a signing request waits for at least 30s and at most 24 hours''"
proof (cases "30 * second \<le> d \<and> d \<le> 24 * hour")
  case True
  then show ?thesis
    by (cases "pd_defaults p")
       (simp_all add: SetSignTimeout_def MinSignTimeout_def MaxSignTimeout_def Timeout_def
         GrantRequestTimeout_def durationOr_def GrantTTLs_def Evaluate_defaults empty_defaults_def)
next
  case False
  then show ?thesis
    using HumanDuration_bounds
    by (auto simp: SetSignTimeout_def MinSignTimeout_def MaxSignTimeout_def)
qed

end
