(* ===== verification/Prompt.thy ===== *)
theory Prompt
  imports Policy
begin

text \<open>
  Who is asking, and the prompt a person reads: \<^verbatim>\<open>src/pkg/approval/asker.go\<close> and
  \<^verbatim>\<open>src/pkg/approval/prompt.go\<close>. A Go function that fills in a \<^verbatim>\<open>*Prompt\<close> is a function from
  prompts to prompts. Quoting (\<^verbatim>\<open>%q\<close>) and the two date layouts are the fields of a record of
  formats, because the code only calls the standard library for them.
\<close>

section \<open>Text the code writes in UTF-8\<close>

definition em_dash :: string where "em_dash = [CHR 0x20, CHR 0xE2, CHR 0x80, CHR 0x94, CHR 0x20]"
definition left_arrow :: string where "left_arrow = [CHR 0x20, CHR 0xE2, CHR 0x86, CHR 0x90, CHR 0x20]"
definition right_arrow :: string where "right_arrow = [CHR 0x20, CHR 0xE2, CHR 0x86, CHR 0x92, CHR 0x20]"
definition ellipsis :: string where "ellipsis = [CHR 0xE2, CHR 0x80, CHR 0xA6]"
definition newline :: string where "newline = [CHR 0x0A]"

definition hex_digit :: "nat \<Rightarrow> char" where
  "hex_digit n = ''0123456789abcdef'' ! n"

text \<open>The verb \<^verbatim>\<open>%x\<close> on bytes.\<close>

definition hex_string :: "bytes \<Rightarrow> string" where
  "hex_string b = concat (map (\<lambda>c. [hex_digit (of_char c div 16), hex_digit (of_char c mod 16)]) b)"

text \<open>\<^verbatim>\<open>strings.TrimRight\<close> of one byte, and \<^verbatim>\<open>strings.TrimSuffix\<close>.\<close>

definition trim_right :: "char \<Rightarrow> string \<Rightarrow> string" where
  "trim_right c s = rev (dropWhile (\<lambda>x. x = c) (rev s))"

definition trim_suffix :: "string \<Rightarrow> string \<Rightarrow> string" where
  "trim_suffix s suf = (if has_suffix s suf then take (length s - length suf) s else s)"

record formats =
  fm_quote :: "string \<Rightarrow> string"
  fm_datetime :: "time \<Rightarrow> string"
  fm_local_rfc1123 :: "time \<Rightarrow> string"

section \<open>Who is asking\<close>

definition programName :: "string \<Rightarrow> string" where
  "programName executable = (if executable = [] then [] else file_base executable)"

definition ancestry :: "client_process option \<Rightarrow> process_ancestor list" where
  "ancestry proc = getf cp_ancestry [] proc"

definition sessionLeader :: "client_process option \<Rightarrow> process_ancestor option" where
  "sessionLeader proc = find pa_session_leader (ancestry proc)"

definition sessionCreator :: "client_process option \<Rightarrow> process_ancestor option" where
  "sessionCreator proc = find pa_started_session (ancestry proc)"

definition AskerName :: "client_process option \<Rightarrow> string" where
  "AskerName proc =
     (case sessionCreator proc of
        Some creator \<Rightarrow> programName (pa_executable creator)
      | None \<Rightarrow>
          (case sessionLeader proc of
             Some leader \<Rightarrow> programName (pa_executable leader)
           | None \<Rightarrow>
               if getf cp_session_id 0 proc \<noteq> 0 \<and> getf cp_pid 0 proc = getf cp_session_id 0 proc
               then programName (getf cp_executable [] proc) else []))"

definition GrantSubject :: "approval_request \<Rightarrow> string" where
  "GrantSubject req =
     (let proc = requester_process req
      in if getf cp_session_id 0 proc = 0 then []
         else case sessionCreator proc of
             Some creator \<Rightarrow> ''this '' @ programName (pa_executable creator) @ '' window''
           | None \<Rightarrow>
               (case sessionLeader proc of
                  Some leader \<Rightarrow> programName (pa_executable leader)
                | None \<Rightarrow> programName (getf cp_executable [] proc)))"

definition GrantMachine :: "approval_request \<Rightarrow> string" where
  "GrantMachine req =
     (let name = getf ri_name [] (ar_requester req)
      in if name \<noteq> [] then name
         else if getf ri_local False (ar_requester req) then ''this machine''
         else ''that machine'')"

text \<open>How far a timed approval carries, \<^verbatim>\<open>grants.go\<close>. The narrower reach is the zero value.\<close>

datatype GrantReach = GrantReachSession | GrantReachMachine

definition GrantPromise :: "approval_request \<Rightarrow> GrantReach \<Rightarrow> string" where
  "GrantPromise req reach =
     (if reach = GrantReachMachine then ''any session on '' @ GrantMachine req else GrantSubject req)"

definition AskerDetail :: "client_process option \<Rightarrow> string" where
  "AskerDetail proc =
     (let name = AskerName proc
      in if name = [] then []
         else name @ '' (session '' @ int_str (getf cp_session_id 0 proc) @ '')'')"

definition AskerChain :: "client_process option \<Rightarrow> string" where
  "AskerChain proc =
     (if ancestry proc = [] then []
      else join left_arrow
        (map (\<lambda>above.
           (let name = programName (pa_executable above)
            in if name = [] then ''pid '' @ int_str (pa_pid above) else name)) (ancestry proc)))"

definition SameSession :: "client_process option \<Rightarrow> client_process option \<Rightarrow> bool" where
  "SameSession a b =
     (if a = None \<or> b = None then False
      else getf cp_session_id 0 a \<noteq> 0 \<and> getf cp_session_id 0 a = getf cp_session_id 0 b)"

section \<open>The prompt\<close>

record detail =
  d_label :: string
  d_value :: string
  d_asserted :: bool

abbreviation Detail :: "string \<Rightarrow> string \<Rightarrow> bool \<Rightarrow> detail" where
  "Detail l v a \<equiv> \<lparr>d_label = l, d_value = v, d_asserted = a\<rparr>"

record prompt =
  p_title :: string
  p_subject :: string
  p_details :: "detail list"
  p_warnings :: "string list"

definition detail_line :: "detail \<Rightarrow> string" where
  "detail_line d =
     newline @ ''  '' @ d_label d @ '': '' @ d_value d @
     (if d_asserted d then '' (reported by the requester, unverified)'' else [])"

definition warning_line :: "string \<Rightarrow> string" where
  "warning_line w = newline @ ''  ! '' @ w"

definition Text :: "prompt \<Rightarrow> string" where
  "Text p =
     p_title p @ (if p_subject p \<noteq> [] then em_dash @ p_subject p else []) @
     concat (map detail_line (p_details p)) @ concat (map warning_line (p_warnings p))"

definition add_detail :: "detail \<Rightarrow> prompt \<Rightarrow> prompt" where
  "add_detail d p = p\<lparr>p_details := p_details p @ [d]\<rparr>"

definition add_warning :: "string \<Rightarrow> prompt \<Rightarrow> prompt" where
  "add_warning w p = p\<lparr>p_warnings := p_warnings p @ [w]\<rparr>"

lemmas add_defs = add_detail_def add_warning_def

definition DisplayHost :: "host_key option \<Rightarrow> string" where
  "DisplayHost host =
     (case host of
        None \<Rightarrow> ''unknown''
      | Some h \<Rightarrow> (case hk_known_hosts_names h of n # _ \<Rightarrow> n | [] \<Rightarrow> hk_fingerprint h))"

definition pluralHops :: "int \<Rightarrow> string" where
  "pluralHops hops =
     (if hops = 1 then ''1 forwarded agent hop'' else int_str hops @ '' forwarded agent hops'')"

definition shortHex :: "bytes \<Rightarrow> string" where
  "shortHex b = (if 8 < length b then hex_string (take 8 b) @ ellipsis else hex_string b)"

definition forwarded_warning :: "ssh_auth_request option \<Rightarrow> string" where
  "forwarded_warning auth =
     ''this request arrived through '' @ pluralHops (getf sa_forwarded_hops 0 auth) @
     '' and always needs confirmation''"

definition unknown_destination_warning :: string where
  "unknown_destination_warning =
     ''the client did not say where it is connecting, so the destination is unknown''"

definition parked_warning :: string where
  "parked_warning = ''this key was put in the agent by a program, not made or imported here''"

definition ssh_title :: "approval_request \<Rightarrow> string" where
  "ssh_title req =
     (let user = getf sa_username [] (get_ssh_auth req)
      in if ar_grant_only req
         then (if user \<noteq> [] then ''Allow SSH logins as '' @ user else ''Allow SSH logins'')
         else (if user \<noteq> [] then ''SSH login as '' @ user else ''SSH login''))"

definition host_key_detail :: "approval_request \<Rightarrow> host_key \<Rightarrow> detail" where
  "host_key_detail req host =
     (let payload = getf sa_payload_destination None (get_ssh_auth req);
          base = hk_fingerprint host @
            (if hk_known host then '', matched in known_hosts'' else '', not in known_hosts'');
          origin =
            (if payload \<noteq> None \<and> getf hk_fingerprint [] payload = hk_fingerprint host
             then (if ar_grant_only req
                   then ''; read from the server now, and matched against '' @
                        ''the signed payload when a login actually happens''
                   else ''; named in the signed payload'')
             else [])
      in Detail ''Host key'' (base @ origin) False)"

definition renderSSHAuth :: "prompt \<Rightarrow> approval_request \<Rightarrow> prompt" where
  "renderSSHAuth p req =
     (let auth = get_ssh_auth req;
          p1 = p\<lparr>p_title := ssh_title req, p_subject := getf sa_destination_label [] auth\<rparr>;
          p2 = (case getf sa_destination None auth of
                  None \<Rightarrow> p1
                | Some host \<Rightarrow> add_detail (host_key_detail req host) p1);
          p3 = (if \<not> getf sa_bound False auth \<and> getf sa_payload_destination None auth = None
                then add_warning unknown_destination_warning p2 else p2);
          p4 = (if getf sa_forwarded False auth then add_warning (forwarded_warning auth) p3 else p3);
          chain = getf sa_binding_chain [] auth
      in if 1 < length chain
         then add_detail (Detail ''Path''
                (join right_arrow (map (\<lambda>b. DisplayHost (sb_host_key b)) chain)) False) p4
         else p4)"

definition repositoryName :: "git_context option \<Rightarrow> string" where
  "repositoryName git =
     (let path = trim_right (CHR ''/'') (getf gc_repository_path [] git);
          name = (if path = []
                  then trim_suffix (trim_right (CHR ''/'') (getf gc_origin_url [] git)) ''.git''
                  else path)
      in case cut_last (\<lambda>c. c = CHR ''/'' \<or> c = CHR '':'') name of
           None \<Rightarrow> name | Some (_, after) \<Rightarrow> after)"

definition gitTitle :: "string \<Rightarrow> approval_request \<Rightarrow> git_context option \<Rightarrow> string" where
  "gitTitle title req git =
     title @
     (case ar_requester req of
        Some who \<Rightarrow> if \<not> ri_local who \<and> ri_name who \<noteq> [] then '' for '' @ ri_name who else []
      | None \<Rightarrow> []) @
     (let repo = repositoryName git in if repo \<noteq> [] then '' in '' @ repo else [])"

definition GitIdentityString :: "formats \<Rightarrow> git_identity option \<Rightarrow> string" where
  "GitIdentityString fm ident =
     (case ident of
        None \<Rightarrow> []
      | Some i \<Rightarrow>
          (let who = (if gi_email i \<noteq> []
                      then (if gi_name i = [] then gi_email i
                            else gi_name i @ '' <'' @ gi_email i @ ''>'')
                      else gi_name i)
           in case gi_time i of
                None \<Rightarrow> who
              | Some t \<Rightarrow>
                  (let stamp = fm_datetime fm t @
                         (if gi_timezone i \<noteq> [] then '' '' @ gi_timezone i else [])
                   in if who = [] then stamp else who @ '', '' @ stamp)))"

definition committerIfDifferent :: "formats \<Rightarrow> git_object option \<Rightarrow> string" where
  "committerIfDifferent fm obj =
     (let committer = GitIdentityString fm (getf go_committer None obj)
      in if committer = GitIdentityString fm (getf go_author None obj) then [] else committer)"

definition DiffSummary :: "git_diff option \<Rightarrow> string" where
  "DiffSummary diff =
     (case diff of
        None \<Rightarrow> []
      | Some d \<Rightarrow>
          if gd_error d \<noteq> [] then ''not available: '' @ gd_error d
          else if gd_files_changed d = 0 then ''no files changed''
          else plural (gd_files_changed d) ''file'' ''files'' @ '' changed'' @ '', '' @
               plural (gd_insertions d) ''insertion'' ''insertions'' @ '', '' @
               plural (gd_deletions d) ''deletion'' ''deletions'' @
               (if gd_truncated d then '' (truncated)'' else []))"

definition git_details :: "formats \<Rightarrow> git_context \<Rightarrow> detail list" where
  "git_details fm git =
     (let obj = gc_parsed git; proven = \<not> gc_verified_against_payload git
      in [Detail ''Repository'' (gc_repository_path git) True,
          Detail ''Branch'' (gc_branch git) True,
          Detail ''Author'' (GitIdentityString fm (getf go_author None obj)) proven,
          Detail ''Committer'' (committerIfDifferent fm obj) proven,
          Detail ''Tagger'' (GitIdentityString fm (getf go_tagger None obj)) proven,
          Detail ''Tag'' (getf go_tag [] obj) proven,
          Detail ''Changes'' (DiffSummary (gc_diff git)) True])"

definition renderGitSign :: "formats \<Rightarrow> prompt \<Rightarrow> approval_request \<Rightarrow> prompt" where
  "renderGitSign fm p req =
     (let git = get_git_context req;
          q =
            (case git of
               None \<Rightarrow>
                 add_detail
                   (Detail ''Digest'' (shortHex (getf ss_message_digest [] (get_sshsig req))) False)
                   (p\<lparr>p_title := ''Git signature'', p_subject := ''a git object''\<rparr>)
             | Some g \<Rightarrow>
                 (let obj = gc_parsed g;
                      title = (if getf go_type [] obj = ''tag'' then ''Git tag signature''
                               else ''Git signature'');
                      q1 = p\<lparr>p_title := title, p_subject := getf go_subject [] obj,
                             p_details := p_details p @
                               filter (\<lambda>d. d_value d \<noteq> []) (git_details fm g)\<rparr>
                  in if gc_verification_error g \<noteq> []
                     then add_warning (gc_verification_error g) q1 else q1))
      in q\<lparr>p_title := gitTitle (p_title q) req git\<rparr>)"

definition renderParkedKey :: "formats \<Rightarrow> prompt \<Rightarrow> local_key option \<Rightarrow> prompt" where
  "renderParkedKey fm p parked =
     (case parked of
        None \<Rightarrow> p
      | Some k \<Rightarrow>
          (let proc = lk_added_by k;
               by0 = (if proc = None then ''a program''
                      else if AskerDetail proc \<noteq> [] then AskerDetail proc
                      else if getf cp_executable [] proc \<noteq> [] then getf cp_executable [] proc
                      else ''a program'');
               by1 = (if proc \<noteq> None \<and> AskerChain proc \<noteq> []
                      then by0 @ '', via '' @ AskerChain proc else by0);
               p1 = add_detail (Detail ''Key parked by'' by1 False) p;
               p2 = (case lk_expires_at k of
                       None \<Rightarrow> p1
                     | Some t \<Rightarrow> add_detail (Detail ''Key expires'' (fm_local_rfc1123 fm t) False) p1)
           in add_warning parked_warning p2))"

definition renderRequester :: "prompt \<Rightarrow> requester_info option \<Rightarrow> prompt" where
  "renderRequester p requester =
     (case requester of
        None \<Rightarrow> p
      | Some r \<Rightarrow>
          if \<not> ri_local r
          then add_detail
                 (Detail ''Requested by'' (if ri_name r = [] then ri_instance_id r else ri_name r) False) p
          else (case ri_process r of
                  None \<Rightarrow> p
                | Some proc \<Rightarrow>
                    (let pid = int_str (cp_pid proc);
                         v = (if cp_executable proc = [] then ''pid '' @ pid
                              else cp_executable proc @ '' (pid '' @ pid @ '')'');
                         p1 = add_detail (Detail ''Program'' v False) p;
                         asker = AskerDetail (Some proc);
                         p2 = (if asker \<noteq> [] then add_detail (Detail ''Asked by'' asker False) p1 else p1);
                         chain = AskerChain (Some proc)
                     in if chain \<noteq> [] then add_detail (Detail ''Started by'' chain False) p2 else p2)))"

definition key_details :: "key_ref option \<Rightarrow> detail list" where
  "key_details key =
     (case key of
        None \<Rightarrow> []
      | Some k \<Rightarrow>
          (let l0 = kr_label k;
               l1 = (if kr_comment k \<noteq> [] \<and> kr_comment k \<noteq> l0
                     then l0 @ '' ('' @ kr_comment k @ '')'' else l0);
               l2 = (if l1 = [] then ''(no label)'' else l1)
           in [Detail ''Key'' l2 False, Detail ''Fingerprint'' (kr_fingerprint k) False]))"

definition RenderPrompt :: "formats \<Rightarrow> approval_request \<Rightarrow> prompt" where
  "RenderPrompt fm req =
     (let p = \<lparr>p_title = ''Signing request'', p_subject = [], p_details = [], p_warnings = []\<rparr>;
          p1 =
            (case ar_kind req of
               REQUEST_KIND_SSH_AUTH \<Rightarrow> renderSSHAuth p req
             | REQUEST_KIND_GIT_SIGN \<Rightarrow> renderGitSign fm p req
             | REQUEST_KIND_SSHSIG \<Rightarrow>
                 p\<lparr>p_title := ''Signature request'',
                   p_subject := ''namespace '' @ fm_quote fm (getf ss_namespace [] (get_sshsig req))\<rparr>
             | REQUEST_KIND_OPAQUE_SIGN \<Rightarrow>
                 add_warning (case ar_operation req of OpOpaqueSign os \<Rightarrow> os_reason os | _ \<Rightarrow> [])
                   (p\<lparr>p_title := ''Unrecognised signing request'',
                      p_subject := ''the payload is neither an SSH login nor a signature''\<rparr>)
             | REQUEST_KIND_PAIRING \<Rightarrow>
                 p\<lparr>p_title := ''Pairing request'',
                   p_subject := (case ar_operation req of OpPairing pr \<Rightarrow> pr_peer_name pr | _ \<Rightarrow> [])\<rparr>
             | REQUEST_KIND_KEY_LIST \<Rightarrow> p\<lparr>p_title := ''Key listing request''\<rparr>
             | REQUEST_KIND_UNSPECIFIED \<Rightarrow> p\<lparr>p_title := ''Unclassified request''\<rparr>
             | REQUEST_KIND_UNKNOWN _ \<Rightarrow> p);
          p2 = p1\<lparr>p_details := p_details p1 @ key_details (ar_key req)\<rparr>
      in renderRequester (renderParkedKey fm p2 (ar_local_key req)) (ar_requester req))"

section \<open>Lemmas\<close>

text \<open>What each helper does to the two lists of a prompt.\<close>

lemma add_simps [simp]:
  "p_details (add_detail d p) = p_details p @ [d]" "p_warnings (add_detail d p) = p_warnings p"
  "p_details (add_warning w p) = p_details p" "p_warnings (add_warning w p) = p_warnings p @ [w]"
  by (simp_all add: add_defs)

lemma renderRequester_warnings [simp]: "p_warnings (renderRequester p r) = p_warnings p"
  by (simp add: renderRequester_def Let_def split: option.splits)

lemma renderParkedKey_warnings [simp]:
  "p_warnings (renderParkedKey fm p k) = p_warnings p @ (if k = None then [] else [parked_warning])"
  by (simp add: renderParkedKey_def Let_def split: option.splits)

lemma renderSSHAuth_warnings:
  "p_warnings (renderSSHAuth p req) = p_warnings p @
     (if \<not> getf sa_bound False (get_ssh_auth req) \<and>
         getf sa_payload_destination None (get_ssh_auth req) = None
      then [unknown_destination_warning] else []) @
     (if getf sa_forwarded False (get_ssh_auth req) then [forwarded_warning (get_ssh_auth req)] else [])"
  by (simp add: renderSSHAuth_def Let_def split: option.splits)

lemma in_concat_map: "x \<in> set xs \<Longrightarrow> \<exists>a b. concat (map f xs) = a @ f x @ b"
  by (metis concat.simps(2) concat_append list.simps(9) map_append split_list)

lemma Text_shows_warning: "w \<in> set (p_warnings p) \<Longrightarrow> \<exists>a b. Text p = a @ warning_line w @ b"
  using in_concat_map [of w "p_warnings p" warning_line]
  unfolding Text_def by (metis append_assoc)

lemma Text_shows_detail: "d \<in> set (p_details p) \<Longrightarrow> \<exists>a b. Text p = a @ detail_line d @ b"
proof -
  assume "d \<in> set (p_details p)"
  then obtain a b where "concat (map detail_line (p_details p)) = a @ detail_line d @ b"
    using in_concat_map [of d "p_details p" detail_line] by blast
  then have "Text p = (p_title p @ (if p_subject p \<noteq> [] then em_dash @ p_subject p else []) @ a) @
      detail_line d @ (b @ concat (map warning_line (p_warnings p)))"
    by (simp add: Text_def)
  then show ?thesis by blast
qed

text \<open>The labels that only the environment of a commit carries never come from anything else.\<close>

definition asserted_labels :: "string list" where
  "asserted_labels = [''Repository'', ''Branch'', ''Changes'']"

definition object_labels :: "string list" where
  "object_labels = [''Author'', ''Committer'', ''Tagger'', ''Tag'']"

lemma renderRequester_details:
  "d \<in> set (p_details (renderRequester p r)) \<Longrightarrow>
   d \<in> set (p_details p) \<or> d_label d \<in> {''Requested by'', ''Program'', ''Asked by'', ''Started by''}"
  by (auto simp: renderRequester_def Let_def split: option.splits if_splits)

lemma renderParkedKey_details:
  "d \<in> set (p_details (renderParkedKey fm p k)) \<Longrightarrow>
   d \<in> set (p_details p) \<or> d_label d \<in> {''Key parked by'', ''Key expires''}"
  by (auto simp: renderParkedKey_def Let_def split: option.splits if_splits)

lemma key_details_labels: "d \<in> set (key_details k) \<Longrightarrow> d_label d \<in> {''Key'', ''Fingerprint''}"
  by (auto simp: key_details_def Let_def split: option.splits)

lemma renderGitSign_details:
  "d \<in> set (p_details (renderGitSign fm p req)) \<Longrightarrow>
   d \<in> set (p_details p) \<or> d_label d = ''Digest'' \<or>
   (\<exists>git. get_git_context req = Some git \<and> d \<in> set (git_details fm git))"
  by (auto simp: renderGitSign_def Let_def split: option.splits if_splits)

lemma git_prompt_details:
  assumes "ar_kind req = REQUEST_KIND_GIT_SIGN" "d \<in> set (p_details (RenderPrompt fm req))"
    "d_label d \<in> set (asserted_labels @ object_labels)"
  shows "\<exists>git. get_git_context req = Some git \<and> d \<in> set (git_details fm git)"
proof -
  let ?p = "\<lparr>p_title = ''Signing request'', p_subject = [], p_details = [], p_warnings = []\<rparr>"
  let ?g = "renderGitSign fm ?p req"
  have "d \<in> set (p_details (renderRequester (renderParkedKey fm
          (?g\<lparr>p_details := p_details ?g @ key_details (ar_key req)\<rparr>) (ar_local_key req))
          (ar_requester req)))"
    using assms(1,2) by (simp add: RenderPrompt_def Let_def)
  from renderRequester_details [OF this] renderParkedKey_details key_details_labels
    renderGitSign_details [of d fm ?p req] assms(3)
  show ?thesis
    by (fastforce simp: asserted_labels_def object_labels_def)
qed

section \<open>Properties\<close>

text \<open>
  a forwarded login, a login to an unknown destination and a parked key are each announced by
  their warning, and every warning of a prompt is a line of the text the audit log keeps.
\<close>

theorem RenderPrompt_warns:
  assumes "w \<in> set ((if ar_local_key req \<noteq> None then [parked_warning] else []) @
    (if ar_kind req = REQUEST_KIND_SSH_AUTH \<and> getf sa_forwarded False (get_ssh_auth req)
     then [forwarded_warning (get_ssh_auth req)] else []) @
    (if ar_kind req = REQUEST_KIND_SSH_AUTH \<and> \<not> getf sa_bound False (get_ssh_auth req) \<and>
        getf sa_payload_destination None (get_ssh_auth req) = None
     then [unknown_destination_warning] else []))"
  shows "\<exists>a b. Text (RenderPrompt fm req) = a @ warning_line w @ b"
  using assms
  by (intro Text_shows_warning)
     (auto simp: RenderPrompt_def Let_def renderSSHAuth_warnings split: if_splits)

theorem RenderPrompt_warns_witness:
  "\<exists>a b. Text (RenderPrompt \<lparr>fm_quote = id, fm_datetime = int_str, fm_local_rfc1123 = int_str\<rparr>
     (empty_request\<lparr>ar_kind := REQUEST_KIND_SSH_AUTH,
        ar_operation := OpSshAuth (empty_ssh_auth\<lparr>sa_forwarded := True, sa_forwarded_hops := 1\<rparr>)\<rparr>)) =
     a @ warning_line
       ''this request arrived through 1 forwarded agent hop and always needs confirmation'' @ b"
  by (rule RenderPrompt_warns)
     (simp add: empty_defs getter_defs forwarded_warning_def pluralHops_def)

text \<open>
  on a git prompt the repository, the branch and the size of the change are always marked as
  the requester's word, and what is shown of the commit itself is left unmarked only when the
  object was verified against the payload to be signed.
\<close>

theorem RenderPrompt_git_asserted:
  assumes "ar_kind req = REQUEST_KIND_GIT_SIGN" "d \<in> set (p_details (RenderPrompt fm req))"
  shows "(d_label d \<in> set asserted_labels \<longrightarrow> d_asserted d) \<and>
    (d_label d \<in> set object_labels \<longrightarrow>
       d_asserted d = (\<not> getf gc_verified_against_payload False (get_git_context req)))"
proof -
  have "\<exists>git. get_git_context req = Some git \<and> d \<in> set (git_details fm git)"
    if "d_label d \<in> set (asserted_labels @ object_labels)"
    using git_prompt_details [OF assms that] .
  then show ?thesis
    by (auto simp: git_details_def asserted_labels_def object_labels_def Let_def)
qed

definition sample_git_request :: approval_request where
  "sample_git_request = empty_request\<lparr>ar_kind := REQUEST_KIND_GIT_SIGN,
     ar_operation := OpSshsig \<lparr>ss_namespace = ''git'', ss_hash_algorithm = ''sha512'',
       ss_message_digest = [], ss_git_context = Some (empty_git_context\<lparr>gc_branch := ''main''\<rparr>)\<rparr>\<rparr>"

theorem RenderPrompt_git_asserted_witness:
  "\<exists>d \<in> set (p_details (RenderPrompt \<lparr>fm_quote = id, fm_datetime = int_str, fm_local_rfc1123 = int_str\<rparr>
     sample_git_request)). d_label d = ''Branch'' \<and> d_asserted d"
proof -
  let ?fm = "\<lparr>fm_quote = id, fm_datetime = int_str, fm_local_rfc1123 = int_str\<rparr>"
  have "Detail ''Branch'' ''main'' True \<in> set (p_details (RenderPrompt ?fm sample_git_request))"
    by (simp add: RenderPrompt_def renderGitSign_def git_details_def sample_git_request_def
        empty_defs getter_defs renderParkedKey_def renderRequester_def key_details_def Let_def)
  moreover have "ar_kind sample_git_request = REQUEST_KIND_GIT_SIGN"
    by (simp add: sample_git_request_def)
  ultimately show ?thesis
    using RenderPrompt_git_asserted [of sample_git_request "Detail ''Branch'' ''main'' True" ?fm]
    by (intro bexI [of _ "Detail ''Branch'' ''main'' True"]) (simp_all add: asserted_labels_def)
qed

end
