(* ===== verification/Grants.thy ===== *)
theory Grants
  imports Prompt
begin

text \<open>
  Timed promises, \<^verbatim>\<open>src/pkg/approval/grants.go\<close> and \<^verbatim>\<open>quiet.go\<close>: the scope a request falls under,
  when a scope covers a request, how a promise is made, widened and extended, and until when a
  requester would be answered without asking. An identifier that the code draws at random is an
  argument.
\<close>

section \<open>Scopes\<close>

definition scopeFor :: "approval_request \<Rightarrow> grant_scope" where
  "scopeFor req =
     (let auth = get_ssh_auth req;
          payload = getf sa_payload_destination None auth;
          label = getf sa_destination_label [] auth
      in \<lparr>gs_key_fingerprint = key_fingerprint req,
          gs_kind = ar_kind req,
          gs_destination =
            (case payload of
               None \<Rightarrow> []
             | Some h \<Rightarrow> if label = [] then hk_fingerprint h else label),
          gs_repository = getf gc_repository_path [] (get_git_context req),
          gs_requester_instance_id = requester_id req,
          gs_username = getf sa_username [] auth,
          gs_destination_fingerprint = getf hk_fingerprint [] payload,
          gs_session_id = getf cp_session_id 0 (requester_process req)\<rparr>)"

definition AssertedScope :: "approval_request \<Rightarrow> detail list" where
  "AssertedScope req =
     (let repo = getf gc_repository_path [] (get_git_context req)
      in if repo \<noteq> [] then [Detail ''Repository'' repo True] else [])"

definition withRequestedTTL :: "duration list \<Rightarrow> duration \<Rightarrow> duration \<Rightarrow> duration list" where
  "withRequestedTTL ttls requested maxTTL =
     (if requested \<le> 0 \<or> maxTTL < requested then ttls
      else if requested \<in> set ttls then ttls
      else sort (ttls @ [requested]))"

definition covers :: "grant_scope \<Rightarrow> approval_request \<Rightarrow> bool" where
  "covers scope req =
     (let want = scopeFor req
      in if gs_key_fingerprint scope \<noteq> gs_key_fingerprint want \<or>
            gs_kind scope \<noteq> gs_kind want \<or>
            gs_destination_fingerprint scope \<noteq> gs_destination_fingerprint want \<or>
            gs_repository scope \<noteq> gs_repository want \<or>
            gs_requester_instance_id scope \<noteq> gs_requester_instance_id want \<or>
            gs_username scope \<noteq> gs_username want
         then False
         else if gs_session_id scope = 0 then True
         else gs_session_id scope = gs_session_id want)"

definition findGrant :: "grant list \<Rightarrow> approval_request \<Rightarrow> time \<Rightarrow> grant option" where
  "findGrant grants req now =
     find (\<lambda>g. now < as_time (gr_expires_at g) \<and> covers (gr_scope g) req) grants"

section \<open>Making and extending a promise\<close>

definition grantScopeFor :: "approval_request \<Rightarrow> GrantReach \<Rightarrow> grant_scope" where
  "grantScopeFor req reach =
     (let scope = scopeFor req
      in if reach = GrantReachMachine then scope\<lparr>gs_session_id := 0\<rparr> else scope)"

definition DescribeScope :: "grant_scope \<Rightarrow> string \<Rightarrow> duration \<Rightarrow> string" where
  "DescribeScope scope subject ttl =
     (let what =
        (case gs_kind scope of
           REQUEST_KIND_SSH_AUTH \<Rightarrow>
             (if gs_destination_fingerprint scope \<noteq> []
              then ''SSH logins as '' @ gs_username scope @ '' to '' @ gs_destination scope
              else ''SSH logins to unidentified destinations'')
         | REQUEST_KIND_GIT_SIGN \<Rightarrow>
             (if gs_repository scope \<noteq> [] then ''git signing in '' @ gs_repository scope
              else ''git signing'')
         | REQUEST_KIND_SSHSIG \<Rightarrow> ''SSHSIG signing''
         | _ \<Rightarrow> ''requests'')
      in if subject \<noteq> []
         then what @ '' with this key from '' @ subject @ '', for '' @ HumanDuration ttl
         else what @ '' with this key, for '' @ HumanDuration ttl)"

definition newGrant ::
    "string \<Rightarrow> approval_request \<Rightarrow> duration \<Rightarrow> GrantReach \<Rightarrow> time \<Rightarrow> grant" where
  "newGrant fresh_id req ttl reach now =
     (let scope = grantScopeFor req reach; promise = GrantPromise req reach
      in empty_grant\<lparr>
           gr_grant_id := fresh_id,
           gr_scope := scope,
           gr_created_at := Some now,
           gr_expires_at := Some (now + ttl),
           gr_origin_request_id := ar_request_id req,
           gr_description := DescribeScope scope promise ttl,
           gr_promise_subject := promise\<rparr>)"

definition extendedGrant :: "grant \<Rightarrow> duration \<Rightarrow> time \<Rightarrow> grant" where
  "extendedGrant g extra now =
     g\<lparr>gr_expires_at := Some (now + extra),
       gr_description := DescribeScope (gr_scope g) (gr_promise_subject g) extra\<rparr>"

section \<open>Quiet answers\<close>

text \<open>
  The grant store is absent (\<^const>\<open>None\<close>), fails to answer (\<^const>\<open>Inl\<close>) or lists its grants.
\<close>

definition quiet_grant :: "string \<Rightarrow> time \<Rightarrow> grant \<Rightarrow> bool" where
  "quiet_grant requester now g \<longleftrightarrow>
     \<not> gr_delegated g \<and> gs_requester_instance_id (gr_scope g) = requester \<and>
     now < as_time (gr_expires_at g)"

definition QuietUntil :: "(string + grant list) option \<Rightarrow> string \<Rightarrow> time \<Rightarrow> time" where
  "QuietUntil store requester now =
     (case store of
        None \<Rightarrow> zero_time
      | Some answer \<Rightarrow>
          if requester = [] then zero_time
          else (case answer of
                  Inl e \<Rightarrow> zero_time
                | Inr grants \<Rightarrow>
                    fold (\<lambda>g latest.
                        if \<not> quiet_grant requester now g then latest
                        else if latest < as_time (gr_expires_at g) then as_time (gr_expires_at g)
                        else latest) grants zero_time))"

section \<open>Lemmas\<close>

text \<open>The part of a scope that must be equal, whatever the reach of the promise.\<close>

definition pinned :: "grant_scope \<Rightarrow> string \<times> request_kind \<times> string \<times> string \<times> string \<times> string" where
  "pinned s = (gs_key_fingerprint s, gs_kind s, gs_destination_fingerprint s, gs_repository s,
               gs_requester_instance_id s, gs_username s)"

lemma covers_iff:
  "covers s req \<longleftrightarrow>
     pinned s = pinned (scopeFor req) \<and>
     (gs_session_id s = 0 \<or> gs_session_id s = gs_session_id (scopeFor req))"
  by (auto simp: covers_def pinned_def Let_def)

lemma pinned_session [simp]: "pinned (s\<lparr>gs_session_id := n\<rparr>) = pinned s"
  by (simp add: pinned_def)

lemma grantScopeFor_pinned [simp]: "pinned (grantScopeFor req reach) = pinned (scopeFor req)"
  by (simp add: grantScopeFor_def Let_def)

lemma grantScopeFor_session [simp]:
  "gs_session_id (grantScopeFor req reach) =
     (if reach = GrantReachMachine then 0 else gs_session_id (scopeFor req))"
  by (simp add: grantScopeFor_def Let_def)

lemma grantScopeFor_covers: "covers (grantScopeFor req reach) req"
  by (simp add: covers_iff)

lemma newGrant_simps [simp]:
  "gr_grant_id (newGrant i req ttl reach now) = i"
  "gr_scope (newGrant i req ttl reach now) = grantScopeFor req reach"
  "gr_expires_at (newGrant i req ttl reach now) = Some (now + ttl)"
  "gr_delegated (newGrant i req ttl reach now) = False"
  "gr_use_count (newGrant i req ttl reach now) = 0"
  "gr_recent_uses (newGrant i req ttl reach now) = []"
  "gr_revoke_pending (newGrant i req ttl reach now) = False"
  "gr_created_at (newGrant i req ttl reach now) = Some now"
  "gr_origin_request_id (newGrant i req ttl reach now) = ar_request_id req"
  by (simp_all add: newGrant_def Let_def empty_grant_def)

lemma findGrant_SomeD:
  "findGrant gs req now = Some g \<Longrightarrow> g \<in> set gs \<and> now < as_time (gr_expires_at g) \<and> covers (gr_scope g) req"
  unfolding findGrant_def by (drule find_SomeD) simp

lemma findGrant_None_iff:
  "findGrant gs req now = None \<longleftrightarrow>
     (\<forall>g \<in> set gs. now < as_time (gr_expires_at g) \<longrightarrow> \<not> covers (gr_scope g) req)"
  by (auto simp: findGrant_def find_None_iff)

lemma extendedGrant_same_promise:
  "(extendedGrant g extra now)\<lparr>gr_expires_at := gr_expires_at g, gr_description := gr_description g\<rparr> = g"
  "as_time (gr_expires_at (extendedGrant g extra now)) = now + extra"
  "gr_grant_id (extendedGrant g extra now) = gr_grant_id g"
  "gr_scope (extendedGrant g extra now) = gr_scope g"
  "gr_delegated (extendedGrant g extra now) = gr_delegated g"
  by (simp_all add: extendedGrant_def)

lemma fold_latest:
  "fold (\<lambda>g latest. if \<not> P g then latest else if latest < f g then f g else latest) gs (a :: int) =
     Max (insert a (f ` {g \<in> set gs. P g}))"
proof (induction gs arbitrary: a)
  case (Cons g gs)
  show ?case
  proof (cases "P g")
    case True
    let ?S = "f ` {x \<in> set gs. P x}"
    have "f ` {x \<in> set (g # gs). P x} = insert (f g) ?S" using True by auto
    then have "Max (insert a (f ` {x \<in> set (g # gs). P x})) = Max (insert a (insert (f g) ?S))" by simp
    also have "\<dots> = Max (insert (max a (f g)) ?S)" by (rule Max_insert_two) simp
    finally show ?thesis using True Cons by (simp add: max_def)
  next
    case False
    then have "{x \<in> set (g # gs). P x} = {x \<in> set gs. P x}" by auto
    with False Cons show ?thesis by simp
  qed
qed simp

section \<open>Properties\<close>

text \<open>
  a fresh promise answers a later request exactly while it runs and only when the request
  agrees with the one it was made for on the key, the kind, the proven host, the repository, the
  requester and the user name; a machine-wide promise leaves out the session and nothing else.
\<close>

theorem newGrant_answers:
  "findGrant [newGrant i req ttl reach now] req' t \<noteq> None \<longleftrightarrow>
     t < now + ttl \<and> pinned (scopeFor req') = pinned (scopeFor req) \<and>
     (reach = GrantReachMachine \<or> gs_session_id (scopeFor req) = 0 \<or>
      gs_session_id (scopeFor req') = gs_session_id (scopeFor req))"
  by (auto simp: findGrant_def covers_iff)

text \<open>
  C18: nothing a requester merely says about a destination decides coverage. Changing the bound flag,
  the label, the asserted host key or the binding chain of a login leaves the answer as it was, and
  a promise made for a login with no proven host never covers one with a proven host.
\<close>

definition reworded :: "approval_request \<Rightarrow> bool \<Rightarrow> string \<Rightarrow> host_key option \<Rightarrow> session_binding list \<Rightarrow> approval_request" where
  "reworded req bound label host chain =
     (case ar_operation req of
        OpSshAuth a \<Rightarrow> req\<lparr>ar_operation := OpSshAuth (a\<lparr>sa_bound := bound, sa_destination_label := label,
                             sa_destination := host, sa_binding_chain := chain\<rparr>)\<rparr>
      | _ \<Rightarrow> req)"

theorem covers_ignores_assertions:
  "covers s (reworded req bound label host chain) = covers s req \<and>
   \<not> (covers s req \<and> gs_destination_fingerprint s = [] \<and>
      getf hk_fingerprint [] (getf sa_payload_destination None (get_ssh_auth req)) \<noteq> [])"
  by (auto simp: covers_iff pinned_def scopeFor_def reworded_def getter_defs Let_def
      split: operation.split)

text \<open>
  the lengths offered with a requested one are the configured lengths and that one, exactly
  when it is positive and within the bound; no offered length passes a bound the configured ones
  respect, and the list is sorted whenever the configured list was.
\<close>

theorem withRequestedTTL_spec:
  assumes "\<forall>t \<in> set ttls. t \<le> maxTTL" "sorted ttls"
  shows "set (withRequestedTTL ttls requested maxTTL) =
           set ttls \<union> (if 0 < requested \<and> requested \<le> maxTTL then {requested} else {}) \<and>
         sorted (withRequestedTTL ttls requested maxTTL) \<and>
         (\<forall>t \<in> set (withRequestedTTL ttls requested maxTTL). t \<le> maxTTL)"
  using assms by (auto simp: withRequestedTTL_def)

theorem withRequestedTTL_spec_witness:
  "2 * hour \<in> set (withRequestedTTL DefaultGrantTTLs (2 * hour) (MaxGrantTTL DefaultPolicy)) \<and>
   sorted (withRequestedTTL DefaultGrantTTLs (2 * hour) (MaxGrantTTL DefaultPolicy))"
proof -
  have max: "MaxGrantTTL DefaultPolicy = 8 * hour"
    by (simp add: MaxGrantTTL_def GrantTTLs_def DefaultPolicy_def empty_defaults_def DefaultGrantTTLs_def)
  have "\<forall>t \<in> set DefaultGrantTTLs. t \<le> 8 * hour" "sorted DefaultGrantTTLs"
    by (simp_all add: DefaultGrantTTLs_def)
  from withRequestedTTL_spec [OF this, of "2 * hour"] show ?thesis by (simp add: max)
qed

text \<open>
  the quiet deadline of a requester is the latest end among its live promises that are applied
  here rather than handed over, and the zero time when there is none.
\<close>

theorem QuietUntil_latest:
  assumes "requester \<noteq> []"
  shows "QuietUntil (Some (Inr grants)) requester now =
    Max (insert zero_time ((\<lambda>g. as_time (gr_expires_at g)) ` {g \<in> set grants. quiet_grant requester now g}))"
  using assms by (simp add: QuietUntil_def fold_latest)

theorem QuietUntil_latest_witness:
  "QuietUntil (Some (Inr [newGrant ''g'' empty_request hour GrantReachSession 0])) ''peer'' 5 = zero_time"
proof -
  have "{g \<in> set [newGrant ''g'' empty_request hour GrantReachSession 0]. quiet_grant ''peer'' 5 g} = {}"
    by (auto simp: quiet_grant_def grantScopeFor_def scopeFor_def empty_defs getter_defs Let_def)
  then have "Max (insert zero_time ((\<lambda>g. as_time (gr_expires_at g)) `
      {g \<in> set [newGrant ''g'' empty_request hour GrantReachSession 0]. quiet_grant ''peer'' 5 g})) = zero_time"
    by (simp only: image_empty Max_singleton)
  moreover have "''peer'' \<noteq> []" by simp
  ultimately show ?thesis
    using QuietUntil_latest [of "''peer''" "[newGrant ''g'' empty_request hour GrantReachSession 0]" 5]
    by (simp only: simp_thms)
qed

end
