(* ===== verification/Trust.thy ===== *)
theory Trust
  imports Messages
begin

text \<open>
  The paired-peer records, \<^verbatim>\<open>src/pkg/trust/trust.go\<close>, and whether a peer can be reached,
  \<^verbatim>\<open>src/pkg/trust/reach.go\<close>. A Go method that builds a changed copy of a record is a function
  between records. Parsing and fingerprinting a public key belong to the SSH library and are
  parameters; so is \<^verbatim>\<open>strings.EqualFold\<close>, the argument \<open>ef\<close>, whose Unicode tables nothing here
  looks into, and the local clock layout of one sentence.
\<close>

section \<open>Records\<close>

record tunnel_offer =
  to_versions :: "32 word list"
  to_server_address :: string
  to_client_key :: bytes

record trust_record =
  tr_fingerprint :: string
  tr_name :: string
  tr_identity_public_key :: bytes
  tr_addresses :: "string list"
  tr_may_approve :: bool
  tr_may_request :: bool
  tr_allowed_key_fingerprints :: "string list"
  tr_may_use_all_keys :: bool
  tr_paired_at :: timestamp
  tr_attributes :: "string \<rightharpoonup> string"
  tr_we_initiated :: bool
  tr_pairing_session_id :: string
  tr_tunnel :: "tunnel_offer option"
  tr_tunnel_updated_at :: timestamp

definition empty_record :: trust_record where
  "empty_record = \<lparr>tr_fingerprint = [], tr_name = [], tr_identity_public_key = [],
     tr_addresses = [], tr_may_approve = False, tr_may_request = False,
     tr_allowed_key_fingerprints = [], tr_may_use_all_keys = False, tr_paired_at = None,
     tr_attributes = (\<lambda>_. None), tr_we_initiated = False, tr_pairing_session_id = [], tr_tunnel = None,
     tr_tunnel_updated_at = None\<rparr>"

text \<open>An SSH public key as the code uses one: its type and its wire form.\<close>

record ssh_public_key =
  pk_type :: string
  pk_marshal :: bytes

datatype public_key_error = UnusableIdentityKey string string | RecordDisagrees string string string

definition PublicKey ::
    "(bytes \<Rightarrow> string + ssh_public_key) \<Rightarrow> (ssh_public_key \<Rightarrow> string) \<Rightarrow> trust_record
       \<Rightarrow> public_key_error + ssh_public_key" where
  "PublicKey parse fingerprint_of r =
     (case parse (tr_identity_public_key r) of
        Inl e \<Rightarrow> Inl (UnusableIdentityKey (tr_name r) e)
      | Inr pub \<Rightarrow>
          if fingerprint_of pub \<noteq> tr_fingerprint r
          then Inl (RecordDisagrees (tr_name r) (tr_fingerprint r) (fingerprint_of pub))
          else Inr pub)"

definition NewRecord ::
    "(ssh_public_key \<Rightarrow> string) \<Rightarrow> string \<Rightarrow> ssh_public_key \<Rightarrow> string list \<Rightarrow> bool \<Rightarrow> bool \<Rightarrow> bool
       \<Rightarrow> time \<Rightarrow> trust_record" where
  "NewRecord fingerprint_of name pub addresses mayApprove mayRequest weInitiated now =
     empty_record\<lparr>tr_fingerprint := fingerprint_of pub, tr_name := name,
       tr_identity_public_key := pk_marshal pub, tr_addresses := addresses,
       tr_may_approve := mayApprove, tr_may_request := mayRequest, tr_paired_at := Some now,
       tr_we_initiated := weInitiated\<rparr>"

section \<open>Directions and intents\<close>

record Directions =
  MayApprove :: bool
  MayRequest :: bool
  AllowedKeys :: "string list"
  AllKeys :: bool

datatype Intent = IntentUnspecified | IntentPeerApproves | IntentPeerRequests | IntentMutual

datatype PairingIntent =
    PAIRING_INTENT_UNSPECIFIED
  | PAIRING_INTENT_PEER_APPROVES
  | PAIRING_INTENT_PEER_REQUESTS
  | PAIRING_INTENT_MUTUAL
  | PAIRING_INTENT_UNKNOWN int

definition lower_is :: "(rune \<Rightarrow> rune) \<Rightarrow> string \<Rightarrow> string \<Rightarrow> bool" where
  "lower_is ul s word \<longleftrightarrow> map (to_lower ul) (go_runes s) = go_runes word"

definition ParseIntent :: "(rune \<Rightarrow> rune) \<Rightarrow> string \<Rightarrow> string + Intent" where
  "ParseIntent ul text =
     (let t = trim_space text
      in if lower_is ul t ''approver'' then Inr IntentPeerApproves
         else if lower_is ul t ''requester'' then Inr IntentPeerRequests
         else if lower_is ul t ''mutual'' \<or> lower_is ul t ''both'' then Inr IntentMutual
         else Inl text)"

definition IntentOf :: "bool \<Rightarrow> bool \<Rightarrow> Intent" where
  "IntentOf mayApprove mayRequest =
     (if mayApprove \<and> mayRequest then IntentMutual
      else if mayApprove then IntentPeerApproves
      else if mayRequest then IntentPeerRequests
      else IntentUnspecified)"

definition PeerMayApprove :: "Intent \<Rightarrow> bool" where
  "PeerMayApprove i \<longleftrightarrow> i = IntentPeerApproves \<or> i = IntentMutual"

definition PeerMayRequest :: "Intent \<Rightarrow> bool" where
  "PeerMayRequest i \<longleftrightarrow> i = IntentPeerRequests \<or> i = IntentMutual"

fun Mirror :: "Intent \<Rightarrow> Intent" where
  "Mirror IntentPeerApproves = IntentPeerRequests"
| "Mirror IntentPeerRequests = IntentPeerApproves"
| "Mirror i = i"

fun IntentString :: "Intent \<Rightarrow> string" where
  "IntentString IntentPeerApproves = ''approver''"
| "IntentString IntentPeerRequests = ''requester''"
| "IntentString IntentMutual = ''mutual''"
| "IntentString IntentUnspecified = ''none''"

fun IntentFromWire :: "PairingIntent \<Rightarrow> Intent" where
  "IntentFromWire PAIRING_INTENT_PEER_APPROVES = IntentPeerApproves"
| "IntentFromWire PAIRING_INTENT_PEER_REQUESTS = IntentPeerRequests"
| "IntentFromWire PAIRING_INTENT_MUTUAL = IntentMutual"
| "IntentFromWire _ = IntentUnspecified"

fun IntentToWire :: "Intent \<Rightarrow> PairingIntent" where
  "IntentToWire IntentPeerApproves = PAIRING_INTENT_PEER_APPROVES"
| "IntentToWire IntentPeerRequests = PAIRING_INTENT_PEER_REQUESTS"
| "IntentToWire IntentMutual = PAIRING_INTENT_MUTUAL"
| "IntentToWire IntentUnspecified = PAIRING_INTENT_UNSPECIFIED"

definition DirectionsOf :: "trust_record \<Rightarrow> Directions" where
  "DirectionsOf r = \<lparr>MayApprove = tr_may_approve r, MayRequest = tr_may_request r,
     AllowedKeys = tr_allowed_key_fingerprints r, AllKeys = tr_may_use_all_keys r\<rparr>"

definition Applied :: "Directions \<Rightarrow> trust_record \<Rightarrow> trust_record" where
  "Applied d r = r\<lparr>tr_may_approve := MayApprove d, tr_may_request := MayRequest d,
     tr_allowed_key_fingerprints := AllowedKeys d, tr_may_use_all_keys := AllKeys d\<rparr>"

definition Renamed :: "trust_record \<Rightarrow> string \<Rightarrow> trust_record" where
  "Renamed r name = r\<lparr>tr_name := name\<rparr>"

definition Readdressed :: "trust_record \<Rightarrow> string list \<Rightarrow> trust_record" where
  "Readdressed r addresses = r\<lparr>tr_addresses := addresses\<rparr>"

definition MayUseKey :: "trust_record \<Rightarrow> string \<Rightarrow> bool" where
  "MayUseKey r fingerprint =
     (if tr_may_use_all_keys r then True
      else list_ex (\<lambda>allowed. allowed = fingerprint) (tr_allowed_key_fingerprints r))"

definition MatchesRef :: "(string \<Rightarrow> string \<Rightarrow> bool) \<Rightarrow> trust_record \<Rightarrow> string \<Rightarrow> bool" where
  "MatchesRef ef r ref \<longleftrightarrow> tr_fingerprint r = ref \<or> ef (tr_name r) ref"

section \<open>Words for a listing\<close>

definition DescribeKeys :: "trust_record \<Rightarrow> string" where
  "DescribeKeys r =
     (if tr_may_use_all_keys r then ''all''
      else if tr_allowed_key_fingerprints r = [] then ''none''
      else nat_str (length (tr_allowed_key_fingerprints r)))"

definition Describe :: "bool \<Rightarrow> bool \<Rightarrow> string" where
  "Describe mayApprove mayRequest =
     (if mayApprove \<and> mayRequest
      then ''may approve signing requests for this instance, '' @
           ''and may ask this instance to approve its own''
      else if mayApprove then ''may approve signing requests for this instance''
      else if mayRequest then ''may ask this instance to approve its signing requests''
      else ''may do nothing until a direction is granted'')"

definition IntentDescribe :: "Intent \<Rightarrow> string" where
  "IntentDescribe i = Describe (PeerMayApprove i) (PeerMayRequest i)"

definition DescribeShort :: "bool \<Rightarrow> bool \<Rightarrow> string" where
  "DescribeShort mayApprove mayRequest =
     (if mayApprove \<and> mayRequest then ''Approves and asks''
      else if mayApprove then ''Approves for this instance''
      else if mayRequest then ''Asks this instance to approve''
      else ''No direction yet'')"

record PeerState =
  ps_Online :: bool
  ps_Dialable :: bool
  ps_Path :: string
  ps_MayApprove :: bool
  ps_LastError :: string
  ps_LastSeen :: time

definition known :: "time \<Rightarrow> bool" where
  "known at \<longleftrightarrow> at \<noteq> zero_time \<and> 0 < at div second"

text \<open>
  The code divides in floating point and truncates; the quotient is taken exactly here, which
  agrees except in the last nanoseconds of a unit at ages past 170 days.
\<close>

definition DescribeAge :: "duration \<Rightarrow> string" where
  "DescribeAge since =
     (if since < minute then ''just now''
      else if since < hour then int_str (since div minute) @ ''m ago''
      else if since < 24 * hour then int_str (since div hour) @ ''h ago''
      else int_str (since div (24 * hour)) @ ''d ago'')"

definition PathDirect :: string where "PathDirect = ''direct''"
definition PathTunnelDirect :: string where "PathTunnelDirect = ''tunnel direct''"
definition PathTunnelRelayed :: string where "PathTunnelRelayed = ''tunnel relayed''"

definition DescribeState :: "PeerState \<Rightarrow> time \<Rightarrow> string" where
  "DescribeState st now =
     (if ps_Online st
      then (if ps_Path st = [] \<or> ps_Path st = PathDirect then ''connected''
            else ''connected, '' @ ps_Path st)
      else if \<not> ps_MayApprove st then ''listening''
      else if \<not> ps_Dialable st
      then (if \<not> known (ps_LastSeen st) then ''waiting to hear from it''
            else ''last seen '' @ DescribeAge (now - ps_LastSeen st))
      else if ps_LastError st \<noteq> [] then ''offline''
      else ''connecting'')"

section \<open>Reaching a peer\<close>

text \<open>\<^verbatim>\<open>net.SplitHostPort\<close>; every error is \<^const>\<open>None\<close>.\<close>

definition split_host_port :: "string \<Rightarrow> (string \<times> string) option" where
  "split_host_port hp =
     (case cut_last (\<lambda>c. c = CHR '':'') hp of
        None \<Rightarrow> None
      | Some (before, port) \<Rightarrow>
          if hp \<noteq> [] \<and> hd hp = CHR ''[''
          then (case cut (CHR '']'') hp of
                  None \<Rightarrow> None
                | Some (inside, rest) \<Rightarrow>
                    if length inside + 1 = length before \<and> CHR ''['' \<notin> set (tl hp) \<and>
                       CHR '']'' \<notin> set rest
                    then Some (tl inside, port) else None)
          else if CHR '':'' \<in> set before \<or> CHR ''['' \<in> set hp \<or> CHR '']'' \<in> set hp then None
          else Some (before, port))"

definition IsDirectAddress :: "string \<Rightarrow> bool" where
  "IsDirectAddress address =
     (case split_host_port address of None \<Rightarrow> False | Some (_, port) \<Rightarrow> port \<noteq> [])"

definition DirectAddresses :: "string list \<Rightarrow> string list" where
  "DirectAddresses addresses = filter IsDirectAddress addresses"

definition TunnelServes :: "tunnel_offer option \<Rightarrow> bool" where
  "TunnelServes offer \<longleftrightarrow> getf to_versions [] offer \<noteq> [] \<and> getf to_server_address [] offer \<noteq> []"

definition TunnelRaisable :: "tunnel_offer option \<Rightarrow> int \<Rightarrow> bool" where
  "TunnelRaisable offer ours \<longleftrightarrow>
     0 < ours \<and> TunnelServes offer \<and> word_of_int ours \<in> set (getf to_versions [] offer)"

definition Dialable :: "trust_record \<Rightarrow> int \<Rightarrow> bool" where
  "Dialable r ours \<longleftrightarrow> tr_addresses r \<noteq> [] \<or> TunnelRaisable (tr_tunnel r) ours"

definition TunnelPath :: "bool \<Rightarrow> string \<Rightarrow> string" where
  "TunnelPath relayed region =
     (if \<not> relayed then PathTunnelDirect
      else if region \<noteq> [] then PathTunnelRelayed @ '' '' @ region
      else PathTunnelRelayed)"

definition IsTunnelPath :: "string \<Rightarrow> bool" where
  "IsTunnelPath path \<longleftrightarrow> path = PathTunnelDirect \<or> has_prefix path PathTunnelRelayed"

record peer_status =
  st_addresses :: "string list"
  st_may_approve :: bool
  st_online :: bool
  st_last_error :: string
  st_last_seen_at :: timestamp
  st_dialable :: bool
  st_path :: string

definition StatusDialable :: "peer_status \<Rightarrow> bool" where
  "StatusDialable st \<longleftrightarrow> st_dialable st \<or> st_addresses st \<noteq> []"

definition StateOf :: "peer_status \<Rightarrow> PeerState" where
  "StateOf st = \<lparr>ps_Online = st_online st, ps_Dialable = StatusDialable st, ps_Path = st_path st,
     ps_MayApprove = st_may_approve st, ps_LastError = st_last_error st,
     ps_LastSeen = (case st_last_seen_at st of None \<Rightarrow> zero_time | Some t \<Rightarrow> t)\<rparr>"

definition DescribeStatus :: "peer_status \<Rightarrow> time \<Rightarrow> string" where
  "DescribeStatus st now = DescribeState (StateOf st) now"

record TunnelFacts =
  tf_Ours :: int
  tf_Stale :: bool
  tf_Path :: string
  tf_Address :: string
  tf_Fallback :: string
  tf_BackoffUntil :: int

definition versionList :: "32 word list \<Rightarrow> string" where
  "versionList versions = join '', '' (map (\<lambda>v. nat_str (unat v)) versions)"

definition no_facts :: TunnelFacts where
  "no_facts = \<lparr>tf_Ours = 0, tf_Stale = False, tf_Path = [], tf_Address = [], tf_Fallback = [],
     tf_BackoffUntil = 0\<rparr>"

definition TunnelOffHere :: string where "TunnelOffHere = ''tunnel off here''"
definition TunnelNoOffer :: string where "TunnelNoOffer = ''peer offers no tunnel''"
definition TunnelWithdrawn :: string where "TunnelWithdrawn = ''peer withdrew its tunnel''"
definition TunnelStale :: string where "TunnelStale = ''tunnel offer stale''"
definition TunnelStaleDirect :: string where "TunnelStaleDirect = ''tunnel address stale, no direct path''"
definition TunnelOffered :: string where "TunnelOffered = ''tunnel offered''"
definition TunnelClientOnly :: string where "TunnelClientOnly = ''peer offers a client key only''"

definition version_mismatch :: "int \<Rightarrow> 32 word list \<Rightarrow> string" where
  "version_mismatch ours theirs =
     ''version mismatch (ours '' @ int_str ours @ '', theirs '' @ versionList theirs @ '')''"

definition fallback_words :: "string \<Rightarrow> string" where
  "fallback_words reason = ''fallback to direct, because '' @ reason"

definition backoff_words :: "string \<Rightarrow> string" where
  "backoff_words at = ''tunnel in backoff until '' @ at"

definition direct_words :: "string \<Rightarrow> string" where
  "direct_words address = ''direct '' @ address"

lemmas tunnel_words = TunnelOffHere_def TunnelNoOffer_def TunnelWithdrawn_def TunnelStale_def
  TunnelStaleDirect_def TunnelOffered_def TunnelClientOnly_def version_mismatch_def
  fallback_words_def backoff_words_def direct_words_def

definition DescribeTunnel ::
    "(int \<Rightarrow> string) \<Rightarrow> trust_record \<Rightarrow> TunnelFacts option \<Rightarrow> string" where
  "DescribeTunnel clock r given =
     (let facts = (case given of None \<Rightarrow> no_facts | Some f \<Rightarrow> f);
          ours = tf_Ours facts; path = tf_Path facts
      in if ours \<le> 0 then TunnelOffHere
         else case tr_tunnel r of
             None \<Rightarrow> TunnelNoOffer
           | Some offer \<Rightarrow>
               if to_versions offer = [] then TunnelWithdrawn
               else if word_of_int ours \<notin> set (to_versions offer)
               then version_mismatch ours (to_versions offer)
               else if to_server_address offer = [] then TunnelClientOnly
               else if IsTunnelPath path then path
               else if 0 < tf_BackoffUntil facts \<and> tr_addresses r = [] then TunnelStaleDirect
               else if tf_Stale facts then TunnelStale
               else if tf_Fallback facts \<noteq> [] \<and> path = PathDirect
               then fallback_words (tf_Fallback facts)
               else if 0 < tf_BackoffUntil facts
               then backoff_words (clock (tf_BackoffUntil facts))
               else if path = PathDirect \<and> tf_Address facts \<noteq> [] then direct_words (tf_Address facts)
               else TunnelOffered)"

section \<open>Lemmas\<close>

lemma Intent_flags: "IntentOf (PeerMayApprove i) (PeerMayRequest i) = i"
  by (cases i) (simp_all add: IntentOf_def PeerMayApprove_def PeerMayRequest_def)

lemma Mirror_flags:
  "PeerMayApprove (Mirror i) = PeerMayRequest i" "PeerMayRequest (Mirror i) = PeerMayApprove i"
  by (cases i; simp add: PeerMayApprove_def PeerMayRequest_def)+

lemma lower_is_self:
  assumes "is_ascii w" "list_all (\<lambda>c. (of_char c :: nat) < 65 \<or> 90 < (of_char c :: nat)) w"
  shows "lower_is ul w v \<longleftrightarrow> go_runes w = go_runes v"
proof -
  have "map (to_lower ul) (go_runes w) = go_runes w"
    using assms by (auto simp: go_runes_ascii list_all_iff is_ascii_def intro!: map_idI to_lower_id)
  then show ?thesis by (simp add: lower_is_def)
qed

lemma trim_space_words:
  "trim_space ''approver'' = ''approver''" "trim_space ''requester'' = ''requester''"
  "trim_space ''mutual'' = ''mutual''"
  by (rule trim_space_id; simp add: not_space_def)+

lemma MayUseKey_iff:
  "MayUseKey r k \<longleftrightarrow> tr_may_use_all_keys r \<or> k \<in> set (tr_allowed_key_fingerprints r)"
  by (auto simp: MayUseKey_def list_ex_iff)

lemma DirectionsOf_Applied: "DirectionsOf (Applied d r) = d"
  by (simp add: DirectionsOf_def Applied_def)

lemma Applied_DirectionsOf: "Applied (DirectionsOf r) r = r"
  by (simp add: DirectionsOf_def Applied_def)

lemma tunnel_words_no_path [simp]:
  "\<not> IsTunnelPath TunnelOffHere" "\<not> IsTunnelPath TunnelNoOffer" "\<not> IsTunnelPath TunnelWithdrawn"
  "\<not> IsTunnelPath TunnelStale" "\<not> IsTunnelPath TunnelStaleDirect" "\<not> IsTunnelPath TunnelOffered"
  "\<not> IsTunnelPath TunnelClientOnly" "\<not> IsTunnelPath (version_mismatch o1 vs)"
  "\<not> IsTunnelPath (fallback_words w)" "\<not> IsTunnelPath (backoff_words w)"
  "\<not> IsTunnelPath (direct_words w)"
  by (simp_all add: tunnel_words IsTunnelPath_def PathTunnelDirect_def PathTunnelRelayed_def
      has_prefix_def)

lemma DescribeTunnel_raisable:
  assumes "IsTunnelPath (DescribeTunnel clock r (Some facts))"
  shows "DescribeTunnel clock r (Some facts) = tf_Path facts"
    and "TunnelRaisable (tr_tunnel r) (tf_Ours facts)"
  using assms
  by (auto simp: DescribeTunnel_def Let_def TunnelRaisable_def TunnelServes_def
      split: option.splits if_splits)

section \<open>Properties\<close>

text \<open>
  an intent survives the control API and its two flags, the word it prints is read back as
  itself unless it is no intent, and the other side's record is the same pairing with the flags
  exchanged, so that mirroring twice is the identity.
\<close>

theorem Intent_roundtrips:
  "IntentFromWire (IntentToWire i) = i \<and>
   IntentOf (PeerMayApprove i) (PeerMayRequest i) = i \<and>
   IntentOf (PeerMayRequest i) (PeerMayApprove i) = Mirror i \<and>
   Mirror (Mirror i) = i \<and>
   ParseIntent ul (IntentString i) = (if i = IntentUnspecified then Inl ''none'' else Inr i)"
proof -
  have "trim_space ''none'' = ''none''" by (rule trim_space_id) (simp_all add: not_space_def)
  then have "ParseIntent ul (IntentString i) = (if i = IntentUnspecified then Inl ''none'' else Inr i)"
    by (cases i) (simp_all add: ParseIntent_def trim_space_words lower_is_self go_runes_ascii)
  then show ?thesis
    using Intent_flags [of i] Intent_flags [of "Mirror i"] Mirror_flags [of i]
    by (cases i) simp_all
qed

text \<open>
  a peer may borrow a key exactly when the last decision made about it said so, by name or for
  all keys; neither approval direction ever gives key access, and what was decided before is gone.
\<close>

theorem MayUseKey_Applied:
  "MayUseKey (Applied d r) k \<longleftrightarrow> AllKeys d \<or> k \<in> set (AllowedKeys d)"
  by (simp add: MayUseKey_iff Applied_def)

text \<open>
  the pill never calls a peer offline or connecting unless this instance dials it: a peer with
  a link reads connected, one that only asks reads listening, and a phone, which nothing can dial,
  reads as waited for or last seen whatever error is on record.
\<close>

theorem DescribeState_dialled:
  assumes "DescribeState st now \<in> {''offline'', ''connecting''}"
  shows "\<not> ps_Online st \<and> ps_MayApprove st \<and> ps_Dialable st \<and>
    (DescribeState st now = ''offline'' \<longleftrightarrow> ps_LastError st \<noteq> [])"
  using assms by (auto simp: DescribeState_def split: if_splits)

theorem DescribeState_dialled_witness:
  "\<not> ps_Online \<lparr>ps_Online = False, ps_Dialable = True, ps_Path = [], ps_MayApprove = True,
      ps_LastError = ''refused'', ps_LastSeen = 0\<rparr>"
  by (rule DescribeState_dialled [of _ 0, THEN conjunct1]) (simp add: DescribeState_def)

text \<open>
  a listing names a tunnel path only for a peer whose offer this instance could raise a client
  against: it speaks one of the offered versions and the offer names a server. Such a peer counts as
  dialable even when no address is on record.
\<close>

theorem DescribeTunnel_path_raisable:
  assumes "IsTunnelPath (DescribeTunnel clock r (Some facts))"
  shows "DescribeTunnel clock r (Some facts) = tf_Path facts \<and>
    TunnelRaisable (tr_tunnel r) (tf_Ours facts) \<and> Dialable r (tf_Ours facts)"
  using DescribeTunnel_raisable [OF assms] by (simp add: Dialable_def)

theorem DescribeTunnel_path_raisable_witness:
  "TunnelRaisable (Some \<lparr>to_versions = [2], to_server_address = ''tc'', to_client_key = []\<rparr>) 2"
proof -
  let ?r = "empty_record\<lparr>tr_tunnel := Some \<lparr>to_versions = [2], to_server_address = ''tc'', to_client_key = []\<rparr>\<rparr>"
  let ?f = "no_facts\<lparr>tf_Ours := 2, tf_Path := ''tunnel direct''\<rparr>"
  have "IsTunnelPath (DescribeTunnel (\<lambda>_. []) ?r (Some ?f))"
    by (simp add: DescribeTunnel_def Let_def IsTunnelPath_def PathTunnelDirect_def no_facts_def)
  from DescribeTunnel_path_raisable [OF this] show ?thesis by (simp add: no_facts_def)
qed

end
