(* ===== verification/Vault.thy ===== *)
theory Vault
  imports Grants Trust
begin

text \<open>
  The encrypted store, seen as the document it holds in memory and the document on disk:
  \<^verbatim>\<open>src/pkg/keystore/vault.go\<close> (grants), \<^verbatim>\<open>delegations.go\<close> and the key list of \<^verbatim>\<open>sshkeys.go\<close>.

  Every mutator of the code changes the document in memory and then calls \<^verbatim>\<open>save\<close>; a failed save
  returns the error and leaves the document as it was changed. An operation here takes the outcome
  of that one write as its first argument (\<^const>\<open>None\<close> when it succeeds), the clock reading it
  makes as \<open>now\<close> where it makes one, and returns the vault and either an error or its result. The
  mutex makes each operation one step. Marshalling and encryption are inside the write.
\<close>

section \<open>The document\<close>

record key_transfer =
  kt_peer_fingerprint :: string
  kt_peer_name :: string
  kt_at :: timestamp

datatype key_origin =
    KEY_ORIGIN_UNSPECIFIED | KEY_ORIGIN_IMPORTED | KEY_ORIGIN_GENERATED | KEY_ORIGIN_RECEIVED
  | KEY_ORIGIN_ADOPTED | KEY_ORIGIN_UNKNOWN int

record stored_key =
  sk_label :: string
  sk_fingerprint :: string
  sk_algorithm :: string
  sk_comment :: string
  sk_public_key :: bytes
  sk_private_key :: bytes
  sk_added_at :: timestamp
  sk_origin :: key_origin
  sk_disabled :: bool
  sk_hardware_handle :: string
  sk_handed_to :: "key_transfer list"
  sk_received_from :: "key_transfer option"
  sk_agent_use :: "bool option"

record held_delegation =
  hd_signed :: signed_artifact
  hd_delegation :: delegation
  hd_received_at :: timestamp
  hd_unreported_uses :: "grant_use list"
  hd_use_count :: "32 word"

record held_endorsement =
  he_signed :: signed_artifact
  he_endorsement :: endorsement
  he_received_at :: timestamp
  he_unreported_uses :: "grant_use list"
  he_use_count :: "32 word"
  he_published :: bool

record held_retraction =
  hr_signed :: signed_artifact
  hr_retraction :: retraction
  hr_received_at :: timestamp
  hr_gossiped_to :: "string list"

datatype pairing_answer =
    PAIRING_ANSWER_UNSPECIFIED | PAIRING_ANSWER_ACCEPTED | PAIRING_ANSWER_DECLINED
  | PAIRING_ANSWER_WITHDRAWN | PAIRING_ANSWER_UNKNOWN int

record pending_pairing =
  pp_session_id :: string
  pp_fingerprint :: string
  pp_name :: string
  pp_identity_public_key :: bytes
  pp_addresses :: "string list"
  pp_may_approve :: bool
  pp_may_request :: bool
  pp_we_dialled :: bool
  pp_key_from_code :: bool
  pp_remote_address :: string
  pp_our_answer :: pairing_answer
  pp_their_answer :: pairing_answer
  pp_started_at :: timestamp
  pp_answered_at :: timestamp
  pp_confirmation_request_id :: string
  pp_failed_attempts :: "pairing_attempt list"
  pp_tunnel :: "tunnel_offer option"

record borrowed_key =
  bk_peer_fingerprint :: string
  bk_key :: key_ref
  bk_last_seen_at :: timestamp

record Publication =
  pb_project_id :: string
  pb_name :: string
  pb_path :: string
  pb_origin_url :: string
  pb_branch :: string
  pb_commit :: string
  pb_published_at :: timestamp

datatype wakeup_kind = WAKEUP_KIND_UNSPECIFIED | WAKEUP_KIND_RELAY | WAKEUP_KIND_UNKNOWN int

record wakeup_route =
  wr_kind :: wakeup_kind
  wr_relay_url :: string
  wr_instance_id :: string

record peer_wakeup =
  pw_peer_fingerprint :: string
  pw_route :: "wakeup_route option"
  pw_announced_at :: timestamp
  pw_quiet_until :: timestamp

datatype push_platform =
    PUSH_PLATFORM_UNSPECIFIED | PUSH_PLATFORM_APNS | PUSH_PLATFORM_FCM | PUSH_PLATFORM_UNKNOWN int

record wakeup_settings =
  ws_enabled :: bool
  ws_relay_url :: string
  ws_instance_id :: string
  ws_platform :: push_platform
  ws_device_token :: string
  ws_registered_at :: timestamp

record peer_listen_settings =
  pl_spec :: string
  pl_allow_public :: bool
  pl_updated_at :: timestamp

record tunnel_settings =
  ts_enabled :: bool
  ts_derp_map_url :: string
  ts_server_key :: bytes
  ts_preshared_key :: bytes
  ts_client_key :: bytes
  ts_region :: bytes
  ts_updated_at :: timestamp

record pending_key_offer =
  po_id :: string
  po_peer_fingerprint :: string
  po_peer_name :: string
  po_label :: string
  po_comment :: string
  po_algorithm :: string
  po_fingerprint :: string
  po_public_key :: bytes
  po_private_key :: bytes
  po_received_at :: timestamp
  po_handover_id :: string

record queued_key_handover =
  qh_id :: string
  qh_peer_fingerprint :: string
  qh_peer_name :: string
  qh_label :: string
  qh_comment :: string
  qh_fingerprint :: string
  qh_private_key :: bytes
  qh_queued_at :: timestamp

record store_document =
  sd_version :: int
  sd_instance_name :: string
  sd_identity_key :: bytes
  sd_identity_handle :: string
  sd_identity_public_key :: bytes
  sd_created_at :: timestamp
  sd_keys :: "stored_key list"
  sd_grants :: "grant list"
  sd_peers :: "trust_record list"
  sd_pending_pairings :: "pending_pairing list"
  sd_publications :: "Publication list"
  sd_auto_publish :: "bool option"
  sd_peer_wakeups :: "peer_wakeup list"
  sd_wakeups :: "wakeup_settings option"
  sd_borrowed_keys :: "borrowed_key list"
  sd_held_delegations :: "held_delegation list"
  sd_pending_key_offers :: "pending_key_offer list"
  sd_queued_key_handovers :: "queued_key_handover list"
  sd_held_endorsements :: "held_endorsement list"
  sd_peer_listen :: "peer_listen_settings option"
  sd_retractions :: "held_retraction list"
  sd_tunnel :: "tunnel_settings option"

record vault =
  v_doc :: store_document
  v_disk :: store_document

definition empty_document :: store_document where
  "empty_document = \<lparr>sd_version = 0, sd_instance_name = [], sd_identity_key = [],
     sd_identity_handle = [], sd_identity_public_key = [], sd_created_at = None, sd_keys = [],
     sd_grants = [], sd_peers = [], sd_pending_pairings = [], sd_publications = [],
     sd_auto_publish = None, sd_peer_wakeups = [], sd_wakeups = None, sd_borrowed_keys = [],
     sd_held_delegations = [], sd_pending_key_offers = [], sd_queued_key_handovers = [],
     sd_held_endorsements = [], sd_peer_listen = None, sd_retractions = [], sd_tunnel = None\<rparr>"

definition empty_vault :: vault where
  "empty_vault = \<lparr>v_doc = empty_document, v_disk = empty_document\<rparr>"

datatype vault_error =
    SaveFailed string
  | ErrNoSuchGrant string
  | NoDelegationForUse string
  | NoEndorsementForUse string
  | ErrRetracted string
  | ErrNoSuchPeer string
  | ErrNoSuchKey string
  | NeedsFingerprint
  | NameTaken string
  | ErrNoSuchPairing string
  | NeedsSessionId
  | ErrDuplicateKey string
  | LabelInUse string
  | SecureElementKept string string
  | ErrHardwareKey string
  | ErrNoSuchOffer string
  | ErrTooManyOffers
  | ErrNoSuchHandover string
  | KeyNotParsed string
  | NoRandomness string
  | NeedsProjectId
  | ErrNoSuchPublication string
  | RouteNamesNoPeer

type_synonym save_result = "string option"

abbreviation grants :: "vault \<Rightarrow> grant list" where "grants v \<equiv> sd_grants (v_doc v)"
abbreviation held_delegations :: "vault \<Rightarrow> held_delegation list" where
  "held_delegations v \<equiv> sd_held_delegations (v_doc v)"
abbreviation held_endorsements :: "vault \<Rightarrow> held_endorsement list" where
  "held_endorsements v \<equiv> sd_held_endorsements (v_doc v)"
abbreviation retractions_of :: "vault \<Rightarrow> held_retraction list" where
  "retractions_of v \<equiv> sd_retractions (v_doc v)"
abbreviation peers_of :: "vault \<Rightarrow> trust_record list" where "peers_of v \<equiv> sd_peers (v_doc v)"
abbreviation keys_of :: "vault \<Rightarrow> stored_key list" where "keys_of v \<equiv> sd_keys (v_doc v)"

definition save :: "save_result \<Rightarrow> vault \<Rightarrow> vault \<times> (vault_error + unit)" where
  "save sv v = (case sv of None \<Rightarrow> (v\<lparr>v_disk := v_doc v\<rparr>, Inr ()) | Some e \<Rightarrow> (v, Inl (SaveFailed e)))"

text \<open>\<^verbatim>\<open>if err := v.save(); err != nil\<close>, and the result otherwise.\<close>

definition save_then :: "save_result \<Rightarrow> vault \<Rightarrow> 'a \<Rightarrow> vault \<times> (vault_error + 'a)" where
  "save_then sv v x = (case save sv v of (v', Inl e) \<Rightarrow> (v', Inl e) | (v', Inr _) \<Rightarrow> (v', Inr x))"

definition with_grants :: "(grant list \<Rightarrow> grant list) \<Rightarrow> vault \<Rightarrow> vault" where
  "with_grants f v = v\<lparr>v_doc := (v_doc v)\<lparr>sd_grants := f (grants v)\<rparr>\<rparr>"

definition with_delegations :: "(held_delegation list \<Rightarrow> held_delegation list) \<Rightarrow> vault \<Rightarrow> vault" where
  "with_delegations f v = v\<lparr>v_doc := (v_doc v)\<lparr>sd_held_delegations := f (held_delegations v)\<rparr>\<rparr>"

section \<open>Grants\<close>

definition grant_live :: "time \<Rightarrow> grant \<Rightarrow> bool" where
  "grant_live now g \<longleftrightarrow> now < as_time (gr_expires_at g)"

definition Grants :: "save_result \<Rightarrow> time \<Rightarrow> vault \<Rightarrow> vault \<times> (vault_error + grant list)" where
  "Grants sv now v =
     (let live = filter (grant_live now) (grants v)
      in if list_ex (\<lambda>g. \<not> grant_live now g) (grants v)
         then save_then sv (with_grants (\<lambda>_. live) v) live
         else (v, Inr live))"

definition AddGrant :: "save_result \<Rightarrow> grant \<Rightarrow> vault \<Rightarrow> vault \<times> (vault_error + unit)" where
  "AddGrant sv g v = save sv (with_grants (\<lambda>gs. gs @ [g]) v)"

definition revoke :: "save_result \<Rightarrow> string \<Rightarrow> vault \<Rightarrow> vault \<times> (vault_error + bool)" where
  "revoke sv gid v =
     save_then sv (with_grants (filter (\<lambda>g. gr_grant_id g \<noteq> gid)) v)
       (list_ex (\<lambda>g. gr_grant_id g = gid) (grants v))"

definition RevokeGrant :: "save_result \<Rightarrow> string \<Rightarrow> vault \<Rightarrow> vault \<times> (vault_error + unit)" where
  "RevokeGrant sv gid v = (case revoke sv gid v of (v', r) \<Rightarrow> (v', map_sum id (\<lambda>_. ()) r))"

definition RevokeLiveGrant :: "save_result \<Rightarrow> string \<Rightarrow> vault \<Rightarrow> vault \<times> (vault_error + unit)" where
  "RevokeLiveGrant sv gid v =
     (case revoke sv gid v of
        (v', Inl e) \<Rightarrow> (v', Inl e)
      | (v', Inr found) \<Rightarrow> (v', if found then Inr () else Inl (ErrNoSuchGrant gid)))"

definition LiveGrant :: "time \<Rightarrow> string \<Rightarrow> vault \<Rightarrow> vault_error + grant" where
  "LiveGrant now gid v =
     (case find (\<lambda>g. gr_grant_id g = gid) (grants v) of
        None \<Rightarrow> Inl (ErrNoSuchGrant gid)
      | Some g \<Rightarrow> if grant_live now g then Inr g else Inl (ErrNoSuchGrant gid))"

definition ReplaceGrant :: "save_result \<Rightarrow> grant \<Rightarrow> vault \<Rightarrow> vault \<times> (vault_error + unit)" where
  "ReplaceGrant sv g v =
     (if list_ex (\<lambda>e. gr_grant_id e = gr_grant_id g) (grants v)
      then save sv (with_grants (update_first (\<lambda>e. gr_grant_id e = gr_grant_id g)
             (\<lambda>e. g\<lparr>gr_use_count := gr_use_count e, gr_recent_uses := gr_recent_uses e\<rparr>)) v)
      else (v, Inl (ErrNoSuchGrant (gr_grant_id g))))"

definition MarkRevokePending ::
    "save_result \<Rightarrow> string \<Rightarrow> time \<Rightarrow> vault \<Rightarrow> vault \<times> (vault_error + unit)" where
  "MarkRevokePending sv gid at v =
     (case find (\<lambda>g. gr_grant_id g = gid) (grants v) of
        None \<Rightarrow> (v, Inl (ErrNoSuchGrant gid))
      | Some g \<Rightarrow>
          if gr_revoke_pending g then (v, Inr ())
          else save sv (with_grants (update_first (\<lambda>g. gr_grant_id g = gid)
                 (\<lambda>g. g\<lparr>gr_revoke_pending := True, gr_revoke_requested_at := Some at\<rparr>)) v))"

definition PendingRevocations :: "string \<Rightarrow> vault \<Rightarrow> string list" where
  "PendingRevocations fp v =
     map gr_grant_id
       (filter (\<lambda>g. gr_revoke_pending g \<and> gr_delegated g \<and> gr_delegate_fingerprint g = fp) (grants v))"

section \<open>Use ledgers of grants\<close>

definition maxRecentUses :: nat where "maxRecentUses = 64"
definition maxUnreportedUses :: nat where "maxUnreportedUses = 256"

definition hasUse :: "grant_use list \<Rightarrow> string \<Rightarrow> bool" where
  "hasUse uses rid = list_ex (\<lambda>u. gu_request_id u = rid) uses"

definition use_grant :: "grant_use \<Rightarrow> grant \<Rightarrow> grant" where
  "use_grant u g = g\<lparr>gr_use_count := gr_use_count g + 1,
     gr_recent_uses := tail_of maxRecentUses (gr_recent_uses g @ [u])\<rparr>"

definition record_one :: "grant_use \<Rightarrow> grant list \<times> bool \<Rightarrow> grant list \<times> bool" where
  "record_one u st =
     (case find (\<lambda>g. gr_grant_id g = gu_grant_id u) (fst st) of
        None \<Rightarrow> st
      | Some g \<Rightarrow>
          if hasUse (gr_recent_uses g) (gu_request_id u) then st
          else (update_first (\<lambda>g. gr_grant_id g = gu_grant_id u) (use_grant u) (fst st), True))"

definition RecordGrantUses :: "save_result \<Rightarrow> grant_use list \<Rightarrow> vault \<Rightarrow> vault \<times> (vault_error + unit)" where
  "RecordGrantUses sv uses v =
     (if uses = [] then (v, Inr ())
      else (case fold record_one uses (grants v, False) of
              (gs, changed) \<Rightarrow>
                if \<not> changed then (v, Inr ()) else save sv (with_grants (\<lambda>_. gs) v)))"

section \<open>Held delegations\<close>

definition delegation_id :: "held_delegation \<Rightarrow> string" where
  "delegation_id h = dg_delegation_id (hd_delegation h)"

definition delegation_live :: "time \<Rightarrow> held_delegation \<Rightarrow> bool" where
  "delegation_live now h \<longleftrightarrow> now < as_time (dg_expires_at (hd_delegation h))"

definition liveDelegations :: "held_delegation list \<Rightarrow> time \<Rightarrow> held_delegation list \<times> bool" where
  "liveDelegations all now =
     (filter (delegation_live now) all, list_ex (\<lambda>h. \<not> delegation_live now h) all)"

definition Delegations :: "save_result \<Rightarrow> time \<Rightarrow> vault \<Rightarrow> vault \<times> (vault_error + held_delegation list)" where
  "Delegations sv now v =
     (case liveDelegations (held_delegations v) now of
        (live, changed) \<Rightarrow>
          if changed then save_then sv (with_delegations (\<lambda>_. live) v) live else (v, Inr live))"

definition approvers :: "vault \<Rightarrow> string set" where
  "approvers v = tr_fingerprint ` {r \<in> set (peers_of v). tr_may_approve r}"

definition UsableDelegations ::
    "save_result \<Rightarrow> time \<Rightarrow> vault \<Rightarrow> vault \<times> (vault_error + delegation list)" where
  "UsableDelegations sv now v =
     (case Delegations sv now v of
        (v', Inl e) \<Rightarrow> (v', Inl e)
      | (v', Inr held) \<Rightarrow>
          (v', Inr (filter (\<lambda>d. dg_approver_fingerprint d \<in> approvers v') (map hd_delegation held))))"

definition AddDelegation ::
    "save_result \<Rightarrow> time \<Rightarrow> signed_artifact \<Rightarrow> delegation \<Rightarrow> vault \<Rightarrow> vault \<times> (vault_error + unit)" where
  "AddDelegation sv now artifact d v =
     (let same = filter (\<lambda>h. delegation_id h = dg_delegation_id d) (held_delegations v);
          kept = filter (\<lambda>h. delegation_id h \<noteq> dg_delegation_id d) (held_delegations v);
          held = \<lparr>hd_signed = artifact, hd_delegation = d, hd_received_at = Some now,
                  hd_unreported_uses = (if same = [] then [] else hd_unreported_uses (last same)),
                  hd_use_count = (if same = [] then 0 else hd_use_count (last same))\<rparr>
      in save sv (with_delegations (\<lambda>_. kept @ [held]) v))"

definition drop_delegations ::
    "save_result \<Rightarrow> (held_delegation \<Rightarrow> bool) \<Rightarrow> vault \<Rightarrow> vault \<times> (vault_error + nat)" where
  "drop_delegations sv P v =
     (let dropped = length (filter P (held_delegations v))
      in if dropped = 0 then (v, Inr 0)
         else save_then sv (with_delegations (filter (\<lambda>h. \<not> P h)) v) dropped)"

definition DropDelegations :: "save_result \<Rightarrow> string list \<Rightarrow> vault \<Rightarrow> vault \<times> (vault_error + nat)" where
  "DropDelegations sv ids v =
     (if ids = [] then (v, Inr 0) else drop_delegations sv (\<lambda>h. delegation_id h \<in> set ids) v)"

definition DropDelegationsFrom :: "save_result \<Rightarrow> string \<Rightarrow> vault \<Rightarrow> vault \<times> (vault_error + nat)" where
  "DropDelegationsFrom sv approver v =
     drop_delegations sv (\<lambda>h. dg_approver_fingerprint (hd_delegation h) = approver) v"

definition RecordDelegationUse :: "save_result \<Rightarrow> grant_use \<Rightarrow> vault \<Rightarrow> vault \<times> (vault_error + unit)" where
  "RecordDelegationUse sv u v =
     (if list_ex (\<lambda>h. delegation_id h = gu_grant_id u) (held_delegations v)
      then save sv (with_delegations (update_first (\<lambda>h. delegation_id h = gu_grant_id u)
             (\<lambda>h. h\<lparr>hd_use_count := hd_use_count h + 1,
                     hd_unreported_uses := tail_of maxUnreportedUses (hd_unreported_uses h @ [u])\<rparr>)) v)
      else (v, Inl (NoDelegationForUse (gu_grant_id u))))"

definition UnreportedUses :: "string \<Rightarrow> vault \<Rightarrow> grant_use list" where
  "UnreportedUses approver v =
     concat (map hd_unreported_uses
       (filter (\<lambda>h. approver = [] \<or> dg_approver_fingerprint (hd_delegation h) = approver)
         (held_delegations v)))"

definition AcknowledgeUses :: "save_result \<Rightarrow> string list \<Rightarrow> vault \<Rightarrow> vault \<times> (vault_error + unit)" where
  "AcknowledgeUses sv rids v =
     (if rids = [] then (v, Inr ())
      else
        (let changed = list_ex (\<lambda>h. list_ex (\<lambda>u. gu_request_id u \<in> set rids) (hd_unreported_uses h))
                         (held_delegations v);
             v' = with_delegations (map (\<lambda>h. h\<lparr>hd_unreported_uses :=
                    filter (\<lambda>u. gu_request_id u \<notin> set rids) (hd_unreported_uses h)\<rparr>)) v
         in if changed then save sv v' else (v', Inr ())))"

section \<open>Keys\<close>

definition HoldsKey :: "string \<Rightarrow> vault \<Rightarrow> bool" where
  "HoldsKey fp v = (if fp = [] then False else list_ex (\<lambda>k. sk_fingerprint k = fp) (keys_of v))"

section \<open>Lemmas\<close>

lemma with_grants_simps [simp]:
  "grants (with_grants f v) = f (grants v)" "held_delegations (with_grants f v) = held_delegations v"
  "held_endorsements (with_grants f v) = held_endorsements v" "peers_of (with_grants f v) = peers_of v"
  "keys_of (with_grants f v) = keys_of v" "retractions_of (with_grants f v) = retractions_of v"
  "v_disk (with_grants f v) = v_disk v"
  by (simp_all add: with_grants_def)

lemma with_delegations_simps [simp]:
  "held_delegations (with_delegations f v) = f (held_delegations v)"
  "grants (with_delegations f v) = grants v"
  "held_endorsements (with_delegations f v) = held_endorsements v"
  "peers_of (with_delegations f v) = peers_of v" "keys_of (with_delegations f v) = keys_of v"
  "retractions_of (with_delegations f v) = retractions_of v"
  "v_disk (with_delegations f v) = v_disk v"
  by (simp_all add: with_delegations_def)

text \<open>A write never changes the document in memory, and succeeds exactly when it is told to.\<close>

lemma save_simps [simp]:
  "v_doc (fst (save sv v)) = v_doc v" "fst (save None v) = v\<lparr>v_disk := v_doc v\<rparr>"
  "snd (save None v) = Inr ()" "fst (save (Some e) v) = v" "snd (save (Some e) v) = Inl (SaveFailed e)"
  by (auto simp: save_def split: option.splits)

lemma save_then_simps [simp]:
  "v_doc (fst (save_then sv v x)) = v_doc v" "fst (save_then None v x) = v\<lparr>v_disk := v_doc v\<rparr>"
  "snd (save_then None v x) = Inr x" "fst (save_then (Some e) v x) = v"
  "snd (save_then (Some e) v x) = Inl (SaveFailed e)"
  by (auto simp: save_then_def save_def split: option.splits)

lemma save_then_Inr: "snd (save_then sv v x) = Inr y \<longleftrightarrow> sv = None \<and> y = x"
  by (cases sv) (auto simp: save_then_def save_def)

lemma Grants_doc: "grants (fst (Grants sv now v)) = filter (grant_live now) (grants v)"
  by (auto simp: Grants_def Let_def list_ex_iff filter_id_conv)

lemma Grants_result: "snd (Grants sv now v) = Inr gs \<Longrightarrow> gs = filter (grant_live now) (grants v)"
  by (auto simp: Grants_def Let_def save_then_Inr split: if_splits)

lemma Delegations_result:
  "snd (Delegations sv now v) = Inr held \<Longrightarrow> held = filter (delegation_live now) (held_delegations v)"
  by (auto simp: Delegations_def liveDelegations_def save_then_Inr split: if_splits)

lemma Delegations_doc:
  "peers_of (fst (Delegations sv now v)) = peers_of v" "keys_of (fst (Delegations sv now v)) = keys_of v"
  "held_delegations (fst (Delegations sv now v)) = filter (delegation_live now) (held_delegations v)"
  by (auto simp: Delegations_def liveDelegations_def list_ex_iff filter_id_conv)

lemma Grants_total: "\<exists>gs. snd (Grants None now v) = Inr gs"
  by (simp add: Grants_def Let_def)

section \<open>What the engine relies on of a grant store\<close>

text \<open>
  The interface \<^verbatim>\<open>GrantStore\<close> of \<^verbatim>\<open>pkg/approval\<close>: a store has a list of promises; listing drops what
  has expired, adding appends, revoking removes by identifier and replacing keeps the ledger. The
  laws hold whether or not the write succeeds.
\<close>

locale grant_store =
  fixes content :: "'s \<Rightarrow> grant list"
    and list_grants :: "save_result \<Rightarrow> time \<Rightarrow> 's \<Rightarrow> 's \<times> ('e + grant list)"
    and add_grant :: "save_result \<Rightarrow> grant \<Rightarrow> 's \<Rightarrow> 's \<times> ('e + unit)"
    and revoke_grant :: "save_result \<Rightarrow> string \<Rightarrow> 's \<Rightarrow> 's \<times> ('e + unit)"
    and replace_grant :: "save_result \<Rightarrow> grant \<Rightarrow> 's \<Rightarrow> 's \<times> ('e + unit)"
  assumes list_content: "content (fst (list_grants sv now s)) = filter (grant_live now) (content s)"
    and list_result: "snd (list_grants sv now s) = Inr gs \<Longrightarrow> gs = filter (grant_live now) (content s)"
    and add_content: "content (fst (add_grant sv g s)) = content s @ [g]"
    and revoke_content:
      "content (fst (revoke_grant sv i s)) = filter (\<lambda>g. gr_grant_id g \<noteq> i) (content s)"
    and replace_content:
      "content (fst (replace_grant sv g s)) = update_first (\<lambda>e. gr_grant_id e = gr_grant_id g)
         (\<lambda>e. g\<lparr>gr_use_count := gr_use_count e, gr_recent_uses := gr_recent_uses e\<rparr>) (content s)"
begin

text \<open>Looking in what was listed finds what a look at the whole store would have found.\<close>

lemma found_in_list:
  assumes "snd (list_grants sv now s) = Inr gs"
  shows "findGrant gs req now = findGrant (content s) req now"
proof -
  have "(\<lambda>g. grant_live now g \<and> now < as_time (gr_expires_at g) \<and> covers (gr_scope g) req) =
        (\<lambda>g. now < as_time (gr_expires_at g) \<and> covers (gr_scope g) req)"
    by (auto simp: grant_live_def)
  with list_result [OF assms] show ?thesis by (simp add: findGrant_def find_filter)
qed

lemma found_is_promise:
  assumes "snd (list_grants sv now s) = Inr gs" "findGrant gs req now = Some g"
  shows "g \<in> set (content s) \<and> now < as_time (gr_expires_at g) \<and> covers (gr_scope g) req"
  using findGrant_SomeD [of "content s" req now g] assms found_in_list by metis

text \<open>A revoked promise is never found again, at any later time and for any request.\<close>

lemma revoked_not_found:
  assumes "snd (list_grants sv' now (fst (revoke_grant sv i s))) = Inr gs" "findGrant gs req now = Some g"
  shows "gr_grant_id g \<noteq> i"
  using found_is_promise [OF assms] by (simp add: revoke_content)

text \<open>A promise that was added is found for the request it was made for, while it runs.\<close>

lemma added_found:
  assumes "snd (list_grants sv' t (fst (add_grant sv (newGrant i req ttl reach now) s))) = Inr gs" "t < now + ttl"
  shows "findGrant gs req t \<noteq> None"
proof
  assume "findGrant gs req t = None"
  then have "findGrant (content s @ [newGrant i req ttl reach now]) req t = None"
    using found_in_list [OF assms(1)] by (simp add: add_content)
  with assms(2) show False by (auto simp: findGrant_None_iff grantScopeFor_covers)
qed

lemma replaced_found:
  assumes "g \<in> set (content (fst (replace_grant sv g' s)))"
  shows "g \<in> set (content s) \<or>
    gr_grant_id g = gr_grant_id g' \<and> gr_scope g = gr_scope g' \<and> gr_expires_at g = gr_expires_at g' \<and>
    (\<exists>e \<in> set (content s). gr_grant_id e = gr_grant_id g' \<and> gr_use_count g = gr_use_count e \<and>
       gr_recent_uses g = gr_recent_uses e)"
  using assms by (auto simp: replace_content dest!: in_update_firstD)

end

lemma revoke_doc:
  "grants (fst (RevokeGrant sv i v)) = filter (\<lambda>g. gr_grant_id g \<noteq> i) (grants v)"
  by (simp add: RevokeGrant_def revoke_def split: prod.split)
     (metis fst_conv save_then_simps(1) with_grants_simps(1))

lemma ReplaceGrant_doc:
  "grants (fst (ReplaceGrant sv g v)) = update_first (\<lambda>e. gr_grant_id e = gr_grant_id g)
     (\<lambda>e. g\<lparr>gr_use_count := gr_use_count e, gr_recent_uses := gr_recent_uses e\<rparr>) (grants v)"
proof (cases "list_ex (\<lambda>e. gr_grant_id e = gr_grant_id g) (grants v)")
  case False
  then have "find (\<lambda>e. gr_grant_id e = gr_grant_id g) (grants v) = None"
    by (auto simp: find_None_iff list_ex_iff)
  with False show ?thesis by (simp add: ReplaceGrant_def update_first_id)
qed (simp add: ReplaceGrant_def)

interpretation vault_grants:
  grant_store "\<lambda>v. sd_grants (v_doc v)" Grants AddGrant RevokeGrant ReplaceGrant
  by unfold_locales
     (auto simp: Grants_doc Grants_result revoke_doc ReplaceGrant_doc AddGrant_def)

section \<open>Ledgers of what was done under a promise\<close>

text \<open>
  Delegations and endorsements carry the same kind of ledger: bounded lists of uses nobody has been
  told about, to which a use is appended and from which acknowledged requests are dropped.
\<close>

locale use_ledger =
  fixes entries :: "'s \<Rightarrow> (string \<times> grant_use list) list"
    and record_use :: "save_result \<Rightarrow> grant_use \<Rightarrow> 's \<Rightarrow> 's \<times> ('e + unit)"
    and acknowledge :: "save_result \<Rightarrow> string list \<Rightarrow> 's \<Rightarrow> 's \<times> ('e + unit)"
    and bound :: nat
  assumes record_entries:
      "entries (fst (record_use sv u s)) = update_first (\<lambda>e. fst e = gu_grant_id u)
         (\<lambda>e. (fst e, tail_of bound (snd e @ [u]))) (entries s)"
    and acknowledge_entries:
      "entries (fst (acknowledge sv rids s)) =
         map (\<lambda>e. (fst e, filter (\<lambda>u. gu_request_id u \<notin> set rids) (snd e))) (entries s)"
    and bound_pos: "0 < bound"
begin

definition bounded :: "'s \<Rightarrow> bool" where
  "bounded s \<longleftrightarrow> (\<forall>e \<in> set (entries s). length (snd e) \<le> bound)"

definition pending :: "'s \<Rightarrow> grant_use set" where
  "pending s = (\<Union>e \<in> set (entries s). set (snd e))"

lemma record_bounded: "bounded s \<Longrightarrow> bounded (fst (record_use sv u s))"
  unfolding bounded_def record_entries
  by (auto dest!: in_update_firstD)

lemma acknowledge_bounded: "bounded s \<Longrightarrow> bounded (fst (acknowledge sv rids s))"
  unfolding bounded_def acknowledge_entries
  by (auto intro: order_trans [OF length_filter_le])

lemma record_pending:
  assumes "gu_grant_id u \<in> fst ` set (entries s)"
  shows "u \<in> pending (fst (record_use sv u s))"
proof -
  obtain e where "find (\<lambda>e. fst e = gu_grant_id u) (entries s) = Some e"
    using assms by (cases "find (\<lambda>e. fst e = gu_grant_id u) (entries s)") (auto simp: find_None_iff)
  from update_first_member [OF this, of "\<lambda>e. (fst e, tail_of bound (snd e @ [u]))"]
  have "(fst e, tail_of bound (snd e @ [u])) \<in> set (entries (fst (record_use sv u s)))"
    by (simp add: record_entries)
  with last_in_tail_of [OF bound_pos] show ?thesis unfolding pending_def by force
qed

lemma acknowledge_pending:
  "pending (fst (acknowledge sv rids s)) = {u \<in> pending s. gu_request_id u \<notin> set rids}"
  unfolding pending_def acknowledge_entries by auto

lemma acknowledge_idem:
  "pending (fst (acknowledge sv' rids (fst (acknowledge sv rids s)))) = pending (fst (acknowledge sv rids s))"
  by (auto simp: acknowledge_pending)

lemma acknowledge_all: "gu_request_id ` pending s \<subseteq> set rids \<Longrightarrow> pending (fst (acknowledge sv rids s)) = {}"
  by (auto simp: acknowledge_pending)

end

definition delegation_entries :: "vault \<Rightarrow> (string \<times> grant_use list) list" where
  "delegation_entries v = map (\<lambda>h. (delegation_id h, hd_unreported_uses h)) (held_delegations v)"

interpretation delegation_ledger:
  use_ledger delegation_entries RecordDelegationUse AcknowledgeUses maxUnreportedUses
proof
  fix sv and u :: grant_use and v
  let ?P = "\<lambda>h. delegation_id h = gu_grant_id u"
  let ?f = "\<lambda>h. h\<lparr>hd_use_count := hd_use_count h + 1,
              hd_unreported_uses := tail_of maxUnreportedUses (hd_unreported_uses h @ [u])\<rparr>"
  have "held_delegations (fst (RecordDelegationUse sv u v)) = update_first ?P ?f (held_delegations v)"
    by (simp add: RecordDelegationUse_def update_first_none)
  moreover have "map (\<lambda>h. (delegation_id h, hd_unreported_uses h)) (update_first ?P ?f xs) =
      update_first (\<lambda>e. fst e = gu_grant_id u) (\<lambda>e. (fst e, tail_of maxUnreportedUses (snd e @ [u])))
        (map (\<lambda>h. (delegation_id h, hd_unreported_uses h)) xs)" for xs
    by (rule map_update_first_image) (simp_all add: delegation_id_def)
  ultimately show "delegation_entries (fst (RecordDelegationUse sv u v)) =
      update_first (\<lambda>e. fst e = gu_grant_id u) (\<lambda>e. (fst e, tail_of maxUnreportedUses (snd e @ [u])))
        (delegation_entries v)"
    by (simp only: delegation_entries_def)
next
  fix sv rids v
  have "map (\<lambda>h. (delegation_id h, hd_unreported_uses h)) (held_delegations (fst (AcknowledgeUses sv rids v))) =
        map (\<lambda>h. (delegation_id h, filter (\<lambda>u. gu_request_id u \<notin> set rids) (hd_unreported_uses h)))
          (held_delegations v)"
    by (simp add: AcknowledgeUses_def Let_def delegation_id_def)
  then show "delegation_entries (fst (AcknowledgeUses sv rids v)) =
      map (\<lambda>e. (fst e, filter (\<lambda>u. gu_request_id u \<notin> set rids) (snd e))) (delegation_entries v)"
    by (simp add: delegation_entries_def o_def)
qed (simp add: maxUnreportedUses_def)

section \<open>Reports of uses are counted once\<close>

text \<open>
  What holds of the first grant with a given identifier while a report is filed: the uses filed so
  far are the tail of its recent uses, and the rest of the report is not among what was there before.
\<close>

definition filed :: "nat \<Rightarrow> grant_use list \<Rightarrow> grant_use list \<Rightarrow> grant list \<Rightarrow> bool" where
  "filed n done_uses rest gs \<longleftrightarrow>
     (\<forall>i g. find (\<lambda>g. gr_grant_id g = i) gs = Some g \<longrightarrow>
       (\<exists>pre suf. gr_recent_uses g = pre @ suf \<and> length suf \<le> n \<and>
         (\<forall>u \<in> set done_uses. gu_grant_id u = i \<longrightarrow> gu_request_id u \<in> gu_request_id ` set suf) \<and>
         (\<forall>u \<in> set rest. gu_grant_id u = i \<longrightarrow> gu_request_id u \<notin> gu_request_id ` set pre)))"

lemma hasUse_iff: "hasUse uses rid \<longleftrightarrow> rid \<in> gu_request_id ` set uses"
  by (auto simp: hasUse_def list_ex_iff)

lemma record_one_known:
  assumes "\<And>g. find (\<lambda>g. gr_grant_id g = gu_grant_id u) gs = Some g \<Longrightarrow> hasUse (gr_recent_uses g) (gu_request_id u)"
  shows "record_one u (gs, c) = (gs, c)"
  using assms by (auto simp: record_one_def split: option.split)

lemma filedE:
  assumes "filed n dn rest gs" "find (\<lambda>g. gr_grant_id g = i) gs = Some g"
  obtains pre suf where "gr_recent_uses g = pre @ suf" "length suf \<le> n"
    "\<forall>w \<in> set dn. gu_grant_id w = i \<longrightarrow> gu_request_id w \<in> gu_request_id ` set suf"
    "\<forall>w \<in> set rest. gu_grant_id w = i \<longrightarrow> gu_request_id w \<notin> gu_request_id ` set pre"
  using assms(1) [unfolded filed_def, THEN spec [of _ i], THEN spec [of _ g], THEN mp [OF _ assms(2)]]
  by (elim exE conjE)

lemma filed_step:
  assumes "filed n dn (u # rest) gs" "n < maxRecentUses"
  shows "filed (Suc n) (dn @ [u]) rest (fst (record_one u (gs, c)))"
  unfolding filed_def
proof (intro allI impI)
  fix i g
  let ?P = "\<lambda>g. gr_grant_id g = gu_grant_id u"
  assume found: "find (\<lambda>g. gr_grant_id g = i) (fst (record_one u (gs, c))) = Some g"
  show "\<exists>pre suf. gr_recent_uses g = pre @ suf \<and> length suf \<le> Suc n \<and>
     (\<forall>w \<in> set (dn @ [u]). gu_grant_id w = i \<longrightarrow> gu_request_id w \<in> gu_request_id ` set suf) \<and>
     (\<forall>w \<in> set rest. gu_grant_id w = i \<longrightarrow> gu_request_id w \<notin> gu_request_id ` set pre)"
  proof (cases "i = gu_grant_id u")
    case False
    then have "find (\<lambda>g. gr_grant_id g = i) (update_first ?P (use_grant u) gs) =
        find (\<lambda>g. gr_grant_id g = i) gs"
      by (intro find_update_first_other) (auto simp: use_grant_def)
    then have "find (\<lambda>g. gr_grant_id g = i) gs = Some g"
      using found by (auto simp: record_one_def split: option.splits if_splits)
    from filedE [OF assms(1) this] obtain pre suf where ps: "gr_recent_uses g = pre @ suf" "length suf \<le> n"
      "\<forall>w \<in> set dn. gu_grant_id w = i \<longrightarrow> gu_request_id w \<in> gu_request_id ` set suf"
      "\<forall>w \<in> set (u # rest). gu_grant_id w = i \<longrightarrow> gu_request_id w \<notin> gu_request_id ` set pre"
      .
    with False show ?thesis by (intro exI [of _ pre] exI [of _ suf]) auto
  next
    case True
    then obtain g0 where g0: "find ?P gs = Some g0"
      using found by (cases "find ?P gs") (auto simp: record_one_def)
    from filedE [OF assms(1) this] obtain pre suf where ps: "gr_recent_uses g0 = pre @ suf" "length suf \<le> n"
      "\<forall>w \<in> set dn. gu_grant_id w = i \<longrightarrow> gu_request_id w \<in> gu_request_id ` set suf"
      "\<forall>w \<in> set (u # rest). gu_grant_id w = i \<longrightarrow> gu_request_id w \<notin> gu_request_id ` set pre"
      unfolding True .
    show ?thesis
    proof (cases "hasUse (gr_recent_uses g0) (gu_request_id u)")
      case seen: True
      then have "g = g0" using found g0 True by (simp add: record_one_def)
      moreover have "gu_request_id u \<in> gu_request_id ` set suf"
        using seen ps(1,4) True by (auto simp: hasUse_iff image_Un)
      ultimately show ?thesis using ps by (intro exI [of _ pre] exI [of _ suf]) auto
    next
      case fresh: False
      then have "g = use_grant u g0"
        using found g0 True by (simp add: record_one_def find_update_first use_grant_def)
      then have "gr_recent_uses g = tail_of maxRecentUses (pre @ (suf @ [u]))"
        using ps(1) by (simp add: use_grant_def)
      moreover obtain zs where "tail_of maxRecentUses (pre @ (suf @ [u])) = zs @ (suf @ [u])" "set zs \<subseteq> set pre"
        using tail_of_append [of "suf @ [u]" maxRecentUses pre] ps(2) assms(2) by auto
      ultimately show ?thesis
        using ps by (intro exI [of _ zs] exI [of _ "suf @ [u]"]) auto
    qed
  qed
qed

lemma filed_fold:
  "filed n dn rest gs \<Longrightarrow> n + length rest \<le> maxRecentUses \<Longrightarrow>
   filed (n + length rest) (dn @ rest) [] (fst (fold record_one rest (gs, c)))"
proof (induction rest arbitrary: n dn gs c)
  case (Cons u rest)
  obtain gs' c' where step: "record_one u (gs, c) = (gs', c')" by fastforce
  have "filed (Suc n) (dn @ [u]) rest gs'"
    using filed_step [of n dn u rest gs c] Cons.prems step by simp
  from Cons.IH [OF this, of c'] Cons.prems(2) show ?case by (simp add: step)
qed simp

lemma filed_again: "filed n uses [] gs \<Longrightarrow> set rest \<subseteq> set uses \<Longrightarrow> fold record_one rest (gs, c) = (gs, c)"
proof (induction rest)
  case (Cons u rest)
  have "record_one u (gs, c) = (gs, c)"
  proof (rule record_one_known)
    fix g
    assume "find (\<lambda>g. gr_grant_id g = gu_grant_id u) gs = Some g"
    with Cons.prems obtain suf where "set suf \<subseteq> set (gr_recent_uses g)" "gu_request_id u \<in> gu_request_id ` set suf"
      unfolding filed_def by fastforce
    then show "hasUse (gr_recent_uses g) (gu_request_id u)" by (auto simp: hasUse_iff)
  qed
  with Cons show ?case by simp
qed simp

definition fresh_report :: "grant_use list \<Rightarrow> vault \<Rightarrow> bool" where
  "fresh_report uses v \<longleftrightarrow>
     list_all (\<lambda>g. list_all (\<lambda>u. gu_grant_id u = gr_grant_id g \<longrightarrow> \<not> hasUse (gr_recent_uses g) (gu_request_id u)) uses)
       (grants v)"

lemma fresh_report_filed: "fresh_report uses v \<Longrightarrow> filed 0 [] uses (grants v)"
  unfolding filed_def fresh_report_def list_all_iff
  by (metis (mono_tags, lifting) append_Nil2 empty_iff find_SomeD hasUse_iff list.set(1) list.size(3) order_refl)

lemma record_one_flag: "snd st \<Longrightarrow> snd (record_one u st)"
  by (simp add: record_one_def split: option.split)

lemma fold_record_flag: "snd st \<Longrightarrow> snd (fold record_one us st)"
  by (induction us arbitrary: st) (simp_all add: record_one_flag)

lemma record_one_same: "\<not> snd (record_one u st) \<Longrightarrow> record_one u st = st"
  by (auto simp: record_one_def split: option.splits if_splits)

lemma fold_record_same: "\<not> snd (fold record_one us st) \<Longrightarrow> fold record_one us st = st"
proof (induction us arbitrary: st)
  case (Cons u us)
  then have "record_one u st = st" using fold_record_flag record_one_same by (metis fold_simps(2))
  with Cons show ?case by simp
qed simp

lemma RecordGrantUses_doc:
  "grants (fst (RecordGrantUses sv uses v)) = fst (fold record_one uses (grants v, False))"
  using fold_record_same [of uses "(grants v, False)"]
  by (auto simp: RecordGrantUses_def split: prod.split)

section \<open>Properties\<close>

text \<open>
  filing a report is idempotent, so that a report delivered again because its answer was lost
  changes nothing, as long as the report was new and has at most 64 uses.
\<close>

theorem RecordGrantUses_idempotent:
  assumes "length uses \<le> 64" "fresh_report uses v"
  shows "fst (RecordGrantUses sv' uses (fst (RecordGrantUses sv uses v))) = fst (RecordGrantUses sv uses v)"
proof -
  let ?w = "fst (RecordGrantUses sv uses v)"
  have "filed (0 + length uses) ([] @ uses) [] (grants ?w)"
    unfolding RecordGrantUses_doc
    using assms by (intro filed_fold fresh_report_filed) (simp_all add: maxRecentUses_def)
  then have "fold record_one uses (grants ?w, False) = (grants ?w, False)"
    by (intro filed_again) auto
  then show ?thesis by (simp add: RecordGrantUses_def [of sv'])
qed

definition sample_use :: "nat \<Rightarrow> grant_use" where
  "sample_use n = \<lparr>gu_grant_id = ''g'', gu_request_id = replicate n (CHR ''x''), gu_used_at = None, gu_reported_at = None,
     gu_kind = REQUEST_KIND_SSH_AUTH, gu_subject = []\<rparr>"

definition sample_vault :: vault where
  "sample_vault = with_grants (\<lambda>_. [empty_grant\<lparr>gr_grant_id := ''g''\<rparr>]) empty_vault"

theorem RecordGrantUses_idempotent_witness:
  "fst (RecordGrantUses None [sample_use 1] (fst (RecordGrantUses None [sample_use 1] sample_vault))) =
   fst (RecordGrantUses None [sample_use 1] sample_vault)"
  by (rule RecordGrantUses_idempotent)
     (simp_all add: fresh_report_def sample_vault_def empty_vault_def empty_document_def empty_defs hasUse_def)

text \<open>
  C31: past 64 uses that stops being true. After a report of 65 uses of one promise, delivering its
  first use again counts it a second time, because only the last 64 are remembered.
\<close>

lemma tail_of_tail_of: "tail_of n (tail_of n xs @ [x]) = tail_of n (xs @ [x])"
  by (cases "length xs \<le> n") (auto simp: tail_of_def drop_append Suc_diff_le)

lemma sample_use_inject: "gu_request_id (sample_use m) = gu_request_id (sample_use n) \<longleftrightarrow> m = n"
  by (simp add: sample_use_def)

lemma sample_use_grant [simp]: "gu_grant_id (sample_use n) = ''g''"
  by (simp add: sample_use_def)

lemma hasUse_sample: "hasUse (map sample_use ns) (gu_request_id (sample_use n)) \<longleftrightarrow> n \<in> set ns"
  by (auto simp: hasUse_iff sample_use_inject)

lemma tail_of_map_upt: "tail_of k (map f [0..<n]) = map f [n - k..<n]"
  by (simp add: tail_of_def drop_map)

lemma record_samples:
  "fold record_one (map sample_use [0..<n]) ([empty_grant\<lparr>gr_grant_id := ''g''\<rparr>], False) =
     ([empty_grant\<lparr>gr_grant_id := ''g'', gr_use_count := of_nat n,
         gr_recent_uses := map sample_use [n - 64..<n]\<rparr>], 0 < n)"
proof (induction n)
  case 0
  then show ?case by (simp add: empty_grant_def)
next
  case (Suc n)
  let ?recent = "map sample_use [n - 64..<n]"
  have "\<not> hasUse ?recent (gu_request_id (sample_use n))" by (simp add: hasUse_sample)
  moreover have "tail_of 64 (?recent @ [sample_use n]) = map sample_use [Suc n - 64..<Suc n]"
  proof -
    have "map sample_use [0..<n] @ [sample_use n] = map sample_use [0..<Suc n]" by simp
    then show ?thesis
      using tail_of_tail_of [of 64 "map sample_use [0..<n]" "sample_use n"]
      by (simp only: tail_of_map_upt)
  qed
  ultimately show ?case
    using Suc by (simp add: record_one_def [of "sample_use n"] use_grant_def maxRecentUses_def add.commute)
qed

theorem RecordGrantUses_counts_twice:
  "map gr_use_count (grants (fst (RecordGrantUses None (map sample_use [0..<65]) sample_vault))) = [65] \<and>
   map gr_use_count (grants (fst (RecordGrantUses None [sample_use 0]
     (fst (RecordGrantUses None (map sample_use [0..<65]) sample_vault))))) = [66]"
proof -
  have start: "grants sample_vault = [empty_grant\<lparr>gr_grant_id := ''g''\<rparr>]" by (simp add: sample_vault_def)
  have "\<not> hasUse (map sample_use [1..<65]) (gu_request_id (sample_use 0))" by (simp only: hasUse_sample) simp
  then show ?thesis
    unfolding RecordGrantUses_doc start record_samples
    by (simp add: record_one_def use_grant_def)
qed

text \<open>
  a promise that was taken back is gone at once: whatever the write to disk did, no later
  listing offers it and no later request is answered from it.
\<close>

theorem RevokeGrant_never_found:
  assumes "snd (Grants sv' t (fst (RevokeGrant sv i v))) = Inr gs"
  shows "(\<forall>g \<in> set gs. gr_grant_id g \<noteq> i) \<and>
    (\<forall>g. findGrant gs req t = Some g \<longrightarrow> gr_grant_id g \<noteq> i \<and> g \<in> set (grants v) \<and> covers (gr_scope g) req)"
proof (intro conjI ballI allI impI)
  show "gr_grant_id g \<noteq> i" if "g \<in> set gs" for g
    using vault_grants.list_result [OF assms] that by (simp add: revoke_doc)
  show "gr_grant_id g \<noteq> i" if "findGrant gs req t = Some g" for g
    using vault_grants.revoked_not_found [OF assms that] .
  show "g \<in> set (grants v)" "covers (gr_scope g) req" if "findGrant gs req t = Some g" for g
    using vault_grants.found_is_promise [OF assms that] by (simp_all add: revoke_doc)
qed

theorem RevokeGrant_never_found_witness:
  "\<exists>gs. snd (Grants None 5 (fst (RevokeGrant (Some ''disk full'') ''g'' sample_vault))) = Inr gs \<and>
     (\<forall>g \<in> set gs. gr_grant_id g \<noteq> ''g'')"
proof -
  obtain gs where "snd (Grants None 5 (fst (RevokeGrant (Some ''disk full'') ''g'' sample_vault))) = Inr gs"
    using Grants_total by blast
  with RevokeGrant_never_found [OF this, of empty_request] show ?thesis by blast
qed

text \<open>
  a promise whose write failed is reported as an error and is not on disk, but it is in the
  document the store goes on answering from: the next listing contains it and a request it covers is
  answered from it until it expires or the process ends.
\<close>

theorem AddGrant_failed_still_found:
  assumes "t < now + ttl" "snd (Grants sv t (fst (AddGrant (Some e) (newGrant i req ttl reach now) v))) = Inr gs"
  shows "snd (AddGrant (Some e) (newGrant i req ttl reach now) v) = Inl (SaveFailed e) \<and>
    v_disk (fst (AddGrant (Some e) (newGrant i req ttl reach now) v)) = v_disk v \<and>
    findGrant gs req t \<noteq> None"
  using vault_grants.added_found [OF assms(2,1)] by (simp add: AddGrant_def)

theorem AddGrant_failed_still_found_witness:
  "\<exists>gs. snd (Grants None 5 (fst (AddGrant (Some ''disk full'') (newGrant ''n'' empty_request hour GrantReachSession 0) empty_vault))) = Inr gs
     \<and> findGrant gs empty_request 5 \<noteq> None"
proof -
  obtain gs where gs: "snd (Grants None 5 (fst (AddGrant (Some ''disk full'')
      (newGrant ''n'' empty_request hour GrantReachSession 0) empty_vault))) = Inr gs"
    using Grants_total by blast
  with AddGrant_failed_still_found [OF _ gs] show ?thesis by simp
qed

text \<open>
  a use recorded against a delegation this instance holds stays owed to its approver until the
  approver acknowledges that very request; an acknowledgement removes what it names and nothing
  else, and no delegation ever owes more than 256 uses.
\<close>

theorem delegation_ledger_accounts:
  assumes "gu_grant_id u \<in> delegation_id ` set (held_delegations v)" "delegation_ledger.bounded v"
  shows "u \<in> delegation_ledger.pending (fst (RecordDelegationUse sv u v)) \<and>
    delegation_ledger.pending (fst (AcknowledgeUses sv' rids v)) =
      {w \<in> delegation_ledger.pending v. gu_request_id w \<notin> set rids} \<and>
    delegation_ledger.bounded (fst (RecordDelegationUse sv u v)) \<and>
    delegation_ledger.bounded (fst (AcknowledgeUses sv' rids v))"
proof -
  have "gu_grant_id u \<in> fst ` set (delegation_entries v)"
    using assms(1) by (simp add: delegation_entries_def image_image)
  then show ?thesis
    using delegation_ledger.record_pending delegation_ledger.acknowledge_pending
      delegation_ledger.record_bounded [OF assms(2)] delegation_ledger.acknowledge_bounded [OF assms(2)]
    by blast
qed

definition sample_held :: held_delegation where
  "sample_held = \<lparr>hd_signed = \<lparr>sg_body = [], sg_public_key = [], sg_fingerprint = [], sg_algorithm = [],
       sg_signature = [], sg_key_signature = []\<rparr>,
     hd_delegation = \<lparr>dg_delegation_id = ''g'', dg_scope = empty_scope, dg_created_at = None,
       dg_expires_at = Some hour, dg_origin_request_id = [], dg_description = [],
       dg_approver_fingerprint = ''phone'', dg_approver_name = [], dg_requester_fingerprint = []\<rparr>,
     hd_received_at = None, hd_unreported_uses = [], hd_use_count = 0\<rparr>"

theorem delegation_ledger_accounts_witness:
  "sample_use 1 \<in> delegation_ledger.pending
     (fst (RecordDelegationUse None (sample_use 1) (with_delegations (\<lambda>_. [sample_held]) empty_vault)))"
proof -
  let ?v = "with_delegations (\<lambda>_. [sample_held]) empty_vault"
  have "gu_grant_id (sample_use 1) \<in> delegation_id ` set (held_delegations ?v)"
    by (simp add: sample_use_def sample_held_def delegation_id_def)
  moreover have "delegation_ledger.bounded ?v"
    by (simp add: delegation_ledger.bounded_def delegation_entries_def sample_held_def)
  ultimately show ?thesis using delegation_ledger_accounts [of "sample_use 1" ?v] by blast
qed

text \<open>
  the delegations this instance may answer from are exactly those it holds that still run and
  whose approver is, at that moment, a peer it lets approve. Dropping what one approver granted
  leaves none of them, whatever the write to disk did.
\<close>

theorem UsableDelegations_trusted:
  assumes "snd (UsableDelegations sv now v) = Inr ds"
  shows "set ds = {d. d \<in> hd_delegation ` set (held_delegations v) \<and> now < as_time (dg_expires_at d) \<and>
      (\<exists>r \<in> set (peers_of v). tr_may_approve r \<and> tr_fingerprint r = dg_approver_fingerprint d)} \<and>
    (\<forall>h \<in> set (held_delegations (fst (DropDelegationsFrom sv' a v))). dg_approver_fingerprint (hd_delegation h) \<noteq> a)"
proof -
  obtain w held where w: "Delegations sv now v = (w, Inr held)" "ds = filter (\<lambda>d. dg_approver_fingerprint d \<in> approvers w) (map hd_delegation held)"
    using assms by (auto simp: UsableDelegations_def split: prod.splits sum.splits)
  have "held = filter (delegation_live now) (held_delegations v)" "peers_of w = peers_of v"
    using Delegations_result [of sv now v held] Delegations_doc(1) [of sv now v] w(1) by simp_all
  moreover have "\<forall>h \<in> set (held_delegations (fst (DropDelegationsFrom sv' a v))).
      dg_approver_fingerprint (hd_delegation h) \<noteq> a"
    by (auto simp: DropDelegationsFrom_def drop_delegations_def filter_empty_conv)
  moreover have "a \<in> approvers v \<longleftrightarrow> (\<exists>r \<in> set (peers_of v). tr_may_approve r \<and> tr_fingerprint r = a)" for a
    by (auto simp: approvers_def)
  moreover have "approvers w = approvers v" using calculation(2) by (simp add: approvers_def)
  ultimately show ?thesis using w(2) by (auto simp: delegation_live_def)
qed

theorem UsableDelegations_trusted_witness:
  "\<exists>ds. snd (UsableDelegations None 5 (with_delegations (\<lambda>_. [sample_held]) empty_vault)) = Inr ds \<and> set ds = {}"
proof -
  let ?v = "with_delegations (\<lambda>_. [sample_held]) empty_vault"
  have "snd (UsableDelegations None 5 ?v) = Inr []"
    by (simp add: UsableDelegations_def Delegations_def liveDelegations_def delegation_live_def sample_held_def
        approvers_def empty_vault_def empty_document_def)
  with UsableDelegations_trusted [OF this] show ?thesis
    by (simp add: empty_vault_def empty_document_def)
qed

end
