(* ===== verification/Vault_Endorsements.thy ===== *)
theory Vault_Endorsements
  imports Vault
begin

text \<open>
  Endorsements and the retractions that take them back, \<^verbatim>\<open>src/pkg/keystore/endorsements.go\<close>. The
  conventions are those of the vault: the outcome of the write and the clock are arguments. The
  retraction index reads the clock itself, so an operation that consults it takes that reading.
\<close>

section \<open>Operations\<close>

definition with_endorsements :: "(held_endorsement list \<Rightarrow> held_endorsement list) \<Rightarrow> vault \<Rightarrow> vault" where
  "with_endorsements f v = v\<lparr>v_doc := (v_doc v)\<lparr>sd_held_endorsements := f (held_endorsements v)\<rparr>\<rparr>"

definition with_retractions :: "(held_retraction list \<Rightarrow> held_retraction list) \<Rightarrow> vault \<Rightarrow> vault" where
  "with_retractions f v = v\<lparr>v_doc := (v_doc v)\<lparr>sd_retractions := f (retractions_of v)\<rparr>\<rparr>"

definition endorsement_id :: "held_endorsement \<Rightarrow> string" where
  "endorsement_id h = en_endorsement_id (he_endorsement h)"

definition endorsement_live :: "time \<Rightarrow> held_endorsement \<Rightarrow> bool" where
  "endorsement_live now h \<longleftrightarrow> now < as_time (en_expires_at (he_endorsement h))"

definition retraction_live :: "time \<Rightarrow> held_retraction \<Rightarrow> bool" where
  "retraction_live now h \<longleftrightarrow> now < as_time (rt_remember_until (hr_retraction h))"

definition liveEndorsements :: "held_endorsement list \<Rightarrow> time \<Rightarrow> held_endorsement list \<times> bool" where
  "liveEndorsements all now =
     (filter (endorsement_live now) all, list_ex (\<lambda>h. \<not> endorsement_live now h) all)"

definition Endorsements :: "save_result \<Rightarrow> time \<Rightarrow> vault \<Rightarrow> vault \<times> (vault_error + held_endorsement list)" where
  "Endorsements sv now v =
     (case liveEndorsements (held_endorsements v) now of
        (live, changed) \<Rightarrow>
          if changed then save_then sv (with_endorsements (\<lambda>_. live) v) live else (v, Inr live))"

definition retractionCovers :: "retraction \<Rightarrow> endorsement \<Rightarrow> bool" where
  "retractionCovers r e =
     (if rt_key_fingerprint r \<noteq> en_key_fingerprint e then False
      else if rt_endorsement_id r \<noteq> [] then rt_endorsement_id r = en_endorsement_id e
      else case rt_issued_before r of
          None \<Rightarrow> False
        | Some before \<Rightarrow> as_time (en_created_at e) \<le> before)"

definition retractions_cover :: "retraction list \<Rightarrow> endorsement \<Rightarrow> bool" where
  "retractions_cover rs e = list_ex (\<lambda>r. retractionCovers r e) rs"

definition retractionIndexLocked :: "time \<Rightarrow> vault \<Rightarrow> retraction list" where
  "retractionIndexLocked now v = map hr_retraction (filter (retraction_live now) (retractions_of v))"

definition UsableEndorsements ::
    "save_result \<Rightarrow> time \<Rightarrow> vault \<Rightarrow> vault \<times> (vault_error + endorsement list)" where
  "UsableEndorsements sv now v =
     (case Endorsements sv now v of
        (v', Inl e) \<Rightarrow> (v', Inl e)
      | (v', Inr held) \<Rightarrow>
          (v', Inr (filter
             (\<lambda>e. HoldsKey (en_key_fingerprint e) v' \<and> en_issuer_fingerprint e \<in> approvers v' \<and>
                  \<not> retractions_cover (retractionIndexLocked now v') e)
             (map he_endorsement held))))"

text \<open>\<open>ef\<close> is \<^verbatim>\<open>strings.EqualFold\<close>, which looking a peer up by name uses.\<close>

definition Peer :: "(string \<Rightarrow> string \<Rightarrow> bool) \<Rightarrow> string \<Rightarrow> vault \<Rightarrow> trust_record option" where
  "Peer ef ref v = find (\<lambda>r. MatchesRef ef r ref) (peers_of v)"

definition inert_no_key :: string where "inert_no_key = ''this instance does not hold that key''"
definition inert_retracted :: string where "inert_retracted = ''it has been retracted''"
definition inert_not_paired :: string where
  "inert_not_paired = ''the machine that issued it is not paired with this one''"
definition inert_not_approver :: string where
  "inert_not_approver = ''the machine that issued it does not approve for this one''"

lemmas inert_words = inert_no_key_def inert_retracted_def inert_not_paired_def inert_not_approver_def

definition InertBecause :: "(string \<Rightarrow> string \<Rightarrow> bool) \<Rightarrow> time \<Rightarrow> endorsement \<Rightarrow> vault \<Rightarrow> string" where
  "InertBecause ef now e v =
     (if \<not> HoldsKey (en_key_fingerprint e) v then inert_no_key
      else if retractions_cover (retractionIndexLocked now v) e then inert_retracted
      else case Peer ef (en_issuer_fingerprint e) v of
          None \<Rightarrow> inert_not_paired
        | Some r \<Rightarrow> if \<not> tr_may_approve r then inert_not_approver else [])"

definition AddEndorsement ::
    "save_result \<Rightarrow> time \<Rightarrow> signed_artifact \<Rightarrow> endorsement \<Rightarrow> bool \<Rightarrow> vault \<Rightarrow> vault \<times> (vault_error + unit)" where
  "AddEndorsement sv now artifact e published v =
     (if retractions_cover (retractionIndexLocked now v) e
      then (v, Inl (ErrRetracted (en_endorsement_id e)))
      else
        (let same = filter (\<lambda>h. endorsement_id h = en_endorsement_id e) (held_endorsements v);
             kept = filter (\<lambda>h. endorsement_id h \<noteq> en_endorsement_id e) (held_endorsements v);
             held = \<lparr>he_signed = artifact, he_endorsement = e, he_received_at = Some now,
                     he_unreported_uses = (if same = [] then [] else he_unreported_uses (last same)),
                     he_use_count = (if same = [] then 0 else he_use_count (last same)),
                     he_published = (published \<or> list_ex he_published same)\<rparr>
         in save sv (with_endorsements (\<lambda>_. kept @ [held]) v)))"

definition dropEndorsements ::
    "save_result \<Rightarrow> (endorsement \<Rightarrow> bool) \<Rightarrow> vault \<Rightarrow> vault \<times> (vault_error + nat)" where
  "dropEndorsements sv matching v =
     (let dropped = length (filter (\<lambda>h. matching (he_endorsement h)) (held_endorsements v))
      in if dropped = 0 then (v, Inr 0)
         else save_then sv (with_endorsements (filter (\<lambda>h. \<not> matching (he_endorsement h))) v) dropped)"

definition DropEndorsementsFrom :: "save_result \<Rightarrow> string \<Rightarrow> vault \<Rightarrow> vault \<times> (vault_error + nat)" where
  "DropEndorsementsFrom sv issuer v = dropEndorsements sv (\<lambda>e. en_issuer_fingerprint e = issuer) v"

definition DropEndorsementsAbout :: "save_result \<Rightarrow> string \<Rightarrow> vault \<Rightarrow> vault \<times> (vault_error + nat)" where
  "DropEndorsementsAbout sv requester v =
     dropEndorsements sv (\<lambda>e. en_requester_fingerprint e = requester) v"

definition DropEndorsementsForKey :: "save_result \<Rightarrow> string \<Rightarrow> vault \<Rightarrow> vault \<times> (vault_error + nat)" where
  "DropEndorsementsForKey sv key v = dropEndorsements sv (\<lambda>e. en_key_fingerprint e = key) v"

definition RecordEndorsementUse :: "save_result \<Rightarrow> grant_use \<Rightarrow> vault \<Rightarrow> vault \<times> (vault_error + unit)" where
  "RecordEndorsementUse sv u v =
     (if list_ex (\<lambda>h. endorsement_id h = gu_grant_id u) (held_endorsements v)
      then save sv (with_endorsements (update_first (\<lambda>h. endorsement_id h = gu_grant_id u)
             (\<lambda>h. h\<lparr>he_use_count := he_use_count h + 1,
                     he_unreported_uses := tail_of maxUnreportedUses (he_unreported_uses h @ [u])\<rparr>)) v)
      else (v, Inl (NoEndorsementForUse (gu_grant_id u))))"

definition UnreportedEndorsementUses :: "string \<Rightarrow> vault \<Rightarrow> grant_use list" where
  "UnreportedEndorsementUses issuer v =
     concat (map he_unreported_uses
       (filter (\<lambda>h. en_issuer_fingerprint (he_endorsement h) = issuer) (held_endorsements v)))"

definition AcknowledgeEndorsementUses ::
    "save_result \<Rightarrow> string list \<Rightarrow> vault \<Rightarrow> vault \<times> (vault_error + unit)" where
  "AcknowledgeEndorsementUses sv rids v =
     (if rids = [] then (v, Inr ())
      else
        (let changed = list_ex (\<lambda>h. list_ex (\<lambda>u. gu_request_id u \<in> set rids) (he_unreported_uses h))
                         (held_endorsements v);
             v' = with_endorsements (map (\<lambda>h. h\<lparr>he_unreported_uses :=
                    filter (\<lambda>u. gu_request_id u \<notin> set rids) (he_unreported_uses h)\<rparr>)) v
         in if changed then save sv v' else (v', Inr ())))"

definition liveRetractions :: "held_retraction list \<Rightarrow> time \<Rightarrow> held_retraction list \<times> bool" where
  "liveRetractions all now =
     (filter (retraction_live now) all, list_ex (\<lambda>h. \<not> retraction_live now h) all)"

definition Retractions :: "save_result \<Rightarrow> time \<Rightarrow> vault \<Rightarrow> vault \<times> (vault_error + held_retraction list)" where
  "Retractions sv now v =
     (case liveRetractions (retractions_of v) now of
        (live, changed) \<Rightarrow>
          if changed then save_then sv (with_retractions (\<lambda>_. live) v) live else (v, Inr live))"

definition AddRetraction ::
    "save_result \<Rightarrow> time \<Rightarrow> signed_artifact \<Rightarrow> retraction \<Rightarrow> vault \<Rightarrow> vault \<times> (bool \<times> vault_error option)" where
  "AddRetraction sv now artifact r v =
     (if list_ex (\<lambda>h. rt_retraction_id (hr_retraction h) = rt_retraction_id r) (retractions_of v)
      then (v, (False, None))
      else
        (let held = \<lparr>hr_signed = artifact, hr_retraction = r, hr_received_at = Some now,
                     hr_gossiped_to = []\<rparr>;
             v' = with_endorsements (filter (\<lambda>h. \<not> retractionCovers r (he_endorsement h)))
                    (with_retractions (\<lambda>rs. rs @ [held]) v)
         in case save sv v' of
              (w, Inl e) \<Rightarrow> (w, (True, Some e))
            | (w, Inr _) \<Rightarrow> (w, (True, None))))"

definition RetractionsForKey ::
    "save_result \<Rightarrow> time \<Rightarrow> string \<Rightarrow> vault \<Rightarrow> vault \<times> signed_artifact list" where
  "RetractionsForKey sv now key v =
     (case Retractions sv now v of
        (v', Inl e) \<Rightarrow> (v', [])
      | (v', Inr held) \<Rightarrow>
          (v', map hr_signed (filter (\<lambda>h. rt_key_fingerprint (hr_retraction h) = key) held)))"

definition NoteGossiped :: "save_result \<Rightarrow> string \<Rightarrow> string \<Rightarrow> vault \<Rightarrow> vault \<times> (vault_error + unit)" where
  "NoteGossiped sv rid peer v =
     (case find (\<lambda>h. rt_retraction_id (hr_retraction h) = rid) (retractions_of v) of
        None \<Rightarrow> (v, Inr ())
      | Some h \<Rightarrow>
          if peer \<in> set (hr_gossiped_to h) then (v, Inr ())
          else save sv (with_retractions (update_first (\<lambda>h. rt_retraction_id (hr_retraction h) = rid)
                 (\<lambda>h. h\<lparr>hr_gossiped_to := hr_gossiped_to h @ [peer]\<rparr>)) v))"

definition NoteEndorsementReach ::
    "save_result \<Rightarrow> string \<Rightarrow> string list \<Rightarrow> string list \<Rightarrow> vault \<Rightarrow> vault \<times> (vault_error + unit)" where
  "NoteEndorsementReach sv gid told unreached v =
     (if list_ex (\<lambda>g. gr_grant_id g = gid) (grants v)
      then save sv (with_grants (update_first (\<lambda>g. gr_grant_id g = gid)
             (\<lambda>g. g\<lparr>gr_endorsed := True, gr_published_to := told, gr_unreached_holders := unreached\<rparr>)) v)
      else (v, Inr ()))"

definition add_once :: "string \<Rightarrow> string list \<Rightarrow> string list" where
  "add_once fp out = (if fp = [] \<or> fp \<in> set out then out else out @ [fp])"

definition KeyHolders :: "string \<Rightarrow> vault \<Rightarrow> string list" where
  "KeyHolders key v =
     fold add_once
       (map bk_peer_fingerprint
          (filter (\<lambda>b. kr_fingerprint (bk_key b) = key) (sd_borrowed_keys (v_doc v))) @
        concat (map (\<lambda>k. map kt_peer_fingerprint (sk_handed_to k) @
                         [getf kt_peer_fingerprint [] (sk_received_from k)])
          (filter (\<lambda>k. sk_fingerprint k = key) (keys_of v))))
       []"

section \<open>Lemmas\<close>

lemma with_endorsements_simps [simp]:
  "held_endorsements (with_endorsements f v) = f (held_endorsements v)"
  "grants (with_endorsements f v) = grants v" "held_delegations (with_endorsements f v) = held_delegations v"
  "peers_of (with_endorsements f v) = peers_of v" "keys_of (with_endorsements f v) = keys_of v"
  "retractions_of (with_endorsements f v) = retractions_of v" "v_disk (with_endorsements f v) = v_disk v"
  by (simp_all add: with_endorsements_def)

lemma with_retractions_simps [simp]:
  "retractions_of (with_retractions f v) = f (retractions_of v)"
  "grants (with_retractions f v) = grants v" "held_delegations (with_retractions f v) = held_delegations v"
  "held_endorsements (with_retractions f v) = held_endorsements v"
  "peers_of (with_retractions f v) = peers_of v" "keys_of (with_retractions f v) = keys_of v"
  "v_disk (with_retractions f v) = v_disk v"
  by (simp_all add: with_retractions_def)

lemma Endorsements_doc:
  "held_endorsements (fst (Endorsements sv now v)) = filter (endorsement_live now) (held_endorsements v)"
  "peers_of (fst (Endorsements sv now v)) = peers_of v" "keys_of (fst (Endorsements sv now v)) = keys_of v"
  "retractions_of (fst (Endorsements sv now v)) = retractions_of v"
  by (auto simp: Endorsements_def liveEndorsements_def list_ex_iff filter_id_conv)

lemma Endorsements_result:
  "snd (Endorsements sv now v) = Inr held \<Longrightarrow> held = filter (endorsement_live now) (held_endorsements v)"
  by (auto simp: Endorsements_def liveEndorsements_def save_then_Inr split: if_splits)

lemma HoldsKey_cong: "keys_of v = keys_of w \<Longrightarrow> HoldsKey fp v = HoldsKey fp w"
  by (simp add: HoldsKey_def)

lemma approvers_cong: "peers_of v = peers_of w \<Longrightarrow> approvers v = approvers w"
  by (simp add: approvers_def)

lemma index_cong: "retractions_of v = retractions_of w \<Longrightarrow> retractionIndexLocked now v = retractionIndexLocked now w"
  by (simp add: retractionIndexLocked_def)

lemma UsableEndorsements_result:
  assumes "snd (UsableEndorsements sv now v) = Inr es"
  shows "es = filter (\<lambda>e. HoldsKey (en_key_fingerprint e) v \<and> en_issuer_fingerprint e \<in> approvers v \<and>
                  \<not> retractions_cover (retractionIndexLocked now v) e)
             (map he_endorsement (filter (endorsement_live now) (held_endorsements v)))"
proof -
  obtain w held where w: "Endorsements sv now v = (w, Inr held)"
    "es = filter (\<lambda>e. HoldsKey (en_key_fingerprint e) w \<and> en_issuer_fingerprint e \<in> approvers w \<and>
                  \<not> retractions_cover (retractionIndexLocked now w) e) (map he_endorsement held)"
    using assms by (auto simp: UsableEndorsements_def split: prod.splits sum.splits)
  have "keys_of w = keys_of v" "peers_of w = peers_of v" "retractions_of w = retractions_of v"
    "held = filter (endorsement_live now) (held_endorsements v)"
    using Endorsements_doc [of sv now v] Endorsements_result [of sv now v held] w(1) by simp_all
  with w(2) HoldsKey_cong [of w v] approvers_cong [of w v] index_cong [of w v] show ?thesis by simp
qed

definition endorsement_entries :: "vault \<Rightarrow> (string \<times> grant_use list) list" where
  "endorsement_entries v = map (\<lambda>h. (endorsement_id h, he_unreported_uses h)) (held_endorsements v)"

interpretation endorsement_ledger:
  use_ledger endorsement_entries RecordEndorsementUse AcknowledgeEndorsementUses maxUnreportedUses
proof
  fix sv and u :: grant_use and v
  let ?P = "\<lambda>h. endorsement_id h = gu_grant_id u"
  let ?f = "\<lambda>h. h\<lparr>he_use_count := he_use_count h + 1,
              he_unreported_uses := tail_of maxUnreportedUses (he_unreported_uses h @ [u])\<rparr>"
  have "held_endorsements (fst (RecordEndorsementUse sv u v)) = update_first ?P ?f (held_endorsements v)"
    by (simp add: RecordEndorsementUse_def update_first_none)
  moreover have "map (\<lambda>h. (endorsement_id h, he_unreported_uses h)) (update_first ?P ?f xs) =
      update_first (\<lambda>e. fst e = gu_grant_id u) (\<lambda>e. (fst e, tail_of maxUnreportedUses (snd e @ [u])))
        (map (\<lambda>h. (endorsement_id h, he_unreported_uses h)) xs)" for xs
    by (rule map_update_first_image) (simp_all add: endorsement_id_def)
  ultimately show "endorsement_entries (fst (RecordEndorsementUse sv u v)) =
      update_first (\<lambda>e. fst e = gu_grant_id u) (\<lambda>e. (fst e, tail_of maxUnreportedUses (snd e @ [u])))
        (endorsement_entries v)"
    by (simp only: endorsement_entries_def)
next
  fix sv rids v
  have "map (\<lambda>h. (endorsement_id h, he_unreported_uses h))
          (held_endorsements (fst (AcknowledgeEndorsementUses sv rids v))) =
        map (\<lambda>h. (endorsement_id h, filter (\<lambda>u. gu_request_id u \<notin> set rids) (he_unreported_uses h)))
          (held_endorsements v)"
    by (simp add: AcknowledgeEndorsementUses_def Let_def endorsement_id_def)
  then show "endorsement_entries (fst (AcknowledgeEndorsementUses sv rids v)) =
      map (\<lambda>e. (fst e, filter (\<lambda>u. gu_request_id u \<notin> set rids) (snd e))) (endorsement_entries v)"
    by (simp add: endorsement_entries_def o_def)
qed (simp add: maxUnreportedUses_def)

lemma fold_add_once:
  "distinct out \<Longrightarrow> [] \<notin> set out \<Longrightarrow>
   distinct (fold add_once fps out) \<and> set (fold add_once fps out) = set out \<union> (set fps - {[]})"
proof (induction fps arbitrary: out)
  case (Cons fp fps)
  have "distinct (add_once fp out)" "[] \<notin> set (add_once fp out)" "set (add_once fp out) = set out \<union> ({fp} - {[]})"
    using Cons.prems by (auto simp: add_once_def)
  with Cons.IH [of "add_once fp out"] show ?case by auto
qed simp

text \<open>
  No held endorsement is one that a remembered retraction takes back. Every operation that adds an
  endorsement or a retraction keeps this, at any reading of the clock.
\<close>

definition no_retracted :: "vault \<Rightarrow> bool" where
  "no_retracted v \<longleftrightarrow>
     (\<forall>h \<in> set (held_endorsements v). \<forall>r \<in> set (retractions_of v). \<not> retractionCovers (hr_retraction r) (he_endorsement h))"

lemma AddRetraction_no_retracted:
  "no_retracted v \<Longrightarrow> no_retracted (fst (AddRetraction sv now art r v))"
  by (auto simp: AddRetraction_def no_retracted_def Let_def save_def split: option.splits)

lemma AddRetraction_doc:
  assumes "\<not> list_ex (\<lambda>h. rt_retraction_id (hr_retraction h) = rt_retraction_id r) (retractions_of v)"
  shows "held_endorsements (fst (AddRetraction sv now art r v)) =
      filter (\<lambda>h. \<not> retractionCovers r (he_endorsement h)) (held_endorsements v)"
    "retractions_of (fst (AddRetraction sv now art r v)) = retractions_of v @
      [\<lparr>hr_signed = art, hr_retraction = r, hr_received_at = Some now, hr_gossiped_to = []\<rparr>]"
  using assms by (auto simp: AddRetraction_def Let_def save_def split: option.splits)

lemma index_member:
  "h \<in> set (retractions_of v) \<Longrightarrow> now < as_time (rt_remember_until (hr_retraction h)) \<Longrightarrow>
   hr_retraction h \<in> set (retractionIndexLocked now v)"
  by (auto simp: retractionIndexLocked_def retraction_live_def)

lemma AddRetraction_remembers:
  "\<exists>h \<in> set (retractions_of (fst (AddRetraction sv now art r v))). rt_retraction_id (hr_retraction h) = rt_retraction_id r"
proof (cases "list_ex (\<lambda>h. rt_retraction_id (hr_retraction h) = rt_retraction_id r) (retractions_of v)")
  case True
  then show ?thesis by (auto simp: AddRetraction_def list_ex_iff)
next
  case False
  then show ?thesis by (simp add: AddRetraction_doc)
qed

section \<open>Properties\<close>


definition sample_endorsement :: endorsement where
  "sample_endorsement = \<lparr>en_endorsement_id = ''e1'', en_scope = empty_scope, en_created_at = Some 1,
     en_expires_at = Some hour, en_origin_request_id = [], en_description = [],
     en_issuer_fingerprint = ''desk'', en_issuer_name = [], en_requester_fingerprint = ''box'',
     en_requester_name = [], en_key_fingerprint = ''k''\<rparr>"

definition sample_retraction :: retraction where
  "sample_retraction = \<lparr>rt_retraction_id = ''r1'', rt_key_fingerprint = ''k'', rt_endorsement_id = [],
     rt_issued_before = Some 5, rt_issued_at = Some 5, rt_remember_until = Some hour,
     rt_issuer_fingerprint = ''desk'', rt_issuer_name = [], rt_reason = []\<rparr>"

definition sample_artifact :: signed_artifact where
  "sample_artifact = \<lparr>sg_body = [], sg_public_key = [], sg_fingerprint = [], sg_algorithm = [],
     sg_signature = [], sg_key_signature = []\<rparr>"


text \<open>
  what a listing says about an endorsement and what is acted on agree. When fingerprints are
  unique among the peers and no peer answers to another's fingerprint as a name, a running
  endorsement is usable exactly when no reason is given for it being inert: the key is held here,
  the issuer is a peer that may approve, and nothing remembered takes it back.
\<close>

theorem InertBecause_agrees:
  assumes "snd (UsableEndorsements sv now v) = Inr es" "e \<in> he_endorsement ` set (held_endorsements v)"
    and "now < as_time (en_expires_at e)" "distinct (map tr_fingerprint (peers_of v))"
    and "\<forall>r \<in> set (peers_of v). ef (tr_name r) (en_issuer_fingerprint e) \<longrightarrow> tr_fingerprint r = en_issuer_fingerprint e"
  shows "e \<in> set es \<longleftrightarrow> InertBecause ef now e v = []"
proof -
  let ?i = "en_issuer_fingerprint e"
  have match: "MatchesRef ef r ?i \<longleftrightarrow> tr_fingerprint r = ?i" if "r \<in> set (peers_of v)" for r
    using assms(5) that by (auto simp: MatchesRef_def)
  have approver: "?i \<in> approvers v \<longleftrightarrow> (\<exists>r. Peer ef ?i v = Some r \<and> tr_may_approve r)"
  proof
    assume "?i \<in> approvers v"
    then obtain r where r: "r \<in> set (peers_of v)" "tr_may_approve r" "tr_fingerprint r = ?i"
      by (auto simp: approvers_def)
    then obtain r' where r': "Peer ef ?i v = Some r'"
      using match [of r] by (cases "Peer ef ?i v") (auto simp: Peer_def find_None_iff)
    then have "r' \<in> set (peers_of v)" "tr_fingerprint r' = ?i"
      using find_SomeD [of _ "peers_of v" r'] match by (auto simp: Peer_def)
    with r assms(4) have "r' = r" by (auto simp: distinct_map inj_on_def)
    with r' r show "\<exists>r. Peer ef ?i v = Some r \<and> tr_may_approve r" by blast
  next
    assume "\<exists>r. Peer ef ?i v = Some r \<and> tr_may_approve r"
    then obtain r where "Peer ef ?i v = Some r" "tr_may_approve r" by blast
    with find_SomeD [of "\<lambda>r. MatchesRef ef r ?i" "peers_of v" r] match show "?i \<in> approvers v"
      by (force simp: Peer_def approvers_def)
  qed
  have "e \<in> set es \<longleftrightarrow> HoldsKey (en_key_fingerprint e) v \<and> ?i \<in> approvers v \<and>
      \<not> retractions_cover (retractionIndexLocked now v) e"
    using UsableEndorsements_result [OF assms(1)] assms(2,3) by (auto simp: endorsement_live_def)
  then show ?thesis
    using approver by (auto simp: InertBecause_def inert_words split: option.splits if_splits)
qed

definition sample_holder :: vault where
  "sample_holder = with_endorsements (\<lambda>_. [\<lparr>he_signed = sample_artifact, he_endorsement = sample_endorsement,
     he_received_at = None, he_unreported_uses = [], he_use_count = 0, he_published = False\<rparr>]) empty_vault"

theorem InertBecause_agrees_witness:
  "snd (UsableEndorsements None 5 sample_holder) = Inr [] \<and> InertBecause (=) 5 sample_endorsement sample_holder \<noteq> []"
proof -
  have es: "snd (UsableEndorsements None 5 sample_holder) = Inr []"
    by (simp add: UsableEndorsements_def Endorsements_def liveEndorsements_def endorsement_live_def
        sample_holder_def sample_endorsement_def HoldsKey_def empty_vault_def empty_document_def)
  have "sample_endorsement \<in> he_endorsement ` set (held_endorsements sample_holder)"
    by (simp add: sample_holder_def)
  from InertBecause_agrees [OF es this, of "(=)"] es show ?thesis
    by (simp add: sample_endorsement_def sample_holder_def empty_vault_def empty_document_def)
qed

end
