(* ===== verification/Vault_Peers.thy ===== *)
theory Vault_Peers
  imports Vault_Endorsements
begin

text \<open>
  The rest of the document: trust records (\<^verbatim>\<open>src/pkg/keystore/peers.go\<close>), pairings under way
  (\<^verbatim>\<open>pairings.go\<close>), the public halves peers offer (\<^verbatim>\<open>borrowed.go\<close>) and the key list
  (\<^verbatim>\<open>sshkeys.go\<close>), and then the store as a state machine over all of its mutators. \<open>ef\<close> is
  \<^verbatim>\<open>strings.EqualFold\<close>. A key that is added comes with its parsed public half and the comment read
  from its file, which belong to the SSH library; the answer of the secure element is an argument.
\<close>

section \<open>Trust records\<close>

definition with_peers :: "(trust_record list \<Rightarrow> trust_record list) \<Rightarrow> vault \<Rightarrow> vault" where
  "with_peers f v = v\<lparr>v_doc := (v_doc v)\<lparr>sd_peers := f (peers_of v)\<rparr>\<rparr>"

definition PutPeer :: "save_result \<Rightarrow> trust_record \<Rightarrow> vault \<Rightarrow> vault \<times> (vault_error + unit)" where
  "PutPeer sv r v =
     (if tr_fingerprint r = [] then (v, Inl NeedsFingerprint)
      else if list_ex (\<lambda>e. tr_fingerprint e = tr_fingerprint r) (peers_of v)
      then save sv (with_peers (update_first (\<lambda>e. tr_fingerprint e = tr_fingerprint r) (\<lambda>_. r)) v)
      else save sv (with_peers (\<lambda>rs. rs @ [r]) v))"

fun remove_peer_loop ::
    "(trust_record \<Rightarrow> bool) \<Rightarrow> string \<Rightarrow> trust_record list \<Rightarrow> string \<times> trust_record list" where
  "remove_peer_loop matching removed [] = (removed, [])"
| "remove_peer_loop matching removed (r # rs) =
     (if removed = [] \<and> matching r then remove_peer_loop matching (tr_fingerprint r) rs
      else map_prod id ((#) r) (remove_peer_loop matching removed rs))"

definition RemovePeer ::
    "(string \<Rightarrow> string \<Rightarrow> bool) \<Rightarrow> save_result \<Rightarrow> string \<Rightarrow> vault \<Rightarrow> vault \<times> (vault_error + string)" where
  "RemovePeer ef sv ref v =
     (case remove_peer_loop (\<lambda>r. MatchesRef ef r ref) [] (peers_of v) of
        (removed, kept) \<Rightarrow>
          if removed = [] then (v, Inl (ErrNoSuchPeer ref))
          else save_then sv (with_peers (\<lambda>_. kept) v) removed)"

definition keyFingerprint ::
    "(string \<Rightarrow> string \<Rightarrow> bool) \<Rightarrow> string \<Rightarrow> vault \<Rightarrow> vault_error + string" where
  "keyFingerprint ef ref v =
     (case find (\<lambda>k. sk_fingerprint k = ref \<or> ef (sk_label k) ref) (keys_of v) of
        None \<Rightarrow> Inl (ErrNoSuchKey ref)
      | Some k \<Rightarrow> Inr (sk_fingerprint k))"

fun resolve_keys ::
    "(string \<Rightarrow> string \<Rightarrow> bool) \<Rightarrow> vault \<Rightarrow> string list \<Rightarrow> string list \<Rightarrow> vault_error + string list" where
  "resolve_keys ef v resolved [] = Inr resolved"
| "resolve_keys ef v resolved (key # keys) =
     (case keyFingerprint ef key v of
        Inl e \<Rightarrow> Inl e
      | Inr fp \<Rightarrow> resolve_keys ef v (if fp \<in> set resolved then resolved else resolved @ [fp]) keys)"

definition SetPeerDirections ::
    "(string \<Rightarrow> string \<Rightarrow> bool) \<Rightarrow> save_result \<Rightarrow> string \<Rightarrow> Directions \<Rightarrow> vault
       \<Rightarrow> vault \<times> (vault_error + trust_record)" where
  "SetPeerDirections ef sv ref directions v =
     (case resolve_keys ef v [] (AllowedKeys directions) of
        Inl e \<Rightarrow> (v, Inl e)
      | Inr resolved \<Rightarrow>
          (let d = directions\<lparr>AllowedKeys := resolved\<rparr>
           in case find (\<lambda>r. MatchesRef ef r ref) (peers_of v) of
                None \<Rightarrow> (v, Inl (ErrNoSuchPeer ref))
              | Some r \<Rightarrow>
                  save_then sv (with_peers (update_first (\<lambda>r. MatchesRef ef r ref) (Applied d)) v)
                    (Applied d r)))"

text \<open>
  The code compares records by identity, so the other records are those at other positions.
\<close>

definition RenamePeer ::
    "(string \<Rightarrow> string \<Rightarrow> bool) \<Rightarrow> save_result \<Rightarrow> string \<Rightarrow> string \<Rightarrow> vault
       \<Rightarrow> vault \<times> (vault_error + trust_record)" where
  "RenamePeer ef sv ref name v =
     (case find (\<lambda>i. MatchesRef ef (peers_of v ! i) ref) [0..<length (peers_of v)] of
        None \<Rightarrow> (v, Inl (ErrNoSuchPeer ref))
      | Some i \<Rightarrow>
          if list_ex (\<lambda>j. j \<noteq> i \<and> ef (tr_name (peers_of v ! j)) name) [0..<length (peers_of v)]
          then (v, Inl (NameTaken name))
          else save_then sv (with_peers (\<lambda>rs. rs[i := Renamed (rs ! i) name]) v)
                 (Renamed (peers_of v ! i) name))"

section \<open>Pairings under way\<close>

abbreviation pendings_of :: "vault \<Rightarrow> pending_pairing list" where
  "pendings_of v \<equiv> sd_pending_pairings (v_doc v)"

definition with_pendings :: "(pending_pairing list \<Rightarrow> pending_pairing list) \<Rightarrow> vault \<Rightarrow> vault" where
  "with_pendings f v = v\<lparr>v_doc := (v_doc v)\<lparr>sd_pending_pairings := f (pendings_of v)\<rparr>\<rparr>"

definition MaxPendingPairings :: nat where "MaxPendingPairings = 16"
definition pairingAnsweredBonus :: int where "pairingAnsweredBonus = 100 * 365 * 24 * 60 * 60"

definition PendingPairings :: "vault \<Rightarrow> pending_pairing list" where
  "PendingPairings v = sort_key (\<lambda>p. as_time (pp_started_at p)) (pendings_of v)"

definition matchesPairing :: "(string \<Rightarrow> string \<Rightarrow> bool) \<Rightarrow> pending_pairing \<Rightarrow> string \<Rightarrow> bool" where
  "matchesPairing ef p ref \<longleftrightarrow> pp_session_id p = ref \<or> pp_fingerprint p = ref \<or> ef (pp_name p) ref"

definition PendingPairing :: "(string \<Rightarrow> string \<Rightarrow> bool) \<Rightarrow> string \<Rightarrow> vault \<Rightarrow> pending_pairing option" where
  "PendingPairing ef ref v = find (\<lambda>p. matchesPairing ef p ref) (pendings_of v)"

definition pairingWeight :: "pending_pairing \<Rightarrow> int" where
  "pairingWeight p =
     as_time (pp_started_at p) div second +
     (if pp_our_answer p \<noteq> PAIRING_ANSWER_UNSPECIFIED then pairingAnsweredBonus else 0)"

definition boundPairings :: "pending_pairing list \<Rightarrow> pending_pairing list" where
  "boundPairings ps =
     (if length ps \<le> MaxPendingPairings then ps
      else take MaxPendingPairings (sort_key (\<lambda>p. - pairingWeight p) ps))"

definition PutPendingPairing :: "save_result \<Rightarrow> pending_pairing \<Rightarrow> vault \<Rightarrow> vault \<times> (vault_error + unit)" where
  "PutPendingPairing sv p v =
     (if pp_session_id p = [] then (v, Inl NeedsSessionId)
      else if pp_fingerprint p = [] then (v, Inl NeedsFingerprint)
      else save sv (with_pendings (\<lambda>ps. boundPairings
             (filter (\<lambda>e. \<not> (pp_session_id e = pp_session_id p \<or> pp_fingerprint e = pp_fingerprint p)) ps @ [p])) v))"

fun remove_first :: "('a \<Rightarrow> bool) \<Rightarrow> 'a list \<Rightarrow> 'a option \<times> 'a list" where
  "remove_first P [] = (None, [])"
| "remove_first P (x # xs) = (if P x then (Some x, xs) else map_prod id ((#) x) (remove_first P xs))"

definition RemovePendingPairing ::
    "(string \<Rightarrow> string \<Rightarrow> bool) \<Rightarrow> save_result \<Rightarrow> string \<Rightarrow> vault \<Rightarrow> vault \<times> (vault_error + pending_pairing)" where
  "RemovePendingPairing ef sv ref v =
     (case remove_first (\<lambda>p. matchesPairing ef p ref) (pendings_of v) of
        (None, _) \<Rightarrow> (v, Inl (ErrNoSuchPairing ref))
      | (Some removed, kept) \<Rightarrow> save_then sv (with_pendings (\<lambda>_. kept) v) removed)"

section \<open>Borrowed keys\<close>

abbreviation borrowed_of :: "vault \<Rightarrow> borrowed_key list" where
  "borrowed_of v \<equiv> sd_borrowed_keys (v_doc v)"

definition with_borrowed :: "(borrowed_key list \<Rightarrow> borrowed_key list) \<Rightarrow> vault \<Rightarrow> vault" where
  "with_borrowed f v = v\<lparr>v_doc := (v_doc v)\<lparr>sd_borrowed_keys := f (borrowed_of v)\<rparr>\<rparr>"

definition borrowedSeenResolution :: duration where "borrowedSeenResolution = 5 * minute"

definition sameBorrowed :: "borrowed_key list \<Rightarrow> borrowed_key list \<Rightarrow> bool" where
  "sameBorrowed a b \<longleftrightarrow>
     length a = length b \<and>
     list_all (\<lambda>(x, y). bk_peer_fingerprint x = bk_peer_fingerprint y \<and>
                        kr_fingerprint (bk_key x) = kr_fingerprint (bk_key y)) (zip a b)"

definition staleBorrowed :: "borrowed_key list \<Rightarrow> string \<Rightarrow> time \<Rightarrow> bool" where
  "staleBorrowed current fp seen =
     list_ex (\<lambda>b. bk_peer_fingerprint b = fp \<and> seen - as_time (bk_last_seen_at b) > borrowedSeenResolution) current"

definition SetBorrowedKeys ::
    "save_result \<Rightarrow> string \<Rightarrow> key_ref list \<Rightarrow> time \<Rightarrow> vault \<Rightarrow> vault \<times> (vault_error + unit)" where
  "SetBorrowedKeys sv fp keys seen v =
     (let kept = filter (\<lambda>b. bk_peer_fingerprint b \<noteq> fp) (borrowed_of v) @
                 map (\<lambda>k. \<lparr>bk_peer_fingerprint = fp, bk_key = k, bk_last_seen_at = Some seen\<rparr>) keys
      in if sameBorrowed (borrowed_of v) kept \<and> \<not> staleBorrowed (borrowed_of v) fp seen then (v, Inr ())
         else save sv (with_borrowed (\<lambda>_. kept) v))"

definition DropBorrowedKeys :: "save_result \<Rightarrow> string \<Rightarrow> vault \<Rightarrow> vault \<times> (vault_error + nat)" where
  "DropBorrowedKeys sv fp v =
     (let dropped = length (filter (\<lambda>b. bk_peer_fingerprint b = fp) (borrowed_of v))
      in if dropped = 0 then (v, Inr 0)
         else save_then sv (with_borrowed (filter (\<lambda>b. bk_peer_fingerprint b \<noteq> fp)) v) dropped)"

section \<open>Keys\<close>

definition with_keys :: "(stored_key list \<Rightarrow> stored_key list) \<Rightarrow> vault \<Rightarrow> vault" where
  "with_keys f v = v\<lparr>v_doc := (v_doc v)\<lparr>sd_keys := f (keys_of v)\<rparr>\<rparr>"

definition trim_prefix :: "string \<Rightarrow> string \<Rightarrow> string" where
  "trim_prefix s p = (if has_prefix s p then drop (length p) s else s)"

definition defaultLabel :: "ssh_public_key \<Rightarrow> nat \<Rightarrow> string" where
  "defaultLabel pub n =
     (let algo = trim_prefix (trim_prefix (pk_type pub) ''ssh-'') ''ecdsa-sha2-''
      in if n = 0 then algo else algo @ ''-'' @ nat_str (n + 1))"

definition addKeyLocked ::
    "(string \<Rightarrow> string \<Rightarrow> bool) \<Rightarrow> (ssh_public_key \<Rightarrow> string) \<Rightarrow> save_result \<Rightarrow> time
       \<Rightarrow> ssh_public_key \<Rightarrow> bytes \<Rightarrow> string \<Rightarrow> string \<Rightarrow> key_origin \<Rightarrow> key_transfer option
       \<Rightarrow> vault \<Rightarrow> vault \<times> (vault_error + stored_key)" where
  "addKeyLocked ef fingerprint_of sv now pub keyPEM comment given_label origin from v =
     (let fingerprint = fingerprint_of pub
      in case find (\<lambda>k. sk_fingerprint k = fingerprint) (keys_of v) of
           Some k \<Rightarrow> (v, Inl (ErrDuplicateKey (sk_label k)))
         | None \<Rightarrow>
             (let label = (if given_label = [] then defaultLabel pub (length (keys_of v)) else given_label)
              in if list_ex (\<lambda>k. ef (sk_label k) label) (keys_of v) then (v, Inl (LabelInUse label))
                 else (let key = \<lparr>sk_label = label, sk_fingerprint = fingerprint, sk_algorithm = pk_type pub,
                              sk_comment = comment, sk_public_key = pk_marshal pub, sk_private_key = keyPEM,
                              sk_added_at = Some now, sk_origin = origin, sk_disabled = False,
                              sk_hardware_handle = [], sk_handed_to = [], sk_received_from = from,
                              sk_agent_use = None\<rparr>
                       in save_then sv (with_keys (\<lambda>ks. ks @ [key]) v) key)))"

definition AgentUse :: "stored_key \<Rightarrow> bool" where
  "AgentUse k \<longleftrightarrow> sk_agent_use k = None \<or> sk_agent_use k = Some True"

definition KeyRef :: "stored_key \<Rightarrow> key_ref" where
  "KeyRef k = \<lparr>kr_fingerprint = sk_fingerprint k, kr_algorithm = sk_algorithm k,
     kr_public_key = sk_public_key k, kr_comment = sk_comment k, kr_label = sk_label k,
     kr_agent_use = Some (AgentUse k)\<rparr>"

definition RefAgentUse :: "key_ref \<Rightarrow> bool" where
  "RefAgentUse r \<longleftrightarrow> kr_agent_use r = None \<or> kr_agent_use r = Some True"

definition KeyRefs :: "vault \<Rightarrow> key_ref list" where
  "KeyRefs v = map KeyRef (filter (\<lambda>k. \<not> sk_disabled k) (keys_of v))"

definition key_matches :: "(string \<Rightarrow> string \<Rightarrow> bool) \<Rightarrow> string \<Rightarrow> stored_key \<Rightarrow> bool" where
  "key_matches ef ref k \<longleftrightarrow> sk_fingerprint k = ref \<or> ef (sk_label k) ref"

text \<open>
  \<open>forget\<close> is what the secure element answers when told to delete a handle; it is \<^const>\<open>None\<close> on an
  instance that has no secure element.
\<close>

definition RemoveKey ::
    "(string \<Rightarrow> string \<Rightarrow> bool) \<Rightarrow> (string \<Rightarrow> string option) option \<Rightarrow> save_result \<Rightarrow> string \<Rightarrow> vault
       \<Rightarrow> vault \<times> (vault_error + unit)" where
  "RemoveKey ef forget sv ref v =
     (case filter (key_matches ef ref) (keys_of v) of
        [] \<Rightarrow> (v, Inl (ErrNoSuchKey ref))
      | k # ks \<Rightarrow>
          (let removed = last (k # ks)
           in case save sv (with_keys (filter (\<lambda>k. \<not> key_matches ef ref k)) v) of
                (v', Inl e) \<Rightarrow> (v', Inl e)
              | (v', Inr _) \<Rightarrow>
                  (v', if sk_hardware_handle removed \<noteq> []
                       then (case forget of
                               None \<Rightarrow> Inr ()
                             | Some del \<Rightarrow>
                                 (case del (sk_hardware_handle removed) of
                                    None \<Rightarrow> Inr ()
                                  | Some e \<Rightarrow> Inl (SecureElementKept (sk_label removed) e)))
                       else Inr ())))"

definition SetKeyDisabled ::
    "(string \<Rightarrow> string \<Rightarrow> bool) \<Rightarrow> save_result \<Rightarrow> string \<Rightarrow> bool \<Rightarrow> vault \<Rightarrow> vault \<times> (vault_error + unit)" where
  "SetKeyDisabled ef sv ref disabled v =
     (if list_ex (key_matches ef ref) (keys_of v)
      then save sv (with_keys (update_first (key_matches ef ref) (\<lambda>k. k\<lparr>sk_disabled := disabled\<rparr>)) v)
      else (v, Inl (ErrNoSuchKey ref)))"

definition SetKeyAgentUse ::
    "(string \<Rightarrow> string \<Rightarrow> bool) \<Rightarrow> save_result \<Rightarrow> string \<Rightarrow> bool \<Rightarrow> vault
       \<Rightarrow> vault \<times> (vault_error + stored_key)" where
  "SetKeyAgentUse ef sv ref use v =
     (case find (key_matches ef ref) (keys_of v) of
        None \<Rightarrow> (v, Inl (ErrNoSuchKey ref))
      | Some k \<Rightarrow>
          save_then sv (with_keys (update_first (key_matches ef ref) (\<lambda>k. k\<lparr>sk_agent_use := Some use\<rparr>)) v)
            (k\<lparr>sk_agent_use := Some use\<rparr>))"

section \<open>Lemmas on the operations\<close>

lemma with_peers_simps [simp]:
  "peers_of (with_peers f v) = f (peers_of v)" "v_disk (with_peers f v) = v_disk v"
  by (simp_all add: with_peers_def)

lemma with_pendings_simps [simp]:
  "pendings_of (with_pendings f v) = f (pendings_of v)" "v_disk (with_pendings f v) = v_disk v"
  by (simp_all add: with_pendings_def)

lemma with_borrowed_simps [simp]:
  "borrowed_of (with_borrowed f v) = f (borrowed_of v)" "v_disk (with_borrowed f v) = v_disk v"
  by (simp_all add: with_borrowed_def)

lemma with_keys_simps [simp]:
  "keys_of (with_keys f v) = f (keys_of v)" "v_disk (with_keys f v) = v_disk v"
  by (simp_all add: with_keys_def)

lemma remove_peer_loop_sub:
  "set (snd (remove_peer_loop P removed rs)) \<subseteq> set rs \<and>
   (distinct (map f rs) \<longrightarrow> distinct (map f (snd (remove_peer_loop P removed rs))))"
proof (induction rs arbitrary: removed)
  case (Cons r rs)
  show ?case
  proof (cases "removed = [] \<and> P r")
    case True
    then show ?thesis using Cons [of "tr_fingerprint r"] by auto
  next
    case False
    then show ?thesis using Cons [of removed] by auto
  qed
qed simp

lemma remove_peer_loop_done:
  "removed \<noteq> [] \<Longrightarrow> remove_peer_loop P removed rs = (removed, rs)"
  by (induction rs) auto

text \<open>With no empty fingerprint on record, what is removed is the first match.\<close>

lemma remove_peer_loop_first:
  "[] \<notin> tr_fingerprint ` set rs \<Longrightarrow>
   remove_peer_loop P [] rs =
     (case find P rs of None \<Rightarrow> ([], rs) | Some r \<Rightarrow> (tr_fingerprint r, snd (remove_first P rs)))"
proof (induction rs)
  case (Cons r rs)
  show ?case
  proof (cases "P r")
    case True
    then show ?thesis using Cons.prems remove_peer_loop_done [of "tr_fingerprint r" P rs] by auto
  next
    case False
    then show ?thesis using Cons by (simp split: option.split)
  qed
qed simp

lemma remove_first_sub:
  "set (snd (remove_first P xs)) \<subseteq> set xs \<and> (distinct (map f xs) \<longrightarrow> distinct (map f (snd (remove_first P xs))))"
  by (induction xs) auto

lemma remove_first_gone:
  "distinct (map f xs) \<Longrightarrow> find P xs = Some x \<Longrightarrow> f x \<notin> f ` set (snd (remove_first P xs))"
proof (induction xs)
  case (Cons y xs)
  show ?case
  proof (cases "P y")
    case True
    with Cons.prems show ?thesis by auto
  next
    case False
    with Cons have "x \<in> set xs" "f x \<notin> f ` set (snd (remove_first P xs))" using find_SomeD [of P xs x] by auto
    with Cons.prems False show ?thesis by (auto simp: image_iff)
  qed
qed simp

lemma length_remove_first: "length (snd (remove_first P xs)) \<le> length xs"
  by (induction xs) auto

lemma boundPairings_sub:
  "length (boundPairings ps) \<le> MaxPendingPairings" "set (boundPairings ps) \<subseteq> set ps"
  "distinct (map f ps) \<Longrightarrow> distinct (map f (boundPairings ps))"
proof -
  show "length (boundPairings ps) \<le> MaxPendingPairings" by (simp add: boundPairings_def)
  show "set (boundPairings ps) \<subseteq> set ps"
    by (auto simp: boundPairings_def dest: in_set_takeD)
  assume "distinct (map f ps)"
  then have "distinct (map f (sort_key (\<lambda>p. - pairingWeight p) ps))"
    by (simp add: distinct_map)
  then show "distinct (map f (boundPairings ps))"
    using \<open>distinct (map f ps)\<close> by (simp add: boundPairings_def take_map [symmetric])
qed

lemma boundPairings_outranks:
  assumes "p \<in> set ps" "p \<notin> set (boundPairings ps)" "q \<in> set (boundPairings ps)"
  shows "pairingWeight p \<le> pairingWeight q"
proof -
  let ?s = "sort_key (\<lambda>p. - pairingWeight p) ps"
  have b: "boundPairings ps = take 16 ?s" using assms(1,2) by (auto simp: boundPairings_def MaxPendingPairings_def)
  then have "p \<in> set (drop 16 ?s)"
    using assms(1,2) by (metis Un_iff append_take_drop_id set_append set_sort)
  moreover have "sorted (map (\<lambda>p. - pairingWeight p) (take 16 ?s) @ map (\<lambda>p. - pairingWeight p) (drop 16 ?s))"
    by (simp only: map_append [symmetric] append_take_drop_id sorted_sort_key)
  ultimately have "- pairingWeight q \<le> - pairingWeight p" using assms(3) b unfolding sorted_append by auto
  then show ?thesis by simp
qed

section \<open>The store as a state machine\<close>

datatype vault_op =
    O_Grants | O_AddGrant grant | O_RevokeGrant string | O_RevokeLiveGrant string | O_ReplaceGrant grant
  | O_MarkRevokePending string time | O_RecordGrantUses "grant_use list"
  | O_Delegations | O_AddDelegation signed_artifact delegation | O_DropDelegations "string list"
  | O_DropDelegationsFrom string | O_RecordDelegationUse grant_use | O_AcknowledgeUses "string list"
  | O_Endorsements | O_AddEndorsement signed_artifact endorsement bool | O_DropEndorsementsFrom string
  | O_DropEndorsementsAbout string | O_DropEndorsementsForKey string | O_RecordEndorsementUse grant_use
  | O_AcknowledgeEndorsementUses "string list" | O_Retractions | O_AddRetraction signed_artifact retraction
  | O_NoteGossiped string string | O_NoteEndorsementReach string "string list" "string list"
  | O_PutPeer trust_record | O_RemovePeer string | O_SetPeerDirections string Directions
  | O_RenamePeer string string | O_PutPendingPairing pending_pairing | O_RemovePendingPairing string
  | O_SetBorrowedKeys string "key_ref list" time | O_DropBorrowedKeys string
  | O_addKey ssh_public_key bytes string string key_origin "key_transfer option" | O_RemoveKey string
  | O_SetKeyDisabled string bool | O_SetKeyAgentUse string bool

record vault_env =
  e_fold :: "string \<Rightarrow> string \<Rightarrow> bool"
  e_fingerprint :: "ssh_public_key \<Rightarrow> string"
  e_forget :: "(string \<Rightarrow> string option) option"

fun run_op :: "vault_env \<Rightarrow> save_result \<Rightarrow> time \<Rightarrow> vault_op \<Rightarrow> vault \<Rightarrow> vault" where
  "run_op env sv now O_Grants v = fst (Grants sv now v)"
| "run_op env sv now (O_AddGrant g) v = fst (AddGrant sv g v)"
| "run_op env sv now (O_RevokeGrant i) v = fst (RevokeGrant sv i v)"
| "run_op env sv now (O_RevokeLiveGrant i) v = fst (RevokeLiveGrant sv i v)"
| "run_op env sv now (O_ReplaceGrant g) v = fst (ReplaceGrant sv g v)"
| "run_op env sv now (O_MarkRevokePending i at) v = fst (MarkRevokePending sv i at v)"
| "run_op env sv now (O_RecordGrantUses us) v = fst (RecordGrantUses sv us v)"
| "run_op env sv now O_Delegations v = fst (Delegations sv now v)"
| "run_op env sv now (O_AddDelegation a d) v = fst (AddDelegation sv now a d v)"
| "run_op env sv now (O_DropDelegations ids) v = fst (DropDelegations sv ids v)"
| "run_op env sv now (O_DropDelegationsFrom a) v = fst (DropDelegationsFrom sv a v)"
| "run_op env sv now (O_RecordDelegationUse u) v = fst (RecordDelegationUse sv u v)"
| "run_op env sv now (O_AcknowledgeUses rs) v = fst (AcknowledgeUses sv rs v)"
| "run_op env sv now O_Endorsements v = fst (Endorsements sv now v)"
| "run_op env sv now (O_AddEndorsement a e p) v = fst (AddEndorsement sv now a e p v)"
| "run_op env sv now (O_DropEndorsementsFrom i) v = fst (DropEndorsementsFrom sv i v)"
| "run_op env sv now (O_DropEndorsementsAbout i) v = fst (DropEndorsementsAbout sv i v)"
| "run_op env sv now (O_DropEndorsementsForKey i) v = fst (DropEndorsementsForKey sv i v)"
| "run_op env sv now (O_RecordEndorsementUse u) v = fst (RecordEndorsementUse sv u v)"
| "run_op env sv now (O_AcknowledgeEndorsementUses rs) v = fst (AcknowledgeEndorsementUses sv rs v)"
| "run_op env sv now O_Retractions v = fst (Retractions sv now v)"
| "run_op env sv now (O_AddRetraction a r) v = fst (AddRetraction sv now a r v)"
| "run_op env sv now (O_NoteGossiped r p) v = fst (NoteGossiped sv r p v)"
| "run_op env sv now (O_NoteEndorsementReach g t u) v = fst (NoteEndorsementReach sv g t u v)"
| "run_op env sv now (O_PutPeer r) v = fst (PutPeer sv r v)"
| "run_op env sv now (O_RemovePeer ref) v = fst (RemovePeer (e_fold env) sv ref v)"
| "run_op env sv now (O_SetPeerDirections ref d) v = fst (SetPeerDirections (e_fold env) sv ref d v)"
| "run_op env sv now (O_RenamePeer ref n) v = fst (RenamePeer (e_fold env) sv ref n v)"
| "run_op env sv now (O_PutPendingPairing p) v = fst (PutPendingPairing sv p v)"
| "run_op env sv now (O_RemovePendingPairing ref) v = fst (RemovePendingPairing (e_fold env) sv ref v)"
| "run_op env sv now (O_SetBorrowedKeys fp ks seen) v = fst (SetBorrowedKeys sv fp ks seen v)"
| "run_op env sv now (O_DropBorrowedKeys fp) v = fst (DropBorrowedKeys sv fp v)"
| "run_op env sv now (O_addKey pub pem c l orig from) v =
     fst (addKeyLocked (e_fold env) (e_fingerprint env) sv now pub pem c l orig from v)"
| "run_op env sv now (O_RemoveKey ref) v = fst (RemoveKey (e_fold env) (e_forget env) sv ref v)"
| "run_op env sv now (O_SetKeyDisabled ref b) v = fst (SetKeyDisabled (e_fold env) sv ref b v)"
| "run_op env sv now (O_SetKeyAgentUse ref b) v = fst (SetKeyAgentUse (e_fold env) sv ref b v)"

text \<open>A promise enters the store with an empty ledger, as \<^const>\<open>newGrant\<close> makes it.\<close>

fun op_ok :: "vault_op \<Rightarrow> bool" where
  "op_ok (O_AddGrant g) \<longleftrightarrow> gr_recent_uses g = []"
| "op_ok _ \<longleftrightarrow> True"

inductive reachable :: "vault_env \<Rightarrow> vault \<Rightarrow> bool" for env where
  reachable_init: "reachable env empty_vault"
| reachable_step: "reachable env v \<Longrightarrow> op_ok op \<Longrightarrow> reachable env (run_op env sv now op v)"

inductive_cases reachable_cases: "reachable env v"

text \<open>The well-formedness of a document, one clause per list.\<close>

definition grants_wf :: "grant list \<Rightarrow> bool" where
  "grants_wf gs \<longleftrightarrow> (\<forall>g \<in> set gs. length (gr_recent_uses g) \<le> maxRecentUses)"

definition delegations_wf :: "held_delegation list \<Rightarrow> bool" where
  "delegations_wf hs \<longleftrightarrow> distinct (map delegation_id hs) \<and>
     (\<forall>h \<in> set hs. length (hd_unreported_uses h) \<le> maxUnreportedUses)"

definition endorsements_wf :: "held_endorsement list \<Rightarrow> bool" where
  "endorsements_wf hs \<longleftrightarrow> distinct (map endorsement_id hs) \<and>
     (\<forall>h \<in> set hs. length (he_unreported_uses h) \<le> maxUnreportedUses)"

definition retractions_wf :: "held_retraction list \<Rightarrow> bool" where
  "retractions_wf hs \<longleftrightarrow> distinct (map (\<lambda>h. rt_retraction_id (hr_retraction h)) hs)"

definition peers_wf :: "trust_record list \<Rightarrow> bool" where
  "peers_wf rs \<longleftrightarrow> distinct (map tr_fingerprint rs) \<and> [] \<notin> tr_fingerprint ` set rs"

definition pendings_wf :: "pending_pairing list \<Rightarrow> bool" where
  "pendings_wf ps \<longleftrightarrow> length ps \<le> MaxPendingPairings \<and> distinct (map pp_session_id ps) \<and>
     distinct (map pp_fingerprint ps)"

definition keys_wf :: "stored_key list \<Rightarrow> bool" where
  "keys_wf ks \<longleftrightarrow> distinct (map sk_fingerprint ks)"

definition vault_wf :: "vault \<Rightarrow> bool" where
  "vault_wf v \<longleftrightarrow> grants_wf (grants v) \<and> delegations_wf (held_delegations v) \<and>
     endorsements_wf (held_endorsements v) \<and> retractions_wf (retractions_of v) \<and>
     peers_wf (peers_of v) \<and> pendings_wf (pendings_of v) \<and> keys_wf (keys_of v)"

text \<open>Changing one list keeps the document well-formed when the list stays so.\<close>

lemma vault_wf_with:
  "vault_wf v \<Longrightarrow> grants_wf (f1 (grants v)) \<Longrightarrow> vault_wf (with_grants f1 v)"
  "vault_wf v \<Longrightarrow> delegations_wf (f2 (held_delegations v)) \<Longrightarrow> vault_wf (with_delegations f2 v)"
  "vault_wf v \<Longrightarrow> endorsements_wf (f3 (held_endorsements v)) \<Longrightarrow> vault_wf (with_endorsements f3 v)"
  "vault_wf v \<Longrightarrow> retractions_wf (f4 (retractions_of v)) \<Longrightarrow> vault_wf (with_retractions f4 v)"
  "vault_wf v \<Longrightarrow> peers_wf (f5 (peers_of v)) \<Longrightarrow> vault_wf (with_peers f5 v)"
  "vault_wf v \<Longrightarrow> pendings_wf (f6 (pendings_of v)) \<Longrightarrow> vault_wf (with_pendings f6 v)"
  "vault_wf v \<Longrightarrow> vault_wf (with_borrowed f7 v)"
  "vault_wf v \<Longrightarrow> keys_wf (f8 (keys_of v)) \<Longrightarrow> vault_wf (with_keys f8 v)"
  by (simp_all add: vault_wf_def with_grants_def with_delegations_def with_endorsements_def
      with_retractions_def with_peers_def with_pendings_def with_borrowed_def with_keys_def)

lemma vault_wf_save [simp]:
  "vault_wf (fst (save sv v)) = vault_wf v" "vault_wf (fst (save_then sv v x)) = vault_wf v"
  by (simp_all add: vault_wf_def)

lemma vault_wf_parts:
  assumes "vault_wf v"
  shows "grants_wf (grants v)" "delegations_wf (held_delegations v)" "endorsements_wf (held_endorsements v)"
    "retractions_wf (retractions_of v)" "peers_wf (peers_of v)" "pendings_wf (pendings_of v)"
    "keys_wf (keys_of v)"
  using assms by (simp_all add: vault_wf_def)

lemma distinct_map_filter_sub: "distinct (map f xs) \<Longrightarrow> distinct (map f (filter P xs))"
  by (rule distinct_map_filter)

lemma wf_filter [simp]:
  "grants_wf gs \<Longrightarrow> grants_wf (filter P1 gs)" "delegations_wf ds \<Longrightarrow> delegations_wf (filter P2 ds)"
  "endorsements_wf es \<Longrightarrow> endorsements_wf (filter P3 es)" "retractions_wf rs \<Longrightarrow> retractions_wf (filter P4 rs)"
  "keys_wf ks \<Longrightarrow> keys_wf (filter P5 ks)"
  by (auto simp: grants_wf_def delegations_wf_def endorsements_wf_def retractions_wf_def keys_wf_def
      intro: distinct_map_filter)

lemma tail_append_bound: "length (tail_of n (xs @ [x])) \<le> n"
  by simp

lemma grants_wf_update:
  "grants_wf gs \<Longrightarrow> (\<And>g. length (gr_recent_uses g) \<le> maxRecentUses \<Longrightarrow> length (gr_recent_uses (f g)) \<le> maxRecentUses)
   \<Longrightarrow> grants_wf (update_first P f gs)"
  by (auto simp: grants_wf_def dest!: in_update_firstD)

lemma record_one_wf: "grants_wf (fst st) \<Longrightarrow> grants_wf (fst (record_one u st))"
  by (auto simp: record_one_def use_grant_def intro!: grants_wf_update split: option.split)

lemma fold_record_wf: "grants_wf (fst st) \<Longrightarrow> grants_wf (fst (fold record_one us st))"
  by (induction us arbitrary: st) (simp_all add: record_one_wf)

lemma grant_ops_wf:
  assumes "vault_wf v"
  shows "vault_wf (fst (Grants sv now v))" "vault_wf (fst (RevokeGrant sv i v))"
    "vault_wf (fst (RevokeLiveGrant sv i v))" "vault_wf (fst (ReplaceGrant sv g v))"
    "vault_wf (fst (MarkRevokePending sv i at v))" "vault_wf (fst (RecordGrantUses sv us v))"
    "vault_wf (fst (NoteEndorsementReach sv i told un v))"
    "gr_recent_uses g = [] \<Longrightarrow> vault_wf (fst (AddGrant sv g v))"
proof -
  note wf = vault_wf_parts(1) [OF assms]
  show "vault_wf (fst (Grants sv now v))" using assms wf by (auto intro!: vault_wf_with simp: Grants_def Let_def)
  have rv: "vault_wf (fst (revoke sv i v))" using assms wf by (auto intro!: vault_wf_with simp: revoke_def)
  then show "vault_wf (fst (RevokeGrant sv i v))" "vault_wf (fst (RevokeLiveGrant sv i v))"
    by (auto simp: RevokeGrant_def RevokeLiveGrant_def split: prod.splits sum.splits)
  show "vault_wf (fst (ReplaceGrant sv g v))"
    using assms wf by (auto intro!: vault_wf_with simp: ReplaceGrant_def grants_wf_def dest!: in_update_firstD)
  show "vault_wf (fst (MarkRevokePending sv i at v))"
    using assms wf by (auto intro!: vault_wf_with simp: MarkRevokePending_def intro!: grants_wf_update split: option.split)
  show "vault_wf (fst (RecordGrantUses sv us v))"
    using assms wf fold_record_wf [of "(grants v, False)" us]
    by (auto intro!: vault_wf_with simp: RecordGrantUses_def split: prod.split)
  show "vault_wf (fst (NoteEndorsementReach sv i told un v))"
    using assms wf by (auto intro!: vault_wf_with simp: NoteEndorsementReach_def intro!: grants_wf_update)
  show "gr_recent_uses g = [] \<Longrightarrow> vault_wf (fst (AddGrant sv g v))"
    using assms wf by (auto intro!: vault_wf_with simp: AddGrant_def grants_wf_def)
qed

lemma delegation_ops_wf:
  assumes "vault_wf v"
  shows "vault_wf (fst (Delegations sv now v))" "vault_wf (fst (AddDelegation sv now a d v))"
    "vault_wf (fst (DropDelegations sv ids v))" "vault_wf (fst (DropDelegationsFrom sv ap v))"
    "vault_wf (fst (RecordDelegationUse sv u v))" "vault_wf (fst (AcknowledgeUses sv rs v))"
proof -
  note wf = vault_wf_parts(2) [OF assms]
  show "vault_wf (fst (Delegations sv now v))"
    using assms wf by (auto intro!: vault_wf_with simp: Delegations_def liveDelegations_def)
  have last_in: "filter P xs \<noteq> [] \<Longrightarrow> last (filter P xs) \<in> set xs" for P and xs :: "held_delegation list"
    by (metis filter_is_subset last_in_set subsetD)
  show "vault_wf (fst (AddDelegation sv now a d v))"
    using assms wf last_in
    by (auto intro!: vault_wf_with simp: AddDelegation_def Let_def delegations_wf_def delegation_id_def distinct_map_filter)
  have drop: "vault_wf (fst (drop_delegations sv P v))" for P
    using assms wf by (auto intro!: vault_wf_with simp: drop_delegations_def Let_def)
  then show "vault_wf (fst (DropDelegations sv ids v))" "vault_wf (fst (DropDelegationsFrom sv ap v))"
    using assms by (simp_all add: DropDelegations_def DropDelegationsFrom_def)
  show "vault_wf (fst (RecordDelegationUse sv u v))"
    using assms wf by (auto intro!: vault_wf_with simp: RecordDelegationUse_def delegations_wf_def delegation_id_def dest!: in_update_firstD)
  show "vault_wf (fst (AcknowledgeUses sv rs v))"
    using assms wf
    by (auto simp: AcknowledgeUses_def Let_def delegations_wf_def delegation_id_def [abs_def] o_def
        intro!: vault_wf_with order_trans [OF length_filter_le])
qed

lemma endorsement_ops_wf:
  assumes "vault_wf v"
  shows "vault_wf (fst (Endorsements sv now v))" "vault_wf (fst (AddEndorsement sv now a e pub v))"
    "vault_wf (fst (DropEndorsementsFrom sv i v))" "vault_wf (fst (DropEndorsementsAbout sv i v))"
    "vault_wf (fst (DropEndorsementsForKey sv i v))" "vault_wf (fst (RecordEndorsementUse sv u v))"
    "vault_wf (fst (AcknowledgeEndorsementUses sv rs v))"
proof -
  note wf = vault_wf_parts(3) [OF assms]
  show "vault_wf (fst (Endorsements sv now v))"
    using assms wf by (auto intro!: vault_wf_with simp: Endorsements_def liveEndorsements_def)
  have last_in: "filter P xs \<noteq> [] \<Longrightarrow> last (filter P xs) \<in> set xs" for P and xs :: "held_endorsement list"
    by (metis filter_is_subset last_in_set subsetD)
  show "vault_wf (fst (AddEndorsement sv now a e pub v))"
    using assms wf last_in
    by (auto intro!: vault_wf_with simp: AddEndorsement_def Let_def endorsements_wf_def endorsement_id_def distinct_map_filter)
  have drop: "vault_wf (fst (dropEndorsements sv P v))" for P
    using assms wf by (auto intro!: vault_wf_with simp: dropEndorsements_def Let_def)
  then show "vault_wf (fst (DropEndorsementsFrom sv i v))" "vault_wf (fst (DropEndorsementsAbout sv i v))"
    "vault_wf (fst (DropEndorsementsForKey sv i v))"
    by (simp_all add: DropEndorsementsFrom_def DropEndorsementsAbout_def DropEndorsementsForKey_def)
  show "vault_wf (fst (RecordEndorsementUse sv u v))"
    using assms wf by (auto intro!: vault_wf_with simp: RecordEndorsementUse_def endorsements_wf_def endorsement_id_def dest!: in_update_firstD)
  show "vault_wf (fst (AcknowledgeEndorsementUses sv rs v))"
    using assms wf
    by (auto simp: AcknowledgeEndorsementUses_def Let_def endorsements_wf_def endorsement_id_def [abs_def] o_def
        intro!: vault_wf_with order_trans [OF length_filter_le])
qed

lemma retraction_ops_wf:
  assumes "vault_wf v"
  shows "vault_wf (fst (Retractions sv now v))" "vault_wf (fst (AddRetraction sv now a r v))"
    "vault_wf (fst (NoteGossiped sv rid p v))"
proof -
  note wf = vault_wf_parts(3,4) [OF assms]
  show "vault_wf (fst (Retractions sv now v))"
    using assms wf by (auto intro!: vault_wf_with simp: Retractions_def liveRetractions_def)
  let ?held = "\<lparr>hr_signed = a, hr_retraction = r, hr_received_at = Some now, hr_gossiped_to = []\<rparr>"
  have "vault_wf (with_endorsements (filter (\<lambda>h. \<not> retractionCovers r (he_endorsement h)))
      (with_retractions (\<lambda>rs. rs @ [?held]) v))"
    if "\<not> list_ex (\<lambda>h. rt_retraction_id (hr_retraction h) = rt_retraction_id r) (retractions_of v)"
    using assms wf that by (intro vault_wf_with) (auto simp: retractions_wf_def list_ex_iff)
  then show "vault_wf (fst (AddRetraction sv now a r v))"
    using assms by (auto simp: AddRetraction_def Let_def save_def vault_wf_def split: option.split)
  show "vault_wf (fst (NoteGossiped sv rid p v))"
    using assms wf by (auto intro!: vault_wf_with simp: NoteGossiped_def retractions_wf_def split: option.split)
qed

lemma peers_wf_sub:
  "peers_wf rs \<Longrightarrow> set ks \<subseteq> set rs \<Longrightarrow> distinct (map tr_fingerprint ks) \<Longrightarrow> peers_wf ks"
  by (auto simp: peers_wf_def)

lemma put_replace_map:
  "map tr_fingerprint (update_first (\<lambda>e. tr_fingerprint e = tr_fingerprint r) (\<lambda>_. r) rs) = map tr_fingerprint rs"
  by (induction rs) auto

lemma peer_ops_wf:
  assumes "vault_wf v"
  shows "vault_wf (fst (PutPeer sv r v))" "vault_wf (fst (RemovePeer ef sv ref v))"
    "vault_wf (fst (SetPeerDirections ef sv ref d v))" "vault_wf (fst (RenamePeer ef sv ref n v))"
proof -
  note wf = vault_wf_parts(5) [OF assms]
  show "vault_wf (fst (PutPeer sv r v))"
  proof -
    have "peers_wf (update_first (\<lambda>e. tr_fingerprint e = tr_fingerprint r) (\<lambda>_. r) (peers_of v))"
      using wf put_replace_map [of r "peers_of v"] unfolding peers_wf_def by (metis list.set_map)
    moreover have "peers_wf (peers_of v @ [r])"
      if "\<not> list_ex (\<lambda>e. tr_fingerprint e = tr_fingerprint r) (peers_of v)" "tr_fingerprint r \<noteq> []"
    proof -
      have "tr_fingerprint r \<notin> tr_fingerprint ` set (peers_of v)" using that by (force simp: list_ex_iff)
      then show ?thesis using wf that(2) by (simp add: peers_wf_def)
    qed
    ultimately show ?thesis using assms by (auto simp: PutPeer_def intro!: vault_wf_with)
  qed
  show "vault_wf (fst (RemovePeer ef sv ref v))"
  proof -
    let ?l = "remove_peer_loop (\<lambda>r. MatchesRef ef r ref) [] (peers_of v)"
    have "peers_wf (snd ?l)"
      using remove_peer_loop_sub [where f = tr_fingerprint] wf by (intro peers_wf_sub [OF wf]) (auto simp: peers_wf_def)
    then have "vault_wf (with_peers (\<lambda>_. snd ?l) v)" using assms by (intro vault_wf_with)
    then show ?thesis using assms by (simp add: RemovePeer_def split: prod.split) auto
  qed
  have "peers_wf (update_first P (Applied d') (peers_of v))" for P d'
    using wf by (auto simp: peers_wf_def Applied_def dest!: in_update_firstD)
  then have "vault_wf (with_peers (update_first P (Applied d')) v)" for P d'
    using assms by (intro vault_wf_with)
  then show "vault_wf (fst (SetPeerDirections ef sv ref d v))"
    using assms by (simp add: SetPeerDirections_def Let_def split: sum.split option.split)
  have "peers_wf ((peers_of v)[i := Renamed (peers_of v ! i) n])" if "i < length (peers_of v)" for i
  proof -
    have "map tr_fingerprint ((peers_of v)[i := Renamed (peers_of v ! i) n]) = map tr_fingerprint (peers_of v)"
      using that by (simp add: map_update Renamed_def list_update_same_conv)
    then show ?thesis using wf unfolding peers_wf_def by (metis list.set_map)
  qed
  then have "vault_wf (with_peers (\<lambda>rs. rs[i := Renamed (rs ! i) n]) v)" if "i < length (peers_of v)" for i
    using assms that by (intro vault_wf_with)
  then show "vault_wf (fst (RenamePeer ef sv ref n v))"
    using assms by (auto simp: RenamePeer_def dest!: find_SomeD split: option.split)
qed

lemma pending_ops_wf:
  assumes "vault_wf v"
  shows "vault_wf (fst (PutPendingPairing sv p v))" "vault_wf (fst (RemovePendingPairing ef sv ref v))"
proof -
  note wf = vault_wf_parts(6) [OF assms]
  let ?kept = "filter (\<lambda>e. \<not> (pp_session_id e = pp_session_id p \<or> pp_fingerprint e = pp_fingerprint p)) (pendings_of v)"
  have "distinct (map pp_session_id (?kept @ [p]))" "distinct (map pp_fingerprint (?kept @ [p]))"
    using wf by (auto simp: pendings_wf_def intro!: distinct_map_filter)
  then have "pendings_wf (boundPairings (?kept @ [p]))"
    by (simp add: pendings_wf_def boundPairings_sub)
  then show "vault_wf (fst (PutPendingPairing sv p v))"
    using assms by (auto simp: PutPendingPairing_def intro!: vault_wf_with)
  let ?l = "remove_first (\<lambda>p. matchesPairing ef p ref) (pendings_of v)"
  have "pendings_wf (snd ?l)"
    using wf remove_first_sub [of "\<lambda>p. matchesPairing ef p ref" "pendings_of v" pp_session_id]
      remove_first_sub [of "\<lambda>p. matchesPairing ef p ref" "pendings_of v" pp_fingerprint]
      length_remove_first [of "\<lambda>p. matchesPairing ef p ref" "pendings_of v"]
    by (auto simp: pendings_wf_def)
  then have "vault_wf (with_pendings (\<lambda>_. snd ?l) v)" using assms by (intro vault_wf_with)
  then show "vault_wf (fst (RemovePendingPairing ef sv ref v))"
    using assms by (simp add: RemovePendingPairing_def split: prod.split option.split) auto
qed

lemma borrowed_ops_wf:
  assumes "vault_wf v"
  shows "vault_wf (fst (SetBorrowedKeys sv fp ks seen v))" "vault_wf (fst (DropBorrowedKeys sv fp v))"
  using assms by (auto simp: SetBorrowedKeys_def DropBorrowedKeys_def Let_def intro!: vault_wf_with)

lemma key_ops_wf:
  assumes "vault_wf v"
  shows "vault_wf (fst (addKeyLocked ef fpo sv now pub pem c l orig from v))"
    "vault_wf (fst (RemoveKey ef forget sv ref v))" "vault_wf (fst (SetKeyDisabled ef sv ref b v))"
    "vault_wf (fst (SetKeyAgentUse ef sv ref b v))"
proof -
  note wf = vault_wf_parts(7) [OF assms]
  have "keys_wf (keys_of v @ [k])"
    if "find (\<lambda>k. sk_fingerprint k = fpo pub) (keys_of v) = None" "sk_fingerprint k = fpo pub" for k
  proof -
    have "fpo pub \<notin> sk_fingerprint ` set (keys_of v)" using that(1) by (force simp: find_None_iff)
    then show ?thesis using wf that(2) by (simp add: keys_wf_def)
  qed
  then show "vault_wf (fst (addKeyLocked ef fpo sv now pub pem c l orig from v))"
    using assms by (auto simp: addKeyLocked_def Let_def intro!: vault_wf_with split: option.split)
  have "vault_wf (with_keys (filter P) v)" for P
    using assms wf by (intro vault_wf_with wf_filter(5)) assumption+
  then show "vault_wf (fst (RemoveKey ef forget sv ref v))"
    using assms by (auto simp: RemoveKey_def Let_def save_def vault_wf_def split: list.split option.split)
  show "vault_wf (fst (SetKeyDisabled ef sv ref b v))" "vault_wf (fst (SetKeyAgentUse ef sv ref b v))"
    using assms wf
    by (auto simp: SetKeyDisabled_def SetKeyAgentUse_def keys_wf_def intro!: vault_wf_with split: option.split)
qed

lemmas ops_wf = grant_ops_wf delegation_ops_wf endorsement_ops_wf retraction_ops_wf peer_ops_wf
  pending_ops_wf borrowed_ops_wf key_ops_wf

lemma run_op_wf: "vault_wf v \<Longrightarrow> op_ok op \<Longrightarrow> vault_wf (run_op env sv now op v)"
  by (cases op) (simp_all add: ops_wf)

lemma empty_vault_wf: "vault_wf empty_vault"
  by (simp add: vault_wf_def empty_vault_def empty_document_def grants_wf_def delegations_wf_def
      endorsements_wf_def retractions_wf_def peers_wf_def pendings_wf_def keys_wf_def)

lemma reachable_wf: "reachable env v \<Longrightarrow> vault_wf v"
  by (induction rule: reachable.induct) (simp_all add: empty_vault_wf run_op_wf)

section \<open>Durability\<close>

text \<open>
  A vault is in step when the disk holds the document. One operation whose write succeeds keeps it
  in step; one whose write fails leaves the disk as it was.
\<close>

definition in_step :: "vault \<Rightarrow> bool" where
  "in_step v \<longleftrightarrow> v_disk v = v_doc v"

lemma in_step_save [simp]: "in_step (fst (save None v))" "in_step (fst (save_then None v x))"
  by (simp_all add: in_step_def)

lemma disk_save [simp]:
  "v_disk (fst (save (Some e) v)) = v_disk v" "v_disk (fst (save_then (Some e) v x)) = v_disk v"
  by simp_all

lemma AcknowledgeUses_same:
  "\<not> list_ex (\<lambda>h. list_ex (\<lambda>u. gu_request_id u \<in> set rids) (hd_unreported_uses h)) (held_delegations v) \<Longrightarrow>
   with_delegations (map (\<lambda>h. h\<lparr>hd_unreported_uses := filter (\<lambda>u. gu_request_id u \<notin> set rids) (hd_unreported_uses h)\<rparr>)) v = v"
proof -
  assume "\<not> list_ex (\<lambda>h. list_ex (\<lambda>u. gu_request_id u \<in> set rids) (hd_unreported_uses h)) (held_delegations v)"
  then have "map (\<lambda>h. h\<lparr>hd_unreported_uses := filter (\<lambda>u. gu_request_id u \<notin> set rids) (hd_unreported_uses h)\<rparr>) (held_delegations v) = held_delegations v"
    by (intro map_idI) (auto simp: list_ex_iff filter_True)
  then show ?thesis by (simp add: with_delegations_def)
qed

lemma AcknowledgeEndorsementUses_same:
  "\<not> list_ex (\<lambda>h. list_ex (\<lambda>u. gu_request_id u \<in> set rids) (he_unreported_uses h)) (held_endorsements v) \<Longrightarrow>
   with_endorsements (map (\<lambda>h. h\<lparr>he_unreported_uses := filter (\<lambda>u. gu_request_id u \<notin> set rids) (he_unreported_uses h)\<rparr>)) v = v"
proof -
  assume "\<not> list_ex (\<lambda>h. list_ex (\<lambda>u. gu_request_id u \<in> set rids) (he_unreported_uses h)) (held_endorsements v)"
  then have "map (\<lambda>h. h\<lparr>he_unreported_uses := filter (\<lambda>u. gu_request_id u \<notin> set rids) (he_unreported_uses h)\<rparr>) (held_endorsements v) = held_endorsements v"
    by (intro map_idI) (auto simp: list_ex_iff filter_True)
  then show ?thesis by (simp add: with_endorsements_def)
qed

lemmas vault_op_defs = Grants_def AddGrant_def revoke_def RevokeGrant_def RevokeLiveGrant_def ReplaceGrant_def
  MarkRevokePending_def RecordGrantUses_def Delegations_def liveDelegations_def AddDelegation_def
  drop_delegations_def DropDelegations_def DropDelegationsFrom_def RecordDelegationUse_def AcknowledgeUses_def
  Endorsements_def liveEndorsements_def AddEndorsement_def dropEndorsements_def DropEndorsementsFrom_def
  DropEndorsementsAbout_def DropEndorsementsForKey_def RecordEndorsementUse_def
  AcknowledgeEndorsementUses_def Retractions_def liveRetractions_def AddRetraction_def NoteGossiped_def
  NoteEndorsementReach_def PutPeer_def RemovePeer_def SetPeerDirections_def RenamePeer_def
  PutPendingPairing_def RemovePendingPairing_def SetBorrowedKeys_def DropBorrowedKeys_def
  addKeyLocked_def RemoveKey_def SetKeyDisabled_def SetKeyAgentUse_def

lemma run_op_in_step: "in_step v \<Longrightarrow> in_step (run_op env None now op v)"
  by (cases op)
     (auto simp: vault_op_defs Let_def AcknowledgeUses_same AcknowledgeEndorsementUses_same save_def save_then_def
        in_step_def split: option.splits sum.splits prod.splits list.splits)

lemma run_op_disk: "v_disk (run_op env (Some e) now op v) = v_disk v"
  by (cases op)
     (auto simp: vault_op_defs Let_def save_def save_then_def
        split: option.splits sum.splits prod.splits list.splits)

section \<open>Trust records as a store\<close>

text \<open>
  The interface \<^verbatim>\<open>trust.Store\<close>: records with one fingerprint each, of which putting replaces or adds
  one, and removing forgets one.
\<close>

locale trust_store =
  fixes records :: "'s \<Rightarrow> trust_record list"
    and put :: "save_result \<Rightarrow> trust_record \<Rightarrow> 's \<Rightarrow> 's \<times> (vault_error + unit)"
    and remove :: "save_result \<Rightarrow> string \<Rightarrow> 's \<Rightarrow> 's \<times> (vault_error + string)"
    and ok :: "'s \<Rightarrow> bool"
  assumes ok_wf: "ok s \<Longrightarrow> peers_wf (records s)"
    and put_records: "ok s \<Longrightarrow> tr_fingerprint r \<noteq> [] \<Longrightarrow> set (records (fst (put sv r s))) =
        insert r {e \<in> set (records s). tr_fingerprint e \<noteq> tr_fingerprint r}"
    and remove_records: "ok s \<Longrightarrow> snd (remove sv ref s) = Inr fp \<Longrightarrow>
        set (records (fst (remove sv ref s))) = {e \<in> set (records s). tr_fingerprint e \<noteq> fp} \<and>
        fp \<in> tr_fingerprint ` set (records s)"
begin

lemma put_lookup:
  assumes "ok s" "tr_fingerprint r \<noteq> []" "e \<in> set (records (fst (put sv r s)))" "tr_fingerprint e = tr_fingerprint r"
  shows "e = r"
  using assms put_records by auto

lemma put_others:
  assumes "ok s" "tr_fingerprint r \<noteq> []" "tr_fingerprint e \<noteq> tr_fingerprint r"
  shows "e \<in> set (records (fst (put sv r s))) \<longleftrightarrow> e \<in> set (records s)"
  using assms put_records by auto

lemma removed_gone:
  "ok s \<Longrightarrow> snd (remove sv ref s) = Inr fp \<Longrightarrow> fp \<notin> tr_fingerprint ` set (records (fst (remove sv ref s)))"
  using remove_records by auto

end

lemma update_first_set:
  "distinct (map tr_fingerprint rs) \<Longrightarrow> tr_fingerprint r \<in> tr_fingerprint ` set rs \<Longrightarrow>
   set (update_first (\<lambda>e. tr_fingerprint e = tr_fingerprint r) (\<lambda>_. r) rs) =
     insert r {e \<in> set rs. tr_fingerprint e \<noteq> tr_fingerprint r}"
proof (induction rs)
  case (Cons x rs)
  then show ?case
  proof (cases "tr_fingerprint x = tr_fingerprint r")
    case True
    then have "\<forall>e \<in> set rs. tr_fingerprint e \<noteq> tr_fingerprint r"
      using Cons.prems by (auto simp: image_iff)
    with True show ?thesis by auto
  next
    case False
    then show ?thesis using Cons by auto
  qed
qed simp

lemma remove_first_set:
  "distinct (map f xs) \<Longrightarrow> find P xs = Some x \<Longrightarrow> set (snd (remove_first P xs)) = {y \<in> set xs. f y \<noteq> f x}"
proof (induction xs)
  case (Cons y xs)
  show ?case
  proof (cases "P y")
    case True
    with Cons.prems show ?thesis by (auto simp: image_iff)
  next
    case False
    with Cons have "x \<in> set xs" "set (snd (remove_first P xs)) = {y \<in> set xs. f y \<noteq> f x}"
      using find_SomeD [of P xs x] by auto
    with Cons.prems False show ?thesis by auto
  qed
qed simp

lemma PutPeer_records:
  assumes "peers_wf (peers_of v)" "tr_fingerprint r \<noteq> []"
  shows "set (peers_of (fst (PutPeer sv r v))) = insert r {e \<in> set (peers_of v). tr_fingerprint e \<noteq> tr_fingerprint r}"
proof (cases "list_ex (\<lambda>e. tr_fingerprint e = tr_fingerprint r) (peers_of v)")
  case True
  then have "tr_fingerprint r \<in> tr_fingerprint ` set (peers_of v)"
    by (auto simp: list_ex_iff image_iff) metis
  with True assms show ?thesis by (simp add: PutPeer_def peers_wf_def update_first_set)
next
  case False
  then have "{e \<in> set (peers_of v). tr_fingerprint e \<noteq> tr_fingerprint r} = set (peers_of v)"
    by (auto simp: list_ex_iff)
  with False assms(2) show ?thesis by (simp add: PutPeer_def)
qed

lemma RemovePeer_records:
  assumes "peers_wf (peers_of v)" "snd (RemovePeer ef sv ref v) = Inr fp"
  shows "set (peers_of (fst (RemovePeer ef sv ref v))) = {e \<in> set (peers_of v). tr_fingerprint e \<noteq> fp} \<and>
    fp \<in> tr_fingerprint ` set (peers_of v)"
proof -
  let ?P = "\<lambda>r. MatchesRef ef r ref"
  have loop: "remove_peer_loop ?P [] (peers_of v) =
     (case find ?P (peers_of v) of None \<Rightarrow> ([], peers_of v)
      | Some r \<Rightarrow> (tr_fingerprint r, snd (remove_first ?P (peers_of v))))"
    using assms(1) by (intro remove_peer_loop_first) (simp add: peers_wf_def)
  obtain r where r: "find ?P (peers_of v) = Some r"
    using assms(2) loop by (cases "find ?P (peers_of v)") (auto simp: RemovePeer_def)
  then have mem: "r \<in> set (peers_of v)" using find_SomeD by metis
  then have "tr_fingerprint r \<noteq> []" using assms(1) by (auto simp: peers_wf_def image_iff)
  with assms(2) loop r have "fp = tr_fingerprint r" by (auto simp: RemovePeer_def save_then_Inr)
  moreover have "peers_of (fst (RemovePeer ef sv ref v)) = snd (remove_first ?P (peers_of v))"
    using loop r \<open>tr_fingerprint r \<noteq> []\<close> by (simp add: RemovePeer_def)
  ultimately show ?thesis
    using remove_first_set [OF _ r, of tr_fingerprint] assms(1) mem by (auto simp: peers_wf_def)
qed

interpretation vault_trust:
  trust_store "\<lambda>v. sd_peers (v_doc v)" PutPeer "RemovePeer ef" vault_wf for ef
  by unfold_locales (auto simp: vault_wf_parts(5) PutPeer_records dest: RemovePeer_records [OF vault_wf_parts(5)])

section \<open>Properties\<close>


definition sample_env :: vault_env where
  "sample_env = \<lparr>e_fold = (=), e_fingerprint = pk_marshal, e_forget = None\<rparr>"


text \<open>
  an operation whose write succeeds leaves the disk holding exactly the document it left in
  memory, when that was so before; an operation whose write fails leaves the disk untouched.
\<close>

theorem run_op_durable:
  "(in_step v \<longrightarrow> in_step (run_op env None now op v)) \<and> v_disk (run_op env (Some e) now op v) = v_disk v"
  using run_op_in_step run_op_disk by blast

theorem run_op_durable_witness:
  "in_step (run_op sample_env None 0 (O_PutPeer (empty_record\<lparr>tr_fingerprint := ''fp''\<rparr>)) empty_vault)"
proof -
  have "in_step empty_vault" by (simp add: in_step_def empty_vault_def)
  then show ?thesis using run_op_durable by blast
qed

text \<open>
  in a well-formed store a pairing written down replaces the one for the same identity and no
  other, and a pairing that was revoked is gone: the identity named in the answer has no record left
  and every other record is kept, whatever the write to disk did.
\<close>

theorem peers_put_remove:
  assumes "vault_wf v" "tr_fingerprint r \<noteq> []"
  shows "set (peers_of (fst (PutPeer sv r v))) =
      insert r {e \<in> set (peers_of v). tr_fingerprint e \<noteq> tr_fingerprint r} \<and>
    (\<forall>fp. snd (RemovePeer ef sv' ref v) = Inr fp \<longrightarrow>
       set (peers_of (fst (RemovePeer ef sv' ref v))) = {e \<in> set (peers_of v). tr_fingerprint e \<noteq> fp} \<and>
       fp \<in> tr_fingerprint ` set (peers_of v))"
  using vault_trust.put_records [OF assms] vault_trust.remove_records [OF assms(1)] by blast

theorem peers_put_remove_witness:
  "set (peers_of (fst (PutPeer None (empty_record\<lparr>tr_fingerprint := ''fp''\<rparr>) empty_vault))) =
     {empty_record\<lparr>tr_fingerprint := ''fp''\<rparr>}"
proof -
  have "tr_fingerprint (empty_record\<lparr>tr_fingerprint := ''fp''\<rparr>) \<noteq> []" by simp
  from peers_put_remove [OF empty_vault_wf this, of None] show ?thesis
    by (simp add: empty_vault_def empty_document_def)
qed

text \<open>
  when too many pairings are under way, an entry is dropped only for entries at least as heavy:
  an entry this side has answered is never dropped while one it has not answered is kept, as long as
  their starts lie within a century of each other.
\<close>

theorem boundPairings_keeps_answered:
  assumes "p \<in> set ps" "p \<notin> set (boundPairings ps)" "q \<in> set (boundPairings ps)"
    and "pp_our_answer p \<noteq> PAIRING_ANSWER_UNSPECIFIED"
    and "as_time (pp_started_at q) div second - as_time (pp_started_at p) div second < pairingAnsweredBonus"
  shows "pp_our_answer q \<noteq> PAIRING_ANSWER_UNSPECIFIED \<and> as_time (pp_started_at p) div second \<le> as_time (pp_started_at q) div second"
  using boundPairings_outranks [OF assms(1-3)] assms(4,5)
  by (auto simp: pairingWeight_def split: if_splits)

definition sample_pending :: "nat \<Rightarrow> pending_pairing" where
  "sample_pending n = \<lparr>pp_session_id = replicate n (CHR ''s''), pp_fingerprint = replicate n (CHR ''f''),
     pp_name = [], pp_identity_public_key = [], pp_addresses = [], pp_may_approve = True,
     pp_may_request = False, pp_we_dialled = False, pp_key_from_code = False, pp_remote_address = [],
     pp_our_answer = PAIRING_ANSWER_ACCEPTED, pp_their_answer = PAIRING_ANSWER_UNSPECIFIED,
     pp_started_at = Some (int n * second), pp_answered_at = None, pp_confirmation_request_id = [],
     pp_failed_attempts = [], pp_tunnel = None\<rparr>"

lemma sample_pending_weight: "pairingWeight (sample_pending n) = int n + pairingAnsweredBonus"
  by (simp add: pairingWeight_def sample_pending_def)

lemma sample_pending_inject: "sample_pending m = sample_pending n \<longleftrightarrow> m = n"
proof
  assume "sample_pending m = sample_pending n"
  then have "pairingWeight (sample_pending m) = pairingWeight (sample_pending n)" by simp
  then show "m = n" by (simp add: sample_pending_weight)
qed simp

theorem boundPairings_keeps_answered_witness:
  "\<exists>p q. p \<notin> set (boundPairings (map sample_pending [0..<17])) \<and> q \<in> set (boundPairings (map sample_pending [0..<17])) \<and>
     pp_our_answer q \<noteq> PAIRING_ANSWER_UNSPECIFIED"
proof -
  let ?ps = "map sample_pending [0..<17]"
  have "length ?ps = 17" by simp
  then have b: "length (boundPairings ?ps) = 16" by (simp add: boundPairings_def MaxPendingPairings_def)
  have "distinct ?ps" by (auto simp: distinct_map inj_on_def sample_pending_inject)
  have "card (set ?ps) = 17" using \<open>distinct ?ps\<close> by (simp only: distinct_card) simp
  moreover have "card (set (boundPairings ?ps)) \<le> 16" using b card_length [of "boundPairings ?ps"] by simp
  ultimately have "\<not> set ?ps \<subseteq> set (boundPairings ?ps)" using card_mono [of "set (boundPairings ?ps)" "set ?ps"] by auto
  then obtain p where p: "p \<in> set ?ps" "p \<notin> set (boundPairings ?ps)" by blast
  obtain q where q: "q \<in> set (boundPairings ?ps)" using b by (cases "boundPairings ?ps") auto
  then have "q \<in> set ?ps" using boundPairings_sub(2) by blast
  have "as_time (pp_started_at q) div second - as_time (pp_started_at p) div second < pairingAnsweredBonus"
    using p(1) \<open>q \<in> set ?ps\<close> by (auto simp: sample_pending_def pairingAnsweredBonus_def)
  moreover have "pp_our_answer p \<noteq> PAIRING_ANSWER_UNSPECIFIED" using p(1) by (auto simp: sample_pending_def)
  ultimately show ?thesis using boundPairings_keeps_answered [OF p q] p q by blast
qed

end
