(* ===== verification/Codec.thy ===== *)
theory Codec
  imports Go_Prelude
begin

text \<open>
  Byte-level encodings of the standard library that the code uses: big-endian 32-bit lengths
  (\<^verbatim>\<open>encoding/binary\<close>) with the length-prefixed strings of the SSH wire format, and base 64
  (\<^verbatim>\<open>encoding/base64\<close>) with and without padding.
\<close>

section \<open>Big-endian lengths\<close>

definition byte_of :: "nat \<Rightarrow> char" where
  "byte_of n = char_of n"

definition put_uint32 :: "nat \<Rightarrow> bytes" where
  "put_uint32 n = [byte_of (n div 16777216), byte_of (n div 65536), byte_of (n div 256), byte_of n]"

definition get_uint32 :: "bytes \<Rightarrow> nat" where
  "get_uint32 b = byte_at b 0 * 16777216 + byte_at b 1 * 65536 + byte_at b 2 * 256 + byte_at b 3"

lemma length_put_uint32 [simp]: "length (put_uint32 n) = 4"
  by (simp add: put_uint32_def)

lemma of_char_byte_of [simp]: "(of_char (byte_of n) :: nat) = n mod 256"
  by (simp add: byte_of_def)

lemma of_char_less_256 [simp]: "(of_char c :: nat) < 256"
  by simp

lemma byte_at_less [simp]: "byte_at s i < 256"
  by (simp add: byte_at_def)

lemma get_put_uint32: "get_uint32 (put_uint32 n @ s) = n mod 2 ^ 32"
proof -
  have "n mod (256 * (256 * (256 * 256))) =
        256 * (256 * (256 * (n div 256 div 256 div 256 mod 256) + n div 256 div 256 mod 256) + n div 256 mod 256)
        + n mod 256"
    by (simp only: mod_mult2_eq)
  then show ?thesis
    by (simp add: get_uint32_def put_uint32_def byte_at_def div_mult2_eq [symmetric] algebra_simps)
qed

lemma put_uint32_inject:
  assumes "m < 2 ^ 32" "n < 2 ^ 32" "put_uint32 m = put_uint32 n"
  shows "m = n"
proof -
  have "get_uint32 (put_uint32 m @ []) = get_uint32 (put_uint32 n @ [])" using assms(3) by simp
  then show ?thesis using assms(1,2) by (simp only: get_put_uint32 mod_less)
qed

text \<open>A string of the SSH wire format: its length and then its bytes.\<close>

definition ssh_string :: "bytes \<Rightarrow> bytes" where
  "ssh_string s = put_uint32 (length s) @ s"

lemma ssh_string_inject:
  assumes "length s < 2 ^ 32" "length t < 2 ^ 32" "ssh_string s @ u = ssh_string t @ v"
  shows "s = t \<and> u = v"
proof -
  have "put_uint32 (length s) @ (s @ u) = put_uint32 (length t) @ (t @ v)"
    using assms(3) by (simp add: ssh_string_def)
  then have "put_uint32 (length s) = put_uint32 (length t)" "s @ u = t @ v"
    by (simp_all add: append_eq_append_conv)
  moreover from this(1) have "length s = length t" using assms(1,2) by (rule_tac put_uint32_inject)
  ultimately show ?thesis by (simp add: append_eq_append_conv)
qed

section \<open>Base 64\<close>

definition std_alphabet :: string where
  "std_alphabet = ''ABCDEFGHIJKLMNOPQRSTUVWXYZabcdefghijklmnopqrstuvwxyz0123456789+/''"

definition url_alphabet :: string where
  "url_alphabet = ''ABCDEFGHIJKLMNOPQRSTUVWXYZabcdefghijklmnopqrstuvwxyz0123456789-_''"

fun index_char :: "char \<Rightarrow> string \<Rightarrow> nat option" where
  "index_char c [] = None"
| "index_char c (x # xs) = (if x = c then Some 0 else map_option Suc (index_char c xs))"

lemma index_char_nth: "distinct xs \<Longrightarrow> i < length xs \<Longrightarrow> index_char (xs ! i) xs = Some i"
proof (induction xs arbitrary: i)
  case (Cons x xs)
  then show ?case by (cases i) (auto simp: nth_eq_iff_index_eq)
qed simp

text \<open>An alphabet of 64 characters, none of them a line break or the padding.\<close>

definition alphabet_ok :: "string \<Rightarrow> bool" where
  "alphabet_ok al \<longleftrightarrow> length al = 64 \<and> distinct al \<and>
     list_all (\<lambda>c. not_space c \<and> c \<noteq> CHR ''='') al"

lemma alphabets_ok: "alphabet_ok std_alphabet" "alphabet_ok url_alphabet"
  by (simp_all add: alphabet_ok_def std_alphabet_def url_alphabet_def not_space_def)

fun b64_encode :: "string \<Rightarrow> bool \<Rightarrow> bytes \<Rightarrow> string" where
  "b64_encode al pad [] = []"
| "b64_encode al pad [a] =
     (let x = of_char a
      in [al ! (x div 4), al ! (x mod 4 * 16)] @ (if pad then ''=='' else []))"
| "b64_encode al pad [a, b] =
     (let x = of_char a; y = of_char b
      in [al ! (x div 4), al ! (x mod 4 * 16 + y div 16), al ! (y mod 16 * 4)] @
         (if pad then ''='' else []))"
| "b64_encode al pad (a # b # c # rest) =
     (let x = of_char a; y = of_char b; z = of_char c
      in [al ! (x div 4), al ! (x mod 4 * 16 + y div 16), al ! (y mod 16 * 4 + z div 64), al ! (z mod 64)]
         @ b64_encode al pad rest)"

definition three :: "nat \<Rightarrow> nat \<Rightarrow> nat \<Rightarrow> nat \<Rightarrow> bytes" where
  "three p q r s = [byte_of (p * 4 + q div 16), byte_of (q mod 16 * 16 + r div 4), byte_of (r mod 4 * 64 + s)]"

fun b64_quanta :: "string \<Rightarrow> bool \<Rightarrow> string \<Rightarrow> bytes option" where
  "b64_quanta al pad [] = Some []"
| "b64_quanta al pad [a] = None"
| "b64_quanta al pad [a, b] =
     (if pad then None
      else case (index_char a al, index_char b al) of
          (Some p, Some q) \<Rightarrow> Some (take 1 (three p q 0 0)) | _ \<Rightarrow> None)"
| "b64_quanta al pad [a, b, c] =
     (if pad then None
      else case (index_char a al, index_char b al, index_char c al) of
          (Some p, Some q, Some r) \<Rightarrow> Some (take 2 (three p q r 0)) | _ \<Rightarrow> None)"
| "b64_quanta al pad (a # b # c # d # rest) =
     (if pad \<and> d = CHR ''=''
      then (if rest \<noteq> [] then None
            else if c = CHR ''=''
            then (case (index_char a al, index_char b al) of
                    (Some p, Some q) \<Rightarrow> Some (take 1 (three p q 0 0)) | _ \<Rightarrow> None)
            else (case (index_char a al, index_char b al, index_char c al) of
                    (Some p, Some q, Some r) \<Rightarrow> Some (take 2 (three p q r 0)) | _ \<Rightarrow> None))
      else (case (index_char a al, index_char b al, index_char c al, index_char d al) of
              (Some p, Some q, Some r, Some s) \<Rightarrow> map_option (\<lambda>t. three p q r s @ t) (b64_quanta al pad rest)
            | _ \<Rightarrow> None))"

text \<open>The decoder skips carriage returns and line feeds anywhere.\<close>

definition b64_decode :: "string \<Rightarrow> bool \<Rightarrow> string \<Rightarrow> bytes option" where
  "b64_decode al pad s = b64_quanta al pad (filter (\<lambda>c. c \<noteq> CHR 0x0D \<and> c \<noteq> CHR 0x0A) s)"

lemma alphabet_nth:
  assumes "alphabet_ok al" "i < 64"
  shows "index_char (al ! i) al = Some i" "al ! i \<noteq> CHR ''=''" "not_space (al ! i)"
  using assms by (auto simp: alphabet_ok_def index_char_nth list_all_length)

lemma digit_split:
  assumes "(b :: nat) < d"
  shows "(a * d + b) div d = a" "(a * d + b) mod d = b"
  using assms by simp_all

lemma of_char_digits [simp]:
  "(of_char c :: nat) div 4 < 64" "(of_char c :: nat) div 16 < 16" "(of_char c :: nat) div 64 < 4"
  by (simp_all add: less_mult_imp_div_less)

lemma sextet_bounds [simp]:
  "(of_char a :: nat) mod 4 * 16 < 64" "(of_char a :: nat) mod 4 * 16 + of_char b div 16 < 64"
  "(of_char a :: nat) mod 16 * 4 < 64" "(of_char a :: nat) mod 16 * 4 + of_char b div 64 < 64"
proof -
  have "(of_char a :: nat) mod 4 \<le> 3" "(of_char a :: nat) mod 16 \<le> 15"
    "(of_char b :: nat) div 16 \<le> 15" "(of_char b :: nat) div 64 \<le> 3"
    using of_char_digits [of b] by (auto simp: less_Suc_eq_le [symmetric] simp del: of_char_digits)
  then show "(of_char a :: nat) mod 4 * 16 < 64" "(of_char a :: nat) mod 4 * 16 + of_char b div 16 < 64"
    "(of_char a :: nat) mod 16 * 4 < 64" "(of_char a :: nat) mod 16 * 4 + of_char b div 64 < 64"
    by linarith+
qed

lemma three_bytes:
  "three (of_char a div 4) (of_char a mod 4 * 16 + of_char b div 16)
     (of_char b mod 16 * 4 + of_char c div 64) (of_char c mod 64) = [a, b, c]"
  by (simp add: three_def digit_split byte_of_def)

lemma three_bytes_short:
  "take 1 (three (of_char a div 4) (of_char a mod 4 * 16) 0 0) = [a]"
  "take 2 (three (of_char a div 4) (of_char a mod 4 * 16 + of_char b div 16) (of_char b mod 16 * 4) 0) = [a, b]"
  by (simp_all add: three_def digit_split byte_of_def)

lemma b64_quanta_encode: "alphabet_ok al \<Longrightarrow> b64_quanta al pad (b64_encode al pad s) = Some s"
proof (induction al pad s rule: b64_encode.induct)
  case (2 al pad a)
  then show ?case using three_bytes_short(1) [of a] by (simp add: alphabet_nth Let_def)
next
  case (3 al pad a b)
  then show ?case using three_bytes_short(2) [of a b] by (simp add: alphabet_nth Let_def)
next
  case (4 al pad a b c rest)
  then show ?case using three_bytes [of a b c] by (simp add: alphabet_nth Let_def)
qed simp

lemma not_space_pad: "not_space (CHR ''='')" "\<not> not_space (CHR 0x0D)" "\<not> not_space (CHR 0x0A)"
  by (simp_all add: not_space_def)

lemma b64_encode_chars:
  "alphabet_ok al \<Longrightarrow> c \<in> set (b64_encode al pad s) \<Longrightarrow> not_space c"
proof (induction al pad s rule: b64_encode.induct)
  case (4 al pad x y z rest)
  then show ?case by (auto simp: alphabet_nth Let_def)
qed (auto simp: alphabet_nth Let_def not_space_pad split: if_splits)

lemma b64_decode_encode: "alphabet_ok al \<Longrightarrow> b64_decode al pad (b64_encode al pad s) = Some s"
proof -
  assume ok: "alphabet_ok al"
  have "filter (\<lambda>c. c \<noteq> CHR 0x0D \<and> c \<noteq> CHR 0x0A) (b64_encode al pad s) = b64_encode al pad s"
    using b64_encode_chars [OF ok] not_space_pad by (auto simp: filter_id_conv)
  with b64_quanta_encode [OF ok] show ?thesis by (simp add: b64_decode_def)
qed

end
