(* ===== verification/Sshsig.thy ===== *)
theory Sshsig
  imports Trust Codec
begin

text \<open>
  The SSHSIG signature format, \<^verbatim>\<open>src/pkg/sshsig/sshsig.go\<close>: the blob a signer signs, the binary
  and the armoured signature, and their readers. What the SSH library and the hash functions do is
  the parameter record \<open>ssh_lib\<close>; what the code relies on of them is stated as the predicates
  \<open>key_law\<close>, \<open>signature_law\<close> and \<open>wire_law\<close>.
\<close>

section \<open>The SSH library\<close>

record ssh_signature =
  sig_format :: string
  sig_blob :: bytes

record blobBody =
  bb_namespace :: string
  bb_reserved :: string
  bb_hash_algorithm :: string
  bb_hash :: bytes

record sshsig_wire =
  w_version :: "32 word"
  w_public_key :: bytes
  w_namespace :: string
  w_reserved :: string
  w_hash_algorithm :: string
  w_signature :: bytes

record ssh_lib =
  lib_parse_public :: "bytes \<Rightarrow> string + ssh_public_key"
  lib_fingerprint :: "ssh_public_key \<Rightarrow> string"
  lib_verify :: "ssh_public_key \<Rightarrow> bytes \<Rightarrow> ssh_signature \<Rightarrow> string option"
  lib_marshal_signature :: "ssh_signature \<Rightarrow> bytes"
  lib_unmarshal_signature :: "bytes \<Rightarrow> string + ssh_signature"
  lib_marshal_blob :: "blobBody \<Rightarrow> bytes"
  lib_marshal_wire :: "sshsig_wire \<Rightarrow> bytes"
  lib_unmarshal_wire :: "bytes \<Rightarrow> string + sshsig_wire"
  lib_sha512 :: "bytes \<Rightarrow> bytes"
  lib_sha256 :: "bytes \<Rightarrow> bytes"

text \<open>
  A signer is its public half and what it answers when asked to sign; only some also sign with a
  named algorithm.
\<close>

record ssh_signer =
  sr_public :: ssh_public_key
  sr_sign :: "bytes \<Rightarrow> string + ssh_signature"
  sr_sign_with :: "(bytes \<Rightarrow> string \<Rightarrow> string + ssh_signature) option"

section \<open>Building a signature\<close>

definition Magic :: string where "Magic = ''SSHSIG''"
definition Version :: "32 word" where "Version = 1"
definition HashSHA512 :: string where "HashSHA512 = ''sha512''"
definition HashSHA256 :: string where "HashSHA256 = ''sha256''"
definition DefaultHash :: string where "DefaultHash = HashSHA512"
definition GitNamespace :: string where "GitNamespace = ''git''"
definition armorBegin :: string where "armorBegin = ''-----BEGIN SSH SIGNATURE-----''"
definition armorEnd :: string where "armorEnd = ''-----END SSH SIGNATURE-----''"
definition armorWidth :: nat where "armorWidth = 70"
definition KeyAlgoRSA :: string where "KeyAlgoRSA = ''ssh-rsa''"
definition KeyAlgoRSASHA512 :: string where "KeyAlgoRSASHA512 = ''rsa-sha2-512''"

datatype sshsig_error =
    UnsupportedHash string
  | EmptyNamespace
  | SignFailed string
  | RSAUnusable
  | NotSSHSIG
  | NoEndMarker
  | DecodeArmour
  | ParseSignature string
  | UnsupportedVersion "32 word"
  | ParsePublicKey string
  | ParseInner string
  | NamespaceMismatch string string
  | SigVerifyFailed string

definition Hash :: "ssh_lib \<Rightarrow> string \<Rightarrow> bytes \<Rightarrow> sshsig_error + bytes" where
  "Hash L algorithm message =
     (if algorithm = HashSHA512 \<or> algorithm = [] then Inr (lib_sha512 L message)
      else if algorithm = HashSHA256 then Inr (lib_sha256 L message)
      else Inl (UnsupportedHash algorithm))"

definition NormaliseHash :: "string \<Rightarrow> string" where
  "NormaliseHash algorithm = (if algorithm = [] then DefaultHash else algorithm)"

definition SigningBlob :: "ssh_lib \<Rightarrow> string \<Rightarrow> string \<Rightarrow> bytes \<Rightarrow> bytes" where
  "SigningBlob L namespace hashAlgorithm digest =
     Magic @ lib_marshal_blob L \<lparr>bb_namespace = namespace, bb_reserved = [],
       bb_hash_algorithm = NormaliseHash hashAlgorithm, bb_hash = digest\<rparr>"

definition SigningBlobFor :: "ssh_lib \<Rightarrow> string \<Rightarrow> string \<Rightarrow> bytes \<Rightarrow> sshsig_error + bytes" where
  "SigningBlobFor L namespace hashAlgorithm message =
     (case Hash L hashAlgorithm message of
        Inl e \<Rightarrow> Inl e
      | Inr digest \<Rightarrow> Inr (SigningBlob L namespace hashAlgorithm digest))"

record Signature =
  sg_pub :: ssh_public_key
  sg_namespace :: string
  sg_hash_algorithm :: string
  sg_inner :: ssh_signature

definition signature_wire :: "ssh_lib \<Rightarrow> Signature \<Rightarrow> sshsig_wire" where
  "signature_wire L s =
     \<lparr>w_version = Version, w_public_key = pk_marshal (sg_pub s), w_namespace = sg_namespace s,
      w_reserved = [], w_hash_algorithm = NormaliseHash (sg_hash_algorithm s),
      w_signature = lib_marshal_signature L (sg_inner s)\<rparr>"

definition Marshal :: "ssh_lib \<Rightarrow> Signature \<Rightarrow> bytes" where
  "Marshal L s = Magic @ lib_marshal_wire L (signature_wire L s)"

abbreviation newline :: char where "newline \<equiv> CHR 0x0A"

function armor_lines :: "string \<Rightarrow> string" where
  "armor_lines encoded =
     (if armorWidth < length encoded
      then take armorWidth encoded @ [newline] @ armor_lines (drop armorWidth encoded)
      else encoded @ [newline])"
  by pat_completeness auto
termination
  by (relation "measure length") (auto simp: armorWidth_def)

declare armor_lines.simps [simp del]

definition Armored :: "ssh_lib \<Rightarrow> Signature \<Rightarrow> string" where
  "Armored L s =
     armorBegin @ [newline] @ armor_lines (b64_encode std_alphabet True (Marshal L s)) @
     armorEnd @ [newline]"

definition SignBlob :: "ssh_signer \<Rightarrow> bytes \<Rightarrow> sshsig_error + ssh_signature" where
  "SignBlob signer blob =
     (let answer = (\<lambda>r. case r of Inl e \<Rightarrow> Inl (SignFailed e) | Inr sig \<Rightarrow> Inr sig)
      in if pk_type (sr_public signer) \<noteq> KeyAlgoRSA then answer (sr_sign signer blob)
         else (case sr_sign_with signer of
                 None \<Rightarrow> Inl RSAUnusable
               | Some sign_with \<Rightarrow> answer (sign_with blob KeyAlgoRSASHA512)))"

definition Sign :: "ssh_lib \<Rightarrow> ssh_signer \<Rightarrow> string \<Rightarrow> string \<Rightarrow> bytes \<Rightarrow> sshsig_error + Signature" where
  "Sign L signer namespace hashAlgorithm message =
     (if namespace = [] then Inl EmptyNamespace
      else case SigningBlobFor L namespace hashAlgorithm message of
          Inl e \<Rightarrow> Inl e
        | Inr blob \<Rightarrow>
            (case SignBlob signer blob of
               Inl e \<Rightarrow> Inl e
             | Inr sig \<Rightarrow> Inr \<lparr>sg_pub = sr_public signer, sg_namespace = namespace,
                 sg_hash_algorithm = NormaliseHash hashAlgorithm, sg_inner = sig\<rparr>))"

section \<open>Reading and checking a signature\<close>

definition ParseBinary :: "ssh_lib \<Rightarrow> bytes \<Rightarrow> sshsig_error + Signature" where
  "ParseBinary L body =
     (if length body < length Magic \<or> take (length Magic) body \<noteq> Magic then Inl NotSSHSIG
      else case lib_unmarshal_wire L (drop (length Magic) body) of
          Inl e \<Rightarrow> Inl (ParseSignature e)
        | Inr w \<Rightarrow>
            if w_version w \<noteq> Version then Inl (UnsupportedVersion (w_version w))
            else (case lib_parse_public L (w_public_key w) of
                    Inl e \<Rightarrow> Inl (ParsePublicKey e)
                  | Inr pub \<Rightarrow>
                      (case lib_unmarshal_signature L (w_signature w) of
                         Inl e \<Rightarrow> Inl (ParseInner e)
                       | Inr sig \<Rightarrow> Inr \<lparr>sg_pub = pub, sg_namespace = w_namespace w,
                           sg_hash_algorithm = w_hash_algorithm w, sg_inner = sig\<rparr>)))"

definition unarmor :: "string \<Rightarrow> sshsig_error + bytes" where
  "unarmor armored =
     (let trimmed = trim_space armored
      in case index_of armorBegin trimmed of
          None \<Rightarrow> Inl NotSSHSIG
        | Some b \<Rightarrow>
            (let rest = drop (b + length armorBegin) trimmed
             in case index_of armorEnd rest of
                 None \<Rightarrow> Inl NoEndMarker
               | Some e \<Rightarrow>
                   (case b64_decode std_alphabet True (join [] (Go_Prelude.fields (take e rest))) of
                      None \<Rightarrow> Inl DecodeArmour
                    | Some body \<Rightarrow> Inr body)))"

definition Parse :: "ssh_lib \<Rightarrow> string \<Rightarrow> sshsig_error + Signature" where
  "Parse L armored = (case unarmor armored of Inl e \<Rightarrow> Inl e | Inr body \<Rightarrow> ParseBinary L body)"

definition Verify :: "ssh_lib \<Rightarrow> Signature \<Rightarrow> string \<Rightarrow> bytes \<Rightarrow> sshsig_error option" where
  "Verify L s namespace message =
     (if sg_namespace s \<noteq> namespace then Some (NamespaceMismatch (sg_namespace s) namespace)
      else case SigningBlobFor L (sg_namespace s) (sg_hash_algorithm s) message of
          Inl e \<Rightarrow> Some e
        | Inr blob \<Rightarrow> map_option SigVerifyFailed (lib_verify L (sg_pub s) blob (sg_inner s)))"

section \<open>What the code relies on\<close>

text \<open>
  A key law: the wire form of the public half parses back, and what the key signs verifies under
  it. The two codec laws say that the library reads back what it wrote.
\<close>

definition key_law :: "ssh_lib \<Rightarrow> ssh_signer \<Rightarrow> bool" where
  "key_law L k \<longleftrightarrow>
     lib_parse_public L (pk_marshal (sr_public k)) = Inr (sr_public k) \<and>
     (\<forall>b s. sr_sign k b = Inr s \<longrightarrow> lib_verify L (sr_public k) b s = None) \<and>
     (\<forall>f a b s. sr_sign_with k = Some f \<longrightarrow> f b a = Inr s \<longrightarrow> lib_verify L (sr_public k) b s = None)"

definition signature_law :: "ssh_lib \<Rightarrow> ssh_signature \<Rightarrow> bool" where
  "signature_law L s \<longleftrightarrow> lib_unmarshal_signature L (lib_marshal_signature L s) = Inr s"

definition wire_law :: "ssh_lib \<Rightarrow> sshsig_wire \<Rightarrow> bool" where
  "wire_law L w \<longleftrightarrow> lib_unmarshal_wire L (lib_marshal_wire L w) = Inr w"

section \<open>Lemmas\<close>

lemma Magic_length [simp]: "length Magic = 6"
  by (simp add: Magic_def)

lemma NormaliseHash_idem [simp]: "NormaliseHash (NormaliseHash h) = NormaliseHash h"
  by (simp add: NormaliseHash_def DefaultHash_def HashSHA512_def)

lemma SigningBlobFor_normalise [simp]:
  "SigningBlobFor L ns (NormaliseHash h) m = SigningBlobFor L ns h m"
  by (simp add: SigningBlobFor_def SigningBlob_def Hash_def NormaliseHash_def DefaultHash_def)

lemma join_Nil_concat: "join [] xs = concat xs"
  by (induction xs rule: induct_list012) auto

lemma leading_of_newline [simp]: "leading_of space_encodings (newline # s) = 1"
  "leading_of (map rev space_encodings) (newline # s) = 1"
  by (simp_all add: leading_of_def space_encodings_def has_prefix_def)

lemma fields_from_lines:
  "list_all (\<lambda>c. not_space c \<or> c = newline) s \<Longrightarrow>
   concat (fields_from acc s) = rev acc @ filter (\<lambda>c. c \<noteq> newline) s"
proof (induction acc s rule: fields_from.induct)
  case (1 acc s)
  show ?case
  proof (cases s)
    case Nil
    then show ?thesis by (simp add: fields_from.simps)
  next
    case (Cons c t)
    show ?thesis
    proof (cases "c = newline")
      case True
      with Cons 1 show ?thesis by (subst fields_from.simps) simp
    next
      case False
      with Cons 1 have "leading_of space_encodings (c # t) = 0" by simp
      with Cons False 1 show ?thesis by (subst fields_from.simps) simp
    qed
  qed
qed

lemma armor_lines_strip:
  "newline \<notin> set s \<Longrightarrow> filter (\<lambda>c. c \<noteq> newline) (armor_lines s) = s"
proof (induction s rule: armor_lines.induct)
  case (1 s)
  have keep: "newline \<notin> set t \<Longrightarrow> filter (\<lambda>c. c \<noteq> newline) t = t" for t :: string
    by (auto simp: filter_id_conv)
  have "newline \<notin> set (take armorWidth s)" "newline \<notin> set (drop armorWidth s)"
    using 1(2) by (auto dest: in_set_takeD in_set_dropD)
  with 1 keep [of s] keep [of "take armorWidth s"] show ?case
    by (subst armor_lines.simps) auto
qed

lemma armor_lines_set: "set (armor_lines s) \<subseteq> insert newline (set s)"
proof (induction s rule: armor_lines.induct)
  case (1 s)
  then show ?case
    using set_take_subset [of armorWidth s] set_drop_subset [of armorWidth s]
    by (subst armor_lines.simps) auto
qed

lemma b64_std_chars:
  assumes "c \<in> set (b64_encode std_alphabet True s)"
  shows "not_space c" "c \<noteq> CHR ''-''" "c \<noteq> newline"
proof -
  show ns: "not_space c" using assms alphabets_ok(1) b64_encode_chars by blast
  then show "c \<noteq> newline" by (auto simp: not_space_def)
  have nth: "std_alphabet ! i \<noteq> CHR ''-''" if "i < 64" for i
  proof -
    have "list_all (\<lambda>c. c \<noteq> CHR ''-'') std_alphabet" by (simp add: std_alphabet_def)
    moreover have "length std_alphabet = 64" by (simp add: std_alphabet_def)
    ultimately show ?thesis using that by (simp add: list_all_length)
  qed
  have "\<forall>c \<in> set (b64_encode al pad s). (\<forall>i < 64. al ! i \<noteq> CHR ''-'') \<longrightarrow> c \<noteq> CHR ''-''" for al pad
    by (induction al pad s rule: b64_encode.induct) (auto simp: Let_def)
  with assms nth show "c \<noteq> CHR ''-''" by blast
qed


lemma trim_armored:
  assumes "s \<noteq> []" "not_space (hd s)" "not_space (last s)"
  shows "trim_space (s @ [newline]) = s"
proof -
  obtain c t where s: "s = c # t" using assms(1) by (cases s) auto
  have "strip_leading space_encodings (s @ [newline]) = s @ [newline]"
    using assms(2) by (simp add: s strip_leading_stop)
  moreover have "strip_leading (map rev space_encodings) (newline # rev s) =
      strip_leading (map rev space_encodings) (rev s)"
    by (subst strip_leading.simps) simp
  moreover have "rev s = last s # tl (rev s)"
    using assms(1) by (metis list.collapse rev_is_Nil_conv hd_rev)
  then have "strip_leading (map rev space_encodings) (rev s) = rev s"
    using assms(3) leading_of_not_space(2) by (metis strip_leading_stop)
  ultimately show ?thesis by (simp add: trim_space_def)
qed

lemma armor_ends:
  "armorBegin \<noteq> []" "not_space (hd armorBegin)" "armorEnd \<noteq> []" "hd armorEnd = CHR ''-''"
  "not_space (last armorEnd)" "has_prefix (armorBegin @ t) armorBegin"
  by (simp_all add: armorBegin_def armorEnd_def not_space_def has_prefix_def)

lemma index_of_prefix: "p \<noteq> [] \<Longrightarrow> index_of p (p @ t) = Some 0"
  by (cases p) (simp_all add: has_prefix_def)

lemma index_of_fresh:
  assumes "p \<noteq> []" "hd p \<notin> set s"
  shows "index_of p (s @ p @ t) = Some (length s)"
proof (rule index_of_append)
  fix k assume k: "k < length s"
  then have "drop k (s @ p @ t) = s ! k # drop (Suc k) (s @ p @ t)"
    by (simp add: Cons_nth_drop_Suc [symmetric])
  moreover have "s ! k \<noteq> hd p" using assms(2) k by (auto simp: in_set_conv_nth)
  ultimately show "\<not> has_prefix (drop k (s @ p @ t)) p"
    using assms(1) by (cases p) (auto simp: has_prefix_def)
qed (rule assms(1))

lemma unarmor_Armored: "unarmor (Armored L s) = Inr (Marshal L s)"
proof -
  define enc where "enc = b64_encode std_alphabet True (Marshal L s)"
  define mid where "mid = newline # armor_lines enc"
  have enc: "\<forall>c \<in> set enc. not_space c \<and> c \<noteq> CHR ''-'' \<and> c \<noteq> newline"
    using b64_std_chars by (auto simp: enc_def)
  have mid: "set mid \<subseteq> insert newline (set enc)"
    using armor_lines_set [of enc] by (auto simp: mid_def)
  have "trim_space (Armored L s) = armorBegin @ mid @ armorEnd"
    using trim_armored [of "armorBegin @ mid @ armorEnd"] armor_ends
    by (simp add: Armored_def enc_def mid_def)
  moreover have "hd armorEnd \<notin> set mid" using mid enc armor_ends(4) by auto
  then have "index_of armorEnd (mid @ armorEnd @ []) = Some (length mid)"
    by (intro index_of_fresh armor_ends)
  moreover have "join [] (Go_Prelude.fields mid) = enc"
  proof -
    have "list_all (\<lambda>c. not_space c \<or> c = newline) mid"
      using mid enc by (auto simp: list_all_iff)
    then have "concat (Go_Prelude.fields mid) = filter (\<lambda>c. c \<noteq> newline) mid"
      using fields_from_lines [of mid "[]"] by (simp add: Go_Prelude.fields_def)
    then show ?thesis using armor_lines_strip [of enc] enc
      by (auto simp: join_Nil_concat mid_def)
  qed
  moreover have "b64_decode std_alphabet True enc = Some (Marshal L s)"
    unfolding enc_def by (rule b64_decode_encode [OF alphabets_ok(1)])
  ultimately show ?thesis
    using index_of_prefix [OF armor_ends(1), of "mid @ armorEnd"]
    by (simp add: unarmor_def Let_def)
qed

lemma ParseBinary_Marshal:
  assumes "wire_law L (signature_wire L s)" "signature_law L (sg_inner s)"
    "lib_parse_public L (pk_marshal (sg_pub s)) = Inr (sg_pub s)"
  shows "ParseBinary L (Marshal L s) = Inr (s\<lparr>sg_hash_algorithm := NormaliseHash (sg_hash_algorithm s)\<rparr>)"
  using assms
  by (simp add: ParseBinary_def Marshal_def wire_law_def signature_law_def signature_wire_def)

lemma SignBlob_verifies:
  assumes "key_law L k" "SignBlob k b = Inr s"
  shows "lib_verify L (sr_public k) b s = None"
  using assms by (auto simp: SignBlob_def key_law_def Let_def split: if_splits option.splits sum.splits)

lemma Sign_fields:
  assumes "Sign L k ns h m = Inr s"
  shows "sg_pub s = sr_public k" "sg_namespace s = ns" "sg_hash_algorithm s = NormaliseHash h" "ns \<noteq> []"
  using assms by (auto simp: Sign_def split: if_splits sum.splits)

lemma Sign_Verify:
  assumes "key_law L k" "Sign L k ns h m = Inr s"
  shows "Verify L s ns m = None"
  using assms SignBlob_verifies
  by (auto simp: Sign_def Verify_def split: if_splits sum.splits)

lemma Verify_namespace: "Verify L s ns m = None \<Longrightarrow> sg_namespace s = ns"
  by (auto simp: Verify_def split: if_splits)

section \<open>Properties\<close>

text \<open>
  C33: the armoured signature a signing run writes reads back as exactly the signature that was
  made, and that signature verifies for the message and the namespace it was made under and for no
  other namespace, for every key that keeps the key law.
\<close>

theorem Sign_Parse_Verify:
  assumes "key_law L k" "Sign L k ns h m = Inr s"
    and "signature_law L (sg_inner s)" "wire_law L (signature_wire L s)"
  shows "Parse L (Armored L s) = Inr s \<and>
         (Verify L s ns' m = None \<longleftrightarrow> ns' = ns)"
proof
  have "ParseBinary L (Marshal L s) = Inr (s\<lparr>sg_hash_algorithm := NormaliseHash (sg_hash_algorithm s)\<rparr>)"
    using assms Sign_fields(1) [OF assms(2)] by (intro ParseBinary_Marshal) (auto simp: key_law_def)
  then show "Parse L (Armored L s) = Inr s"
    using Sign_fields(3) [OF assms(2)] by (simp add: Parse_def unarmor_Armored)
next
  show "Verify L s ns' m = None \<longleftrightarrow> ns' = ns"
    using Sign_Verify [OF assms(1,2)] Sign_fields(2) [OF assms(2)] Verify_namespace by metis
qed

text \<open>
  A library and a key to evaluate on: a string is written with a mark before each of its bytes and
  another after the last, and the signature of a message is the key and the message.
\<close>

definition esc :: "bytes \<Rightarrow> bytes" where
  "esc s = concat (map (\<lambda>c. [CHR 0x01, c]) s) @ [CHR 0x00]"

fun unesc :: "bytes \<Rightarrow> bytes \<times> bytes" where
  "unesc (m # c # r) = (if m = CHR 0x01 then (case unesc r of (s, t) \<Rightarrow> (c # s, t)) else ([], c # r))"
| "unesc [m] = ([], [])"
| "unesc [] = ([], [])"

lemma unesc_esc [simp]: "unesc (esc s @ t) = (s, t)"
proof (induction s)
  case Nil
  then show ?case by (cases t) (simp_all add: esc_def)
next
  case (Cons c s)
  then show ?case by (simp add: esc_def)
qed

lemma unesc_esc_end [simp]: "unesc (esc s) = (s, [])"
  using unesc_esc [of s "[]"] by simp

definition toy_key :: ssh_public_key where
  "toy_key = \<lparr>pk_type = ''ssh-ed25519'', pk_marshal = ''K''\<rparr>"

definition toy_wire :: "sshsig_wire \<Rightarrow> bytes" where
  "toy_wire w = put_uint32 (unat (w_version w)) @ esc (w_public_key w) @ esc (w_namespace w) @
     esc (w_reserved w) @ esc (w_hash_algorithm w) @ esc (w_signature w)"

definition toy_unwire :: "bytes \<Rightarrow> sshsig_wire" where
  "toy_unwire b =
     (let (pk, b1) = unesc (drop 4 b); (ns, b2) = unesc b1; (rv, b3) = unesc b2; (ha, b4) = unesc b3;
          (sg, _) = unesc b4
      in \<lparr>w_version = of_nat (get_uint32 (take 4 b)), w_public_key = pk, w_namespace = ns,
          w_reserved = rv, w_hash_algorithm = ha, w_signature = sg\<rparr>)"

definition toy_lib :: ssh_lib where
  "toy_lib = \<lparr>
     lib_parse_public = (\<lambda>b. if b = ''K'' then Inr toy_key else Inl ''no key''),
     lib_fingerprint = (\<lambda>p. ''SHA256:'' @ pk_marshal p),
     lib_verify = (\<lambda>p b s. if sig_blob s = pk_marshal p @ b then None else Some ''bad''),
     lib_marshal_signature = (\<lambda>s. esc (sig_format s) @ sig_blob s),
     lib_unmarshal_signature =
       (\<lambda>b. case unesc b of (f, r) \<Rightarrow> Inr \<lparr>sig_format = f, sig_blob = r\<rparr>),
     lib_marshal_blob = (\<lambda>b. esc (bb_namespace b) @ esc (bb_hash_algorithm b) @ bb_hash b),
     lib_marshal_wire = toy_wire,
     lib_unmarshal_wire = (\<lambda>b. Inr (toy_unwire b)),
     lib_sha512 = id,
     lib_sha256 = id\<rparr>"

definition toy_signer :: ssh_signer where
  "toy_signer = \<lparr>sr_public = toy_key,
     sr_sign = (\<lambda>b. Inr \<lparr>sig_format = ''toy'', sig_blob = ''K'' @ b\<rparr>), sr_sign_with = None\<rparr>"

lemma toy_key_law: "key_law toy_lib toy_signer"
  by (auto simp: key_law_def toy_lib_def toy_signer_def toy_key_def)

lemma toy_laws: "\<forall>s. signature_law toy_lib s" "\<forall>w. wire_law toy_lib w"
proof -
  show "\<forall>s. signature_law toy_lib s" by (simp add: signature_law_def toy_lib_def)
  have "toy_unwire (toy_wire w) = w" for w
  proof -
    have "unat (w_version w) < 2 ^ 32" using unsigned_less [of "w_version w", where 'a = nat] by simp
    then have "get_uint32 (put_uint32 (unat (w_version w))) = unat (w_version w)"
      using get_put_uint32 [of "unat (w_version w)" "[]"] by simp
    then show ?thesis by (simp add: toy_unwire_def toy_wire_def)
  qed
  then show "\<forall>w. wire_law toy_lib w" by (simp add: wire_law_def toy_lib_def)
qed

lemma toy_Sign:
  "ns \<noteq> [] \<Longrightarrow> h = HashSHA512 \<or> h = [] \<Longrightarrow> \<exists>s. Sign toy_lib toy_signer ns h m = Inr s"
  by (auto simp: Sign_def SigningBlobFor_def Hash_def SignBlob_def toy_signer_def toy_key_def KeyAlgoRSA_def)

theorem Sign_Parse_Verify_witness:
  "\<exists>s. Sign toy_lib toy_signer ''git'' [] ''hello'' = Inr s \<and> Parse toy_lib (Armored toy_lib s) = Inr s"
proof -
  obtain s where s: "Sign toy_lib toy_signer ''git'' [] ''hello'' = Inr s"
    using toy_Sign [of "''git''" "[]"] by auto
  then show ?thesis
    using Sign_Parse_Verify [OF toy_key_law s] toy_laws by blast
qed

end
