(* ===== verification/Identity.thy ===== *)
theory Identity
  imports Sshsig Messages
begin

text \<open>
  The instance identity and what it signs, \<^verbatim>\<open>src/pkg/identity/identity.go\<close>, \<^verbatim>\<open>endorsement.go\<close> and
  \<^verbatim>\<open>relay.go\<close>. An artifact carries the exact bytes that were signed; each kind has a signing prefix
  of its own. The protobuf codec of a message is a parameter (what \<^verbatim>\<open>Marshal\<close> and \<^verbatim>\<open>Unmarshal\<close> answer),
  as is the SSH library; reading a key from a PEM file or from hardware is left to them.
\<close>

section \<open>The identity and its signing inputs\<close>

record Identity =
  id_name :: string
  id_signer :: ssh_signer

record 'm proto_codec =
  pc_marshal :: "'m \<Rightarrow> string + bytes"
  pc_unmarshal :: "bytes \<Rightarrow> string + 'm"

datatype identity_error =
    NilMessage
  | NoKey
  | MarshalFailed string
  | IdentitySignFailed string
  | KeySignFailed sshsig_error
  | WrongKey string string
  | ParseIdentityKey string
  | FingerprintMismatch string string
  | ParseIdentitySignature string
  | IdentityVerifyFailed string
  | UnmarshalFailed string
  | SignerDisagrees string string
  | ParseKeySignature sshsig_error
  | KeyVerifyFailed sshsig_error
  | KeyDisagrees string string
  | ScopeDisagrees string string
  | RetractionTarget

definition nul :: char where "nul = CHR 0x00"

definition approvalSigningPrefix :: string where
  "approvalSigningPrefix = ''ladulas-approval-v1'' @ [nul]"
definition delegationSigningPrefix :: string where
  "delegationSigningPrefix = ''ladulas-delegation-v1'' @ [nul]"
definition endorsementSigningPrefix :: string where
  "endorsementSigningPrefix = ''ladulas-endorsement-v1'' @ [nul]"
definition retractionSigningPrefix :: string where
  "retractionSigningPrefix = ''ladulas-retraction-v1'' @ [nul]"
definition relaySigningPrefix :: string where
  "relaySigningPrefix = ''ladulas-relay-v1'' @ [nul]"
definition EndorsementNamespace :: string where
  "EndorsementNamespace = ''endorsement@ladulas''"
definition RetractionNamespace :: string where
  "RetractionNamespace = ''retraction@ladulas''"

definition prefixed :: "string \<Rightarrow> bytes \<Rightarrow> bytes" where
  "prefixed prefix body = prefix @ body"

definition signingInput :: "bytes \<Rightarrow> bytes" where
  "signingInput body = prefixed approvalSigningPrefix body"
definition delegationInput :: "bytes \<Rightarrow> bytes" where
  "delegationInput body = prefixed delegationSigningPrefix body"
definition endorsementInput :: "bytes \<Rightarrow> bytes" where
  "endorsementInput body = prefixed endorsementSigningPrefix body"
definition retractionInput :: "bytes \<Rightarrow> bytes" where
  "retractionInput body = prefixed retractionSigningPrefix body"
definition relayInput :: "bytes \<Rightarrow> bytes" where
  "relayInput body = prefixed relaySigningPrefix body"

definition Fingerprint :: "ssh_lib \<Rightarrow> Identity \<Rightarrow> string" where
  "Fingerprint L i = lib_fingerprint L (sr_public (id_signer i))"

definition ApproverInfo :: "ssh_lib \<Rightarrow> Identity \<Rightarrow> bool \<Rightarrow> approver_info" where
  "ApproverInfo L i local =
     \<lparr>ai_instance_id = Fingerprint L i, ai_name = id_name i, ai_local = local\<rparr>"

definition RequesterInfo :: "ssh_lib \<Rightarrow> Identity \<Rightarrow> bool \<Rightarrow> requester_info" where
  "RequesterInfo L i local = \<lparr>ri_instance_id = Fingerprint L i, ri_name = id_name i,
     ri_local = local, ri_headless = False, ri_remote_address = [], ri_process = None\<rparr>"

section \<open>Signatures of one identity\<close>

text \<open>
  What every signing method does with the marshalled body, and what every verifying one does before
  it reads the body.
\<close>

definition sign_identity ::
    "ssh_lib \<Rightarrow> Identity \<Rightarrow> (bytes \<Rightarrow> bytes) \<Rightarrow> bytes \<Rightarrow> identity_error + signed_artifact" where
  "sign_identity L i input body =
     (case sr_sign (id_signer i) (input body) of
        Inl e \<Rightarrow> Inl (IdentitySignFailed e)
      | Inr sig \<Rightarrow> Inr \<lparr>sg_body = body, sg_public_key = pk_marshal (sr_public (id_signer i)),
          sg_fingerprint = Fingerprint L i, sg_algorithm = sig_format sig,
          sg_signature = lib_marshal_signature L sig, sg_key_signature = []\<rparr>)"

definition identity_half ::
    "ssh_lib \<Rightarrow> bytes \<Rightarrow> string \<Rightarrow> bytes \<Rightarrow> bytes \<Rightarrow> identity_error + ssh_public_key" where
  "identity_half L publicKey fingerprint signature input =
     (case lib_parse_public L publicKey of
        Inl e \<Rightarrow> Inl (ParseIdentityKey e)
      | Inr pub \<Rightarrow>
          if lib_fingerprint L pub \<noteq> fingerprint
          then Inl (FingerprintMismatch fingerprint (lib_fingerprint L pub))
          else (case lib_unmarshal_signature L signature of
                  Inl e \<Rightarrow> Inl (ParseIdentitySignature e)
                | Inr sig \<Rightarrow>
                    (case lib_verify L pub input sig of
                       Some e \<Rightarrow> Inl (IdentityVerifyFailed e)
                     | None \<Rightarrow> Inr pub)))"

definition SignApproval ::
    "ssh_lib \<Rightarrow> approval_response proto_codec \<Rightarrow> Identity \<Rightarrow> approval_response option
       \<Rightarrow> identity_error + signed_artifact" where
  "SignApproval L C i resp =
     (case resp of
        None \<Rightarrow> Inl NilMessage
      | Some r \<Rightarrow>
          (case pc_marshal C r of
             Inl e \<Rightarrow> Inl (MarshalFailed e)
           | Inr body \<Rightarrow> sign_identity L i signingInput body))"

definition VerifyApproval ::
    "ssh_lib \<Rightarrow> approval_response proto_codec \<Rightarrow> signed_artifact option
       \<Rightarrow> identity_error + approval_response \<times> ssh_public_key" where
  "VerifyApproval L C artifact =
     (case artifact of
        None \<Rightarrow> Inl NilMessage
      | Some sa \<Rightarrow>
          (case identity_half L (sg_public_key sa) (sg_fingerprint sa) (sg_signature sa)
                  (signingInput (sg_body sa)) of
             Inl e \<Rightarrow> Inl e
           | Inr pub \<Rightarrow>
               (case pc_unmarshal C (sg_body sa) of
                  Inl e \<Rightarrow> Inl (UnmarshalFailed e)
                | Inr resp \<Rightarrow> Inr (resp, pub))))"

definition SignDelegation ::
    "ssh_lib \<Rightarrow> delegation proto_codec \<Rightarrow> Identity \<Rightarrow> delegation option
       \<Rightarrow> identity_error + signed_artifact" where
  "SignDelegation L C i dlg =
     (case dlg of
        None \<Rightarrow> Inl NilMessage
      | Some d \<Rightarrow>
          (case pc_marshal C d of
             Inl e \<Rightarrow> Inl (MarshalFailed e)
           | Inr body \<Rightarrow> sign_identity L i delegationInput body))"

definition VerifyDelegation ::
    "ssh_lib \<Rightarrow> delegation proto_codec \<Rightarrow> signed_artifact option
       \<Rightarrow> identity_error + delegation \<times> ssh_public_key" where
  "VerifyDelegation L C artifact =
     (case artifact of
        None \<Rightarrow> Inl NilMessage
      | Some sd \<Rightarrow>
          (case identity_half L (sg_public_key sd) (sg_fingerprint sd) (sg_signature sd)
                  (delegationInput (sg_body sd)) of
             Inl e \<Rightarrow> Inl e
           | Inr pub \<Rightarrow>
               (case pc_unmarshal C (sg_body sd) of
                  Inl e \<Rightarrow> Inl (UnmarshalFailed e)
                | Inr d \<Rightarrow>
                    if dg_approver_fingerprint d \<noteq> sg_fingerprint sd
                    then Inl (SignerDisagrees (dg_approver_fingerprint d) (sg_fingerprint sd))
                    else Inr (d, pub))))"

section \<open>Artifacts with two signatures\<close>

definition verifyIdentityHalf ::
    "ssh_lib \<Rightarrow> bytes \<Rightarrow> string \<Rightarrow> bytes \<Rightarrow> bytes \<Rightarrow> identity_error option" where
  "verifyIdentityHalf L publicKey fingerprint signature input =
     (case identity_half L publicKey fingerprint signature input of
        Inl e \<Rightarrow> Some e
      | Inr pub \<Rightarrow> None)"

definition verifyKeyHalf :: "ssh_lib \<Rightarrow> bytes \<Rightarrow> string \<Rightarrow> bytes \<Rightarrow> identity_error + string" where
  "verifyKeyHalf L signature namespace body =
     (case ParseBinary L signature of
        Inl e \<Rightarrow> Inl (ParseKeySignature e)
      | Inr sig \<Rightarrow>
          (case Verify L sig namespace body of
             Some e \<Rightarrow> Inl (KeyVerifyFailed e)
           | None \<Rightarrow> Inr (lib_fingerprint L (sg_pub sig))))"

definition sign_both ::
    "ssh_lib \<Rightarrow> Identity \<Rightarrow> (bytes \<Rightarrow> bytes) \<Rightarrow> string \<Rightarrow> ssh_signer \<Rightarrow> bytes
       \<Rightarrow> identity_error + signed_artifact" where
  "sign_both L i input namespace key body =
     (case sign_identity L i input body of
        Inl e \<Rightarrow> Inl e
      | Inr a \<Rightarrow>
          (case Sign L key namespace HashSHA512 body of
             Inl e \<Rightarrow> Inl (KeySignFailed e)
           | Inr keySig \<Rightarrow> Inr (a\<lparr>sg_key_signature := Marshal L keySig\<rparr>)))"

definition SignEndorsement ::
    "ssh_lib \<Rightarrow> endorsement proto_codec \<Rightarrow> Identity \<Rightarrow> endorsement option \<Rightarrow> ssh_signer option
       \<Rightarrow> identity_error + signed_artifact" where
  "SignEndorsement L C i en key =
     (case en of
        None \<Rightarrow> Inl NilMessage
      | Some e \<Rightarrow>
          (case key of
             None \<Rightarrow> Inl NoKey
           | Some k \<Rightarrow>
               if lib_fingerprint L (sr_public k) \<noteq> en_key_fingerprint e
               then Inl (WrongKey (en_key_fingerprint e) (lib_fingerprint L (sr_public k)))
               else (case pc_marshal C e of
                       Inl err \<Rightarrow> Inl (MarshalFailed err)
                     | Inr body \<Rightarrow> sign_both L i endorsementInput EndorsementNamespace k body)))"

definition VerifyEndorsement ::
    "ssh_lib \<Rightarrow> endorsement proto_codec \<Rightarrow> signed_artifact option \<Rightarrow> identity_error + endorsement" where
  "VerifyEndorsement L C artifact =
     (case artifact of
        None \<Rightarrow> Inl NilMessage
      | Some se \<Rightarrow>
          (let body = sg_body se
           in case verifyIdentityHalf L (sg_public_key se) (sg_fingerprint se) (sg_signature se)
                     (endorsementInput body) of
               Some e \<Rightarrow> Inl e
             | None \<Rightarrow>
                 (case verifyKeyHalf L (sg_key_signature se) EndorsementNamespace body of
                    Inl e \<Rightarrow> Inl e
                  | Inr keyPrint \<Rightarrow>
                      (case pc_unmarshal C body of
                         Inl e \<Rightarrow> Inl (UnmarshalFailed e)
                       | Inr e \<Rightarrow>
                           if en_issuer_fingerprint e \<noteq> sg_fingerprint se
                           then Inl (SignerDisagrees (en_issuer_fingerprint e) (sg_fingerprint se))
                           else if en_key_fingerprint e \<noteq> keyPrint
                           then Inl (KeyDisagrees (en_key_fingerprint e) keyPrint)
                           else if gs_key_fingerprint (en_scope e) \<noteq> keyPrint
                           then Inl (ScopeDisagrees (gs_key_fingerprint (en_scope e)) keyPrint)
                           else Inr e))))"

definition SignRetraction ::
    "ssh_lib \<Rightarrow> retraction proto_codec \<Rightarrow> Identity \<Rightarrow> retraction option \<Rightarrow> ssh_signer option
       \<Rightarrow> identity_error + signed_artifact" where
  "SignRetraction L C i rt key =
     (case rt of
        None \<Rightarrow> Inl NilMessage
      | Some r \<Rightarrow>
          (case key of
             None \<Rightarrow> Inl NoKey
           | Some k \<Rightarrow>
               if lib_fingerprint L (sr_public k) \<noteq> rt_key_fingerprint r
               then Inl (WrongKey (rt_key_fingerprint r) (lib_fingerprint L (sr_public k)))
               else (case pc_marshal C r of
                       Inl err \<Rightarrow> Inl (MarshalFailed err)
                     | Inr body \<Rightarrow> sign_both L i retractionInput RetractionNamespace k body)))"

definition VerifyRetraction ::
    "ssh_lib \<Rightarrow> retraction proto_codec \<Rightarrow> signed_artifact option \<Rightarrow> identity_error + retraction" where
  "VerifyRetraction L C artifact =
     (case artifact of
        None \<Rightarrow> Inl NilMessage
      | Some sr \<Rightarrow>
          (let body = sg_body sr
           in case verifyIdentityHalf L (sg_public_key sr) (sg_fingerprint sr) (sg_signature sr)
                     (retractionInput body) of
               Some e \<Rightarrow> Inl e
             | None \<Rightarrow>
                 (case verifyKeyHalf L (sg_key_signature sr) RetractionNamespace body of
                    Inl e \<Rightarrow> Inl e
                  | Inr keyPrint \<Rightarrow>
                      (case pc_unmarshal C body of
                         Inl e \<Rightarrow> Inl (UnmarshalFailed e)
                       | Inr r \<Rightarrow>
                           if rt_issuer_fingerprint r \<noteq> sg_fingerprint sr
                           then Inl (SignerDisagrees (rt_issuer_fingerprint r) (sg_fingerprint sr))
                           else if rt_key_fingerprint r \<noteq> keyPrint
                           then Inl (KeyDisagrees (rt_key_fingerprint r) keyPrint)
                           else if (rt_endorsement_id r \<noteq> []) = (rt_issued_before r \<noteq> None)
                           then Inl RetractionTarget
                           else Inr r))))"

section \<open>Calls to the wake-up relay\<close>

datatype relay_operation =
    NoRelayOperation
  | RelayRegister int string
  | RelayWake int int

record relay_call =
  rc_issued_at :: timestamp
  rc_nonce :: string
  rc_instance_id :: string
  rc_operation :: relay_operation

definition RelayClockSkew :: duration where "RelayClockSkew = 5 * minute"

definition SignRelayCall ::
    "ssh_lib \<Rightarrow> relay_call proto_codec \<Rightarrow> Identity \<Rightarrow> relay_call option
       \<Rightarrow> identity_error + signed_artifact" where
  "SignRelayCall L C i call =
     (case call of
        None \<Rightarrow> Inl NilMessage
      | Some c \<Rightarrow>
          (case pc_marshal C c of
             Inl e \<Rightarrow> Inl (MarshalFailed e)
           | Inr body \<Rightarrow>
               (case sign_identity L i relayInput body of
                  Inl e \<Rightarrow> Inl e
                | Inr a \<Rightarrow> Inr (a\<lparr>sg_fingerprint := []\<rparr>))))"

text \<open>The relay's message has no fingerprint field, so none is written and none is checked.\<close>

definition VerifyRelayCall ::
    "ssh_lib \<Rightarrow> relay_call proto_codec \<Rightarrow> signed_artifact option
       \<Rightarrow> identity_error + relay_call \<times> ssh_public_key" where
  "VerifyRelayCall L C artifact =
     (case artifact of
        None \<Rightarrow> Inl NilMessage
      | Some src \<Rightarrow>
          (case lib_parse_public L (sg_public_key src) of
             Inl e \<Rightarrow> Inl (ParseIdentityKey e)
           | Inr pub \<Rightarrow>
               (case lib_unmarshal_signature L (sg_signature src) of
                  Inl e \<Rightarrow> Inl (ParseIdentitySignature e)
                | Inr sig \<Rightarrow>
                    (case lib_verify L pub (relayInput (sg_body src)) sig of
                       Some e \<Rightarrow> Inl (IdentityVerifyFailed e)
                     | None \<Rightarrow>
                         (case pc_unmarshal C (sg_body src) of
                            Inl e \<Rightarrow> Inl (UnmarshalFailed e)
                          | Inr call \<Rightarrow> Inr (call, pub))))))"

definition NewRelayCall :: "time \<Rightarrow> string \<Rightarrow> string \<Rightarrow> relay_call" where
  "NewRelayCall now nonce instanceID =
     \<lparr>rc_issued_at = Some now, rc_nonce = nonce, rc_instance_id = instanceID,
      rc_operation = NoRelayOperation\<rparr>"


section \<open>Lemmas\<close>

datatype artifact_kind =
  ApprovalArtifact | DelegationArtifact | EndorsementArtifact | RetractionArtifact | RelayArtifact

fun artifact_input :: "artifact_kind \<Rightarrow> bytes \<Rightarrow> bytes" where
  "artifact_input ApprovalArtifact = signingInput"
| "artifact_input DelegationArtifact = delegationInput"
| "artifact_input EndorsementArtifact = endorsementInput"
| "artifact_input RetractionArtifact = retractionInput"
| "artifact_input RelayArtifact = relayInput"

lemmas input_defs = signingInput_def delegationInput_def endorsementInput_def retractionInput_def
  relayInput_def prefixed_def
lemmas prefix_defs = approvalSigningPrefix_def delegationSigningPrefix_def
  endorsementSigningPrefix_def retractionSigningPrefix_def relaySigningPrefix_def nul_def

lemma identity_half_Inr:
  "identity_half L pk fp sg input = Inr pub \<longleftrightarrow>
     lib_parse_public L pk = Inr pub \<and> lib_fingerprint L pub = fp \<and>
     (\<exists>sig. lib_unmarshal_signature L sg = Inr sig \<and> lib_verify L pub input sig = None)"
  by (auto simp: identity_half_def split: sum.splits option.splits)

lemma verifyIdentityHalf_None:
  "verifyIdentityHalf L pk fp sg input = None \<longleftrightarrow> (\<exists>pub. identity_half L pk fp sg input = Inr pub)"
  by (auto simp: verifyIdentityHalf_def split: sum.splits)

lemma verifyKeyHalf_Inr:
  "verifyKeyHalf L sg ns body = Inr fp \<longleftrightarrow>
     (\<exists>s. ParseBinary L sg = Inr s \<and> Verify L s ns body = None \<and> fp = lib_fingerprint L (sg_pub s))"
  by (auto simp: verifyKeyHalf_def split: sum.splits option.splits)

lemma sign_identity_half:
  assumes "key_law L (id_signer i)" "\<forall>sig. signature_law L sig" "sign_identity L i input body = Inr a"
  shows "identity_half L (sg_public_key a) (sg_fingerprint a) (sg_signature a) (input (sg_body a)) =
           Inr (sr_public (id_signer i))"
    "sg_body a = body" "sg_fingerprint a = Fingerprint L i"
  using assms
  by (auto simp: sign_identity_def identity_half_Inr key_law_def signature_law_def Fingerprint_def
      split: sum.splits)

lemma sign_both_halves:
  assumes laws: "key_law L (id_signer i)" "key_law L key" "\<forall>sig. signature_law L sig" "\<forall>w. wire_law L w"
    and signs: "sign_both L i input ns key body = Inr a"
  shows "verifyIdentityHalf L (sg_public_key a) (sg_fingerprint a) (sg_signature a) (input (sg_body a)) = None"
    "verifyKeyHalf L (sg_key_signature a) ns (sg_body a) = Inr (lib_fingerprint L (sr_public key))"
    "sg_body a = body" "sg_fingerprint a = Fingerprint L i"
proof -
  from signs obtain b s where b: "sign_identity L i input body = Inr b"
    and s: "Sign L key ns HashSHA512 body = Inr s" and a: "a = b\<lparr>sg_key_signature := Marshal L s\<rparr>"
    by (auto simp: sign_both_def split: sum.splits)
  note half = sign_identity_half [OF laws(1,3) b]
  show "verifyIdentityHalf L (sg_public_key a) (sg_fingerprint a) (sg_signature a) (input (sg_body a)) = None"
    using half(1) by (simp add: a verifyIdentityHalf_None)
  show "sg_body a = body" "sg_fingerprint a = Fingerprint L i" using half by (simp_all add: a)
  have "ParseBinary L (Marshal L s) = Inr s"
    using ParseBinary_Marshal [of L s] laws Sign_fields [OF s] by (simp add: key_law_def)
  moreover have "Verify L s ns body = None" by (rule Sign_Verify [OF laws(2) s])
  ultimately show "verifyKeyHalf L (sg_key_signature a) ns (sg_body a) = Inr (lib_fingerprint L (sr_public key))"
    using half(2) Sign_fields(1) [OF s] by (simp add: a verifyKeyHalf_Inr)
qed

text \<open>A codec that reads back what it wrote.\<close>

definition codec_law :: "'m proto_codec \<Rightarrow> bool" where
  "codec_law C \<longleftrightarrow> (\<forall>m b. pc_marshal C m = Inr b \<longrightarrow> pc_unmarshal C b = Inr m)"

section \<open>Properties\<close>

text \<open>
  C34: the bytes signed for one kind of artifact are never the bytes signed for another, and they
  determine the body: approvals, delegations, endorsements, retractions and relay calls share the
  identity key and no signing input.
\<close>

theorem artifact_input_separates:
  "artifact_input k b = artifact_input k' b' \<longleftrightarrow> k = k' \<and> b = b'"
  by (cases k; cases k') (simp_all add: input_defs prefix_defs)

text \<open>
  C35: an endorsement that verifies is one whose issuer signed exactly these bytes as an endorsement,
  whose key signed the same bytes under the endorsement namespace, and whose three claims - the
  issuer, the key it rests on and the key of its scope - are the keys that made the signatures.
\<close>

theorem VerifyEndorsement_sound:
  assumes "VerifyEndorsement L C (Some se) = Inr e"
  shows "\<exists>pub sig ks.
           lib_parse_public L (sg_public_key se) = Inr pub \<and>
           lib_verify L pub (endorsementInput (sg_body se)) sig = None \<and>
           ParseBinary L (sg_key_signature se) = Inr ks \<and>
           Verify L ks EndorsementNamespace (sg_body se) = None \<and>
           pc_unmarshal C (sg_body se) = Inr e \<and>
           en_issuer_fingerprint e = lib_fingerprint L pub \<and>
           en_key_fingerprint e = lib_fingerprint L (sg_pub ks) \<and>
           gs_key_fingerprint (en_scope e) = lib_fingerprint L (sg_pub ks)"
proof -
  from assms obtain kp where *:
    "verifyIdentityHalf L (sg_public_key se) (sg_fingerprint se) (sg_signature se) (endorsementInput (sg_body se)) = None"
    "verifyKeyHalf L (sg_key_signature se) EndorsementNamespace (sg_body se) = Inr kp"
    "pc_unmarshal C (sg_body se) = Inr e" "en_issuer_fingerprint e = sg_fingerprint se"
    "en_key_fingerprint e = kp" "gs_key_fingerprint (en_scope e) = kp"
    by (auto simp: VerifyEndorsement_def Let_def split: option.splits sum.splits if_splits)
  from *(1) obtain pub sig where "lib_parse_public L (sg_public_key se) = Inr pub"
    "lib_fingerprint L pub = sg_fingerprint se" "lib_verify L pub (endorsementInput (sg_body se)) sig = None"
    by (auto simp: verifyIdentityHalf_None identity_half_Inr)
  moreover from *(2) obtain ks where "ParseBinary L (sg_key_signature se) = Inr ks"
    "Verify L ks EndorsementNamespace (sg_body se) = None" "kp = lib_fingerprint L (sg_pub ks)"
    by (auto simp: verifyKeyHalf_Inr)
  ultimately show ?thesis using * by metis
qed

text \<open>
  what an instance signs, a peer verifies. An approval comes back as it was; an endorsement
  comes back as it was exactly when it names the signing instance as its issuer and the endorsed
  key in its scope, which signing alone does not check.
\<close>

theorem Sign_Verify_artifacts:
  assumes "key_law L (id_signer i)" "key_law L key" "\<forall>sig. signature_law L sig" "\<forall>w. wire_law L w"
    and "codec_law CA" "codec_law CE"
    and "SignApproval L CA i (Some r) = Inr sa" "SignEndorsement L CE i (Some e) (Some key) = Inr se"
  shows "VerifyApproval L CA (Some sa) = Inr (r, sr_public (id_signer i)) \<and>
         (VerifyEndorsement L CE (Some se) = Inr e \<longleftrightarrow>
            en_issuer_fingerprint e = Fingerprint L i \<and>
            gs_key_fingerprint (en_scope e) = en_key_fingerprint e)"
proof
  from assms(7) obtain b where b: "pc_marshal CA r = Inr b" "sign_identity L i signingInput b = Inr sa"
    by (auto simp: SignApproval_def split: sum.splits)
  then show "VerifyApproval L CA (Some sa) = Inr (r, sr_public (id_signer i))"
    using sign_identity_half [OF assms(1,3) b(2)] assms(5)
    by (auto simp: VerifyApproval_def codec_law_def)
next
  from assms(8) obtain b where b: "pc_marshal CE e = Inr b"
    "sign_both L i endorsementInput EndorsementNamespace key b = Inr se"
    and k: "lib_fingerprint L (sr_public key) = en_key_fingerprint e"
    by (auto simp: SignEndorsement_def split: sum.splits if_splits)
  have "pc_unmarshal CE b = Inr e" using assms(6) b(1) by (simp add: codec_law_def)
  then show "VerifyEndorsement L CE (Some se) = Inr e \<longleftrightarrow>
      en_issuer_fingerprint e = Fingerprint L i \<and> gs_key_fingerprint (en_scope e) = en_key_fingerprint e"
    using sign_both_halves [OF assms(1,2,3,4) b(2)] k by (auto simp: VerifyEndorsement_def)
qed

text \<open>Messages and codecs to evaluate the two on.\<close>

definition sample_endorsement :: endorsement where
  "sample_endorsement = \<lparr>en_endorsement_id = ''e1'',
     en_scope = empty_scope\<lparr>gs_key_fingerprint := ''SHA256:K''\<rparr>, en_created_at = None, en_expires_at = None,
     en_origin_request_id = [], en_description = [], en_issuer_fingerprint = ''SHA256:K'',
     en_issuer_name = [], en_requester_fingerprint = [], en_requester_name = [],
     en_key_fingerprint = ''SHA256:K''\<rparr>"

definition only_codec :: "'m \<Rightarrow> 'm proto_codec" where
  "only_codec m = \<lparr>pc_marshal = (\<lambda>x. if x = m then Inr ''B'' else Inl ''other''), pc_unmarshal = (\<lambda>b. Inr m)\<rparr>"

lemma only_codec_law: "codec_law (only_codec m)"
  by (simp add: codec_law_def only_codec_def)

definition toy_identity :: Identity where
  "toy_identity = \<lparr>id_name = ''laptop'', id_signer = toy_signer\<rparr>"

lemma toy_sign_identity:
  "\<exists>a. sign_identity toy_lib toy_identity input body = Inr a"
  by (simp add: sign_identity_def toy_identity_def toy_signer_def)

lemma toy_signs:
  "\<exists>sa. SignApproval toy_lib (only_codec r) toy_identity (Some r) = Inr sa"
  "\<exists>se. SignEndorsement toy_lib (only_codec sample_endorsement) toy_identity (Some sample_endorsement)
          (Some toy_signer) = Inr se"
proof -
  show "\<exists>sa. SignApproval toy_lib (only_codec r) toy_identity (Some r) = Inr sa"
    by (simp add: SignApproval_def only_codec_def toy_sign_identity)
  have "lib_fingerprint toy_lib (sr_public toy_signer) = en_key_fingerprint sample_endorsement"
    by (simp add: toy_lib_def toy_signer_def toy_key_def sample_endorsement_def)
  moreover obtain a where "sign_identity toy_lib toy_identity endorsementInput ''B'' = Inr a"
    using toy_sign_identity by blast
  moreover obtain s where "Sign toy_lib toy_signer EndorsementNamespace HashSHA512 ''B'' = Inr s"
    using toy_Sign [of EndorsementNamespace HashSHA512 "''B''"]
    by (auto simp: EndorsementNamespace_def HashSHA512_def)
  ultimately show "\<exists>se. SignEndorsement toy_lib (only_codec sample_endorsement) toy_identity
      (Some sample_endorsement) (Some toy_signer) = Inr se"
    by (simp add: SignEndorsement_def only_codec_def sign_both_def)
qed

lemma toy_identity_law: "key_law toy_lib (id_signer toy_identity)"
  using toy_key_law by (simp add: toy_identity_def)

lemma sample_endorsement_agrees:
  "en_issuer_fingerprint sample_endorsement = Fingerprint toy_lib toy_identity"
  "gs_key_fingerprint (en_scope sample_endorsement) = en_key_fingerprint sample_endorsement"
  by (simp_all add: sample_endorsement_def Fingerprint_def toy_lib_def toy_identity_def toy_signer_def
      toy_key_def empty_scope_def)

theorem Sign_Verify_artifacts_witness:
  "\<exists>se. SignEndorsement toy_lib (only_codec sample_endorsement) toy_identity (Some sample_endorsement)
          (Some toy_signer) = Inr se \<and>
        VerifyEndorsement toy_lib (only_codec sample_endorsement) (Some se) = Inr sample_endorsement"
proof -
  obtain sa where sa: "SignApproval toy_lib (only_codec empty_response) toy_identity (Some empty_response) = Inr sa"
    using toy_signs(1) by blast
  obtain se where se: "SignEndorsement toy_lib (only_codec sample_endorsement) toy_identity
      (Some sample_endorsement) (Some toy_signer) = Inr se"
    using toy_signs(2) by blast
  from Sign_Verify_artifacts [OF toy_identity_law toy_key_law toy_laws only_codec_law only_codec_law sa se]
  show ?thesis using se sample_endorsement_agrees by blast
qed

text \<open>The two halves of the sample artifact, written out.\<close>

definition sample_artifact :: signed_artifact where
  "sample_artifact =
     (case SignEndorsement toy_lib (only_codec sample_endorsement) toy_identity (Some sample_endorsement)
             (Some toy_signer) of
        Inr se \<Rightarrow> se
      | Inl _ \<Rightarrow> \<lparr>sg_body = [], sg_public_key = [], sg_fingerprint = [], sg_algorithm = [],
                  sg_signature = [], sg_key_signature = []\<rparr>)"

lemma sample_artifact_verifies:
  "VerifyEndorsement toy_lib (only_codec sample_endorsement) (Some sample_artifact) = Inr sample_endorsement"
proof -
  obtain se where se: "SignEndorsement toy_lib (only_codec sample_endorsement) toy_identity
      (Some sample_endorsement) (Some toy_signer) = Inr se"
    using toy_signs(2) by blast
  then obtain b where b: "pc_marshal (only_codec sample_endorsement) sample_endorsement = Inr b"
    "sign_both toy_lib toy_identity endorsementInput EndorsementNamespace toy_signer b = Inr se"
    and k: "lib_fingerprint toy_lib (sr_public toy_signer) = en_key_fingerprint sample_endorsement"
    by (auto simp: SignEndorsement_def split: sum.splits if_splits)
  have "pc_unmarshal (only_codec sample_endorsement) b = Inr sample_endorsement"
    by (simp add: only_codec_def)
  then show ?thesis
    using sign_both_halves [OF toy_identity_law toy_key_law toy_laws b(2)] k se sample_endorsement_agrees
    by (auto simp: VerifyEndorsement_def sample_artifact_def)
qed

theorem VerifyEndorsement_sound_witness:
  "\<exists>pub. lib_parse_public toy_lib (sg_public_key sample_artifact) = Inr pub \<and>
         en_issuer_fingerprint sample_endorsement = lib_fingerprint toy_lib pub"
  using VerifyEndorsement_sound [OF sample_artifact_verifies] by blast

end
