(* ===== verification/Gitctx.thy ===== *)
theory Gitctx
  imports Sshsig Messages
begin

text \<open>
  Reading the git object of a signing request and checking it against the payload,
  \<^verbatim>\<open>src/pkg/gitctx/object.go\<close> and \<^verbatim>\<open>verify.go\<close>. A function of the code that writes into the message it
  is given returns the changed message. Hashing is the SSHSIG hash over the library's two hash
  functions. Collecting a context by running git, \<^verbatim>\<open>collect.go\<close> and \<^verbatim>\<open>diff.go\<close>, is not here.
\<close>

section \<open>Parsing an object\<close>

datatype git_error =
    NoBlankLine
  | ContinuationFirst
  | HeaderWithoutValue string
  | NoHeaders
  | NoEmail string
  | BadTimestamp string
  | InHeader string git_error
  | NeitherCommitNorTag
  | NoContext

record header =
  hd_name :: string
  hd_value :: string

definition space :: char where "space = CHR '' ''"
definition blank_line :: string where "blank_line = [newline, newline]"

definition TypeCommit :: string where "TypeCommit = ''commit''"
definition TypeTag :: string where "TypeTag = ''tag''"

fun split_headers :: "header list \<Rightarrow> string list \<Rightarrow> git_error + header list" where
  "split_headers headers [] = (if headers = [] then Inl NoHeaders else Inr headers)"
| "split_headers headers (line # lines) =
     (if has_prefix line [space]
      then (if headers = [] then Inl ContinuationFirst
            else split_headers
              (butlast headers @
                 [(last headers)\<lparr>hd_value := hd_value (last headers) @ [newline] @ drop 1 line\<rparr>]) lines)
      else case cut space line of
          None \<Rightarrow> Inl (HeaderWithoutValue line)
        | Some (name, value) \<Rightarrow>
            split_headers (headers @ [\<lparr>hd_name = name, hd_value = value\<rparr>]) lines)"

definition splitObject :: "bytes \<Rightarrow> git_error + header list \<times> string" where
  "splitObject payload =
     (case index_of blank_line payload of
        None \<Rightarrow> Inl NoBlankLine
      | Some separator \<Rightarrow>
          (case split_headers [] (split_on newline (take separator payload)) of
             Inl e \<Rightarrow> Inl e
           | Inr headers \<Rightarrow> Inr (headers, drop (separator + 2) payload)))"

definition subjectOf :: "string \<Rightarrow> string" where
  "subjectOf message = trim_space (takeWhile (\<lambda>c. c \<noteq> newline) message)"

text \<open>\<^verbatim>\<open>strconv.ParseInt(s, 10, 64)\<close>: an optional sign, digits, and a value of 64 bits.\<close>

definition digit_value :: "char \<Rightarrow> nat option" where
  "digit_value c = (if 48 \<le> (of_char c :: nat) \<and> (of_char c :: nat) \<le> 57 then Some (of_char c - 48) else None)"

fun digits_value :: "nat \<Rightarrow> string \<Rightarrow> nat option" where
  "digits_value acc [] = Some acc"
| "digits_value acc (c # cs) =
     (case digit_value c of None \<Rightarrow> None | Some d \<Rightarrow> digits_value (acc * 10 + d) cs)"

definition parse_int64 :: "string \<Rightarrow> int option" where
  "parse_int64 s =
     (let (neg, ds) = (case s of
            [] \<Rightarrow> (False, [])
          | c # cs \<Rightarrow> if c = CHR ''-'' then (True, cs) else if c = CHR ''+'' then (False, cs) else (False, s))
      in if ds = [] then None
         else case digits_value 0 ds of
             None \<Rightarrow> None
           | Some n \<Rightarrow>
               if neg then (if n \<le> 2 ^ 63 then Some (- int n) else None)
               else (if n < 2 ^ 63 then Some (int n) else None))"

definition ParseIdentity :: "string \<Rightarrow> git_error + git_identity" where
  "ParseIdentity line =
     (case cut_last (\<lambda>c. c = CHR ''>'') line of
        None \<Rightarrow> Inl (NoEmail line)
      | Some (before, after) \<Rightarrow>
          (case cut_last (\<lambda>c. c = CHR ''<'') before of
             None \<Rightarrow> Inl (NoEmail line)
           | Some (name, email) \<Rightarrow>
               (let i = \<lparr>gi_name = trim_space name, gi_email = email, gi_time = None, gi_timezone = []\<rparr>
                in case Go_Prelude.fields after of
                    [] \<Rightarrow> Inr i
                  | t # rest \<Rightarrow>
                      (case parse_int64 t of
                         None \<Rightarrow> Inl (BadTimestamp t)
                       | Some seconds \<Rightarrow>
                           Inr (i\<lparr>gi_time := Some (seconds * second),
                                  gi_timezone := (case rest of [] \<Rightarrow> [] | z # _ \<Rightarrow> z)\<rparr>)))))"

definition applyHeader :: "git_object \<Rightarrow> header \<Rightarrow> git_error + git_object" where
  "applyHeader ob h =
     (let name = hd_name h; value = hd_value h;
          with_identity = (\<lambda>f. case ParseIdentity value of
            Inl e \<Rightarrow> Inl (InHeader name e) | Inr i \<Rightarrow> Inr (f i))
      in if name = ''tree'' then Inr (ob\<lparr>go_tree := value\<rparr>)
         else if name = ''parent'' then Inr (ob\<lparr>go_parents := go_parents ob @ [value]\<rparr>)
         else if name = ''object'' then Inr (ob\<lparr>go_tagged_object := value\<rparr>)
         else if name = ''type'' then Inr (ob\<lparr>go_tagged_type := value\<rparr>)
         else if name = ''tag'' then Inr (ob\<lparr>go_tag := value\<rparr>)
         else if name = ''author'' then with_identity (\<lambda>i. ob\<lparr>go_author := Some i\<rparr>)
         else if name = ''committer'' then with_identity (\<lambda>i. ob\<lparr>go_committer := Some i\<rparr>)
         else if name = ''tagger'' then with_identity (\<lambda>i. ob\<lparr>go_tagger := Some i\<rparr>)
         else Inr (ob\<lparr>go_extra_headers := go_extra_headers ob @ [(name, value)]\<rparr>))"

fun apply_headers :: "git_object \<Rightarrow> header list \<Rightarrow> git_error + git_object" where
  "apply_headers ob [] = Inr ob"
| "apply_headers ob (h # hs) =
     (case applyHeader ob h of Inl e \<Rightarrow> Inl e | Inr ob' \<Rightarrow> apply_headers ob' hs)"

definition ParseObject :: "bytes \<Rightarrow> git_error + git_object" where
  "ParseObject payload =
     (case splitObject payload of
        Inl e \<Rightarrow> Inl e
      | Inr (headers, message) \<Rightarrow>
          (case apply_headers
                  (empty_git_object\<lparr>go_message := message, go_subject := subjectOf message\<rparr>) headers of
             Inl e \<Rightarrow> Inl e
           | Inr ob \<Rightarrow>
               if go_tree ob \<noteq> [] \<and> go_tag ob = [] then Inr (ob\<lparr>go_type := TypeCommit\<rparr>)
               else if go_tagged_object ob \<noteq> [] \<and> go_tag ob \<noteq> [] then Inr (ob\<lparr>go_type := TypeTag\<rparr>)
               else Inl NeitherCommitNorTag))"

section \<open>Checking a context\<close>

definition Describe_context :: "git_context option \<Rightarrow> git_context option \<times> git_error option" where
  "Describe_context git =
     (case git of
        None \<Rightarrow> (None, Some NoContext)
      | Some g \<Rightarrow>
          (let g' = g\<lparr>gc_object_type := [], gc_parsed := None\<rparr>
           in case ParseObject (gc_object g) of
               Inl e \<Rightarrow> (Some g', Some e)
             | Inr ob \<Rightarrow> (Some (g'\<lparr>gc_object_type := go_type ob, gc_parsed := Some ob\<rparr>), None)))"

text \<open>The four sentences; the text of an inner error is the parameter \<open>say\<close>.\<close>

datatype problem = HashProblem sshsig_error | ObjectProblem git_error

definition no_digest_text :: string where
  "no_digest_text = ''there was no payload digest to check the commit against''"
definition not_checked_text :: string where
  "not_checked_text = ''the commit could not be checked against the payload: ''"
definition mismatch_text :: string where
  "mismatch_text = ''the commit shown is not the one that would be signed''"
definition not_an_object_text :: string where
  "not_an_object_text = ''the payload does not parse as a git object: ''"

lemma problem_texts_not_Nil [simp]:
  "no_digest_text \<noteq> []" "not_checked_text \<noteq> []" "mismatch_text \<noteq> []" "not_an_object_text \<noteq> []"
  by (simp_all add: no_digest_text_def not_checked_text_def mismatch_text_def not_an_object_text_def)

text \<open>The context as it is written, and whether an error is returned beside it.\<close>

definition Verify_context ::
    "ssh_lib \<Rightarrow> (problem \<Rightarrow> string) \<Rightarrow> git_context option \<Rightarrow> string \<Rightarrow> bytes \<Rightarrow> git_context option \<times> bool" where
  "Verify_context L say git hashAlgorithm digest =
     (case git of
        None \<Rightarrow> (None, False)
      | Some g0 \<Rightarrow>
          (let g = g0\<lparr>gc_verified_against_payload := False, gc_verification_error := []\<rparr>
           in if gc_object g = [] then (Some g, False)
              else if digest = [] then (Some (g\<lparr>gc_verification_error := no_digest_text\<rparr>), True)
              else case Hash L hashAlgorithm (gc_object g) of
                  Inl e \<Rightarrow> (Some (g\<lparr>gc_verification_error := not_checked_text @ say (HashProblem e)\<rparr>), True)
                | Inr computed \<Rightarrow>
                    if computed \<noteq> digest then (Some (g\<lparr>gc_verification_error := mismatch_text\<rparr>), True)
                    else (case Describe_context (Some g) of
                            (g', Some e) \<Rightarrow>
                              (map_option (\<lambda>x. x\<lparr>gc_verification_error :=
                                 not_an_object_text @ say (ObjectProblem e)\<rparr>) g', True)
                          | (g', None) \<Rightarrow>
                              (map_option (\<lambda>x. x\<lparr>gc_verified_against_payload := True\<rparr>) g', False))))"

definition with_git_context :: "approval_request \<Rightarrow> git_context option \<Rightarrow> approval_request" where
  "with_git_context req git =
     (case ar_operation req of
        OpSshsig s \<Rightarrow> req\<lparr>ar_operation := OpSshsig (s\<lparr>ss_git_context := git\<rparr>)\<rparr>
      | _ \<Rightarrow> req)"

text \<open>
  Every error of \<^verbatim>\<open>Verify\<close> leaves a verification error in the context, so the fallback to the
  error's own text, the argument \<open>fallback\<close>, is never read.
\<close>

definition VerifyRequest ::
    "ssh_lib \<Rightarrow> (problem \<Rightarrow> string) \<Rightarrow> string \<Rightarrow> approval_request \<Rightarrow> approval_request \<times> string" where
  "VerifyRequest L say fallback req =
     (case get_sshsig req of
        None \<Rightarrow> (req, [])
      | Some sig \<Rightarrow>
          (case ss_git_context sig of
             None \<Rightarrow> (req, [])
           | Some git \<Rightarrow>
               (case Verify_context L say (Some git) (ss_hash_algorithm sig) (ss_message_digest sig) of
                  (g, failed) \<Rightarrow>
                    (with_git_context req g,
                     if failed
                     then (if getf gc_verification_error [] g \<noteq> [] then getf gc_verification_error [] g
                           else fallback)
                     else []))))"

section \<open>Lemmas\<close>

text \<open>A header as it stood in the object: a line break in its value is followed by a space.\<close>

definition header_text :: "header \<Rightarrow> string" where
  "header_text h = hd_name h @ [space] @
     concat (map (\<lambda>c. if c = newline then [newline, space] else [c]) (hd_value h))"

lemma header_text_continue:
  "header_text (h\<lparr>hd_value := hd_value h @ [newline] @ v\<rparr>) =
     header_text h @ [newline, space] @ concat (map (\<lambda>c. if c = newline then [newline, space] else [c]) v)"
  by (simp add: header_text_def)

lemma no_newline_concat:
  "newline \<notin> set v \<Longrightarrow> concat (map (\<lambda>c. if c = newline then [newline, space] else [c]) v) = v"
  by (induction v) auto

lemma join_append_last:
  "join sep (xs @ [a @ sep @ b]) = join sep (xs @ [a, b])"
proof (induction xs rule: induct_list012)
  case (3 x y zs)
  then show ?case by simp
qed simp_all

lemma join_last_cong:
  "join sep (xs @ [a @ sep @ b] @ ys) = join sep (xs @ [a, b] @ ys)"
proof (induction xs rule: induct_list012)
  case 1
  then show ?case by (cases ys) simp_all
next
  case (2 x)
  then show ?case by (cases ys) simp_all
next
  case (3 x y zs)
  then show ?case by simp
qed

lemma cut_Some:
  assumes "cut c s = Some (a, b)"
  shows "s = a @ c # b"
proof -
  have c: "c \<in> set s" and ab: "a = takeWhile (\<lambda>x. x \<noteq> c) s" "b = tl (dropWhile (\<lambda>x. x \<noteq> c) s)"
    using assms by (auto simp: cut_def split: if_splits)
  have "dropWhile (\<lambda>x. x \<noteq> c) s \<noteq> []" using c by (auto simp: dropWhile_eq_Nil_conv)
  moreover from this have "hd (dropWhile (\<lambda>x. x \<noteq> c) s) = c"
    using hd_dropWhile [of "\<lambda>x. x \<noteq> c" s] by blast
  ultimately have "dropWhile (\<lambda>x. x \<noteq> c) s = c # b" unfolding ab by (metis list.collapse)
  then show ?thesis unfolding ab(1) by (metis takeWhile_dropWhile_id)
qed

lemma split_headers_lossless:
  assumes "split_headers headers lines = Inr hs" "\<forall>l \<in> set lines. newline \<notin> set l"
  shows "join [newline] (map header_text hs) = join [newline] (map header_text headers @ lines)"
  using assms
proof (induction headers lines rule: split_headers.induct)
  case (1 headers)
  then show ?case by (simp split: if_splits)
next
  case (2 headers line lines)
  show ?case
  proof (cases "has_prefix line [space]")
    case True
    then have line: "line = space # drop 1 line" using has_prefix_split [OF True] by simp
    from True 2(3) have ne: "headers \<noteq> []" by (auto split: if_splits)
    then obtain bs h where hd: "headers = bs @ [h]" by (metis append_butlast_last_id)
    define r where "r = drop 1 line"
    have r: "newline \<notin> set r" "line = space # r"
      using 2(4) line by (auto simp: r_def dest: in_set_dropD)
    let ?h' = "h\<lparr>hd_value := hd_value h @ [newline] @ r\<rparr>"
    have h': "header_text ?h' = header_text h @ [newline] @ line"
      unfolding header_text_continue no_newline_concat [OF r(1)] using r(2) by simp
    have "join [newline] (map header_text hs) = join [newline] (map header_text (bs @ [?h']) @ lines)"
      using 2 True ne by (simp add: hd r_def)
    also have "\<dots> = join [newline] (map header_text bs @ [header_text h @ [newline] @ line] @ lines)"
      by (simp only: map_append list.map h' append_assoc)
    also have "\<dots> = join [newline] (map header_text bs @ [header_text h, line] @ lines)"
      by (rule join_last_cong)
    also have "\<dots> = join [newline] (map header_text headers @ line # lines)"
      by (simp add: hd)
    finally show ?thesis .
  next
    case False
    with 2(3) obtain a b where ab: "cut space line = Some (a, b)" by (auto split: option.splits)
    then have line: "line = a @ space # b" by (rule cut_Some)
    have "newline \<notin> set b" using 2(4) line by simp
    then have "header_text \<lparr>hd_name = a, hd_value = b\<rparr> = line"
      using line by (simp add: header_text_def no_newline_concat)
    with 2 False ab show ?thesis by simp
  qed
qed

lemma split_on_no_sep: "l \<in> set (split_on c s) \<Longrightarrow> c \<notin> set l"
proof (induction s arbitrary: l)
  case (Cons x xs)
  obtain y ys where "split_on c xs = y # ys" by (cases "split_on c xs") auto
  with Cons show ?case by (auto split: if_splits)
qed simp

lemma splitObject_lossless:
  assumes "splitObject payload = Inr (headers, message)"
  shows "payload = join [newline] (map header_text headers) @ blank_line @ message"
proof -
  from assms obtain i where i: "index_of blank_line payload = Some i"
    and h: "split_headers [] (split_on newline (take i payload)) = Inr headers"
    and m: "message = drop (i + 2) payload"
    by (auto simp: splitObject_def split: option.splits sum.splits)
  have "join [newline] (map header_text headers) = join [newline] (split_on newline (take i payload))"
    using split_headers_lossless [OF h] split_on_no_sep by fastforce
  also have "\<dots> = take i payload" by (rule join_split_on)
  finally have "join [newline] (map header_text headers) = take i payload" .
  moreover have "payload = take i payload @ blank_line @ drop (i + 2) payload"
    using index_of_Some [OF i] by (simp add: blank_line_def)
  ultimately show ?thesis using m by simp
qed

lemma applyHeader_message: "applyHeader ob h = Inr ob' \<Longrightarrow> go_message ob' = go_message ob \<and> go_subject ob' = go_subject ob"
  by (auto simp: applyHeader_def Let_def split: if_splits sum.splits)

lemma apply_headers_message:
  "apply_headers ob hs = Inr ob' \<Longrightarrow> go_message ob' = go_message ob \<and> go_subject ob' = go_subject ob"
  by (induction ob hs rule: apply_headers.induct) (auto dest: applyHeader_message split: sum.splits)

lemma ParseObject_message:
  assumes "ParseObject payload = Inr ob"
  shows "\<exists>headers. splitObject payload = Inr (headers, go_message ob)" "go_subject ob = subjectOf (go_message ob)"
  using assms apply_headers_message
  by (force simp: ParseObject_def split: sum.splits prod.splits if_splits)+

text \<open>What the check does to a context, on each of its ways out.\<close>

lemma Verify_context_ok:
  assumes "Verify_context L say (Some g) h d = (g', False)" "gc_object g \<noteq> []"
  shows "\<exists>ob. Hash L h (gc_object g) = Inr d \<and> ParseObject (gc_object g) = Inr ob \<and>
     g' = Some (g\<lparr>gc_verified_against_payload := True, gc_verification_error := [],
                  gc_object_type := go_type ob, gc_parsed := Some ob\<rparr>)"
  using assms
  by (auto simp: Verify_context_def Describe_context_def Let_def split: if_splits sum.splits)

lemma Verify_context_no_object:
  "gc_object g = [] \<Longrightarrow> Verify_context L say (Some g) h d =
     (Some (g\<lparr>gc_verified_against_payload := False, gc_verification_error := []\<rparr>), False)"
  by (simp add: Verify_context_def Let_def)

lemma Verify_context_failed:
  assumes "Verify_context L say (Some g) h d = (g', True)"
  shows "getf gc_verification_error [] g' \<noteq> [] \<and> \<not> getf gc_verified_against_payload False g'"
  using assms
  by (auto simp: Verify_context_def Describe_context_def Let_def split: if_splits sum.splits)

text \<open>The verdict and the parse a requester put in its context, replaced by others.\<close>

definition reassert :: "git_context \<Rightarrow> string \<Rightarrow> git_object option \<Rightarrow> bool \<Rightarrow> string \<Rightarrow> git_context" where
  "reassert g ty parsed verified err = g\<lparr>gc_object_type := ty, gc_parsed := parsed,
     gc_verified_against_payload := verified, gc_verification_error := err\<rparr>"

lemma Verify_context_reassert:
  assumes "gc_object g \<noteq> []" "\<not> snd (Verify_context L say (Some g) h d)"
  shows "Verify_context L say (Some (reassert g ty p v e)) h d = Verify_context L say (Some g) h d"
  using assms
  by (auto simp: Verify_context_def Describe_context_def reassert_def Let_def split: if_splits sum.splits)

lemma Verify_context_verdict:
  "snd (Verify_context L say (Some (reassert g ty p v e)) h d) = snd (Verify_context L say (Some g) h d)"
  "map_option gc_verification_error (fst (Verify_context L say (Some (reassert g ty p v e)) h d)) =
   map_option gc_verification_error (fst (Verify_context L say (Some g) h d))"
  by (auto simp: Verify_context_def Describe_context_def reassert_def Let_def split: sum.splits)

lemma get_with_git_context [simp]:
  "get_sshsig (with_git_context req g) = map_option (\<lambda>s. s\<lparr>ss_git_context := g\<rparr>) (get_sshsig req)"
  "ar_kind (with_git_context req g) = ar_kind req"
  "ar_requester (with_git_context req g) = ar_requester req"
  "ar_key (with_git_context req g) = ar_key req"
  "ar_request_id (with_git_context req g) = ar_request_id req"
  "ar_grant_only (with_git_context req g) = ar_grant_only req"
  "ar_local_key (with_git_context req g) = ar_local_key req"
  "get_ssh_auth (with_git_context req g) = get_ssh_auth req"
  by (auto simp: with_git_context_def get_sshsig_def get_ssh_auth_def split: operation.splits)

lemma VerifyRequest_keeps:
  "ar_kind (fst (VerifyRequest L say fb req)) = ar_kind req"
  "ar_requester (fst (VerifyRequest L say fb req)) = ar_requester req"
  "ar_key (fst (VerifyRequest L say fb req)) = ar_key req"
  "ar_request_id (fst (VerifyRequest L say fb req)) = ar_request_id req"
  "ar_grant_only (fst (VerifyRequest L say fb req)) = ar_grant_only req"
  "ar_local_key (fst (VerifyRequest L say fb req)) = ar_local_key req"
  "get_ssh_auth (fst (VerifyRequest L say fb req)) = get_ssh_auth req"
  by (auto simp: VerifyRequest_def split: option.splits prod.splits)

section \<open>Properties\<close>

text \<open>
  nothing of a signed git object is hidden by reading it. The headers, written out with their
  continuation lines, a blank line and the message give back the exact bytes, so the message the
  approver reads is everything after the first blank line.
\<close>

theorem ParseObject_lossless:
  assumes "ParseObject payload = Inr ob"
  shows "\<exists>headers. payload = join [newline] (map header_text headers) @ blank_line @ go_message ob \<and>
           go_subject ob = subjectOf (go_message ob)"
  using ParseObject_message [OF assms] splitObject_lossless by blast

definition sample_commit :: bytes where
  "sample_commit = ''tree 4b825dc'' @ [newline] @ ''author A <a@b> 1 +0200'' @ blank_line @ ''Fix it''"

lemma sample_commit_fields: "Go_Prelude.fields '' 1 +0200'' = [''1'', ''+0200'']"
  by (simp add: Go_Prelude.fields_def fields_from.simps leading_of_def space_encodings_def has_prefix_def)

lemma sample_commit_parses: "\<exists>ob. ParseObject sample_commit = Inr ob"
  by (simp add: sample_commit_def ParseObject_def splitObject_def blank_line_def has_prefix_def cut_def
      space_def applyHeader_def ParseIdentity_def cut_last_def sample_commit_fields
      parse_int64_def digit_value_def empty_git_object_def Let_def)

theorem ParseObject_lossless_witness:
  "\<exists>ob headers. ParseObject sample_commit = Inr ob \<and>
     sample_commit = join [newline] (map header_text headers) @ blank_line @ go_message ob"
proof -
  obtain ob where ob: "ParseObject sample_commit = Inr ob" using sample_commit_parses by blast
  from ParseObject_lossless [OF ob] ob show ?thesis by blast
qed

text \<open>
  C36: a signing request with a git object that passes the check carries this instance's own parse
  of exactly the bytes whose hash the payload signs, and is marked as verified; what the requester
  had put in place of that parse and of the verdict makes no difference to any of it.
\<close>

theorem VerifyRequest_sound:
  assumes "get_sshsig req = Some sig" "ss_git_context sig = Some g" "gc_object g \<noteq> []"
    and "VerifyRequest L say fb req = (req', [])" "fb \<noteq> []"
  shows "\<exists>ob. Hash L (ss_hash_algorithm sig) (gc_object g) = Inr (ss_message_digest sig) \<and>
           ParseObject (gc_object g) = Inr ob \<and>
           get_git_context req' = Some (g\<lparr>gc_verified_against_payload := True,
             gc_verification_error := [], gc_object_type := go_type ob, gc_parsed := Some ob\<rparr>) \<and>
           VerifyRequest L say fb (with_git_context req (Some (reassert g ty p v e))) = (req', [])"
proof -
  let ?V = "Verify_context L say (Some g) (ss_hash_algorithm sig) (ss_message_digest sig)"
  obtain g' failed where V: "?V = (g', failed)" by (cases ?V)
  have nf: "\<not> failed"
    using assms V by (auto simp: VerifyRequest_def split: if_splits)
  then obtain ob where ob: "Hash L (ss_hash_algorithm sig) (gc_object g) = Inr (ss_message_digest sig)"
    "ParseObject (gc_object g) = Inr ob"
    "g' = Some (g\<lparr>gc_verified_against_payload := True, gc_verification_error := [],
                  gc_object_type := go_type ob, gc_parsed := Some ob\<rparr>)"
    using Verify_context_ok [of L say g "ss_hash_algorithm sig" "ss_message_digest sig" g'] V assms(3)
    by auto
  have req': "req' = with_git_context req g'"
    using assms V by (auto simp: VerifyRequest_def)
  have op: "ar_operation req = OpSshsig sig"
    using assms(1) by (auto simp: get_sshsig_def split: operation.splits)
  have again: "with_git_context (with_git_context req x) g' = with_git_context req g'" for x
    by (simp add: with_git_context_def op)
  have "Verify_context L say (Some (reassert g ty p v e)) (ss_hash_algorithm sig) (ss_message_digest sig) = ?V"
    using Verify_context_reassert [OF assms(3)] V nf by simp
  then have "VerifyRequest L say fb (with_git_context req (Some (reassert g ty p v e))) = (req', [])"
    using assms(1) V nf req' again by (simp add: VerifyRequest_def)
  moreover have "get_git_context req' = g'"
    using assms(1) by (simp add: req' get_git_context_def)
  ultimately show ?thesis using ob by blast
qed

definition sample_signing :: approval_request where
  "sample_signing = empty_request\<lparr>ar_kind := REQUEST_KIND_GIT_SIGN,
     ar_operation := OpSshsig \<lparr>ss_namespace = ''git'', ss_hash_algorithm = ''sha512'',
       ss_message_digest = sample_commit,
       ss_git_context = Some (empty_git_context\<lparr>gc_object := sample_commit\<rparr>)\<rparr>\<rparr>"

lemma sample_signing_passes: "snd (VerifyRequest toy_lib say fb sample_signing) = []"
proof -
  obtain ob where "ParseObject sample_commit = Inr ob" using sample_commit_parses by blast
  moreover have "sample_commit \<noteq> []" by (simp add: sample_commit_def)
  ultimately show ?thesis
    by (simp add: VerifyRequest_def sample_signing_def get_sshsig_def Verify_context_def
        Describe_context_def Hash_def toy_lib_def HashSHA512_def empty_git_context_def)
qed

theorem VerifyRequest_sound_witness:
  "\<exists>ob. get_git_context (fst (VerifyRequest toy_lib (\<lambda>_. []) ''bad'' sample_signing)) =
     Some (empty_git_context\<lparr>gc_object := sample_commit, gc_verified_against_payload := True,
       gc_verification_error := [], gc_object_type := go_type ob, gc_parsed := Some ob\<rparr>)"
proof -
  let ?sig = "\<lparr>ss_namespace = ''git'', ss_hash_algorithm = ''sha512'', ss_message_digest = sample_commit,
       ss_git_context = Some (empty_git_context\<lparr>gc_object := sample_commit\<rparr>)\<rparr>"
  have 1: "get_sshsig sample_signing = Some ?sig" by (simp add: sample_signing_def get_sshsig_def)
  have 2: "ss_git_context ?sig = Some (empty_git_context\<lparr>gc_object := sample_commit\<rparr>)" by simp
  have 3: "gc_object (empty_git_context\<lparr>gc_object := sample_commit\<rparr>) \<noteq> []"
    by (simp add: sample_commit_def)
  have 4: "VerifyRequest toy_lib (\<lambda>_. []) ''bad'' sample_signing =
      (fst (VerifyRequest toy_lib (\<lambda>_. []) ''bad'' sample_signing), [])"
    using sample_signing_passes by (metis prod.collapse)
  have 5: "''bad'' \<noteq> []" by simp
  from VerifyRequest_sound [OF 1 2 3 4 5, of "[]" None False "[]"]
  show ?thesis by blast
qed

text \<open>
  a check that fails names its reason and never leaves a context marked as verified, and the
  outcome does not depend on the verdict or the parse the requester sent.
\<close>

theorem VerifyRequest_problem:
  assumes "snd (VerifyRequest L say fb req) \<noteq> []"
  shows "\<not> getf gc_verified_against_payload False (get_git_context (fst (VerifyRequest L say fb req))) \<and>
         snd (VerifyRequest L say fb req) =
           getf gc_verification_error [] (get_git_context (fst (VerifyRequest L say fb req))) \<and>
         (\<forall>g. get_git_context req = Some g \<longrightarrow>
            snd (VerifyRequest L say fb (with_git_context req (Some (reassert g ty p v e)))) =
            snd (VerifyRequest L say fb req))"
proof -
  from assms obtain sig g where sig: "get_sshsig req = Some sig" "ss_git_context sig = Some g"
    by (auto simp: VerifyRequest_def split: option.splits)
  let ?V = "Verify_context L say (Some g) (ss_hash_algorithm sig) (ss_message_digest sig)"
  let ?W = "Verify_context L say (Some (reassert g ty p v e)) (ss_hash_algorithm sig) (ss_message_digest sig)"
  obtain g' failed where V: "?V = (g', failed)" by (cases ?V)
  with assms sig have f: failed by (auto simp: VerifyRequest_def split: if_splits)
  with V have bad: "getf gc_verification_error [] g' \<noteq> []" "\<not> getf gc_verified_against_payload False g'"
    using Verify_context_failed [of L say g _ _ g'] by auto
  obtain h' where W: "?W = (h', True)"
    using Verify_context_verdict(1) [of L say g] V f by (metis prod.collapse snd_conv)
  have "map_option gc_verification_error h' = map_option gc_verification_error g'"
    using Verify_context_verdict(2) [of L say g ty p v e "ss_hash_algorithm sig" "ss_message_digest sig"] V W by simp
  then have "getf gc_verification_error [] h' = getf gc_verification_error [] g'"
    by (cases h'; cases g') auto
  then show ?thesis
    using sig V W f bad by (simp add: VerifyRequest_def get_git_context_def)
qed

theorem VerifyRequest_problem_witness:
  "\<not> getf gc_verified_against_payload False (get_git_context (fst (VerifyRequest toy_lib (\<lambda>_. []) ''bad''
       (sample_signing\<lparr>ar_operation := OpSshsig \<lparr>ss_namespace = ''git'', ss_hash_algorithm = [],
          ss_message_digest = ''d'', ss_git_context = Some (empty_git_context\<lparr>gc_object := ''x''\<rparr>)\<rparr>\<rparr>))))"
  (is "\<not> getf _ _ (get_git_context (fst (?V ?req)))")
proof -
  have "snd (?V ?req) = mismatch_text"
    by (simp add: VerifyRequest_def get_sshsig_def Verify_context_def Hash_def toy_lib_def empty_git_context_def)
  then have "snd (?V ?req) \<noteq> []" by simp
  from VerifyRequest_problem [OF this, of "[]" None False "[]"] show ?thesis by (rule conjunct1)
qed

end
