(* ===== verification/Engine.thy ===== *)
theory Engine
  imports Vault_Peers Identity Gitctx "HOL-Library.State_Monad"
begin

text \<open>
  The approval engine's state and everything it does short of deciding: who is asked
  (\<^verbatim>\<open>src/pkg/approval/engine.go\<close>, \<^verbatim>\<open>inflight.go\<close>), which standing promise covers a request, and how a
  promise is made, handed over or endorsed (\<^verbatim>\<open>delegations.go\<close>, \<^verbatim>\<open>endorsements.go\<close>, \<^verbatim>\<open>grants.go\<close>).

  The code threads one engine through many calls, so an operation is a state transformer of
  \<open>HOL-Library.State_Monad\<close> over the record \<open>Engine\<close>. What the surroundings decide is part of that
  state as a supply: the readings of the clock, the outcomes of the store's writes, the random
  identifiers and whether the audit file could be written, each used up in order. The engine's
  stores are all the vault; \<open>e_has_grants\<close> and its fellows say which of them were given to it.
\<close>

section \<open>Handlers, answers and requests\<close>

datatype Origin = OriginLocal | OriginPeer | OriginPeerSigning

text \<open>
  An approver: \<open>h_token\<close> is its identity as an interface value, \<open>h_peer\<close> is there for a
  \<^verbatim>\<open>RemoteHandler\<close>, \<open>h_local_prompt\<close> marks a \<^verbatim>\<open>LocalPrompt\<close> and \<open>h_notifier\<close> a \<^verbatim>\<open>Notifier\<close>.
\<close>

record Handler =
  h_token :: nat
  h_id :: string
  h_peer :: "string option"
  h_local_prompt :: bool
  h_notifier :: bool

definition is_remote :: "Handler \<Rightarrow> bool" where
  "is_remote h \<longleftrightarrow> h_peer h \<noteq> None"

record Answer =
  an_decision :: decision
  an_reason :: string
  an_grant_ttl :: duration
  an_grant_reach :: GrantReach
  an_approver :: "approver_info option"
  an_source :: decision_source
  an_signed :: "signed_artifact option"

record Request =
  rq_msg :: approval_request
  rq_prompt :: prompt
  rq_grant_ttls :: "duration list"
  rq_grant_max_ttl :: duration
  rq_grant_subject :: string
  rq_grant_machine :: string
  rq_origin :: Origin
  rq_body :: bytes
  rq_display :: bytes

record presented_project =
  pj_peer_fingerprint :: string
  pj_project_id :: string
  pj_name :: string
  pj_note :: string
  pj_stale :: bool
  pj_known :: bool

datatype audit_event =
    AUDIT_EVENT_UNSPECIFIED | AUDIT_EVENT_REQUEST | AUDIT_EVENT_DECISION | AUDIT_EVENT_SIGNATURE
  | AUDIT_EVENT_ERROR | AUDIT_EVENT_GRANT | AUDIT_EVENT_LIFECYCLE | AUDIT_EVENT_KEY_TRANSFER
  | AUDIT_EVENT_KEY_LOCAL | AUDIT_EVENT_UNKNOWN int

record audit_entry =
  ae_entry_id :: string
  ae_timestamp :: timestamp
  ae_event :: audit_event
  ae_request_id :: string
  ae_request :: "approval_request option"
  ae_response :: "approval_response option"
  ae_signed_approval :: "signed_artifact option"
  ae_remote_approval :: "signed_artifact option"
  ae_prompt_shown :: string
  ae_project_shown :: "presented_project option"
  ae_detail :: string
  ae_error :: string
  ae_key_fingerprint :: string
  ae_grant :: "grant option"
  ae_process :: "client_process option"

definition entry_of :: "audit_event \<Rightarrow> string \<Rightarrow> audit_entry" where
  "entry_of ev rid = \<lparr>ae_entry_id = [], ae_timestamp = None, ae_event = ev, ae_request_id = rid,
     ae_request = None, ae_response = None, ae_signed_approval = None, ae_remote_approval = None,
     ae_prompt_shown = [], ae_project_shown = None, ae_detail = [], ae_error = [],
     ae_key_fingerprint = [], ae_grant = None, ae_process = None\<rparr>"

section \<open>The engine\<close>

text \<open>What the engine calls and this library does not define: fixed for a run.\<close>

record env =
  x_lower :: "rune \<Rightarrow> rune"
  x_formats :: formats
  x_ssh :: ssh_lib
  x_say :: "problem \<Rightarrow> string"
  x_fallback :: string
  x_request :: "approval_request \<Rightarrow> string + bytes"
  x_response :: "approval_response proto_codec"
  x_delegation :: "delegation proto_codec"
  x_endorsement :: "endorsement proto_codec"

record Engine =
  e_identity :: Identity
  e_vault :: vault
  e_has_grants :: bool
  e_has_delegations :: bool
  e_has_endorsements :: bool
  e_has_grant_uses :: bool
  e_key_signer :: "(string \<Rightarrow> string + ssh_signer) option"
  e_report_use :: bool
  e_renew :: "(string \<Rightarrow> signed_artifact \<Rightarrow> string option) option"
  e_publish :: bool
  e_has_audit :: bool
  e_policy :: policy_document
  e_handlers :: "Handler list"
  e_softLocked :: bool
  e_clock :: "nat \<Rightarrow> time"
  e_saves :: "nat \<Rightarrow> save_result"
  e_ids :: "nat \<Rightarrow> string"
  e_appends :: "nat \<Rightarrow> bool"
  e_audit :: "audit_entry list"
  e_notified :: "(nat \<times> approval_request \<times> approval_response) list"
  e_reported :: "string list"
  e_renewed :: "(string \<times> signed_artifact) list"
  e_published :: "signed_artifact list"

type_synonym 'a eng = "(Engine, 'a) state"

definition rest_of :: "(nat \<Rightarrow> 'a) \<Rightarrow> nat \<Rightarrow> 'a" where
  "rest_of s n = s (Suc n)"

definition now_e :: "time eng" where
  "now_e = State (\<lambda>e. (e_clock e 0, e\<lparr>e_clock := rest_of (e_clock e)\<rparr>))"

definition NewRequestID :: "string eng" where
  "NewRequestID = State (\<lambda>e. (e_ids e 0, e\<lparr>e_ids := rest_of (e_ids e)\<rparr>))"

text \<open>One call into the vault: it consumes the outcome of the write it may make.\<close>

definition on_vault :: "(save_result \<Rightarrow> vault \<Rightarrow> vault \<times> 'a) \<Rightarrow> 'a eng" where
  "on_vault f = State (\<lambda>e. case f (e_saves e 0) (e_vault e) of
     (v, r) \<Rightarrow> (r, e\<lparr>e_vault := v, e_saves := rest_of (e_saves e)\<rparr>))"

definition on_vault_at :: "(save_result \<Rightarrow> time \<Rightarrow> vault \<Rightarrow> vault \<times> 'a) \<Rightarrow> 'a eng" where
  "on_vault_at f = do { t \<leftarrow> now_e; on_vault (\<lambda>sv. f sv t) }"

definition asks :: "(Engine \<Rightarrow> 'a) \<Rightarrow> 'a eng" where
  "asks f = State (\<lambda>e. (f e, e))"

definition modify :: "(Engine \<Rightarrow> Engine) \<Rightarrow> unit eng" where
  "modify f = State (\<lambda>e. ((), f e))"

text \<open>\<^verbatim>\<open>AuditLog.Append\<close> through \<^verbatim>\<open>logEntry\<close>: a missing log takes nothing, a failed write is only logged.\<close>

definition logEntry :: "audit_entry \<Rightarrow> unit eng" where
  "logEntry entry = do {
     has \<leftarrow> asks e_has_audit;
     if \<not> has then State_Monad.return ()
     else do {
       i \<leftarrow> (if ae_entry_id entry = [] then NewRequestID else State_Monad.return (ae_entry_id entry));
       t \<leftarrow> (if ae_timestamp entry = None then now_e else State_Monad.return (as_time (ae_timestamp entry)));
       modify (\<lambda>e. e\<lparr>e_appends := rest_of (e_appends e),
         e_audit := (if e_appends e 0
                     then e_audit e @ [entry\<lparr>ae_entry_id := i, ae_timestamp := Some t\<rparr>]
                     else e_audit e)\<rparr>)
     }
   }"

section \<open>Who is asked\<close>

definition mayAnswerLocked :: "Engine \<Rightarrow> Handler \<Rightarrow> Origin \<Rightarrow> bool" where
  "mayAnswerLocked e h origin =
     (if is_remote h \<and> origin \<noteq> OriginLocal then False
      else if h_local_prompt h \<and> e_softLocked e then False
      else True)"

definition eligible :: "Engine \<Rightarrow> Origin \<Rightarrow> Handler list" where
  "eligible e origin = filter (\<lambda>h. mayAnswerLocked e h origin) (e_handlers e)"

definition HasLocalApprover :: "Engine \<Rightarrow> bool" where
  "HasLocalApprover e =
     (if e_softLocked e then False else list_ex (\<lambda>h. \<not> is_remote h) (e_handlers e))"

definition Register :: "Handler \<Rightarrow> Engine \<Rightarrow> Engine" where
  "Register h e = e\<lparr>e_handlers := e_handlers e @ [h]\<rparr>"

fun remove_token :: "nat \<Rightarrow> Handler list \<Rightarrow> Handler list" where
  "remove_token t [] = []"
| "remove_token t (h # hs) = (if h_token h = t then hs else h # remove_token t hs)"

definition Unregister :: "Handler \<Rightarrow> Engine \<Rightarrow> Engine" where
  "Unregister h e = e\<lparr>e_handlers := remove_token (h_token h) (e_handlers e)\<rparr>"

definition SuspendLocalPrompts :: "bool \<Rightarrow> Engine \<Rightarrow> Engine" where
  "SuspendLocalPrompts suspended e = e\<lparr>e_softLocked := suspended\<rparr>"

definition SetPolicy :: "policy_document \<Rightarrow> Engine \<Rightarrow> Engine" where
  "SetPolicy p e = e\<lparr>e_policy := p\<rparr>"

definition declined :: "Handler \<Rightarrow> Answer option \<Rightarrow> bool" where
  "declined h answer =
     (if \<not> is_remote h then False
      else case answer of
          None \<Rightarrow> False
        | Some a \<Rightarrow> an_decision a \<noteq> DECISION_APPROVE \<and> an_source a = DECISION_SOURCE_NO_APPROVER)"

definition notify_response :: "Request \<Rightarrow> approval_response \<Rightarrow> unit eng" where
  "notify_response req resp =
     (if \<not> rs_notify_only resp then State_Monad.return ()
      else modify (\<lambda>e. e\<lparr>e_notified := e_notified e @
             map (\<lambda>h. (h_token h, rq_msg req, resp)) (filter h_notifier (e_handlers e))\<rparr>))"

section \<open>Responses\<close>

definition approve :: "decision_source \<Rightarrow> string \<Rightarrow> approval_response" where
  "approve source reason = empty_response\<lparr>rs_decision := DECISION_APPROVE, rs_source := source,
     rs_reason := reason\<rparr>"

definition deny :: "decision_source \<Rightarrow> string \<Rightarrow> approval_response" where
  "deny source reason = empty_response\<lparr>rs_decision := DECISION_DENY, rs_source := source,
     rs_reason := reason\<rparr>"

definition grantable :: "request_kind \<Rightarrow> bool" where
  "grantable kind \<longleftrightarrow> kind \<noteq> REQUEST_KIND_PAIRING \<and> kind \<noteq> REQUEST_KIND_KEY_LIST"

definition parkedBySession :: "Engine \<Rightarrow> Request \<Rightarrow> bool" where
  "parkedBySession e req =
     (case ar_local_key (rq_msg req) of
        None \<Rightarrow> False
      | Some parked \<Rightarrow>
          if rq_origin req \<noteq> OriginLocal then False
          else if e_softLocked e then False
          else SameSession (lk_added_by parked) (requester_process (rq_msg req)))"

section \<open>Which promise covers a request\<close>

definition matchGrant :: "approval_request \<Rightarrow> grant option eng" where
  "matchGrant msg = do {
     has \<leftarrow> asks e_has_grants;
     if \<not> has then State_Monad.return None
     else do {
       r \<leftarrow> on_vault_at Grants;
       case r of
         Inl err \<Rightarrow> State_Monad.return None
       | Inr gs \<Rightarrow> do { t \<leftarrow> now_e; State_Monad.return (findGrant gs msg t) }
     }
   }"

definition findDelegation :: "delegation list \<Rightarrow> approval_request \<Rightarrow> time \<Rightarrow> delegation option" where
  "findDelegation held msg now =
     find (\<lambda>d. now < as_time (dg_expires_at d) \<and> covers (dg_scope d) msg) held"

definition matchDelegation :: "approval_request \<Rightarrow> delegation option eng" where
  "matchDelegation msg = do {
     has \<leftarrow> asks e_has_delegations;
     if \<not> has then State_Monad.return None
     else do {
       r \<leftarrow> on_vault_at UsableDelegations;
       case r of
         Inl err \<Rightarrow> State_Monad.return None
       | Inr held \<Rightarrow> do { t \<leftarrow> now_e; State_Monad.return (findDelegation held msg t) }
     }
   }"

definition find_endorsement ::
    "endorsement list \<Rightarrow> approval_request \<Rightarrow> time \<Rightarrow> duration \<Rightarrow> endorsement option" where
  "find_endorsement held msg now maxTTL =
     find (\<lambda>en. en_requester_fingerprint en = requester_id msg \<and>
                now < as_time (en_expires_at en) \<and> as_time (en_expires_at en) \<le> now + maxTTL \<and>
                covers (en_scope en) msg) held"

definition matchEndorsement :: "Request \<Rightarrow> policy_document \<Rightarrow> endorsement option eng" where
  "matchEndorsement req policy = do {
     has \<leftarrow> asks e_has_endorsements;
     if \<not> has then State_Monad.return None
     else if requester_id (rq_msg req) = [] then State_Monad.return None
     else do {
       r \<leftarrow> on_vault_at UsableEndorsements;
       case r of
         Inl err \<Rightarrow> State_Monad.return None
       | Inr held \<Rightarrow> do {
           t \<leftarrow> now_e;
           State_Monad.return (find_endorsement held (rq_msg req) t (MaxGrantTTL policy))
         }
     }
   }"

section \<open>Accounts of what a promise covered\<close>

definition grantUse :: "env \<Rightarrow> string \<Rightarrow> approval_request \<Rightarrow> grant_use eng" where
  "grantUse X gid msg = do {
     t \<leftarrow> now_e;
     State_Monad.return \<lparr>gu_grant_id = gid, gu_request_id = ar_request_id msg, gu_used_at = Some t, gu_reported_at = None,
       gu_kind = ar_kind msg, gu_subject = p_subject (RenderPrompt (x_formats X) msg)\<rparr>
   }"

definition report_to :: "string \<Rightarrow> unit eng" where
  "report_to peer = modify (\<lambda>e. if e_report_use e then e\<lparr>e_reported := e_reported e @ [peer]\<rparr> else e)"

definition recordDelegatedUse :: "env \<Rightarrow> approval_request \<Rightarrow> delegation \<Rightarrow> unit eng" where
  "recordDelegatedUse X msg d = do {
     use \<leftarrow> grantUse X (dg_delegation_id d) msg;
     r \<leftarrow> on_vault (\<lambda>sv. RecordDelegationUse sv use);
     case r of
       Inl err \<Rightarrow> State_Monad.return ()
     | Inr _ \<Rightarrow> report_to (dg_approver_fingerprint d)
   }"

definition recordOwnUse :: "env \<Rightarrow> string \<Rightarrow> approval_request \<Rightarrow> unit eng" where
  "recordOwnUse X gid msg = do {
     has \<leftarrow> asks e_has_grant_uses;
     if \<not> has then State_Monad.return ()
     else do {
       use \<leftarrow> grantUse X gid msg;
       _ \<leftarrow> on_vault (\<lambda>sv. RecordGrantUses sv [use]);
       State_Monad.return ()
     }
   }"

definition recordEndorsedUse :: "env \<Rightarrow> approval_request \<Rightarrow> endorsement \<Rightarrow> unit eng" where
  "recordEndorsedUse X msg en = do {
     has \<leftarrow> asks e_has_endorsements;
     if \<not> has then State_Monad.return ()
     else do {
       use \<leftarrow> grantUse X (en_endorsement_id en) msg;
       r \<leftarrow> on_vault (\<lambda>sv. RecordEndorsementUse sv use);
       case r of
         Inl err \<Rightarrow> State_Monad.return ()
       | Inr _ \<Rightarrow> report_to (en_issuer_fingerprint en)
     }
   }"

section \<open>Making a promise\<close>

definition createGrant ::
    "env \<Rightarrow> approval_request \<Rightarrow> duration \<Rightarrow> GrantReach \<Rightarrow> grant option eng" where
  "createGrant X msg ttl reach = do {
     has \<leftarrow> asks e_has_grants;
     if \<not> has then State_Monad.return None
     else do {
       t \<leftarrow> now_e;
       i \<leftarrow> NewRequestID;
       let g = newGrant i msg ttl reach t;
       r \<leftarrow> on_vault (\<lambda>sv. AddGrant sv g);
       case r of
         Inl err \<Rightarrow> State_Monad.return None
       | Inr _ \<Rightarrow> do {
           logEntry ((entry_of AUDIT_EVENT_GRANT (ar_request_id msg))\<lparr>ae_grant := Some g,
             ae_detail := gr_description g\<rparr>);
           (if \<not> ar_grant_only msg then recordOwnUse X i msg else State_Monad.return ());
           State_Monad.return (Some g)
         }
     }
   }"

definition new_delegation ::
    "env \<Rightarrow> Identity \<Rightarrow> string \<Rightarrow> approval_request \<Rightarrow> duration \<Rightarrow> GrantReach \<Rightarrow> time \<Rightarrow> delegation" where
  "new_delegation X ident i msg ttl reach now =
     (let scope = grantScopeFor msg reach; promise = GrantPromise msg reach
      in \<lparr>dg_delegation_id = i, dg_scope = scope, dg_created_at = Some now,
          dg_expires_at = Some (now + ttl), dg_origin_request_id = ar_request_id msg,
          dg_description = DescribeScope scope promise ttl,
          dg_approver_fingerprint = Fingerprint (x_ssh X) ident, dg_approver_name = id_name ident,
          dg_requester_fingerprint = requester_id msg\<rparr>)"

definition requester_name :: "approval_request \<Rightarrow> string" where
  "requester_name msg = getf ri_name [] (ar_requester msg)"

definition delegated_grant :: "delegation \<Rightarrow> approval_request \<Rightarrow> GrantReach \<Rightarrow> grant" where
  "delegated_grant d msg reach = empty_grant\<lparr>gr_grant_id := dg_delegation_id d, gr_scope := dg_scope d,
     gr_created_at := dg_created_at d, gr_expires_at := dg_expires_at d,
     gr_origin_request_id := ar_request_id msg, gr_description := dg_description d,
     gr_promise_subject := GrantPromise msg reach, gr_delegated := True,
     gr_delegate_fingerprint := requester_id msg, gr_delegate_name := requester_name msg\<rparr>"

definition delegated_to_text :: string where "delegated_to_text = ''delegated to ''"

definition delegate ::
    "env \<Rightarrow> approval_request \<Rightarrow> duration \<Rightarrow> GrantReach \<Rightarrow> (signed_artifact option \<times> grant option) eng" where
  "delegate X msg ttl reach = do {
     t \<leftarrow> now_e;
     i \<leftarrow> NewRequestID;
     ident \<leftarrow> asks e_identity;
     let d = new_delegation X ident i msg ttl reach t;
     case SignDelegation (x_ssh X) (x_delegation X) ident (Some d) of
       Inl err \<Rightarrow> State_Monad.return (None, None)
     | Inr signed_d \<Rightarrow> do {
         has \<leftarrow> asks e_has_grants;
         if \<not> has then State_Monad.return (Some signed_d, None)
         else do {
           let g = delegated_grant d msg reach;
           r \<leftarrow> on_vault (\<lambda>sv. AddGrant sv g);
           case r of
             Inl err \<Rightarrow> State_Monad.return (Some signed_d, None)
           | Inr _ \<Rightarrow> do {
               logEntry ((entry_of AUDIT_EVENT_GRANT (ar_request_id msg))\<lparr>ae_grant := Some g,
                 ae_detail := delegated_to_text @ requester_name msg\<rparr>);
               (if \<not> ar_grant_only msg then recordOwnUse X i msg else State_Monad.return ());
               State_Monad.return (Some signed_d, Some g)
             }
         }
       }
   }"

definition shouldDelegate :: "Request \<Rightarrow> bool" where
  "shouldDelegate req =
     (if rq_origin req \<noteq> OriginPeer then False else requester_id (rq_msg req) \<noteq> [])"

definition shouldEndorse :: "Engine \<Rightarrow> Request \<Rightarrow> bool" where
  "shouldEndorse e req =
     (if rq_origin req \<noteq> OriginPeerSigning then False
      else if e_key_signer e = None then False
      else requester_id (rq_msg req) \<noteq> [])"

definition new_endorsement :: "env \<Rightarrow> Identity \<Rightarrow> approval_request \<Rightarrow> grant \<Rightarrow> endorsement" where
  "new_endorsement X ident msg g =
     \<lparr>en_endorsement_id = gr_grant_id g, en_scope = gr_scope g, en_created_at = gr_created_at g,
      en_expires_at = gr_expires_at g, en_origin_request_id = gr_origin_request_id g,
      en_description = gr_description g, en_issuer_fingerprint = Fingerprint (x_ssh X) ident,
      en_issuer_name = id_name ident, en_requester_fingerprint = requester_id msg,
      en_requester_name = requester_name msg,
      en_key_fingerprint = gs_key_fingerprint (gr_scope g)\<rparr>"

text \<open>The grant is amended in place, so it is returned beside the artifact.\<close>

definition endorse ::
    "env \<Rightarrow> approval_request \<Rightarrow> grant option \<Rightarrow> (signed_artifact option \<times> grant option) eng" where
  "endorse X msg grant = do {
     ident \<leftarrow> asks e_identity;
     signer_of \<leftarrow> asks e_key_signer;
     case (grant, signer_of) of
       (Some g, Some portable) \<Rightarrow>
         (case portable (gs_key_fingerprint (gr_scope g)) of
            Inl err \<Rightarrow> State_Monad.return (None, grant)
          | Inr signer \<Rightarrow>
              (case SignEndorsement (x_ssh X) (x_endorsement X) ident
                      (Some (new_endorsement X ident msg g)) (Some signer) of
                 Inl err \<Rightarrow> State_Monad.return (None, grant)
               | Inr signed_e \<Rightarrow> do {
                   let g' = g\<lparr>gr_endorsed := True\<rparr>;
                   _ \<leftarrow> on_vault (\<lambda>sv. ReplaceGrant sv g');
                   modify (\<lambda>e. if e_publish e then e\<lparr>e_published := e_published e @ [signed_e]\<rparr> else e);
                   State_Monad.return (Some signed_e, Some g')
                 }))
     | _ \<Rightarrow> State_Monad.return (None, grant)
   }"

definition nothing_text :: string where "nothing_text = ''the approver returned nothing''"
definition needs_length_text :: string where
  "needs_length_text = ''a grant request can only be approved for a length of time''"
definition answered_by_text :: string where "answered_by_text = ''answered by ''"

definition answerToResponse ::
    "env \<Rightarrow> Request \<Rightarrow> Handler \<Rightarrow> Answer option \<Rightarrow> (approval_response \<times> signed_artifact option) eng" where
  "answerToResponse X req handler answer =
     (case answer of
        None \<Rightarrow> State_Monad.return (deny DECISION_SOURCE_ERROR nothing_text, None)
      | Some a \<Rightarrow>
          (let reason = (if an_reason a = [] then answered_by_text @ h_id handler else an_reason a);
               source = (if an_source a = DECISION_SOURCE_UNSPECIFIED then DECISION_SOURCE_USER
                         else an_source a)
           in if an_decision a \<noteq> DECISION_APPROVE
              then State_Monad.return ((deny source reason)\<lparr>rs_approver := an_approver a\<rparr>, an_signed a)
              else if ar_grant_only (rq_msg req) \<and> an_grant_ttl a \<le> 0
              then State_Monad.return (deny DECISION_SOURCE_ERROR needs_length_text, None)
              else do {
                let resp = (approve source reason)\<lparr>rs_approver := an_approver a\<rparr>;
                resp' \<leftarrow>
                  (if 0 < an_grant_ttl a \<and> 0 < rq_grant_max_ttl req
                   then (if shouldDelegate req
                         then do {
                           (d, g) \<leftarrow> delegate X (rq_msg req) (an_grant_ttl a) (an_grant_reach a);
                           State_Monad.return (resp\<lparr>rs_delegation := d, rs_grant := g\<rparr>)
                         }
                         else do {
                           g \<leftarrow> createGrant X (rq_msg req) (an_grant_ttl a) (an_grant_reach a);
                           yes \<leftarrow> asks (\<lambda>e. shouldEndorse e req);
                           if yes then do {
                             (en, g') \<leftarrow> endorse X (rq_msg req) g;
                             State_Monad.return (resp\<lparr>rs_grant := g', rs_endorsement := en\<rparr>)
                           }
                           else State_Monad.return (resp\<lparr>rs_grant := g\<rparr>)
                         })
                   else State_Monad.return resp);
                State_Monad.return (resp', an_signed a)
              }))"

section \<open>Extending a promise\<close>

datatype extend_error =
    KeepsNoGrants
  | CannotReadGrants vault_error
  | NoLiveGrant string
  | PendingRevocation
  | GrantTooShort
  | GrantTooLong duration
  | ExtensionNotSigned identity_error
  | NoWayToHolder
  | NotHandedOver string
  | NotStored vault_error

definition extended_delegation :: "env \<Rightarrow> Identity \<Rightarrow> grant \<Rightarrow> grant \<Rightarrow> delegation" where
  "extended_delegation X ident g amended =
     \<lparr>dg_delegation_id = gr_grant_id g, dg_scope = gr_scope g, dg_created_at = gr_created_at g,
      dg_expires_at = gr_expires_at amended, dg_origin_request_id = gr_origin_request_id g,
      dg_description = gr_description amended,
      dg_approver_fingerprint = Fingerprint (x_ssh X) ident, dg_approver_name = id_name ident,
      dg_requester_fingerprint = gr_delegate_fingerprint g\<rparr>"

definition extendPromise ::
    "env \<Rightarrow> Identity \<Rightarrow> grant \<Rightarrow> duration \<Rightarrow> duration \<Rightarrow> time \<Rightarrow> extend_error + grant \<times> signed_artifact option" where
  "extendPromise X ident g extra mx now =
     (if extra < minute then Inl GrantTooShort
      else if 0 < mx \<and> mx < extra then Inl (GrantTooLong mx)
      else let amended = extendedGrant g extra now
        in if \<not> gr_delegated g then Inr (amended, None)
           else case SignDelegation (x_ssh X) (x_delegation X) ident
                       (Some (extended_delegation X ident g amended)) of
               Inl err \<Rightarrow> Inl (ExtensionNotSigned err)
             | Inr s \<Rightarrow> Inr (amended, Some s))"

text \<open>The first entry of that identifier decides, and only if it still runs.\<close>

definition live_grant :: "grant list \<Rightarrow> string \<Rightarrow> time \<Rightarrow> grant option" where
  "live_grant gs gid now =
     (case find (\<lambda>g. gr_grant_id g = gid) gs of
        None \<Rightarrow> None
      | Some g \<Rightarrow> if now < as_time (gr_expires_at g) then Some g else None)"

definition deliver_extension :: "grant \<Rightarrow> signed_artifact option \<Rightarrow> (extend_error + unit) eng" where
  "deliver_extension g artifact =
     (case artifact of
        None \<Rightarrow> State_Monad.return (Inr ())
      | Some s \<Rightarrow> do {
          renew \<leftarrow> asks e_renew;
          case renew of
            None \<Rightarrow> State_Monad.return (Inl NoWayToHolder)
          | Some f \<Rightarrow> do {
              modify (\<lambda>e. e\<lparr>e_renewed := e_renewed e @ [(gr_delegate_fingerprint g, s)]\<rparr>);
              State_Monad.return (case f (gr_delegate_fingerprint g) s of
                 None \<Rightarrow> Inr () | Some err \<Rightarrow> Inl (NotHandedOver err))
            }
        })"

definition extended_text :: "duration \<Rightarrow> string" where
  "extended_text extra = ''extended to run for '' @ HumanDuration extra @ '' from now''"

definition store_extension :: "grant \<Rightarrow> grant \<Rightarrow> duration \<Rightarrow> (extend_error + grant) eng" where
  "store_extension g amended extra = do {
     stored \<leftarrow> on_vault (\<lambda>sv. ReplaceGrant sv amended);
     case stored of
       Inl err \<Rightarrow> State_Monad.return (Inl (NotStored err))
     | Inr _ \<Rightarrow> do {
         logEntry ((entry_of AUDIT_EVENT_GRANT (gr_origin_request_id g))\<lparr>
           ae_grant := Some amended, ae_detail := extended_text extra\<rparr>);
         State_Monad.return (Inr amended)
       }
   }"

definition ExtendGrant :: "env \<Rightarrow> string \<Rightarrow> duration \<Rightarrow> (extend_error + grant) eng" where
  "ExtendGrant X gid extra = do {
     has \<leftarrow> asks e_has_grants;
     if \<not> has then State_Monad.return (Inl KeepsNoGrants)
     else do {
       r \<leftarrow> on_vault_at Grants;
       case r of
         Inl err \<Rightarrow> State_Monad.return (Inl (CannotReadGrants err))
       | Inr gs \<Rightarrow> do {
           t \<leftarrow> now_e;
           case live_grant gs gid t of
             None \<Rightarrow> State_Monad.return (Inl (NoLiveGrant gid))
           | Some g \<Rightarrow>
               if gr_revoke_pending g then State_Monad.return (Inl PendingRevocation)
               else do {
                 ident \<leftarrow> asks e_identity;
                 policy \<leftarrow> asks e_policy;
                 case extendPromise X ident g extra (MaxGrantTTL policy) t of
                   Inl err \<Rightarrow> State_Monad.return (Inl err)
                 | Inr (amended, artifact) \<Rightarrow> do {
                     delivered \<leftarrow> deliver_extension g artifact;
                     case delivered of
                       Inl err \<Rightarrow> State_Monad.return (Inl err)
                     | Inr _ \<Rightarrow> store_extension g amended extra
                   }
               }
         }
     }
   }"

definition RememberUntil :: "time \<Rightarrow> duration \<Rightarrow> timestamp" where
  "RememberUntil target maxTTL = Some (target + maxTTL)"

section \<open>Records of things that happened elsewhere\<close>

definition kind_string :: "request_kind \<Rightarrow> string" where
  "kind_string k = (case k of
       REQUEST_KIND_UNSPECIFIED \<Rightarrow> ''REQUEST_KIND_UNSPECIFIED''
     | REQUEST_KIND_SSH_AUTH \<Rightarrow> ''REQUEST_KIND_SSH_AUTH''
     | REQUEST_KIND_GIT_SIGN \<Rightarrow> ''REQUEST_KIND_GIT_SIGN''
     | REQUEST_KIND_SSHSIG \<Rightarrow> ''REQUEST_KIND_SSHSIG''
     | REQUEST_KIND_OPAQUE_SIGN \<Rightarrow> ''REQUEST_KIND_OPAQUE_SIGN''
     | REQUEST_KIND_KEY_LIST \<Rightarrow> ''REQUEST_KIND_KEY_LIST''
     | REQUEST_KIND_PAIRING \<Rightarrow> ''REQUEST_KIND_PAIRING''
     | REQUEST_KIND_UNKNOWN n \<Rightarrow> int_str n)"

definition Signed :: "approval_request \<Rightarrow> key_ref option \<Rightarrow> unit eng" where
  "Signed msg key = logEntry ((entry_of AUDIT_EVENT_SIGNATURE (ar_request_id msg))\<lparr>
     ae_key_fingerprint := getf kr_fingerprint [] key, ae_detail := kind_string (ar_kind msg)\<rparr>)"

definition Delegated ::
    "env \<Rightarrow> approval_request \<Rightarrow> approval_response \<Rightarrow> signed_artifact option \<Rightarrow> unit eng" where
  "Delegated X msg resp remote = do {
     logEntry ((entry_of AUDIT_EVENT_REQUEST (ar_request_id msg))\<lparr>ae_request := Some msg\<rparr>);
     ident \<leftarrow> asks e_identity;
     let s = (case SignApproval (x_ssh X) (x_response X) ident (Some resp) of
                Inl _ \<Rightarrow> None | Inr a \<Rightarrow> Some a);
     logEntry ((entry_of AUDIT_EVENT_DECISION (ar_request_id msg))\<lparr>ae_request := Some msg,
       ae_response := Some resp, ae_signed_approval := s, ae_remote_approval := remote,
       ae_prompt_shown := Text (RenderPrompt (x_formats X) msg)\<rparr>)
   }"

definition LogLifecycle :: "string \<Rightarrow> unit eng" where
  "LogLifecycle detail = logEntry ((entry_of AUDIT_EVENT_LIFECYCLE [])\<lparr>ae_detail := detail\<rparr>)"

definition LogKeyTransfer :: "string \<Rightarrow> string \<Rightarrow> unit eng" where
  "LogKeyTransfer detail fp = logEntry ((entry_of AUDIT_EVENT_KEY_TRANSFER [])\<lparr>ae_detail := detail,
     ae_key_fingerprint := fp\<rparr>)"

section \<open>Running the operations\<close>

lemma run_primitives [simp]:
  "run_state now_e e = (e_clock e 0, e\<lparr>e_clock := rest_of (e_clock e)\<rparr>)"
  "run_state NewRequestID e = (e_ids e 0, e\<lparr>e_ids := rest_of (e_ids e)\<rparr>)"
  "run_state (asks f) e = (f e, e)"
  "run_state (modify g) e = ((), g e)"
  by (simp_all add: now_e_def NewRequestID_def asks_def modify_def)

lemma run_on_vault:
  "run_state (on_vault f) e =
     (snd (f (e_saves e 0) (e_vault e)),
      e\<lparr>e_vault := fst (f (e_saves e 0) (e_vault e)), e_saves := rest_of (e_saves e)\<rparr>)"
  by (simp add: on_vault_def split: prod.split)

lemma mayAnswer_iff:
  "mayAnswerLocked e h origin \<longleftrightarrow>
     (is_remote h \<longrightarrow> origin = OriginLocal) \<and> (h_local_prompt h \<longrightarrow> \<not> e_softLocked e)"
  by (auto simp: mayAnswerLocked_def)

lemma response_simps [simp]:
  "rs_decision (approve src why) = DECISION_APPROVE" "rs_decision (deny src why) = DECISION_DENY"
  "rs_source (approve src why) = src" "rs_source (deny src why) = src"
  "rs_reason (approve src why) = why" "rs_reason (deny src why) = why"
  "rs_grant (approve src why) = None" "rs_grant (deny src why) = None"
  "rs_delegation (approve src why) = None" "rs_delegation (deny src why) = None"
  "rs_endorsement (approve src why) = None" "rs_endorsement (deny src why) = None"
  "rs_approver (approve src why) = None" "rs_approver (deny src why) = None"
  "rs_decided_at (approve src why) = None" "rs_decided_at (deny src why) = None"
  "rs_notify_only (approve src why) = False" "rs_notify_only (deny src why) = False"
  by (simp_all add: approve_def deny_def empty_response_def)

section \<open>A small engine\<close>

text \<open>An engine over the sample library with one approver at its screen, for concrete runs.\<close>

definition demo_env :: env where
  "demo_env = \<lparr>x_lower = id,
     x_formats = \<lparr>fm_quote = id, fm_datetime = (\<lambda>_. []), fm_local_rfc1123 = (\<lambda>_. [])\<rparr>,
     x_ssh = toy_lib, x_say = (\<lambda>_. []), x_fallback = ''bad'', x_request = (\<lambda>_. Inr ''R''),
     x_response = \<lparr>pc_marshal = (\<lambda>_. Inr ''A''), pc_unmarshal = (\<lambda>_. Inl ''no'')\<rparr>,
     x_delegation = \<lparr>pc_marshal = (\<lambda>_. Inr ''D''), pc_unmarshal = (\<lambda>_. Inl ''no'')\<rparr>,
     x_endorsement = \<lparr>pc_marshal = (\<lambda>_. Inr ''E''), pc_unmarshal = (\<lambda>_. Inl ''no'')\<rparr>\<rparr>"

definition demo_handler :: Handler where
  "demo_handler = \<lparr>h_token = 1, h_id = ''desk'', h_peer = None, h_local_prompt = True, h_notifier = True\<rparr>"

definition demo_policy :: policy_document where
  "demo_policy = \<lparr>pd_version = 1, pd_defaults = None, pd_rules = []\<rparr>"

definition demo_engine :: Engine where
  "demo_engine = \<lparr>e_identity = toy_identity, e_vault = empty_vault, e_has_grants = True,
     e_has_delegations = True, e_has_endorsements = True, e_has_grant_uses = True, e_key_signer = None,
     e_report_use = False, e_renew = None, e_publish = False, e_has_audit = True,
     e_policy = demo_policy, e_handlers = [demo_handler], e_softLocked = False, e_clock = (\<lambda>_. 5),
     e_saves = (\<lambda>_. None), e_ids = (\<lambda>_. ''id''), e_appends = (\<lambda>_. True), e_audit = [],
     e_notified = [], e_reported = [], e_renewed = [], e_published = []\<rparr>"

definition demo_request :: approval_request where
  "demo_request = empty_request\<lparr>ar_request_id := ''r1'', ar_created_at := Some 1, ar_kind := REQUEST_KIND_SSHSIG\<rparr>"

definition demo_yes :: Answer where
  "demo_yes = \<lparr>an_decision = DECISION_APPROVE, an_reason = [], an_grant_ttl = 0,
     an_grant_reach = GrantReachSession, an_approver = None, an_source = DECISION_SOURCE_UNSPECIFIED,
     an_signed = None\<rparr>"

end
