(* ===== verification/Engine_Decide.thy ===== *)
theory Engine_Decide
  imports Engine
begin

text \<open>
  Deciding a request: the order of hard rules, policy, promises and approvers in
  \<^verbatim>\<open>src/pkg/approval/engine.go\<close>, and the race between the approvers a request is out with
  (\<^verbatim>\<open>inflight.go\<close>).

  What reaches the waiting loop is an argument: the list of events in the order the loop's
  \<^verbatim>\<open>select\<close> takes them, which is the interleaving of the approvers' goroutines, of approvers that
  arrive late, of the deadline and of the caller giving up. A loop whose events run out is still
  waiting, and its result is \<^const>\<open>None\<close>.
\<close>

section \<open>A request out with approvers\<close>

record inflight =
  fl_request_id :: string
  fl_origin :: Origin
  fl_asked :: "nat list"
  fl_count :: nat
  fl_settled :: bool
  fl_over :: bool

definition takeoff :: "Request \<Rightarrow> Handler list \<Rightarrow> inflight" where
  "takeoff req handlers = \<lparr>fl_request_id = ar_request_id (rq_msg req), fl_origin = rq_origin req,
     fl_asked = map h_token handlers, fl_count = length handlers, fl_settled = False, fl_over = False\<rparr>"

definition join_flight :: "Handler \<Rightarrow> inflight \<Rightarrow> inflight" where
  "join_flight h f =
     (if fl_settled f \<or> fl_over f \<or> h_token h \<in> set (fl_asked f) then f
      else f\<lparr>fl_asked := fl_asked f @ [h_token h], fl_count := fl_count f + 1\<rparr>)"

definition allGone :: "inflight \<Rightarrow> nat \<Rightarrow> bool" where
  "allGone f failed \<longleftrightarrow> fl_count f \<le> failed"

datatype event =
    Answered Handler "Answer option"
  | Fails Handler
  | Joins Handler
  | DeadlineExceeded
  | Withdrawn

datatype outcome =
    Decided Handler "Answer option"
  | NobodyLeft
  | TimedOut
  | GivenUp

fun await :: "inflight \<Rightarrow> nat \<Rightarrow> event list \<Rightarrow> outcome option" where
  "await f failed [] = None"
| "await f failed (Answered h a # evs) =
     (if declined h a
      then (if allGone f (failed + 1) then Some NobodyLeft else await f (failed + 1) evs)
      else Some (Decided h a))"
| "await f failed (Fails h # evs) =
     (if allGone f (failed + 1) then Some NobodyLeft else await f (failed + 1) evs)"
| "await f failed (Joins h # evs) = await (join_flight h f) failed evs"
| "await f failed (DeadlineExceeded # evs) = Some TimedOut"
| "await f failed (Withdrawn # evs) = Some GivenUp"

section \<open>Deciding\<close>

definition no_approver_text :: string where "no_approver_text = ''no approver is available to answer''"
definition locked_text :: string where
  "locked_text = ''this instance is locked and no paired approver could answer''"
definition unreachable_text :: string where "unreachable_text = ''no approver could be reached''"
definition timeout_text :: "duration \<Rightarrow> string" where
  "timeout_text d = ''nobody answered within '' @ duration_string d"
definition withdrawn_text :: string where "withdrawn_text = ''the request was withdrawn''"
definition opaque_text :: string where
  "opaque_text = ''the payload is neither an SSH authentication blob nor an SSHSIG signature''"
definition grant_only_text :: string where
  "grant_only_text = ''a grant request can only be made on the machine it is about''"
definition forwarded_text :: string where
  "forwarded_text = ''requests through a forwarded agent always ask''"
definition pairing_text :: string where "pairing_text = ''pairing changes always ask''"
definition confirm_text :: string where
  "confirm_text = ''the program that parked this key asked for every use to be confirmed''"
definition parked_text :: string where
  "parked_text = ''the session that parked this key in the agent is using it''"
definition would_approve_text :: string where
  "would_approve_text = ''policy would auto-approve this, but ''"
definition unsigned_text :: string where "unsigned_text = ''the decision could not be signed''"

definition prompt_timeout :: "approval_request \<Rightarrow> policy_document \<Rightarrow> duration" where
  "prompt_timeout msg policy =
     (let t = (if ar_grant_only msg then GrantRequestTimeout policy else Timeout policy (ar_kind msg))
      in case ar_timeout msg of
          None \<Rightarrow> t
        | Some requested \<Rightarrow> if 0 < requested then requested else t)"

type_synonym decided = "approval_response \<times> signed_artifact option"

definition prompt_approvers ::
    "env \<Rightarrow> Request \<Rightarrow> policy_document \<Rightarrow> event list \<Rightarrow> decided option eng" where
  "prompt_approvers X req policy evs = do {
     e \<leftarrow> State_Monad.get;
     let handlers = eligible e (rq_origin req);
     if handlers = []
     then State_Monad.return (Some (deny DECISION_SOURCE_NO_APPROVER
            (if e_softLocked e then locked_text else no_approver_text), None))
     else case await (takeoff req handlers) 0 evs of
         None \<Rightarrow> State_Monad.return None
       | Some NobodyLeft \<Rightarrow>
           State_Monad.return (Some (deny DECISION_SOURCE_NO_APPROVER unreachable_text, None))
       | Some TimedOut \<Rightarrow>
           State_Monad.return (Some (deny DECISION_SOURCE_TIMEOUT
             (timeout_text (prompt_timeout (rq_msg req) policy)), None))
       | Some GivenUp \<Rightarrow>
           State_Monad.return (Some (deny DECISION_SOURCE_CANCELLED withdrawn_text, None))
       | Some (Decided h a) \<Rightarrow> do {
           r \<leftarrow> answerToResponse X req h a;
           State_Monad.return (Some r)
         }
   }"

definition must_prompt :: "approval_request \<Rightarrow> string" where
  "must_prompt msg =
     (if getf sa_forwarded False (get_ssh_auth msg) then forwarded_text
      else if ar_kind msg = REQUEST_KIND_PAIRING then pairing_text
      else if getf lk_confirm False (ar_local_key msg) then confirm_text
      else [])"

definition quietly :: "Request \<Rightarrow> approval_response \<Rightarrow> approval_response eng" where
  "quietly req resp = do { notify_response req resp; State_Monad.return resp }"

text \<open>The promises, in the order they are tried; \<^const>\<open>None\<close> when none covers the request.\<close>

definition from_promises ::
    "env \<Rightarrow> Request \<Rightarrow> policy_document \<Rightarrow> approval_response option eng" where
  "from_promises X req policy = (let msg = rq_msg req in do {
     g \<leftarrow> matchGrant msg;
     case g of
       Some gr \<Rightarrow> do {
         (if \<not> ar_grant_only msg then recordOwnUse X (gr_grant_id gr) msg else State_Monad.return ());
         r \<leftarrow> quietly req ((approve DECISION_SOURCE_GRANT (gr_description gr))\<lparr>rs_notify_only := True\<rparr>);
         State_Monad.return (Some r)
       }
     | None \<Rightarrow> do {
         d \<leftarrow> (if rq_origin req = OriginLocal then matchDelegation msg else State_Monad.return None);
         case d of
           Some dl \<Rightarrow> do {
             (if \<not> ar_grant_only msg then recordDelegatedUse X msg dl else State_Monad.return ());
             r \<leftarrow> quietly req ((approve DECISION_SOURCE_GRANT (dg_description dl))\<lparr>rs_notify_only := True\<rparr>);
             State_Monad.return (Some r)
           }
         | None \<Rightarrow> do {
             en \<leftarrow> (if rq_origin req = OriginPeerSigning then matchEndorsement req policy
                    else State_Monad.return None);
             case en of
               Some ed \<Rightarrow> do {
                 recordEndorsedUse X msg ed;
                 r \<leftarrow> quietly req ((approve DECISION_SOURCE_GRANT (en_description ed))\<lparr>rs_notify_only := True\<rparr>);
                 State_Monad.return (Some r)
               }
             | None \<Rightarrow> State_Monad.return None
           }
       }
   })"

text \<open>Beside the answer, the request comes back with the warning a forced prompt adds.\<close>

definition decide ::
    "env \<Rightarrow> Request \<Rightarrow> policy_document \<Rightarrow> string \<Rightarrow> event list \<Rightarrow> (Request \<times> decided option) eng" where
  "decide X req policy contextProblem evs =
     (let msg = rq_msg req; ev = Evaluate (x_lower X) policy msg
      in if ar_kind msg = REQUEST_KIND_OPAQUE_SIGN
         then State_Monad.return (req, Some (deny DECISION_SOURCE_HARD_RULE opaque_text, None))
         else if contextProblem \<noteq> []
         then State_Monad.return (req, Some (deny DECISION_SOURCE_HARD_RULE contextProblem, None))
         else if ar_grant_only msg \<and> rq_origin req \<noteq> OriginLocal
         then State_Monad.return (req, Some (deny DECISION_SOURCE_HARD_RULE grant_only_text, None))
         else if ev_action ev = ACTION_DENY
         then State_Monad.return (req, Some (deny DECISION_SOURCE_POLICY (ev_rule ev), None))
         else if must_prompt msg = []
         then do {
           parked \<leftarrow> asks (\<lambda>e. parkedBySession e req);
           if parked then do {
             r \<leftarrow> quietly req ((approve DECISION_SOURCE_POLICY parked_text)\<lparr>rs_notify_only := True\<rparr>);
             State_Monad.return (req, Some (r, None))
           }
           else if ev_action ev = ACTION_APPROVE then do {
             r \<leftarrow> quietly req ((approve DECISION_SOURCE_POLICY (ev_rule ev))\<lparr>rs_notify_only := ev_notify ev\<rparr>);
             State_Monad.return (req, Some (r, None))
           }
           else do {
             p \<leftarrow> from_promises X req policy;
             case p of
               Some r \<Rightarrow> State_Monad.return (req, Some (r, None))
             | None \<Rightarrow> do {
                 r \<leftarrow> prompt_approvers X req policy evs;
                 State_Monad.return (req, r)
               }
           }
         }
         else do {
           let req' = (if ev_action ev = ACTION_APPROVE
                       then req\<lparr>rq_prompt := add_warning (would_approve_text @ must_prompt msg) (rq_prompt req)\<rparr>
                       else req);
           r \<leftarrow> prompt_approvers X req' policy evs;
           State_Monad.return (req', r)
         })"

section \<open>Submitting a request\<close>

datatype submit_error = NilRequest | NotSerialized string

definition request_for ::
    "env \<Rightarrow> policy_document \<Rightarrow> approval_request \<Rightarrow> bytes \<Rightarrow> bytes \<Rightarrow> Origin \<Rightarrow> Request" where
  "request_for X policy msg body display origin =
     (let offered = grantable (ar_kind msg)
      in \<lparr>rq_msg = msg, rq_prompt = RenderPrompt (x_formats X) msg,
          rq_grant_ttls = (if offered
            then withRequestedTTL (GrantTTLs policy) (as_duration (ar_requested_grant_ttl msg))
                   (MaxGrantTTL policy)
            else []),
          rq_grant_max_ttl = (if offered then MaxGrantTTL policy else 0),
          rq_grant_subject = GrantSubject msg, rq_grant_machine = GrantMachine msg,
          rq_origin = origin, rq_body = body, rq_display = display\<rparr>)"

definition Digest :: "ssh_lib \<Rightarrow> bytes \<Rightarrow> bytes" where
  "Digest L b = lib_sha256 L b"

definition filled_in :: "approval_request \<Rightarrow> approval_request eng" where
  "filled_in msg = do {
     i \<leftarrow> (if ar_request_id msg = [] then NewRequestID else State_Monad.return (ar_request_id msg));
     t \<leftarrow> (if ar_created_at msg = None then do { t \<leftarrow> now_e; State_Monad.return (Some t) }
           else State_Monad.return (ar_created_at msg));
     State_Monad.return (msg\<lparr>ar_request_id := i, ar_created_at := t\<rparr>)
   }"

definition completed :: "env \<Rightarrow> approval_request \<Rightarrow> bytes \<Rightarrow> approval_response \<Rightarrow> approval_response eng" where
  "completed X msg body resp = do {
     ident \<leftarrow> asks e_identity;
     let r = resp\<lparr>rs_request_id := ar_request_id msg, rs_request_digest := Digest (x_ssh X) body,
       rs_approver := (case rs_approver resp of
          None \<Rightarrow> Some (ApproverInfo (x_ssh X) ident True) | Some a \<Rightarrow> Some a)\<rparr>;
     if rs_decided_at r = None
     then do { t \<leftarrow> now_e; State_Monad.return (r\<lparr>rs_decided_at := Some t\<rparr>) }
     else State_Monad.return r
   }"

definition submit ::
    "env \<Rightarrow> approval_request option \<Rightarrow> bytes option \<Rightarrow> Origin \<Rightarrow> event list \<Rightarrow> presented_project option \<Rightarrow>
     (submit_error + approval_response \<times> signed_artifact option) option eng" where
  "submit X given body origin evs shown =
     (case given of
        None \<Rightarrow> State_Monad.return (Some (Inl NilRequest))
      | Some msg0 \<Rightarrow> do {
          msg1 \<leftarrow> filled_in msg0;
          let (msg, contextProblem) = VerifyRequest (x_ssh X) (x_say X) (x_fallback X) msg1;
          (case x_request X msg of
             Inl err \<Rightarrow> State_Monad.return (Some (Inl (NotSerialized err)))
           | Inr display \<Rightarrow> do {
               let b = (case body of None \<Rightarrow> display | Some given_body \<Rightarrow> given_body);
               policy \<leftarrow> asks e_policy;
               logEntry ((entry_of AUDIT_EVENT_REQUEST (ar_request_id msg))\<lparr>ae_request := Some msg\<rparr>);
               (req, answer) \<leftarrow> decide X (request_for X policy msg b display origin) policy contextProblem evs;
               (case answer of
                  None \<Rightarrow> State_Monad.return None
                | Some (resp0, remote) \<Rightarrow> do {
                    resp1 \<leftarrow> completed X msg b resp0;
                    ident \<leftarrow> asks e_identity;
                    (resp, artifact, remote') \<leftarrow>
                      (case SignApproval (x_ssh X) (x_response X) ident (Some resp1) of
                         Inr a \<Rightarrow> State_Monad.return (resp1, Some a, remote)
                       | Inl err \<Rightarrow> do {
                           r \<leftarrow> completed X msg b (deny DECISION_SOURCE_ERROR unsigned_text);
                           State_Monad.return (r, None, None)
                         });
                    logEntry ((entry_of AUDIT_EVENT_DECISION (ar_request_id msg))\<lparr>ae_request := Some msg,
                      ae_response := Some resp, ae_signed_approval := artifact,
                      ae_remote_approval := remote', ae_prompt_shown := Text (rq_prompt req),
                      ae_project_shown := shown\<rparr>);
                    State_Monad.return (Some (Inr (resp, artifact)))
                  })
             })
        })"

definition SubmitSigned where
  "SubmitSigned X msg evs shown = submit X msg None OriginLocal evs shown"

definition SubmitPeer where
  "SubmitPeer X msg body evs shown = submit X msg body OriginPeer evs shown"

definition SubmitPeerSigning where
  "SubmitPeerSigning X msg body evs shown = submit X msg body OriginPeerSigning evs shown"

end
