(* ===== verification/Engine_Frame.thy ===== *)
theory Engine_Frame
  imports Engine_Decide
begin

text \<open>
  What no operation of the engine can do. The locale \<open>engine_frame\<close> is the contract: a relation
  between engines before and after that holds for one clock reading, one identifier, one entry of
  the log, one message out and one call into the vault, and that composes. Every operation of the
  engine keeps it, proved once; the interpretations below are what that gives: the configuration is
  never touched, the log only grows, the vault stays well-formed, and nothing leaves the peers, the
  keys or the retractions changed.
\<close>

section \<open>Calls into the vault\<close>

text \<open>The eight ways the engine changes its vault.\<close>

inductive engine_write :: "vault \<Rightarrow> vault \<Rightarrow> bool" where
  listed: "engine_write v (fst (Grants sv t v))"
| delegations: "engine_write v (fst (UsableDelegations sv t v))"
| endorsements: "engine_write v (fst (UsableEndorsements sv t v))"
| delegation_use: "engine_write v (fst (RecordDelegationUse sv u v))"
| grant_use: "engine_write v (fst (RecordGrantUses sv us v))"
| endorsement_use: "engine_write v (fst (RecordEndorsementUse sv u v))"
| added: "gr_recent_uses g = [] \<Longrightarrow> engine_write v (fst (AddGrant sv g v))"
| replaced: "engine_write v (fst (ReplaceGrant sv g v))"

lemma delegated_grant_fresh [simp]: "gr_recent_uses (delegated_grant d msg reach) = []"
  by (simp add: delegated_grant_def empty_grant_def)

section \<open>The contract\<close>

locale engine_frame =
  fixes R :: "Engine \<Rightarrow> Engine \<Rightarrow> bool"
  assumes same: "R e e"
    and chain: "R e e' \<Longrightarrow> R e' e'' \<Longrightarrow> R e e''"
    and clock: "R e (e\<lparr>e_clock := rest_of (e_clock e)\<rparr>)"
    and ids: "R e (e\<lparr>e_ids := rest_of (e_ids e)\<rparr>)"
    and log: "xs = [] \<or> e_appends e 0 \<Longrightarrow>
      R e (e\<lparr>e_appends := rest_of (e_appends e), e_audit := e_audit e @ xs\<rparr>)"
    and notified: "R e (e\<lparr>e_notified := e_notified e @ ns\<rparr>)"
    and reported: "R e (e\<lparr>e_reported := e_reported e @ rs\<rparr>)"
    and renewed: "R e (e\<lparr>e_renewed := e_renewed e @ ws\<rparr>)"
    and published: "R e (e\<lparr>e_published := e_published e @ ps\<rparr>)"
    and wrote: "engine_write (e_vault e) v \<Longrightarrow> R e (e\<lparr>e_vault := v, e_saves := rest_of (e_saves e)\<rparr>)"
begin

lemma frame_return [intro!]: "state_io_rel R (State_Monad.return x)"
  by (auto simp: same)

lemma frame_bind [intro!]:
  assumes "state_io_rel R m" "\<And>x. state_io_rel R (f x)"
  shows "state_io_rel R (m \<bind> f)"
proof (rule state_io_relI)
  fix a s s' assume "run_state (m \<bind> f) s = (a, s')"
  then obtain x t where "run_state m s = (x, t)" "run_state (f x) t = (a, s')"
    by (auto split: prod.splits)
  with assms show "R s s'" by (meson chain state_io_relD)
qed

lemma frame_primitives [intro!]:
  "state_io_rel R now_e" "state_io_rel R NewRequestID" "state_io_rel R (asks g)"
  "state_io_rel R State_Monad.get"
  by (auto simp: clock ids same)

lemma frame_write:
  assumes "\<And>sv v. engine_write v (fst (f sv v))"
  shows "state_io_rel R (on_vault f)"
  using assms by (simp add: state_io_rel_def run_on_vault wrote)

lemma frame_write_at:
  assumes "\<And>sv t v. engine_write v (fst (g sv t v))"
  shows "state_io_rel R (on_vault_at g)"
  unfolding on_vault_at_def using assms by (intro frame_bind frame_primitives frame_write)

lemma frame_cases [intro!]:
  "(c \<Longrightarrow> state_io_rel R m1) \<Longrightarrow> (\<not> c \<Longrightarrow> state_io_rel R m2) \<Longrightarrow> state_io_rel R (if c then m1 else m2)"
  "(ov = None \<Longrightarrow> state_io_rel R n1) \<Longrightarrow> (\<And>x. ov = Some x \<Longrightarrow> state_io_rel R (n2 x)) \<Longrightarrow>
     state_io_rel R (case ov of None \<Rightarrow> n1 | Some x \<Rightarrow> n2 x)"
  "(\<And>x. sm = Inl x \<Longrightarrow> state_io_rel R (k1 x)) \<Longrightarrow> (\<And>y. sm = Inr y \<Longrightarrow> state_io_rel R (k2 y)) \<Longrightarrow>
     state_io_rel R (case sm of Inl x \<Rightarrow> k1 x | Inr y \<Rightarrow> k2 y)"
  "(\<And>x y. pr = (x, y) \<Longrightarrow> state_io_rel R (q x y)) \<Longrightarrow> state_io_rel R (case pr of (x, y) \<Rightarrow> q x y)"
  by (auto split: option.splits sum.splits prod.splits)

lemma frame_logEntry [intro!]: "state_io_rel R (logEntry entry)"
proof -
  have "state_io_rel R (modify (\<lambda>e. e\<lparr>e_appends := rest_of (e_appends e),
      e_audit := (if e_appends e 0 then e_audit e @ [x] else e_audit e)\<rparr>))" for x
    using log [where xs = "[x]"] log [where xs = "[]"] by (auto simp: state_io_rel_def)
  then show ?thesis unfolding logEntry_def by (intro frame_bind frame_primitives frame_cases frame_return)
qed

lemma frame_messages [intro!]:
  "state_io_rel R (notify_response req resp)" "state_io_rel R (report_to p)"
  by (auto simp: notify_response_def report_to_def state_io_rel_def same notified reported)

lemma frame_matches [intro!]:
  "state_io_rel R (matchGrant msg)" "state_io_rel R (matchDelegation msg)"
  "state_io_rel R (matchEndorsement req policy)"
  unfolding matchGrant_def matchDelegation_def matchEndorsement_def
  by (intro frame_bind frame_primitives frame_cases frame_return frame_write frame_write_at engine_write.intros)+

lemma frame_uses [intro!]:
  "state_io_rel R (grantUse X i msg)" "state_io_rel R (recordDelegatedUse X msg d)"
  "state_io_rel R (recordOwnUse X i msg)" "state_io_rel R (recordEndorsedUse X msg en)"
proof -
  show use: "state_io_rel R (grantUse X i msg)" for i
    unfolding grantUse_def by (intro frame_bind frame_primitives frame_return)
  show "state_io_rel R (recordDelegatedUse X msg d)" "state_io_rel R (recordOwnUse X i msg)"
    "state_io_rel R (recordEndorsedUse X msg en)"
    unfolding recordDelegatedUse_def recordOwnUse_def recordEndorsedUse_def
    by (intro frame_bind frame_primitives frame_cases frame_return frame_messages use frame_write frame_write_at
        engine_write.intros)+
qed

lemma frame_promises [intro!]:
  "state_io_rel R (createGrant X msg ttl reach)" "state_io_rel R (delegate X msg ttl reach)"
  unfolding createGrant_def delegate_def Let_def
  by (intro frame_bind frame_primitives frame_cases frame_return frame_logEntry frame_uses frame_write frame_write_at
      engine_write.intros; simp)+

lemma frame_endorse [intro!]: "state_io_rel R (endorse X msg g)"
proof -
  have "state_io_rel R (modify (\<lambda>e. if e_publish e then e\<lparr>e_published := e_published e @ [x]\<rparr> else e))" for x
    using published [where ps = "[x]"] by (auto simp: state_io_rel_def same)
  then show ?thesis
    unfolding endorse_def Let_def
    by (intro frame_bind frame_primitives frame_cases frame_return frame_write frame_write_at engine_write.intros)
qed

lemma frame_answer [intro!]: "state_io_rel R (answerToResponse X req h a)"
  unfolding answerToResponse_def Let_def
  by (intro frame_bind frame_primitives frame_cases frame_return frame_promises frame_endorse)

lemma frame_prompt [intro!]: "state_io_rel R (prompt_approvers X req policy evs)"
  unfolding prompt_approvers_def Let_def
  by (intro frame_bind frame_primitives frame_cases frame_return)
    (auto split: outcome.split)

lemma frame_decide [intro!]: "state_io_rel R (decide X req policy problem evs)"
  unfolding decide_def from_promises_def quietly_def Let_def
  by (intro frame_bind frame_primitives frame_cases frame_return frame_messages frame_matches
      frame_uses frame_prompt)

lemma frame_ends [intro!]: "state_io_rel R (filled_in msg)" "state_io_rel R (completed X msg b resp)"
  unfolding filled_in_def completed_def Let_def
  by (intro frame_bind frame_primitives frame_cases frame_return)+

lemma frame_submit: "state_io_rel R (submit X given body origin evs shown)"
  unfolding submit_def Let_def
  by (intro frame_bind frame_primitives frame_cases frame_return frame_logEntry frame_decide frame_ends)

lemma frame_ExtendGrant: "state_io_rel R (ExtendGrant X i extra)"
proof -
  have "state_io_rel R (modify (\<lambda>e. e\<lparr>e_renewed := e_renewed e @ [x]\<rparr>))" for x
    using renewed [where ws = "[x]"] by (auto simp: state_io_rel_def)
  then show ?thesis
    unfolding ExtendGrant_def deliver_extension_def store_extension_def
    by (intro frame_bind frame_primitives frame_cases frame_return frame_logEntry frame_write frame_write_at
        engine_write.intros)
qed

lemma frame_records: "state_io_rel R (Signed msg key)" "state_io_rel R (Delegated X msg resp rem)"
  "state_io_rel R (LogLifecycle d)" "state_io_rel R (LogKeyTransfer d f)"
  unfolding Signed_def Delegated_def LogLifecycle_def LogKeyTransfer_def Let_def
  by (intro frame_bind frame_primitives frame_logEntry)+

end

section \<open>What the contract gives\<close>

lemma usable_vault:
  "fst (UsableDelegations sv t v) = fst (Delegations sv t v)"
  "fst (UsableEndorsements sv t v) = fst (Endorsements sv t v)"
  by (auto simp: UsableDelegations_def UsableEndorsements_def split: prod.splits sum.splits)

definition same_config :: "Engine \<Rightarrow> Engine \<Rightarrow> bool" where
  "same_config e e' \<longleftrightarrow> e_identity e' = e_identity e \<and> e_policy e' = e_policy e \<and>
     e_handlers e' = e_handlers e \<and> e_softLocked e' = e_softLocked e \<and>
     e_has_grants e' = e_has_grants e \<and> e_has_delegations e' = e_has_delegations e \<and>
     e_has_endorsements e' = e_has_endorsements e \<and> e_has_grant_uses e' = e_has_grant_uses e \<and>
     e_key_signer e' = e_key_signer e \<and> e_report_use e' = e_report_use e \<and> e_renew e' = e_renew e \<and>
     e_publish e' = e_publish e \<and> e_has_audit e' = e_has_audit e"

interpretation config: engine_frame same_config
  by unfold_locales (auto simp: same_config_def)

definition log_grows :: "Engine \<Rightarrow> Engine \<Rightarrow> bool" where
  "log_grows e e' \<longleftrightarrow> (\<exists>xs. e_audit e' = e_audit e @ xs)"

interpretation audit: engine_frame log_grows
  by unfold_locales (auto simp: log_grows_def)

definition keeps_wf :: "Engine \<Rightarrow> Engine \<Rightarrow> bool" where
  "keeps_wf e e' \<longleftrightarrow> (vault_wf (e_vault e) \<longrightarrow> vault_wf (e_vault e'))"

lemma engine_write_wf: "engine_write v v' \<Longrightarrow> vault_wf v \<Longrightarrow> vault_wf v'"
  by (induction rule: engine_write.induct)
    (simp_all add: grant_ops_wf delegation_ops_wf endorsement_ops_wf usable_vault)

interpretation wf: engine_frame keeps_wf
  by unfold_locales (auto simp: keeps_wf_def engine_write_wf)

definition trust_part :: "vault \<Rightarrow> trust_record list \<times> stored_key list \<times> held_retraction list \<times> pending_pairing list \<times> borrowed_key list" where
  "trust_part v = (peers_of v, keys_of v, retractions_of v, sd_pending_pairings (v_doc v), sd_borrowed_keys (v_doc v))"

definition same_trust :: "Engine \<Rightarrow> Engine \<Rightarrow> bool" where
  "same_trust e e' \<longleftrightarrow> trust_part (e_vault e') = trust_part (e_vault e)"

lemma trust_part_save [simp]:
  "trust_part (fst (save sv v)) = trust_part v" "trust_part (fst (save_then sv v x)) = trust_part v"
  by (simp_all add: trust_part_def)

lemma trust_part_with [simp]:
  "trust_part (with_grants f1 v) = trust_part v" "trust_part (with_delegations f2 v) = trust_part v"
  "trust_part (with_endorsements f3 v) = trust_part v"
  by (simp_all add: trust_part_def with_grants_def with_delegations_def with_endorsements_def)

lemma engine_write_trust: "engine_write v v' \<Longrightarrow> trust_part v' = trust_part v"
  by (induction rule: engine_write.induct)
    (auto simp: usable_vault Grants_def Delegations_def Endorsements_def RecordDelegationUse_def
      RecordGrantUses_def RecordEndorsementUse_def AddGrant_def ReplaceGrant_def Let_def split: prod.split)

interpretation trust: engine_frame same_trust
  by unfold_locales (auto simp: same_trust_def engine_write_trust)

lemma frameD: "state_io_rel R m \<Longrightarrow> R e (snd (run_state m e))"
  by (simp add: state_io_rel_def)

section \<open>Everything an engine lives through\<close>

datatype engine_op =
    E_submit "approval_request option" "bytes option" Origin "event list" "presented_project option"
  | E_extend string duration
  | E_register Handler
  | E_unregister Handler
  | E_suspend bool
  | E_policy policy_document
  | E_signed approval_request "key_ref option"
  | E_delegated approval_request approval_response "signed_artifact option"
  | E_lifecycle string
  | E_transfer string string
  | E_vault vault_env save_result time vault_op

fun engine_run :: "env \<Rightarrow> engine_op \<Rightarrow> Engine \<Rightarrow> Engine" where
  "engine_run X (E_submit msg body origin evs shown) e = snd (run_state (submit X msg body origin evs shown) e)"
| "engine_run X (E_extend i extra) e = snd (run_state (ExtendGrant X i extra) e)"
| "engine_run X (E_register h) e = Register h e"
| "engine_run X (E_unregister h) e = Unregister h e"
| "engine_run X (E_suspend b) e = SuspendLocalPrompts b e"
| "engine_run X (E_policy p) e = SetPolicy p e"
| "engine_run X (E_signed msg k) e = snd (run_state (Signed msg k) e)"
| "engine_run X (E_delegated msg resp rem) e = snd (run_state (Delegated X msg resp rem) e)"
| "engine_run X (E_lifecycle d) e = snd (run_state (LogLifecycle d) e)"
| "engine_run X (E_transfer d f) e = snd (run_state (LogKeyTransfer d f) e)"
| "engine_run X (E_vault env sv t op) e = e\<lparr>e_vault := run_op env sv t op (e_vault e)\<rparr>"

fun engine_op_ok :: "engine_op \<Rightarrow> bool" where
  "engine_op_ok (E_vault env sv t op) = op_ok op"
| "engine_op_ok _ = True"

inductive engine_steps :: "env \<Rightarrow> Engine \<Rightarrow> Engine \<Rightarrow> bool" for X where
  start: "engine_steps X e e"
| step: "engine_steps X e e' \<Longrightarrow> engine_op_ok op \<Longrightarrow> engine_steps X e (engine_run X op e')"

inductive_cases engine_stepsE: "engine_steps X e e'"

lemma engine_run_wf:
  assumes "engine_op_ok op" "vault_wf (e_vault e)"
  shows "vault_wf (e_vault (engine_run X op e))"
proof (cases op)
  case (E_vault env sv t vop)
  with assms show ?thesis using run_op_wf by simp
qed (use assms frameD [OF wf.frame_submit] frameD [OF wf.frame_ExtendGrant] wf.frame_records [THEN frameD] in
    \<open>auto simp: keeps_wf_def Register_def Unregister_def SuspendLocalPrompts_def SetPolicy_def\<close>)

lemma engine_run_log: "\<exists>xs. e_audit (engine_run X op e) = e_audit e @ xs"
  by (cases op)
    (use frameD [OF audit.frame_submit] frameD [OF audit.frame_ExtendGrant] audit.frame_records [THEN frameD] in
    \<open>auto simp: log_grows_def Register_def Unregister_def SuspendLocalPrompts_def SetPolicy_def\<close>)

section \<open>Properties\<close>

text \<open>A log that can be written to stays one.\<close>

definition log_works :: "Engine \<Rightarrow> bool" where
  "log_works e \<longleftrightarrow> e_has_audit e \<and> (\<forall>n. e_appends e n)"

interpretation writable: engine_frame "\<lambda>e e'. log_works e \<longrightarrow> log_works e'"
  by unfold_locales (auto simp: log_works_def rest_of_def)

text \<open>
  whatever an engine lives through - requests decided and abandoned, promises extended,
  approvers coming and going, the lock, new policies, other users of the store, failed writes - a
  well-formed store stays well-formed and no entry of the audit log is ever changed or lost.
\<close>

theorem engine_steps_invariant:
  assumes "engine_steps X e e'" "vault_wf (e_vault e)"
  shows "vault_wf (e_vault e') \<and> (\<exists>xs. e_audit e' = e_audit e @ xs)"
  using assms
proof (induction rule: engine_steps.induct)
  case (step e e' op)
  then obtain xs where "vault_wf (e_vault e')" "e_audit e' = e_audit e @ xs" by blast
  with engine_run_wf [OF step.hyps(2), of e' X] engine_run_log [of X op e'] show ?case by fastforce
qed simp

theorem engine_steps_invariant_witness:
  "vault_wf (e_vault (engine_run demo_env (E_extend ''g'' hour) (engine_run demo_env
     (E_submit (Some demo_request) None OriginLocal [Answered demo_handler (Some demo_yes)] None) demo_engine)))"
proof -
  have "engine_steps demo_env demo_engine (engine_run demo_env (E_extend ''g'' hour) (engine_run demo_env
     (E_submit (Some demo_request) None OriginLocal [Answered demo_handler (Some demo_yes)] None) demo_engine))"
    by (intro engine_steps.step engine_steps.start) simp_all
  moreover have "vault_wf (e_vault demo_engine)" using empty_vault_wf by (simp add: demo_engine_def)
  ultimately show ?thesis using engine_steps_invariant by blast
qed

text \<open>
  deciding a request changes no configuration: the identity, the policy, the approvers, the
  lock, the peers, the keys, the retractions and the pairings under way are what they were.
\<close>

theorem submit_frame:
  "same_config e (snd (run_state (submit X given body origin evs shown) e)) \<and>
   trust_part (e_vault (snd (run_state (submit X given body origin evs shown) e))) = trust_part (e_vault e)"
  using frameD [OF config.frame_submit] frameD [OF trust.frame_submit] by (auto simp: same_trust_def)

end
