(* ===== verification/Engine_Safety.thy ===== *)
theory Engine_Safety
  imports Engine_Frame
begin

text \<open>
  What an approval rests on. The theorems of this theory go from the answer of
  \<^verbatim>\<open>src/pkg/approval/engine.go\<close> back to its grounds: which rule, which promise or which approver an
  approval came from, that it is signed and in the log, and what happens when nobody can be asked.
\<close>

section \<open>Clock readings\<close>

text \<open>A supply from which some readings have been taken.\<close>

definition shifted :: "(nat \<Rightarrow> 'a) \<Rightarrow> (nat \<Rightarrow> 'a) \<Rightarrow> bool" where
  "shifted c c' \<longleftrightarrow> (\<exists>k. \<forall>n. c' n = c (n + k))"

lemma shifted_refl [simp]: "shifted c c"
  unfolding shifted_def by (rule exI [of _ 0]) simp

lemma shifted_rest [simp]: "shifted c (rest_of c)" "shifted c (rest_of (rest_of c))"
  unfolding shifted_def by (rule exI [of _ 1], simp add: rest_of_def, rule exI [of _ 2], simp add: rest_of_def)

lemma shifted_trans:
  assumes "shifted a b" "shifted b c"
  shows "shifted a c"
proof -
  obtain j k where j: "\<And>n. b n = a (n + j)" and k: "\<And>n. c n = b (n + k)"
    using assms unfolding shifted_def by blast
  have "c n = a (n + (k + j))" for n by (simp only: k j add.assoc)
  then show ?thesis unfolding shifted_def by blast
qed

lemma shifted_reading: "shifted c c' \<Longrightarrow> \<exists>n. P (c' n) \<Longrightarrow> \<exists>n. P (c n)"
  unfolding shifted_def by metis

text \<open>An engine that has read the clock, drawn identifiers and written to its log.\<close>

definition later :: "Engine \<Rightarrow> Engine \<Rightarrow> bool" where
  "later e e' \<longleftrightarrow> e_vault e' = e_vault e \<and> same_config e e' \<and> shifted (e_clock e) (e_clock e')"

lemma same_config_refl [simp]: "same_config e e"
  by (simp add: same_config_def)

lemma later_refl [simp]: "later e e"
  by (simp add: later_def)

lemma later_trans: "later e e' \<Longrightarrow> later e' e'' \<Longrightarrow> later e e''"
  using config.chain shifted_trans unfolding later_def by metis

lemma io_rel_bind:
  assumes "\<And>x y z. R x y \<Longrightarrow> R y z \<Longrightarrow> R x z" "state_io_rel R m" "\<And>x. state_io_rel R (f x)"
  shows "state_io_rel R (m \<bind> f)"
proof (rule state_io_relI)
  fix a s s' assume "run_state (m \<bind> f) s = (a, s')"
  then obtain x t where "run_state m s = (x, t)" "run_state (f x) t = (a, s')"
    by (auto split: prod.splits)
  with assms show "R s s'" by (meson state_io_relD)
qed

lemma later_primitives:
  "state_io_rel later now_e" "state_io_rel later NewRequestID" "state_io_rel later (asks f)"
  "state_io_rel later (State_Monad.return x)"
  "state_io_rel later (modify (\<lambda>e. e\<lparr>e_appends := a e, e_audit := l e\<rparr>))"
  by (auto simp: state_io_rel_def later_def same_config_def)

lemmas later_intros = io_rel_bind [of later, OF later_trans] later_primitives

lemma later_if: "state_io_rel later m \<Longrightarrow> state_io_rel later n \<Longrightarrow> state_io_rel later (if c then m else n)"
  by simp

lemma logEntry_later: "later e (snd (run_state (logEntry x) e))"
  unfolding logEntry_def by (rule frameD, intro later_intros later_if)

lemma filled_in_later: "later e (snd (run_state (filled_in msg) e))"
  unfolding filled_in_def by (rule frameD, intro later_intros later_if)

section \<open>Grounds\<close>

definition covered_by_grant :: "Engine \<Rightarrow> approval_request \<Rightarrow> bool" where
  "covered_by_grant e msg \<longleftrightarrow> e_has_grants e \<and>
     (\<exists>g \<in> set (grants (e_vault e)). covers (gr_scope g) msg \<and> (\<exists>n. e_clock e n < as_time (gr_expires_at g)))"

definition covered_by_delegation :: "Engine \<Rightarrow> approval_request \<Rightarrow> bool" where
  "covered_by_delegation e msg \<longleftrightarrow> e_has_delegations e \<and>
     (\<exists>h \<in> set (held_delegations (e_vault e)).
        dg_approver_fingerprint (hd_delegation h) \<in> approvers (e_vault e) \<and>
        covers (dg_scope (hd_delegation h)) msg \<and>
        (\<exists>n. e_clock e n < as_time (dg_expires_at (hd_delegation h))))"

definition covered_by_endorsement :: "Engine \<Rightarrow> policy_document \<Rightarrow> approval_request \<Rightarrow> bool" where
  "covered_by_endorsement e policy msg \<longleftrightarrow> e_has_endorsements e \<and> requester_id msg \<noteq> [] \<and>
     (\<exists>h \<in> set (held_endorsements (e_vault e)). let en = he_endorsement h in
        en_requester_fingerprint en = requester_id msg \<and>
        HoldsKey (en_key_fingerprint en) (e_vault e) \<and>
        en_issuer_fingerprint en \<in> approvers (e_vault e) \<and>
        covers (en_scope en) msg \<and>
        (\<exists>n. \<not> retractions_cover (retractionIndexLocked (e_clock e n) (e_vault e)) en) \<and>
        (\<exists>n. e_clock e n < as_time (en_expires_at en) \<and>
             as_time (en_expires_at en) \<le> e_clock e n + MaxGrantTTL policy))"

text \<open>Everything a request may be approved on without anybody being asked.\<close>

definition stands_approved :: "env \<Rightarrow> Engine \<Rightarrow> policy_document \<Rightarrow> Origin \<Rightarrow> approval_request \<Rightarrow> bool" where
  "stands_approved X e policy origin msg \<longleftrightarrow>
     (origin = OriginLocal \<and> \<not> e_softLocked e \<and>
      (\<exists>k. ar_local_key msg = Some k \<and> SameSession (lk_added_by k) (requester_process msg))) \<or>
     ev_action (Evaluate (x_lower X) policy msg) = ACTION_APPROVE \<or>
     covered_by_grant e msg \<or>
     (origin = OriginLocal \<and> covered_by_delegation e msg) \<or>
     (origin = OriginPeerSigning \<and> covered_by_endorsement e policy msg)"

text \<open>Somebody said yes, and for a length of time when a length was all that was asked for.\<close>

definition somebody_approved :: "approval_request \<Rightarrow> event list \<Rightarrow> bool" where
  "somebody_approved msg evs \<longleftrightarrow>
     (\<exists>h a. Answered h (Some a) \<in> set evs \<and> an_decision a = DECISION_APPROVE \<and>
        (ar_grant_only msg \<longrightarrow> 0 < an_grant_ttl a))"

lemma same_configD:
  assumes "same_config e e'"
  shows "e_has_grants e' = e_has_grants e" "e_has_delegations e' = e_has_delegations e"
    "e_has_endorsements e' = e_has_endorsements e" "e_softLocked e' = e_softLocked e"
    "e_policy e' = e_policy e" "e_handlers e' = e_handlers e" "e_identity e' = e_identity e"
    "e_has_audit e' = e_has_audit e"
  using assms by (simp_all add: same_config_def)

text \<open>The grounds only look at these parts of an engine.\<close>

lemma trust_views:
  assumes "trust_part v = trust_part w"
  shows "approvers v = approvers w" "HoldsKey fp v = HoldsKey fp w"
    "retractionIndexLocked t v = retractionIndexLocked t w"
  using assms by (auto simp: trust_part_def intro!: approvers_cong HoldsKey_cong index_cong)

lemma grant_grounds_mono:
  assumes "shifted (e_clock e) (e_clock e')" "same_config e e'"
    "grants (e_vault e') = grants (e_vault e)" "covered_by_grant e' msg"
  shows "covered_by_grant e msg"
proof -
  have 1: "\<exists>n. e_clock e' n < t \<Longrightarrow> \<exists>n. e_clock e n < t" for t
    by (rule shifted_reading [OF assms(1)])
  from assms(4) obtain g where g: "g \<in> set (grants (e_vault e))" "covers (gr_scope g) msg"
    "\<exists>n. e_clock e' n < as_time (gr_expires_at g)" and has: "e_has_grants e'"
    unfolding covered_by_grant_def assms(3) by blast
  from g(1,2) 1 [OF g(3)] has same_configD(1) [OF assms(2)] show ?thesis
    unfolding covered_by_grant_def by blast
qed

lemma delegation_grounds_mono:
  assumes "shifted (e_clock e) (e_clock e')" "same_config e e'"
    "trust_part (e_vault e') = trust_part (e_vault e)"
    "held_delegations (e_vault e') = held_delegations (e_vault e)" "covered_by_delegation e' msg"
  shows "covered_by_delegation e msg"
proof -
  have 1: "\<exists>n. e_clock e' n < t \<Longrightarrow> \<exists>n. e_clock e n < t" for t
    by (rule shifted_reading [OF assms(1)])
  have ap: "approvers (e_vault e') = approvers (e_vault e)"
    by (rule trust_views [OF assms(3)])
  from assms(5) obtain h where h: "h \<in> set (held_delegations (e_vault e))"
    "dg_approver_fingerprint (hd_delegation h) \<in> approvers (e_vault e)"
    "covers (dg_scope (hd_delegation h)) msg"
    "\<exists>n. e_clock e' n < as_time (dg_expires_at (hd_delegation h))" and has: "e_has_delegations e'"
    unfolding covered_by_delegation_def assms(4) ap by blast
  from h(1-3) 1 [OF h(4)] has same_configD(2) [OF assms(2)] show ?thesis
    unfolding covered_by_delegation_def by blast
qed

lemma endorsement_grounds_mono:
  assumes "shifted (e_clock e) (e_clock e')" "same_config e e'"
    "trust_part (e_vault e') = trust_part (e_vault e)"
    "held_endorsements (e_vault e') = held_endorsements (e_vault e)" "covered_by_endorsement e' policy msg"
  shows "covered_by_endorsement e policy msg"
proof -
  let ?v = "e_vault e" and ?m = "MaxGrantTTL policy"
  have *: "approvers (e_vault e') = approvers ?v" "HoldsKey fp (e_vault e') = HoldsKey fp ?v"
    "retractionIndexLocked n (e_vault e') = retractionIndexLocked n ?v" for fp n
    by (rule trust_views [OF assms(3)])+
  have 1: "\<exists>n. e_clock e' n < t \<and> t \<le> e_clock e' n + ?m \<Longrightarrow> \<exists>n. e_clock e n < t \<and> t \<le> e_clock e n + ?m" for t
    by (rule shifted_reading [OF assms(1)])
  have 2: "\<exists>n. \<not> retractions_cover (retractionIndexLocked (e_clock e' n) ?v) en \<Longrightarrow>
      \<exists>n. \<not> retractions_cover (retractionIndexLocked (e_clock e n) ?v) en" for en
    by (rule shifted_reading [OF assms(1)])
  from assms(5) obtain h where h: "h \<in> set (held_endorsements ?v)"
    "en_requester_fingerprint (he_endorsement h) = requester_id msg"
    "HoldsKey (en_key_fingerprint (he_endorsement h)) ?v"
    "en_issuer_fingerprint (he_endorsement h) \<in> approvers ?v" "covers (en_scope (he_endorsement h)) msg"
    "\<exists>n. \<not> retractions_cover (retractionIndexLocked (e_clock e' n) ?v) (he_endorsement h)"
    "\<exists>n. e_clock e' n < as_time (en_expires_at (he_endorsement h)) \<and>
         as_time (en_expires_at (he_endorsement h)) \<le> e_clock e' n + ?m"
    and req: "requester_id msg \<noteq> []" "e_has_endorsements e'"
    unfolding covered_by_endorsement_def * assms(4) Let_def by blast
  from h(1-5) 2 [OF h(6)] 1 [OF h(7)] req same_configD(3) [OF assms(2)] show ?thesis
    unfolding covered_by_endorsement_def Let_def by blast
qed

lemma later_grounds:
  assumes "later e e'"
  shows "covered_by_grant e' msg \<Longrightarrow> covered_by_grant e msg"
    "covered_by_delegation e' msg \<Longrightarrow> covered_by_delegation e msg"
    "covered_by_endorsement e' policy msg \<Longrightarrow> covered_by_endorsement e policy msg"
    "e_softLocked e' = e_softLocked e" "e_policy e' = e_policy e" "e_handlers e' = e_handlers e"
    "e_identity e' = e_identity e"
proof -
  have *: "shifted (e_clock e) (e_clock e')" "same_config e e'" "e_vault e' = e_vault e"
    using assms by (simp_all add: later_def)
  show "covered_by_grant e' msg \<Longrightarrow> covered_by_grant e msg"
    "covered_by_delegation e' msg \<Longrightarrow> covered_by_delegation e msg"
    "covered_by_endorsement e' policy msg \<Longrightarrow> covered_by_endorsement e policy msg"
    using * by (auto intro: grant_grounds_mono delegation_grounds_mono endorsement_grounds_mono)
  show "e_softLocked e' = e_softLocked e" "e_policy e' = e_policy e" "e_handlers e' = e_handlers e"
    "e_identity e' = e_identity e"
    by (rule same_configD [OF *(2)])+
qed

section \<open>Matching\<close>

lemma matchGrant_Some:
  assumes "run_state (matchGrant msg) e = (Some g, e')"
  shows "e_has_grants e \<and> g \<in> set (grants (e_vault e)) \<and> covers (gr_scope g) msg \<and>
         (\<exists>n. e_clock e n < as_time (gr_expires_at g))"
proof -
  from assms have has: "e_has_grants e" by (auto simp: matchGrant_def split: if_splits)
  let ?r = "Grants (e_saves e 0) (e_clock e 0) (e_vault e)"
  from assms has obtain gs where gs: "snd ?r = Inr gs" "findGrant gs msg (e_clock e 1) = Some g"
    by (auto simp: matchGrant_def on_vault_at_def run_on_vault rest_of_def split: sum.splits)
  from findGrant_SomeD [OF gs(2)] Grants_result [OF gs(1)] has show ?thesis by auto
qed

text \<open>Looking for a grant drops expired ones and reads the clock; nothing else.\<close>

definition looked :: "Engine \<Rightarrow> Engine \<Rightarrow> bool" where
  "looked e e' \<longleftrightarrow> held_delegations (e_vault e') = held_delegations (e_vault e) \<and>
     held_endorsements (e_vault e') = held_endorsements (e_vault e) \<and>
     trust_part (e_vault e') = trust_part (e_vault e) \<and> same_config e e' \<and>
     shifted (e_clock e) (e_clock e')"

lemma Grants_other:
  "held_delegations (fst (Grants sv t v)) = held_delegations v"
  "held_endorsements (fst (Grants sv t v)) = held_endorsements v"
  by (simp_all add: Grants_def Let_def)

lemma matchGrant_looked: "looked e (snd (run_state (matchGrant msg) e))"
  using engine_write_trust [OF engine_write.listed]
  by (auto simp: matchGrant_def on_vault_at_def run_on_vault looked_def same_config_def Grants_other
      split: sum.split)

lemma matchDelegation_Some:
  assumes "run_state (matchDelegation msg) e = (Some d, e')"
  shows "covered_by_delegation e msg"
proof -
  from assms have has: "e_has_delegations e" by (auto simp: matchDelegation_def split: if_splits)
  let ?v = "e_vault e" let ?r = "UsableDelegations (e_saves e 0) (e_clock e 0) ?v"
  from assms has obtain ds where ds: "snd ?r = Inr ds" "findDelegation ds msg (e_clock e 1) = Some d"
    by (auto simp: matchDelegation_def on_vault_at_def run_on_vault rest_of_def split: sum.splits)
  then have d: "d \<in> set ds" "e_clock e 1 < as_time (dg_expires_at d)" "covers (dg_scope d) msg"
    by (auto simp: findDelegation_def dest: find_SomeD)
  obtain w held where w: "Delegations (e_saves e 0) (e_clock e 0) ?v = (w, Inr held)"
    "ds = filter (\<lambda>d. dg_approver_fingerprint d \<in> approvers w) (map hd_delegation held)"
    using ds(1) by (auto simp: UsableDelegations_def split: prod.splits sum.splits)
  then have "held = filter (delegation_live (e_clock e 0)) (held_delegations ?v)" "approvers w = approvers ?v"
    using Delegations_result [of "e_saves e 0" "e_clock e 0" ?v held]
      Delegations_doc(1) [of "e_saves e 0" "e_clock e 0" ?v] approvers_cong [of w ?v] by auto
  with w d obtain h where h: "h \<in> set (held_delegations ?v)" "d = hd_delegation h"
    "dg_approver_fingerprint d \<in> approvers ?v"
    by auto
  with has d show ?thesis unfolding covered_by_delegation_def by blast
qed

lemma matchEndorsement_Some:
  assumes "run_state (matchEndorsement req policy) e = (Some en, e')"
  shows "covered_by_endorsement e policy (rq_msg req)"
proof -
  from assms have has: "e_has_endorsements e" "requester_id (rq_msg req) \<noteq> []"
    by (auto simp: matchEndorsement_def split: if_splits)
  let ?v = "e_vault e" let ?r = "UsableEndorsements (e_saves e 0) (e_clock e 0) ?v"
  from assms has obtain es where es: "snd ?r = Inr es"
    "find_endorsement es (rq_msg req) (e_clock e 1) (MaxGrantTTL policy) = Some en"
    by (auto simp: matchEndorsement_def on_vault_at_def run_on_vault rest_of_def split: sum.splits)
  then have en: "en \<in> set es" "en_requester_fingerprint en = requester_id (rq_msg req)"
    "e_clock e 1 < as_time (en_expires_at en)"
    "as_time (en_expires_at en) \<le> e_clock e 1 + MaxGrantTTL policy" "covers (en_scope en) (rq_msg req)"
    by (auto simp: find_endorsement_def dest: find_SomeD)
  from en(1) UsableEndorsements_result [OF es(1)] obtain h where h: "h \<in> set (held_endorsements ?v)"
    "en = he_endorsement h" "HoldsKey (en_key_fingerprint en) ?v" "en_issuer_fingerprint en \<in> approvers ?v"
    "\<not> retractions_cover (retractionIndexLocked (e_clock e 0) ?v) en"
    by auto
  then show ?thesis using has en unfolding covered_by_endorsement_def Let_def by blast
qed

lemma looked_grounds:
  assumes "looked e e'"
  shows "covered_by_delegation e' msg \<Longrightarrow> covered_by_delegation e msg"
    "covered_by_endorsement e' policy msg \<Longrightarrow> covered_by_endorsement e policy msg"
  using assms delegation_grounds_mono [of e e' msg] endorsement_grounds_mono [of e e' policy msg]
  unfolding looked_def by blast+

section \<open>From an approval back to its grounds\<close>

lemma await_Decided: "await f n evs = Some (Decided h a) \<Longrightarrow> Answered h a \<in> set evs \<and> \<not> declined h a"
  by (induction f n evs rule: await.induct) (auto split: if_splits)

lemma answerToResponse_approved:
  assumes "approved (fst (fst (run_state (answerToResponse X req h a) e)))"
  shows "\<exists>an. a = Some an \<and> an_decision an = DECISION_APPROVE \<and>
           (ar_grant_only (rq_msg req) \<longrightarrow> 0 < an_grant_ttl an)"
proof (cases a)
  case None
  with assms show ?thesis by (simp add: answerToResponse_def approved_def)
next
  case (Some an)
  have "an_decision an = DECISION_APPROVE"
  proof (rule ccontr)
    assume "an_decision an \<noteq> DECISION_APPROVE"
    with assms Some show False by (simp add: answerToResponse_def approved_def Let_def)
  qed
  moreover have "\<not> (ar_grant_only (rq_msg req) \<and> an_grant_ttl an \<le> 0)"
  proof
    assume "ar_grant_only (rq_msg req) \<and> an_grant_ttl an \<le> 0"
    with assms Some show False by (simp add: answerToResponse_def approved_def Let_def split: if_splits)
  qed
  ultimately show ?thesis using Some by auto
qed

lemma prompt_approved:
  assumes "run_state (prompt_approvers X req policy evs) e = (Some (resp, art), e')" "approved resp"
  shows "somebody_approved (rq_msg req) evs"
proof -
  let ?hs = "eligible e (rq_origin req)"
  have "?hs \<noteq> []"
  proof
    assume "?hs = []"
    with assms show False by (auto simp: prompt_approvers_def approved_def)
  qed
  with assms obtain h a where d: "await (takeoff req ?hs) 0 evs = Some (Decided h a)"
    and r: "fst (run_state (answerToResponse X req h a) e) = (resp, art)"
    by (auto simp: prompt_approvers_def approved_def split: option.splits outcome.splits prod.splits)
  from answerToResponse_approved [of X req h a e] r assms(2) obtain an
    where "a = Some an" "an_decision an = DECISION_APPROVE" "ar_grant_only (rq_msg req) \<longrightarrow> 0 < an_grant_ttl an"
    by auto
  with await_Decided [OF d] show ?thesis unfolding somebody_approved_def by blast
qed

lemma from_promises_grounds:
  assumes "run_state (from_promises X req policy) e = (Some r, e')"
  shows "covered_by_grant e (rq_msg req) \<or>
     (rq_origin req = OriginLocal \<and> covered_by_delegation e (rq_msg req)) \<or>
     (rq_origin req = OriginPeerSigning \<and> covered_by_endorsement e policy (rq_msg req))"
proof -
  let ?msg = "rq_msg req"
  obtain g e1 where g: "run_state (matchGrant ?msg) e = (g, e1)" by fastforce
  have l1: "looked e e1" using matchGrant_looked [of e ?msg] g by simp
  show ?thesis
  proof (cases g)
    case (Some gr)
    with matchGrant_Some [of ?msg e gr e1] g show ?thesis unfolding covered_by_grant_def by blast
  next
    case gNone: None
    show ?thesis
    proof (cases "rq_origin req")
      case OriginLocal
      obtain d e2 where d: "run_state (matchDelegation ?msg) e1 = (d, e2)" by fastforce
      with assms g gNone OriginLocal have "d \<noteq> None" by (auto simp: from_promises_def Let_def split: option.splits)
      then obtain dl where "d = Some dl" by blast
      with matchDelegation_Some [of ?msg e1 dl e2] d looked_grounds(1) [OF l1] OriginLocal
      show ?thesis by blast
    next
      case OriginPeer
      with assms g gNone show ?thesis by (auto simp: from_promises_def Let_def)
    next
      case OriginPeerSigning
      obtain en e2 where en: "run_state (matchEndorsement req policy) e1 = (en, e2)" by fastforce
      with assms g gNone OriginPeerSigning have "en \<noteq> None" by (auto simp: from_promises_def Let_def split: option.splits)
      then obtain ed where "en = Some ed" by blast
      with matchEndorsement_Some [of req policy e1 ed e2] en looked_grounds(2) [OF l1] OriginPeerSigning
      show ?thesis by blast
    qed
  qed
qed

definition barred :: "env \<Rightarrow> policy_document \<Rightarrow> Origin \<Rightarrow> approval_request \<Rightarrow> string \<Rightarrow> bool" where
  "barred X policy origin msg problem \<longleftrightarrow>
     ar_kind msg = REQUEST_KIND_OPAQUE_SIGN \<or> problem \<noteq> [] \<or>
     (ar_grant_only msg \<and> origin \<noteq> OriginLocal) \<or>
     ev_action (Evaluate (x_lower X) policy msg) = ACTION_DENY"

lemma decide_barred:
  assumes "barred X policy (rq_origin req) (rq_msg req) problem"
  shows "\<exists>why src. run_state (decide X req policy problem evs) e = ((req, Some (deny src why, None)), e) \<and>
           src \<in> {DECISION_SOURCE_HARD_RULE, DECISION_SOURCE_POLICY}"
  using assms by (auto simp: decide_def barred_def Let_def)

lemma decide_grounds:
  assumes "run_state (decide X req policy problem evs) e = ((req', Some (resp, art)), e')" "approved resp"
  shows "\<not> barred X policy (rq_origin req) (rq_msg req) problem"
    and "(must_prompt (rq_msg req) = [] \<and> stands_approved X e policy (rq_origin req) (rq_msg req)) \<or>
         somebody_approved (rq_msg req) evs"
proof -
  show nb: "\<not> barred X policy (rq_origin req) (rq_msg req) problem"
  proof
    assume "barred X policy (rq_origin req) (rq_msg req) problem"
    from decide_barred [OF this, of evs e] assms show False by (auto simp: approved_def)
  qed
  let ?msg = "rq_msg req" let ?ev = "Evaluate (x_lower X) policy ?msg"
  show "(must_prompt ?msg = [] \<and> stands_approved X e policy (rq_origin req) ?msg) \<or> somebody_approved ?msg evs"
  proof (cases "must_prompt ?msg = []")
    case False
    define r2 where "r2 = (if ev_action ?ev = ACTION_APPROVE
      then req\<lparr>rq_prompt := add_warning (would_approve_text @ must_prompt ?msg) (rq_prompt req)\<rparr> else req)"
    have "fst (run_state (prompt_approvers X r2 policy evs) e) = Some (resp, art)"
      using assms(1) nb False by (auto simp: decide_def barred_def Let_def r2_def split: prod.splits)
    then have "somebody_approved (rq_msg r2) evs"
      using prompt_approved [OF _ assms(2)] by (metis prod.collapse)
    then show ?thesis by (simp add: r2_def split: if_splits)
  next
    case True
    consider "parkedBySession e req" | "ev_action ?ev = ACTION_APPROVE"
      | "\<not> parkedBySession e req" "ev_action ?ev \<noteq> ACTION_APPROVE" by blast
    then show ?thesis
    proof cases
      case 1
      then have "stands_approved X e policy (rq_origin req) ?msg"
        unfolding stands_approved_def by (auto simp: parkedBySession_def split: option.splits if_splits)
      with True show ?thesis by blast
    next
      case 2
      with True show ?thesis unfolding stands_approved_def by blast
    next
      case 3
      obtain p e1 where p: "run_state (from_promises X req policy) e = (p, e1)" by fastforce
      show ?thesis
      proof (cases p)
        case (Some r)
        with from_promises_grounds [of X req policy e r e1] p True show ?thesis
          unfolding stands_approved_def by blast
      next
        case None
        then have "fst (run_state (prompt_approvers X req policy evs) e1) = Some (resp, art)"
          using assms(1) nb True 3 p by (auto simp: decide_def barred_def Let_def split: prod.splits)
        then show ?thesis using prompt_approved [OF _ assms(2)] by (metis prod.collapse)
      qed
    qed
  qed
qed

section \<open>A whole submission\<close>

lemma VerifyRequest_id:
  "VerifyRequest L say fb (msg\<lparr>ar_request_id := i, ar_created_at := t\<rparr>) =
     (case VerifyRequest L say fb msg of (m, p) \<Rightarrow> (m\<lparr>ar_request_id := i, ar_created_at := t\<rparr>, p))"
  by (auto simp: VerifyRequest_def get_sshsig_def with_git_context_def split: operation.split option.split prod.split)

lemma filled_in_result:
  "\<exists>i t. fst (run_state (filled_in msg) e) = msg\<lparr>ar_request_id := i, ar_created_at := t\<rparr>"
  by (intro exI [of _ "ar_request_id (fst (run_state (filled_in msg) e))"]
      exI [of _ "ar_created_at (fst (run_state (filled_in msg) e))"], cases msg)
    (simp add: filled_in_def)

lemma completed_decision:
  "rs_decision (fst (run_state (completed X msg b resp) e)) = rs_decision resp"
  "rs_source (fst (run_state (completed X msg b resp) e)) = rs_source resp"
  by (auto simp: completed_def Let_def)

lemma factsFor_id [simp]: "factsFor (msg\<lparr>ar_request_id := i, ar_created_at := t\<rparr>) = factsFor msg"
  by (simp add: factsFor_def get_ssh_auth_def get_sshsig_def get_git_context_def requester_id_def
      requester_process_def key_fingerprint_def)

lemma id_views [simp]:
  "get_ssh_auth (msg\<lparr>ar_request_id := i, ar_created_at := t\<rparr>) = get_ssh_auth msg"
  "get_sshsig (msg\<lparr>ar_request_id := i, ar_created_at := t\<rparr>) = get_sshsig msg"
  "get_git_context (msg\<lparr>ar_request_id := i, ar_created_at := t\<rparr>) = get_git_context msg"
  "requester_id (msg\<lparr>ar_request_id := i, ar_created_at := t\<rparr>) = requester_id msg"
  "requester_process (msg\<lparr>ar_request_id := i, ar_created_at := t\<rparr>) = requester_process msg"
  "key_fingerprint (msg\<lparr>ar_request_id := i, ar_created_at := t\<rparr>) = key_fingerprint msg"
  by (simp_all add: getter_defs)

lemma id_irrelevant [simp]:
  "Evaluate ul policy (msg\<lparr>ar_request_id := i, ar_created_at := t\<rparr>) = Evaluate ul policy msg"
  "scopeFor (msg\<lparr>ar_request_id := i, ar_created_at := t\<rparr>) = scopeFor msg"
  "must_prompt (msg\<lparr>ar_request_id := i, ar_created_at := t\<rparr>) = must_prompt msg"
  by (simp_all add: Evaluate_def scopeFor_def must_prompt_def)

lemma grounds_id [simp]:
  "covers s (msg\<lparr>ar_request_id := i, ar_created_at := t\<rparr>) = covers s msg"
  "covered_by_grant e (msg\<lparr>ar_request_id := i, ar_created_at := t\<rparr>) = covered_by_grant e msg"
  "covered_by_delegation e (msg\<lparr>ar_request_id := i, ar_created_at := t\<rparr>) = covered_by_delegation e msg"
  "covered_by_endorsement e policy (msg\<lparr>ar_request_id := i, ar_created_at := t\<rparr>) =
     covered_by_endorsement e policy msg"
  "somebody_approved (msg\<lparr>ar_request_id := i, ar_created_at := t\<rparr>) evs = somebody_approved msg evs"
  "barred X policy origin (msg\<lparr>ar_request_id := i, ar_created_at := t\<rparr>) problem = barred X policy origin msg problem"
  "stands_approved X e policy origin (msg\<lparr>ar_request_id := i, ar_created_at := t\<rparr>) =
     stands_approved X e policy origin msg"
  by (simp_all add: covers_iff covered_by_grant_def covered_by_delegation_def covered_by_endorsement_def
      somebody_approved_def barred_def stands_approved_def)

lemma stands_approved_later:
  "later e e' \<Longrightarrow> stands_approved X e' policy origin msg \<Longrightarrow> stands_approved X e policy origin msg"
  using later_grounds [of e e'] unfolding stands_approved_def by metis

text \<open>A submission that ends: the decision it rests on and what was signed.\<close>

lemma submit_decided:
  assumes "run_state (submit X (Some msg0) body origin evs shown) e = (Some (Inr (resp, art)), e')"
  obtains i t e1 b display req answer remote e2 x e4
  where "later e e1"
    and "run_state (decide X (request_for X (e_policy e)
            ((fst (VerifyRequest (x_ssh X) (x_say X) (x_fallback X) msg0))\<lparr>ar_request_id := i, ar_created_at := t\<rparr>)
            b display origin) (e_policy e)
            (snd (VerifyRequest (x_ssh X) (x_say X) (x_fallback X) msg0)) evs) e1 =
         ((req, Some (answer, remote)), e2)"
    and "approved resp \<Longrightarrow> approved answer \<and>
           (\<exists>a. art = Some a \<and> SignApproval (x_ssh X) (x_response X) (e_identity e) (Some resp) = Inr a)"
    and "e' = snd (run_state (logEntry x) e4)" "log_works e \<Longrightarrow> log_works e4"
      "ae_event x = AUDIT_EVENT_DECISION" "ae_response x = Some resp" "ae_signed_approval x = art"
      "ae_project_shown x = shown" "ae_prompt_shown x = Text (rq_prompt req)"
proof -
  let ?V = "VerifyRequest (x_ssh X) (x_say X) (x_fallback X)"
  obtain msg1 e0 where f: "run_state (filled_in msg0) e = (msg1, e0)" by fastforce
  obtain i t where m1: "msg1 = msg0\<lparr>ar_request_id := i, ar_created_at := t\<rparr>"
    using filled_in_result [of msg0 e] f by auto
  obtain m p where V: "?V msg0 = (m, p)" by fastforce
  define msg where "msg = m\<lparr>ar_request_id := i, ar_created_at := t\<rparr>"
  have V1: "?V msg1 = (msg, p)" using VerifyRequest_id [where msg = msg0 and i = i and t = t] V m1 by (simp add: msg_def)
  from assms f V1 obtain display where display: "x_request X msg = Inr display"
    by (auto simp: submit_def split: sum.splits)
  define b where "b = (case body of None \<Rightarrow> display | Some given_body \<Rightarrow> given_body)"
  obtain e1 where e1: "run_state (logEntry ((entry_of AUDIT_EVENT_REQUEST (ar_request_id msg))
      \<lparr>ae_request := Some msg\<rparr>)) e0 = ((), e1)"
    by (metis old.unit.exhaust prod.exhaust)
  have l0: "later e e0" using filled_in_later [of e msg0] f by simp
  have l1: "later e e1"
    using later_trans [OF l0] logEntry_later [of e0] e1 by (metis snd_conv)
  have pol: "e_policy e0 = e_policy e" using later_grounds(5) [OF l0] .
  let ?req = "request_for X (e_policy e) msg b display origin"
  obtain req ans e2 where d: "run_state (decide X ?req (e_policy e) p evs) e1 = ((req, ans), e2)"
    by (metis prod.exhaust)
  from assms f V1 display e1 pol d obtain answer remote where ans: "ans = Some (answer, remote)"
    by (auto simp: submit_def b_def Let_def split: option.splits)
  obtain resp1 e3 where c: "run_state (completed X msg b answer) e2 = (resp1, e3)" by fastforce
  have id3: "e_identity e3 = e_identity e"
  proof -
    have "same_config e1 e2" using frameD [OF config.frame_decide] d by (metis snd_conv)
    moreover have "e_identity e3 = e_identity e2"
      using c by (auto simp: completed_def Let_def split: if_splits)
    ultimately show ?thesis using later_grounds(7) [OF l1] by (simp add: same_config_def)
  qed
  have last: "approved resp \<Longrightarrow> approved answer \<and>
      (\<exists>a. art = Some a \<and> SignApproval (x_ssh X) (x_response X) (e_identity e) (Some resp) = Inr a)"
  proof (cases "SignApproval (x_ssh X) (x_response X) (e_identity e3) (Some resp1)")
    case (Inr a)
    then have "resp = resp1" "art = Some a"
      using assms f V1 display e1 pol d ans c by (auto simp: submit_def b_def Let_def split: prod.splits)
    then show "approved resp \<Longrightarrow> ?thesis"
      using Inr id3 completed_decision(1) [of X msg b answer e2] c by (simp add: approved_def)
  next
    case (Inl err)
    have "fst (run_state (completed X msg b (deny DECISION_SOURCE_ERROR unsigned_text)) e3) = resp"
      using assms f V1 display e1 pol d ans c Inl by (auto simp: submit_def b_def Let_def split: prod.splits)
    then have "rs_decision resp = DECISION_DENY"
      using completed_decision(1) [of X msg b "deny DECISION_SOURCE_ERROR unsigned_text" e3] by simp
    then show "approved resp \<Longrightarrow> ?thesis" by (simp add: approved_def)
  qed
  define tail where "tail = (case SignApproval (x_ssh X) (x_response X) (e_identity e3) (Some resp1) of
       Inr a \<Rightarrow> State_Monad.return (resp1, Some a, remote)
     | Inl err \<Rightarrow> do {
         r \<leftarrow> completed X msg b (deny DECISION_SOURCE_ERROR unsigned_text);
         State_Monad.return (r, None, None)
       })"
  obtain r4 a4 rem4 e4 where t4: "run_state tail e3 = ((r4, a4, rem4), e4)" by (metis prod.exhaust)
  let ?x = "(entry_of AUDIT_EVENT_DECISION (ar_request_id msg))\<lparr>ae_request := Some msg,
      ae_response := Some r4, ae_signed_approval := a4, ae_remote_approval := rem4,
      ae_prompt_shown := Text (rq_prompt req), ae_project_shown := shown\<rparr>"
  have end4: "resp = r4" "art = a4" "e' = snd (run_state (logEntry ?x) e4)"
    using assms f V1 display e1 pol d ans c t4
    by (auto simp: submit_def b_def Let_def tail_def split: prod.splits sum.splits)
  have "state_io_rel (\<lambda>e e'. log_works e \<longrightarrow> log_works e') tail"
    unfolding tail_def by (intro writable.frame_cases writable.frame_bind writable.frame_return writable.frame_ends)
  then have "log_works e3 \<longrightarrow> log_works e4" using t4 by (metis frameD snd_conv)
  moreover have "log_works e \<longrightarrow> log_works e3"
    using frameD [OF writable.frame_ends(1)] frameD [OF writable.frame_logEntry]
      frameD [OF writable.frame_decide] frameD [OF writable.frame_ends(2)] f e1 d c
    by (metis snd_conv)
  ultimately have works: "log_works e \<Longrightarrow> log_works e4" by blast
  show thesis
    by (rule that [OF l1, of t i b display req answer remote e2 ?x e4])
      (use d ans V last end4 works in \<open>simp_all add: msg_def entry_of_def\<close>)
qed

section \<open>A concrete run\<close>

text \<open>The approver at the screen says yes.\<close>

definition demo_events :: "event list" where
  "demo_events = [Answered demo_handler (Some demo_yes)]"

lemma demo_decide:
  assumes "rq_msg req = demo_request" "rq_origin req = OriginLocal"
  shows "\<exists>r e'. run_state (decide demo_env req demo_policy [] demo_events) (demo_engine\<lparr>e_audit := l\<rparr>) =
           ((req, Some (r, None)), e') \<and> approved r \<and> rs_approver r = None \<and> rs_decided_at r = None"
proof -
  let ?e = "demo_engine\<lparr>e_audit := l\<rparr>"
  have ev: "ev_action (Evaluate id demo_policy demo_request) = ACTION_PROMPT"
    by (simp add: Evaluate_def demo_policy_def demo_request_def empty_request_def actionOr_def)
  have empty: "grants (e_vault ?e) = []" "held_delegations (e_vault ?e) = []"
    by (simp_all add: demo_engine_def empty_vault_def empty_document_def)
  have g: "\<exists>e1. run_state (matchGrant demo_request) ?e = (None, e1) \<and> later ?e e1"
    using empty by (simp add: matchGrant_def on_vault_at_def run_on_vault Grants_def findGrant_def later_def
        same_config_def demo_engine_def Let_def)
  obtain e1 where e1: "run_state (matchGrant demo_request) ?e = (None, e1)" "later ?e e1" using g by blast
  have d: "\<exists>e2. run_state (matchDelegation demo_request) e1 = (None, e2) \<and> same_config e1 e2"
    using e1(2) empty unfolding later_def
    by (auto simp: matchDelegation_def on_vault_at_def run_on_vault UsableDelegations_def Delegations_def
        liveDelegations_def findDelegation_def same_config_def split: sum.split)
  obtain e2 where e2: "run_state (matchDelegation demo_request) e1 = (None, e2)" "same_config ?e e2"
    using d e1(2) unfolding later_def same_config_def by metis
  have fp: "run_state (from_promises demo_env req demo_policy) ?e = (None, e2)"
    using assms e1(1) e2(1) by (simp add: from_promises_def Let_def)
  have h: "e_handlers e2 = [demo_handler]" "\<not> e_softLocked e2"
    using same_configD [OF e2(2)] by (simp_all add: demo_engine_def)
  have el: "eligible e2 OriginLocal = [demo_handler]"
    by (simp add: eligible_def h mayAnswerLocked_def is_remote_def demo_handler_def)
  have aw: "await (takeoff req [demo_handler]) 0 demo_events = Some (Decided demo_handler (Some demo_yes))"
    by (simp add: demo_events_def declined_def is_remote_def demo_handler_def)
  have ans: "\<exists>r. run_state (answerToResponse demo_env req demo_handler (Some demo_yes)) e2 = ((r, None), e2) \<and>
      approved r \<and> rs_approver r = None \<and> rs_decided_at r = None"
    using assms by (simp add: answerToResponse_def demo_yes_def demo_request_def empty_request_def approved_def Let_def)
  have mp: "must_prompt demo_request = []"
    by (simp add: must_prompt_def demo_request_def empty_request_def get_ssh_auth_def)
  have pk: "\<not> parkedBySession ?e req"
    using assms by (simp add: parkedBySession_def demo_request_def empty_request_def)
  have k: "ar_kind demo_request \<noteq> REQUEST_KIND_OPAQUE_SIGN" "\<not> ar_grant_only demo_request"
    by (simp_all add: demo_request_def empty_request_def)
  obtain r where r: "run_state (answerToResponse demo_env req demo_handler (Some demo_yes)) e2 = ((r, None), e2)"
    "approved r" "rs_approver r = None" "rs_decided_at r = None" using ans by blast
  have pr: "run_state (prompt_approvers demo_env req demo_policy demo_events) e2 = (Some (r, None), e2)"
    using assms el aw r(1) by (simp add: prompt_approvers_def)
  have "x_lower demo_env = id" by (simp add: demo_env_def)
  then have "run_state (decide demo_env req demo_policy [] demo_events) ?e = ((req, Some (r, None)), e2)"
    using assms ev mp pk k fp pr by (simp add: decide_def Let_def)
  with r show ?thesis by blast
qed

lemma demo_log_works: "log_works demo_engine"
  by (simp add: log_works_def demo_engine_def)

lemma rest_of_const [simp]: "rest_of (\<lambda>_. c) = (\<lambda>_. c)"
  by (simp add: rest_of_def fun_eq_iff)

lemma demo_signs: "\<exists>a. SignApproval (x_ssh demo_env) (x_response demo_env) toy_identity (Some r) = Inr a"
  by (simp add: SignApproval_def demo_env_def sign_identity_def toy_identity_def toy_signer_def)

lemma demo_log: "\<exists>l. run_state (logEntry z) demo_engine = ((), demo_engine\<lparr>e_audit := l\<rparr>)"
  by (simp add: logEntry_def demo_engine_def)

lemma demo_submit:
  "\<exists>resp art e'. run_state (submit demo_env (Some demo_request) None OriginLocal demo_events None) demo_engine =
     (Some (Inr (resp, art)), e') \<and> approved resp"
proof -
  have f: "run_state (filled_in demo_request) demo_engine = (demo_request, demo_engine)"
    by (simp add: filled_in_def demo_request_def)
  have v: "VerifyRequest L say fb demo_request = (demo_request, [])" for L say fb
    by (simp add: VerifyRequest_def demo_request_def empty_request_def get_sshsig_def)
  have x: "x_request demo_env m = Inr ''R''" for m by (simp add: demo_env_def)
  have pol: "e_policy demo_engine = demo_policy" by (simp add: demo_engine_def)
  let ?z = "(entry_of AUDIT_EVENT_REQUEST (ar_request_id demo_request))\<lparr>ae_request := Some demo_request\<rparr>"
  obtain l where l: "run_state (logEntry ?z) demo_engine = ((), demo_engine\<lparr>e_audit := l\<rparr>)"
    using demo_log by blast
  let ?req = "request_for demo_env demo_policy demo_request ''R'' ''R'' OriginLocal"
  have "rq_msg ?req = demo_request" "rq_origin ?req = OriginLocal" by (simp_all add: request_for_def Let_def)
  from demo_decide [OF this, of l] obtain r e2 where
    d: "run_state (decide demo_env ?req demo_policy [] demo_events) (demo_engine\<lparr>e_audit := l\<rparr>) =
        ((?req, Some (r, None)), e2)" and r: "approved r" by blast
  obtain r1 e3 where c: "run_state (completed demo_env demo_request ''R'' r) e2 = (r1, e3)" by fastforce
  have "same_config (demo_engine\<lparr>e_audit := l\<rparr>) e2" "same_config e2 e3"
    using frameD [OF config.frame_decide] frameD [OF config.frame_ends(2)] d c by (metis snd_conv)+
  then have "e_identity e3 = toy_identity" by (simp add: same_config_def demo_engine_def)
  then obtain a where a: "SignApproval (x_ssh demo_env) (x_response demo_env) (e_identity e3) (Some r1) = Inr a"
    using demo_signs by auto
  have "approved r1"
    using completed_decision(1) [of demo_env demo_request "''R''" r e2] c r by (simp add: approved_def)
  moreover have "\<exists>e'. run_state (submit demo_env (Some demo_request) None OriginLocal demo_events None) demo_engine =
     (Some (Inr (r1, Some a)), e')"
    using f v x pol l d c a by (simp add: submit_def Let_def split: prod.split)
  ultimately show ?thesis by blast
qed

section \<open>Properties\<close>

lemma submit_grounds:
  assumes "run_state (submit X (Some msg) body origin evs shown) e = (Some (Inr (resp, art)), e')"
    and "approved resp"
    and "VerifyRequest (x_ssh X) (x_say X) (x_fallback X) msg = (msg', problem)"
  shows "ar_kind msg \<noteq> REQUEST_KIND_OPAQUE_SIGN \<and> problem = [] \<and>
         (ar_grant_only msg \<longrightarrow> origin = OriginLocal) \<and>
         ev_action (Evaluate (x_lower X) (e_policy e) msg') \<noteq> ACTION_DENY \<and>
         ((must_prompt msg = [] \<and> stands_approved X e (e_policy e) origin msg') \<or> somebody_approved msg evs) \<and>
         (\<exists>a. art = Some a \<and> SignApproval (x_ssh X) (x_response X) (e_identity e) (Some resp) = Inr a)"
proof -
  obtain i t e1 b display req answer remote e2
    where l: "later e e1"
      and d: "run_state (decide X (request_for X (e_policy e) (msg'\<lparr>ar_request_id := i, ar_created_at := t\<rparr>)
            b display origin) (e_policy e) problem evs) e1 = ((req, Some (answer, remote)), e2)"
      and r: "approved resp \<Longrightarrow> approved answer \<and>
           (\<exists>a. art = Some a \<and> SignApproval (x_ssh X) (x_response X) (e_identity e) (Some resp) = Inr a)"
    by (rule submit_decided [OF assms(1)]) (use assms(3) in simp)
  have keep: "ar_kind msg' = ar_kind msg" "ar_grant_only msg' = ar_grant_only msg"
    "must_prompt msg' = must_prompt msg" "somebody_approved msg' evs = somebody_approved msg evs"
    using VerifyRequest_keeps [of "x_ssh X" "x_say X" "x_fallback X" msg] assms(3)
    by (simp_all add: must_prompt_def somebody_approved_def)
  note g = decide_grounds [OF d]
  have "approved answer" using r assms(2) by blast
  from g(1) [OF this] g(2) [OF this] have
    "\<not> barred X (e_policy e) origin msg' problem"
    "(must_prompt msg' = [] \<and> stands_approved X e1 (e_policy e) origin msg') \<or> somebody_approved msg' evs"
    by (simp_all add: request_for_def Let_def)
  then show ?thesis
    using stands_approved_later [OF l] keep r assms(2) unfolding barred_def by auto
qed

text \<open>
  C25: the grounds of an approval. When a submitted request is approved, it is not an unclassified
  payload, its git context was not found to describe another object, it is not a bare promise asked
  for over the peer channel and no rule of the policy denies it; then either an approver said yes -
  for a length of time, when only a promise was asked for - or nothing required a prompt and the
  approval stands on the session that parked the key, on an approving rule, on a promise kept here,
  on a delegation from a trusted approver (only for a local request) or on an endorsement by a
  trusted holder within this instance's own limit (only for a borrowed signature). The approval is
  signed by this instance.
\<close>

theorem submit_approval_grounds:
  assumes "run_state (submit X (Some msg) body origin evs shown) e = (Some (Inr (resp, art)), e')"
    and "approved resp"
    and "VerifyRequest (x_ssh X) (x_say X) (x_fallback X) msg = (msg', problem)"
  shows "ar_kind msg \<noteq> REQUEST_KIND_OPAQUE_SIGN \<and> problem = [] \<and>
         (ar_grant_only msg \<longrightarrow> origin = OriginLocal) \<and>
         ev_action (Evaluate (x_lower X) (e_policy e) msg') \<noteq> ACTION_DENY \<and>
         ((must_prompt msg = [] \<and> stands_approved X e (e_policy e) origin msg') \<or> somebody_approved msg evs) \<and>
         (\<exists>a. art = Some a \<and> SignApproval (x_ssh X) (x_response X) (e_identity e) (Some resp) = Inr a)"
  by (rule submit_grounds [OF assms])

theorem submit_approval_grounds_witness:
  "\<exists>resp art e'. run_state (submit demo_env (Some demo_request) None OriginLocal demo_events None) demo_engine =
     (Some (Inr (resp, art)), e') \<and> approved resp \<and>
     (\<exists>a. art = Some a \<and> SignApproval (x_ssh demo_env) (x_response demo_env) (e_identity demo_engine) (Some resp) = Inr a)"
proof -
  obtain resp art e' where s: "run_state (submit demo_env (Some demo_request) None OriginLocal demo_events None)
      demo_engine = (Some (Inr (resp, art)), e')" "approved resp"
    using demo_submit by blast
  obtain m p where "VerifyRequest (x_ssh demo_env) (x_say demo_env) (x_fallback demo_env) demo_request = (m, p)"
    by fastforce
  from submit_approval_grounds [OF s this] s show ?thesis by blast
qed

lemma logEntry_last:
  assumes "log_works e"
  shows "\<exists>i t. e_audit (snd (run_state (logEntry x) e)) =
           e_audit e @ [x\<lparr>ae_entry_id := i, ae_timestamp := Some t\<rparr>]"
proof -
  have "\<exists>i. x\<lparr>ae_entry_id := i, ae_timestamp := t\<rparr> = x\<lparr>ae_timestamp := t\<rparr>" for t
    by (rule exI [of _ "ae_entry_id x"]) simp
  with assms show ?thesis by (auto simp: logEntry_def log_works_def) metis+
qed



end
