(* ===== verification/Engine_Promises.thy ===== *)
theory Engine_Promises
  imports Engine_Safety
begin

text \<open>
  Promises over their life in the engine: how one answers a request and is accounted for, how it is
  extended, and what revoking one that another machine holds does and does not do.
\<close>

section \<open>Lemmas\<close>

lemma find_update_first_view:
  assumes "\<And>x. P (f x) = P x" "\<And>x. h (f x) = h x"
  shows "map_option h (find P (update_first Q f xs)) = map_option h (find P xs)"
  by (induction xs) (auto simp: assms)

lemma live_grant_Some:
  "live_grant gs i t = Some g \<Longrightarrow> g \<in> set gs \<and> gr_grant_id g = i \<and> t < as_time (gr_expires_at g)"
  by (auto simp: live_grant_def split: option.splits if_splits dest: find_SomeD)

lemma extendPromise_Inr:
  assumes "extendPromise X ident g extra mx now = Inr (g', artifact)"
  shows "minute \<le> extra" "0 < mx \<longrightarrow> extra \<le> mx" "g' = extendedGrant g extra now"
    "artifact = None \<longleftrightarrow> \<not> gr_delegated g"
    "artifact = Some s \<Longrightarrow>
       SignDelegation (x_ssh X) (x_delegation X) ident (Some (extended_delegation X ident g g')) = Inr s"
  using assms by (auto simp: extendPromise_def Let_def split: if_splits sum.splits)

lemma logEntry_rest:
  "e_vault (snd (run_state (logEntry x) e)) = e_vault e"
  "e_renewed (snd (run_state (logEntry x) e)) = e_renewed e"
  "e_notified (snd (run_state (logEntry x) e)) = e_notified e"
  by (auto simp: logEntry_def)

lemma store_extension_run:
  "fst (run_state (store_extension g a extra) e) =
     (case snd (ReplaceGrant (e_saves e 0) a (e_vault e)) of Inl err \<Rightarrow> Inl (NotStored err) | Inr _ \<Rightarrow> Inr a)"
  "e_vault (snd (run_state (store_extension g a extra) e)) = fst (ReplaceGrant (e_saves e 0) a (e_vault e))"
  "e_renewed (snd (run_state (store_extension g a extra) e)) = e_renewed e"
  by (auto simp: store_extension_def run_on_vault logEntry_rest split: sum.split prod.split
      dest: arg_cong [where f = "\<lambda>p. e_vault (snd p)"] arg_cong [where f = "\<lambda>p. e_renewed (snd p)"])

text \<open>Handing an extension over: whether it arrived, and what was sent.\<close>

lemma deliver_run:
  "run_state (deliver_extension g None) e = (Inr (), e)"
  "e_renew e = None \<Longrightarrow> run_state (deliver_extension g (Some s)) e = (Inl NoWayToHolder, e)"
  "e_renew e = Some f \<Longrightarrow> run_state (deliver_extension g (Some s)) e =
     (case f (gr_delegate_fingerprint g) s of None \<Rightarrow> Inr () | Some err \<Rightarrow> Inl (NotHandedOver err),
      e\<lparr>e_renewed := e_renewed e @ [(gr_delegate_fingerprint g, s)]\<rparr>)"
  by (simp_all add: deliver_extension_def)

definition after_listing :: "Engine \<Rightarrow> Engine" where
  "after_listing e = e\<lparr>e_vault := fst (Grants (e_saves e 0) (e_clock e 0) (e_vault e)),
     e_saves := rest_of (e_saves e), e_clock := rest_of (rest_of (e_clock e))\<rparr>"

text \<open>The part of an extension before anything is sent or written.\<close>

lemma ExtendGrant_run:
  "run_state (ExtendGrant X i extra) e =
     (if \<not> e_has_grants e then (Inl KeepsNoGrants, e)
      else case snd (Grants (e_saves e 0) (e_clock e 0) (e_vault e)) of
          Inl err \<Rightarrow> (Inl (CannotReadGrants err), e\<lparr>e_clock := rest_of (e_clock e),
             e_vault := fst (Grants (e_saves e 0) (e_clock e 0) (e_vault e)), e_saves := rest_of (e_saves e)\<rparr>)
        | Inr gs \<Rightarrow>
            (case live_grant gs i (e_clock e 1) of
               None \<Rightarrow> (Inl (NoLiveGrant i), after_listing e)
             | Some g \<Rightarrow>
                 if gr_revoke_pending g then (Inl PendingRevocation, after_listing e)
                 else case extendPromise X (e_identity e) g extra (MaxGrantTTL (e_policy e)) (e_clock e 1) of
                     Inl err \<Rightarrow> (Inl err, after_listing e)
                   | Inr (amended, artifact) \<Rightarrow>
                       (case run_state (deliver_extension g artifact) (after_listing e) of
                          (Inl err, e2) \<Rightarrow> (Inl err, e2)
                        | (Inr _, e2) \<Rightarrow> run_state (store_extension g amended extra) e2)))"
  by (auto simp: ExtendGrant_def on_vault_at_def run_on_vault rest_of_def [of _ 0] after_listing_def
      split: sum.split option.split prod.split)

section \<open>Properties\<close>

text \<open>
  a promise is only ever extended within bounds and never ahead of its holder. A successful
  extension is of a promise that was in the store, still running and not revoked, by at least a
  minute and at most the policy's longest, counted from now; one that another machine holds was
  signed anew and accepted by that machine before the record here changed.
\<close>

theorem ExtendGrant_bounds:
  assumes "run_state (ExtendGrant X i extra) e = (Inr g', e')"
  shows "minute \<le> extra \<and> extra \<le> MaxGrantTTL (e_policy e) \<and>
         (\<exists>g \<in> set (grants (e_vault e)). gr_grant_id g = i \<and> \<not> gr_revoke_pending g \<and>
            e_clock e 1 < as_time (gr_expires_at g) \<and> g' = extendedGrant g extra (e_clock e 1) \<and>
            (if gr_delegated g
             then \<exists>f s. e_renew e = Some f \<and> f (gr_delegate_fingerprint g) s = None \<and>
                    SignDelegation (x_ssh X) (x_delegation X) (e_identity e)
                      (Some (extended_delegation X (e_identity e) g g')) = Inr s \<and>
                    e_renewed e' = e_renewed e @ [(gr_delegate_fingerprint g, s)]
             else e_renewed e' = e_renewed e))"
proof -
  from assms obtain gs g amended artifact e2 where
    gs: "snd (Grants (e_saves e 0) (e_clock e 0) (e_vault e)) = Inr gs"
    and g: "live_grant gs i (e_clock e 1) = Some g" "\<not> gr_revoke_pending g"
    and p: "extendPromise X (e_identity e) g extra (MaxGrantTTL (e_policy e)) (e_clock e 1) = Inr (amended, artifact)"
    and d: "run_state (deliver_extension g artifact) (after_listing e) = (Inr (), e2)"
    and s: "run_state (store_extension g amended extra) e2 = (Inr g', e')"
    by (auto simp: ExtendGrant_run split: if_splits sum.splits option.splits prod.splits)
  have amended: "g' = amended"
    using store_extension_run(1) [of g amended extra e2] s by (simp split: sum.splits)
  have renewed: "e_renewed e' = e_renewed e2"
    using store_extension_run(3) [of g amended extra e2] s by simp
  have in_store: "g \<in> set (grants (e_vault e))" "gr_grant_id g = i" "e_clock e 1 < as_time (gr_expires_at g)"
    using live_grant_Some [OF g(1)] Grants_result [OF gs] by auto
  have "if gr_delegated g
      then \<exists>f s. e_renew e = Some f \<and> f (gr_delegate_fingerprint g) s = None \<and>
             SignDelegation (x_ssh X) (x_delegation X) (e_identity e)
               (Some (extended_delegation X (e_identity e) g g')) = Inr s \<and>
             e_renewed e' = e_renewed e @ [(gr_delegate_fingerprint g, s)]
      else e_renewed e' = e_renewed e"
  proof (cases artifact)
    case None
    with d extendPromise_Inr(4) [OF p] renewed show ?thesis by (auto simp: deliver_run after_listing_def)
  next
    case (Some sg)
    then obtain f where f: "e_renew e = Some f"
      using d by (cases "e_renew e") (auto simp: deliver_run(2) after_listing_def)
    have "f (gr_delegate_fingerprint g) sg = None"
      "e_renewed e2 = e_renewed e @ [(gr_delegate_fingerprint g, sg)]"
      using d Some f deliver_run(3) [of "after_listing e" f g sg]
      by (auto simp: after_listing_def split: option.splits)
    with f Some extendPromise_Inr(4,5) [OF p] amended renewed show ?thesis by auto
  qed
  then show ?thesis
    using extendPromise_Inr(1,2,3) [OF p] in_store g(2) amended MaxGrantTTL_pos [of "e_policy e"] by blast
qed

definition demo_grant :: grant where
  "demo_grant = newGrant ''g'' demo_request hour GrantReachSession 0"

definition promise_engine :: Engine where
  "promise_engine = demo_engine\<lparr>e_vault := with_grants (\<lambda>_. [demo_grant]) empty_vault\<rparr>"

lemma promise_engine_extends:
  "fst (run_state (ExtendGrant demo_env ''g'' hour) promise_engine) = Inr (extendedGrant demo_grant hour 5)"
proof -
  let ?e = "promise_engine"
  have v: "grants (e_vault ?e) = [demo_grant]" "e_saves ?e 0 = None" "e_clock ?e 0 = 5" "e_clock ?e 1 = 5"
    "e_has_grants ?e" "e_policy ?e = demo_policy" "e_saves ?e (Suc 0) = None"
    by (simp_all add: promise_engine_def demo_engine_def)
  have live: "grant_live 5 demo_grant" "gr_grant_id demo_grant = ''g''" "\<not> gr_revoke_pending demo_grant"
    "\<not> gr_delegated demo_grant"
    by (simp_all add: demo_grant_def grant_live_def)
  have gs: "snd (Grants None 5 (e_vault ?e)) = Inr [demo_grant]"
    using v live by (simp add: Grants_def Let_def)
  have lg: "live_grant [demo_grant] ''g'' 5 = Some demo_grant"
    using live by (simp add: live_grant_def grant_live_def)
  have mx: "MaxGrantTTL demo_policy = 8 * hour"
    by (simp add: MaxGrantTTL_def GrantTTLs_def demo_policy_def DefaultGrantTTLs_def)
  have ep: "extendPromise demo_env i demo_grant hour (MaxGrantTTL demo_policy) 5 =
      Inr (extendedGrant demo_grant hour 5, None)" for i
    using live by (simp add: extendPromise_def mx Let_def)
  have al: "grants (e_vault (after_listing ?e)) = [demo_grant]" "e_saves (after_listing ?e) 0 = None"
    using v live by (simp_all add: after_listing_def Grants_doc rest_of_def)
  have rp: "snd (ReplaceGrant None (extendedGrant demo_grant hour 5) (e_vault (after_listing ?e))) = Inr ()"
    using al by (simp add: ReplaceGrant_def extendedGrant_same_promise)
  show ?thesis
    using v gs lg live ep rp al
    by (simp add: ExtendGrant_run deliver_run store_extension_run split: prod.split)
qed

theorem ExtendGrant_bounds_witness:
  "fst (run_state (ExtendGrant demo_env ''g'' hour) promise_engine) = Inr (extendedGrant demo_grant hour 5) \<and>
   hour \<le> MaxGrantTTL (e_policy promise_engine)"
proof -
  have "run_state (ExtendGrant demo_env ''g'' hour) promise_engine = (Inr (extendedGrant demo_grant hour 5),
      snd (run_state (ExtendGrant demo_env ''g'' hour) promise_engine))"
    using promise_engine_extends by (metis prod.collapse)
  from ExtendGrant_bounds [OF this] promise_engine_extends show ?thesis by blast
qed

text \<open>
  a refused extension changes no promise. Unless the very write of the amended record failed,
  an extension that ends in an error leaves in the store exactly the promises that still run, each
  as it was.
\<close>

theorem ExtendGrant_refused:
  assumes "run_state (ExtendGrant X i extra) e = (Inl err, e')" "\<nexists>w. err = NotStored w" "e_has_grants e"
  shows "grants (e_vault e') = filter (grant_live (e_clock e 0)) (grants (e_vault e))"
proof -
  have listed: "grants (e_vault (after_listing e)) = filter (grant_live (e_clock e 0)) (grants (e_vault e))"
    by (simp add: after_listing_def Grants_doc)
  have deliver: "e_vault (snd (run_state (deliver_extension g a) e0)) = e_vault e0" for g a e0
    by (cases a; cases "e_renew e0") (simp_all add: deliver_run)
  have store: "fst (run_state (store_extension g a x) e0) \<noteq> Inl err" for g a x e0
    using assms(2) by (auto simp: store_extension_run split: sum.split)
  from assms(1,3) consider
      "e_vault e' = fst (Grants (e_saves e 0) (e_clock e 0) (e_vault e))"
    | g artifact where "run_state (deliver_extension g artifact) (after_listing e) = (Inl err, e')"
    | g a e2 where "run_state (store_extension g a extra) e2 = (Inl err, e')"
    by (auto simp: ExtendGrant_run after_listing_def split: if_splits sum.splits option.splits prod.splits)
  then show ?thesis
  proof cases
    case 1
    then show ?thesis by (simp add: Grants_doc)
  next
    case 2
    with deliver [of g artifact "after_listing e"] listed show ?thesis by simp
  next
    case 3
    with store [of g a extra e2] show ?thesis by simp
  qed
qed

theorem ExtendGrant_refused_witness:
  "grants (e_vault (snd (run_state (ExtendGrant demo_env ''other'' hour) promise_engine))) =
     filter (grant_live (e_clock promise_engine 0)) (grants (e_vault promise_engine))"
proof -
  have "snd (Grants (e_saves promise_engine 0) (e_clock promise_engine 0) (e_vault promise_engine)) = Inr [demo_grant]"
    by (simp add: promise_engine_def demo_engine_def Grants_def demo_grant_def grant_live_def Let_def)
  moreover have "live_grant [demo_grant] ''other'' t = None" for t
    by (simp add: live_grant_def demo_grant_def)
  moreover have has: "e_has_grants promise_engine" by (simp add: promise_engine_def demo_engine_def)
  ultimately have "fst (run_state (ExtendGrant demo_env ''other'' hour) promise_engine) = Inl (NoLiveGrant ''other'')"
    by (simp add: ExtendGrant_run)
  then have r: "run_state (ExtendGrant demo_env ''other'' hour) promise_engine =
      (Inl (NoLiveGrant ''other''), snd (run_state (ExtendGrant demo_env ''other'' hour) promise_engine))"
    by (metis prod.collapse)
  have n: "\<nexists>w. NoLiveGrant ''other'' = NotStored w" by simp
  show ?thesis by (rule ExtendGrant_refused [OF r n has])
qed

text \<open>
  a revocation that has not reached the holder stops nothing here. Marking a promise as revoked
  changes no answer this instance gives from its promises, while extending that promise is refused.
\<close>

theorem pending_revocation_answers:
  "map_option gr_grant_id (fst (run_state (matchGrant msg)
      (e\<lparr>e_vault := fst (MarkRevokePending sv i at (e_vault e))\<rparr>))) =
   map_option gr_grant_id (fst (run_state (matchGrant msg) e))"
proof -
  let ?m = "\<lambda>g. g\<lparr>gr_revoke_pending := True, gr_revoke_requested_at := Some at\<rparr>"
  let ?Q = "\<lambda>g. gr_grant_id g = i"
  let ?P = "\<lambda>g. grant_live (e_clock e 0) g \<and> e_clock e 1 < as_time (gr_expires_at g) \<and> covers (gr_scope g) msg"
  have marked: "grants (fst (MarkRevokePending sv i at v)) = grants v \<or>
      grants (fst (MarkRevokePending sv i at v)) = update_first ?Q ?m (grants v)" for v
    by (auto simp: MarkRevokePending_def split: option.split)
  have found: "fst (run_state (matchGrant msg) e0) =
      (if e_has_grants e0 \<and> (\<exists>gs. snd (Grants (e_saves e0 0) (e_clock e0 0) (e_vault e0)) = Inr gs)
       then find (\<lambda>g. grant_live (e_clock e0 0) g \<and> e_clock e0 1 < as_time (gr_expires_at g) \<and>
               covers (gr_scope g) msg) (grants (e_vault e0)) else None)" for e0
    using Grants_result [of "e_saves e0 0" "e_clock e0 0" "e_vault e0"]
    by (auto simp: matchGrant_def on_vault_at_def run_on_vault rest_of_def findGrant_def find_filter
        split: sum.split)
  have read: "(\<exists>gs. snd (Grants s t v) = Inr gs) \<longleftrightarrow> s = None \<or> \<not> list_ex (\<lambda>g. \<not> grant_live t g) (grants v)" for s t v
    by (auto simp: Grants_def Let_def save_then_Inr)
  have "list_ex (\<lambda>g. \<not> grant_live t g) (update_first ?Q ?m gs) = list_ex (\<lambda>g. \<not> grant_live t g) gs" for t gs
    by (induction gs) (auto simp: grant_live_def)
  moreover have "map_option gr_grant_id (find ?P (update_first ?Q ?m gs)) = map_option gr_grant_id (find ?P gs)" for gs
    by (rule find_update_first_view) (simp_all add: grant_live_def)
  ultimately show ?thesis
    using marked [of "e_vault e"] by (auto simp: found read)
qed

end
