(* ===== verification/Flights.thy ===== *)
theory Flights
  imports Engine_Safety
begin

text \<open>
  Requests that are out with approvers, \<^verbatim>\<open>src/pkg/approval/inflight.go\<close>, as a step relation. Several
  requests are out at once; each has a waiting loop of its own, the engine keeps an index of them by
  request identifier, and approvers register, are offered what is waiting, answer, fail, or lose
  their eligibility between any two steps. A loop and the index refer to the same flight, so flights
  live in a pool and are referred to by their place in it.
\<close>

section \<open>The state\<close>

text \<open>A flight with what its loop has counted: who was asked, who has reported, and how it ended.\<close>

record tracked =
  tk_flight :: inflight
  tk_asked :: "Handler list"
  tk_reported :: "nat list"
  tk_result :: "outcome option"

record sky =
  sk_engine :: Engine
  sk_pool :: "nat \<Rightarrow> tracked option"
  sk_index :: "string \<Rightarrow> nat option"

definition failed_count :: "tracked \<Rightarrow> nat" where
  "failed_count tk = length (tk_reported tk)"

definition land :: "nat \<Rightarrow> tracked \<Rightarrow> outcome \<Rightarrow> sky \<Rightarrow> sky" where
  "land p tk out s = s\<lparr>sk_pool := (sk_pool s)(p := Some (tk\<lparr>tk_flight := (tk_flight tk)\<lparr>fl_settled := True,
       fl_over := True\<rparr>, tk_result := Some out\<rparr>)),
     sk_index := (sk_index s)(fl_request_id (tk_flight tk) := None)\<rparr>"

definition joined :: "Handler \<Rightarrow> tracked \<Rightarrow> tracked" where
  "joined h tk =
     (let f = join_flight h (tk_flight tk)
      in tk\<lparr>tk_flight := f, tk_asked := (if fl_count f = fl_count (tk_flight tk) then tk_asked tk else tk_asked tk @ [h])\<rparr>)"

definition report_failure :: "nat \<Rightarrow> Handler \<Rightarrow> tracked \<Rightarrow> sky \<Rightarrow> sky" where
  "report_failure p h tk s =
     (let tk' = tk\<lparr>tk_reported := tk_reported tk @ [h_token h]\<rparr>
      in if allGone (tk_flight tk) (failed_count tk') then land p tk' NobodyLeft s
         else s\<lparr>sk_pool := (sk_pool s)(p := Some tk')\<rparr>)"

inductive sky_step :: "sky \<Rightarrow> sky \<Rightarrow> bool" where
  takes_off: "sk_pool s p = None \<Longrightarrow> hs = eligible (sk_engine s) (rq_origin req) \<Longrightarrow> hs \<noteq> [] \<Longrightarrow>
    sky_step s (s\<lparr>sk_pool := (sk_pool s)(p := Some \<lparr>tk_flight = takeoff req hs, tk_asked = hs,
        tk_reported = [], tk_result = None\<rparr>),
      sk_index := (sk_index s)(ar_request_id (rq_msg req) := Some p)\<rparr>)"
| registers: "h_token h \<notin> h_token ` set (e_handlers (sk_engine s)) \<Longrightarrow>
    sky_step s (s\<lparr>sk_engine := Register h (sk_engine s)\<rparr>)"
| unregisters: "sky_step s (s\<lparr>sk_engine := Unregister h (sk_engine s)\<rparr>)"
| suspends: "sky_step s (s\<lparr>sk_engine := SuspendLocalPrompts b (sk_engine s)\<rparr>)"
| offers: "sk_index s i = Some p \<Longrightarrow> sk_pool s p = Some tk \<Longrightarrow>
    mayAnswerLocked (sk_engine s) h (fl_origin (tk_flight tk)) \<Longrightarrow>
    sky_step s (s\<lparr>sk_pool := (sk_pool s)(p := Some (joined h tk))\<rparr>)"
| fails: "sk_pool s p = Some tk \<Longrightarrow> tk_result tk = None \<Longrightarrow> h \<in> set (tk_asked tk) \<Longrightarrow>
    h_token h \<notin> set (tk_reported tk) \<Longrightarrow> sky_step s (report_failure p h tk s)"
| declines: "sk_pool s p = Some tk \<Longrightarrow> tk_result tk = None \<Longrightarrow> h \<in> set (tk_asked tk) \<Longrightarrow>
    h_token h \<notin> set (tk_reported tk) \<Longrightarrow> declined h a \<Longrightarrow> sky_step s (report_failure p h tk s)"
| decides: "sk_pool s p = Some tk \<Longrightarrow> tk_result tk = None \<Longrightarrow> h \<in> set (tk_asked tk) \<Longrightarrow>
    h_token h \<notin> set (tk_reported tk) \<Longrightarrow> \<not> declined h a \<Longrightarrow> sky_step s (land p tk (Decided h a) s)"
| expires: "sk_pool s p = Some tk \<Longrightarrow> tk_result tk = None \<Longrightarrow> sky_step s (land p tk TimedOut s)"
| gives_up: "sk_pool s p = Some tk \<Longrightarrow> tk_result tk = None \<Longrightarrow> sky_step s (land p tk GivenUp s)"

inductive_cases sky_stepE: "sky_step s s'"

inductive reaches :: "sky \<Rightarrow> sky \<Rightarrow> bool" for s0 where
  base: "reaches s0 s0"
| next_step: "reaches s0 s \<Longrightarrow> sky_step s s' \<Longrightarrow> reaches s0 s'"

section \<open>The invariant\<close>

text \<open>
  The denominator is the number of approvers asked, nobody is asked twice, nobody reports twice or
  without having been asked, a peer's request is with no remote approver, and a flight that has not
  ended still has somebody who may answer.
\<close>

definition flight_ok :: "tracked \<Rightarrow> bool" where
  "flight_ok tk \<longleftrightarrow>
     fl_asked (tk_flight tk) = map h_token (tk_asked tk) \<and> distinct (fl_asked (tk_flight tk)) \<and>
     fl_count (tk_flight tk) = length (tk_asked tk) \<and>
     distinct (tk_reported tk) \<and> set (tk_reported tk) \<subseteq> h_token ` set (tk_asked tk) \<and>
     (\<forall>h \<in> set (tk_asked tk). is_remote h \<longrightarrow> fl_origin (tk_flight tk) = OriginLocal) \<and>
     fl_settled (tk_flight tk) = (tk_result tk \<noteq> None) \<and>
     (tk_result tk = None \<longrightarrow> length (tk_reported tk) < length (tk_asked tk)) \<and>
     (tk_result tk = Some NobodyLeft \<longrightarrow> set (tk_reported tk) = h_token ` set (tk_asked tk)) \<and>
     (\<forall>h a. tk_result tk = Some (Decided h a) \<longrightarrow>
        h \<in> set (tk_asked tk) \<and> h_token h \<notin> set (tk_reported tk) \<and> \<not> declined h a)"

definition sky_ok :: "sky \<Rightarrow> bool" where
  "sky_ok s \<longleftrightarrow> distinct (map h_token (e_handlers (sk_engine s))) \<and>
     (\<forall>p tk. sk_pool s p = Some tk \<longrightarrow> flight_ok tk)"

lemma sky_okD: "sky_ok s \<Longrightarrow> sk_pool s p = Some tk \<Longrightarrow> flight_ok tk"
  by (simp add: sky_ok_def)

lemma remove_token_distinct: "distinct (map h_token hs) \<Longrightarrow> distinct (map h_token (remove_token t hs))"
proof (induction hs)
  case (Cons h hs)
  have "set (remove_token t hs) \<subseteq> set hs" by (induction hs) auto
  with Cons show ?case by auto
qed simp

lemma takeoff_ok:
  assumes "distinct (map h_token (e_handlers e))" "eligible e (rq_origin req) \<noteq> []"
  shows "flight_ok \<lparr>tk_flight = takeoff req (eligible e (rq_origin req)), tk_asked = eligible e (rq_origin req),
           tk_reported = [], tk_result = None\<rparr>"
proof -
  have "distinct (map h_token (eligible e (rq_origin req)))"
    using assms(1) unfolding eligible_def by (rule distinct_map_filter)
  with assms(2) show ?thesis
    by (auto simp: flight_ok_def takeoff_def eligible_def mayAnswer_iff)
qed

lemma joined_ok:
  assumes "flight_ok tk" "mayAnswerLocked e h (fl_origin (tk_flight tk))"
  shows "flight_ok (joined h tk)"
proof (cases "fl_settled (tk_flight tk) \<or> fl_over (tk_flight tk) \<or> h_token h \<in> set (fl_asked (tk_flight tk))")
  case True
  then have "joined h tk = tk" by (simp add: joined_def join_flight_def Let_def)
  with assms show ?thesis by simp
next
  case False
  with assms show ?thesis
    by (auto simp: flight_ok_def joined_def join_flight_def Let_def mayAnswer_iff)
qed

lemma land_ok:
  assumes "flight_ok tk" "tk_result tk = None" "out \<noteq> NobodyLeft"
    and "\<And>h a. out = Decided h a \<Longrightarrow> h \<in> set (tk_asked tk) \<and> h_token h \<notin> set (tk_reported tk) \<and> \<not> declined h a"
  shows "flight_ok (tk\<lparr>tk_flight := (tk_flight tk)\<lparr>fl_settled := True, fl_over := True\<rparr>, tk_result := Some out\<rparr>)"
  using assms by (auto simp: flight_ok_def)

text \<open>As many distinct reports as approvers asked are reports by all of them.\<close>

lemma all_reported:
  assumes "distinct rs" "set rs \<subseteq> h_token ` set hs" "length hs \<le> length rs" "distinct (map h_token hs)"
  shows "set rs = h_token ` set hs"
proof -
  have "card (h_token ` set hs) = length hs"
    using assms(4) by (metis distinct_card list.set_map length_map)
  moreover have "card (set rs) = length rs" using assms(1) by (rule distinct_card)
  ultimately show ?thesis using assms(2,3) by (intro card_seteq) simp_all
qed

lemma report_ok:
  assumes "flight_ok tk" "tk_result tk = None" "h \<in> set (tk_asked tk)" "h_token h \<notin> set (tk_reported tk)"
  defines "tk' \<equiv> tk\<lparr>tk_reported := tk_reported tk @ [h_token h]\<rparr>"
  shows "\<not> allGone (tk_flight tk) (failed_count tk') \<Longrightarrow> flight_ok tk'"
    and "allGone (tk_flight tk) (failed_count tk') \<Longrightarrow>
      flight_ok (tk'\<lparr>tk_flight := (tk_flight tk')\<lparr>fl_settled := True, fl_over := True\<rparr>, tk_result := Some NobodyLeft\<rparr>)"
proof -
  show "\<not> allGone (tk_flight tk) (failed_count tk') \<Longrightarrow> flight_ok tk'"
    using assms by (auto simp: flight_ok_def tk'_def allGone_def failed_count_def)
  assume "allGone (tk_flight tk) (failed_count tk')"
  then have "set (tk_reported tk') = h_token ` set (tk_asked tk)"
    using assms by (intro all_reported) (auto simp: flight_ok_def allGone_def failed_count_def)
  then show "flight_ok (tk'\<lparr>tk_flight := (tk_flight tk')\<lparr>fl_settled := True, fl_over := True\<rparr>,
      tk_result := Some NobodyLeft\<rparr>)"
    using assms by (auto simp: flight_ok_def tk'_def)
qed

lemma pool_update_ok: "sky_ok s \<Longrightarrow> flight_ok tk \<Longrightarrow> sky_ok (s\<lparr>sk_pool := (sk_pool s)(p := Some tk)\<rparr>)"
  by (auto simp: sky_ok_def)

lemma index_update_ok [simp]: "sky_ok (s\<lparr>sk_index := ix\<rparr>) = sky_ok s"
  by (simp add: sky_ok_def)

lemma pool_index_update_ok:
  "sky_ok s \<Longrightarrow> flight_ok tk \<Longrightarrow> sky_ok (s\<lparr>sk_pool := (sk_pool s)(p := Some tk), sk_index := ix\<rparr>)"
  by (auto simp: sky_ok_def)

lemma sky_step_ok: "sky_step s s' \<Longrightarrow> sky_ok s \<Longrightarrow> sky_ok s'"
proof (induction rule: sky_step.induct)
  case (takes_off s p hs req)
  then show ?case using takeoff_ok [of "sk_engine s" req] by (auto intro!: pool_index_update_ok simp: sky_ok_def)
next
  case (registers h s)
  then show ?case by (auto simp: sky_ok_def Register_def)
next
  case (unregisters s h)
  then show ?case by (auto simp: sky_ok_def Unregister_def intro: remove_token_distinct)
next
  case (suspends s b)
  then show ?case by (auto simp: sky_ok_def SuspendLocalPrompts_def)
next
  case (offers s i p tk h)
  then show ?case using joined_ok sky_okD by (blast intro: pool_update_ok)
next
  case (fails s p tk h)
  with report_ok [OF sky_okD [OF fails(5,1)] fails(2,3,4)] show ?case
    by (auto simp: report_failure_def Let_def land_def intro!: pool_update_ok pool_index_update_ok)
next
  case (declines s p tk h a)
  with report_ok [OF sky_okD [OF declines(6,1)] declines(2,3,4)] show ?case
    by (auto simp: report_failure_def Let_def land_def intro!: pool_update_ok pool_index_update_ok)
next
  case (decides s p tk h a)
  with land_ok [OF sky_okD [OF decides(6,1)] decides(2)] show ?case
    by (auto simp: land_def intro!: pool_update_ok)
next
  case (expires s p tk)
  with land_ok [OF sky_okD [OF expires(3,1)] expires(2)] show ?case
    by (auto simp: land_def intro!: pool_update_ok)
next
  case (gives_up s p tk)
  with land_ok [OF sky_okD [OF gives_up(3,1)] gives_up(2)] show ?case
    by (auto simp: land_def intro!: pool_update_ok)
qed

lemma reaches_ok: "reaches s0 s \<Longrightarrow> sky_ok s0 \<Longrightarrow> sky_ok s"
  by (induction rule: reaches.induct) (auto intro: sky_step_ok)

text \<open>What has ended stays as it ended, and nobody joins it.\<close>

lemma ended_stays:
  assumes "sky_step s s'" "sky_ok s" "sk_pool s p = Some tk" "tk_result tk \<noteq> None"
  shows "sk_pool s' p = Some tk"
  using assms
proof (induction rule: sky_step.induct)
  case (offers s i q tk' h)
  then have "q = p \<Longrightarrow> joined h tk' = tk'"
    using sky_okD [of s p tk] by (auto simp: flight_ok_def joined_def join_flight_def Let_def)
  with offers show ?case by auto
qed (auto simp: report_failure_def Let_def land_def)

section \<open>One loop's events are a run\<close>

text \<open>
  The events one waiting loop can take: reports come from approvers that were asked and have not
  reported, and whoever joins may answer a request of that origin.
\<close>

definition after_report :: "Handler \<Rightarrow> tracked \<Rightarrow> tracked" where
  "after_report h tk = tk\<lparr>tk_reported := tk_reported tk @ [h_token h]\<rparr>"

fun plays :: "Engine \<Rightarrow> tracked \<Rightarrow> event list \<Rightarrow> bool" where
  "plays e tk [] \<longleftrightarrow> True"
| "plays e tk (Answered h a # evs) \<longleftrightarrow>
     h \<in> set (tk_asked tk) \<and> h_token h \<notin> set (tk_reported tk) \<and> plays e (after_report h tk) evs"
| "plays e tk (Fails h # evs) \<longleftrightarrow>
     h \<in> set (tk_asked tk) \<and> h_token h \<notin> set (tk_reported tk) \<and> plays e (after_report h tk) evs"
| "plays e tk (Joins h # evs) \<longleftrightarrow>
     mayAnswerLocked e h (fl_origin (tk_flight tk)) \<and> plays e (joined h tk) evs"
| "plays e tk (DeadlineExceeded # evs) \<longleftrightarrow> True"
| "plays e tk (Withdrawn # evs) \<longleftrightarrow> True"

definition ended :: "nat \<Rightarrow> outcome \<Rightarrow> sky \<Rightarrow> bool" where
  "ended p out s \<longleftrightarrow> (\<exists>tk. sk_pool s p = Some tk \<and> tk_result tk = Some out)"

lemma reaches_first: "sky_step s s' \<Longrightarrow> reaches s' s'' \<Longrightarrow> reaches s s''"
  by (rotate_tac, induction rule: reaches.induct) (blast intro: reaches.intros)+

lemma ended_land [simp]: "ended p out (land p tk out s)"
  by (simp add: ended_def land_def)

lemma after_report_simps [simp]:
  "tk_flight (after_report h tk) = tk_flight tk" "failed_count (after_report h tk) = failed_count tk + 1"
  "tk_result (after_report h tk) = tk_result tk"
  by (simp_all add: after_report_def failed_count_def)

lemma joined_simps [simp]:
  "tk_flight (joined h tk) = join_flight h (tk_flight tk)" "failed_count (joined h tk) = failed_count tk"
  "tk_result (joined h tk) = tk_result tk"
  by (simp_all add: joined_def failed_count_def Let_def)

lemma report_failure_alt:
  "report_failure p h tk s =
     (if allGone (tk_flight tk) (failed_count tk + 1) then land p (after_report h tk) NobodyLeft s
      else s\<lparr>sk_pool := (sk_pool s)(p := Some (after_report h tk))\<rparr>)"
  by (simp add: report_failure_def after_report_def [symmetric] Let_def)

lemma await_run:
  assumes "await (tk_flight tk) (failed_count tk) evs = Some out" "plays (sk_engine s) tk evs"
    and "sk_pool s p = Some tk" "sk_index s i = Some p" "tk_result tk = None"
  shows "\<exists>s'. reaches s s' \<and> ended p out s'"
  using assms
proof (induction evs arbitrary: tk s)
  case (Cons ev evs)
  let ?report = "\<lambda>h. s\<lparr>sk_pool := (sk_pool s)(p := Some (after_report h tk))\<rparr>"
  have missed: "\<exists>s'. reaches s s' \<and> ended p out s'"
    if step: "sky_step s (report_failure p h tk s)"
      and w: "(if allGone (tk_flight tk) (failed_count tk + 1) then Some NobodyLeft
             else await (tk_flight tk) (failed_count tk + 1) evs) = Some out"
      and pl: "plays (sk_engine s) (after_report h tk) evs" for h
  proof (cases "allGone (tk_flight tk) (failed_count tk + 1)")
    case True
    with step w have "sky_step s (land p (after_report h tk) out s)" by (simp add: report_failure_alt)
    then show ?thesis using reaches.intros ended_land by blast
  next
    case False
    then have "\<exists>s'. reaches (?report h) s' \<and> ended p out s'"
      using w pl Cons.prems by (intro Cons.IH [of "after_report h tk"]) auto
    with step False show ?thesis using reaches_first by (auto simp: report_failure_alt)
  qed
  have final: "\<exists>s'. reaches s s' \<and> ended p out s'" if "sky_step s (land p tk out s)"
    using that reaches.intros ended_land by blast
  show ?case
  proof (cases ev)
    case (Answered h a)
    show ?thesis
    proof (cases "declined h a")
      case True
      with Answered Cons.prems show ?thesis
        by (intro missed [of h]) (auto intro: sky_step.declines)
    next
      case False
      with Answered Cons.prems have "out = Decided h a" by simp
      with Answered Cons.prems False show ?thesis
        by (intro final) (auto intro: sky_step.decides)
    qed
  next
    case (Fails h)
    with Cons.prems show ?thesis by (intro missed [of h]) (auto intro: sky_step.fails)
  next
    case (Joins h)
    let ?s = "s\<lparr>sk_pool := (sk_pool s)(p := Some (joined h tk))\<rparr>"
    have "\<exists>s'. reaches ?s s' \<and> ended p out s'"
      using Joins Cons.prems by (intro Cons.IH [of "joined h tk"]) auto
    moreover have "sky_step s ?s" using Joins Cons.prems by (auto intro: sky_step.offers)
    ultimately show ?thesis using reaches_first by blast
  next
    case DeadlineExceeded
    with Cons.prems show ?thesis by (intro final) (auto intro: sky_step.expires)
  next
    case Withdrawn
    with Cons.prems show ?thesis by (intro final) (auto intro: sky_step.gives_up)
  qed
qed simp

section \<open>Properties\<close>


text \<open>
  a request is settled once. Whatever happens afterwards, nobody joins it, no later answer
  replaces its outcome, and its place in the pool never changes.
\<close>

theorem settled_once:
  assumes "reaches s s'" "sky_ok s" "sk_pool s p = Some tk" "tk_result tk = Some out"
  shows "sk_pool s' p = Some tk"
  using assms(1)
proof (induction rule: reaches.induct)
  case base
  then show ?case by (rule assms(3))
next
  case (next_step s1 s2)
  then show ?case using ended_stays [OF next_step(2)] reaches_ok [OF next_step(1) assms(2)] assms(4) by simp
qed


section \<open>Concrete flights\<close>

definition demo_flight_request :: "string \<Rightarrow> Request" where
  "demo_flight_request i = \<lparr>rq_msg = demo_request\<lparr>ar_request_id := i\<rparr>,
     rq_prompt = \<lparr>p_title = [], p_subject = [], p_details = [], p_warnings = []\<rparr>, rq_grant_ttls = [],
     rq_grant_max_ttl = 0, rq_grant_subject = [], rq_grant_machine = [], rq_origin = OriginLocal,
     rq_body = [], rq_display = []\<rparr>"

definition demo_tracked :: "string \<Rightarrow> tracked" where
  "demo_tracked i = \<lparr>tk_flight = takeoff (demo_flight_request i) [demo_handler], tk_asked = [demo_handler],
     tk_reported = [], tk_result = None\<rparr>"

definition demo_sky :: sky where
  "demo_sky = \<lparr>sk_engine = demo_engine, sk_pool = (\<lambda>_. None), sk_index = (\<lambda>_. None)\<rparr>"

lemma demo_eligible: "eligible demo_engine OriginLocal = [demo_handler]"
  by (simp add: eligible_def demo_engine_def mayAnswerLocked_def is_remote_def demo_handler_def)

lemma demo_sky_ok: "sky_ok demo_sky"
  by (simp add: sky_ok_def demo_sky_def demo_engine_def)

definition sky_with :: "(nat \<Rightarrow> tracked option) \<Rightarrow> (string \<Rightarrow> nat option) \<Rightarrow> sky" where
  "sky_with pool ix = \<lparr>sk_engine = demo_engine, sk_pool = pool, sk_index = ix\<rparr>"

lemma sky_with_takeoff:
  assumes "pool p = None"
  shows "sky_step (sky_with pool ix) (sky_with (pool(p := Some (demo_tracked i))) (ix(i := Some p)))"
proof -
  have "sky_step (sky_with pool ix) ((sky_with pool ix)\<lparr>
      sk_pool := (sk_pool (sky_with pool ix))(p := Some \<lparr>tk_flight = takeoff (demo_flight_request i) [demo_handler],
        tk_asked = [demo_handler], tk_reported = [], tk_result = None\<rparr>),
      sk_index := (sk_index (sky_with pool ix))(ar_request_id (rq_msg (demo_flight_request i)) := Some p)\<rparr>)"
    by (rule sky_step.takes_off) (use assms demo_eligible in \<open>simp_all add: sky_with_def demo_flight_request_def\<close>)
  then show ?thesis by (simp add: sky_with_def demo_flight_request_def demo_tracked_def)
qed

lemma sky_with_expires:
  assumes "pool p = Some (demo_tracked i)"
  shows "\<exists>tk. sky_step (sky_with pool ix) (sky_with (pool(p := Some tk)) (ix(i := None))) \<and> tk_result tk = Some TimedOut"
proof -
  have "sky_step (sky_with pool ix) (land p (demo_tracked i) TimedOut (sky_with pool ix))"
    by (rule sky_step.expires) (use assms in \<open>simp_all add: sky_with_def demo_tracked_def\<close>)
  then show ?thesis
    by (auto simp: land_def sky_with_def demo_tracked_def takeoff_def demo_flight_request_def)
qed

lemma demo_sky_with: "demo_sky = sky_with (\<lambda>_. None) (\<lambda>_. None)"
  by (simp add: demo_sky_def sky_with_def)

lemma demo_reaches_one:
  "reaches demo_sky (sky_with ((\<lambda>_. None)(0 := Some (demo_tracked i))) ((\<lambda>_. None)(i := Some 0)))"
  unfolding demo_sky_with by (intro reaches.next_step [OF reaches.base] sky_with_takeoff) simp


theorem settled_once_witness:
  "\<exists>s tk. reaches demo_sky s \<and> sk_pool s 0 = Some tk \<and> tk_result tk = Some TimedOut"
proof -
  let ?pool = "(\<lambda>_. None)(0 := Some (demo_tracked ''r''))" and ?ix = "(\<lambda>_. None)(''r'' := Some 0)"
  obtain tk where step: "sky_step (sky_with ?pool ?ix) (sky_with (?pool(0 := Some tk)) (?ix(''r'' := None)))"
    and tk: "tk_result tk = Some TimedOut"
    using sky_with_expires [of ?pool 0 "''r''" ?ix] by auto
  let ?s = "sky_with (?pool(0 := Some tk)) (?ix(''r'' := None))"
  have r: "reaches demo_sky ?s" using demo_reaches_one step by (rule reaches.next_step)
  have "sk_pool ?s 0 = Some tk" by (simp add: sky_with_def)
  from settled_once [OF reaches.base reaches_ok [OF r demo_sky_ok] this tk] r tk show ?thesis by blast
qed


text \<open>
  two requests out under one identifier share an entry of the index, and the first to land
  removes it: a request can be waiting, undecided, and no longer be offered to an approver that
  arrives.
\<close>

theorem same_id_unjoinable:
  "\<exists>s tk. reaches demo_sky s \<and> sk_pool s 1 = Some tk \<and> tk_result tk = None \<and> (\<forall>i. sk_index s i \<noteq> Some 1)"
proof -
  let ?p0 = "(\<lambda>_. None)(0 := Some (demo_tracked ''r''))" and ?i0 = "(\<lambda>_. None)(''r'' := Some 0)"
  let ?p1 = "?p0(1 := Some (demo_tracked ''r''))" and ?i1 = "?i0(''r'' := Some 1)"
  have 1: "reaches demo_sky (sky_with ?p1 ?i1)"
    using demo_reaches_one by (rule reaches.next_step) (rule sky_with_takeoff, simp)
  obtain tk where 2: "sky_step (sky_with ?p1 ?i1) (sky_with (?p1(0 := Some tk)) (?i1(''r'' := None)))"
    using sky_with_expires [of ?p1 0 "''r''" ?i1] by auto
  have "reaches demo_sky (sky_with (?p1(0 := Some tk)) (?i1(''r'' := None)))"
    using 1 2 by (rule reaches.next_step)
  moreover have "sk_pool (sky_with (?p1(0 := Some tk)) (?i1(''r'' := None))) 1 = Some (demo_tracked ''r'')"
    by (simp add: sky_with_def)
  moreover have "tk_result (demo_tracked ''r'') = None" by (simp add: demo_tracked_def)
  moreover have "\<forall>i. sk_index (sky_with (?p1(0 := Some tk)) (?i1(''r'' := None))) i \<noteq> Some 1"
    by (simp add: sky_with_def)
  ultimately show ?thesis by blast
qed

end
