(* ===== verification/Pairing_Code.thy ===== *)
theory Pairing_Code
  imports Trust Codec
begin

text \<open>
  The pairing code, \<^verbatim>\<open>src/pkg/trust/code.go\<close>: the PIN and the older secret with what a person may
  type for them, the proof over the two identity keys, and the full code a QR carries. Random
  draws, the HMAC, the protobuf codec and the SSH key parser are arguments; the clock is the
  argument \<open>now\<close>. Runes a message would quote are kept in the error value.
\<close>

section \<open>The PIN and the secret\<close>

definition CodeValidity :: duration where "CodeValidity = 5 * minute"
definition MaxAttempts :: nat where "MaxAttempts = 5"
definition PINLength :: nat where "PINLength = 6"
definition secretLength :: nat where "secretLength = 10"
definition codeVersion :: int where "codeVersion = 1"
definition codePrefix :: string where "codePrefix = ''ladulas-pair-v1.''"
definition secretAlphabet :: string where "secretAlphabet = ''0123456789abcdefghjkmnpqrstvwxyz''"

datatype code_error =
    PINNotADigit rune
  | PINLengthIs nat
  | CodeNotPartOf rune
  | CodeLengthIs nat
  | CodeNeither
  | CodeBase64
  | CodeUnmarshal string
  | CodeVersionIs int
  | CodeEmpty
  | CodePIN code_error
  | CodeExpired
  | CodeKeyUnusable string

text \<open>\<open>n\<close> is the draw below one million, printed with six digits.\<close>

definition NewPIN :: "nat \<Rightarrow> string" where
  "NewPIN n = pad_digits 6 n"

definition PIN_Display :: "string \<Rightarrow> string" where
  "PIN_Display p = (if length p \<noteq> PINLength then p else take 3 p @ '' '' @ drop 3 p)"

fun pin_loop :: "rune list \<Rightarrow> code_error + string" where
  "pin_loop [] = Inr []"
| "pin_loop (r # rs) =
     (if r = 32 \<or> r = 45 \<or> r = 9 then pin_loop rs
      else if r < 48 \<or> 57 < r then Inl (PINNotADigit r)
      else map_sum id (\<lambda>s. byte_of r # s) (pin_loop rs))"

definition ParsePIN :: "string \<Rightarrow> code_error + string" where
  "ParsePIN text =
     (case pin_loop (go_runes (trim_space text)) of
        Inl e \<Rightarrow> Inl e
      | Inr b \<Rightarrow> if length b \<noteq> PINLength then Inl (PINLengthIs (length b)) else Inr b)"

text \<open>\<open>buf\<close> holds the random bytes; the low five bits of each choose a character.\<close>

definition NewSecret :: "bytes \<Rightarrow> string" where
  "NewSecret buf = map (\<lambda>b. secretAlphabet ! (of_char b mod 32)) buf"

definition Secret_Display :: "string \<Rightarrow> string" where
  "Secret_Display s = (if length s \<noteq> secretLength then s else take 5 s @ ''-'' @ drop 5 s)"

definition secret_rune :: "rune \<Rightarrow> rune" where
  "secret_rune r = (if r = 105 \<or> r = 108 then 49 else if r = 111 then 48 else if r = 117 then 118 else r)"

fun secret_loop :: "rune list \<Rightarrow> code_error + string" where
  "secret_loop [] = Inr []"
| "secret_loop (r # rs) =
     (if r = 45 \<or> r = 32 \<or> r = 9 then secret_loop rs
      else let q = secret_rune r
        in if q \<notin> of_char ` set secretAlphabet then Inl (CodeNotPartOf q)
           else map_sum id (\<lambda>s. byte_of q # s) (secret_loop rs))"

definition ParseSecret :: "(rune \<Rightarrow> rune) \<Rightarrow> string \<Rightarrow> code_error + string" where
  "ParseSecret ul text =
     (case secret_loop (map (to_lower ul) (go_runes (trim_space text))) of
        Inl e \<Rightarrow> Inl e
      | Inr b \<Rightarrow> if length b \<noteq> secretLength then Inl (CodeLengthIs (length b)) else Inr b)"

definition Secret_Equal :: "string \<Rightarrow> string \<Rightarrow> bool" where
  "Secret_Equal s other \<longleftrightarrow> s = other"

section \<open>The older proof\<close>

definition proofPrefix :: string where "proofPrefix = ''ladulas-pairing-v1''"
definition confirmationPrefix :: string where "confirmationPrefix = ''ladulas-pairing-v1-response''"

definition key_blob :: "ssh_public_key option \<Rightarrow> bytes" where
  "key_blob key = getf pk_marshal [] key"

definition mac_input :: "string \<Rightarrow> ssh_public_key option \<Rightarrow> ssh_public_key option \<Rightarrow> bytes" where
  "mac_input prefix listener dialler =
     prefix @ [CHR 0x00] @ ssh_string (key_blob listener) @ ssh_string (key_blob dialler)"

definition mac ::
    "(bytes \<Rightarrow> bytes \<Rightarrow> bytes) \<Rightarrow> string \<Rightarrow> string \<Rightarrow> ssh_public_key option \<Rightarrow> ssh_public_key option
       \<Rightarrow> bytes" where
  "mac hmac secret prefix listener dialler = hmac secret (mac_input prefix listener dialler)"

definition Proof where
  "Proof hmac secret listener dialler = mac hmac secret proofPrefix listener dialler"

definition Confirmation where
  "Confirmation hmac secret listener dialler = mac hmac secret confirmationPrefix listener dialler"

definition VerifyProof where
  "VerifyProof hmac secret listener dialler proof_bytes \<longleftrightarrow>
     Proof hmac secret listener dialler = proof_bytes"

definition VerifyConfirmation where
  "VerifyConfirmation hmac secret listener dialler confirmation \<longleftrightarrow>
     Confirmation hmac secret listener dialler = confirmation"

section \<open>The full code\<close>

record pairing_code =
  pc_version :: int
  pc_pin :: string
  pc_secret :: string
  pc_identity_public_key :: bytes
  pc_addresses :: "string list"
  pc_instance_name :: string
  pc_expires_at :: timestamp
  pc_tunnel_address :: string
  pc_tunnel_version :: "32 word"

definition empty_code :: pairing_code where
  "empty_code = \<lparr>pc_version = 0, pc_pin = [], pc_secret = [], pc_identity_public_key = [],
     pc_addresses = [], pc_instance_name = [], pc_expires_at = None, pc_tunnel_address = [],
     pc_tunnel_version = 0\<rparr>"

definition EncodeCode :: "(pairing_code \<Rightarrow> string + bytes) \<Rightarrow> pairing_code \<Rightarrow> string + string" where
  "EncodeCode marshal code =
     (case marshal code of
        Inl e \<Rightarrow> Inl (''trust: encode the pairing code: '' @ e)
      | Inr body \<Rightarrow> Inr (codePrefix @ b64_encode url_alphabet False body))"

definition NewCode ::
    "string \<Rightarrow> string \<Rightarrow> string \<Rightarrow> ssh_public_key \<Rightarrow> string list \<Rightarrow> time \<Rightarrow> pairing_code" where
  "NewCode pin secret name pub addresses expires =
     \<lparr>pc_version = codeVersion, pc_pin = pin, pc_secret = secret,
      pc_identity_public_key = pk_marshal pub, pc_addresses = addresses, pc_instance_name = name,
      pc_expires_at = Some expires, pc_tunnel_address = [], pc_tunnel_version = 0\<rparr>"

definition decode_typed :: "(rune \<Rightarrow> rune) \<Rightarrow> string \<Rightarrow> code_error + pairing_code" where
  "decode_typed ul text =
     (case ParsePIN text of
        Inr pin \<Rightarrow> Inr (empty_code\<lparr>pc_version := codeVersion, pc_pin := pin\<rparr>)
      | Inl _ \<Rightarrow>
          (case ParseSecret ul text of
             Inl _ \<Rightarrow> Inl CodeNeither
           | Inr secret \<Rightarrow> Inr (empty_code\<lparr>pc_version := codeVersion, pc_secret := secret\<rparr>)))"

definition normalise_pin :: "pairing_code \<Rightarrow> code_error + pairing_code" where
  "normalise_pin code =
     (if pc_pin code = [] then Inr code
      else case ParsePIN (pc_pin code) of
          Inl e \<Rightarrow> Inl (CodePIN e)
        | Inr pin \<Rightarrow> Inr (code\<lparr>pc_pin := pin\<rparr>))"

definition normalise_secret :: "(rune \<Rightarrow> rune) \<Rightarrow> pairing_code \<Rightarrow> code_error + pairing_code" where
  "normalise_secret ul code =
     (if pc_secret code = [] then Inr code
      else case ParseSecret ul (pc_secret code) of
          Inl e \<Rightarrow> Inl e
        | Inr secret \<Rightarrow> Inr (code\<lparr>pc_secret := secret\<rparr>))"

definition DecodeCode ::
    "(rune \<Rightarrow> rune) \<Rightarrow> (bytes \<Rightarrow> string + pairing_code) \<Rightarrow> time \<Rightarrow> string \<Rightarrow> code_error + pairing_code" where
  "DecodeCode ul unmarshal now given =
     (let text = trim_space given
      in if \<not> has_prefix text codePrefix then decode_typed ul text
         else case b64_decode url_alphabet False (drop (length codePrefix) text) of
             None \<Rightarrow> Inl CodeBase64
           | Some body \<Rightarrow>
               (case unmarshal body of
                  Inl e \<Rightarrow> Inl (CodeUnmarshal e)
                | Inr code \<Rightarrow>
                    if pc_version code \<noteq> codeVersion then Inl (CodeVersionIs (pc_version code))
                    else if pc_pin code = [] \<and> pc_secret code = [] then Inl CodeEmpty
                    else (case normalise_pin code of
                            Inl e \<Rightarrow> Inl e
                          | Inr code1 \<Rightarrow>
                              (case normalise_secret ul code1 of
                                 Inl e \<Rightarrow> Inl e
                               | Inr code2 \<Rightarrow>
                                   if pc_expires_at code2 \<noteq> None \<and> as_time (pc_expires_at code2) \<le> now
                                   then Inl CodeExpired else Inr code2))))"

definition CodeKey ::
    "(bytes \<Rightarrow> string + ssh_public_key) \<Rightarrow> pairing_code \<Rightarrow> code_error + ssh_public_key option" where
  "CodeKey parse code =
     (if pc_identity_public_key code = [] then Inr None
      else case parse (pc_identity_public_key code) of
          Inl e \<Rightarrow> Inl (CodeKeyUnusable e)
        | Inr pub \<Rightarrow> Inr (Some pub))"

section \<open>Lemmas\<close>

text \<open>The shape of a PIN and of a secret.\<close>

definition is_digit :: "char \<Rightarrow> bool" where
  "is_digit c \<longleftrightarrow> 48 \<le> (of_char c :: nat) \<and> (of_char c :: nat) \<le> 57"

definition is_pin :: "string \<Rightarrow> bool" where
  "is_pin p \<longleftrightarrow> length p = 6 \<and> list_all is_digit p"

definition is_secret :: "string \<Rightarrow> bool" where
  "is_secret s \<longleftrightarrow> length s = 10 \<and> list_all (\<lambda>c. c \<in> set secretAlphabet) s"

lemma byte_of_of_char [simp]: "byte_of (of_char c) = c"
  by (simp add: byte_of_def)

lemma is_digit_facts:
  assumes "is_digit c"
  shows "(of_char c :: nat) < 128" "not_space c" "(of_char c :: nat) \<notin> {9, 32, 45}"
    "\<not> ((of_char c :: nat) < 48 \<or> 57 < (of_char c :: nat))"
  using assms by (auto simp: is_digit_def not_space_def)

lemma secret_char_facts:
  assumes "c \<in> set secretAlphabet"
  shows "(of_char c :: nat) < 128" "not_space c" "(of_char c :: nat) \<notin> {9, 32, 45}"
    "secret_rune (of_char c) = of_char c" "to_lower ul (of_char c) = of_char c"
  using assms
  by (auto simp: secretAlphabet_def not_space_def secret_rune_def to_lower_def)

lemma pin_loop_digits:
  "list_all is_digit p \<Longrightarrow> pin_loop (map of_char p @ rs) = map_sum id (\<lambda>s. p @ s) (pin_loop rs)"
proof (induction p)
  case Nil
  then show ?case by (cases "pin_loop rs") simp_all
next
  case (Cons c p)
  then show ?case
    using is_digit_facts [of c] by (cases "pin_loop rs") (simp_all add: Cons)
qed

lemma pin_loop_result: "pin_loop rs = Inr b \<Longrightarrow> list_all is_digit b"
proof (induction rs arbitrary: b)
  case (Cons r rs)
  show ?case
  proof (cases "r = 32 \<or> r = 45 \<or> r = 9")
    case True
    with Cons show ?thesis by simp
  next
    case False
    with Cons.prems have "48 \<le> r" "r \<le> 57" by (auto split: if_splits)
    moreover from this Cons.prems False obtain s where "pin_loop rs = Inr s" "b = byte_of r # s"
      by (cases "pin_loop rs") (auto split: if_splits)
    ultimately show ?thesis using Cons.IH by (simp add: is_digit_def)
  qed
qed simp

lemma secret_loop_chars:
  "list_all (\<lambda>c. c \<in> set secretAlphabet) p \<Longrightarrow>
   secret_loop (map of_char p @ rs) = map_sum id (\<lambda>s. p @ s) (secret_loop rs)"
proof (induction p)
  case Nil
  then show ?case by (cases "secret_loop rs") simp_all
next
  case (Cons c p)
  then show ?case
    using secret_char_facts [of c] by (cases "secret_loop rs") (simp_all add: Cons Let_def)
qed

lemma secret_loop_result: "secret_loop rs = Inr b \<Longrightarrow> list_all (\<lambda>c. c \<in> set secretAlphabet) b"
proof (induction rs arbitrary: b)
  case (Cons r rs)
  show ?case
  proof (cases "r = 45 \<or> r = 32 \<or> r = 9")
    case True
    with Cons show ?thesis by simp
  next
    case False
    with Cons.prems obtain c s where "c \<in> set secretAlphabet" "secret_rune r = of_char c"
      "secret_loop rs = Inr s" "b = byte_of (secret_rune r) # s"
      by (cases "secret_loop rs") (auto simp: Let_def split: if_splits)
    then show ?thesis using Cons.IH by simp
  qed
qed simp

text \<open>Text built from such characters is ASCII and has nothing to trim.\<close>

lemma trim_space_visible: "s \<noteq> [] \<Longrightarrow> list_all not_space s \<Longrightarrow> trim_space s = s"
  by (rule trim_space_id) (auto simp: list_all_iff)

lemma is_pin_facts:
  assumes "is_pin p"
  shows "list_all not_space p" "is_ascii p" "list_all is_digit p" "p \<noteq> []" "length p = 6"
  using assms is_digit_facts by (auto simp: is_pin_def list_all_iff is_ascii_def)

lemma is_secret_facts:
  assumes "is_secret s"
  shows "list_all not_space s" "is_ascii s" "list_all (\<lambda>c. c \<in> set secretAlphabet) s" "s \<noteq> []"
    "length s = 10"
  using assms secret_char_facts by (auto simp: is_secret_def list_all_iff is_ascii_def)

lemma list_all_take_drop:
  "list_all P s \<Longrightarrow> list_all P (take n s)" "list_all P s \<Longrightarrow> list_all P (drop n s)"
  by (auto simp: list_all_iff dest: in_set_takeD in_set_dropD)

lemma ParsePIN_id: "is_pin p \<Longrightarrow> ParsePIN p = Inr p"
  using pin_loop_digits [of p "[]"] is_pin_facts [of p]
  by (simp add: ParsePIN_def trim_space_visible go_runes_ascii PINLength_def)

lemma ParsePIN_result: "ParsePIN text = Inr p \<Longrightarrow> is_pin p"
  using pin_loop_result
  by (auto simp: ParsePIN_def is_pin_def PINLength_def split: sum.splits if_splits)

lemma map_to_lower_secret:
  "list_all (\<lambda>c. c \<in> set secretAlphabet) s \<Longrightarrow> map (to_lower ul) (map of_char s) = map of_char s"
  using secret_char_facts(5) by (auto simp: list_all_iff)

lemma ParseSecret_id: "is_secret s \<Longrightarrow> ParseSecret ul s = Inr s"
  using secret_loop_chars [of s "[]"] is_secret_facts [of s] map_to_lower_secret [of s ul]
  by (simp add: ParseSecret_def trim_space_visible go_runes_ascii secretLength_def del: map_map)

lemma ParseSecret_result: "ParseSecret ul text = Inr s \<Longrightarrow> is_secret s"
  using secret_loop_result
  by (auto simp: ParseSecret_def is_secret_def secretLength_def split: sum.splits if_splits)

lemma ParsePIN_Display: "is_pin p \<Longrightarrow> ParsePIN (PIN_Display p) = Inr p"
proof -
  assume p: "is_pin p"
  note facts = is_pin_facts [OF p]
  let ?d = "take 3 p @ '' '' @ drop 3 p"
  have "trim_space ?d = ?d"
  proof (rule trim_space_id)
    show "not_space (hd ?d)" "not_space (last ?d)"
      using facts by (auto simp: list_all_iff hd_append last_drop hd_take)
  qed simp
  moreover have "go_runes ?d = map of_char ?d"
    using facts(2) by (intro go_runes_ascii) (simp add: is_ascii_def list_all_take_drop)
  moreover have "pin_loop (map of_char ?d) = Inr p"
    using pin_loop_digits [of "take 3 p" "map of_char ('' '' @ drop 3 p)"]
      pin_loop_digits [of "drop 3 p" "[]"] facts(3)
    by (simp add: list_all_take_drop)
  ultimately show ?thesis
    using facts(5) by (simp add: ParsePIN_def PIN_Display_def PINLength_def)
qed

lemma ParseSecret_Display: "is_secret s \<Longrightarrow> ParseSecret ul (Secret_Display s) = Inr s"
proof -
  assume s: "is_secret s"
  note facts = is_secret_facts [OF s]
  let ?d = "take 5 s @ ''-'' @ drop 5 s"
  have "trim_space ?d = ?d"
    using facts by (intro trim_space_visible) (auto simp: list_all_take_drop not_space_def)
  moreover have "go_runes ?d = map of_char ?d"
    using facts(2) by (intro go_runes_ascii) (simp add: is_ascii_def list_all_take_drop)
  moreover have "map (to_lower ul) (map of_char ?d) = map of_char ?d"
    using map_to_lower_secret [of "take 5 s" ul] map_to_lower_secret [of "drop 5 s" ul] facts(3)
    by (simp add: list_all_take_drop to_lower_def del: map_map)
  moreover have "secret_loop (map of_char ?d) = Inr s"
    using secret_loop_chars [of "take 5 s" "map of_char (''-'' @ drop 5 s)"]
      secret_loop_chars [of "drop 5 s" "[]"] facts(3)
    by (simp add: list_all_take_drop)
  ultimately show ?thesis
    using facts(5) by (simp add: ParseSecret_def Secret_Display_def secretLength_def del: map_map map_append)
qed

lemma NewPIN_is_pin: "is_pin (NewPIN n)"
proof -
  have "list_all is_digit (pad_digits k n)" for k
  proof (induction k arbitrary: n)
    case (Suc k)
    have "\<forall>d<10. is_digit (digit_char d)"
      by (auto simp: digit_char_def is_digit_def eval_nat_numeral less_Suc_eq)
    with Suc show ?case by simp
  qed simp
  moreover have "length (pad_digits k n) = k" for k by (induction k arbitrary: n) auto
  ultimately show ?thesis by (simp add: NewPIN_def is_pin_def)
qed

lemma NewSecret_is_secret: "length buf = secretLength \<Longrightarrow> is_secret (NewSecret buf)"
proof -
  have "secretAlphabet ! (n mod 32) \<in> set secretAlphabet" for n
    by (rule nth_mem) (simp add: secretAlphabet_def)
  then show "length buf = secretLength \<Longrightarrow> is_secret (NewSecret buf)"
    by (simp add: is_secret_def NewSecret_def secretLength_def list_all_iff)
qed

lemma mac_input_prefix:
  assumes "mac_input p l d = mac_input p' l' d'" "p \<in> {proofPrefix, confirmationPrefix}"
    "p' \<in> {proofPrefix, confirmationPrefix}"
  shows "p = p'"
proof (rule ccontr)
  assume "p \<noteq> p'"
  have "mac_input p l d ! length proofPrefix = mac_input p' l' d' ! length proofPrefix"
    using assms(1) by simp
  with \<open>p \<noteq> p'\<close> assms(2,3) show False
    by (auto simp: mac_input_def proofPrefix_def confirmationPrefix_def nth_append)
qed

lemma codePrefix_visible: "list_all not_space codePrefix"
  by (simp add: codePrefix_def not_space_def)

lemma DecodeCode_of_encoded:
  "DecodeCode ul unmarshal now (codePrefix @ b64_encode url_alphabet False body) =
     (case unmarshal body of
        Inl e \<Rightarrow> Inl (CodeUnmarshal e)
      | Inr code \<Rightarrow>
          if pc_version code \<noteq> codeVersion then Inl (CodeVersionIs (pc_version code))
          else if pc_pin code = [] \<and> pc_secret code = [] then Inl CodeEmpty
          else (case normalise_pin code of
                  Inl e \<Rightarrow> Inl e
                | Inr code1 \<Rightarrow>
                    (case normalise_secret ul code1 of
                       Inl e \<Rightarrow> Inl e
                     | Inr code2 \<Rightarrow>
                         if pc_expires_at code2 \<noteq> None \<and> as_time (pc_expires_at code2) \<le> now
                         then Inl CodeExpired else Inr code2)))"
proof -
  let ?t = "codePrefix @ b64_encode url_alphabet False body"
  have "list_all not_space ?t"
    using codePrefix_visible b64_encode_chars [OF alphabets_ok(2)] by (auto simp: list_all_iff)
  then have "trim_space ?t = ?t" by (intro trim_space_visible) (simp_all add: codePrefix_def)
  then show ?thesis
    using b64_decode_encode [OF alphabets_ok(2), of False body]
    by (simp add: DecodeCode_def Let_def)
qed

section \<open>Properties\<close>

text \<open>
  C30: a fresh PIN and a fresh secret are read back exactly from the way they are displayed, and
  whatever a person types, a successful parse is six digits or ten characters of the alphabet.
\<close>

theorem typed_code_roundtrip:
  "ParsePIN (PIN_Display (NewPIN n)) = Inr (NewPIN n) \<and>
   (length buf = 10 \<longrightarrow> ParseSecret ul (Secret_Display (NewSecret buf)) = Inr (NewSecret buf)) \<and>
   (\<forall>p. ParsePIN text = Inr p \<longrightarrow> is_pin p) \<and> (\<forall>s. ParseSecret ul text = Inr s \<longrightarrow> is_secret s)"
  using ParsePIN_Display [OF NewPIN_is_pin] NewSecret_is_secret ParseSecret_Display ParsePIN_result
    ParseSecret_result
  by (simp add: secretLength_def)

theorem typed_code_roundtrip_witness:
  "ParseSecret id (Secret_Display (NewSecret (replicate 10 (CHR ''a'')))) = Inr (NewSecret (replicate 10 (CHR ''a'')))"
  using typed_code_roundtrip [of 0 "replicate 10 (CHR ''a'')" id "[]"] by simp

text \<open>
  the input of the pairing HMAC determines what is proved: the role (a proof can not be replayed
  as a confirmation), the listener's key and the dialler's key, in that order.
\<close>

theorem mac_input_injective:
  assumes "mac_input p l d = mac_input p' l' d'"
    "p \<in> {proofPrefix, confirmationPrefix}" "p' \<in> {proofPrefix, confirmationPrefix}"
    "\<forall>k \<in> {l, d, l', d'}. length (key_blob k) < 2 ^ 32"
  shows "p = p' \<and> key_blob l = key_blob l' \<and> key_blob d = key_blob d'"
proof -
  have "p = p'" using mac_input_prefix assms(1-3) by blast
  with assms(1) have "ssh_string (key_blob l) @ ssh_string (key_blob d) =
      ssh_string (key_blob l') @ ssh_string (key_blob d')"
    by (simp add: mac_input_def)
  with assms(4) have "key_blob l = key_blob l'" "ssh_string (key_blob d) @ [] = ssh_string (key_blob d') @ []"
    using ssh_string_inject by (metis insertCI, metis append_Nil2 insertCI ssh_string_inject)
  then show ?thesis
    using \<open>p = p'\<close> assms(4) ssh_string_inject [of "key_blob d" "key_blob d'" "[]" "[]"] by auto
qed

theorem mac_input_injective_witness:
  "{q \<in> {proofPrefix, confirmationPrefix}. mac_input q None None = mac_input proofPrefix None None} = {proofPrefix}"
proof -
  have "q = proofPrefix"
    if "q \<in> {proofPrefix, confirmationPrefix}" "mac_input q None None = mac_input proofPrefix None None" for q
    using mac_input_injective [OF that(2) that(1)] by (simp add: key_blob_def)
  then show ?thesis by blast
qed

text \<open>
  a full code that was encoded with a PIN or a secret of the right shape is decoded to itself as
  long as it has not expired; from its expiry on it is refused as expired. The protobuf codec is only asked to read back what it wrote.
\<close>

theorem DecodeCode_EncodeCode:
  assumes "EncodeCode marshal code = Inr text"
    and unmarshal_marshal: "\<forall>body. marshal code = Inr body \<longrightarrow> unmarshal body = Inr code"
    and "pc_version code = codeVersion"
    and "pc_pin code = [] \<or> is_pin (pc_pin code)" "pc_secret code = [] \<or> is_secret (pc_secret code)"
    and "pc_pin code \<noteq> [] \<or> pc_secret code \<noteq> []"
  shows "DecodeCode ul unmarshal now text =
    (if pc_expires_at code \<noteq> None \<and> as_time (pc_expires_at code) \<le> now then Inl CodeExpired else Inr code)"
proof -
  obtain body where body: "marshal code = Inr body" "text = codePrefix @ b64_encode url_alphabet False body"
    using assms(1) by (auto simp: EncodeCode_def split: sum.splits)
  have "normalise_pin code = Inr code"
    using assms(4) ParsePIN_id by (auto simp: normalise_pin_def)
  moreover have "normalise_secret ul code = Inr code"
    using assms(5) ParseSecret_id by (auto simp: normalise_secret_def)
  ultimately show ?thesis
    using assms(2,3,6) body by (auto simp: DecodeCode_of_encoded)
qed

theorem DecodeCode_EncodeCode_witness:
  "DecodeCode id (\<lambda>_. Inr (NewCode (NewPIN 42) [] ''desk'' \<lparr>pk_type = [], pk_marshal = ''k''\<rparr> [] 100)) 7
     (codePrefix @ b64_encode url_alphabet False ''body'') =
   Inr (NewCode (NewPIN 42) [] ''desk'' \<lparr>pk_type = [], pk_marshal = ''k''\<rparr> [] 100)"
proof -
  let ?code = "NewCode (NewPIN 42) [] ''desk'' \<lparr>pk_type = [], pk_marshal = ''k''\<rparr> [] 100"
  have "EncodeCode (\<lambda>_. Inr ''body'') ?code = Inr (codePrefix @ b64_encode url_alphabet False ''body'')"
    by (simp add: EncodeCode_def)
  from DecodeCode_EncodeCode [OF this, of "\<lambda>_. Inr ?code" id 7] show ?thesis
    using NewPIN_is_pin [of 42] is_pin_facts(4) [of "NewPIN 42"] by (simp add: NewCode_def)
qed

end
