(* ===== verification/Random_Ids.thy ===== *)
theory Random_Ids
  imports Codec
begin

text \<open>
  Identifiers made of random bytes: request and handle identifiers
  (\<^verbatim>\<open>src/pkg/identity/identity.go\<close> \<open>NewRequestID\<close>, \<^verbatim>\<open>src/pkg/keystore/hardware.go\<close> \<open>newKeyHandle\<close>,
  \<^verbatim>\<open>handover.go\<close> \<open>newOfferID\<close>, \<^verbatim>\<open>wakeups.go\<close> \<open>NewWakeupInstanceID\<close>). All of them write the bytes in
  lower-case base 32 without padding. The bytes themselves are an argument.
\<close>

section \<open>Base 32\<close>

definition byte_bits :: "char \<Rightarrow> bool list" where
  "byte_bits c = (case c of Char b0 b1 b2 b3 b4 b5 b6 b7 \<Rightarrow> [b7, b6, b5, b4, b3, b2, b1, b0])"

text \<open>Five bits at a time, the last group filled up with zeros.\<close>

fun quintets :: "bool list \<Rightarrow> bool list list" where
  "quintets [] = []"
| "quintets [a] = [[a, False, False, False, False]]"
| "quintets [a, b] = [[a, b, False, False, False]]"
| "quintets [a, b, c] = [[a, b, c, False, False]]"
| "quintets [a, b, c, d] = [[a, b, c, d, False]]"
| "quintets (a # b # c # d # e # bits) = [a, b, c, d, e] # quintets bits"

definition quintet_value :: "bool list \<Rightarrow> nat" where
  "quintet_value bits = foldl (\<lambda>n b. 2 * n + of_bool b) 0 bits"

definition base32_alphabet :: string where
  "base32_alphabet = ''abcdefghijklmnopqrstuvwxyz234567''"

definition base32_lower :: "bytes \<Rightarrow> string" where
  "base32_lower s = map (\<lambda>q. base32_alphabet ! quintet_value q) (quintets (concat (map byte_bits s)))"

section \<open>The identifiers\<close>

definition NewRequestID_of :: "bytes \<Rightarrow> string" where
  "NewRequestID_of buf = base32_lower buf"

definition key_handle_prefix :: string where "key_handle_prefix = ''ladulas-key-''"

definition newKeyHandle :: "string + bytes \<Rightarrow> string + string" where
  "newKeyHandle random = map_sum id (\<lambda>buf. key_handle_prefix @ base32_lower buf) random"

definition newOfferID :: "string + bytes \<Rightarrow> string + string" where
  "newOfferID random =
     map_sum id (\<lambda>h. if has_prefix h key_handle_prefix then drop (length key_handle_prefix) h else h)
       (newKeyHandle random)"

definition NewWakeupInstanceID :: "string + bytes \<Rightarrow> string + string" where
  "NewWakeupInstanceID random = map_sum id base32_lower random"

section \<open>Lemmas\<close>

lemma length_byte_bits [simp]: "length (byte_bits c) = 8"
  by (cases c) (simp add: byte_bits_def)

lemma byte_bits_inject: "byte_bits c = byte_bits d \<longleftrightarrow> c = d"
  by (cases c; cases d) (auto simp: byte_bits_def)

lemma length_concat_bits: "length (concat (map byte_bits s)) = 8 * length s"
  by (induction s) auto

lemma concat_bits_inject:
  "concat (map byte_bits s) = concat (map byte_bits t) \<longleftrightarrow> s = t"
proof
  show "concat (map byte_bits s) = concat (map byte_bits t) \<Longrightarrow> s = t"
  proof (induction s arbitrary: t)
    case Nil
    then show ?case by (cases t) (auto dest: arg_cong [where f = length])
  next
    case (Cons c s)
    then have "length (concat (map byte_bits (c # s))) = length (concat (map byte_bits t))" by simp
    then obtain d u where t: "t = d # u" by (cases t) (auto simp: length_concat_bits)
    with Cons.prems have "byte_bits c = byte_bits d" "concat (map byte_bits s) = concat (map byte_bits u)"
      by (simp_all add: append_eq_append_conv)
    then show ?case using Cons.IH t by (simp add: byte_bits_inject)
  qed
qed simp

lemma length_quintets: "length (quintets bits) = (length bits + 4) div 5"
  by (induction bits rule: quintets.induct) auto

lemma quintet_shape: "q \<in> set (quintets bits) \<Longrightarrow> length q = 5"
  by (induction bits rule: quintets.induct) auto

lemma quintets_inject:
  "length xs = length ys \<Longrightarrow> quintets xs = quintets ys \<Longrightarrow> xs = ys"
proof (induction xs arbitrary: ys rule: quintets.induct)
  case (6 a b c d e bits)
  then obtain a' b' c' d' e' bits' where "ys = a' # b' # c' # d' # e' # bits'"
    by (auto simp: length_Suc_conv Suc_length_conv)
  with 6 show ?case by auto
qed (auto simp: length_Suc_conv Suc_length_conv)

lemma foldl_bits_less:
  "foldl (\<lambda>n b. 2 * n + of_bool b) (n :: nat) q < (n + 1) * 2 ^ length q"
proof (induction q arbitrary: n)
  case (Cons b q)
  have "foldl (\<lambda>n b. 2 * n + of_bool b) (2 * n + of_bool b) q < (2 * n + of_bool b + 1) * 2 ^ length q"
    by (rule Cons)
  also have "\<dots> \<le> (2 * n + 2) * 2 ^ length q" by (intro mult_right_mono) simp_all
  finally show ?case by simp
qed simp

lemma quintet_value_less: "length q = 5 \<Longrightarrow> quintet_value q < 32"
  using foldl_bits_less [of 0 q] by (simp add: quintet_value_def)

lemma foldl_bits_inject:
  "length p = length q \<Longrightarrow>
   foldl (\<lambda>n b. 2 * n + of_bool b) m p = foldl (\<lambda>n b. 2 * n + of_bool b) (n :: nat) q \<Longrightarrow> m = n \<and> p = q"
proof (induction p q arbitrary: m n rule: list_induct2)
  case (Cons a p b q)
  have "2 * m + of_bool a = 2 * n + (of_bool b :: nat) \<and> p = q"
    by (rule Cons.IH) (use Cons.prems in simp)
  moreover from this have "m = n" "a = b" by (cases a; cases b; simp; presburger)+
  ultimately show ?case by simp
qed simp

lemma quintet_value_inject:
  "length p = 5 \<Longrightarrow> length q = 5 \<Longrightarrow> quintet_value p = quintet_value q \<Longrightarrow> p = q"
  using foldl_bits_inject [of p q 0 0] by (simp add: quintet_value_def)

lemma base32_alphabet_distinct: "distinct base32_alphabet" "length base32_alphabet = 32"
  by (simp_all add: base32_alphabet_def)

lemma length_base32: "length (base32_lower s) = (8 * length s + 4) div 5"
  by (simp add: base32_lower_def length_quintets length_concat_bits)

lemma set_base32: "set (base32_lower s) \<subseteq> set base32_alphabet"
  using base32_alphabet_distinct(2) quintet_value_less quintet_shape
  by (auto simp: base32_lower_def intro!: nth_mem)

lemma base32_inject:
  assumes "length s = length t" "base32_lower s = base32_lower t"
  shows "s = t"
proof -
  let ?f = "\<lambda>q. base32_alphabet ! quintet_value q"
  have inj: "inj_on ?f {q. length q = 5}"
    by (rule inj_onI)
       (auto simp: nth_eq_iff_index_eq [OF base32_alphabet_distinct(1)] base32_alphabet_distinct(2)
          quintet_value_less intro: quintet_value_inject)
  have "quintets (concat (map byte_bits s)) = quintets (concat (map byte_bits t))"
    using assms(2) inj unfolding base32_lower_def
    by (rule map_inj_on [OF _ inj_on_subset]) (auto dest: quintet_shape)
  then have "concat (map byte_bits s) = concat (map byte_bits t)"
    using assms(1) by (intro quintets_inject) (simp_all add: length_concat_bits)
  then show ?thesis by (simp add: concat_bits_inject)
qed

lemma newOfferID_eq: "newOfferID random = map_sum id base32_lower random"
  by (cases random) (simp_all add: newOfferID_def newKeyHandle_def has_prefix_def)

text \<open>
  Identifiers name what was drawn: equally long draws give the same identifier only when
  they are the same draw, and an identifier is made of the 32 characters of the alphabet only, in
  the length its kind has.
\<close>

lemma random_ids:
  "length b = 10 \<Longrightarrow> length (NewRequestID_of b) = 16"
  "length b = 16 \<Longrightarrow> \<exists>i. NewWakeupInstanceID (Inr b) = Inr i \<and> length i = 26"
  "length b = length c \<Longrightarrow> NewRequestID_of b = NewRequestID_of c \<longleftrightarrow> b = c"
  "length b = length c \<Longrightarrow> newOfferID (Inr b) = newOfferID (Inr c) \<longleftrightarrow> b = c"
  "set (NewRequestID_of b) \<subseteq> set base32_alphabet"
proof -
  show "length b = 10 \<Longrightarrow> length (NewRequestID_of b) = 16"
    by (simp add: NewRequestID_of_def length_base32)
  show "length b = 16 \<Longrightarrow> \<exists>i. NewWakeupInstanceID (Inr b) = Inr i \<and> length i = 26"
    by (simp add: NewWakeupInstanceID_def length_base32)
  show "length b = length c \<Longrightarrow> NewRequestID_of b = NewRequestID_of c \<longleftrightarrow> b = c"
    using base32_inject [of b c] by (auto simp: NewRequestID_of_def)
  show "length b = length c \<Longrightarrow> newOfferID (Inr b) = newOfferID (Inr c) \<longleftrightarrow> b = c"
    using base32_inject [of b c] by (auto simp: newOfferID_eq)
  show "set (NewRequestID_of b) \<subseteq> set base32_alphabet"
    by (simp add: NewRequestID_of_def set_base32)
qed

end
