(* ===== verification/Vault_Settings.thy ===== *)
theory Vault_Settings
  imports Vault_Peers Random_Ids
begin

text \<open>
  The settings sections of the store document: what this instance publishes
  (\<^verbatim>\<open>src/pkg/keystore/publications.go\<close>), where it listens (\<^verbatim>\<open>listen.go\<close>), the tunnel and its keys
  (\<^verbatim>\<open>tunnel.go\<close>) and how peers and this instance are woken (\<^verbatim>\<open>wakeups.go\<close>). Conventions are those of the
  vault; random bytes are arguments, one per read.
\<close>

unbundle bit_operations_syntax

section \<open>Publications\<close>

abbreviation publications_of :: "vault \<Rightarrow> Publication list" where
  "publications_of v \<equiv> sd_publications (v_doc v)"

definition with_publications :: "(Publication list \<Rightarrow> Publication list) \<Rightarrow> vault \<Rightarrow> vault" where
  "with_publications f v = v\<lparr>v_doc := (v_doc v)\<lparr>sd_publications := f (publications_of v)\<rparr>\<rparr>"

definition matchesPublication :: "(string \<Rightarrow> string \<Rightarrow> bool) \<Rightarrow> Publication \<Rightarrow> string \<Rightarrow> bool" where
  "matchesPublication ef p ref \<longleftrightarrow> pb_project_id p = ref \<or> ef (pb_name p) ref \<or> pb_path p = ref"

definition Publication_of :: "(string \<Rightarrow> string \<Rightarrow> bool) \<Rightarrow> string \<Rightarrow> vault \<Rightarrow> Publication option" where
  "Publication_of ef ref v = find (\<lambda>p. matchesPublication ef p ref) (publications_of v)"

definition PutPublication :: "save_result \<Rightarrow> Publication \<Rightarrow> vault \<Rightarrow> vault \<times> (vault_error + unit)" where
  "PutPublication sv p v =
     (if pb_project_id p = [] then (v, Inl NeedsProjectId)
      else if list_ex (\<lambda>e. pb_project_id e = pb_project_id p) (publications_of v)
      then save sv (with_publications
             (update_first (\<lambda>e. pb_project_id e = pb_project_id p) (\<lambda>_. p)) v)
      else save sv (with_publications (\<lambda>ps. ps @ [p]) v))"

definition RemovePublication ::
    "(string \<Rightarrow> string \<Rightarrow> bool) \<Rightarrow> save_result \<Rightarrow> string \<Rightarrow> vault \<Rightarrow> vault \<times> (vault_error + Publication)" where
  "RemovePublication ef sv ref v =
     (case remove_first (\<lambda>p. matchesPublication ef p ref) (publications_of v) of
        (None, _) \<Rightarrow> (v, Inl (ErrNoSuchPublication ref))
      | (Some removed, kept) \<Rightarrow> save_then sv (with_publications (\<lambda>_. kept) v) removed)"

definition AutoPublish :: "vault \<Rightarrow> bool" where
  "AutoPublish v = (case sd_auto_publish (v_doc v) of None \<Rightarrow> True | Some b \<Rightarrow> b)"

definition SetAutoPublish :: "save_result \<Rightarrow> bool \<Rightarrow> vault \<Rightarrow> vault \<times> (vault_error + unit)" where
  "SetAutoPublish sv enabled v =
     save sv (v\<lparr>v_doc := (v_doc v)\<lparr>sd_auto_publish := Some enabled\<rparr>\<rparr>)"

section \<open>Where to listen\<close>

definition PeerListen :: "vault \<Rightarrow> peer_listen_settings option" where
  "PeerListen v = sd_peer_listen (v_doc v)"

definition SetPeerListen ::
    "save_result \<Rightarrow> time \<Rightarrow> peer_listen_settings option \<Rightarrow> vault \<Rightarrow> vault \<times> (vault_error + unit)" where
  "SetPeerListen sv now settings v =
     (let current = sd_peer_listen (v_doc v)
      in if getf pl_spec [] current = getf pl_spec [] settings \<and>
            getf pl_allow_public False current = getf pl_allow_public False settings \<and>
            (current = None) = (settings = None)
         then (v, Inr ())
         else save sv (v\<lparr>v_doc := (v_doc v)\<lparr>sd_peer_listen :=
                map_option (\<lambda>s. s\<lparr>pl_updated_at := Some now\<rparr>) settings\<rparr>\<rparr>))"

section \<open>The tunnel\<close>

definition tunnelKeySize :: nat where "tunnelKeySize = 32"

definition empty_tunnel :: tunnel_settings where
  "empty_tunnel = \<lparr>ts_enabled = False, ts_derp_map_url = [], ts_server_key = [], ts_preshared_key = [],
     ts_client_key = [], ts_region = [], ts_updated_at = None\<rparr>"

definition tunnel_of :: "vault \<Rightarrow> tunnel_settings" where
  "tunnel_of v = (case sd_tunnel (v_doc v) of None \<Rightarrow> empty_tunnel | Some s \<Rightarrow> s)"

definition TunnelSettings :: "vault \<Rightarrow> tunnel_settings option" where
  "TunnelSettings v = sd_tunnel (v_doc v)"

definition hasTunnelKeys :: "tunnel_settings \<Rightarrow> bool" where
  "hasTunnelKeys s \<longleftrightarrow> length (ts_server_key s) = tunnelKeySize \<and>
     length (ts_client_key s) = tunnelKeySize \<and> length (ts_preshared_key s) = tunnelKeySize"

text \<open>\<^verbatim>\<open>key[0] &= 248\<close> and \<^verbatim>\<open>key[31] = (key[31] & 127) | 64\<close> on thirty-two random bytes.\<close>

definition clamp :: "bytes \<Rightarrow> bytes" where
  "clamp key =
     (let key' = key[0 := byte_of (byte_at key 0 AND 248)]
      in key'[31 := byte_of ((byte_at key' 31 AND 127) OR 64)])"

definition newCurve25519Key :: "string + bytes \<Rightarrow> vault_error + bytes" where
  "newCurve25519Key random = map_sum NoRandomness clamp random"

definition generateTunnelKeys ::
    "string + bytes \<Rightarrow> string + bytes \<Rightarrow> string + bytes \<Rightarrow> tunnel_settings \<Rightarrow> vault_error + tunnel_settings" where
  "generateTunnelKeys r1 r2 r3 s =
     (case (if length (ts_server_key s) \<noteq> tunnelKeySize
            then map_sum id (\<lambda>k. s\<lparr>ts_server_key := k\<rparr>) (newCurve25519Key r1) else Inr s) of
        Inl e \<Rightarrow> Inl e
      | Inr s \<Rightarrow>
          (case (if length (ts_client_key s) \<noteq> tunnelKeySize
                 then map_sum id (\<lambda>k. s\<lparr>ts_client_key := k\<rparr>) (newCurve25519Key r2) else Inr s) of
             Inl e \<Rightarrow> Inl e
           | Inr s \<Rightarrow>
               if length (ts_preshared_key s) \<noteq> tunnelKeySize
               then map_sum NoRandomness (\<lambda>k. s\<lparr>ts_preshared_key := k\<rparr>) r3 else Inr s))"

definition putTunnelLocked ::
    "save_result \<Rightarrow> time \<Rightarrow> tunnel_settings \<Rightarrow> vault \<Rightarrow> vault \<times> (vault_error + tunnel_settings)" where
  "putTunnelLocked sv now s v =
     (let s' = s\<lparr>ts_updated_at := Some now\<rparr>
      in save_then sv (v\<lparr>v_doc := (v_doc v)\<lparr>sd_tunnel := Some s'\<rparr>\<rparr>) s')"

definition SetTunnelEnabled ::
    "save_result \<Rightarrow> time \<Rightarrow> string + bytes \<Rightarrow> string + bytes \<Rightarrow> string + bytes \<Rightarrow> bool \<Rightarrow> vault
       \<Rightarrow> vault \<times> (vault_error + tunnel_settings)" where
  "SetTunnelEnabled sv now r1 r2 r3 enabled v =
     (let s = tunnel_of v
      in if ts_enabled s = enabled \<and> (\<not> enabled \<or> hasTunnelKeys s) then (v, Inr s)
         else let s' = s\<lparr>ts_enabled := enabled\<rparr>
           in case (if enabled \<and> \<not> hasTunnelKeys s' then generateTunnelKeys r1 r2 r3 s' else Inr s') of
               Inl e \<Rightarrow> (v, Inl e)
             | Inr s'' \<Rightarrow> putTunnelLocked sv now s'' v)"

definition SetTunnelDERPMap ::
    "save_result \<Rightarrow> time \<Rightarrow> string \<Rightarrow> bool \<Rightarrow> vault \<Rightarrow> vault \<times> (vault_error + tunnel_settings)" where
  "SetTunnelDERPMap sv now url repick v =
     (let s = tunnel_of v
      in if ts_derp_map_url s = url \<and> (\<not> repick \<or> ts_region s = []) then (v, Inr s)
         else let s' = s\<lparr>ts_derp_map_url := url\<rparr>
           in putTunnelLocked sv now (if repick then s'\<lparr>ts_region := []\<rparr> else s') v)"

definition SetTunnelRegion ::
    "save_result \<Rightarrow> time \<Rightarrow> bytes \<Rightarrow> vault \<Rightarrow> vault \<times> (vault_error + unit)" where
  "SetTunnelRegion sv now region v =
     (let s = tunnel_of v
      in if ts_region s = region then (v, Inr ())
         else case putTunnelLocked sv now (s\<lparr>ts_region := region\<rparr>) v of
             (v', r) \<Rightarrow> (v', map_sum id (\<lambda>_. ()) r))"

section \<open>Wake-ups\<close>

abbreviation wakeups_of :: "vault \<Rightarrow> peer_wakeup list" where
  "wakeups_of v \<equiv> sd_peer_wakeups (v_doc v)"

definition with_wakeups :: "(peer_wakeup list \<Rightarrow> peer_wakeup list) \<Rightarrow> vault \<Rightarrow> vault" where
  "with_wakeups f v = v\<lparr>v_doc := (v_doc v)\<lparr>sd_peer_wakeups := f (wakeups_of v)\<rparr>\<rparr>"

definition PeerWakeup :: "string \<Rightarrow> vault \<Rightarrow> peer_wakeup option" where
  "PeerWakeup fp v = find (\<lambda>w. pw_peer_fingerprint w = fp) (wakeups_of v)"

definition sameRoute :: "peer_wakeup \<Rightarrow> peer_wakeup \<Rightarrow> bool" where
  "sameRoute a b \<longleftrightarrow> pw_route a = pw_route b \<and> as_time (pw_quiet_until a) = as_time (pw_quiet_until b)"

definition PutPeerWakeup :: "save_result \<Rightarrow> peer_wakeup \<Rightarrow> vault \<Rightarrow> vault \<times> (vault_error + unit)" where
  "PutPeerWakeup sv w v =
     (if pw_peer_fingerprint w = [] then (v, Inl RouteNamesNoPeer)
      else case find (\<lambda>e. pw_peer_fingerprint e = pw_peer_fingerprint w) (wakeups_of v) of
          Some existing \<Rightarrow>
            if sameRoute existing w then (v, Inr ())
            else save sv (with_wakeups
                   (update_first (\<lambda>e. pw_peer_fingerprint e = pw_peer_fingerprint w) (\<lambda>_. w)) v)
        | None \<Rightarrow> save sv (with_wakeups (\<lambda>ws. ws @ [w]) v))"

definition DropPeerWakeup :: "save_result \<Rightarrow> string \<Rightarrow> vault \<Rightarrow> vault \<times> (vault_error + bool)" where
  "DropPeerWakeup sv fp v =
     (if list_ex (\<lambda>w. pw_peer_fingerprint w = fp) (wakeups_of v)
      then save_then sv (with_wakeups (filter (\<lambda>w. pw_peer_fingerprint w \<noteq> fp)) v) True
      else (v, Inr False))"

definition empty_wakeup_settings :: wakeup_settings where
  "empty_wakeup_settings = \<lparr>ws_enabled = False, ws_relay_url = [], ws_instance_id = [],
     ws_platform = PUSH_PLATFORM_UNSPECIFIED, ws_device_token = [], ws_registered_at = None\<rparr>"

definition WakeupSettings :: "vault \<Rightarrow> wakeup_settings" where
  "WakeupSettings v = (case sd_wakeups (v_doc v) of None \<Rightarrow> empty_wakeup_settings | Some s \<Rightarrow> s)"

definition SetWakeupSettings ::
    "save_result \<Rightarrow> string + bytes \<Rightarrow> wakeup_settings option \<Rightarrow> vault \<Rightarrow> vault \<times> (vault_error + unit)" where
  "SetWakeupSettings sv random settings v =
     (let stored = (case settings of None \<Rightarrow> empty_wakeup_settings | Some s \<Rightarrow> s);
          current = sd_wakeups (v_doc v);
          chosen = (if ws_instance_id stored \<noteq> [] then Inr stored
                    else if getf ws_instance_id [] current \<noteq> [] \<and>
                            getf ws_relay_url [] current = ws_relay_url stored
                    then Inr (stored\<lparr>ws_instance_id := getf ws_instance_id [] current\<rparr>)
                    else map_sum NoRandomness (\<lambda>i. stored\<lparr>ws_instance_id := i\<rparr>) (NewWakeupInstanceID random))
      in case chosen of
          Inl e \<Rightarrow> (v, Inl e)
        | Inr s \<Rightarrow>
            if current = Some s then (v, Inr ())
            else save sv (v\<lparr>v_doc := (v_doc v)\<lparr>sd_wakeups := Some s\<rparr>\<rparr>))"

section \<open>Lemmas\<close>

lemma with_publications_simps [simp]:
  "publications_of (with_publications f v) = f (publications_of v)"
  "v_disk (with_publications f v) = v_disk v"
  by (simp_all add: with_publications_def)

lemma with_wakeups_simps [simp]:
  "wakeups_of (with_wakeups f v) = f (wakeups_of v)" "v_disk (with_wakeups f v) = v_disk v"
  by (simp_all add: with_wakeups_def)

lemma length_clamp [simp]: "length (clamp key) = length key"
  by (simp add: clamp_def Let_def)

lemma and_248: "(n AND 248) mod 8 = (0 :: nat)"
proof -
  have "take_bit 3 (n AND 248) = (0 :: nat)" by (simp only: take_bit_and) (simp add: take_bit_eq_mod)
  then show ?thesis by (simp add: take_bit_eq_mod)
qed

lemma or_64: "64 \<le> (m OR 64 :: nat)" "m < 128 \<Longrightarrow> (m OR 64 :: nat) < 128"
proof -
  have "(64 :: int) \<le> 64 OR int m" by (rule or_greater_eq) simp
  then have "int 64 \<le> int (m OR 64)" by (simp only: of_nat_or_eq or.commute) simp
  then show "64 \<le> (m OR 64 :: nat)" by (simp only: of_nat_le_iff)
  assume "m < 128"
  then have "int m OR 64 < 2 ^ 7" by (intro OR_upper) simp_all
  then have "int (m OR 64) < int 128" by (simp add: of_nat_or_eq)
  then show "(m OR 64 :: nat) < 128" by (simp only: of_nat_less_iff)
qed

lemma and_127: "(n AND 127) = n mod (128 :: nat)"
  using take_bit_eq_mask [of 7 n] by (simp add: take_bit_eq_mod mask_eq_exp_minus_1)

lemma clamp_shape:
  assumes "length key = 32"
  shows "byte_at (clamp key) 0 mod 8 = 0" "64 \<le> byte_at (clamp key) 31" "byte_at (clamp key) 31 < 128"
proof -
  have "byte_at (clamp key) 0 = (byte_at key 0 AND 248) mod 256"
    using assms by (simp add: clamp_def Let_def byte_at_def)
  then show "byte_at (clamp key) 0 mod 8 = 0" by (simp add: mod_mod_cancel and_248)
  have "byte_at (clamp key) 31 = ((byte_at key 31 AND 127) OR 64) mod 256"
    using assms by (simp add: clamp_def Let_def byte_at_def)
  moreover have "((byte_at key 31 AND 127) OR 64) < 128" by (rule or_64(2)) (simp add: and_127)
  ultimately show "64 \<le> byte_at (clamp key) 31" "byte_at (clamp key) 31 < 128"
    using or_64(1) [of "byte_at key 31 AND 127"] by simp_all
qed

lemma generateTunnelKeys_complete:
  assumes "generateTunnelKeys (Inr b1) (Inr b2) (Inr b3) s = r" "length b1 = 32" "length b2 = 32" "length b3 = 32"
  shows "\<exists>s'. r = Inr s' \<and> hasTunnelKeys s' \<and> ts_enabled s' = ts_enabled s \<and>
     (length (ts_server_key s) = 32 \<longrightarrow> ts_server_key s' = ts_server_key s) \<and>
     (length (ts_server_key s) \<noteq> 32 \<longrightarrow> ts_server_key s' = clamp b1) \<and>
     (length (ts_client_key s) = 32 \<longrightarrow> ts_client_key s' = ts_client_key s) \<and>
     (length (ts_preshared_key s) = 32 \<longrightarrow> ts_preshared_key s' = ts_preshared_key s)"
  using assms by (auto simp: generateTunnelKeys_def newCurve25519Key_def hasTunnelKeys_def tunnelKeySize_def)

lemma tunnel_of_put:
  "tunnel_of (fst (putTunnelLocked sv now s v)) = s\<lparr>ts_updated_at := Some now\<rparr>"
  by (simp add: tunnel_of_def putTunnelLocked_def Let_def save_then_def save_def split: option.split)

definition tunnel_keys :: "tunnel_settings \<Rightarrow> bytes \<times> bytes \<times> bytes" where
  "tunnel_keys s = (ts_server_key s, ts_client_key s, ts_preshared_key s)"

lemma SetTunnelEnabled_keeps:
  "hasTunnelKeys (tunnel_of v) \<Longrightarrow>
   tunnel_keys (tunnel_of (fst (SetTunnelEnabled sv now r1 r2 r3 b v))) = tunnel_keys (tunnel_of v) \<and>
   ts_enabled (tunnel_of (fst (SetTunnelEnabled sv now r1 r2 r3 b v))) = b"
  by (auto simp: SetTunnelEnabled_def Let_def tunnel_of_put tunnel_keys_def hasTunnelKeys_def)

lemma SetTunnelEnabled_on:
  assumes "length b1 = 32" "length b2 = 32" "length b3 = 32"
  shows "hasTunnelKeys (tunnel_of (fst (SetTunnelEnabled sv now (Inr b1) (Inr b2) (Inr b3) True v)))"
proof (cases "hasTunnelKeys (tunnel_of v)")
  case True
  then show ?thesis
    using SetTunnelEnabled_keeps [OF True] by (auto simp: tunnel_keys_def hasTunnelKeys_def)
next
  case False
  let ?s = "(tunnel_of v)\<lparr>ts_enabled := True\<rparr>"
  have n: "\<not> hasTunnelKeys ?s" using False by (simp add: hasTunnelKeys_def)
  obtain s' where "generateTunnelKeys (Inr b1) (Inr b2) (Inr b3) ?s = Inr s'" "hasTunnelKeys s'"
    using generateTunnelKeys_complete [OF refl assms] by blast
  then show ?thesis using False n
    by (simp add: SetTunnelEnabled_def Let_def tunnel_of_put) (simp add: hasTunnelKeys_def)
qed

section \<open>Properties\<close>

text \<open>
  The address survives the switch. Turning the tunnel on with thirty-two random bytes for each key
  leaves three whole keys, of which the two private ones are clamped as X25519 wants them; and from
  then on turning it off and on again, whatever the writes did and whatever randomness is at hand,
  keeps all three, so that peers go on holding the right address.
\<close>

theorem tunnel_keys_survive:
  assumes "length b1 = 32" "length b2 = 32" "length b3 = 32"
    and "v1 = fst (SetTunnelEnabled sv1 t1 (Inr b1) (Inr b2) (Inr b3) True v)"
    and "v2 = fst (SetTunnelEnabled sv2 t2 r1 r2 r3 False v1)"
    and "v3 = fst (SetTunnelEnabled sv3 t3 r4 r5 r6 True v2)"
  shows "hasTunnelKeys (tunnel_of v1) \<and> tunnel_keys (tunnel_of v3) = tunnel_keys (tunnel_of v1) \<and>
    (ts_server_key (tunnel_of v) = [] \<longrightarrow>
       byte_at (ts_server_key (tunnel_of v1)) 0 mod 8 = 0 \<and> 64 \<le> byte_at (ts_server_key (tunnel_of v1)) 31 \<and>
       byte_at (ts_server_key (tunnel_of v1)) 31 < 128)"
proof -
  have k1: "hasTunnelKeys (tunnel_of v1)" unfolding assms(4) using SetTunnelEnabled_on [OF assms(1-3)] .
  then have "tunnel_keys (tunnel_of v2) = tunnel_keys (tunnel_of v1)"
    unfolding assms(5) using SetTunnelEnabled_keeps by blast
  moreover from this k1 have "hasTunnelKeys (tunnel_of v2)" by (simp add: tunnel_keys_def hasTunnelKeys_def)
  then have "tunnel_keys (tunnel_of v3) = tunnel_keys (tunnel_of v2)"
    unfolding assms(6) using SetTunnelEnabled_keeps by blast
  moreover have "ts_server_key (tunnel_of v1) = clamp b1" if "ts_server_key (tunnel_of v) = []"
  proof -
    let ?s = "(tunnel_of v)\<lparr>ts_enabled := True\<rparr>"
    have n: "\<not> hasTunnelKeys (tunnel_of v)" "\<not> hasTunnelKeys ?s"
      using that by (simp_all add: hasTunnelKeys_def tunnelKeySize_def)
    from that have "length (ts_server_key ?s) \<noteq> 32" by simp
    with generateTunnelKeys_complete [OF refl assms(1-3), of ?s]
    obtain s' where "generateTunnelKeys (Inr b1) (Inr b2) (Inr b3) ?s = Inr s'" "ts_server_key s' = clamp b1"
      by blast
    then show ?thesis using n unfolding assms(4) by (simp add: SetTunnelEnabled_def Let_def tunnel_of_put)
  qed
  ultimately show ?thesis using k1 clamp_shape [OF assms(1)] by simp
qed

theorem tunnel_keys_survive_witness:
  "hasTunnelKeys (tunnel_of (fst (SetTunnelEnabled None 1 (Inr (replicate 32 (CHR ''a''))) (Inr (replicate 32 (CHR ''b'')))
     (Inr (replicate 32 (CHR ''c''))) True empty_vault)))"
  using tunnel_keys_survive [OF _ _ _ refl refl refl, of "replicate 32 (CHR ''a'')"
      "replicate 32 (CHR ''b'')" "replicate 32 (CHR ''c'')" None 1 empty_vault]
  by simp

text \<open>
  The wake-up identifier is kept for as long as the relay is: settings that name none get the current
  one when the relay is the same, and a fresh one, drawn from the random bytes, otherwise; the same
  settings again write nothing.
\<close>

theorem SetWakeupSettings_identity:
  assumes "ws_instance_id s = []" "sd_wakeups (v_doc v) = Some c" "ws_instance_id c \<noteq> []"
  shows "ws_instance_id (WakeupSettings (fst (SetWakeupSettings sv (Inr b) (Some s) v))) =
      (if ws_relay_url c = ws_relay_url s then ws_instance_id c else base32_lower b) \<and>
    (snd (SetWakeupSettings sv (Inr b) (Some s) v) = Inr () \<longrightarrow> ws_relay_url c = ws_relay_url s \<longrightarrow>
       fst (SetWakeupSettings sv' (Inr b') (Some s) (fst (SetWakeupSettings sv (Inr b) (Some s) v))) =
       fst (SetWakeupSettings sv (Inr b) (Some s) v))"
  using assms
  by (auto simp: SetWakeupSettings_def WakeupSettings_def NewWakeupInstanceID_def Let_def save_def
      split: option.splits)

theorem SetWakeupSettings_identity_witness:
  "ws_instance_id (WakeupSettings (fst (SetWakeupSettings None (Inr [])
      (Some (empty_wakeup_settings\<lparr>ws_enabled := True\<rparr>))
      (empty_vault\<lparr>v_doc := (v_doc empty_vault)\<lparr>sd_wakeups := Some (empty_wakeup_settings\<lparr>ws_instance_id := ''i''\<rparr>)\<rparr>\<rparr>))))
     = ''i''"
  using SetWakeupSettings_identity [of "empty_wakeup_settings\<lparr>ws_enabled := True\<rparr>"
      "empty_vault\<lparr>v_doc := (v_doc empty_vault)\<lparr>sd_wakeups := Some (empty_wakeup_settings\<lparr>ws_instance_id := ''i''\<rparr>)\<rparr>\<rparr>"
      "empty_wakeup_settings\<lparr>ws_instance_id := ''i''\<rparr>" None "[]"]
  by (simp add: empty_wakeup_settings_def)

text \<open>
  Setting the same address twice is one write: the second call, whatever the clock and the disk say,
  leaves the store as it is.
\<close>

theorem SetPeerListen_once:
  "fst (SetPeerListen sv' now' s (fst (SetPeerListen sv now s v))) = fst (SetPeerListen sv now s v)"
  by (cases s) (auto simp: SetPeerListen_def Let_def save_def getf_def split: option.splits)

end
