(* ===== verification/Ssh_Wire.thy ===== *)
theory Ssh_Wire
  imports Codec
begin

text \<open>
  The strict reader of the SSH wire encoding, \<^verbatim>\<open>src/pkg/agent/wire.go\<close>. A reader is the bytes that are
  left; a read returns the value and what is left after it, or \<^const>\<open>None\<close> where the code returns
  \<^verbatim>\<open>errShortRead\<close>. The lemmas say that a read succeeds exactly on what the encoding writes.
\<close>

section \<open>Reads\<close>

definition bytes_read :: "nat \<Rightarrow> bytes \<Rightarrow> (bytes \<times> bytes) option" where
  "bytes_read n buf = (if length buf < n then None else Some (take n buf, drop n buf))"

definition byteValue :: "bytes \<Rightarrow> (nat \<times> bytes) option" where
  "byteValue buf = map_option (\<lambda>(b, rest). (byte_at b 0, rest)) (bytes_read 1 buf)"

definition boolValue :: "bytes \<Rightarrow> (bool \<times> bytes) option" where
  "boolValue buf = map_option (\<lambda>(b, rest). (b \<noteq> 0, rest)) (byteValue buf)"

definition uint32Value :: "bytes \<Rightarrow> (nat \<times> bytes) option" where
  "uint32Value buf = map_option (\<lambda>(b, rest). (get_uint32 b, rest)) (bytes_read 4 buf)"

definition stringValue :: "bytes \<Rightarrow> (bytes \<times> bytes) option" where
  "stringValue buf =
     (case uint32Value buf of
        None \<Rightarrow> None
      | Some (n, rest) \<Rightarrow> if length rest < n then None else bytes_read n rest)"

section \<open>Lemmas\<close>

lemma get_uint32_take [simp]: "4 \<le> length b \<Longrightarrow> get_uint32 (take 4 b) = get_uint32 b"
  by (cases b; cases "tl b"; cases "tl (tl b)"; cases "tl (tl (tl b))")
     (simp_all add: get_uint32_def byte_at_def)

lemma get_uint32_less: "get_uint32 b < 2 ^ 32"
proof -
  have "byte_at b 0 < 256" "byte_at b 1 < 256" "byte_at b 2 < 256" "byte_at b 3 < 256" by simp_all
  then show ?thesis unfolding get_uint32_def by (simp del: byte_at_less)
qed

lemma byte_step: "s < 256 \<Longrightarrow> (m * 256 + s) div 256 = m \<and> (m * 256 + s) mod 256 = (s :: nat)"
  by simp

lemma four_bytes:
  assumes "p < 256" "q < 256" "r < 256" "s < 256" "n = p * 16777216 + q * 65536 + r * 256 + (s :: nat)"
  shows "n div 16777216 = p" "n div 65536 mod 256 = q" "n div 256 mod 256 = r" "n mod 256 = s"
proof -
  define m1 m2 where "m1 = p * 256 + q" and "m2 = m1 * 256 + r"
  have n: "n = m2 * 256 + s" using assms(5) by (simp add: m1_def m2_def)
  have 1: "n div 256 = m2" "n mod 256 = s" unfolding n using byte_step [OF assms(4)] by auto
  have 2: "m2 div 256 = m1" "m2 mod 256 = r" unfolding m2_def using byte_step [OF assms(3)] by auto
  have 3: "m1 div 256 = p" "m1 mod 256 = q" unfolding m1_def using byte_step [OF assms(2)] by auto
  have 4: "n div 65536 = m1" using 1 2 div_mult2_eq [of n 256 256] by simp
  have 5: "n div 16777216 = p" using 3 4 div_mult2_eq [of n 65536 256] by simp
  show "n div 16777216 = p" "n div 65536 mod 256 = q" "n div 256 mod 256 = r" "n mod 256 = s"
    using 1 2 3 4 5 by simp_all
qed

lemma put_get_uint32:
  assumes "4 \<le> length b"
  shows "put_uint32 (get_uint32 b) = take 4 b"
proof -
  obtain p q r s rest where b: "b = p # q # r # s # rest"
    using assms by (cases b; cases "tl b"; cases "tl (tl b)"; cases "tl (tl (tl b))") auto
  define n where "n = get_uint32 b"
  have n: "n = of_char p * 16777216 + of_char q * 65536 + of_char r * 256 + (of_char s :: nat)"
    by (simp add: n_def b get_uint32_def byte_at_def)
  note d = four_bytes [OF _ _ _ _ n, simplified]
  have "byte_of k = byte_of (k mod 256)" for k by (simp add: byte_of_def)
  then have "put_uint32 n = [byte_of (of_char p), byte_of (of_char q), byte_of (of_char r), byte_of (of_char s)]"
    unfolding put_uint32_def using d by metis
  then show ?thesis unfolding n_def by (simp add: b byte_of_def)
qed

lemma byteValue_Cons: "byteValue (c # rest) = Some (of_char c, rest)"
  by (simp add: byteValue_def bytes_read_def byte_at_def)

lemma byteValue_Some: "byteValue buf = Some (n, rest) \<longleftrightarrow> n < 256 \<and> buf = byte_of n # rest"
  by (cases buf) (auto simp: byteValue_def bytes_read_def byte_at_def byte_of_def)

lemma boolValue_Some:
  "boolValue buf = Some (b, rest) \<longleftrightarrow> (\<exists>c. buf = c # rest \<and> b = (of_char c \<noteq> (0 :: nat)))"
  by (cases buf) (auto simp: boolValue_def byteValue_def bytes_read_def byte_at_def)

text \<open>A string is read exactly where one was written.\<close>

lemma stringValue_ssh_string [simp]:
  "length s < 2 ^ 32 \<Longrightarrow> stringValue (ssh_string s @ rest) = Some (s, rest)"
  using get_put_uint32 [of "length s" "[]"]
  by (simp add: stringValue_def uint32Value_def bytes_read_def ssh_string_def)

lemma stringValue_Some:
  "stringValue buf = Some (s, rest) \<longleftrightarrow> length s < 2 ^ 32 \<and> buf = ssh_string s @ rest"
proof
  assume read: "stringValue buf = Some (s, rest)"
  let ?n = "get_uint32 buf"
  from read have l: "4 \<le> length buf" "?n \<le> length (drop 4 buf)"
    and s: "s = take ?n (drop 4 buf)" "rest = drop ?n (drop 4 buf)"
    by (auto simp: stringValue_def uint32Value_def bytes_read_def split: if_splits option.splits)
  then have len: "length s = ?n" by simp
  have "buf = take 4 buf @ drop 4 buf" by simp
  also have "drop 4 buf = s @ rest" unfolding s by (rule append_take_drop_id [symmetric])
  also have "take 4 buf = put_uint32 ?n" using put_get_uint32 [OF l(1)] by simp
  finally show "length s < 2 ^ 32 \<and> buf = ssh_string s @ rest"
    using get_uint32_less [of buf] len by (simp add: ssh_string_def)
qed auto

end
