(* ===== verification/Vault_Handover.thy ===== *)
theory Vault_Handover
  imports Vault_Peers Sshsig Random_Ids Ssh_Wire
begin

text \<open>
  Key material in the store: taking keys in (\<^verbatim>\<open>src/pkg/keystore/sshkeys.go\<close>), reading the comment of
  an OpenSSH private key (\<^verbatim>\<open>opensshcomment.go\<close>), keys in a secure element (\<^verbatim>\<open>hardware.go\<close>), the gate
  before a signature (\<^verbatim>\<open>gate.go\<close>) and handing a portable key to a peer (\<^verbatim>\<open>handover.go\<close>).

  What the SSH library and the PEM decoder answer is the record \<open>key_lib\<close>, over an abstract type of raw
  private keys. The answers of the secure element, the randomness and the clock are arguments.
\<close>

section \<open>The comment of a private key\<close>

definition readString :: "bytes \<Rightarrow> (bytes \<times> bytes) option" where
  "readString b =
     (if length b < 4 then None
      else let n = get_uint32 b
        in if length b - 4 < n then None else Some (take n (drop 4 b), drop (4 + n) b))"

lemma readString_shorter: "readString b = Some (v, r) \<Longrightarrow> length r < length b"
  by (auto simp: readString_def Let_def split: if_splits)

definition validPadding :: "bytes \<Rightarrow> bool" where
  "validPadding pad =
     (if 8 \<le> length pad then False
      else list_all (\<lambda>i. byte_at pad i = i + 1) [0..<length pad])"

text \<open>The last string that parses, and what follows it.\<close>

function last_string :: "bytes \<Rightarrow> bytes \<Rightarrow> bytes \<times> bytes" where
  "last_string seen b =
     (case readString b of None \<Rightarrow> (seen, b) | Some (field, remainder) \<Rightarrow> last_string field remainder)"
  by auto
termination
  by (relation "measure (length \<circ> snd)") (auto dest: readString_shorter)

declare last_string.simps [simp del]

definition openSSHMagic :: string where "openSSHMagic = ''openssh-key-v1'' @ [CHR 0x00]"
definition open_ssh_block :: string where "open_ssh_block = ''OPENSSH PRIVATE KEY''"
definition cipher_none :: string where "cipher_none = ''none''"

definition private_comment :: "bytes \<Rightarrow> string" where
  "private_comment priv =
     (if length priv < 8 then []
      else case last_string [] (drop 8 priv) of
          (last_field, rest) \<Rightarrow> if validPadding rest then last_field else [])"

definition body_comment :: "bytes \<Rightarrow> string" where
  "body_comment body =
     (if \<not> has_prefix body openSSHMagic then []
      else case readString (drop (length openSSHMagic) body) of
          None \<Rightarrow> []
        | Some (cipherName, rest) \<Rightarrow>
            if cipherName \<noteq> cipher_none then []
            else (case readString rest of
                    None \<Rightarrow> []
                  | Some (_, rest) \<Rightarrow>
                      (case readString rest of
                         None \<Rightarrow> []
                       | Some (_, rest) \<Rightarrow>
                           if length rest < 4 then []
                           else if get_uint32 rest \<noteq> 1 then []
                           else (case readString (drop 4 rest) of
                                   None \<Rightarrow> []
                                 | Some (_, rest) \<Rightarrow>
                                     (case readString rest of
                                        None \<Rightarrow> []
                                      | Some (priv, _) \<Rightarrow> private_comment priv)))))"

definition keyComment :: "(bytes \<Rightarrow> (string \<times> bytes) option) \<Rightarrow> bytes \<Rightarrow> string" where
  "keyComment pem_decode keyPEM =
     (case pem_decode keyPEM of
        None \<Rightarrow> []
      | Some (block_type, body) \<Rightarrow> if block_type \<noteq> open_ssh_block then [] else body_comment body)"

section \<open>Taking keys in\<close>

datatype raw_error = PassphraseMissing | RawUnreadable string

text \<open>
  \<open>kl_marshal\<close> is \<^verbatim>\<open>ssh.MarshalPrivateKey\<close> followed by \<^verbatim>\<open>pem.EncodeToMemory\<close>; \<open>kl_signer\<close> is
  \<^verbatim>\<open>ssh.ParsePrivateKey\<close>.
\<close>

record 'raw key_lib =
  kl_fold :: "string \<Rightarrow> string \<Rightarrow> bool"
  kl_fingerprint :: "ssh_public_key \<Rightarrow> string"
  kl_pem :: "bytes \<Rightarrow> (string \<times> bytes) option"
  kl_raw :: "bytes \<Rightarrow> raw_error + 'raw"
  kl_raw_with :: "bytes \<Rightarrow> string \<Rightarrow> string + 'raw"
  kl_marshal :: "'raw \<Rightarrow> string \<Rightarrow> string + bytes"
  kl_signer :: "bytes \<Rightarrow> string + ssh_signer"

datatype key_error =
    ErrPassphraseRequired
  | PrivateKeyUnreadable string
  | PrivateKeyNotNormalized string
  | PrivateKeyNotReparsed string
  | NotGenerated string
  | AdoptedNeedsLabel
  | StoreError vault_error

definition stored_by :: "vault \<times> (vault_error + 'a) \<Rightarrow> vault \<times> (key_error + 'a)" where
  "stored_by r = (fst r, map_sum StoreError id (snd r))"

definition parsePrivateKey ::
    "'raw key_lib \<Rightarrow> bytes \<Rightarrow> string \<Rightarrow> key_error + ssh_signer \<times> bytes" where
  "parsePrivateKey L keyPEM passphrase =
     (let parsed = (if passphrase = []
                    then (case kl_raw L keyPEM of
                            Inl PassphraseMissing \<Rightarrow> Inl ErrPassphraseRequired
                          | Inl (RawUnreadable e) \<Rightarrow> Inl (PrivateKeyUnreadable e)
                          | Inr raw \<Rightarrow> Inr raw)
                    else map_sum PrivateKeyUnreadable id (kl_raw_with L keyPEM passphrase))
      in case parsed of
          Inl e \<Rightarrow> Inl e
        | Inr raw \<Rightarrow>
            (case kl_marshal L raw (keyComment (kl_pem L) keyPEM) of
               Inl e \<Rightarrow> Inl (PrivateKeyNotNormalized e)
             | Inr normalized \<Rightarrow>
                 (case kl_signer L normalized of
                    Inl e \<Rightarrow> Inl (PrivateKeyNotReparsed e)
                  | Inr signer \<Rightarrow> Inr (signer, normalized))))"

definition addKey ::
    "'raw key_lib \<Rightarrow> save_result \<Rightarrow> time \<Rightarrow> ssh_signer \<Rightarrow> bytes \<Rightarrow> string \<Rightarrow> key_origin \<Rightarrow> vault
       \<Rightarrow> vault \<times> (vault_error + stored_key)" where
  "addKey L sv now signer keyPEM label origin v =
     addKeyLocked (kl_fold L) (kl_fingerprint L) sv now (sr_public signer) keyPEM
       (keyComment (kl_pem L) keyPEM) label origin None v"

definition ImportKey ::
    "'raw key_lib \<Rightarrow> save_result \<Rightarrow> time \<Rightarrow> bytes \<Rightarrow> string \<Rightarrow> string \<Rightarrow> vault
       \<Rightarrow> vault \<times> (key_error + stored_key)" where
  "ImportKey L sv now keyPEM passphrase label v =
     (case parsePrivateKey L keyPEM passphrase of
        Inl e \<Rightarrow> (v, Inl e)
      | Inr (signer, normalized) \<Rightarrow>
          stored_by (addKey L sv now signer normalized label KEY_ORIGIN_IMPORTED v))"

text \<open>\<open>generated\<close> is what \<^verbatim>\<open>ed25519.GenerateKey\<close> answers.\<close>

definition GenerateKey ::
    "'raw key_lib \<Rightarrow> save_result \<Rightarrow> time \<Rightarrow> string + 'raw \<Rightarrow> string \<Rightarrow> string \<Rightarrow> vault
       \<Rightarrow> vault \<times> (key_error + stored_key)" where
  "GenerateKey L sv now generated label comment v =
     (let comment' = (if comment = [] then label else comment)
      in case generated of
          Inl e \<Rightarrow> (v, Inl (NotGenerated e))
        | Inr raw \<Rightarrow>
            (case kl_marshal L raw comment' of
               Inl e \<Rightarrow> (v, Inl (PrivateKeyNotNormalized e))
             | Inr keyPEM \<Rightarrow>
                 (case kl_signer L keyPEM of
                    Inl e \<Rightarrow> (v, Inl (PrivateKeyNotReparsed e))
                  | Inr signer \<Rightarrow>
                      stored_by (addKey L sv now signer keyPEM label KEY_ORIGIN_GENERATED v))))"

definition AdoptKey ::
    "'raw key_lib \<Rightarrow> save_result \<Rightarrow> time \<Rightarrow> 'raw \<Rightarrow> string \<Rightarrow> string \<Rightarrow> vault
       \<Rightarrow> vault \<times> (key_error + stored_key)" where
  "AdoptKey L sv now private comment label v =
     (if label = [] then (v, Inl AdoptedNeedsLabel)
      else case kl_marshal L private comment of
          Inl e \<Rightarrow> (v, Inl (PrivateKeyNotNormalized e))
        | Inr keyPEM \<Rightarrow>
            (case kl_signer L keyPEM of
               Inl e \<Rightarrow> (v, Inl (PrivateKeyNotReparsed e))
             | Inr signer \<Rightarrow>
                 stored_by (addKey L sv now signer keyPEM label KEY_ORIGIN_ADOPTED v)))"

section \<open>Keys in a secure element\<close>

text \<open>
  \<^verbatim>\<open>src/pkg/hardware/hardware.go\<close>: \<open>hw_backend\<close> is the platform behind the seam, \<open>hw_lib\<close> what the
  libraries answer about a public key and how they wrap one as a signer.
\<close>

record hw_backend =
  hb_generate :: "string \<Rightarrow> bool \<Rightarrow> string + bytes"
  hb_sign :: "string \<Rightarrow> bytes \<Rightarrow> string \<Rightarrow> string + bytes"
  hb_delete :: "string \<Rightarrow> string option"

record hw_key =
  el_handle :: string
  el_reason :: string
  el_public :: ssh_public_key

record hw_lib =
  hl_parse :: "bytes \<Rightarrow> string + ssh_public_key"
  hl_p256 :: "ssh_public_key \<Rightarrow> bool"
  hl_wrap :: "hw_key \<Rightarrow> string + ssh_signer"

datatype hw_error =
    HwNoBackend
  | HwGenerate string string
  | HwParse string string
  | ErrWrongCurve string
  | HwWrongHash string
  | HwWrongLength nat
  | HwSign string string
  | HwWrap string string
  | HwDelete string string

definition newKey :: "hw_lib \<Rightarrow> string \<Rightarrow> string \<Rightarrow> bytes \<Rightarrow> hw_error + hw_key" where
  "newKey H handle reason blob =
     (case hl_parse H blob of
        Inl e \<Rightarrow> Inl (HwParse handle e)
      | Inr public \<Rightarrow>
          if \<not> hl_p256 H public then Inl (ErrWrongCurve (pk_type public))
          else Inr \<lparr>el_handle = handle, el_reason = reason, el_public = public\<rparr>)"

definition Generate ::
    "hw_lib \<Rightarrow> hw_backend option \<Rightarrow> string \<Rightarrow> string \<Rightarrow> bool \<Rightarrow> hw_error + hw_key" where
  "Generate H backend handle reason biometric =
     (case backend of
        None \<Rightarrow> Inl HwNoBackend
      | Some b \<Rightarrow>
          (case hb_generate b handle biometric of
             Inl e \<Rightarrow> Inl (HwGenerate handle e)
           | Inr blob \<Rightarrow> newKey H handle reason blob))"

definition Open ::
    "hw_lib \<Rightarrow> hw_backend option \<Rightarrow> string \<Rightarrow> string \<Rightarrow> bytes \<Rightarrow> hw_error + hw_key" where
  "Open H backend handle reason public =
     (case backend of None \<Rightarrow> Inl HwNoBackend | Some b \<Rightarrow> newKey H handle reason public)"

definition hash_sha256 :: string where "hash_sha256 = ''SHA-256''"

definition Key_Sign :: "hw_backend \<Rightarrow> hw_key \<Rightarrow> string option \<Rightarrow> bytes \<Rightarrow> hw_error + bytes" where
  "Key_Sign b k hash digest =
     (case hash of
        Some h \<Rightarrow> if h \<noteq> hash_sha256 then Inl (HwWrongHash h)
                  else if length digest \<noteq> 32 then Inl (HwWrongLength (length digest))
                  else map_sum (HwSign (el_handle k)) id (hb_sign b (el_handle k) digest (el_reason k))
      | None \<Rightarrow> if length digest \<noteq> 32 then Inl (HwWrongLength (length digest))
                else map_sum (HwSign (el_handle k)) id (hb_sign b (el_handle k) digest (el_reason k)))"

definition signingReason :: "string \<Rightarrow> string" where
  "signingReason label = ''Sign with '' @ label"

datatype element_error = ElementError hw_error | ElementNoRandomness string | ElementStore vault_error
  | ElementNeedsLabel | ElementLeftBehind element_error string

definition checkNewKey ::
    "(string \<Rightarrow> string \<Rightarrow> bool) \<Rightarrow> (ssh_public_key \<Rightarrow> string) \<Rightarrow> ssh_public_key \<Rightarrow> string \<Rightarrow> vault
       \<Rightarrow> element_error option" where
  "checkNewKey ef fingerprint_of public label v =
     (case find (\<lambda>k. sk_fingerprint k = fingerprint_of public) (keys_of v) of
        Some k \<Rightarrow> Some (ElementStore (ErrDuplicateKey (sk_label k)))
      | None \<Rightarrow>
          if label = [] then Some ElementNeedsLabel
          else if list_ex (\<lambda>k. ef (sk_label k) label) (keys_of v)
          then Some (ElementStore (LabelInUse label)) else None)"

definition addHardwareKey ::
    "(string \<Rightarrow> string \<Rightarrow> bool) \<Rightarrow> (ssh_public_key \<Rightarrow> string) \<Rightarrow> save_result \<Rightarrow> time \<Rightarrow> hw_key \<Rightarrow> string \<Rightarrow> string
       \<Rightarrow> vault \<Rightarrow> vault \<times> (element_error + stored_key)" where
  "addHardwareKey ef fingerprint_of sv now key label comment v =
     (let public = el_public key
      in case checkNewKey ef fingerprint_of public label v of
          Some e \<Rightarrow> (v, Inl e)
        | None \<Rightarrow>
            (let stored = \<lparr>sk_label = label, sk_fingerprint = fingerprint_of public,
                   sk_algorithm = pk_type public, sk_comment = comment, sk_public_key = pk_marshal public,
                   sk_private_key = [], sk_added_at = Some now, sk_origin = KEY_ORIGIN_GENERATED,
                   sk_disabled = False, sk_hardware_handle = el_handle key, sk_handed_to = [],
                   sk_received_from = None, sk_agent_use = None\<rparr>
             in case save_then sv (with_keys (\<lambda>ks. ks @ [stored]) v) stored of
                 (v', r) \<Rightarrow> (v', map_sum ElementStore id r)))"

definition GenerateHardwareKey ::
    "hw_lib \<Rightarrow> (string \<Rightarrow> string \<Rightarrow> bool) \<Rightarrow> (ssh_public_key \<Rightarrow> string) \<Rightarrow> hw_backend option \<Rightarrow> string + bytes
       \<Rightarrow> save_result \<Rightarrow> time \<Rightarrow> string \<Rightarrow> string \<Rightarrow> vault \<Rightarrow> vault \<times> (element_error + stored_key)" where
  "GenerateHardwareKey H ef fingerprint_of hardware random sv now label comment v =
     (case hardware of
        None \<Rightarrow> (v, Inl (ElementError HwNoBackend))
      | Some backend \<Rightarrow>
          (let comment' = (if comment = [] then label else comment)
           in case newKeyHandle random of
               Inl e \<Rightarrow> (v, Inl (ElementNoRandomness e))
             | Inr handle \<Rightarrow>
                 (case Generate H hardware handle (signingReason label) True of
                    Inl e \<Rightarrow> (v, Inl (ElementError e))
                  | Inr key \<Rightarrow>
                      (case addHardwareKey ef fingerprint_of sv now key label comment' v of
                         (v', Inr stored) \<Rightarrow> (v', Inr stored)
                       | (v', Inl e) \<Rightarrow>
                           (v', Inl (case hb_delete backend (el_handle key) of
                                       None \<Rightarrow> e | Some d \<Rightarrow> ElementLeftBehind e d))))))"

section \<open>Signing with a stored key\<close>

text \<open>The gate is \<^verbatim>\<open>SignGate.Authorize\<close>: what it answers when shown a reason.\<close>

definition gatedSigner :: "ssh_signer \<Rightarrow> (string \<Rightarrow> string option) \<Rightarrow> string \<Rightarrow> ssh_signer" where
  "gatedSigner signer gate reason =
     \<lparr>sr_public = sr_public signer,
      sr_sign = (\<lambda>data. case gate reason of
        Some e \<Rightarrow> Inl e
      | None \<Rightarrow> map_sum (\<lambda>e. ''sign: '' @ e) id (sr_sign signer data)),
      sr_sign_with = Some (\<lambda>data algorithm. case sr_sign_with signer of
        None \<Rightarrow> Inl (''keystore: this key cannot sign with '' @ algorithm)
      | Some sign_with \<Rightarrow>
          (case gate reason of
             Some e \<Rightarrow> Inl e
           | None \<Rightarrow> map_sum (\<lambda>e. ''sign with '' @ algorithm @ '': '' @ e) id (sign_with data algorithm)))\<rparr>"

definition hardwareSigner :: "hw_lib \<Rightarrow> hw_backend option \<Rightarrow> stored_key \<Rightarrow> hw_error + ssh_signer" where
  "hardwareSigner H hardware k =
     (case hardware of
        None \<Rightarrow> Inl HwNoBackend
      | Some _ \<Rightarrow>
          (case Open H hardware (sk_hardware_handle k) (signingReason (sk_label k)) (sk_public_key k) of
             Inl e \<Rightarrow> Inl e
           | Inr key \<Rightarrow> map_sum (HwWrap (el_handle key)) id (hl_wrap H key)))"

datatype signer_error = NoSuchSigner string | SignerElement hw_error | SignerNotLoaded string string
  | SignerStore vault_error

definition Signer ::
    "'raw key_lib \<Rightarrow> hw_lib \<Rightarrow> hw_backend option \<Rightarrow> (string \<Rightarrow> string option) option \<Rightarrow> string \<Rightarrow> vault
       \<Rightarrow> signer_error + ssh_signer \<times> stored_key" where
  "Signer L H hardware gate fingerprint v =
     (case find (\<lambda>k. sk_fingerprint k = fingerprint \<and> \<not> sk_disabled k) (keys_of v) of
        None \<Rightarrow> Inl (NoSuchSigner fingerprint)
      | Some k \<Rightarrow>
          if sk_hardware_handle k \<noteq> []
          then (case hardwareSigner H hardware k of
                  Inl e \<Rightarrow> Inl (SignerElement e)
                | Inr signer \<Rightarrow> Inr (signer, k))
          else (case kl_signer L (sk_private_key k) of
                  Inl e \<Rightarrow> Inl (SignerNotLoaded (sk_label k) e)
                | Inr signer \<Rightarrow>
                    Inr (case gate of
                           None \<Rightarrow> signer
                         | Some g \<Rightarrow> gatedSigner signer g (signingReason (sk_label k)), k)))"

definition PortableKey :: "(string \<Rightarrow> string \<Rightarrow> bool) \<Rightarrow> string \<Rightarrow> vault \<Rightarrow> vault_error + stored_key" where
  "PortableKey ef ref v =
     (case find (key_matches ef ref) (keys_of v) of
        None \<Rightarrow> Inl (ErrNoSuchKey ref)
      | Some k \<Rightarrow> if sk_hardware_handle k \<noteq> [] then Inl (ErrHardwareKey (sk_label k)) else Inr k)"

definition PortableSigner ::
    "'raw key_lib \<Rightarrow> hw_lib \<Rightarrow> hw_backend option \<Rightarrow> (string \<Rightarrow> string option) option \<Rightarrow> string \<Rightarrow> vault
       \<Rightarrow> signer_error + ssh_signer" where
  "PortableSigner L H hardware gate fingerprint v =
     (case PortableKey (kl_fold L) fingerprint v of
        Inl e \<Rightarrow> Inl (SignerStore e)
      | Inr _ \<Rightarrow> map_sum id fst (Signer L H hardware gate fingerprint v))"

section \<open>Handing a key over\<close>

abbreviation offers_of :: "vault \<Rightarrow> pending_key_offer list" where
  "offers_of v \<equiv> sd_pending_key_offers (v_doc v)"
abbreviation handovers_of :: "vault \<Rightarrow> queued_key_handover list" where
  "handovers_of v \<equiv> sd_queued_key_handovers (v_doc v)"

definition with_offers :: "(pending_key_offer list \<Rightarrow> pending_key_offer list) \<Rightarrow> vault \<Rightarrow> vault" where
  "with_offers f v = v\<lparr>v_doc := (v_doc v)\<lparr>sd_pending_key_offers := f (offers_of v)\<rparr>\<rparr>"

definition with_handovers :: "(queued_key_handover list \<Rightarrow> queued_key_handover list) \<Rightarrow> vault \<Rightarrow> vault" where
  "with_handovers f v = v\<lparr>v_doc := (v_doc v)\<lparr>sd_queued_key_handovers := f (handovers_of v)\<rparr>\<rparr>"

definition MaxPendingKeyOffers :: nat where "MaxPendingKeyOffers = 8"

definition note_transfer :: "queued_key_handover \<Rightarrow> time \<Rightarrow> stored_key \<Rightarrow> stored_key" where
  "note_transfer q at k = k\<lparr>sk_handed_to :=
     filter (\<lambda>t. kt_peer_fingerprint t \<noteq> qh_peer_fingerprint q) (sk_handed_to k) @
       [\<lparr>kt_peer_fingerprint = qh_peer_fingerprint q, kt_peer_name = qh_peer_name q, kt_at = Some at\<rparr>]\<rparr>"

definition noteHandoverLocked :: "queued_key_handover \<Rightarrow> time \<Rightarrow> vault \<Rightarrow> vault" where
  "noteHandoverLocked q at =
     with_keys (update_first (\<lambda>k. sk_fingerprint k = qh_fingerprint q) (note_transfer q at))"

definition QueueHandover ::
    "save_result \<Rightarrow> string + bytes \<Rightarrow> string \<Rightarrow> string \<Rightarrow> stored_key \<Rightarrow> time \<Rightarrow> vault
       \<Rightarrow> vault \<times> (vault_error + queued_key_handover)" where
  "QueueHandover sv random peer name key at v =
     (if sk_hardware_handle key \<noteq> [] then (v, Inl (ErrHardwareKey (sk_label key)))
      else case newOfferID random of
          Inl e \<Rightarrow> (v, Inl (NoRandomness e))
        | Inr i \<Rightarrow>
            (let handover = \<lparr>qh_id = i, qh_peer_fingerprint = peer, qh_peer_name = name,
                   qh_label = sk_label key, qh_comment = sk_comment key,
                   qh_fingerprint = sk_fingerprint key, qh_private_key = sk_private_key key,
                   qh_queued_at = Some at\<rparr>
             in save_then sv (with_handovers (\<lambda>qs.
                  filter (\<lambda>q. \<not> (qh_peer_fingerprint q = peer \<and> qh_fingerprint q = sk_fingerprint key)) qs
                    @ [handover]) v) handover))"

definition CompleteHandover ::
    "save_result \<Rightarrow> string \<Rightarrow> time \<Rightarrow> vault \<Rightarrow> vault \<times> (vault_error + unit)" where
  "CompleteHandover sv i at v =
     (case filter (\<lambda>q. qh_id q = i) (handovers_of v) of
        [] \<Rightarrow> (v, Inl (ErrNoSuchHandover i))
      | q # qs \<Rightarrow>
          save sv (noteHandoverLocked (last (q # qs)) at
            (with_handovers (filter (\<lambda>q. qh_id q \<noteq> i)) v)))"

definition DropPeerHandovers :: "save_result \<Rightarrow> string \<Rightarrow> vault \<Rightarrow> vault \<times> (vault_error + unit)" where
  "DropPeerHandovers sv peer v =
     (if list_ex (\<lambda>q. qh_peer_fingerprint q = peer) (handovers_of v)
      then save sv (with_handovers (filter (\<lambda>q. qh_peer_fingerprint q \<noteq> peer)) v)
      else (v, Inr ()))"

definition new_offer ::
    "'raw key_lib \<Rightarrow> string \<Rightarrow> string \<Rightarrow> string \<Rightarrow> string \<Rightarrow> string \<Rightarrow> string \<Rightarrow> ssh_public_key \<Rightarrow> bytes \<Rightarrow> time
       \<Rightarrow> pending_key_offer" where
  "new_offer L i peer name label comment handover_id public normalized at =
     \<lparr>po_id = i, po_peer_fingerprint = peer, po_peer_name = name, po_label = label,
      po_comment = (if comment = [] then keyComment (kl_pem L) normalized else comment),
      po_algorithm = pk_type public, po_fingerprint = kl_fingerprint L public,
      po_public_key = pk_marshal public, po_private_key = normalized, po_received_at = Some at,
      po_handover_id = handover_id\<rparr>"

definition AddKeyOffer ::
    "'raw key_lib \<Rightarrow> save_result \<Rightarrow> string + bytes \<Rightarrow> string \<Rightarrow> string \<Rightarrow> string \<Rightarrow> string \<Rightarrow> string \<Rightarrow> bytes \<Rightarrow> time
       \<Rightarrow> vault \<Rightarrow> vault \<times> (key_error + pending_key_offer)" where
  "AddKeyOffer L sv random peer name label comment handover_id keyPEM at v =
     (case parsePrivateKey L keyPEM [] of
        Inl e \<Rightarrow> (v, Inl e)
      | Inr (signer, normalized) \<Rightarrow>
          (case newOfferID random of
             Inl e \<Rightarrow> (v, Inl (StoreError (NoRandomness e)))
           | Inr i \<Rightarrow>
               (let offer = new_offer L i peer name label comment handover_id (sr_public signer) normalized at
                in case find (\<lambda>k. sk_fingerprint k = po_fingerprint offer) (keys_of v) of
                    Some k \<Rightarrow> (v, Inl (StoreError (ErrDuplicateKey (sk_label k))))
                  | None \<Rightarrow>
                      (let kept = filter (\<lambda>q. \<not> (po_peer_fingerprint q = peer \<and>
                             po_fingerprint q = po_fingerprint offer)) (offers_of v)
                       in if MaxPendingKeyOffers \<le> length kept then (v, Inl (StoreError ErrTooManyOffers))
                          else stored_by (save_then sv (with_offers (\<lambda>_. kept @ [offer]) v) offer)))))"

definition takeOffer :: "pending_key_offer list \<Rightarrow> string \<Rightarrow> pending_key_offer option \<times> pending_key_offer list" where
  "takeOffer offers i =
     (case filter (\<lambda>q. po_id q = i) offers of [] \<Rightarrow> None | q # qs \<Rightarrow> Some (last (q # qs)),
      filter (\<lambda>q. po_id q \<noteq> i) offers)"

definition AcceptKeyOffer ::
    "'raw key_lib \<Rightarrow> save_result \<Rightarrow> time \<Rightarrow> string \<Rightarrow> string \<Rightarrow> vault \<Rightarrow> vault \<times> (vault_error + stored_key)" where
  "AcceptKeyOffer L sv now i label v =
     (case takeOffer (offers_of v) i of
        (None, _) \<Rightarrow> (v, Inl (ErrNoSuchOffer i))
      | (Some offer, kept) \<Rightarrow>
          (case kl_signer L (po_private_key offer) of
             Inl e \<Rightarrow> (v, Inl (KeyNotParsed e))
           | Inr signer \<Rightarrow>
               (let before = offers_of v
                in case addKeyLocked (kl_fold L) (kl_fingerprint L) sv now (sr_public signer)
                          (po_private_key offer) (keyComment (kl_pem L) (po_private_key offer))
                          (if label = [] then po_label offer else label) KEY_ORIGIN_RECEIVED
                          (Some \<lparr>kt_peer_fingerprint = po_peer_fingerprint offer,
                                 kt_peer_name = po_peer_name offer, kt_at = po_received_at offer\<rparr>)
                          (with_offers (\<lambda>_. kept) v) of
                   (v', Inl e) \<Rightarrow> (with_offers (\<lambda>_. before) v', Inl e)
                 | (v', Inr key) \<Rightarrow> (v', Inr key))))"

definition RefuseKeyOffer :: "save_result \<Rightarrow> string \<Rightarrow> vault \<Rightarrow> vault \<times> (vault_error + unit)" where
  "RefuseKeyOffer sv i v =
     (case takeOffer (offers_of v) i of
        (None, _) \<Rightarrow> (v, Inl (ErrNoSuchOffer i))
      | (Some _, kept) \<Rightarrow> save sv (with_offers (\<lambda>_. kept) v))"

definition DropPeerKeyOffers :: "save_result \<Rightarrow> string \<Rightarrow> vault \<Rightarrow> vault \<times> (vault_error + unit)" where
  "DropPeerKeyOffers sv peer v =
     (if list_ex (\<lambda>q. po_peer_fingerprint q = peer) (offers_of v)
      then save sv (with_offers (filter (\<lambda>q. po_peer_fingerprint q \<noteq> peer)) v)
      else (v, Inr ()))"

section \<open>Lemmas\<close>

lemma with_offers_simps [simp]:
  "offers_of (with_offers f v) = f (offers_of v)" "v_disk (with_offers f v) = v_disk v"
  "keys_of (with_offers f v) = keys_of v" "handovers_of (with_offers f v) = handovers_of v"
  by (simp_all add: with_offers_def)

lemma with_handovers_simps [simp]:
  "handovers_of (with_handovers f v) = f (handovers_of v)" "v_disk (with_handovers f v) = v_disk v"
  "keys_of (with_handovers f v) = keys_of v" "offers_of (with_handovers f v) = offers_of v"
  by (simp_all add: with_handovers_def)

lemma with_keys_others [simp]:
  "offers_of (with_keys f v) = offers_of v" "handovers_of (with_keys f v) = handovers_of v"
  by (simp_all add: with_keys_def)

lemma readString_eq: "readString = stringValue"
  by (rule ext) (auto simp: readString_def stringValue_def uint32Value_def bytes_read_def Let_def add.commute)

lemma readString_ssh_string:
  "length s < 2 ^ 32 \<Longrightarrow> readString (ssh_string s @ rest) = Some (s, rest)"
  by (simp add: readString_eq)

lemma last_string_strings:
  assumes "\<forall>f \<in> set fs. length f < 2 ^ 32" "readString rest = None"
  shows "last_string seen (concat (map ssh_string fs) @ rest) = (last (seen # fs), rest)"
  using assms
proof (induction fs arbitrary: seen)
  case Nil
  then show ?case by (simp add: last_string.simps)
next
  case (Cons f fs)
  then show ?case by (subst last_string.simps) (simp add: readString_ssh_string)
qed

definition padding :: "nat \<Rightarrow> bytes" where
  "padding n = map (\<lambda>i. byte_of (Suc i)) [0..<n]"

lemma padding_byte: "i < n \<Longrightarrow> n < 8 \<Longrightarrow> byte_at (padding n) i = Suc i"
  by (simp add: byte_at_def padding_def)

lemma length_padding [simp]: "length (padding n) = n"
  by (simp add: padding_def)

lemma padding_no_string:
  assumes "n < 8"
  shows "readString (padding n) = None"
proof (cases "n < 4")
  case False
  have "byte_at (padding n) 0 = 1" using padding_byte [of 0 n] assms False by simp
  then have "n < get_uint32 (padding n)" using assms by (simp add: get_uint32_def)
  then have "n - 4 < get_uint32 (padding n)" by simp
  then show ?thesis by (simp add: readString_def Let_def)
qed (simp add: readString_def)

lemma validPadding_written: "n < 8 \<Longrightarrow> validPadding (padding n)"
  by (auto simp: validPadding_def list_all_iff padding_byte)

lemma private_comment_written:
  assumes "length check = 8" "\<forall>f \<in> set (fs @ [c]). length f < 2 ^ 32" "n < 8"
  shows "private_comment (check @ concat (map ssh_string (fs @ [c])) @ padding n) = c"
  using assms last_string_strings [OF assms(2) padding_no_string [OF assms(3)]] validPadding_written
  by (simp add: private_comment_def del: map_append concat_append)

text \<open>What \<^verbatim>\<open>ssh-keygen\<close> writes for one unencrypted key.\<close>

definition openssh_body :: "bytes \<Rightarrow> bytes \<Rightarrow> bytes \<Rightarrow> bytes \<Rightarrow> bytes" where
  "openssh_body kdf options pub priv = openSSHMagic @ ssh_string cipher_none @ ssh_string kdf @
     ssh_string options @ put_uint32 1 @ ssh_string pub @ ssh_string priv"

lemma body_comment_written:
  assumes "length kdf < 2 ^ 32" "length options < 2 ^ 32" "length pub < 2 ^ 32" "length priv < 2 ^ 32"
  shows "body_comment (openssh_body kdf options pub priv) = private_comment priv"
proof -
  have "readString (ssh_string priv) = Some (priv, [])"
    using readString_ssh_string [OF assms(4), of "[]"] by simp
  moreover have "get_uint32 (put_uint32 1 @ ssh_string pub @ ssh_string priv) = 1"
    by (simp only: get_put_uint32) simp
  moreover have "length cipher_none < 2 ^ 32" by (simp add: cipher_none_def)
  ultimately show ?thesis
    using assms by (simp add: body_comment_def openssh_body_def has_prefix_def readString_ssh_string)
qed

lemma takeOffer_eq:
  "takeOffer offers i = (None, kept) \<longleftrightarrow> kept = offers \<and> (\<forall>q \<in> set offers. po_id q \<noteq> i)"
  "takeOffer offers i = (Some q, kept) \<Longrightarrow>
     q \<in> set offers \<and> po_id q = i \<and> kept = filter (\<lambda>q. po_id q \<noteq> i) offers"
proof -
  show "takeOffer offers i = (None, kept) \<longleftrightarrow> kept = offers \<and> (\<forall>q \<in> set offers. po_id q \<noteq> i)"
    by (cases "filter (\<lambda>q. po_id q = i) offers")
       (auto simp: takeOffer_def filter_empty_conv filter_id_conv dest!: Cons_eq_filterD [OF sym])
  show "q \<in> set offers \<and> po_id q = i \<and> kept = filter (\<lambda>q. po_id q \<noteq> i) offers"
    if taken: "takeOffer offers i = (Some q, kept)"
  proof -
    let ?m = "filter (\<lambda>q. po_id q = i) offers"
    from taken have "?m \<noteq> []" "q = last ?m" "kept = filter (\<lambda>q. po_id q \<noteq> i) offers"
      by (auto simp: takeOffer_def split: list.splits)
    then show ?thesis using last_in_set [of ?m] by simp
  qed
qed

lemma addKeyLocked_result:
  "addKeyLocked ef fpo sv now pub pem c l orig from v = (v', Inr k) \<Longrightarrow>
     sv = None \<and> v_doc v' = v_doc (with_keys (\<lambda>ks. ks @ [k]) v) \<and> v_disk v' = v_doc v' \<and>
     sk_fingerprint k = fpo pub \<and> sk_received_from k = from"
  "addKeyLocked ef fpo sv now pub pem c l orig from v = (v', Inl e) \<Longrightarrow>
     v' = v \<or> (\<exists>msg k. sv = Some msg \<and> e = SaveFailed msg \<and> v' = with_keys (\<lambda>ks. ks @ [k]) v \<and>
       sk_fingerprint k = fpo pub)"
  by (auto simp: addKeyLocked_def Let_def save_then_def save_def split: option.splits if_splits)

section \<open>The store with handovers\<close>

text \<open>
  What the store promises about handovers: at most eight unanswered offers, one per peer and key; one
  queued handover per peer and key; and on every key at most one note per peer it went to.
\<close>

definition offers_wf :: "pending_key_offer list \<Rightarrow> bool" where
  "offers_wf qs \<longleftrightarrow> length qs \<le> MaxPendingKeyOffers \<and>
     distinct (map (\<lambda>q. (po_peer_fingerprint q, po_fingerprint q)) qs)"

definition handovers_wf :: "queued_key_handover list \<Rightarrow> bool" where
  "handovers_wf qs \<longleftrightarrow> distinct (map (\<lambda>q. (qh_peer_fingerprint q, qh_fingerprint q)) qs)"

definition transfers_wf :: "stored_key list \<Rightarrow> bool" where
  "transfers_wf ks \<longleftrightarrow> (\<forall>k \<in> set ks. distinct (map kt_peer_fingerprint (sk_handed_to k)))"

definition handover_wf :: "vault \<Rightarrow> bool" where
  "handover_wf v \<longleftrightarrow> offers_wf (offers_of v) \<and> handovers_wf (handovers_of v) \<and> transfers_wf (keys_of v)"

datatype 'raw key_op =
    K_store vault_op
  | K_Import bytes string string | K_Generate "string + 'raw" string string | K_Adopt 'raw string string
  | K_Hardware "string + bytes" string string
  | K_Queue "string + bytes" string string stored_key | K_Complete string | K_DropHandovers string
  | K_AddOffer "string + bytes" string string string string string bytes
  | K_Accept string string | K_Refuse string | K_DropOffers string

record 'raw key_world =
  kw_store :: vault_env
  kw_lib :: "'raw key_lib"
  kw_hw :: hw_lib
  kw_element :: "hw_backend option"

fun run_key_op :: "'raw key_world \<Rightarrow> save_result \<Rightarrow> time \<Rightarrow> 'raw key_op \<Rightarrow> vault \<Rightarrow> vault" where
  "run_key_op W sv now (K_store op) v = run_op (kw_store W) sv now op v"
| "run_key_op W sv now (K_Import pem phrase label) v = fst (ImportKey (kw_lib W) sv now pem phrase label v)"
| "run_key_op W sv now (K_Generate g label c) v = fst (GenerateKey (kw_lib W) sv now g label c v)"
| "run_key_op W sv now (K_Adopt raw c label) v = fst (AdoptKey (kw_lib W) sv now raw c label v)"
| "run_key_op W sv now (K_Hardware random label c) v =
     fst (GenerateHardwareKey (kw_hw W) (kl_fold (kw_lib W)) (kl_fingerprint (kw_lib W)) (kw_element W)
            random sv now label c v)"
| "run_key_op W sv now (K_Queue random peer name k) v = fst (QueueHandover sv random peer name k now v)"
| "run_key_op W sv now (K_Complete i) v = fst (CompleteHandover sv i now v)"
| "run_key_op W sv now (K_DropHandovers peer) v = fst (DropPeerHandovers sv peer v)"
| "run_key_op W sv now (K_AddOffer random peer name label c h pem) v =
     fst (AddKeyOffer (kw_lib W) sv random peer name label c h pem now v)"
| "run_key_op W sv now (K_Accept i label) v = fst (AcceptKeyOffer (kw_lib W) sv now i label v)"
| "run_key_op W sv now (K_Refuse i) v = fst (RefuseKeyOffer sv i v)"
| "run_key_op W sv now (K_DropOffers peer) v = fst (DropPeerKeyOffers sv peer v)"

inductive key_reachable :: "'raw key_world \<Rightarrow> vault \<Rightarrow> bool" for W where
  key_reachable_init: "key_reachable W empty_vault"
| key_reachable_step: "key_reachable W v \<Longrightarrow> key_reachable W (run_key_op W sv now op v)"

inductive_cases key_reachableE: "key_reachable W v"

lemma save_doc [simp]: "v_doc (fst (save sv v)) = v_doc v" "v_doc (fst (save_then sv v x)) = v_doc v"
  by (simp_all add: save_def save_then_def split: option.split)

lemma run_op_offers:
  "offers_of (run_op env sv now op v) = offers_of v \<and> handovers_of (run_op env sv now op v) = handovers_of v"
  by (cases op)
     (auto simp: vault_op_defs Let_def save_def save_then_def with_grants_def with_delegations_def
        with_endorsements_def with_retractions_def with_peers_def with_pendings_def with_borrowed_def
        with_keys_def split: option.splits sum.splits prod.splits list.splits)

lemma transfers_wf_ops:
  "transfers_wf ks \<Longrightarrow> transfers_wf (filter P ks)"
  "transfers_wf (ks @ [k]) \<longleftrightarrow> transfers_wf ks \<and> distinct (map kt_peer_fingerprint (sk_handed_to k))"
  "transfers_wf ks \<Longrightarrow> (\<And>k. k \<in> set ks \<Longrightarrow> distinct (map kt_peer_fingerprint (sk_handed_to k)) \<Longrightarrow>
     distinct (map kt_peer_fingerprint (sk_handed_to (f k)))) \<Longrightarrow> transfers_wf (update_first P f ks)"
proof -
  show "transfers_wf ks \<Longrightarrow> transfers_wf (filter P ks)" by (auto simp: transfers_wf_def)
  show "transfers_wf (ks @ [k]) \<longleftrightarrow> transfers_wf ks \<and> distinct (map kt_peer_fingerprint (sk_handed_to k))"
    by (auto simp: transfers_wf_def)
  show "transfers_wf (update_first P f ks)" if "transfers_wf ks"
    "\<And>k. k \<in> set ks \<Longrightarrow> distinct (map kt_peer_fingerprint (sk_handed_to k)) \<Longrightarrow>
       distinct (map kt_peer_fingerprint (sk_handed_to (f k)))"
    using that by (induction ks) (auto simp: transfers_wf_def)
qed

lemma addKeyLocked_transfers:
  "transfers_wf (keys_of v) \<Longrightarrow>
   transfers_wf (keys_of (fst (addKeyLocked ef fpo sv now pub pem c l orig from v)))"
  by (auto simp: addKeyLocked_def Let_def transfers_wf_ops split: option.split)

lemma key_ops_transfers:
  assumes "transfers_wf (keys_of v)"
  shows "transfers_wf (keys_of (fst (RemoveKey ef forget sv ref v)))"
    "transfers_wf (keys_of (fst (SetKeyDisabled ef sv ref b v)))"
    "transfers_wf (keys_of (fst (SetKeyAgentUse ef sv ref b v)))"
  using assms
  by (auto simp: RemoveKey_def SetKeyDisabled_def SetKeyAgentUse_def Let_def save_def save_then_def
      intro!: transfers_wf_ops split: option.splits list.splits)

lemma run_op_keys:
  "transfers_wf (keys_of v) \<Longrightarrow> transfers_wf (keys_of (run_op env sv now op v))"
  by (cases op)
     (auto simp: addKeyLocked_transfers key_ops_transfers, (auto simp: vault_op_defs Let_def save_def save_then_def with_grants_def with_delegations_def
        with_endorsements_def with_retractions_def with_peers_def with_pendings_def with_borrowed_def
        split: option.splits sum.splits prod.splits list.splits)?)

lemma offers_wf_ops:
  "offers_wf qs \<Longrightarrow> offers_wf (filter P qs)"
  "handovers_wf hs \<Longrightarrow> handovers_wf (filter R hs)"
  by (auto simp: offers_wf_def handovers_wf_def distinct_map inj_on_def
      intro: le_trans [OF length_filter_le])

lemma note_transfer_ok:
  "distinct (map kt_peer_fingerprint (sk_handed_to k)) \<Longrightarrow>
   distinct (map kt_peer_fingerprint (sk_handed_to (note_transfer q at k)))"
  by (auto simp: note_transfer_def distinct_map inj_on_def)

lemma handover_wf_with:
  "handover_wf v \<Longrightarrow> offers_wf (f (offers_of v)) \<Longrightarrow> handover_wf (with_offers f v)"
  "handover_wf v \<Longrightarrow> handovers_wf (g (handovers_of v)) \<Longrightarrow> handover_wf (with_handovers g v)"
  "handover_wf v \<Longrightarrow> transfers_wf (h (keys_of v)) \<Longrightarrow> handover_wf (with_keys h v)"
  by (simp_all add: handover_wf_def)

lemma handover_wf_save [simp]:
  "handover_wf (fst (save sv v)) \<longleftrightarrow> handover_wf v" "handover_wf (fst (save_then sv v x)) \<longleftrightarrow> handover_wf v"
  by (simp_all add: handover_wf_def)

lemma handover_wf_parts:
  "handover_wf v \<Longrightarrow> offers_wf (offers_of v)" "handover_wf v \<Longrightarrow> handovers_wf (handovers_of v)"
  "handover_wf v \<Longrightarrow> transfers_wf (keys_of v)"
  by (simp_all add: handover_wf_def)

lemma addKeyLocked_wf:
  assumes "handover_wf v"
  shows "handover_wf (fst (addKeyLocked ef fpo sv now pub pem c l orig from v))"
  using assms handover_wf_parts(3) [OF assms]
  by (auto simp: addKeyLocked_def Let_def transfers_wf_ops intro!: handover_wf_with split: option.split)

lemma take_key_wf:
  assumes "handover_wf v"
  shows "handover_wf (fst (ImportKey L sv now pem phrase label v))"
    "handover_wf (fst (GenerateKey L sv now g label c v))"
    "handover_wf (fst (AdoptKey L sv now raw c label v))"
    "handover_wf (fst (GenerateHardwareKey H ef fpo hw random sv now label c v))"
proof -
  show "handover_wf (fst (ImportKey L sv now pem phrase label v))"
    "handover_wf (fst (GenerateKey L sv now g label c v))"
    "handover_wf (fst (AdoptKey L sv now raw c label v))"
    using assms
    by (auto simp: ImportKey_def GenerateKey_def AdoptKey_def addKey_def stored_by_def Let_def
        intro: addKeyLocked_wf split: sum.split)
  have "handover_wf (fst (addHardwareKey ef fpo sv now k label c' v))" for k c'
    using assms handover_wf_parts(3) [OF assms]
    by (auto simp: addHardwareKey_def Let_def transfers_wf_ops case_prod_unfold
        intro!: handover_wf_with split: option.split)
  then have "handover_wf v'" if "addHardwareKey ef fpo sv now k label c' v = (v', r)" for k c' v' r
    using that by (metis fst_conv)
  then show "handover_wf (fst (GenerateHardwareKey H ef fpo hw random sv now label c v))"
    using assms by (auto simp: GenerateHardwareKey_def Let_def split: option.split sum.split prod.split)
qed

lemma queue_wf:
  assumes "handover_wf v"
  shows "handover_wf (fst (QueueHandover sv random peer name k at v))"
    "handover_wf (fst (CompleteHandover sv i at v))" "handover_wf (fst (DropPeerHandovers sv peer v))"
proof -
  note wf = handover_wf_parts [OF assms]
  show "handover_wf (fst (QueueHandover sv random peer name k at v))"
    using assms wf(2)
    by (auto simp: QueueHandover_def Let_def handovers_wf_def distinct_map inj_on_def
        intro!: handover_wf_with split: sum.split)
  have kept: "handover_wf (with_handovers (filter P) v)" for P
    using assms wf(2) by (intro handover_wf_with offers_wf_ops)
  then show "handover_wf (fst (DropPeerHandovers sv peer v))"
    using assms by (simp add: DropPeerHandovers_def)
  have "handover_wf (noteHandoverLocked q at (with_handovers (filter P) v))" for q P
    unfolding noteHandoverLocked_def
    using kept [of P] wf(3) by (intro handover_wf_with(3)) (auto intro!: transfers_wf_ops note_transfer_ok)
  then show "handover_wf (fst (CompleteHandover sv i at v))"
    using assms by (auto simp: CompleteHandover_def split: list.split)
qed

lemma offer_wf:
  assumes "handover_wf v"
  shows "handover_wf (fst (AddKeyOffer L sv random peer name label c h pem at v))"
    "handover_wf (fst (AcceptKeyOffer L sv now i label v))" "handover_wf (fst (RefuseKeyOffer sv i v))"
    "handover_wf (fst (DropPeerKeyOffers sv peer v))"
proof -
  note wf = handover_wf_parts [OF assms]
  have kept: "handover_wf (with_offers (filter P) v)" for P
    using assms wf(1) by (intro handover_wf_with offers_wf_ops)
  then show "handover_wf (fst (DropPeerKeyOffers sv peer v))"
    using assms by (simp add: DropPeerKeyOffers_def)
  have taken: "handover_wf (with_offers (\<lambda>_. k) v)" if "takeOffer (offers_of v) i = (Some q, k)" for q k
    using takeOffer_eq(2) [OF that] kept by (simp add: with_offers_def)
  then show "handover_wf (fst (RefuseKeyOffer sv i v))"
    using assms by (auto simp: RefuseKeyOffer_def split: prod.split option.split)
  have restore: "handover_wf (with_offers (\<lambda>_. offers_of v) v')" if "handover_wf v'" for v'
    using that wf(1) by (intro handover_wf_with)
  have added: "handover_wf v'" if "addKeyLocked ef fpo sv now pub pem' c' l orig from u = (v', r)" "handover_wf u"
    for ef fpo pub pem' c' l orig "from" u v' r
    using addKeyLocked_wf [OF that(2), of ef fpo sv now pub pem' c' l orig "from"] that(1) by simp
  show "handover_wf (fst (AcceptKeyOffer L sv now i label v))"
    using assms
    by (auto simp: AcceptKeyOffer_def Let_def split: prod.split option.split sum.split
        intro!: restore intro: added taken)
  show "handover_wf (fst (AddKeyOffer L sv random peer name label c h pem at v))"
    using assms wf(1)
    by (auto simp: AddKeyOffer_def Let_def stored_by_def offers_wf_def new_offer_def distinct_map inj_on_def
        intro!: handover_wf_with split: sum.split option.split)
qed

lemma run_op_handover_wf: "handover_wf v \<Longrightarrow> handover_wf (run_op env sv now op v)"
  by (simp add: run_op_offers run_op_keys handover_wf_def)

lemma run_key_op_wf: "handover_wf v \<Longrightarrow> handover_wf (run_key_op W sv now op v)"
  by (cases op) (simp_all add: take_key_wf queue_wf offer_wf run_op_handover_wf)

lemma empty_handover_wf: "handover_wf empty_vault"
  by (simp add: handover_wf_def offers_wf_def handovers_wf_def transfers_wf_def empty_vault_def empty_document_def)

section \<open>Properties\<close>

text \<open>
  Whatever the store has been through - keys imported, generated, adopted and removed, handovers
  queued and delivered, offers made by peers, accepted, refused and dropped, with writes that failed
  among them - it holds at most eight unanswered offers, one per peer and key, at most one queued
  handover per peer and key, and on every key one note per peer it was handed to.
\<close>

theorem handovers_bounded:
  assumes "key_reachable W v"
  shows "handover_wf v"
  using assms by induction (simp_all add: empty_handover_wf run_key_op_wf)

definition small_key_lib :: "unit key_lib" where
  "small_key_lib = \<lparr>kl_fold = (=), kl_fingerprint = pk_marshal, kl_pem = (\<lambda>_. None),
     kl_raw = (\<lambda>_. Inr ()), kl_raw_with = (\<lambda>_ _. Inr ()), kl_marshal = (\<lambda>_ _. Inr ''pem''),
     kl_signer = (\<lambda>_. Inr \<lparr>sr_public = \<lparr>pk_type = ''ssh-ed25519'', pk_marshal = ''blob''\<rparr>,
       sr_sign = (\<lambda>_. Inl ''no''), sr_sign_with = None\<rparr>)\<rparr>"

definition small_world :: "unit key_world" where
  "small_world = \<lparr>kw_store = sample_env, kw_lib = small_key_lib,
     kw_hw = \<lparr>hl_parse = (\<lambda>_. Inl ''no''), hl_p256 = (\<lambda>_. True), hl_wrap = (\<lambda>_. Inl ''no'')\<rparr>,
     kw_element = None\<rparr>"

definition one_offer :: vault where
  "one_offer = run_key_op small_world None 5 (K_AddOffer (Inr []) ''peer'' ''Peer'' ''key'' [] [] ''pem'') empty_vault"

theorem handovers_bounded_witness: "handover_wf one_offer"
  unfolding one_offer_def by (rule handovers_bounded [of small_world]) (intro key_reachable.intros)

lemma AcceptKeyOffer_again:
  assumes "takeOffer (offers_of v) i = (Some q, kept)" "kl_signer L (po_private_key q) = Inr signer"
    "k \<in> set (keys_of v)" "sk_fingerprint k = kl_fingerprint L (sr_public signer)"
  shows "\<exists>held. snd (AcceptKeyOffer L sv now i label v) = Inl (ErrDuplicateKey held)"
proof -
  have "find (\<lambda>k. sk_fingerprint k = kl_fingerprint L (sr_public signer)) (keys_of v) \<noteq> None"
    using assms(3,4) by (auto simp: find_None_iff)
  then show ?thesis using assms(1,2) by (auto simp: AcceptKeyOffer_def addKeyLocked_def)
qed


lemma one_offer_offers: "map po_id (offers_of one_offer) = [[]]" "keys_of one_offer = []"
  by (simp_all add: one_offer_def small_world_def small_key_lib_def AddKeyOffer_def parsePrivateKey_def
      newOfferID_eq base32_lower_def new_offer_def stored_by_def empty_vault_def empty_document_def
      MaxPendingKeyOffers_def with_offers_def Let_def)


text \<open>
  The comment is read back from a private key file as OpenSSH writes one: the loop over the private
  section ends, for every key type, at the comment, and the padding after it is never mistaken for
  another string.
\<close>

theorem keyComment_written:
  assumes "pem_decode keyPEM = Some (open_ssh_block, openssh_body kdf options pub
      (check @ concat (map ssh_string (parts @ [comment])) @ padding n))"
    and "length check = 8" "n < 8" "\<forall>f \<in> set (parts @ [comment]). length f < 2 ^ 32"
    and "length kdf < 2 ^ 32" "length options < 2 ^ 32" "length pub < 2 ^ 32"
    and "length (check @ concat (map ssh_string (parts @ [comment])) @ padding n) < 2 ^ 32"
  shows "keyComment pem_decode keyPEM = comment"
  using assms private_comment_written [OF assms(2,4,3)] body_comment_written [OF assms(5-8)]
  by (simp add: keyComment_def)

theorem keyComment_written_witness:
  "keyComment (\<lambda>_. Some (open_ssh_block, openssh_body ''none'' [] ''pub''
      (''12345678'' @ concat (map ssh_string ([''ssh-ed25519'', ''secret''] @ [''me@example''])) @ padding 3)))
     ''pem'' = ''me@example''"
  by (rule keyComment_written [where comment = "''me@example''" and parts = "[''ssh-ed25519'', ''secret'']" and n = 3
        and check = "''12345678''" and kdf = "''none''" and options = "[]" and pub = "''pub''"])
     (simp_all add: ssh_string_def)

text \<open>
  A gate that refuses lets no signature out: with it installed, the signer the store hands out for a
  portable key answers every request to sign, in either form, with the refusal or with an error.
\<close>

theorem Signer_gated:
  assumes "Signer L H hw (Some gate) fp v = Inr (signer, k)" "sk_hardware_handle k = []"
    "gate (signingReason (sk_label k)) = Some e"
  shows "sr_sign signer data = Inl e \<and>
    (\<exists>with_alg. sr_sign_with signer = Some with_alg \<and> (\<exists>e'. with_alg data alg = Inl e'))"
  using assms
  by (auto simp: Signer_def gatedSigner_def split: option.splits sum.splits if_splits)

end
