(* ===== verification/Agent_Classify.thy ===== *)
theory Agent_Classify
  imports Sshsig Messages Ssh_Wire
begin

text \<open>
  What a sign request is asking for, \<^verbatim>\<open>src/pkg/agent/classify.go\<close>: an SSHSIG blob, a public key
  authentication blob, or nothing this agent signs. The SSH library's key parser and hash are the
  record \<open>ssh_lib\<close>; \<open>quote\<close> is the \<^verbatim>\<open>%q\<close> of \<^verbatim>\<open>fmt\<close>.
\<close>

section \<open>Parsing\<close>

datatype class_error =
    NoSshsigPreamble
  | ShortField string
  | TrailingBytes nat
  | EmptyBlobNamespace
  | EmptySessionIdentifier
  | WrongMessageType nat
  | WrongMethod string
  | SignatureFlagFalse
  | BadHostKey string

definition msgUserauthRequest :: nat where "msgUserauthRequest = 50"
definition MethodPublicKey :: string where "MethodPublicKey = ''publickey''"
definition MethodHostbound :: string where "MethodHostbound = ''publickey-hostbound-v00@openssh.com''"
definition maxOpaquePrefix :: nat where "maxOpaquePrefix = 64"

definition f_namespace :: string where "f_namespace = ''namespace''"
definition f_reserved :: string where "f_reserved = ''reserved''"
definition f_hash :: string where "f_hash = ''hash algorithm''"
definition f_digest :: string where "f_digest = ''message digest''"
definition f_session :: string where "f_session = ''session identifier''"
definition f_type :: string where "f_type = ''message type''"
definition f_user :: string where "f_user = ''user name''"
definition f_service :: string where "f_service = ''service name''"
definition f_method :: string where "f_method = ''method name''"
definition f_flag :: string where "f_flag = ''signature flag''"
definition f_algorithm :: string where "f_algorithm = ''public key algorithm''"
definition f_blob :: string where "f_blob = ''public key blob''"
definition f_host_key :: string where "f_host_key = ''server host key''"

text \<open>One read under the name its error carries, and what is done with the rest.\<close>

definition field_then ::
    "string \<Rightarrow> (bytes \<Rightarrow> ('a \<times> bytes) option) \<Rightarrow> bytes \<Rightarrow> ('a \<Rightarrow> bytes \<Rightarrow> class_error + 'b) \<Rightarrow> class_error + 'b" where
  "field_then name reads buf k =
     (case reads buf of None \<Rightarrow> Inl (ShortField name) | Some (v, rest) \<Rightarrow> k v rest)"

definition parseSshsig :: "bytes \<Rightarrow> class_error + sshsig_request" where
  "parseSshsig payload =
     (if length payload < length Magic \<or> take (length Magic) payload \<noteq> Magic then Inl NoSshsigPreamble
      else
        field_then f_namespace stringValue (drop (length Magic) payload) (\<lambda>namespace r.
        field_then f_reserved stringValue r (\<lambda>_ r.
        field_then f_hash stringValue r (\<lambda>hashAlgorithm r.
        field_then f_digest stringValue r (\<lambda>digest r.
          if r \<noteq> [] then Inl (TrailingBytes (length r))
          else if namespace = [] then Inl EmptyBlobNamespace
          else Inr \<lparr>ss_namespace = namespace, ss_hash_algorithm = hashAlgorithm,
                     ss_message_digest = digest, ss_git_context = None\<rparr>)))))"

definition host_key_of :: "ssh_lib \<Rightarrow> ssh_public_key \<Rightarrow> host_key" where
  "host_key_of L pub = \<lparr>hk_blob = pk_marshal pub, hk_algorithm = pk_type pub,
     hk_fingerprint = lib_fingerprint L pub, hk_known_hosts_names = [], hk_known = False\<rparr>"

definition auth_request :: "string \<Rightarrow> string \<Rightarrow> string \<Rightarrow> bytes \<Rightarrow> host_key option \<Rightarrow> ssh_auth_request" where
  "auth_request username service method sessionID host = \<lparr>sa_username = username, sa_service = service,
     sa_method = method, sa_session_id = sessionID, sa_bound = False, sa_forwarded = False,
     sa_destination = None, sa_binding_chain = [], sa_destination_label = [], sa_forwarded_hops = 0,
     sa_payload_destination = host\<rparr>"

definition nothing_after :: "bytes \<Rightarrow> 'a \<Rightarrow> class_error + 'a" where
  "nothing_after r x = (if r \<noteq> [] then Inl (TrailingBytes (length r)) else Inr x)"

definition parseAuthBlob :: "ssh_lib \<Rightarrow> bytes \<Rightarrow> class_error + ssh_auth_request" where
  "parseAuthBlob L payload =
     field_then f_session stringValue payload (\<lambda>sessionID r.
     if sessionID = [] then Inl EmptySessionIdentifier else
     field_then f_type byteValue r (\<lambda>msgType r.
     if msgType \<noteq> msgUserauthRequest then Inl (WrongMessageType msgType) else
     field_then f_user stringValue r (\<lambda>username r.
     field_then f_service stringValue r (\<lambda>service r.
     field_then f_method stringValue r (\<lambda>method r.
     if method \<noteq> MethodPublicKey \<and> method \<noteq> MethodHostbound then Inl (WrongMethod method) else
     field_then f_flag boolValue r (\<lambda>hasSignature r.
     if \<not> hasSignature then Inl SignatureFlagFalse else
     field_then f_algorithm stringValue r (\<lambda>_ r.
     field_then f_blob stringValue r (\<lambda>_ r.
     if method = MethodHostbound
     then field_then f_host_key stringValue r (\<lambda>hostKey r.
            case lib_parse_public L hostKey of
              Inl e \<Rightarrow> Inl (BadHostKey e)
            | Inr pub \<Rightarrow>
                nothing_after r (auth_request username service method sessionID (Some (host_key_of L pub))))
     else nothing_after r (auth_request username service method sessionID None)))))))))"

section \<open>Classification\<close>

record Classification =
  cl_kind :: request_kind
  cl_ssh_auth :: "ssh_auth_request option"
  cl_sshsig :: "sshsig_request option"
  cl_opaque :: "opaque_sign_request option"

definition error_words :: "(string \<Rightarrow> string) \<Rightarrow> class_error \<Rightarrow> string" where
  "error_words quote e = (case e of
       NoSshsigPreamble \<Rightarrow> ''no SSHSIG preamble''
     | ShortField name \<Rightarrow> name @ '': truncated SSH wire encoding''
     | TrailingBytes n \<Rightarrow> nat_str n @ '' trailing bytes''
     | EmptyBlobNamespace \<Rightarrow> ''empty namespace''
     | EmptySessionIdentifier \<Rightarrow> ''empty session identifier''
     | WrongMessageType n \<Rightarrow>
         ''message type '' @ nat_str n @ '', want SSH_MSG_USERAUTH_REQUEST ('' @ nat_str msgUserauthRequest @ '')''
     | WrongMethod m \<Rightarrow>
         ''method '' @ quote m @ '', want '' @ MethodPublicKey @ '' or '' @ MethodHostbound
     | SignatureFlagFalse \<Rightarrow> ''signature flag is false''
     | BadHostKey e \<Rightarrow> f_host_key @ '': '' @ e)"

definition opaque :: "ssh_lib \<Rightarrow> bytes \<Rightarrow> string \<Rightarrow> Classification" where
  "opaque L payload reason = \<lparr>cl_kind = REQUEST_KIND_OPAQUE_SIGN, cl_ssh_auth = None, cl_sshsig = None,
     cl_opaque = Some \<lparr>os_payload_length = length payload mod 2 ^ 32, os_payload_sha256 = lib_sha256 L payload,
       os_reason = reason, os_prefix = take maxOpaquePrefix payload\<rparr>\<rparr>"

definition malformed_text :: string where "malformed_text = ''malformed SSHSIG payload: ''"
definition not_auth_text :: string where "not_auth_text = ''not an SSH authentication blob: ''"

definition Classify :: "ssh_lib \<Rightarrow> (string \<Rightarrow> string) \<Rightarrow> bytes \<Rightarrow> Classification" where
  "Classify L quote payload =
     (case parseSshsig payload of
        Inr sig \<Rightarrow>
          \<lparr>cl_kind = (if ss_namespace sig = GitNamespace then REQUEST_KIND_GIT_SIGN else REQUEST_KIND_SSHSIG),
           cl_ssh_auth = None, cl_sshsig = Some sig, cl_opaque = None\<rparr>
      | Inl e \<Rightarrow>
          if e \<noteq> NoSshsigPreamble then opaque L payload (malformed_text @ error_words quote e)
          else (case parseAuthBlob L payload of
                  Inl e \<Rightarrow> opaque L payload (not_auth_text @ error_words quote e)
                | Inr auth \<Rightarrow> \<lparr>cl_kind = REQUEST_KIND_SSH_AUTH, cl_ssh_auth = Some auth, cl_sshsig = None,
                                cl_opaque = None\<rparr>))"

section \<open>The two grammars\<close>

text \<open>What the two kinds of payload look like, as their writers make them.\<close>

definition short :: "bytes \<Rightarrow> bool" where
  "short s \<longleftrightarrow> length s < 2 ^ 32"

definition sshsig_payload :: "bytes \<Rightarrow> bytes \<Rightarrow> bytes \<Rightarrow> bytes \<Rightarrow> bytes" where
  "sshsig_payload namespace reserved hash digest =
     Magic @ ssh_string namespace @ ssh_string reserved @ ssh_string hash @ ssh_string digest"

definition auth_payload ::
    "bytes \<Rightarrow> bytes \<Rightarrow> bytes \<Rightarrow> bytes \<Rightarrow> char \<Rightarrow> bytes \<Rightarrow> bytes \<Rightarrow> bytes \<Rightarrow> bytes" where
  "auth_payload sid user service method flag algorithm blob after =
     ssh_string sid @ [byte_of msgUserauthRequest] @ ssh_string user @ ssh_string service @
     ssh_string method @ [flag] @ ssh_string algorithm @ ssh_string blob @ after"

lemma field_then_Inr:
  "field_then name reads buf k = Inr x \<longleftrightarrow> (\<exists>v rest. reads buf = Some (v, rest) \<and> k v rest = Inr x)"
  by (auto simp: field_then_def split: option.split)

lemma nothing_after_Inr: "nothing_after r x = Inr y \<longleftrightarrow> r = [] \<and> y = x"
  by (auto simp: nothing_after_def)

lemma prefix_drop: "\<not> length s < length p \<Longrightarrow> take (length p) s = p \<Longrightarrow> s = p @ drop (length p) s"
  by (metis append_take_drop_id)

lemma parseSshsig_iff:
  "parseSshsig payload = Inr sig \<longleftrightarrow>
     (\<exists>namespace reserved hash digest.
        payload = sshsig_payload namespace reserved hash digest \<and> namespace \<noteq> [] \<and>
        short namespace \<and> short reserved \<and> short hash \<and> short digest \<and>
        sig = \<lparr>ss_namespace = namespace, ss_hash_algorithm = hash, ss_message_digest = digest,
               ss_git_context = None\<rparr>)"
    (is "?l \<longleftrightarrow> ?r")
proof
  assume ?l
  then have p: "payload = Magic @ drop (length Magic) payload"
    by (intro prefix_drop) (auto simp: parseSshsig_def split: if_splits)
  from \<open>?l\<close> obtain a b c d where "drop (length Magic) payload =
      ssh_string a @ ssh_string b @ ssh_string c @ ssh_string d" "a \<noteq> []" "short a" "short b" "short c" "short d"
    "sig = \<lparr>ss_namespace = a, ss_hash_algorithm = c, ss_message_digest = d, ss_git_context = None\<rparr>"
    by (auto simp: parseSshsig_def field_then_Inr stringValue_Some short_def split: if_splits)
  with p show ?r unfolding sshsig_payload_def by metis
next
  have last: "short d \<Longrightarrow> stringValue (ssh_string d) = Some (d, [])" for d
    using stringValue_ssh_string [of d "[]"] by (simp add: short_def)
  assume ?r
  then show ?l
    by (auto simp: parseSshsig_def sshsig_payload_def field_then_def last short_def)
qed

lemma stringValue_last: "short d \<Longrightarrow> stringValue (ssh_string d) = Some (d, [])"
  using stringValue_ssh_string [of d "[]"] by (simp add: short_def)

text \<open>What may follow the key of an authentication blob, and the destination it carries.\<close>

definition auth_tail :: "ssh_lib \<Rightarrow> bytes \<Rightarrow> bytes \<Rightarrow> host_key option \<Rightarrow> bool" where
  "auth_tail L method after host \<longleftrightarrow>
     method = MethodPublicKey \<and> after = [] \<and> host = None \<or>
     method = MethodHostbound \<and>
       (\<exists>hk pub. short hk \<and> after = ssh_string hk \<and> lib_parse_public L hk = Inr pub \<and> host = Some (host_key_of L pub))"

definition auth_grammar :: "ssh_lib \<Rightarrow> bytes \<Rightarrow> ssh_auth_request \<Rightarrow> bool" where
  "auth_grammar L payload auth \<longleftrightarrow>
     (\<exists>sid user service method flag algorithm blob after host.
        payload = auth_payload sid user service method flag algorithm blob after \<and>
        sid \<noteq> [] \<and> of_char flag \<noteq> (0 :: nat) \<and> short sid \<and> short user \<and> short service \<and> short method \<and>
        short algorithm \<and> short blob \<and> auth_tail L method after host \<and>
        auth = auth_request user service method sid host)"

lemma methods_differ: "MethodPublicKey \<noteq> MethodHostbound"
  by (simp add: MethodPublicKey_def MethodHostbound_def)

lemma case_sum_Inr:
  "(case s of Inl e \<Rightarrow> Inl (f e) | Inr y \<Rightarrow> g y) = Inr x \<longleftrightarrow> (\<exists>y. s = Inr y \<and> g y = Inr x)"
  by (cases s) auto

lemma parse_auth_tail:
  "(if meth = MethodHostbound
    then field_then f_host_key stringValue r (\<lambda>hostKey r.
           case lib_parse_public L hostKey of
             Inl e \<Rightarrow> Inl (BadHostKey e)
           | Inr pub \<Rightarrow> nothing_after r (auth_request u sv meth sid (Some (host_key_of L pub))))
    else nothing_after r (auth_request u sv meth sid None)) = Inr auth \<and>
   (meth = MethodPublicKey \<or> meth = MethodHostbound) \<longleftrightarrow>
   (\<exists>host. auth_tail L meth r host \<and> auth = auth_request u sv meth sid host)"
proof (cases "meth = MethodHostbound")
  case True
  then show ?thesis using methods_differ
    by (auto simp: auth_tail_def field_then_Inr nothing_after_Inr stringValue_Some short_def case_sum_Inr)
next
  case False
  then show ?thesis by (auto simp: auth_tail_def nothing_after_Inr)
qed

lemma parseAuthBlob_iff: "parseAuthBlob L payload = Inr auth \<longleftrightarrow> auth_grammar L payload auth"
proof
  assume "parseAuthBlob L payload = Inr auth"
  then obtain sid user service meth flag algorithm blob r where
    p: "payload = auth_payload sid user service meth flag algorithm blob r"
    "sid \<noteq> []" "of_char flag \<noteq> (0 :: nat)" "short sid" "short user" "short service" "short meth"
    "short algorithm" "short blob" "meth = MethodPublicKey \<or> meth = MethodHostbound"
    "(if meth = MethodHostbound
      then field_then f_host_key stringValue r (\<lambda>hostKey r.
             case lib_parse_public L hostKey of
               Inl e \<Rightarrow> Inl (BadHostKey e)
             | Inr pub \<Rightarrow> nothing_after r (auth_request user service meth sid (Some (host_key_of L pub))))
      else nothing_after r (auth_request user service meth sid None)) = Inr auth"
    unfolding parseAuthBlob_def auth_payload_def
    by (auto simp: field_then_Inr [of f_session] field_then_Inr [of f_type] field_then_Inr [of f_user]
        field_then_Inr [of f_service] field_then_Inr [of f_method] field_then_Inr [of f_flag]
        field_then_Inr [of f_algorithm] field_then_Inr [of f_blob] stringValue_Some byteValue_Some
        boolValue_Some short_def split: if_splits)
  then obtain host where "auth_tail L meth r host" "auth = auth_request user service meth sid host"
    using parse_auth_tail [where meth = meth and r = r and L = L and u = user and sv = service and sid = sid and auth = auth]
    by blast
  with p show "auth_grammar L payload auth" unfolding auth_grammar_def by blast
next
  assume "auth_grammar L payload auth"
  then obtain sid user service meth flag algorithm blob after host where
    p: "payload = auth_payload sid user service meth flag algorithm blob after"
    "sid \<noteq> []" "of_char flag \<noteq> (0 :: nat)" "short sid" "short user" "short service" "short meth"
    "short algorithm" "short blob" "auth_tail L meth after host" "auth = auth_request user service meth sid host"
    unfolding auth_grammar_def by blast
  then have t: "(if meth = MethodHostbound
      then field_then f_host_key stringValue after (\<lambda>hostKey r.
             case lib_parse_public L hostKey of
               Inl e \<Rightarrow> Inl (BadHostKey e)
             | Inr pub \<Rightarrow> nothing_after r (auth_request user service meth sid (Some (host_key_of L pub))))
      else nothing_after after (auth_request user service meth sid None)) = Inr auth"
    "meth = MethodPublicKey \<or> meth = MethodHostbound"
    using parse_auth_tail [where meth = meth and r = after and L = L and u = user and sv = service and sid = sid and auth = auth]
    by blast+
  have n: "(of_char (byte_of msgUserauthRequest) :: nat) = msgUserauthRequest" by (simp add: msgUserauthRequest_def)
  show "parseAuthBlob L payload = Inr auth"
    using p(2-9) t n
    by (simp add: p(1) parseAuthBlob_def auth_payload_def field_then_def [of f_session] field_then_def [of f_type]
        field_then_def [of f_user] field_then_def [of f_service] field_then_def [of f_method]
        field_then_def [of f_flag] field_then_def [of f_algorithm] field_then_def [of f_blob]
        byteValue_Cons boolValue_def short_def)
qed

lemma parseSshsig_preamble:
  "parseSshsig payload = Inl NoSshsigPreamble \<longleftrightarrow> length payload < length Magic \<or> take (length Magic) payload \<noteq> Magic"
  by (auto simp: parseSshsig_def field_then_def split: option.splits if_splits)

text \<open>The session identifier whose length reads as the first four letters of the preamble.\<close>

definition magic_length :: nat where "magic_length = 1397966931"

lemma auth_no_magic:
  assumes "length sid < 2 ^ 32" "length sid \<noteq> magic_length"
  shows "take (length Magic) (ssh_string sid @ rest) \<noteq> Magic"
proof
  assume m: "take (length Magic) (ssh_string sid @ rest) = Magic"
  have "take 4 (take (length Magic) (ssh_string sid @ rest)) = put_uint32 (length sid)"
    by (simp add: Magic_def ssh_string_def)
  with m have "put_uint32 (length sid) = ''SSHS''" by (simp add: Magic_def)
  then have "get_uint32 (put_uint32 (length sid) @ []) = get_uint32 ''SSHS''" by simp
  then have "length sid = magic_length"
    using assms(1) unfolding get_put_uint32 by (simp add: get_uint32_def byte_at_def magic_length_def)
  with assms(2) show False by simp
qed

lemmas Classification_simps = Classify_def opaque_def

section \<open>Properties\<close>

text \<open>
  Exactly one of the three readings of a payload is set, the kind says which, and the kind is that of
  a git signature exactly for the namespace git uses. What is not read is described by its length, its
  hash and at most 64 of its bytes.
\<close>

theorem Classify_one_reading:
  "case (cl_ssh_auth (Classify L q p), cl_sshsig (Classify L q p), cl_opaque (Classify L q p)) of
     (Some _, None, None) \<Rightarrow> cl_kind (Classify L q p) = REQUEST_KIND_SSH_AUTH
   | (None, Some sig, None) \<Rightarrow>
       cl_kind (Classify L q p) =
         (if ss_namespace sig = GitNamespace then REQUEST_KIND_GIT_SIGN else REQUEST_KIND_SSHSIG)
   | (None, None, Some unread) \<Rightarrow>
       cl_kind (Classify L q p) = REQUEST_KIND_OPAQUE_SIGN \<and> os_payload_sha256 unread = lib_sha256 L p \<and>
       length (os_prefix unread) \<le> 64 \<and> take (length (os_prefix unread)) p = os_prefix unread
   | _ \<Rightarrow> False"
  by (simp add: Classification_simps maxOpaquePrefix_def min_def split: sum.split)

text \<open>
  C38: The classifier accepts exactly the two grammars, to the last byte. A payload is read as a signature
  request when it is the preamble followed by four strings of which the first, the namespace, is not
  empty; as a login when it does not begin with the preamble and is a session identifier, the message
  number, user, service, method, a set flag, algorithm and key, with the server's parsed host key after
  them exactly for the host-bound method; and everything else is opaque.
\<close>

theorem Classify_grammars:
  "(cl_sshsig (Classify L q p) = Some sig \<longleftrightarrow>
      (\<exists>namespace reserved hash digest.
         p = sshsig_payload namespace reserved hash digest \<and> namespace \<noteq> [] \<and>
         short namespace \<and> short reserved \<and> short hash \<and> short digest \<and>
         sig = \<lparr>ss_namespace = namespace, ss_hash_algorithm = hash, ss_message_digest = digest,
                ss_git_context = None\<rparr>)) \<and>
   (cl_ssh_auth (Classify L q p) = Some auth \<longleftrightarrow> take (length Magic) p \<noteq> Magic \<and> auth_grammar L p auth) \<and>
   (cl_kind (Classify L q p) = REQUEST_KIND_OPAQUE_SIGN \<longleftrightarrow>
      cl_sshsig (Classify L q p) = None \<and> cl_ssh_auth (Classify L q p) = None)"
proof (intro conjI)
  show "cl_sshsig (Classify L q p) = Some sig \<longleftrightarrow>
      (\<exists>namespace reserved hash digest.
         p = sshsig_payload namespace reserved hash digest \<and> namespace \<noteq> [] \<and>
         short namespace \<and> short reserved \<and> short hash \<and> short digest \<and>
         sig = \<lparr>ss_namespace = namespace, ss_hash_algorithm = hash, ss_message_digest = digest,
                ss_git_context = None\<rparr>)"
    unfolding parseSshsig_iff [symmetric] by (auto simp: Classification_simps split: sum.split)
  show "cl_ssh_auth (Classify L q p) = Some auth \<longleftrightarrow> take (length Magic) p \<noteq> Magic \<and> auth_grammar L p auth"
  proof (cases "parseSshsig p")
    case (Inr sig)
    then have "take (length Magic) p = Magic" using parseSshsig_iff [of p sig] by (auto simp: sshsig_payload_def)
    with Inr show ?thesis by (simp add: Classification_simps)
  next
    case (Inl e)
    have "length p < length Magic \<Longrightarrow> take (length Magic) p \<noteq> Magic" by (auto simp: Magic_def)
    with Inl parseSshsig_preamble [of p] show ?thesis
      by (auto simp: Classification_simps parseAuthBlob_iff [symmetric] split: sum.split)
  qed
  show "cl_kind (Classify L q p) = REQUEST_KIND_OPAQUE_SIGN \<longleftrightarrow>
      cl_sshsig (Classify L q p) = None \<and> cl_ssh_auth (Classify L q p) = None"
    by (simp add: Classification_simps split: sum.split)
qed

text \<open>
  No login is mistaken for a signature: a login blob is read as itself whatever its fields, unless its
  session identifier is 1397966931 bytes long, the one length whose encoding begins like the preamble.
\<close>

theorem Classify_login:
  assumes "sid \<noteq> []" "short sid" "length sid \<noteq> magic_length" "of_char flag \<noteq> (0 :: nat)"
    and "short user" "short service" "short method" "short algorithm" "short blob"
    and "auth_tail L method after host"
  shows "Classify L q (auth_payload sid user service method flag algorithm blob after) =
     \<lparr>cl_kind = REQUEST_KIND_SSH_AUTH, cl_ssh_auth = Some (auth_request user service method sid host),
      cl_sshsig = None, cl_opaque = None\<rparr>"
proof -
  let ?p = "auth_payload sid user service method flag algorithm blob after"
  have "take (length Magic) ?p \<noteq> Magic"
    using auth_no_magic [of sid] assms(2,3) by (simp add: auth_payload_def short_def)
  then have "parseSshsig ?p = Inl NoSshsigPreamble" using parseSshsig_preamble by blast
  moreover have "parseAuthBlob L ?p = Inr (auth_request user service method sid host)"
    using assms unfolding parseAuthBlob_iff auth_grammar_def by blast
  ultimately show ?thesis by (simp add: Classify_def)
qed

theorem Classify_login_witness:
  "cl_kind (Classify toy_lib id
     (auth_payload ''session'' ''git'' ''ssh-connection'' MethodPublicKey (CHR 0x01) ''ssh-ed25519'' ''blob'' [])) =
     REQUEST_KIND_SSH_AUTH"
proof -
  have "Classify toy_lib id
     (auth_payload ''session'' ''git'' ''ssh-connection'' MethodPublicKey (CHR 0x01) ''ssh-ed25519'' ''blob'' []) =
     \<lparr>cl_kind = REQUEST_KIND_SSH_AUTH,
      cl_ssh_auth = Some (auth_request ''git'' ''ssh-connection'' MethodPublicKey ''session'' None),
      cl_sshsig = None, cl_opaque = None\<rparr>"
    by (rule Classify_login) (simp_all add: short_def magic_length_def auth_tail_def MethodPublicKey_def)
  then show ?thesis by simp
qed

end
