(* ===== verification/Agent_Session.thy ===== *)
theory Agent_Session
  imports Agent_Classify
begin

text \<open>
  What an agent connection knows about where it leads: the session bindings of
  \<^verbatim>\<open>src/pkg/agent/sessionbind.go\<close> and the reverse lookup of \<^verbatim>\<open>src/pkg/agent/knownhosts.go\<close>.

  The library's parser of one known-hosts line is an argument. The loop around it is a partial function:
  it stops because the parser consumes input, which is a hypothesis of the theorem that says so. The
  files are an argument too, as what reading a path gives.
\<close>

section \<open>Session bindings\<close>

definition SessionBindExtension :: string where "SessionBindExtension = ''session-bind@openssh.com''"
definition maxBindings :: nat where "maxBindings = 32"

datatype bind_error =
    BindShort string
  | BindTrailing nat
  | BindEmptySession
  | BindHostKey string
  | BindSignature string
  | BindNotVerified string
  | TooManyBindings

definition parseSessionBind :: "ssh_lib \<Rightarrow> bytes \<Rightarrow> bind_error + ssh_public_key \<times> bytes \<times> bool" where
  "parseSessionBind L contents =
     (case stringValue contents of
        None \<Rightarrow> Inl (BindShort ''host key'')
      | Some (hostKeyBlob, r1) \<Rightarrow>
     (case stringValue r1 of
        None \<Rightarrow> Inl (BindShort ''session identifier'')
      | Some (sessionID, r2) \<Rightarrow>
     (case stringValue r2 of
        None \<Rightarrow> Inl (BindShort ''signature'')
      | Some (signature, r3) \<Rightarrow>
     (case boolValue r3 of
        None \<Rightarrow> Inl (BindShort ''is_forwarding'')
      | Some (isForwarding, r4) \<Rightarrow>
          if r4 \<noteq> [] then Inl (BindTrailing (length r4))
          else if sessionID = [] then Inl BindEmptySession
          else (case lib_parse_public L hostKeyBlob of
                  Inl e \<Rightarrow> Inl (BindHostKey e)
                | Inr pub \<Rightarrow>
                    (case lib_unmarshal_signature L signature of
                       Inl e \<Rightarrow> Inl (BindSignature e)
                     | Inr sig \<Rightarrow>
                         (case lib_verify L pub sessionID sig of
                            Some e \<Rightarrow> Inl (BindNotVerified e)
                          | None \<Rightarrow> Inr (pub, sessionID, isForwarding))))))))"

type_synonym bindings = "session_binding list"

definition bindings_add :: "session_binding \<Rightarrow> bindings \<Rightarrow> bindings \<times> bind_error option" where
  "bindings_add binding list =
     (if maxBindings \<le> length list then (list, Some TooManyBindings)
      else (list @ [binding\<lparr>sb_hop := int (length list)\<rparr>], None))"

record bindContext =
  bc_binding :: "session_binding option"
  bc_forwarded :: bool
  bc_hops :: int
  bc_chain :: bindings

text \<open>The session identifier is \<^const>\<open>None\<close> where the code has a nil slice.\<close>

fun correlate :: "bytes option \<Rightarrow> bindings \<Rightarrow> bindContext \<Rightarrow> bindContext" where
  "correlate sessionID [] out = out"
| "correlate sessionID (binding # rest) out =
     (let out' = (if sb_is_forwarding binding then out\<lparr>bc_forwarded := True, bc_hops := bc_hops out + 1\<rparr> else out)
      in if sessionID = Some (sb_session_id binding) then out'\<lparr>bc_binding := Some binding\<rparr>
         else correlate sessionID rest out')"

definition bindings_context :: "bytes option \<Rightarrow> bindings \<Rightarrow> bindContext" where
  "bindings_context sessionID list =
     correlate sessionID list \<lparr>bc_binding = None, bc_forwarded = False, bc_hops = 0, bc_chain = list\<rparr>"

section \<open>Known hosts\<close>

type_synonym host_names = "(bytes \<rightharpoonup> string list) \<times> (bytes \<Rightarrow> bool)"
type_synonym known_line = "string \<times> string list \<times> ssh_public_key"
type_synonym line_parser = "bytes \<Rightarrow> string + known_line \<times> bytes"

definition appendUnique :: "string list \<Rightarrow> string \<Rightarrow> string list" where
  "appendUnique list value = (if value \<in> set list then list else list @ [value])"

definition hashed_mark :: string where "hashed_mark = ''|1|''"

definition record_host :: "bytes \<Rightarrow> host_names \<Rightarrow> string \<Rightarrow> host_names" where
  "record_host blob st host =
     (if has_prefix host hashed_mark then (fst st, (snd st)(blob := True))
      else ((fst st)(blob \<mapsto> appendUnique (case fst st blob of None \<Rightarrow> [] | Some names \<Rightarrow> names) host), snd st))"

definition record_line :: "host_names \<Rightarrow> known_line \<Rightarrow> host_names" where
  "record_line st line =
     (case line of (marker, hosts, pubKey) \<Rightarrow>
        if marker \<noteq> [] then st else foldl (record_host (pk_marshal pubKey)) st hosts)"

partial_function (option) parseKnownHosts :: "line_parser \<Rightarrow> bytes \<Rightarrow> host_names \<Rightarrow> host_names option" where
  "parseKnownHosts parser rest st =
     (if rest = [] then Some st
      else case parser rest of
          Inl err \<Rightarrow> Some st
        | Inr (line, remainder) \<Rightarrow> parseKnownHosts parser remainder (record_line st line))"

declare parseKnownHosts.simps [code]

record KnownHosts =
  kh_paths :: "string list"
  kh_loaded :: time
  kh_names :: "host_names option"

definition NewKnownHosts :: "string list \<Rightarrow> KnownHosts" where
  "NewKnownHosts paths = \<lparr>kh_paths = paths, kh_loaded = zero_time, kh_names = None\<rparr>"

definition reloadInterval :: duration where "reloadInterval = 30 * second"

fun load_files :: "line_parser \<Rightarrow> (string \<rightharpoonup> bytes) \<Rightarrow> string list \<Rightarrow> host_names \<Rightarrow> host_names option" where
  "load_files parser files [] st = Some st"
| "load_files parser files (path # paths) st =
     (case files path of
        None \<Rightarrow> load_files parser files paths st
      | Some body \<Rightarrow> Option.bind (parseKnownHosts parser body st) (load_files parser files paths))"

definition load :: "line_parser \<Rightarrow> (string \<rightharpoonup> bytes) \<Rightarrow> time \<Rightarrow> KnownHosts \<Rightarrow> KnownHosts option" where
  "load parser files now k =
     (if kh_names k \<noteq> None \<and> now - kh_loaded k < reloadInterval then Some k
      else map_option (\<lambda>names. k\<lparr>kh_names := Some names, kh_loaded := now\<rparr>)
             (load_files parser files (kh_paths k) (Map.empty, \<lambda>_. False)))"

definition annotated :: "host_names \<Rightarrow> host_key \<Rightarrow> host_key" where
  "annotated names h =
     (case fst names (hk_blob h) of
        Some ns \<Rightarrow> h\<lparr>hk_known := True, hk_known_hosts_names := ns\<rparr>
      | None \<Rightarrow> if snd names (hk_blob h) then h\<lparr>hk_known := True\<rparr> else h)"

definition Annotate ::
    "line_parser \<Rightarrow> (string \<rightharpoonup> bytes) \<Rightarrow> time \<Rightarrow> host_key \<Rightarrow> KnownHosts \<Rightarrow> (host_key \<times> KnownHosts) option" where
  "Annotate parser files now h k =
     map_option (\<lambda>k'. (case kh_names k' of None \<Rightarrow> h | Some names \<Rightarrow> annotated names h, k')) (load parser files now k)"

definition hostKeyMessage ::
    "ssh_lib \<Rightarrow> line_parser \<Rightarrow> (string \<rightharpoonup> bytes) \<Rightarrow> time \<Rightarrow> ssh_public_key \<Rightarrow> KnownHosts \<Rightarrow> (host_key \<times> KnownHosts) option" where
  "hostKeyMessage L parser files now pub k = Annotate parser files now (host_key_of L pub) k"

definition unknown_destination :: string where "unknown_destination = ''unknown destination''"

definition DisplayName :: "host_key option \<Rightarrow> string" where
  "DisplayName hostKey =
     (case hostKey of
        None \<Rightarrow> unknown_destination
      | Some h \<Rightarrow>
          (case hk_known_hosts_names h of
             name # _ \<Rightarrow> name
           | [] \<Rightarrow> if hk_known h then ''a known host ('' @ hk_fingerprint h @ '')''
                   else ''unknown host ('' @ hk_fingerprint h @ '')''))"

section \<open>Correlation\<close>

text \<open>What counts is everything up to and including the first binding for the session.\<close>

fun up_to :: "bytes option \<Rightarrow> bindings \<Rightarrow> bindings" where
  "up_to sessionID [] = []"
| "up_to sessionID (b # bs) = b # (if sessionID = Some (sb_session_id b) then [] else up_to sessionID bs)"

lemma correlate_eq:
  "correlate s bs out = out\<lparr>
     bc_binding := (case find (\<lambda>b. s = Some (sb_session_id b)) bs of None \<Rightarrow> bc_binding out | Some b \<Rightarrow> Some b),
     bc_forwarded := bc_forwarded out \<or> list_ex sb_is_forwarding (up_to s bs),
     bc_hops := bc_hops out + int (length (filter sb_is_forwarding (up_to s bs)))\<rparr>"
  by (induction bs arbitrary: out) (simp_all add: Let_def add.assoc split: option.splits)

lemma context_eq:
  "bindings_context s bs = \<lparr>bc_binding = find (\<lambda>b. s = Some (sb_session_id b)) bs,
     bc_forwarded = list_ex sb_is_forwarding (up_to s bs),
     bc_hops = int (length (filter sb_is_forwarding (up_to s bs))), bc_chain = bs\<rparr>"
  by (simp add: bindings_context_def correlate_eq split: option.splits)

lemma up_to_first: "bs \<noteq> [] \<Longrightarrow> hd bs \<in> set (up_to s bs)"
  by (cases bs) auto

lemma up_to_prefix: "\<exists>rest. bs = up_to s bs @ rest"
  by (induction bs) auto

section \<open>The list of bindings\<close>

text \<open>
  The list of one connection: at most \<^const>\<open>maxBindings\<close>, numbered in order, each naming a host key that
  signed the session it is for.
\<close>

definition bindings_ok :: "ssh_lib \<Rightarrow> bindings \<Rightarrow> bool" where
  "bindings_ok L bs \<longleftrightarrow> length bs \<le> maxBindings \<and> map sb_hop bs = map int [0..<length bs] \<and>
     (\<forall>b\<in>set bs. \<exists>pub sig h. sb_host_key b = Some h \<and> hk_blob h = pk_marshal pub \<and> sb_session_id b \<noteq> [] \<and>
        lib_verify L pub (sb_session_id b) sig = None)"

lemma parseSessionBind_Inr:
  assumes "parseSessionBind L contents = Inr (pub, sid, fwd)"
  obtains blob s sig r1 r2 r3 where "stringValue contents = Some (blob, r1)" "stringValue r1 = Some (sid, r2)"
    "stringValue r2 = Some (s, r3)" "boolValue r3 = Some (fwd, [])" "sid \<noteq> []"
    "lib_parse_public L blob = Inr pub" "lib_unmarshal_signature L s = Inr sig" "lib_verify L pub sid sig = None"
  using assms by (auto simp: parseSessionBind_def split: option.splits prod.splits if_splits sum.splits)

lemma bindings_add_ok:
  assumes "bindings_ok L bs" "parseSessionBind L contents = Inr (pub, sid, fwd)" "hk_blob h = pk_marshal pub"
    "sb_host_key b = Some h" "sb_session_id b = sid"
  shows "bindings_ok L (fst (bindings_add b bs))"
  using assms by (auto simp: bindings_ok_def bindings_add_def elim!: parseSessionBind_Inr)

lemma bindings_Nil [simp]: "bindings_ok L []"
  by (simp add: bindings_ok_def)

section \<open>Known names\<close>

text \<open>The lines the loop reads: up to the end of the file or the first line that does not parse.\<close>

inductive reads_lines :: "line_parser \<Rightarrow> bytes \<Rightarrow> known_line list \<Rightarrow> bool" for parser where
  at_end: "reads_lines parser [] []"
| gives_up: "rest \<noteq> [] \<Longrightarrow> parser rest = Inl err \<Longrightarrow> reads_lines parser rest []"
| line: "rest \<noteq> [] \<Longrightarrow> parser rest = Inr (l, remainder) \<Longrightarrow> reads_lines parser remainder ls
     \<Longrightarrow> reads_lines parser rest (l # ls)"

definition consumes :: "line_parser \<Rightarrow> bool" where
  "consumes parser \<longleftrightarrow> (\<forall>rest l remainder. parser rest = Inr (l, remainder) \<longrightarrow> length remainder < length rest)"

lemma parse_reads: "reads_lines parser rest ls \<Longrightarrow> parseKnownHosts parser rest st = Some (foldl record_line st ls)"
  by (induction arbitrary: st rule: reads_lines.induct) (subst parseKnownHosts.simps, simp)+

lemma reads_total:
  assumes "consumes parser"
  shows "\<exists>ls. reads_lines parser rest ls"
proof (induction "length rest" arbitrary: rest rule: less_induct)
  case less
  show ?case
  proof (cases "rest = []")
    case False
    show ?thesis
    proof (cases "parser rest")
      case (Inl err)
      then show ?thesis using False gives_up by blast
    next
      case (Inr x)
      then obtain l remainder where x: "parser rest = Inr (l, remainder)" by (cases x) simp
      then have "length remainder < length rest" using assms unfolding consumes_def by blast
      from less [OF this] obtain ls where "reads_lines parser remainder ls" ..
      then show ?thesis using line [of rest parser l remainder ls] False x by blast
    qed
  qed (use at_end in blast)
qed

definition names_of :: "host_names \<Rightarrow> bytes \<Rightarrow> string list" where
  "names_of st blob = (case fst st blob of None \<Rightarrow> [] | Some names \<Rightarrow> names)"

definition plain_name :: "known_line \<Rightarrow> bytes \<Rightarrow> string \<Rightarrow> bool" where
  "plain_name line blob host = (case line of (marker, hosts, pubKey) \<Rightarrow>
     marker = [] \<and> pk_marshal pubKey = blob \<and> host \<in> set hosts \<and> \<not> has_prefix host hashed_mark)"

lemma record_host_names:
  "set (names_of (record_host blob st host) b) =
     set (names_of st b) \<union> (if b = blob \<and> \<not> has_prefix host hashed_mark then {host} else {})"
  "distinct (names_of st b) \<Longrightarrow> distinct (names_of (record_host blob st host) b)"
  by (auto simp: record_host_def names_of_def appendUnique_def split: option.splits)

lemma record_hosts_names:
  "set (names_of (foldl (record_host blob) st hosts) b) =
     set (names_of st b) \<union> {h \<in> set hosts. b = blob \<and> \<not> has_prefix h hashed_mark} \<and>
   (distinct (names_of st b) \<longrightarrow> distinct (names_of (foldl (record_host blob) st hosts) b))"
  by (induction hosts arbitrary: st) (auto simp: record_host_names)

lemma record_line_names:
  "set (names_of (record_line st l) b) = set (names_of st b) \<union> {h. plain_name l b h}"
  "distinct (names_of st b) \<Longrightarrow> distinct (names_of (record_line st l) b)"
proof -
  obtain marker hosts pub where l: "l = (marker, hosts, pub)" by (cases l)
  note r = record_hosts_names [of "pk_marshal pub" st hosts b]
  show "set (names_of (record_line st l) b) = set (names_of st b) \<union> {h. plain_name l b h}"
    using conjunct1 [OF r] by (auto simp: l record_line_def plain_name_def)
  show "distinct (names_of (record_line st l) b)" if "distinct (names_of st b)"
    using conjunct2 [OF r] that by (simp add: l record_line_def)
qed

lemma record_lines_names:
  "set (names_of (foldl record_line st ls) b) = set (names_of st b) \<union> {h. \<exists>l\<in>set ls. plain_name l b h} \<and>
   (distinct (names_of st b) \<longrightarrow> distinct (names_of (foldl record_line st ls) b))"
  by (induction ls arbitrary: st) (auto simp: record_line_names)

text \<open>
  Reading a known-hosts file ends, and a key's names are those of the plain lines before the first one
  that does not parse, each once: a marked line (revoked, certificate authority) names nothing and a
  hashed name is not shown.
\<close>

theorem parseKnownHosts_returns:
  assumes "consumes parser"
  shows "\<exists>ls names. reads_lines parser body ls \<and>
    parseKnownHosts parser body (Map.empty, \<lambda>_. False) = Some names \<and>
    (\<forall>blob. distinct (names_of names blob) \<and> set (names_of names blob) = {h. \<exists>l\<in>set ls. plain_name l blob h})"
proof -
  obtain ls where ls: "reads_lines parser body ls" using reads_total [OF assms] by blast
  let ?st = "(Map.empty, \<lambda>_. False) :: host_names"
  have "names_of ?st blob = []" for blob by (simp add: names_of_def)
  then have "\<forall>blob. distinct (names_of (foldl record_line ?st ls) blob) \<and>
      set (names_of (foldl record_line ?st ls) blob) = {h. \<exists>l\<in>set ls. plain_name l blob h}"
    using record_lines_names [of ?st ls] by simp
  with ls parse_reads [OF ls, of ?st] show ?thesis by blast
qed

text \<open>A parser of one-byte lines, each naming one host by that byte.\<close>

definition byte_lines :: line_parser where
  "byte_lines rest = (case rest of [] \<Rightarrow> Inl [] | c # cs \<Rightarrow> Inr (([], [[c]], toy_key), cs))"

theorem parseKnownHosts_returns_witness:
  "\<exists>ls names. reads_lines byte_lines ''ab'' ls \<and>
    parseKnownHosts byte_lines ''ab'' (Map.empty, \<lambda>_. False) = Some names \<and>
    (\<forall>blob. distinct (names_of names blob) \<and> set (names_of names blob) = {h. \<exists>l\<in>set ls. plain_name l blob h})"
  by (rule parseKnownHosts_returns) (simp add: consumes_def byte_lines_def split: list.splits)

text \<open>
  Anything that came through a forwarded socket is marked so: when the binding a connection opened with
  is a forwarding one, every login on it counts as forwarded with at least one hop, whichever session it
  names. In general a login is forwarded exactly when a binding up to its own is, and the hops are those
  bindings' number.
\<close>

theorem context_forwarded:
  "bc_forwarded (bindings_context s bs) = (0 < bc_hops (bindings_context s bs)) \<and>
   bc_hops (bindings_context s bs) = int (length (filter sb_is_forwarding (up_to s bs))) \<and>
   (bs \<noteq> [] \<and> sb_is_forwarding (hd bs) \<longrightarrow> bc_forwarded (bindings_context s bs)) \<and>
   bc_hops (bindings_context s bs) \<le> int (length bs)"
proof -
  have "length (up_to s bs) \<le> length bs" using up_to_prefix [of bs s] by (metis le_add1 length_append)
  then have "length (filter sb_is_forwarding (up_to s bs)) \<le> length bs"
    using length_filter_le order_trans by blast
  moreover have "list_ex P xs = (0 < length (filter P xs))" for P and xs :: bindings by (induction xs) auto
  ultimately show ?thesis using up_to_first [of bs s] by (auto simp: context_eq list_ex_iff)
qed

definition demo_binding :: "bool \<Rightarrow> bytes \<Rightarrow> session_binding" where
  "demo_binding fwd sid = \<lparr>sb_host_key = None, sb_session_id = sid, sb_is_forwarding = fwd,
     sb_signature_verified = True, sb_hop = 0\<rparr>"

theorem context_forwarded_witness:
  "bc_forwarded (bindings_context (Some ''t'') [demo_binding True ''s'', demo_binding False ''t''])"
  using context_forwarded [of "Some ''t''" "[demo_binding True ''s'', demo_binding False ''t'']"]
  by (simp add: demo_binding_def)

end
