(* ===== verification/Local_Keys.thy ===== *)
theory Local_Keys
  imports Sshsig Messages Prompt "HOL-Library.Multiset"
begin

text \<open>
  The keys programs park in the agent, \<^verbatim>\<open>src/pkg/agent/local.go\<close>. The state is the list of entries and
  the events reported so far. The mutex makes an operation one step, which reads the clock as \<open>now\<close>;
  a timer going off is the operation \<open>expire\<close>, which the environment may run at any moment. Private
  halves are an abstract type \<open>'raw\<close>, wiping them is not visible in the model, and what the SSH library
  makes of them is the record \<open>park_lib\<close>.
\<close>

section \<open>State\<close>

record certificate =
  ct_valid_before :: "64 word"
  ct_blob :: bytes

record 'raw park_lib =
  pl_signer :: "'raw \<Rightarrow> string + ssh_signer"
  pl_cert_signer :: "certificate \<Rightarrow> ssh_signer \<Rightarrow> string + ssh_signer"
  pl_fingerprint :: "ssh_public_key \<Rightarrow> string"

record 'raw added_key =
  ad_private :: 'raw
  ad_certificate :: "certificate option"
  ad_comment :: string
  ad_lifetime_secs :: "32 word"
  ad_confirm_before_use :: bool

record local_key_info =
  li_label :: string
  li_fingerprint :: string
  li_algorithm :: string
  li_key_fingerprint :: string
  li_public_key :: bytes
  li_certificate :: bool
  li_added_by :: "client_process option"
  li_added_at :: timestamp
  li_expires_at :: timestamp
  li_confirm :: bool

record 'raw localKey =
  lc_info :: local_key_info
  lc_ref :: key_ref
  lc_signer :: ssh_signer
  lc_private :: 'raw

datatype LocalKeyEventKind = LocalKeyAdded | LocalKeyExpired | LocalKeyForgotten | LocalKeyPromoted

record LocalKeyEvent =
  le_kind :: LocalKeyEventKind
  le_key :: local_key_info
  le_by :: "client_process option"
  le_reason :: string

record 'raw LocalKeys =
  ls_limit :: nat
  ls_keys :: "'raw localKey list"
  ls_events :: "LocalKeyEvent list"

datatype local_error =
    NotAccepted string
  | CannotPark string
  | CannotParkCertificate string
  | ErrLocalKeysFull
  | ErrNoSuchLocalKey string
  | ErrAmbiguousLocalKey string

definition DefaultLocalKeyLimit :: nat where "DefaultLocalKeyLimit = 64"

definition NewLocalKeys :: "int \<Rightarrow> 'raw LocalKeys" where
  "NewLocalKeys limit = \<lparr>ls_limit = (if limit \<le> 0 then DefaultLocalKeyLimit else nat limit), ls_keys = [],
     ls_events = []\<rparr>"

section \<open>Building an entry\<close>

definition CertTimeInfinity :: "64 word" where "CertTimeInfinity = - 1"

definition cert_expiry :: "certificate \<Rightarrow> time \<Rightarrow> time" where
  "cert_expiry cert expires =
     (if ct_valid_before cert \<noteq> CertTimeInfinity \<and> 0 < ct_valid_before cert
      then let validBefore = sint (ct_valid_before cert) * second
        in if expires = zero_time \<or> validBefore < expires then validBefore else expires
      else expires)"

definition entry ::
    "'raw park_lib \<Rightarrow> time \<Rightarrow> 'raw added_key \<Rightarrow> client_process option \<Rightarrow> local_error + 'raw localKey" where
  "entry L now added by =
     (case pl_signer L (ad_private added) of
        Inl e \<Rightarrow> Inl (CannotPark e)
      | Inr signer \<Rightarrow>
          (let keyPub = sr_public signer;
               lifetime = (if 0 < ad_lifetime_secs added then now + uint (ad_lifetime_secs added) * second
                           else zero_time);
               certified = (case ad_certificate added of
                   None \<Rightarrow> Inr (signer, lifetime)
                 | Some cert \<Rightarrow>
                     (case pl_cert_signer L cert signer of
                        Inl e \<Rightarrow> Inl (CannotParkCertificate e)
                      | Inr signer' \<Rightarrow> Inr (signer', cert_expiry cert lifetime)))
           in case certified of
               Inl e \<Rightarrow> Inl e
             | Inr (signer', expires) \<Rightarrow>
                 (let listed = sr_public signer';
                      info = \<lparr>li_label = ad_comment added, li_fingerprint = pl_fingerprint L listed,
                        li_algorithm = pk_type keyPub, li_key_fingerprint = pl_fingerprint L keyPub,
                        li_public_key = pk_marshal listed, li_certificate = (ad_certificate added \<noteq> None),
                        li_added_by = by, li_added_at = Some now,
                        li_expires_at = (if expires = zero_time then None else Some expires),
                        li_confirm = ad_confirm_before_use added\<rparr>
                  in Inr \<lparr>lc_info = info,
                      lc_ref = \<lparr>kr_fingerprint = li_fingerprint info, kr_algorithm = pk_type listed,
                        kr_public_key = li_public_key info, kr_comment = ad_comment added,
                        kr_label = ad_comment added, kr_agent_use = None\<rparr>,
                      lc_signer = signer', lc_private = ad_private added\<rparr>)))"

section \<open>Dropping entries\<close>

definition expiredLocked :: "time \<Rightarrow> 'raw localKey \<Rightarrow> bool" where
  "expiredLocked now k =
     (case li_expires_at (lc_info k) of None \<Rightarrow> False | Some expires \<Rightarrow> \<not> now < expires)"

definition dropLocked :: "nat \<Rightarrow> 'raw localKey list \<Rightarrow> 'raw localKey list" where
  "dropLocked i ks = take i ks @ drop (Suc i) ks"

text \<open>The loop from the last index down to the first.\<close>

fun prune_loop ::
    "time \<Rightarrow> nat \<Rightarrow> 'raw localKey list \<Rightarrow> local_key_info list \<Rightarrow> 'raw localKey list \<times> local_key_info list" where
  "prune_loop now 0 ks dropped = (ks, dropped)"
| "prune_loop now (Suc i) ks dropped =
     (if expiredLocked now (ks ! i)
      then prune_loop now i (dropLocked i ks) (dropped @ [lc_info (ks ! i)])
      else prune_loop now i ks dropped)"

definition pruneLocked :: "time \<Rightarrow> 'raw localKey list \<Rightarrow> 'raw localKey list \<times> local_key_info list" where
  "pruneLocked now ks = prune_loop now (length ks) ks []"

definition indexOfBlobLocked :: "bytes \<Rightarrow> 'raw localKey list \<Rightarrow> nat option" where
  "indexOfBlobLocked blob ks = find (\<lambda>i. li_public_key (lc_info (ks ! i)) = blob) [0..<length ks]"

definition names_key :: "(string \<Rightarrow> string \<Rightarrow> bool) \<Rightarrow> string \<Rightarrow> 'raw localKey \<Rightarrow> bool" where
  "names_key ef ref k \<longleftrightarrow> li_fingerprint (lc_info k) = ref \<or> li_key_fingerprint (lc_info k) = ref \<or>
     (li_label (lc_info k) \<noteq> [] \<and> ef (li_label (lc_info k)) ref)"

definition matchLocked :: "(string \<Rightarrow> string \<Rightarrow> bool) \<Rightarrow> string \<Rightarrow> 'raw localKey list \<Rightarrow> nat list" where
  "matchLocked ef ref ks = filter (\<lambda>i. names_key ef ref (ks ! i)) [0..<length ks]"

section \<open>Events\<close>

definition expired_text :: string where "expired_text = ''the lifetime it was parked with ran out''"
definition parked_reason :: string where "parked_reason = ''parked through the agent''"
definition replaced_reason :: string where
  "replaced_reason = ''parked through the agent again, replacing the earlier copy''"
definition removed_reason :: string where "removed_reason = ''removed through the agent''"
definition forgotten_reason :: string where "forgotten_reason = ''forgotten''"
definition promoted_reason :: string where "promoted_reason = ''promoted into the store''"

definition events ::
    "LocalKeyEventKind \<Rightarrow> client_process option \<Rightarrow> string \<Rightarrow> local_key_info list \<Rightarrow> LocalKeyEvent list" where
  "events kind by reason infos =
     map (\<lambda>i. \<lparr>le_kind = kind, le_key = i, le_by = by, le_reason = reason\<rparr>) infos"

definition emitExpired :: "local_key_info list \<Rightarrow> LocalKeyEvent list" where
  "emitExpired dropped = events LocalKeyExpired None expired_text dropped"

definition settle :: "'raw LocalKeys \<Rightarrow> 'raw localKey list \<Rightarrow> LocalKeyEvent list \<Rightarrow> 'raw LocalKeys" where
  "settle l ks evs = l\<lparr>ls_keys := ks, ls_events := ls_events l @ evs\<rparr>"

section \<open>Operations\<close>

text \<open>\<open>accept\<close> is what the instance answers when asked whether a key may be parked now.\<close>

definition Add ::
    "'raw park_lib \<Rightarrow> time \<Rightarrow> string option \<Rightarrow> 'raw added_key \<Rightarrow> client_process option \<Rightarrow> 'raw LocalKeys
       \<Rightarrow> 'raw LocalKeys \<times> (local_error + unit)" where
  "Add L now accept added by l =
     (case accept of
        Some e \<Rightarrow> (l, Inl (NotAccepted e))
      | None \<Rightarrow>
          (case entry L now added by of
             Inl e \<Rightarrow> (l, Inl e)
           | Inr k \<Rightarrow>
               (case pruneLocked now (ls_keys l) of
                  (ks, expired) \<Rightarrow>
                    (case indexOfBlobLocked (kr_public_key (lc_ref k)) ks of
                       Some i \<Rightarrow>
                         (settle l (dropLocked i ks @ [k])
                            (emitExpired expired @ events LocalKeyAdded by replaced_reason [lc_info k]), Inr ())
                     | None \<Rightarrow>
                         if ls_limit l \<le> length ks
                         then (settle l ks (emitExpired expired), Inl ErrLocalKeysFull)
                         else (settle l (ks @ [k])
                                 (emitExpired expired @ events LocalKeyAdded by parked_reason [lc_info k]), Inr ())))))"

definition Remove ::
    "time \<Rightarrow> bytes \<Rightarrow> client_process option \<Rightarrow> 'raw LocalKeys \<Rightarrow> 'raw LocalKeys \<times> bool" where
  "Remove now blob by l =
     (case pruneLocked now (ls_keys l) of
        (ks, expired) \<Rightarrow>
          (case indexOfBlobLocked blob ks of
             None \<Rightarrow> (settle l ks (emitExpired expired), False)
           | Some i \<Rightarrow>
               (settle l (dropLocked i ks)
                  (emitExpired expired @ events LocalKeyForgotten by removed_reason [lc_info (ks ! i)]), True)))"

definition dropAll ::
    "time \<Rightarrow> client_process option \<Rightarrow> string \<Rightarrow> 'raw LocalKeys \<Rightarrow> 'raw LocalKeys \<times> nat" where
  "dropAll now by reason l =
     (case pruneLocked now (ls_keys l) of
        (ks, expired) \<Rightarrow>
          (settle l [] (emitExpired expired @ events LocalKeyForgotten by reason (rev (map lc_info ks))),
           length ks))"

definition RemoveAll :: "time \<Rightarrow> client_process option \<Rightarrow> 'raw LocalKeys \<Rightarrow> 'raw LocalKeys \<times> nat" where
  "RemoveAll now by l = dropAll now by removed_reason l"

definition Wipe :: "time \<Rightarrow> string \<Rightarrow> 'raw LocalKeys \<Rightarrow> 'raw LocalKeys \<times> nat" where
  "Wipe now reason l = dropAll now None reason l"

text \<open>Dropping the matched indices, the highest first.\<close>

fun drop_indices :: "nat list \<Rightarrow> 'raw localKey list \<Rightarrow> local_key_info list \<Rightarrow> 'raw localKey list \<times> local_key_info list" where
  "drop_indices [] ks dropped = (ks, dropped)"
| "drop_indices (i # is) ks dropped = drop_indices is (dropLocked i ks) (dropped @ [lc_info (ks ! i)])"

definition Forget ::
    "(string \<Rightarrow> string \<Rightarrow> bool) \<Rightarrow> time \<Rightarrow> string \<Rightarrow> 'raw LocalKeys
       \<Rightarrow> 'raw LocalKeys \<times> (local_error + local_key_info list)" where
  "Forget ef now ref l =
     (case pruneLocked now (ls_keys l) of
        (ks, expired) \<Rightarrow>
          (let matched = matchLocked ef ref ks
           in if matched = [] then (settle l ks (emitExpired expired), Inl (ErrNoSuchLocalKey ref))
              else case drop_indices (rev matched) ks [] of
                  (ks', dropped) \<Rightarrow>
                    (settle l ks' (emitExpired expired @ events LocalKeyForgotten None forgotten_reason dropped),
                     Inr dropped)))"

text \<open>
  The index is appended and swapped to the left while it is smaller than its neighbour; \<open>sift\<close> is
  that on the reversed list.
\<close>

fun sift :: "nat list \<Rightarrow> nat \<Rightarrow> nat list" where
  "sift [] i = [i]"
| "sift (j # js) i = (if i < j then j # sift js i else i # j # js)"

definition appendIndex :: "nat list \<Rightarrow> nat \<Rightarrow> nat list" where
  "appendIndex indexes i = (if i \<in> set indexes then indexes else rev (sift (rev indexes) i))"

definition key_print :: "'raw localKey \<Rightarrow> string" where
  "key_print k = li_key_fingerprint (lc_info k)"

definition Take ::
    "(string \<Rightarrow> string \<Rightarrow> bool) \<Rightarrow> time \<Rightarrow> string \<Rightarrow> 'raw LocalKeys
       \<Rightarrow> 'raw LocalKeys \<times> (local_error + 'raw \<times> local_key_info list)" where
  "Take ef now ref l =
     (case pruneLocked now (ls_keys l) of
        (ks, expired) \<Rightarrow>
          (let matched = matchLocked ef ref ks
           in if matched = [] then (settle l ks (emitExpired expired), Inl (ErrNoSuchLocalKey ref))
              else let keyFingerprint = key_print (ks ! hd matched)
                in if list_ex (\<lambda>i. key_print (ks ! i) \<noteq> keyFingerprint) (tl matched)
                   then (settle l ks (emitExpired expired), Inl (ErrAmbiguousLocalKey ref))
                   else let all = foldl (\<lambda>m i. if key_print (ks ! i) = keyFingerprint then appendIndex m i else m)
                              matched [0..<length ks]
                     in case drop_indices (rev all) ks [] of
                         (ks', taken) \<Rightarrow>
                           (settle l ks' (emitExpired expired @ events LocalKeyPromoted None promoted_reason taken),
                            Inr (lc_private (ks ! hd all), taken))))"

definition reading :: "time \<Rightarrow> ('raw localKey list \<Rightarrow> 'a) \<Rightarrow> 'raw LocalKeys \<Rightarrow> 'raw LocalKeys \<times> 'a" where
  "reading now f l = (case pruneLocked now (ls_keys l) of (ks, expired) \<Rightarrow> (settle l ks (emitExpired expired), f ks))"

definition List_infos :: "time \<Rightarrow> 'raw LocalKeys \<Rightarrow> 'raw LocalKeys \<times> local_key_info list" where
  "List_infos now l = reading now (map lc_info) l"

definition Len :: "time \<Rightarrow> 'raw LocalKeys \<Rightarrow> 'raw LocalKeys \<times> nat" where
  "Len now l = reading now length l"

definition Refs :: "time \<Rightarrow> 'raw LocalKeys \<Rightarrow> 'raw LocalKeys \<times> key_ref list" where
  "Refs now l = reading now (map lc_ref) l"

definition Has :: "(string \<Rightarrow> string \<Rightarrow> bool) \<Rightarrow> time \<Rightarrow> string \<Rightarrow> 'raw LocalKeys \<Rightarrow> 'raw LocalKeys \<times> bool" where
  "Has ef now ref l = reading now (\<lambda>ks. matchLocked ef ref ks \<noteq> []) l"

definition key_note :: "local_key_info \<Rightarrow> local_key" where
  "key_note i = \<lparr>lk_added_by = li_added_by i, lk_added_at = li_added_at i, lk_expires_at = li_expires_at i,
     lk_confirm = li_confirm i\<rparr>"

definition lookup ::
    "time \<Rightarrow> bytes \<Rightarrow> 'raw LocalKeys \<Rightarrow> 'raw LocalKeys \<times> (ssh_signer \<times> key_ref \<times> local_key) option" where
  "lookup now blob l =
     reading now (\<lambda>ks. map_option (\<lambda>i. (lc_signer (ks ! i), lc_ref (ks ! i), key_note (lc_info (ks ! i))))
       (indexOfBlobLocked blob ks)) l"

definition expire :: "time \<Rightarrow> string \<Rightarrow> 'raw LocalKeys \<Rightarrow> 'raw LocalKeys" where
  "expire now fingerprint l =
     (let ks = ls_keys l
      in case find (\<lambda>i. li_fingerprint (lc_info (ks ! i)) = fingerprint \<and> expiredLocked now (ks ! i)) [0..<length ks] of
          None \<Rightarrow> l
        | Some i \<Rightarrow> settle l (dropLocked i ks) (emitExpired [lc_info (ks ! i)]))"

section \<open>Words\<close>

definition LocalKeyEventKind_String :: "LocalKeyEventKind \<Rightarrow> string" where
  "LocalKeyEventKind_String k =
     (case k of LocalKeyAdded \<Rightarrow> ''added'' | LocalKeyExpired \<Rightarrow> ''expired'' | LocalKeyForgotten \<Rightarrow> ''forgotten''
      | LocalKeyPromoted \<Rightarrow> ''promoted'')"

text \<open>\<open>rfc1123\<close> writes a moment in the machine's own zone.\<close>

definition LocalKeyDescription :: "(time \<Rightarrow> string) \<Rightarrow> local_key_info \<Rightarrow> string" where
  "LocalKeyDescription rfc1123 info =
     (let label = (if li_label info = [] then li_fingerprint info else li_label info)
          @ (if li_certificate info then '' (certificate)'' else []);
          by = (case li_added_by info of
              None \<Rightarrow> []
            | Some p \<Rightarrow> if cp_executable p = [] then [] else [''parked by '' @ cp_executable p]);
          expires = (case li_expires_at info of None \<Rightarrow> [] | Some t \<Rightarrow> [''expires '' @ rfc1123 t]);
          confirm = (if li_confirm info then [''confirm each use''] else [])
      in join '', '' ([label] @ by @ expires @ confirm))"

section \<open>What the index loops do\<close>

definition live :: "time \<Rightarrow> 'raw localKey list \<Rightarrow> 'raw localKey list" where
  "live now ks = filter (\<lambda>k. \<not> expiredLocked now k) ks"

lemma prune_loop_eq:
  "n \<le> length ks \<Longrightarrow> prune_loop now n ks dropped =
     (live now (take n ks) @ drop n ks, dropped @ rev (map lc_info (filter (expiredLocked now) (take n ks))))"
proof (induction n arbitrary: ks dropped)
  case (Suc i)
  then have i: "i < length ks" "take (Suc i) ks = take i ks @ [ks ! i]" "drop i ks = ks ! i # drop (Suc i) ks"
    by (simp_all add: take_Suc_conv_app_nth Cons_nth_drop_Suc)
  show ?case
    using Suc i by (simp add: live_def dropLocked_def min_def)
qed (simp add: live_def)

lemma pruneLocked_eq:
  "pruneLocked now ks = (live now ks, rev (map lc_info (filter (expiredLocked now) ks)))"
  by (simp add: pruneLocked_def prune_loop_eq)

lemma live_live [simp]: "live now (live now ks) = live now ks"
  by (simp add: live_def)

definition indices :: "('a \<Rightarrow> bool) \<Rightarrow> 'a list \<Rightarrow> nat list" where
  "indices P xs = filter (\<lambda>i. P (xs ! i)) [0..<length xs]"

lemma indices_snoc: "indices P (xs @ [x]) = indices P xs @ (if P x then [length xs] else [])"
  by (auto simp: indices_def nth_append intro!: filter_cong)

lemma indices_sorted [simp]: "sorted (indices P xs)" "distinct (indices P xs)"
  "set (indices P xs) = {i. i < length xs \<and> P (xs ! i)}"
  by (auto simp: indices_def sorted_filter [of id, simplified])

lemma indices_filter: "filter P xs = map ((!) xs) (indices P xs)"
proof (induction xs rule: rev_induct)
  case (snoc x xs)
  have "map ((!) (xs @ [x])) (indices P xs) = map ((!) xs) (indices P xs)"
    by (rule map_cong) (auto simp: nth_append)
  then show ?case using snoc by (simp add: indices_snoc)
qed (simp add: indices_def)

lemma drop_indices_append:
  "\<forall>i\<in>set is. i < length ks \<Longrightarrow> distinct is \<Longrightarrow> sorted_wrt (>) is \<Longrightarrow>
     drop_indices is (ks @ ys) dropped = (fst (drop_indices is ks dropped) @ ys, snd (drop_indices is ks dropped))"
proof (induction "is" arbitrary: ks dropped)
  case (Cons i js)
  then have i: "i < length ks" by simp
  have d: "dropLocked i (ks @ ys) = dropLocked i ks @ ys" using i by (simp add: dropLocked_def)
  have "\<forall>j\<in>set js. j < length (dropLocked i ks)" using Cons.prems i by (fastforce simp: dropLocked_def)
  from Cons.IH [OF this] Cons.prems show ?case by (simp add: d i nth_append)
qed simp

lemma drop_indices_eq:
  "drop_indices (rev (indices P ks)) ks dropped =
     (filter (\<lambda>k. \<not> P k) ks, dropped @ rev (map lc_info (filter P ks)))"
proof (induction ks arbitrary: dropped rule: rev_induct)
  case (snoc k ks)
  have s: "sorted_wrt (>) (rev (indices P ks))" by (simp add: sorted_wrt_rev strict_sorted_iff)
  have b: "\<forall>i\<in>set (rev (indices P ks)). i < length ks" by simp
  note app = drop_indices_append [OF b _ s, unfolded snoc]
  show ?case
  proof (cases "P k")
    case True
    then show ?thesis by (simp add: indices_snoc dropLocked_def snoc)
  next
    case False
    then show ?thesis using app [of "[k]" dropped] by (simp add: indices_snoc)
  qed
qed (simp add: indices_def)

lemma matchLocked_indices: "matchLocked ef ref ks = indices (names_key ef ref) ks"
  by (simp add: matchLocked_def indices_def)

lemma sift_sorted: "sorted_wrt (\<ge>) js \<Longrightarrow> sorted_wrt (\<ge>) (sift js i) \<and> set (sift js i) = insert i (set js)"
  by (induction js) auto

lemma sift_distinct: "i \<notin> set js \<Longrightarrow> distinct js \<Longrightarrow> distinct (sift js i) \<and> set (sift js i) = insert i (set js)"
  by (induction js) auto

definition index_set :: "nat list \<Rightarrow> bool" where
  "index_set is \<longleftrightarrow> sorted is \<and> distinct is"

lemma appendIndex_set: "index_set is \<Longrightarrow> index_set (appendIndex is i) \<and> set (appendIndex is i) = insert i (set is)"
  using sift_sorted [of "rev is" i] sift_distinct [of i "rev is"]
  by (auto simp: appendIndex_def index_set_def sorted_wrt_rev insert_absorb)

lemma fold_appendIndex:
  "index_set m \<Longrightarrow>
     index_set (foldl (\<lambda>m i. if P i then appendIndex m i else m) m is) \<and>
     set (foldl (\<lambda>m i. if P i then appendIndex m i else m) m is) = set m \<union> {i \<in> set is. P i}"
proof (induction "is" arbitrary: m)
  case (Cons i js)
  show ?case using Cons.IH [of m] Cons.IH [of "appendIndex m i"] appendIndex_set [OF Cons.prems] Cons.prems
    by auto
qed simp

lemma index_set_unique: "index_set a \<Longrightarrow> index_set b \<Longrightarrow> set a = set b \<Longrightarrow> a = b"
  by (auto simp: index_set_def intro: sorted_distinct_set_unique)

lemma indices_index_set [simp]: "index_set (indices P xs)"
  by (simp add: index_set_def)

text \<open>The index loop of \<^verbatim>\<open>Take\<close> ends with exactly the entries over that key.\<close>

lemma Take_indices:
  assumes "\<forall>i\<in>set m. i < length ks \<and> key_print (ks ! i) = fp" "index_set m"
  shows "foldl (\<lambda>m i. if key_print (ks ! i) = fp then appendIndex m i else m) m [0..<length ks] =
     indices (\<lambda>k. key_print k = fp) ks"
  using fold_appendIndex [OF assms(2), of "\<lambda>i. key_print (ks ! i) = fp" "[0..<length ks]"] assms(1)
  by (intro index_set_unique) auto

section \<open>Histories\<close>

datatype 'raw local_op =
    LAdd time "string option" "'raw added_key" "client_process option"
  | LRemove time bytes "client_process option"
  | LDropAll time "client_process option" string
  | LForget time string
  | LTake time string
  | LRead time
  | LExpire time string

definition local_step ::
    "'raw park_lib \<Rightarrow> (string \<Rightarrow> string \<Rightarrow> bool) \<Rightarrow> 'raw local_op \<Rightarrow> 'raw LocalKeys \<Rightarrow> 'raw LocalKeys" where
  "local_step L ef op l =
     (case op of
        LAdd now accept added by \<Rightarrow> fst (Add L now accept added by l)
      | LRemove now blob by \<Rightarrow> fst (Remove now blob by l)
      | LDropAll now by reason \<Rightarrow> fst (dropAll now by reason l)
      | LForget now ref \<Rightarrow> fst (Forget ef now ref l)
      | LTake now ref \<Rightarrow> fst (Take ef now ref l)
      | LRead now \<Rightarrow> fst (reading now id l)
      | LExpire now fingerprint \<Rightarrow> expire now fingerprint l)"

definition local_run ::
    "'raw park_lib \<Rightarrow> (string \<Rightarrow> string \<Rightarrow> bool) \<Rightarrow> 'raw local_op list \<Rightarrow> 'raw LocalKeys \<Rightarrow> 'raw LocalKeys" where
  "local_run L ef ops l = foldl (\<lambda>l op. local_step L ef op l) l ops"

lemma local_run_induct:
  assumes "P l" "\<And>op l. P l \<Longrightarrow> P (local_step L ef op l)"
  shows "P (local_run L ef ops l)"
  using assms by (induction ops arbitrary: l) (simp_all add: local_run_def)

definition blob_of :: "'raw localKey \<Rightarrow> bytes" where
  "blob_of k = li_public_key (lc_info k)"

definition parked_ok :: "'raw LocalKeys \<Rightarrow> bool" where
  "parked_ok l \<longleftrightarrow> length (ls_keys l) \<le> ls_limit l \<and> distinct (map blob_of (ls_keys l)) \<and>
     (\<forall>k\<in>set (ls_keys l). kr_public_key (lc_ref k) = blob_of k)"

lemma settle_sel [simp]: "ls_keys (settle l ks evs) = ks" "ls_limit (settle l ks evs) = ls_limit l"
  "ls_events (settle l ks evs) = ls_events l @ evs"
  by (simp_all add: settle_def)

lemma find_index:
  "find P [0..<n] = Some i \<Longrightarrow> i < n \<and> P i"
  "find P [0..<n] = None \<Longrightarrow> \<forall>i<n. \<not> P i"
  by (auto simp: find_Some_iff find_None_iff)

lemma indexOfBlob_Some: "indexOfBlobLocked blob ks = Some i \<Longrightarrow> i < length ks \<and> blob_of (ks ! i) = blob"
  unfolding indexOfBlobLocked_def blob_of_def by (rule find_index)

lemma indexOfBlob_None: "indexOfBlobLocked blob ks = None \<Longrightarrow> blob \<notin> blob_of ` set ks"
  unfolding indexOfBlobLocked_def blob_of_def by (drule find_index(2)) (auto simp: in_set_conv_nth)

lemma split_at: "i < length ks \<Longrightarrow> ks = take i ks @ ks ! i # drop (Suc i) ks"
  by (simp add: id_take_nth_drop)

lemma mset_dropLocked: "i < length ks \<Longrightarrow> mset ks = add_mset (ks ! i) (mset (dropLocked i ks))"
  using split_at [of i ks] by (metis dropLocked_def mset.simps(2) mset_append union_mset_add_mset_right)

text \<open>Keeping part of the set keeps the invariant.\<close>

lemma parked_ok_sub:
  assumes "parked_ok l" "mset ks \<subseteq># mset (ls_keys l)"
  shows "parked_ok (settle l ks evs)"
proof -
  obtain ys where "mset (ls_keys l) = mset (ks @ ys)"
    using assms(2) by (metis ex_mset mset_append mset_subset_eq_exists_conv)
  then have "mset (map blob_of (ls_keys l)) = mset (map blob_of (ks @ ys))" by simp
  then have "distinct (map blob_of ks)"
    using assms(1) by (metis distinct_append map_append mset_eq_imp_distinct_iff parked_ok_def)
  moreover have "length ks \<le> length (ls_keys l)" using size_mset_mono [OF assms(2)] by simp
  moreover have "set ks \<subseteq> set (ls_keys l)" using set_mset_mono [OF assms(2)] by simp
  ultimately show ?thesis using assms(1) by (auto simp: parked_ok_def)
qed

lemma parked_ok_add:
  assumes "parked_ok (settle l ks [])" "length ks < ls_limit l" "blob_of k \<notin> blob_of ` set ks"
    "kr_public_key (lc_ref k) = blob_of k"
  shows "parked_ok (settle l (ks @ [k]) evs)"
  using assms by (auto simp: parked_ok_def)

lemma live_sub [simp]: "mset (live now ks) \<subseteq># mset ks"
  by (simp add: live_def)

lemma dropLocked_sub: "i < length ks \<Longrightarrow> mset (dropLocked i ks) \<subseteq># mset ks"
  using mset_dropLocked [of i ks] by simp

lemma filter_sub: "mset (filter P (live now ks)) \<subseteq># mset ks"
  by (metis filter_filter live_def mset_filter multiset_filter_subset)

lemma entry_ref: "entry L now added by = Inr k \<Longrightarrow> kr_public_key (lc_ref k) = blob_of k"
  by (auto simp: entry_def blob_of_def Let_def split: sum.splits option.splits)

lemma Add_ok:
  assumes "parked_ok l"
  shows "parked_ok (fst (Add L now accept added by l))"
proof (cases "accept = None \<and> (\<exists>k. entry L now added by = Inr k)")
  case True
  then obtain k where k: "accept = None" "entry L now added by = Inr k" by auto
  let ?ks = "live now (ls_keys l)"
  have ref: "kr_public_key (lc_ref k) = blob_of k" using entry_ref [OF k(2)] .
  have ok: "parked_ok (settle l ?ks evs)" for evs using parked_ok_sub [OF assms live_sub] .
  show ?thesis
  proof (cases "indexOfBlobLocked (blob_of k) ?ks")
    case None
    show ?thesis
      using k None ref ok parked_ok_add [OF ok _ indexOfBlob_None [OF None] ref]
      by (auto simp: Add_def pruneLocked_eq)
  next
    case (Some i)
    have i: "i < length ?ks" "blob_of (?ks ! i) = blob_of k" using indexOfBlob_Some [OF Some] by auto
    have d: "distinct (map blob_of ?ks)" "length ?ks \<le> ls_limit l" using ok [of "[]"] by (auto simp: parked_ok_def)
    have sub: "parked_ok (settle l (dropLocked i ?ks) [])"
      using parked_ok_sub [OF assms subset_mset.trans [OF dropLocked_sub [OF i(1)] live_sub]] .
    have m: "map blob_of ?ks = map blob_of (take i ?ks) @ blob_of k # map blob_of (drop (Suc i) ?ks)"
      using arg_cong [OF split_at [OF i(1)], of "map blob_of"] i(2) by simp
    have "blob_of k \<notin> blob_of ` set (dropLocked i ?ks)"
      using d(1) unfolding m by (auto simp: dropLocked_def)
    moreover have "length (dropLocked i ?ks) < ls_limit l" using i(1) d(2) by (simp add: dropLocked_def)
    ultimately show ?thesis
      using k Some ref parked_ok_add [OF sub, of k] by (auto simp: Add_def pruneLocked_eq)
  qed
qed (use assms in \<open>auto simp: Add_def split: option.splits sum.splits\<close>)

lemma Take_eq:
  "Take ef now ref l =
     (let ks = live now (ls_keys l);
          evs = emitExpired (rev (map lc_info (filter (expiredLocked now) (ls_keys l))))
      in case filter (names_key ef ref) ks of
          [] \<Rightarrow> (settle l ks evs, Inl (ErrNoSuchLocalKey ref))
        | k # named \<Rightarrow>
            if list_ex (\<lambda>k'. key_print k' \<noteq> key_print k) named
            then (settle l ks evs, Inl (ErrAmbiguousLocalKey ref))
            else let taken = filter (\<lambda>k'. key_print k' = key_print k) ks
              in (settle l (filter (\<lambda>k'. key_print k' \<noteq> key_print k) ks)
                    (evs @ events LocalKeyPromoted None promoted_reason (rev (map lc_info taken))),
                  Inr (lc_private (hd taken), rev (map lc_info taken))))"
proof -
  let ?ks = "live now (ls_keys l)" and ?P = "names_key ef ref"
  show ?thesis
  proof (cases "indices ?P ?ks")
    case Nil
    then have "filter ?P ?ks = []" using indices_filter [of ?P ?ks] by simp
    then show ?thesis by (simp add: Take_def pruneLocked_eq matchLocked_indices Nil)
  next
    case (Cons i js)
    then have f: "filter ?P ?ks = ?ks ! i # map ((!) ?ks) js" using indices_filter [of ?P ?ks] by simp
    have i: "i \<in> set (indices ?P ?ks)" "\<forall>j\<in>set (i # js). j < length ?ks" "index_set (i # js)"
      using indices_sorted(3) [of ?P ?ks] indices_index_set [of ?P ?ks] unfolding Cons by auto
    let ?K = "\<lambda>k'. key_print k' = key_print (?ks ! i)"
    show ?thesis
    proof (cases "list_ex (\<lambda>j. \<not> ?K (?ks ! j)) js")
      case True
      then show ?thesis by (simp add: Take_def pruneLocked_eq matchLocked_indices Cons f list_ex_iff)
    next
      case False
      then have "\<forall>j\<in>set (i # js). j < length ?ks \<and> ?K (?ks ! j)" using i(2) by (auto simp: list_ex_iff)
      note all = Take_indices [OF this i(3)]
      have "i \<in> set (indices ?K ?ks)" using i(2) by simp
      then obtain h hs where h: "indices ?K ?ks = h # hs" by (cases "indices ?K ?ks") auto
      have hd: "hd (filter ?K ?ks) = ?ks ! h" using indices_filter [of ?K ?ks] unfolding h by simp
      show ?thesis
        using False unfolding Take_def pruneLocked_eq matchLocked_indices Let_def prod.case Cons list.sel f all
        by (simp add: list_ex_iff drop_indices_eq hd h [symmetric] del: hd_conv_nth) (simp add: h)
    qed
  qed
qed

text \<open>The other operations only drop entries.\<close>

lemma Forget_keys:
  "ls_keys (fst (Forget ef now ref l)) = filter (\<lambda>k. \<not> names_key ef ref k) (live now (ls_keys l))"
proof (cases "indices (names_key ef ref) (live now (ls_keys l)) = []")
  case True
  then have "filter (names_key ef ref) (live now (ls_keys l)) = []" using indices_filter by (metis list.simps(8))
  then show ?thesis using True
    by (simp add: Forget_def pruneLocked_eq matchLocked_indices filter_id_conv filter_empty_conv)
qed (simp add: Forget_def pruneLocked_eq matchLocked_indices drop_indices_eq Let_def)

lemma expire_index:
  assumes "expire now fp l \<noteq> l"
  obtains i where "i < length (ls_keys l)" "expiredLocked now (ls_keys l ! i)"
    "expire now fp l = settle l (dropLocked i (ls_keys l)) (emitExpired [lc_info (ls_keys l ! i)])"
proof (cases "find (\<lambda>i. li_fingerprint (lc_info (ls_keys l ! i)) = fp \<and> expiredLocked now (ls_keys l ! i))
    [0..<length (ls_keys l)]")
  case None
  then show ?thesis using assms by (simp add: expire_def)
next
  case (Some i)
  then show ?thesis using that [of i] find_index(1) [OF Some] by (simp add: expire_def Let_def)
qed

lemma drops_keep:
  assumes "parked_ok l"
  shows "parked_ok (fst (Remove now blob by l))" "parked_ok (fst (dropAll now by reason l))"
    "parked_ok (fst (Forget ef now ref l))" "parked_ok (fst (Take ef now ref l))"
    "parked_ok (fst (reading now f l))" "parked_ok (expire now fp l)"
proof -
  note sub = parked_ok_sub [OF assms]
  show "parked_ok (fst (Remove now blob by l))"
    by (auto simp: Remove_def pruneLocked_eq split: option.splits dest!: indexOfBlob_Some
        intro!: sub subset_mset.trans [OF dropLocked_sub live_sub])
  show "parked_ok (fst (dropAll now by reason l))" by (simp add: dropAll_def pruneLocked_eq sub)
  have "parked_ok l' \<longleftrightarrow> parked_ok (settle l (ls_keys l') [])" if "ls_limit l' = ls_limit l" for l' :: "'a LocalKeys"
    using that by (simp add: parked_ok_def)
  moreover have "ls_limit (fst (Forget ef now ref l)) = ls_limit l"
    by (simp add: Forget_def Let_def split: prod.splits)
  ultimately show "parked_ok (fst (Forget ef now ref l))" using sub [OF filter_sub] Forget_keys by metis
  show "parked_ok (fst (Take ef now ref l))"
    by (auto simp: Take_eq Let_def intro!: sub filter_sub split: list.splits)
  show "parked_ok (fst (reading now f l))" by (simp add: reading_def pruneLocked_eq sub)
  show "parked_ok (expire now fp l)"
    by (cases "expire now fp l = l") (auto simp: assms elim!: expire_index intro!: sub dropLocked_sub)
qed

lemma local_step_ok: "parked_ok l \<Longrightarrow> parked_ok (local_step L ef op l)"
  by (cases op) (simp_all add: local_step_def Add_ok drops_keep)

lemma local_step_limit: "ls_limit (local_step L ef op l) = ls_limit l"
  by (cases op) (auto simp: local_step_def Add_def Remove_def dropAll_def Forget_def Take_def reading_def
      expire_def Let_def split: option.splits sum.splits prod.splits)

section \<open>The books\<close>

definition arrived :: "LocalKeyEvent list \<Rightarrow> local_key_info list" where
  "arrived evs = map le_key (filter (\<lambda>e. le_kind e = LocalKeyAdded) evs)"

definition departed :: "LocalKeyEvent list \<Rightarrow> local_key_info list" where
  "departed evs = map le_key (filter (\<lambda>e. le_kind e \<noteq> LocalKeyAdded) evs)"

definition replacements :: "LocalKeyEvent list \<Rightarrow> nat" where
  "replacements evs = length (filter (\<lambda>e. le_kind e = LocalKeyAdded \<and> le_reason e = replaced_reason) evs)"

definition books :: "'raw LocalKeys \<Rightarrow> bool" where
  "books l \<longleftrightarrow> (\<exists>R. mset (arrived (ls_events l)) = mset (departed (ls_events l)) + mset (map lc_info (ls_keys l)) + R
     \<and> size R = replacements (ls_events l))"

lemma event_counts [simp]:
  "arrived (a @ b) = arrived a @ arrived b" "departed (a @ b) = departed a @ departed b"
  "replacements (a @ b) = replacements a + replacements b"
  "arrived (events LocalKeyAdded by reason is) = is" "departed (events LocalKeyAdded by reason is) = []"
  "kind \<noteq> LocalKeyAdded \<Longrightarrow> arrived (events kind by reason is) = []"
  "kind \<noteq> LocalKeyAdded \<Longrightarrow> departed (events kind by reason is) = is"
  "kind \<noteq> LocalKeyAdded \<Longrightarrow> replacements (events kind by reason is) = 0"
  "arrived (emitExpired is) = []" "departed (emitExpired is) = is" "replacements (emitExpired is) = 0"
  by (simp_all add: arrived_def departed_def replacements_def events_def emitExpired_def filter_map comp_def)

lemma replacement_counts [simp]:
  "replacements (events LocalKeyAdded by replaced_reason [i]) = 1"
  "replacements (events LocalKeyAdded by parked_reason [i]) = 0"
  by (simp_all add: replacements_def events_def replaced_reason_def parked_reason_def)

lemma books_settle:
  assumes "books l" "mset (map lc_info (ls_keys l)) + mset (arrived evs) =
      mset (departed evs) + mset (map lc_info ks) + R" "size R = replacements evs"
  shows "books (settle l ks evs)"
proof -
  obtain R0 where R0: "mset (arrived (ls_events l)) =
      mset (departed (ls_events l)) + mset (map lc_info (ls_keys l)) + R0" "size R0 = replacements (ls_events l)"
    using assms(1) by (auto simp: books_def)
  have "mset (arrived (ls_events l @ evs)) =
      mset (departed (ls_events l @ evs)) + mset (map lc_info ks) + (R0 + R)"
    using R0(1) assms(2) by (simp add: ac_simps)
  moreover have "size (R0 + R) = replacements (ls_events l @ evs)" using R0(2) assms(3) by simp
  ultimately show ?thesis unfolding books_def settle_sel by blast
qed

lemma live_expired_mset:
  "mset (map lc_info ks) = mset (map lc_info (live now ks)) + mset (map lc_info (filter (expiredLocked now) ks))"
  by (induction ks) (auto simp: live_def)

lemma filter_parts:
  "image_mset f (filter_mset P M) + image_mset f {#x \<in># M. \<not> P x#} = image_mset f M"
  by (metis image_mset_union multiset_partition)

lemma books_prune:
  "books l \<Longrightarrow> books (settle l (live now (ls_keys l))
     (emitExpired (rev (map lc_info (filter (expiredLocked now) (ls_keys l))))))"
  by (rule books_settle [where R = "{#}"]) (simp_all add: live_expired_mset [of "ls_keys l" now, simplified])

text \<open>Every operation but the timer is a prune and then one change to what is left.\<close>

lemma settle_settle [simp]: "settle (settle l ks evs) ks' evs' = settle l ks' (evs @ evs')"
  by (simp add: settle_def)

lemma books_after_prune:
  assumes "books l" "mset (map lc_info (live now (ls_keys l))) + mset (arrived evs) =
      mset (departed evs) + mset (map lc_info ks) + R" "size R = replacements evs"
  shows "books (settle l ks (emitExpired (rev (map lc_info (filter (expiredLocked now) (ls_keys l)))) @ evs))"
  using books_settle [OF books_prune [OF assms(1), of now], of evs ks R] assms(2,3) by simp

lemma books_park:
  assumes "books l"
  shows "books (settle l (live now (ls_keys l) @ [k])
     (emitExpired (rev (map lc_info (filter (expiredLocked now) (ls_keys l)))) @ events LocalKeyAdded p parked_reason [lc_info k]))"
  by (rule books_after_prune [OF assms, where R = "{#}"]) simp_all

lemma books_replace:
  assumes "books l" "i < length (live now (ls_keys l))"
  shows "books (settle l (dropLocked i (live now (ls_keys l)) @ [k])
     (emitExpired (rev (map lc_info (filter (expiredLocked now) (ls_keys l)))) @ events LocalKeyAdded p replaced_reason [lc_info k]))"
  by (rule books_after_prune [OF assms(1), where R = "{# lc_info (live now (ls_keys l) ! i) #}"])
     (simp_all add: mset_dropLocked [OF assms(2)])

lemma local_step_books:
  assumes "books l"
  shows "books (local_step L ef op l)"
proof (cases op)
  case (LAdd now accept added p)
  have "books (fst (Add L now accept added p l))"
    by (auto simp: Add_def pruneLocked_eq assms books_prune books_park books_replace
        split: option.splits sum.splits dest!: indexOfBlob_Some)
  then show ?thesis by (simp add: LAdd local_step_def)
next
  case (LRemove now blob p)
  note after = books_after_prune [OF assms, of now] and pr = books_prune [OF assms, of now]
  have "books (fst (Remove now blob p l))"
    by (auto simp: Remove_def pruneLocked_eq pr mset_dropLocked split: option.splits
        dest!: indexOfBlob_Some intro!: after [where R = "{#}"])
  then show ?thesis by (simp add: LRemove local_step_def)
next
  case (LDropAll now p reason)
  then show ?thesis
    using books_after_prune [OF assms, of now "events LocalKeyForgotten p reason (rev (map lc_info (live now (ls_keys l))))" "[]" "{#}"]
    by (simp add: local_step_def dropAll_def pruneLocked_eq)
next
  case (LForget now ref)
  note after = books_after_prune [OF assms, of now] and pr = books_prune [OF assms, of now]
  have "books (fst (Forget ef now ref l))"
    by (auto simp: Forget_def pruneLocked_eq matchLocked_indices drop_indices_eq Let_def pr filter_parts
        intro!: after [where R = "{#}"])
  then show ?thesis by (simp add: LForget local_step_def)
next
  case (LTake now ref)
  note after = books_after_prune [OF assms, of now] and pr = books_prune [OF assms, of now]
  have "books (fst (Take ef now ref l))"
    by (auto simp: Take_eq Let_def pr filter_parts split: list.splits intro!: after [where R = "{#}"])
  then show ?thesis by (simp add: LTake local_step_def)
next
  case (LRead now)
  then show ?thesis using books_prune [OF assms] by (simp add: local_step_def reading_def pruneLocked_eq)
next
  case (LExpire now fp)
  have "books (expire now fp l)"
    by (cases "expire now fp l = l")
       (auto simp: assms mset_dropLocked elim!: expire_index intro!: books_settle [OF assms, where R = "{#}"])
  then show ?thesis by (simp add: LExpire local_step_def)
qed

section \<open>Properties\<close>

text \<open>
  C39: Whatever programs, the timers and the management surface do, the parked set stays within its limit,
  lists no public key twice, and the reference ssh is handed for an entry is over the entry's own blob.
\<close>

theorem parked_set_invariant:
  "length (ls_keys (local_run L ef ops (NewLocalKeys limit))) \<le> (if limit \<le> 0 then DefaultLocalKeyLimit else nat limit)
   \<and> distinct (map blob_of (ls_keys (local_run L ef ops (NewLocalKeys limit))))
   \<and> list_all (\<lambda>k. kr_public_key (lc_ref k) = blob_of k) (ls_keys (local_run L ef ops (NewLocalKeys limit)))"
proof -
  let ?l = "local_run L ef ops (NewLocalKeys limit)"
  have "parked_ok ?l \<and> ls_limit ?l = ls_limit (NewLocalKeys limit :: 'a LocalKeys)"
    by (rule local_run_induct) (auto simp: local_step_ok local_step_limit, simp add: parked_ok_def NewLocalKeys_def)
  then show ?thesis by (simp add: parked_ok_def NewLocalKeys_def list_all_iff split: if_splits)
qed

text \<open>
  The event log keeps the books: every key that was ever reported as parked is parked still, or was
  reported leaving exactly once (expired, forgotten or promoted), or was replaced by a fresh copy, and
  there are as many of the last as there are additions reported as replacements.
\<close>

theorem parked_set_books:
  "\<exists>R. mset (arrived (ls_events (local_run L ef ops (NewLocalKeys limit)))) =
       mset (departed (ls_events (local_run L ef ops (NewLocalKeys limit))))
         + mset (map lc_info (ls_keys (local_run L ef ops (NewLocalKeys limit)))) + R
     \<and> size R = replacements (ls_events (local_run L ef ops (NewLocalKeys limit)))"
proof -
  have "books (local_run L ef ops (NewLocalKeys limit))"
    by (rule local_run_induct, simp add: books_def NewLocalKeys_def arrived_def departed_def replacements_def)
       (rule local_step_books)
  then show ?thesis by (simp only: books_def)
qed

text \<open>
  Promotion takes every parked entry over the named key and nothing else: what stays is over other keys,
  what is handed back is over this one, and at least one entry the name matches is among it.
\<close>

theorem Take_whole_key:
  assumes "Take ef now ref l = (l', Inr (private, taken))"
  shows "\<exists>k\<in>set (live now (ls_keys l)). names_key ef ref k \<and>
     ls_keys l' = filter (\<lambda>k'. key_print k' \<noteq> key_print k) (live now (ls_keys l)) \<and>
     rev taken = map lc_info (filter (\<lambda>k'. key_print k' = key_print k) (live now (ls_keys l))) \<and>
     (\<forall>k'\<in>set (live now (ls_keys l)). names_key ef ref k' \<longrightarrow> key_print k' = key_print k) \<and>
     (\<exists>k'\<in>set (live now (ls_keys l)). key_print k' = key_print k \<and> private = lc_private k')"
proof -
  let ?ks = "live now (ls_keys l)"
  obtain k named where n: "filter (names_key ef ref) ?ks = k # named"
    using assms by (cases "filter (names_key ef ref) ?ks") (auto simp: Take_eq)
  let ?K = "\<lambda>k'. key_print k' = key_print k"
  have same: "\<not> list_ex (\<lambda>k'. \<not> ?K k') named" using assms by (auto simp: Take_eq n split: if_splits)
  have k: "k \<in> set ?ks" "names_key ef ref k" using arg_cong [OF n, of set] by auto
  have l': "l' = settle l (filter (\<lambda>k'. \<not> ?K k') ?ks) (emitExpired (rev (map lc_info (filter (expiredLocked now) (ls_keys l))))
        @ events LocalKeyPromoted None promoted_reason (rev (map lc_info (filter ?K ?ks))))"
    "private = lc_private (hd (filter ?K ?ks))" "taken = rev (map lc_info (filter ?K ?ks))"
    using assms same by (auto simp: Take_eq n Let_def)
  have "k' \<in> set (k # named)" if "k' \<in> set ?ks" "names_key ef ref k'" for k' using that unfolding n [symmetric] by simp
  then have all: "\<forall>k'\<in>set ?ks. names_key ef ref k' \<longrightarrow> ?K k'" using same by (auto simp: list_ex_iff)
  have "k \<in> set (filter ?K ?ks)" using k by simp
  then have "hd (filter ?K ?ks) \<in> set (filter ?K ?ks)" by (metis empty_iff empty_set hd_in_set)
  then have "hd (filter ?K ?ks) \<in> set ?ks \<and> ?K (hd (filter ?K ?ks))" by simp
  then have "\<exists>k'\<in>set ?ks. ?K k' \<and> private = lc_private k'" unfolding l'(2) by blast
  moreover have "ls_keys l' = filter (\<lambda>k'. \<not> ?K k') ?ks" "rev taken = map lc_info (filter ?K ?ks)"
    unfolding l'(1,3) by simp_all
  ultimately show ?thesis using k all by blast
qed

definition demo_key :: "string \<Rightarrow> string \<Rightarrow> bytes \<Rightarrow> unit localKey" where
  "demo_key label fp blob = \<lparr>lc_info = \<lparr>li_label = label, li_fingerprint = fp, li_algorithm = [], li_key_fingerprint = ''K'',
       li_public_key = blob, li_certificate = False, li_added_by = None, li_added_at = None, li_expires_at = None,
       li_confirm = False\<rparr>,
     lc_ref = \<lparr>kr_fingerprint = fp, kr_algorithm = [], kr_public_key = blob, kr_comment = label, kr_label = label,
       kr_agent_use = None\<rparr>, lc_signer = toy_signer, lc_private = ()\<rparr>"

definition demo_parked :: "unit LocalKeys" where
  "demo_parked = \<lparr>ls_limit = 4, ls_keys = [demo_key ''tsh'' ''K'' ''a'', demo_key ''tsh'' ''C'' ''b''], ls_events = []\<rparr>"

theorem Take_whole_key_witness:
  "\<exists>k\<in>set (live 0 (ls_keys demo_parked)). names_key (=) ''C'' k \<and>
     (\<forall>k'\<in>set (live 0 (ls_keys demo_parked)). names_key (=) ''C'' k' \<longrightarrow> key_print k' = key_print k)"
proof -
  obtain l' raw taken where "Take (=) 0 ''C'' demo_parked = (l', Inr (raw, taken))"
    by (simp add: Take_eq demo_parked_def demo_key_def live_def expiredLocked_def names_key_def key_print_def Let_def)
  from Take_whole_key [OF this] show ?thesis by blast
qed

end
