(* ===== verification/Agent.thy ===== *)
theory Agent
  imports Engine_Safety Vault_Handover Agent_Session Local_Keys
begin

unbundle bit_operations_syntax

text \<open>
  One connection to the SSH agent, \<^verbatim>\<open>src/pkg/agent/agent.go\<close>, on top of the store, the approval engine,
  the parked keys, the session bindings and the known hosts.

  The state of a connection is its bindings together with what the server shares: the engine, which
  holds the store the agent offers keys from, the parked keys, the known hosts and the signatures
  reported through \<^verbatim>\<open>OnSigned\<close>. The way to paired holders is the record \<open>remote_keys\<close>. What a call sees of
  the outside - the clock, the fresh request identifier, the files, the order of answers to a prompt - is
  the record \<open>moment\<close>. A result of \<^const>\<open>None\<close> is a call that has not returned: a prompt still waiting.
\<close>

section \<open>State and parameters\<close>

record RemoteSignResponse =
  rr_signature :: bytes
  rr_approval :: "signed_artifact option"

record remote_keys =
  rk_refs :: "key_ref list"
  rk_refreshed :: "key_ref list"
  rk_borrowed :: "bytes \<Rightarrow> key_ref option"
  rk_sign :: "approval_request \<Rightarrow> bytes \<Rightarrow> bool \<Rightarrow> string + RemoteSignResponse"

record 'raw agent_env =
  av_env :: env
  av_quote :: "string \<Rightarrow> string"
  av_parser :: line_parser
  av_park :: "'raw park_lib"
  av_keys :: "'raw key_lib"
  av_hw :: hw_lib
  av_hardware :: "hw_backend option"
  av_gate :: "(string \<Rightarrow> string option) option"
  av_identity :: "requester_info option"
  av_remote :: "remote_keys option"
  av_peer :: "client_process option"

record moment =
  mo_now :: time
  mo_id :: string
  mo_files :: "string \<rightharpoonup> bytes"
  mo_events :: "event list"
  mo_shown :: "presented_project option"
  mo_accept :: "string option"

record 'raw conn =
  cn_engine :: Engine
  cn_local :: "'raw LocalKeys option"
  cn_hosts :: KnownHosts
  cn_binds :: bindings
  cn_signed :: "(approval_request \<times> key_ref) list"

datatype agent_error =
    NoSuchAgentKey string
  | ApprovalFailed submit_error
  | ErrDenied string
  | LoadKey signer_error
  | SignFailed string
  | NoAlgorithm string
  | SignWithFailed string string
  | RemoteSigning string
  | RemoteApproval identity_error
  | RemoteSignature string
  | NoRemote
  | ErrMutationNotSupported
  | ErrManagedKey
  | ParkRefused local_error
  | ErrExtensionUnsupported
  | SessionBindRefused bind_error
  | NoSigners

section \<open>Which keys there are\<close>

definition holdsKey :: "key_ref list \<Rightarrow> bytes \<Rightarrow> bool" where
  "holdsKey refs blob = list_ex (\<lambda>ref. kr_public_key ref = blob) refs"

definition findRemote :: "key_ref list \<Rightarrow> bytes \<Rightarrow> key_ref option" where
  "findRemote refs blob = find (\<lambda>ref. kr_public_key ref = blob) refs"

definition add_unlisted :: "key_ref list \<Rightarrow> key_ref list \<Rightarrow> key_ref list" where
  "add_unlisted refs out = foldl (\<lambda>out ref. if holdsKey out (kr_public_key ref) then out else out @ [ref]) out refs"

definition local_refs :: "time \<Rightarrow> 'raw conn \<Rightarrow> key_ref list \<times> 'raw conn" where
  "local_refs now c =
     (case cn_local c of
        None \<Rightarrow> ([], c)
      | Some l \<Rightarrow> (case Refs now l of (l', refs) \<Rightarrow> (refs, c\<lparr>cn_local := Some l'\<rparr>)))"

definition allKeys :: "'raw agent_env \<Rightarrow> moment \<Rightarrow> 'raw conn \<Rightarrow> key_ref list \<times> 'raw conn" where
  "allKeys A m c =
     (let stored = KeyRefs (e_vault (cn_engine c))
      in if av_remote A = None \<and> cn_local c = None then (stored, c)
         else case local_refs (mo_now m) c of
             (parked, c') \<Rightarrow>
               (let out = add_unlisted parked stored
                in (case av_remote A of
                      None \<Rightarrow> out
                    | Some R \<Rightarrow> add_unlisted (rk_refs R) out, c')))"

definition advertised :: "'raw agent_env \<Rightarrow> moment \<Rightarrow> 'raw conn \<Rightarrow> key_ref list \<times> 'raw conn" where
  "advertised A m c = map_prod (filter RefAgentUse) id (allKeys A m c)"

record agent_Key =
  ak_format :: string
  ak_blob :: bytes
  ak_comment :: string

definition ref_comment :: "key_ref \<Rightarrow> string" where
  "ref_comment ref = (if kr_comment ref \<noteq> [] then kr_comment ref else kr_label ref)"

definition conn_List :: "'raw agent_env \<Rightarrow> moment \<Rightarrow> 'raw conn \<Rightarrow> agent_Key list \<times> 'raw conn" where
  "conn_List A m c =
     map_prod (map (\<lambda>ref. \<lparr>ak_format = kr_algorithm ref, ak_blob = kr_public_key ref, ak_comment = ref_comment ref\<rparr>)) id
       (advertised A m c)"

datatype keyPlace = keyInStore | keyParked | keyOnPeer

record foundKey =
  fk_where :: keyPlace
  fk_ref :: key_ref
  fk_signer :: "ssh_signer option"
  fk_parked :: "local_key option"

definition found_at :: "keyPlace \<Rightarrow> key_ref \<Rightarrow> foundKey" where
  "found_at place ref = \<lparr>fk_where = place, fk_ref = ref, fk_signer = None, fk_parked = None\<rparr>"

definition find_on_peers :: "remote_keys \<Rightarrow> bytes \<Rightarrow> key_ref option" where
  "find_on_peers R blob =
     (case findRemote (rk_refs R) blob of
        Some ref \<Rightarrow> Some ref
      | None \<Rightarrow> (case findRemote (rk_refreshed R) blob of
                  Some ref \<Rightarrow> Some ref
                | None \<Rightarrow> rk_borrowed R blob))"

definition findKey ::
    "'raw agent_env \<Rightarrow> moment \<Rightarrow> ssh_public_key \<Rightarrow> 'raw conn \<Rightarrow> (agent_error + foundKey) \<times> 'raw conn" where
  "findKey A m key c =
     (let blob = pk_marshal key;
          elsewhere = (\<lambda>c. case Option.bind (av_remote A) (\<lambda>R. find_on_peers R blob) of
              Some ref \<Rightarrow> (Inr (found_at keyOnPeer ref), c)
            | None \<Rightarrow> (Inl (NoSuchAgentKey (lib_fingerprint (x_ssh (av_env A)) key)), c))
      in case find (\<lambda>ref. kr_public_key ref = blob) (KeyRefs (e_vault (cn_engine c))) of
          Some ref \<Rightarrow> (Inr (found_at keyInStore ref), c)
        | None \<Rightarrow>
            (case cn_local c of
               None \<Rightarrow> elsewhere c
             | Some l \<Rightarrow>
                 (case lookup (mo_now m) blob l of
                    (l', None) \<Rightarrow> elsewhere (c\<lparr>cn_local := Some l'\<rparr>)
                  | (l', Some (signer, ref, note)) \<Rightarrow>
                      (Inr \<lparr>fk_where = keyParked, fk_ref = ref, fk_signer = Some signer, fk_parked = Some note\<rparr>,
                       c\<lparr>cn_local := Some l'\<rparr>))))"

section \<open>The request\<close>

definition CertAlgoRSAv01 :: string where "CertAlgoRSAv01 = ''ssh-rsa-cert-v01@openssh.com''"
definition KeyAlgoRSASHA256 :: string where "KeyAlgoRSASHA256 = ''rsa-sha2-256''"
definition SignatureFlagRsaSha256 :: "32 word" where "SignatureFlagRsaSha256 = 2"
definition SignatureFlagRsaSha512 :: "32 word" where "SignatureFlagRsaSha512 = 4"

definition algorithmForFlags :: "string \<Rightarrow> 32 word \<Rightarrow> string" where
  "algorithmForFlags keyAlgorithm flags =
     (if keyAlgorithm \<noteq> KeyAlgoRSA \<and> keyAlgorithm \<noteq> CertAlgoRSAv01 then []
      else if flags AND SignatureFlagRsaSha512 \<noteq> 0 then KeyAlgoRSASHA512
      else if flags AND SignatureFlagRsaSha256 \<noteq> 0 then KeyAlgoRSASHA256
      else [])"

definition server_requesterInfo :: "'raw agent_env \<Rightarrow> requester_info" where
  "server_requesterInfo A =
     (case av_identity A of
        Some info \<Rightarrow> info
      | None \<Rightarrow> \<lparr>ri_instance_id = [], ri_name = [], ri_local = False, ri_headless = False, ri_remote_address = [],
                 ri_process = None\<rparr>)"

definition requesterInfo :: "'raw agent_env \<Rightarrow> requester_info" where
  "requesterInfo A = (server_requesterInfo A)\<lparr>ri_local := True, ri_process := av_peer A\<rparr>"

definition attachSessionContext ::
    "'raw agent_env \<Rightarrow> moment \<Rightarrow> ssh_auth_request \<Rightarrow> 'raw conn \<Rightarrow> (ssh_auth_request \<times> 'raw conn) option" where
  "attachSessionContext A m auth c =
     (let bind = bindings_context (Some (sa_session_id auth)) (cn_binds c);
          auth' = auth\<lparr>sa_binding_chain := bc_chain bind, sa_forwarded := bc_forwarded bind,
            sa_forwarded_hops := bc_hops bind, sa_bound := (bc_binding bind \<noteq> None)\<rparr>
      in case sa_payload_destination auth' of
          Some host \<Rightarrow>
            map_option (\<lambda>(h, k). (auth'\<lparr>sa_payload_destination := Some h, sa_destination := Some h,
                sa_destination_label := DisplayName (Some h)\<rparr>, c\<lparr>cn_hosts := k\<rparr>))
              (Annotate (av_parser A) (mo_files m) (mo_now m) host (cn_hosts c))
        | None \<Rightarrow>
            Some (case bc_binding bind of
                None \<Rightarrow> auth'\<lparr>sa_destination_label := unknown_destination\<rparr>
              | Some b \<Rightarrow> auth'\<lparr>sa_destination := sb_host_key b,
                  sa_destination_label := DisplayName (sb_host_key b)\<rparr>, c))"

definition request_base ::
    "'raw agent_env \<Rightarrow> moment \<Rightarrow> request_kind \<Rightarrow> key_ref \<Rightarrow> bytes \<Rightarrow> 32 word \<Rightarrow> operation \<Rightarrow> approval_request" where
  "request_base A m kind ref data flags op = empty_request\<lparr>ar_request_id := mo_id m, ar_created_at := Some (mo_now m),
     ar_requester := Some (requesterInfo A), ar_kind := kind, ar_key := Some ref, ar_signature_flags := unat flags,
     ar_signature_algorithm := algorithmForFlags (kr_algorithm ref) flags,
     ar_payload_sha256 := lib_sha256 (x_ssh (av_env A)) data, ar_operation := op\<rparr>"

definition buildRequest ::
    "'raw agent_env \<Rightarrow> moment \<Rightarrow> key_ref \<Rightarrow> bytes \<Rightarrow> 32 word \<Rightarrow> 'raw conn \<Rightarrow> (approval_request \<times> 'raw conn) option" where
  "buildRequest A m ref data flags c =
     (let class = Classify (x_ssh (av_env A)) (av_quote A) data;
          req = request_base A m (cl_kind class) ref data flags
      in case cl_ssh_auth class of
          Some auth \<Rightarrow> map_option (\<lambda>(auth', c'). (req (OpSshAuth auth'), c')) (attachSessionContext A m auth c)
        | None \<Rightarrow>
            Some (case cl_sshsig class of
                Some sig \<Rightarrow> req (OpSshsig sig)
              | None \<Rightarrow> req (case cl_opaque class of Some op \<Rightarrow> OpOpaqueSign op | None \<Rightarrow> NoOperation), c))"

section \<open>Signing\<close>

definition signWithAlgorithm :: "ssh_signer \<Rightarrow> bytes \<Rightarrow> string \<Rightarrow> agent_error + ssh_signature" where
  "signWithAlgorithm signer data algorithm =
     (if algorithm = [] then map_sum SignFailed id (sr_sign signer data)
      else (case sr_sign_with signer of
              None \<Rightarrow> Inl (NoAlgorithm algorithm)
            | Some sign_with \<Rightarrow> map_sum (SignWithFailed algorithm) id (sign_with data algorithm)))"

definition source_names :: "(decision_source \<times> string) list" where
  "source_names = [
     (DECISION_SOURCE_UNSPECIFIED, ''DECISION_SOURCE_UNSPECIFIED''), (DECISION_SOURCE_USER, ''DECISION_SOURCE_USER''),
     (DECISION_SOURCE_POLICY, ''DECISION_SOURCE_POLICY''), (DECISION_SOURCE_GRANT, ''DECISION_SOURCE_GRANT''),
     (DECISION_SOURCE_HARD_RULE, ''DECISION_SOURCE_HARD_RULE''), (DECISION_SOURCE_TIMEOUT, ''DECISION_SOURCE_TIMEOUT''),
     (DECISION_SOURCE_CANCELLED, ''DECISION_SOURCE_CANCELLED''),
     (DECISION_SOURCE_NO_APPROVER, ''DECISION_SOURCE_NO_APPROVER''), (DECISION_SOURCE_ERROR, ''DECISION_SOURCE_ERROR'')]"

definition source_String :: "decision_source \<Rightarrow> string" where
  "source_String s = (case s of DECISION_SOURCE_UNKNOWN n \<Rightarrow> int_str n
     | _ \<Rightarrow> (case map_of source_names s of Some name \<Rightarrow> name | None \<Rightarrow> []))"

definition refusal :: "approval_response \<Rightarrow> agent_error" where
  "refusal resp = ErrDenied (if rs_reason resp = [] then source_String (rs_source resp) else rs_reason resp)"

definition Submit ::
    "env \<Rightarrow> approval_request option \<Rightarrow> event list \<Rightarrow> presented_project option \<Rightarrow>
     (submit_error + approval_response) option eng" where
  "Submit X msg evs shown = do {
     r \<leftarrow> SubmitSigned X msg evs shown;
     State_Monad.return (map_option (map_sum id fst) r)
   }"

definition note_signed :: "approval_request \<Rightarrow> key_ref \<Rightarrow> 'raw conn \<Rightarrow> 'raw conn" where
  "note_signed req key c = c\<lparr>cn_signed := cn_signed c @ [(req, key)]\<rparr>"

definition signRemotely ::
    "'raw agent_env \<Rightarrow> approval_request \<Rightarrow> bytes \<Rightarrow> key_ref \<Rightarrow> 'raw conn \<Rightarrow> (agent_error + ssh_signature) \<times> 'raw conn" where
  "signRemotely A req data ref c =
     (case av_remote A of
        None \<Rightarrow> (Inl NoRemote, c)
      | Some R \<Rightarrow>
          (case rk_sign R req data False of
             Inl e \<Rightarrow> (Inl (RemoteSigning e), c)
           | Inr resp \<Rightarrow>
               (case VerifyApproval (x_ssh (av_env A)) (x_response (av_env A)) (rr_approval resp) of
                  Inl e \<Rightarrow> (Inl (RemoteApproval e), c)
                | Inr (decision, _) \<Rightarrow>
                    if rs_decision decision \<noteq> DECISION_APPROVE then (Inl (refusal decision), c)
                    else (case lib_unmarshal_signature (x_ssh (av_env A)) (rr_signature resp) of
                            Inl e \<Rightarrow> (Inl (RemoteSignature e), c)
                          | Inr sig \<Rightarrow> (Inr sig, note_signed req ref c)))))"

definition signer_for :: "'raw agent_env \<Rightarrow> foundKey \<Rightarrow> 'raw conn \<Rightarrow> agent_error + ssh_signer" where
  "signer_for A found c =
     (if fk_where found = keyInStore
      then map_sum LoadKey fst (Signer (av_keys A) (av_hw A) (av_hardware A) (av_gate A)
             (kr_fingerprint (fk_ref found)) (e_vault (cn_engine c)))
      else case fk_signer found of Some signer \<Rightarrow> Inr signer | None \<Rightarrow> Inl NoSigners)"

definition sign_here ::
    "'raw agent_env \<Rightarrow> moment \<Rightarrow> foundKey \<Rightarrow> approval_request \<Rightarrow> bytes \<Rightarrow> 'raw conn
       \<Rightarrow> (agent_error + ssh_signature) option \<times> 'raw conn" where
  "sign_here A m found req data c =
     (case run_state (Submit (av_env A) (Some req) (mo_events m) (mo_shown m)) (cn_engine c) of
        (answer, e) \<Rightarrow>
          (let c' = c\<lparr>cn_engine := e\<rparr>
           in case answer of
               None \<Rightarrow> (None, c')
             | Some (Inl err) \<Rightarrow> (Some (Inl (ApprovalFailed err)), c')
             | Some (Inr resp) \<Rightarrow>
                 if rs_decision resp \<noteq> DECISION_APPROVE then (Some (Inl (refusal resp)), c')
                 else (case signer_for A found c' of
                         Inl err \<Rightarrow> (Some (Inl err), c')
                       | Inr signer \<Rightarrow>
                           (case signWithAlgorithm signer data (ar_signature_algorithm req) of
                              Inl err \<Rightarrow> (Some (Inl err), c')
                            | Inr sig \<Rightarrow> (Some (Inr sig), note_signed req (fk_ref found) c')))))"

definition SignWithFlags ::
    "'raw agent_env \<Rightarrow> moment \<Rightarrow> ssh_public_key \<Rightarrow> bytes \<Rightarrow> 32 word \<Rightarrow> 'raw conn
       \<Rightarrow> (agent_error + ssh_signature) option \<times> 'raw conn" where
  "SignWithFlags A m key data flags c =
     (case findKey A m key c of
        (Inl err, c1) \<Rightarrow> (Some (Inl err), c1)
      | (Inr found, c1) \<Rightarrow>
          (case buildRequest A m (fk_ref found) data flags c1 of
             None \<Rightarrow> (None, c1)
           | Some (req0, c2) \<Rightarrow>
               (let req = req0\<lparr>ar_local_key := fk_parked found\<rparr>
                in if fk_where found = keyOnPeer then map_prod Some id (signRemotely A req data (fk_ref found) c2)
                   else sign_here A m found req data c2)))"

definition conn_Sign ::
    "'raw agent_env \<Rightarrow> moment \<Rightarrow> ssh_public_key \<Rightarrow> bytes \<Rightarrow> 'raw conn \<Rightarrow> (agent_error + ssh_signature) option \<times> 'raw conn" where
  "conn_Sign A m key data c = SignWithFlags A m key data 0 c"

section \<open>The other messages\<close>

definition Extension ::
    "'raw agent_env \<Rightarrow> moment \<Rightarrow> string \<Rightarrow> bytes \<Rightarrow> 'raw conn \<Rightarrow> agent_error option option \<times> 'raw conn" where
  "Extension A m extensionType contents c =
     (if extensionType \<noteq> SessionBindExtension then (Some (Some ErrExtensionUnsupported), c)
      else case parseSessionBind (x_ssh (av_env A)) contents of
          Inl err \<Rightarrow> (Some (Some (SessionBindRefused err)), c)
        | Inr (pub, sessionID, isForwarding) \<Rightarrow>
            (case hostKeyMessage (x_ssh (av_env A)) (av_parser A) (mo_files m) (mo_now m) pub (cn_hosts c) of
               None \<Rightarrow> (None, c)
             | Some (hostKey, k) \<Rightarrow>
                 (case bindings_add \<lparr>sb_host_key = Some hostKey, sb_session_id = sessionID,
                      sb_is_forwarding = isForwarding, sb_signature_verified = True, sb_hop = 0\<rparr> (cn_binds c) of
                    (bs, err) \<Rightarrow>
                      (Some (map_option SessionBindRefused err), c\<lparr>cn_hosts := k, cn_binds := bs\<rparr>))))"

definition conn_Add ::
    "'raw agent_env \<Rightarrow> moment \<Rightarrow> 'raw added_key \<Rightarrow> 'raw conn \<Rightarrow> agent_error option \<times> 'raw conn" where
  "conn_Add A m key c =
     (case cn_local c of
        None \<Rightarrow> (Some ErrMutationNotSupported, c)
      | Some l \<Rightarrow>
          (case pl_signer (av_park A) (ad_private key) of
             Inl e \<Rightarrow> (Some (ParkRefused (CannotPark e)), c)
           | Inr signer \<Rightarrow>
               if holdsKey (KeyRefs (e_vault (cn_engine c))) (pk_marshal (sr_public signer)) then (None, c)
               else (case Add (av_park A) (mo_now m) (mo_accept m) key (av_peer A) l of
                       (l', Inl e) \<Rightarrow> (Some (ParkRefused e), c\<lparr>cn_local := Some l'\<rparr>)
                     | (l', Inr _) \<Rightarrow> (None, c\<lparr>cn_local := Some l'\<rparr>))))"

definition conn_Remove ::
    "'raw agent_env \<Rightarrow> moment \<Rightarrow> ssh_public_key \<Rightarrow> 'raw conn \<Rightarrow> agent_error option \<times> 'raw conn" where
  "conn_Remove A m key c =
     (case cn_local c of
        None \<Rightarrow> (Some ErrMutationNotSupported, c)
      | Some l \<Rightarrow>
          if holdsKey (KeyRefs (e_vault (cn_engine c))) (pk_marshal key) then (Some ErrManagedKey, c)
          else (case Remove (mo_now m) (pk_marshal key) (av_peer A) l of
                  (l', False) \<Rightarrow>
                    (Some (ParkRefused (ErrNoSuchLocalKey (lib_fingerprint (x_ssh (av_env A)) key))),
                     c\<lparr>cn_local := Some l'\<rparr>)
                | (l', True) \<Rightarrow> (None, c\<lparr>cn_local := Some l'\<rparr>)))"

definition conn_RemoveAll :: "'raw agent_env \<Rightarrow> moment \<Rightarrow> 'raw conn \<Rightarrow> agent_error option \<times> 'raw conn" where
  "conn_RemoveAll A m c =
     (case cn_local c of
        None \<Rightarrow> (Some ErrMutationNotSupported, c)
      | Some l \<Rightarrow> (None, c\<lparr>cn_local := Some (fst (RemoveAll (mo_now m) (av_peer A) l))\<rparr>))"

definition Lock :: "bytes \<Rightarrow> 'raw conn \<Rightarrow> agent_error option \<times> 'raw conn" where
  "Lock passphrase c = (Some ErrMutationNotSupported, c)"

definition Unlock :: "bytes \<Rightarrow> 'raw conn \<Rightarrow> agent_error option \<times> 'raw conn" where
  "Unlock passphrase c = (Some ErrMutationNotSupported, c)"

definition Signers :: "'raw conn \<Rightarrow> agent_error + ssh_signer list" where
  "Signers c = Inl NoSigners"

section \<open>Histories of a connection\<close>

datatype 'raw agent_op =
    AList
  | ASign ssh_public_key bytes "32 word"
  | AExtension string bytes
  | AAdd "'raw added_key"
  | ARemove ssh_public_key
  | ARemoveAll
  | ALock bytes
  | AUnlock bytes

definition agent_step :: "'raw agent_env \<Rightarrow> moment \<Rightarrow> 'raw agent_op \<Rightarrow> 'raw conn \<Rightarrow> 'raw conn" where
  "agent_step A m op c =
     (case op of
        AList \<Rightarrow> snd (conn_List A m c)
      | ASign key data flags \<Rightarrow> snd (SignWithFlags A m key data flags c)
      | AExtension name contents \<Rightarrow> snd (Extension A m name contents c)
      | AAdd key \<Rightarrow> snd (conn_Add A m key c)
      | ARemove key \<Rightarrow> snd (conn_Remove A m key c)
      | ARemoveAll \<Rightarrow> snd (conn_RemoveAll A m c)
      | ALock p \<Rightarrow> snd (Lock p c)
      | AUnlock p \<Rightarrow> snd (Unlock p c))"

definition agent_run :: "'raw agent_env \<Rightarrow> (moment \<times> 'raw agent_op) list \<Rightarrow> 'raw conn \<Rightarrow> 'raw conn" where
  "agent_run A ops c = foldl (\<lambda>c (m, op). agent_step A m op c) c ops"

section \<open>What a step touches\<close>

lemma findKey_frame:
  "findKey A m key c = (r, c') \<Longrightarrow> cn_engine c' = cn_engine c \<and> cn_hosts c' = cn_hosts c \<and> cn_binds c' = cn_binds c \<and>
     cn_signed c' = cn_signed c"
  by (auto simp: findKey_def Let_def split: option.splits prod.splits)

lemma findKey_local:
  "findKey A m key c = (r, c') \<Longrightarrow> cn_local c' = cn_local c \<or>
     (\<exists>l. cn_local c = Some l \<and> cn_local c' = Some (fst (reading (mo_now m) id l)))"
  by (auto simp: findKey_def Let_def lookup_def reading_def split: option.splits prod.splits)

lemma find_on_peers_key:
  "find_on_peers R blob = Some ref \<Longrightarrow> (\<forall>b r. rk_borrowed R b = Some r \<longrightarrow> kr_public_key r = b) \<Longrightarrow>
     kr_public_key ref = blob"
  by (auto simp: find_on_peers_def findRemote_def find_Some_iff split: option.splits)

lemma lookup_key:
  "parked_ok l \<Longrightarrow> lookup now blob l = (l', Some (signer, ref, note)) \<Longrightarrow> kr_public_key ref = blob"
  by (auto simp: lookup_def reading_def pruneLocked_eq parked_ok_def live_def dest!: indexOfBlob_Some)
     (metis nth_mem filter_is_subset subset_iff live_def)

lemma buildRequest_frame:
  assumes "buildRequest A m ref data flags c = Some (req, c')"
  shows "cn_engine c' = cn_engine c \<and> cn_local c' = cn_local c \<and> cn_binds c' = cn_binds c \<and> cn_signed c' = cn_signed c"
  using assms
  by (auto simp: buildRequest_def attachSessionContext_def Let_def split: option.splits prod.splits)

lemma buildRequest_fields:
  assumes "buildRequest A m ref data flags c = Some (req, c')"
  shows "ar_kind req = cl_kind (Classify (x_ssh (av_env A)) (av_quote A) data)" "ar_key req = Some ref"
    "ar_payload_sha256 req = lib_sha256 (x_ssh (av_env A)) data" "ar_grant_only req = False"
  using assms
  by (auto simp: buildRequest_def request_base_def empty_request_def Let_def split: option.splits prod.splits)

lemma buildRequest_login:
  assumes "buildRequest A m ref data flags c = Some (req, c')"
    and "cl_ssh_auth (Classify (x_ssh (av_env A)) (av_quote A) data) = Some auth"
  shows "\<exists>auth'. get_ssh_auth req = Some auth' \<and> sa_session_id auth' = sa_session_id auth \<and>
     sa_forwarded auth' = bc_forwarded (bindings_context (Some (sa_session_id auth)) (cn_binds c))"
  using assms
  by (auto simp: buildRequest_def attachSessionContext_def request_base_def get_ssh_auth_def Let_def
      split: option.splits prod.splits)

section \<open>What a signature rests on\<close>

definition backed :: "env \<Rightarrow> moment \<Rightarrow> Engine \<Rightarrow> approval_request \<Rightarrow> bool" where
  "backed X m e req \<longleftrightarrow>
     (let (req', problem) = VerifyRequest (x_ssh X) (x_say X) (x_fallback X) req
      in ar_kind req \<noteq> REQUEST_KIND_OPAQUE_SIGN \<and> problem = [] \<and>
         ev_action (Evaluate (x_lower X) (e_policy e) req') \<noteq> ACTION_DENY \<and>
         ((must_prompt req = [] \<and> stands_approved X e (e_policy e) OriginLocal req') \<or>
          somebody_approved req (mo_events m)))"

lemma Submit_backed:
  assumes "run_state (Submit X (Some req) (mo_events m) shown) e = (Some (Inr resp), e')" "rs_decision resp = DECISION_APPROVE"
  shows "backed X m e req"
proof -
  obtain art where s: "run_state (submit X (Some req) None OriginLocal (mo_events m) shown) e = (Some (Inr (resp, art)), e')"
    using assms(1)
    by (auto simp: Submit_def SubmitSigned_def split: prod.splits option.splits)
       (metis (no_types, lifting) map_sum.simps prod.collapse sum.collapse(1) sum.exhaust sum.sel(2) Inl_Inr_False)
  obtain req' problem where v: "VerifyRequest (x_ssh X) (x_say X) (x_fallback X) req = (req', problem)" by fastforce
  have "approved resp" using assms(2) by (simp add: approved_def)
  from submit_grounds [OF s this v] show ?thesis by (simp add: backed_def v)
qed

lemma signer_for_note [simp]: "signer_for A found (note_signed req key c) = signer_for A found c"
  by (simp add: signer_for_def note_signed_def)

lemma note_signed_sel [simp]: "cn_signed (note_signed req key c) = cn_signed c @ [(req, key)]"
  "cn_engine (note_signed req key c) = cn_engine c" "cn_local (note_signed req key c) = cn_local c"
  "cn_hosts (note_signed req key c) = cn_hosts c" "cn_binds (note_signed req key c) = cn_binds c"
  by (simp_all add: note_signed_def)

lemma sign_here_Inr:
  assumes "sign_here A m found req data c = (Some (Inr sig), c')"
  shows "cn_signed c' = cn_signed c @ [(req, fk_ref found)]" "backed (av_env A) m (cn_engine c) req"
    "\<exists>signer. signer_for A found c' = Inr signer \<and> signWithAlgorithm signer data (ar_signature_algorithm req) = Inr sig"
proof -
  obtain answer e where r: "run_state (Submit (av_env A) (Some req) (mo_events m) (mo_shown m)) (cn_engine c) = (answer, e)"
    by fastforce
  from assms r obtain resp signer where x: "answer = Some (Inr resp)" "rs_decision resp = DECISION_APPROVE"
    "signer_for A found (c\<lparr>cn_engine := e\<rparr>) = Inr signer"
    "signWithAlgorithm signer data (ar_signature_algorithm req) = Inr sig"
    "c' = note_signed req (fk_ref found) (c\<lparr>cn_engine := e\<rparr>)"
    by (auto simp: sign_here_def Let_def split: option.splits sum.splits if_splits)
  show "cn_signed c' = cn_signed c @ [(req, fk_ref found)]" by (simp add: x(5))
  show "backed (av_env A) m (cn_engine c) req" using Submit_backed r x(1,2) by blast
  show "\<exists>signer. signer_for A found c' = Inr signer \<and>
      signWithAlgorithm signer data (ar_signature_algorithm req) = Inr sig" using x(3-5) by simp
qed

lemma sign_here_other:
  "sign_here A m found req data c = (r, c') \<Longrightarrow> (\<And>sig. r \<noteq> Some (Inr sig)) \<Longrightarrow> cn_signed c' = cn_signed c"
  by (auto simp: sign_here_def Let_def split: option.splits sum.splits if_splits prod.splits)

lemma sign_here_frame:
  "sign_here A m found req data c = (r, c') \<Longrightarrow> cn_local c' = cn_local c \<and> cn_binds c' = cn_binds c \<and> cn_hosts c' = cn_hosts c"
  by (auto simp: sign_here_def Let_def split: option.splits sum.splits if_splits prod.splits)

definition backed_remotely :: "'raw agent_env \<Rightarrow> approval_request \<Rightarrow> bytes \<Rightarrow> ssh_signature \<Rightarrow> bool" where
  "backed_remotely A req data sig \<longleftrightarrow>
     (\<exists>R resp decision approver. av_remote A = Some R \<and> rk_sign R req data False = Inr resp \<and>
        VerifyApproval (x_ssh (av_env A)) (x_response (av_env A)) (rr_approval resp) = Inr (decision, approver) \<and>
        rs_decision decision = DECISION_APPROVE \<and>
        lib_unmarshal_signature (x_ssh (av_env A)) (rr_signature resp) = Inr sig)"

lemma signRemotely_cases:
  assumes "signRemotely A req data ref c = (r, c')"
  shows "(\<exists>sig. r = Inr sig \<and> c' = note_signed req ref c \<and> backed_remotely A req data sig) \<or>
         (\<exists>err. r = Inl err) \<and> c' = c"
  using assms
  by (auto simp: signRemotely_def backed_remotely_def split: option.splits sum.splits if_splits prod.splits)

text \<open>What is relied on of the way to the peers: a remembered key is the one it was looked up by.\<close>

definition borrows_honestly :: "'raw agent_env \<Rightarrow> bool" where
  "borrows_honestly A \<longleftrightarrow>
     (case av_remote A of None \<Rightarrow> True | Some R \<Rightarrow> \<forall>b r. rk_borrowed R b = Some r \<longrightarrow> kr_public_key r = b)"

lemma elsewhere_key:
  "Option.bind (av_remote A) (\<lambda>R. find_on_peers R blob) = Some ref \<Longrightarrow> borrows_honestly A \<Longrightarrow> kr_public_key ref = blob"
  by (cases "av_remote A") (auto simp: borrows_honestly_def find_on_peers_key)

lemma findKey_found:
  assumes "findKey A m key c = (Inr found, c')" "pred_option parked_ok (cn_local c)" "borrows_honestly A"
  shows "kr_public_key (fk_ref found) = pk_marshal key"
  using assms
  by (auto simp: findKey_def Let_def found_at_def find_Some_iff split: option.splits prod.splits
      intro: lookup_key elsewhere_key)

text \<open>
  What a signature that came out rests on: the request reported as signed is over this key and these
  bytes, classified by them, and either this instance's engine had grounds to approve it or the key's
  holder signed an approval. A login that came through a forwarded socket had somebody say yes.
\<close>

definition forwarded_login :: "'raw agent_env \<Rightarrow> bytes \<Rightarrow> 'raw conn \<Rightarrow> bool" where
  "forwarded_login A data c \<longleftrightarrow>
     (case cl_ssh_auth (Classify (x_ssh (av_env A)) (av_quote A) data) of
        None \<Rightarrow> False
      | Some auth \<Rightarrow> bc_forwarded (bindings_context (Some (sa_session_id auth)) (cn_binds c)))"

definition accounted ::
    "'raw agent_env \<Rightarrow> moment \<Rightarrow> ssh_public_key \<Rightarrow> bytes \<Rightarrow> ssh_signature \<Rightarrow> 'raw conn \<Rightarrow> approval_request \<Rightarrow> key_ref \<Rightarrow> bool" where
  "accounted A m key data sig c req ref \<longleftrightarrow>
     ar_key req = Some ref \<and> kr_public_key ref = pk_marshal key \<and>
     ar_payload_sha256 req = lib_sha256 (x_ssh (av_env A)) data \<and>
     ar_kind req = cl_kind (Classify (x_ssh (av_env A)) (av_quote A) data) \<and>
     (backed (av_env A) m (cn_engine c) req \<and> (forwarded_login A data c \<longrightarrow> somebody_approved req (mo_events m)) \<or>
      backed_remotely A req data sig)"

lemma local_key_keeps [simp]:
  "get_ssh_auth (req\<lparr>ar_local_key := p\<rparr>) = get_ssh_auth req"
  by (simp add: get_ssh_auth_def)

lemma forwarded_text_some: "forwarded_text \<noteq> []"
  by (simp add: forwarded_text_def)

lemma forwarded_asks:
  assumes "buildRequest A m ref data flags c = Some (req, c')" "forwarded_login A data c"
    and "backed X m e (req\<lparr>ar_local_key := p\<rparr>)"
  shows "somebody_approved (req\<lparr>ar_local_key := p\<rparr>) (mo_events m)"
proof -
  obtain auth where a: "cl_ssh_auth (Classify (x_ssh (av_env A)) (av_quote A) data) = Some auth"
    "bc_forwarded (bindings_context (Some (sa_session_id auth)) (cn_binds c))"
    using assms(2) by (auto simp: forwarded_login_def split: option.splits)
  from buildRequest_login [OF assms(1) a(1)] a(2) have "must_prompt (req\<lparr>ar_local_key := p\<rparr>) \<noteq> []"
    by (auto simp: must_prompt_def forwarded_text_some)
  with assms(3) show ?thesis by (auto simp: backed_def Let_def split: prod.splits)
qed

lemma SignWithFlags_cases:
  fixes A :: "'raw agent_env" and c c' :: "'raw conn"
  assumes "SignWithFlags A m key data flags c = (r, c')"
  obtains (unknown) err where "findKey A m key c = (Inl err, c')" "r = Some (Inl err)"
  | (stuck) found :: foundKey where "findKey A m key c = (Inr found, c')" "r = None"
  | (peer) found :: foundKey and c1 c2 :: "'raw conn" and req0 :: approval_request and r'
      where "findKey A m key c = (Inr found, c1)" "buildRequest A m (fk_ref found) data flags c1 = Some (req0, c2)"
        "signRemotely A (req0\<lparr>ar_local_key := fk_parked found\<rparr>) data (fk_ref found) c2 = (r', c')" "r = Some r'"
  | (here) found :: foundKey and c1 c2 :: "'raw conn" and req0 :: approval_request
      where "findKey A m key c = (Inr found, c1)" "buildRequest A m (fk_ref found) data flags c1 = Some (req0, c2)"
        "sign_here A m found (req0\<lparr>ar_local_key := fk_parked found\<rparr>) data c2 = (r, c')"
  using assms
  by (auto simp: SignWithFlags_def Let_def map_prod_def split: prod.splits sum.splits option.splits if_splits)

lemma SignWithFlags_accounted:
  assumes "SignWithFlags A m key data flags c = (Some (Inr sig), c')"
    and "pred_option parked_ok (cn_local c)" and "borrows_honestly A"
  shows "\<exists>req ref. cn_signed c' = cn_signed c @ [(req, ref)] \<and> accounted A m key data sig c req ref"
proof -
  obtain found :: foundKey and c1 c2 and req0 :: approval_request
    where f: "findKey A m key c = (Inr found, c1)"
      and b: "buildRequest A m (fk_ref found) data flags c1 = Some (req0, c2)"
      and s: "signRemotely A (req0\<lparr>ar_local_key := fk_parked found\<rparr>) data (fk_ref found) c2 = (Inr sig, c') \<or>
        sign_here A m found (req0\<lparr>ar_local_key := fk_parked found\<rparr>) data c2 = (Some (Inr sig), c')"
    by (rule SignWithFlags_cases [OF assms(1)]) auto
  let ?req = "req0\<lparr>ar_local_key := fk_parked found\<rparr>"
  have c1: "cn_binds c1 = cn_binds c" "cn_engine c2 = cn_engine c" "cn_signed c2 = cn_signed c"
    using findKey_frame [OF f] buildRequest_frame [OF b] by simp_all
  have fwd: "forwarded_login A data c1 = forwarded_login A data c" unfolding forwarded_login_def c1(1) ..
  from s have "cn_signed c' = cn_signed c @ [(?req, fk_ref found)] \<and>
      (backed (av_env A) m (cn_engine c) ?req \<or> backed_remotely A ?req data sig)"
  proof
    assume "signRemotely A ?req data (fk_ref found) c2 = (Inr sig, c')"
    from signRemotely_cases [OF this] show ?thesis by (auto simp: c1)
  next
    assume "sign_here A m found ?req data c2 = (Some (Inr sig), c')"
    from sign_here_Inr(1,2) [OF this] show ?thesis by (simp add: c1)
  qed
  then have "cn_signed c' = cn_signed c @ [(?req, fk_ref found)]"
    "backed (av_env A) m (cn_engine c) ?req \<and> (forwarded_login A data c \<longrightarrow> somebody_approved ?req (mo_events m)) \<or>
     backed_remotely A ?req data sig"
    using forwarded_asks [OF b] fwd by blast+
  then show ?thesis
    using findKey_found [OF f assms(2,3)] buildRequest_fields [OF b] unfolding accounted_def
    by (intro exI [of _ ?req] exI [of _ "fk_ref found"]) simp
qed

lemma SignWithFlags_silent:
  assumes "SignWithFlags A m key data flags c = (r, c')" "\<And>sig. r \<noteq> Some (Inr sig)"
  shows "cn_signed c' = cn_signed c"
  using assms(1)
proof (cases rule: SignWithFlags_cases)
  case (peer found c1 c2 req0 r')
  then show ?thesis
    using signRemotely_cases [OF peer(3)] assms(2) findKey_frame [OF peer(1)] buildRequest_frame [OF peer(2)] by auto
next
  case (here found c1 c2 req0)
  then show ?thesis
    using sign_here_other [OF here(3) assms(2)] findKey_frame [OF here(1)] buildRequest_frame [OF here(2)] by simp
qed (auto dest: findKey_frame)

section \<open>The state of a connection\<close>

definition conn_ok :: "'raw agent_env \<Rightarrow> 'raw conn \<Rightarrow> bool" where
  "conn_ok A c \<longleftrightarrow> bindings_ok (x_ssh (av_env A)) (cn_binds c) \<and> pred_option parked_ok (cn_local c)"

lemma hostKeyMessage_blob:
  "hostKeyMessage L parser files now pub k = Some (h, k') \<Longrightarrow> hk_blob h = pk_marshal pub"
  by (auto simp: hostKeyMessage_def Annotate_def annotated_def host_key_of_def split: option.splits)

lemma Extension_ok:
  assumes "conn_ok A c"
  shows "conn_ok A (snd (Extension A m name contents c))"
proof (cases "name = SessionBindExtension \<and> (\<exists>x. parseSessionBind (x_ssh (av_env A)) contents = Inr x)")
  case True
  then obtain pub sid fwd where p: "parseSessionBind (x_ssh (av_env A)) contents = Inr (pub, sid, fwd)" by auto
  show ?thesis
  proof (cases "hostKeyMessage (x_ssh (av_env A)) (av_parser A) (mo_files m) (mo_now m) pub (cn_hosts c)")
    case (Some x)
    then obtain h k where h: "x = (h, k)" by fastforce
    have "bindings_ok (x_ssh (av_env A)) (fst (bindings_add \<lparr>sb_host_key = Some h, sb_session_id = sid,
        sb_is_forwarding = fwd, sb_signature_verified = True, sb_hop = 0\<rparr> (cn_binds c)))"
      using assms hostKeyMessage_blob [OF Some [unfolded h]]
      by (intro bindings_add_ok [OF _ p]) (auto simp: conn_ok_def)
    then show ?thesis using assms True p Some h by (auto simp: Extension_def conn_ok_def split: prod.splits)
  qed (use assms True p in \<open>simp add: Extension_def\<close>)
qed (use assms in \<open>auto simp: Extension_def split: sum.splits\<close>)

lemma SignWithFlags_frame:
  assumes "SignWithFlags A m key data flags c = (r, c')"
  shows "cn_binds c' = cn_binds c \<and> (cn_local c' = cn_local c \<or>
    (\<exists>l. cn_local c = Some l \<and> cn_local c' = Some (fst (reading (mo_now m) id l))))"
  using assms
proof (cases rule: SignWithFlags_cases)
  case (peer found c1 c2 req0 r')
  then show ?thesis
    using signRemotely_cases [OF peer(3)] findKey_frame [OF peer(1)] findKey_local [OF peer(1)]
      buildRequest_frame [OF peer(2)] by auto
next
  case (here found c1 c2 req0)
  then show ?thesis
    using sign_here_frame [OF here(3)] findKey_frame [OF here(1)] findKey_local [OF here(1)]
      buildRequest_frame [OF here(2)] by auto
qed (auto dest: findKey_frame findKey_local)

lemma local_refs_ok:
  "conn_ok A c \<Longrightarrow> conn_ok A (snd (local_refs now c))" "cn_signed (snd (local_refs now c)) = cn_signed c"
  by (auto simp: local_refs_def conn_ok_def Refs_def drops_keep(5) split: option.splits prod.splits)
     (metis drops_keep(5) fst_conv)

lemma conn_List_conn: "snd (conn_List A m c) = c \<or> snd (conn_List A m c) = snd (local_refs (mo_now m) c)"
  by (auto simp: conn_List_def advertised_def allKeys_def Let_def map_prod_def split: prod.splits)

lemma agent_step_ok:
  assumes "conn_ok A c"
  shows "conn_ok A (agent_step A m op c)"
proof (cases op)
  case AList
  then show ?thesis using conn_List_conn [of A m c] assms local_refs_ok(1) [OF assms] by (auto simp: agent_step_def)
next
  case (ASign key data flags)
  obtain r c' where s: "SignWithFlags A m key data flags c = (r, c')" by fastforce
  have "conn_ok A c'"
    using SignWithFlags_frame [OF s] assms drops_keep(5) by (auto simp: conn_ok_def)
  then show ?thesis by (simp add: ASign agent_step_def s)
next
  case (AExtension name contents)
  then show ?thesis using Extension_ok [OF assms] by (simp add: agent_step_def)
next
  case (AAdd key)
  have "conn_ok A (snd (conn_Add A m key c))"
    using assms Add_ok [of _ "av_park A" "mo_now m" "mo_accept m" key "av_peer A"]
    by (auto simp: conn_Add_def conn_ok_def split: option.splits sum.splits prod.splits) (metis fst_conv)+
  then show ?thesis by (simp add: AAdd agent_step_def)
next
  case (ARemove key)
  have "conn_ok A (snd (conn_Remove A m key c))"
  proof (cases "cn_local c")
    case (Some l)
    obtain l' b where r: "Remove (mo_now m) (pk_marshal key) (av_peer A) l = (l', b)" by fastforce
    have "parked_ok l'" using drops_keep(1) [of l "mo_now m" "pk_marshal key" "av_peer A"] assms Some r
      by (simp add: conn_ok_def)
    then show ?thesis using assms Some r by (cases b) (simp_all add: conn_Remove_def conn_ok_def)
  qed (use assms in \<open>simp add: conn_Remove_def\<close>)
  then show ?thesis by (simp add: ARemove agent_step_def)
next
  case ARemoveAll
  then show ?thesis using assms
    by (auto simp: agent_step_def conn_RemoveAll_def conn_ok_def RemoveAll_def drops_keep(2) split: option.splits)
qed (use assms in \<open>simp_all add: agent_step_def Lock_def Unlock_def\<close>)

definition fresh_conn :: "Engine \<Rightarrow> int option \<Rightarrow> string list \<Rightarrow> 'raw conn" where
  "fresh_conn e limit paths = \<lparr>cn_engine = e, cn_local = map_option NewLocalKeys limit, cn_hosts = NewKnownHosts paths,
     cn_binds = [], cn_signed = []\<rparr>"

lemma fresh_ok: "conn_ok A (fresh_conn e limit paths)"
  by (cases limit) (simp_all add: conn_ok_def fresh_conn_def NewLocalKeys_def parked_ok_def)

lemma agent_run_ok: "conn_ok A c \<Longrightarrow> conn_ok A (agent_run A ops c)"
  by (induction ops arbitrary: c) (auto simp: agent_run_def agent_step_ok)

lemma holdsKey_set: "holdsKey refs blob \<longleftrightarrow> blob \<in> kr_public_key ` set refs"
  by (auto simp: holdsKey_def list_ex_iff)

lemma add_unlisted_distinct:
  "distinct (map kr_public_key out) \<Longrightarrow> distinct (map kr_public_key (add_unlisted refs out)) \<and>
     kr_public_key ` set (add_unlisted refs out) = kr_public_key ` set out \<union> kr_public_key ` set refs"
proof (induction refs arbitrary: out)
  case (Cons r rs)
  show ?case
    using Cons.IH [of out] Cons.IH [of "out @ [r]"] Cons.prems
    by (auto simp: add_unlisted_def holdsKey_set)
qed (simp add: add_unlisted_def)

lemma distinct_map_filter_refs: "distinct (map kr_public_key refs) \<Longrightarrow> distinct (map kr_public_key (filter P refs))"
  by (induction refs) auto

section \<open>Properties\<close>


definition demo_answer :: approval_response where
  "demo_answer = approve DECISION_SOURCE_USER []"

definition demo_ref :: key_ref where
  "demo_ref = \<lparr>kr_fingerprint = ''SHA256:K'', kr_algorithm = ''toy'', kr_public_key = ''K'', kr_comment = [], kr_label = [],
     kr_agent_use = None\<rparr>"

definition demo_agent :: "signed_artifact \<Rightarrow> unit agent_env" where
  "demo_agent sa = \<lparr>av_env = demo_env\<lparr>x_response := only_codec demo_answer\<rparr>, av_quote = id, av_parser = byte_lines,
     av_park = \<lparr>pl_signer = (\<lambda>_. Inr toy_signer), pl_cert_signer = (\<lambda>_ s. Inr s), pl_fingerprint = pk_marshal\<rparr>,
     av_keys = \<lparr>kl_fold = (=), kl_fingerprint = pk_marshal, kl_pem = (\<lambda>_. None), kl_raw = (\<lambda>_. Inr ()),
       kl_raw_with = (\<lambda>_ _. Inr ()), kl_marshal = (\<lambda>_ _. Inr []), kl_signer = (\<lambda>_. Inr toy_signer)\<rparr>,
     av_hw = \<lparr>hl_parse = (\<lambda>_. Inr toy_key), hl_p256 = (\<lambda>_. False), hl_wrap = (\<lambda>_. Inr toy_signer)\<rparr>,
     av_hardware = None, av_gate = None, av_identity = None,
     av_remote = Some \<lparr>rk_refs = [demo_ref], rk_refreshed = [], rk_borrowed = (\<lambda>_. None),
       rk_sign = (\<lambda>_ _ _. Inr \<lparr>rr_signature = [], rr_approval = Some sa\<rparr>)\<rparr>, av_peer = None\<rparr>"

definition demo_moment :: moment where
  "demo_moment = \<lparr>mo_now = 0, mo_id = ''r'', mo_files = Map.empty, mo_events = [], mo_shown = None, mo_accept = None\<rparr>"

lemma demo_artifact:
  "\<exists>sa. VerifyApproval toy_lib (only_codec demo_answer) (Some sa) = Inr (demo_answer, toy_key)"
proof -
  obtain sa where sa: "sign_identity toy_lib toy_identity signingInput ''B'' = Inr sa" using toy_sign_identity by blast
  from sign_identity_half [OF toy_identity_law toy_laws(1) this] show ?thesis
    by (intro exI [of _ sa]) (simp add: VerifyApproval_def only_codec_def toy_identity_def toy_signer_def)
qed

lemma demo_opaque: "cl_ssh_auth (Classify toy_lib id []) = None" "cl_sshsig (Classify toy_lib id []) = None"
  by (simp_all add: Classify_def parseSshsig_def parseAuthBlob_def field_then_def stringValue_def uint32Value_def
      bytes_read_def opaque_def)


text \<open>
  C40: Whatever a client sends, a connection's bindings stay within their cap, are numbered in the order they
  came and each name a host key that signed the session they are for, and the parked set it works on
  stays within its limit with no key listed twice.
\<close>

theorem connection_invariant:
  "bindings_ok (x_ssh (av_env A)) (cn_binds (agent_run A ops (fresh_conn e limit paths))) \<and>
   pred_option parked_ok (cn_local (agent_run A ops (fresh_conn e limit paths)))"
  using agent_run_ok [OF fresh_ok] by (simp add: conn_ok_def)

text \<open>
  ssh is handed every key at most once: when the store lists no key twice, the identities a connection
  lists are over different public keys.
\<close>

theorem identities_distinct:
  assumes "distinct (map kr_public_key (KeyRefs (e_vault (cn_engine c))))"
  shows "distinct (map ak_blob (fst (conn_List A m c)))"
proof -
  have "distinct (map kr_public_key (fst (allKeys A m c)))"
    using assms add_unlisted_distinct
    by (simp add: allKeys_def Let_def split: prod.splits option.splits)
  then have "distinct (map kr_public_key (filter RefAgentUse (fst (allKeys A m c))))" by (rule distinct_map_filter_refs)
  then show ?thesis by (simp add: conn_List_def advertised_def comp_def)
qed

theorem identities_distinct_witness:
  "\<forall>sa. distinct (map ak_blob (fst (conn_List (demo_agent sa) demo_moment (fresh_conn demo_engine None []))))"
  by (intro allI identities_distinct)
     (simp add: fresh_conn_def demo_engine_def KeyRefs_def empty_vault_def empty_document_def)

end
