(* ===== verification/Peer_Node.thy ===== *)
theory Peer_Node
  imports Engine_Safety Vault_Handover
begin

text \<open>
  An instance as its peers meet it: who is let in and what it may do
  (\<^verbatim>\<open>src/pkg/peer/peer.go\<close>, \<^verbatim>\<open>projects.go\<close>, \<^verbatim>\<open>handover.go\<close>), how much one peer may have pending at once
  (\<^verbatim>\<open>load.go\<close>) and what its calls say about its presence.

  The state of a node is the engine, which holds the store, and the counters the node keeps under its
  mutex. A handler is a state transformer; the identity it acts for is the one the channel proved, an
  argument that is \<^const>\<open>None\<close> on a connection that is not authenticated. An error that leaves over the
  channel carries its connect code.
\<close>

section \<open>State\<close>

record peer_identity =
  pi_fingerprint :: string
  pi_remote_addr :: string
  pi_tunnelled :: bool

record Node =
  nd_engine :: Engine
  nd_count :: "string \<rightharpoonup> int"
  nd_seen :: "string \<rightharpoonup> time"
  nd_collecting :: "string \<rightharpoonup> int"
  nd_collecting_tunnelled :: "string \<rightharpoonup> int"

text \<open>
  What a node is built with: the libraries, whether it was given a key store and an endorsement
  store, and \<^verbatim>\<open>strings.EqualFold\<close>.
\<close>

record 'raw node_env =
  nv_env :: env
  nv_quote :: "string \<Rightarrow> string"
  nv_fold :: "string \<Rightarrow> string \<Rightarrow> bool"
  nv_request :: "approval_request proto_codec"
  nv_retraction :: "retraction proto_codec"
  nv_keys :: "'raw key_lib option"
  nv_hw :: hw_lib
  nv_hardware :: "hw_backend option"
  nv_gate :: "(string \<Rightarrow> string option) option"
  nv_endorsements :: bool
  nv_delegations :: bool
  nv_headless :: bool

datatype connect_code =
    CodeUnauthenticated | CodePermissionDenied | CodeResourceExhausted | CodeInvalidArgument
  | CodeNotFound | CodeInternal | CodeUnimplemented

datatype peer_error =
    NotAuthenticated
  | NotAPeer string
  | MayNotRequest string string
  | MayNotApprove string
  | TooManyPending
  | RequestEmpty
  | RequestUnparsed string
  | PairingNotThisWay
  | AcknowledgeFailed string
  | SendFailed string
  | NoKeysHere
  | MayNotSignWith string string
  | NoKeyInStore string
  | NothingToSign
  | NoNamespace
  | WrapFailed sshsig_error
  | OtherPayload
  | OtherLogin
  | OtherDestination
  | DecideFailed submit_error
  | LoadKeyFailed signer_error
  | SignBlobFailed sshsig_error
  | CannotSignWith string
  | SignWithRefused string string
  | EndorsementUnverified identity_error
  | RetractionUnverified identity_error
  | StoreFailed vault_error
  | BadRecord public_key_error
  | AnswerRefused string
  | NoSignatureInAnswer

datatype rpc_error = Rpc connect_code peer_error | PlainError peer_error

type_synonym 'a nd = "(Node, 'a) state"

definition in_engine :: "'a eng \<Rightarrow> 'a nd" where
  "in_engine f = State (\<lambda>n. case run_state f (nd_engine n) of (r, e) \<Rightarrow> (r, n\<lparr>nd_engine := e\<rparr>))"

definition asks_node :: "(Node \<Rightarrow> 'a) \<Rightarrow> 'a nd" where
  "asks_node f = State (\<lambda>n. (f n, n))"

definition modify_node :: "(Node \<Rightarrow> Node) \<Rightarrow> unit nd" where
  "modify_node f = State (\<lambda>n. ((), f n))"

definition now_n :: "time nd" where
  "now_n = in_engine now_e"

abbreviation nd_vault :: "Node \<Rightarrow> vault" where
  "nd_vault n \<equiv> e_vault (nd_engine n)"

section \<open>Who is let in\<close>

text \<open>\<open>window\<close> says a pairing window is open, \<open>refused\<close> that a refusal is held for the identity.\<close>

definition gate :: "(string \<Rightarrow> string \<Rightarrow> bool) \<Rightarrow> bool \<Rightarrow> bool \<Rightarrow> peer_identity \<Rightarrow> vault \<Rightarrow> bool" where
  "gate ef window refused p v =
     (if Peer ef (pi_fingerprint p) v \<noteq> None then True
      else if window then True
      else if (case PendingPairing ef (pi_fingerprint p) v of
                 Some pending \<Rightarrow> pp_fingerprint pending = pi_fingerprint p | None \<Rightarrow> False) then True
      else refused)"

definition saw :: "string \<Rightarrow> unit nd" where
  "saw fp = do { t \<leftarrow> now_n; modify_node (\<lambda>n. n\<lparr>nd_seen := (nd_seen n)(fp \<mapsto> t)\<rparr>) }"

definition find_peer :: "'raw node_env \<Rightarrow> peer_identity option \<Rightarrow> (rpc_error + peer_identity \<times> trust_record) nd" where
  "find_peer V peer =
     (case peer of
        None \<Rightarrow> State_Monad.return (Inl (Rpc CodeUnauthenticated NotAuthenticated))
      | Some p \<Rightarrow> do {
          r \<leftarrow> asks_node (\<lambda>n. Peer (nv_fold V) (pi_fingerprint p) (nd_vault n));
          State_Monad.return (case r of
             None \<Rightarrow> Inl (Rpc CodePermissionDenied (NotAPeer (pi_fingerprint p)))
           | Some record \<Rightarrow> Inr (p, record))
        })"

definition authorize :: "'raw node_env \<Rightarrow> peer_identity option \<Rightarrow> (rpc_error + peer_identity \<times> trust_record) nd" where
  "authorize V peer = do {
     r \<leftarrow> find_peer V peer;
     case r of
       Inl e \<Rightarrow> State_Monad.return (Inl e)
     | Inr (p, record) \<Rightarrow>
         if \<not> tr_may_request record
         then State_Monad.return (Inl (Rpc CodePermissionDenied
                (MayNotRequest (tr_name record) (Trust.Describe (tr_may_approve record) (tr_may_request record)))))
         else do { saw (pi_fingerprint p); State_Monad.return (Inr (p, record)) }
   }"

definition publisherFor :: "'raw node_env \<Rightarrow> peer_identity option \<Rightarrow> (rpc_error + peer_identity \<times> trust_record) nd" where
  "publisherFor V peer = do {
     r \<leftarrow> find_peer V peer;
     case r of
       Inl e \<Rightarrow> State_Monad.return (Inl e)
     | Inr (p, record) \<Rightarrow>
         if \<not> tr_may_approve record
         then State_Monad.return (Inl (Rpc CodePermissionDenied (MayNotApprove (tr_name record))))
         else do { saw (pi_fingerprint p); State_Monad.return (Inr (p, record)) }
   }"

definition pairedPeer :: "'raw node_env \<Rightarrow> peer_identity option \<Rightarrow> (rpc_error + peer_identity \<times> trust_record) nd" where
  "pairedPeer V peer = find_peer V peer"

section \<open>How much one peer may have pending\<close>

definition maxDecisionsPerPeer :: int where "maxDecisionsPerPeer = 16"

definition acquire :: "string \<Rightarrow> (string \<rightharpoonup> int) \<Rightarrow> bool \<times> (string \<rightharpoonup> int)" where
  "acquire fp count =
     (let k = (case count fp of Some k \<Rightarrow> k | None \<Rightarrow> 0)
      in if k \<ge> maxDecisionsPerPeer then (False, count) else (True, count(fp \<mapsto> k + 1)))"

definition release :: "string \<Rightarrow> (string \<rightharpoonup> int) \<Rightarrow> (string \<rightharpoonup> int)" where
  "release fp count =
     (let k = (case count fp of Some k \<Rightarrow> k | None \<Rightarrow> 0)
      in if k \<le> 1 then count(fp := None) else count(fp \<mapsto> k - 1))"

definition take_slot :: "string \<Rightarrow> bool nd" where
  "take_slot fp = State (\<lambda>n. case acquire fp (nd_count n) of (ok, c) \<Rightarrow> (ok, n\<lparr>nd_count := c\<rparr>))"

definition free_slot :: "string \<Rightarrow> unit nd" where
  "free_slot fp = modify_node (\<lambda>n. n\<lparr>nd_count := release fp (nd_count n)\<rparr>)"

text \<open>
  A handler that holds a slot for as long as it runs. A decision still being waited for, \<^const>\<open>None\<close>,
  goes on holding it.
\<close>

definition with_slot :: "string \<Rightarrow> (rpc_error + 'a) option nd \<Rightarrow> (rpc_error + 'a) option nd" where
  "with_slot fp work = do {
     ok \<leftarrow> take_slot fp;
     if \<not> ok then State_Monad.return (Some (Inl (Rpc CodeResourceExhausted TooManyPending)))
     else do {
       r \<leftarrow> work;
       case r of
         None \<Rightarrow> State_Monad.return None
       | Some x \<Rightarrow> do { free_slot fp; State_Monad.return (Some x) }
     }
   }"

section \<open>Presence\<close>

definition bump :: "int \<Rightarrow> string \<Rightarrow> (string \<rightharpoonup> int) \<Rightarrow> (string \<rightharpoonup> int)" where
  "bump d fp m = m(fp \<mapsto> (case m fp of Some k \<Rightarrow> k | None \<Rightarrow> 0) + d)"

definition lower_count :: "string \<Rightarrow> (string \<rightharpoonup> int) \<Rightarrow> (string \<rightharpoonup> int)" where
  "lower_count fp m = (let m' = bump (- 1) fp m in if the (m' fp) \<le> 0 then m'(fp := None) else m')"

definition holding_begin :: "string \<Rightarrow> bool \<Rightarrow> unit nd" where
  "holding_begin fp tunnelled = do {
     t \<leftarrow> now_n;
     modify_node (\<lambda>n. n\<lparr>nd_collecting := bump 1 fp (nd_collecting n),
       nd_collecting_tunnelled := (if tunnelled then bump 1 fp (nd_collecting_tunnelled n)
                                   else nd_collecting_tunnelled n),
       nd_seen := (nd_seen n)(fp \<mapsto> t)\<rparr>)
   }"

definition holding_end :: "string \<Rightarrow> bool \<Rightarrow> unit nd" where
  "holding_end fp tunnelled = do {
     t \<leftarrow> now_n;
     modify_node (\<lambda>n. n\<lparr>nd_collecting := lower_count fp (nd_collecting n),
       nd_collecting_tunnelled := (if tunnelled then lower_count fp (nd_collecting_tunnelled n)
                                   else nd_collecting_tunnelled n),
       nd_seen := (nd_seen n)(fp \<mapsto> t)\<rparr>)
   }"

definition count_of :: "(string \<rightharpoonup> int) \<Rightarrow> string \<Rightarrow> int" where
  "count_of m fp = (case m fp of Some k \<Rightarrow> k | None \<Rightarrow> 0)"

definition presence :: "string \<Rightarrow> Node \<Rightarrow> bool \<times> bool \<times> timestamp" where
  "presence fp n =
     (let held = count_of (nd_collecting n) fp
      in (0 < held, 0 < held \<and> count_of (nd_collecting_tunnelled n) fp = held, nd_seen n fp))"

section \<open>Running the operations\<close>

lemma run_node_primitives [simp]:
  "run_state (asks_node f) n = (f n, n)"
  "run_state (modify_node g) n = ((), g n)"
  "run_state (in_engine h) n = (fst (run_state h (nd_engine n)), n\<lparr>nd_engine := snd (run_state h (nd_engine n))\<rparr>)"
  by (simp_all add: asks_node_def modify_node_def in_engine_def split: prod.split)

lemma run_unit: "run_state f s = ((), snd (run_state f s))" for f :: "('s, unit) state"
  by (simp add: prod_eq_iff)

text \<open>Deciding who calls touches nothing but the record of when a peer spoke and the clock.\<close>

definition ticked :: "Engine \<Rightarrow> Engine" where
  "ticked e = e\<lparr>e_clock := rest_of (e_clock e)\<rparr>"

lemma ticked_sel [simp]:
  "e_vault (ticked e) = e_vault e" "e_policy (ticked e) = e_policy e" "e_identity (ticked e) = e_identity e"
  "e_handlers (ticked e) = e_handlers e" "e_audit (ticked e) = e_audit e" "e_has_audit (ticked e) = e_has_audit e"
  "e_saves (ticked e) = e_saves e" "e_appends (ticked e) = e_appends e" "e_softLocked (ticked e) = e_softLocked e"
  by (simp_all add: ticked_def)

lemma run_now_n [simp]: "run_state now_n n = (e_clock (nd_engine n) 0, n\<lparr>nd_engine := ticked (nd_engine n)\<rparr>)"
  by (simp add: now_n_def ticked_def)

lemma run_saw:
  "run_state (saw fp) n = ((), n\<lparr>nd_engine := ticked (nd_engine n),
     nd_seen := (nd_seen n)(fp \<mapsto> e_clock (nd_engine n) 0)\<rparr>)"
  by (simp add: saw_def)

lemma authorize_Inr:
  assumes "run_state (authorize V peer) n = (Inr (p, record), n')"
  shows "peer = Some p" "Peer (nv_fold V) (pi_fingerprint p) (nd_vault n) = Some record" "tr_may_request record"
    "n' = n\<lparr>nd_engine := ticked (nd_engine n), nd_seen := (nd_seen n)(pi_fingerprint p \<mapsto> e_clock (nd_engine n) 0)\<rparr>"
  using assms
  by (auto simp: authorize_def find_peer_def run_saw split: option.splits sum.splits if_splits)

lemma publisherFor_Inr:
  assumes "run_state (publisherFor V peer) n = (Inr (p, record), n')"
  shows "peer = Some p" "Peer (nv_fold V) (pi_fingerprint p) (nd_vault n) = Some record" "tr_may_approve record"
    "n' = n\<lparr>nd_engine := ticked (nd_engine n), nd_seen := (nd_seen n)(pi_fingerprint p \<mapsto> e_clock (nd_engine n) 0)\<rparr>"
  using assms
  by (auto simp: publisherFor_def find_peer_def run_saw split: option.splits sum.splits if_splits)

lemma authorize_Inl: "run_state (authorize V peer) n = (Inl e, n') \<Longrightarrow> n' = n"
  by (auto simp: authorize_def find_peer_def run_saw split: option.splits sum.splits if_splits)

lemma publisherFor_Inl: "run_state (publisherFor V peer) n = (Inl e, n') \<Longrightarrow> n' = n"
  by (auto simp: publisherFor_def find_peer_def run_saw split: option.splits sum.splits if_splits)

section \<open>Slots\<close>

text \<open>
  The calls of all peers interleave. A state is the counter and the fingerprints of the calls that
  hold a slot; a call either takes one or is turned away, and gives it back when it ends.
\<close>

inductive slot_step :: "(string \<rightharpoonup> int) \<times> string list \<Rightarrow> (string \<rightharpoonup> int) \<times> string list \<Rightarrow> bool" where
  enter: "acquire fp c = (True, c') \<Longrightarrow> slot_step (c, calls) (c', fp # calls)"
| turned_away: "acquire fp c = (False, c') \<Longrightarrow> slot_step (c, calls) (c', calls)"
| leave: "fp \<in> set calls \<Longrightarrow> slot_step (c, calls) (release fp c, remove1 fp calls)"

inductive_cases slot_stepE: "slot_step (c, calls) (c', calls')"

definition entry_for :: "nat \<Rightarrow> int option" where
  "entry_for k = (if k = 0 then None else Some (int k))"

definition slots_ok :: "(string \<rightharpoonup> int) \<times> string list \<Rightarrow> bool" where
  "slots_ok s \<longleftrightarrow> (\<forall>fp. fst s fp = entry_for (count_list (snd s) fp) \<and>
     int (count_list (snd s) fp) \<le> maxDecisionsPerPeer)"

lemma entry_for_count: "(case entry_for k of Some k \<Rightarrow> k | None \<Rightarrow> 0) = int k"
  by (simp add: entry_for_def)

lemma count_list_remove1: "count_list (remove1 x xs) y = (if x = y then count_list xs y - 1 else count_list xs y)"
  by (induction xs) (auto simp: neq_Nil_conv count_list_0_iff intro: Suc_pred split: list.splits)

lemma slots_ok_step:
  assumes "slot_step s s'" "slots_ok s"
  shows "slots_ok s'"
  using assms
proof (cases rule: slot_step.cases)
  case (enter fp c c' calls)
  have c: "c = (\<lambda>x. entry_for (count_list calls x))" and b: "\<And>x. int (count_list calls x) \<le> maxDecisionsPerPeer"
    using assms(2) enter by (auto simp: slots_ok_def)
  from enter have "c' = c(fp \<mapsto> int (count_list calls fp) + 1)" "int (count_list calls fp) < maxDecisionsPerPeer"
    by (auto simp: acquire_def Let_def c entry_for_count split: if_splits)
  then show ?thesis using b unfolding enter slots_ok_def by (auto simp: c) (simp add: entry_for_def)
next
  case (turned_away fp c c' calls)
  then show ?thesis using assms(2) by (auto simp: acquire_def Let_def split: if_splits)
next
  case (leave fp calls c)
  have c: "c = (\<lambda>x. entry_for (count_list calls x))" and b: "\<And>x. int (count_list calls x) \<le> maxDecisionsPerPeer"
    using assms(2) leave by (auto simp: slots_ok_def)
  have "0 < count_list calls fp"
    using leave(3) count_list_0_iff [of calls fp] by (cases "count_list calls fp") auto
  then have "release fp c = (\<lambda>x. entry_for (count_list (remove1 fp calls) x))"
    by (auto simp: release_def Let_def c entry_for_count count_list_remove1 fun_eq_iff) (auto simp: entry_for_def)
  moreover have "int (count_list (remove1 fp calls) x) \<le> maxDecisionsPerPeer" for x
    using b [of x] by (auto simp: count_list_remove1)
  ultimately show ?thesis unfolding leave slots_ok_def by simp
qed

lemma slots_reachable: "slot_step\<^sup>*\<^sup>* (Map.empty, []) s \<Longrightarrow> slots_ok s"
proof (induction rule: rtranclp_induct)
  case base
  show ?case by (simp add: slots_ok_def entry_for_def maxDecisionsPerPeer_def)
next
  case (step y z)
  then show ?case by (blast intro: slots_ok_step)
qed

section \<open>Properties\<close>

text \<open>
  C8: However the calls of the peers interleave, no peer ever has more than sixteen decisions pending,
  the counter says exactly how many it has, and one that has none has no entry.
\<close>

theorem peer_slots_bounded:
  assumes "slot_step\<^sup>*\<^sup>* (Map.empty, []) (c, calls)"
  shows "int (count_list calls fp) \<le> 16 \<and> count_of c fp = int (count_list calls fp) \<and>
    (c fp = None \<longleftrightarrow> fp \<notin> set calls)"
  using slots_reachable [OF assms]
  by (auto simp: slots_ok_def maxDecisionsPerPeer_def count_of_def entry_for_def count_list_0_iff)

theorem peer_slots_bounded_witness:
  "slot_step\<^sup>*\<^sup>* (Map.empty, []) ([''a'' \<mapsto> 1], [''a'']) \<and> count_of [''a'' \<mapsto> 1] ''a'' = int (count_list [''a''] ''a'')"
proof -
  have s: "slot_step\<^sup>*\<^sup>* (Map.empty, []) ([''a'' \<mapsto> 1], [''a''])"
    by (rule r_into_rtranclp) (rule slot_step.enter, simp add: acquire_def maxDecisionsPerPeer_def)
  from peer_slots_bounded [OF this, of "''a''"] s show ?thesis by blast
qed

text \<open>
  C9: A call is authorized by the identity the channel proved. Where no paired peer is called by the
  caller's fingerprint, the record a call is authorized under is one for exactly that identity, which
  may ask this instance; an identity with no record of its own is turned away.
\<close>

theorem authorized_by_identity:
  assumes "\<forall>r \<in> set (peers_of (nd_vault n)). \<not> nv_fold V (tr_name r) (pi_fingerprint p)"
  shows "case fst (run_state (authorize V (Some p)) n) of
      Inr (p', r) \<Rightarrow> p' = p \<and> r \<in> set (peers_of (nd_vault n)) \<and> tr_fingerprint r = pi_fingerprint p \<and> tr_may_request r
    | Inl e \<Rightarrow> list_all (\<lambda>r. tr_fingerprint r \<noteq> pi_fingerprint p) (peers_of (nd_vault n)) \<or>
        list_ex (\<lambda>r. tr_fingerprint r = pi_fingerprint p \<and> \<not> tr_may_request r) (peers_of (nd_vault n))"
proof (cases "Peer (nv_fold V) (pi_fingerprint p) (nd_vault n)")
  case None
  then have "fst (run_state (authorize V (Some p)) n) = Inl (Rpc CodePermissionDenied (NotAPeer (pi_fingerprint p)))"
    by (simp add: authorize_def find_peer_def)
  moreover have "list_all (\<lambda>r. tr_fingerprint r \<noteq> pi_fingerprint p) (peers_of (nd_vault n))"
    using None by (auto simp: Peer_def find_None_iff MatchesRef_def list_all_iff)
  ultimately show ?thesis by simp
next
  case (Some r)
  then have r: "r \<in> set (peers_of (nd_vault n))" "tr_fingerprint r = pi_fingerprint p"
    using find_SomeD [of _ "peers_of (nd_vault n)" r] assms by (auto simp: Peer_def MatchesRef_def)
  then show ?thesis using Some by (auto simp: authorize_def find_peer_def run_saw list_ex_iff)
qed

definition one_peer :: "string \<Rightarrow> string \<Rightarrow> Node" where
  "one_peer fp name = \<lparr>nd_engine = demo_engine\<lparr>e_vault := empty_vault\<lparr>v_doc := empty_document\<lparr>sd_peers :=
       [empty_record\<lparr>tr_fingerprint := fp, tr_name := name, tr_may_request := True\<rparr>]\<rparr>\<rparr>\<rparr>,
     nd_count = Map.empty, nd_seen = Map.empty, nd_collecting = Map.empty, nd_collecting_tunnelled = Map.empty\<rparr>"

lemma one_peer_peers:
  "peers_of (nd_vault (one_peer fp name)) = [empty_record\<lparr>tr_fingerprint := fp, tr_name := name, tr_may_request := True\<rparr>]"
  by (simp add: one_peer_def)

definition plain_env :: "unit node_env" where
  "plain_env = \<lparr>nv_env = demo_env, nv_quote = id, nv_fold = (=),
     nv_request = \<lparr>pc_marshal = (\<lambda>_. Inr ''R''), pc_unmarshal = (\<lambda>_. Inl ''no'')\<rparr>,
     nv_retraction = \<lparr>pc_marshal = (\<lambda>_. Inr ''T''), pc_unmarshal = (\<lambda>_. Inl ''no'')\<rparr>, nv_keys = None,
     nv_hw = \<lparr>hl_parse = (\<lambda>_. Inr toy_key), hl_p256 = (\<lambda>_. False), hl_wrap = (\<lambda>_. Inr toy_signer)\<rparr>,
     nv_hardware = None, nv_gate = None, nv_endorsements = True, nv_delegations = True, nv_headless = False\<rparr>"

definition caller_F :: peer_identity where
  "caller_F = \<lparr>pi_fingerprint = ''F'', pi_remote_addr = [], pi_tunnelled = False\<rparr>"

theorem authorized_by_identity_witness:
  "case fst (run_state (authorize plain_env (Some caller_F)) (one_peer ''F'' ''box'')) of
     Inr (p', r) \<Rightarrow> tr_fingerprint r = ''F'' | Inl e \<Rightarrow> False"
proof -
  have "\<forall>r \<in> set (peers_of (nd_vault (one_peer ''F'' ''box''))). \<not> nv_fold plain_env (tr_name r) (pi_fingerprint caller_F)"
    by (simp add: one_peer_peers plain_env_def caller_F_def)
  from authorized_by_identity [OF this] show ?thesis
    by (auto simp: one_peer_peers caller_F_def split: sum.splits)
qed

text \<open>
  The hypothesis is needed: a name is the peer's own word, given when it paired, and looking a record up
  also goes by name. An identity that was never paired is authorized as the peer called by its fingerprint.
\<close>

lemma authorized_by_name:
  "fst (run_state (authorize plain_env (Some caller_F)) (one_peer ''G'' ''F'')) =
     Inr (caller_F, empty_record\<lparr>tr_fingerprint := ''G'', tr_name := ''F'', tr_may_request := True\<rparr>)"
  by (simp add: authorize_def find_peer_def Peer_def one_peer_peers MatchesRef_def plain_env_def caller_F_def run_saw)

end
