(* ===== verification/Engine_Answers.thy ===== *)
theory Engine_Answers
  imports Engine_Safety
begin

text \<open>
  What the answer to a submitted request says of itself - it names the request, digests the bytes it was
  submitted as and is the body of the artifact beside it - and a request that an approving rule covers
  is answered with a yes, whoever is at a screen.
\<close>

section \<open>What an answer names\<close>

lemma completed_names:
  "rs_request_id (fst (run_state (completed X msg b r) e)) = ar_request_id msg"
  "rs_request_digest (fst (run_state (completed X msg b r) e)) = Digest (x_ssh X) b"
  by (auto simp: completed_def Let_def)

lemma filled_in_id:
  "ar_request_id msg \<noteq> [] \<Longrightarrow> ar_request_id (fst (run_state (filled_in msg) e)) = ar_request_id msg"
  by (simp add: filled_in_def)

lemma submit_names:
  assumes "run_state (submit X (Some msg0) (Some body) origin evs shown) e = (Some (Inr (resp, art)), e')"
    and "ar_request_id msg0 \<noteq> []"
  shows "rs_request_id resp = ar_request_id msg0" "rs_request_digest resp = Digest (x_ssh X) body"
    "\<And>a. art = Some a \<Longrightarrow> SignApproval (x_ssh X) (x_response X) (e_identity e) (Some resp) = Inr a"
proof -
  let ?V = "VerifyRequest (x_ssh X) (x_say X) (x_fallback X)"
  obtain msg1 e0 where f: "run_state (filled_in msg0) e = (msg1, e0)" by fastforce
  obtain msg p where V1: "?V msg1 = (msg, p)" by fastforce
  have i: "ar_request_id msg = ar_request_id msg0"
    using VerifyRequest_keeps(4) [of "x_ssh X" "x_say X" "x_fallback X" msg1] V1 filled_in_id [OF assms(2), of e] f by simp
  from assms(1) f V1 obtain display where display: "x_request X msg = Inr display"
    by (auto simp: submit_def split: sum.splits)
  obtain e1 where e1: "run_state (logEntry ((entry_of AUDIT_EVENT_REQUEST (ar_request_id msg))
      \<lparr>ae_request := Some msg\<rparr>)) e0 = ((), e1)"
    by (metis old.unit.exhaust prod.exhaust)
  obtain req ans e2 where d: "run_state (decide X (request_for X (e_policy e0) msg body display origin)
      (e_policy e0) p evs) e1 = ((req, ans), e2)"
    by (metis prod.exhaust)
  from assms(1) f V1 display e1 d obtain answer remote where ans: "ans = Some (answer, remote)"
    by (auto simp: submit_def Let_def split: option.splits)
  obtain resp1 e3 where c: "run_state (completed X msg body answer) e2 = (resp1, e3)" by fastforce
  have id3: "e_identity e3 = e_identity e"
  proof -
    have "later e e1"
      using later_trans [OF filled_in_later [of e msg0, unfolded f snd_conv]] logEntry_later [of e0] e1 by (metis snd_conv)
    moreover have "same_config e1 e2" using frameD [OF config.frame_decide] d by (metis snd_conv)
    moreover have "e_identity e3 = e_identity e2" using c by (auto simp: completed_def Let_def split: if_splits)
    ultimately show ?thesis by (simp add: same_config_def later_grounds(7))
  qed
  have "rs_request_id resp = ar_request_id msg \<and> rs_request_digest resp = Digest (x_ssh X) body \<and>
      (\<forall>a. art = Some a \<longrightarrow> SignApproval (x_ssh X) (x_response X) (e_identity e) (Some resp) = Inr a)"
  proof (cases "SignApproval (x_ssh X) (x_response X) (e_identity e3) (Some resp1)")
    case (Inr a)
    then have "resp = resp1" "art = Some a"
      using assms(1) f V1 display e1 d ans c by (auto simp: submit_def Let_def split: prod.splits)
    then show ?thesis using Inr id3 completed_names [of X msg body answer e2] c by simp
  next
    case (Inl err)
    have "fst (run_state (completed X msg body (deny DECISION_SOURCE_ERROR unsigned_text)) e3) = resp" "art = None"
      using assms(1) f V1 display e1 d ans c Inl by (auto simp: submit_def Let_def split: prod.splits)
    then show ?thesis using completed_names [of X msg body "deny DECISION_SOURCE_ERROR unsigned_text" e3] by simp
  qed
  then show "rs_request_id resp = ar_request_id msg0" "rs_request_digest resp = Digest (x_ssh X) body"
    "\<And>a. art = Some a \<Longrightarrow> SignApproval (x_ssh X) (x_response X) (e_identity e) (Some resp) = Inr a"
    using i by auto
qed

section \<open>A rule that approves\<close>

text \<open>What a rule has to settle: nothing bars the request, nothing forces a prompt, and the policy approves.\<close>

definition rule_settles :: "env \<Rightarrow> policy_document \<Rightarrow> Origin \<Rightarrow> approval_request \<Rightarrow> bool" where
  "rule_settles X policy origin msg \<longleftrightarrow>
     (let (msg', problem) = VerifyRequest (x_ssh X) (x_say X) (x_fallback X) msg
      in ar_kind msg \<noteq> REQUEST_KIND_OPAQUE_SIGN \<and> problem = [] \<and> \<not> ar_grant_only msg \<and> must_prompt msg = [] \<and>
         ev_action (Evaluate (x_lower X) policy msg') = ACTION_APPROVE)"

lemma same_after_quietly: "snd (run_state (quietly req r) e) = e\<lparr>e_notified := e_notified (snd (run_state (quietly req r) e))\<rparr>"
  by (simp add: quietly_def notify_response_def)

lemma decide_by_rule:
  assumes "ar_kind (rq_msg req) \<noteq> REQUEST_KIND_OPAQUE_SIGN" "\<not> ar_grant_only (rq_msg req)" "must_prompt (rq_msg req) = []"
    "ev_action (Evaluate (x_lower X) policy (rq_msg req)) = ACTION_APPROVE"
  shows "\<exists>r e'. run_state (decide X req policy [] evs) e = ((req, Some (r, None)), e') \<and> approved r \<and>
    rs_approver r = None \<and> rs_decided_at r = None \<and> e_vault e' = e_vault e \<and> e_identity e' = e_identity e"
proof (cases "parkedBySession e req")
  case True
  with assms show ?thesis
    by (simp add: decide_def Let_def quietly_def notify_response_def approved_def)
next
  case False
  with assms show ?thesis
    by (simp add: decide_def Let_def quietly_def notify_response_def approved_def)
qed

lemma logEntry_vault: "e_vault (snd (run_state (logEntry z) e)) = e_vault e"
  "e_identity (snd (run_state (logEntry z) e)) = e_identity e" "e_policy (snd (run_state (logEntry z) e)) = e_policy e"
  by (simp_all add: logEntry_def)

lemma submit_by_rule:
  assumes "rule_settles X (e_policy e) origin msg" "ar_request_id msg \<noteq> []" "ar_created_at msg \<noteq> None"
    and "\<And>m. \<exists>d. x_request X m = Inr d" and "\<And>r. \<exists>a. SignApproval (x_ssh X) (x_response X) (e_identity e) (Some r) = Inr a"
  shows "\<exists>resp a e'. run_state (submit X (Some msg) body origin evs shown) e = (Some (Inr (resp, Some a)), e') \<and>
    rs_decision resp = DECISION_APPROVE \<and> e_vault e' = e_vault e"
proof -
  have f: "run_state (filled_in msg) e = (msg, e)" using assms(2,3) by (auto simp: filled_in_def)
  obtain m where v: "VerifyRequest (x_ssh X) (x_say X) (x_fallback X) msg = (m, [])"
    and s: "ar_kind msg \<noteq> REQUEST_KIND_OPAQUE_SIGN" "\<not> ar_grant_only msg" "must_prompt msg = []"
      "ev_action (Evaluate (x_lower X) (e_policy e) m) = ACTION_APPROVE"
    using assms(1) by (auto simp: rule_settles_def Let_def split: prod.splits)
  have k: "ar_kind m = ar_kind msg" "ar_grant_only m = ar_grant_only msg" "must_prompt m = must_prompt msg"
    using VerifyRequest_keeps [of "x_ssh X" "x_say X" "x_fallback X" msg] v by (simp_all add: must_prompt_def)
  obtain d where d: "x_request X m = Inr d" using assms(4) by blast
  define b where "b = (case body of None \<Rightarrow> d | Some given_body \<Rightarrow> given_body)"
  obtain e1 where l: "run_state (logEntry ((entry_of AUDIT_EVENT_REQUEST (ar_request_id m))\<lparr>ae_request := Some m\<rparr>)) e = ((), e1)"
    by (metis old.unit.exhaust prod.exhaust)
  have e1: "e_vault e1 = e_vault e" "e_identity e1 = e_identity e"
    using logEntry_vault [of _ e] l by (metis snd_conv)+
  let ?req = "request_for X (e_policy e) m b d origin"
  have "rq_msg ?req = m" by (simp add: request_for_def Let_def)
  with s k decide_by_rule [of ?req X "e_policy e" evs e1] obtain r e2 where
    r: "run_state (decide X ?req (e_policy e) [] evs) e1 = ((?req, Some (r, None)), e2)" "approved r"
      "e_vault e2 = e_vault e1" "e_identity e2 = e_identity e1" by auto
  obtain r1 e3 where c: "run_state (completed X m b r) e2 = (r1, e3)" by fastforce
  have e3: "e_vault e3 = e_vault e2" "e_identity e3 = e_identity e2"
    using c by (auto simp: completed_def Let_def split: if_splits)
  obtain a where a: "SignApproval (x_ssh X) (x_response X) (e_identity e3) (Some r1) = Inr a"
    using assms(5) e1 r e3 by (metis)
  have "rs_decision r1 = DECISION_APPROVE"
    using completed_decision(1) [of X m b r e2] c r(2) by (simp add: approved_def)
  then show ?thesis
    using f v d l r c a e1 e3
    by (auto simp: submit_def b_def [symmetric] Let_def split: prod.splits) (metis logEntry_vault(1) snd_conv)
qed

text \<open>The answer a rule gives to a peer's request, on a clock that stands still.\<close>

definition rule_response :: "env \<Rightarrow> Identity \<Rightarrow> policy_document \<Rightarrow> approval_request \<Rightarrow> bytes \<Rightarrow> time \<Rightarrow> approval_response" where
  "rule_response X ident policy msg body t =
     (let ev = Evaluate (x_lower X) policy (fst (VerifyRequest (x_ssh X) (x_say X) (x_fallback X) msg))
      in (approve DECISION_SOURCE_POLICY (ev_rule ev))\<lparr>rs_notify_only := ev_notify ev, rs_request_id := ar_request_id msg,
        rs_request_digest := Digest (x_ssh X) body, rs_approver := Some (ApproverInfo (x_ssh X) ident True),
        rs_decided_at := Some t\<rparr>)"

lemma still_clock: "e_clock e = (\<lambda>_. t) \<Longrightarrow> e_clock (snd (run_state (logEntry z) e)) = (\<lambda>_. t)"
  by (auto simp: logEntry_def)

lemma submit_rule_response:
  assumes "rule_settles X (e_policy e) origin msg" "ar_request_id msg \<noteq> []" "ar_created_at msg \<noteq> None" "origin \<noteq> OriginLocal"
    and "\<And>m. \<exists>d. x_request X m = Inr d" "e_clock e = (\<lambda>_. t)"
    and "SignApproval (x_ssh X) (x_response X) (e_identity e) (Some (rule_response X (e_identity e) (e_policy e) msg body t)) = Inr a"
  shows "\<exists>e'. run_state (submit X (Some msg) (Some body) origin evs shown) e =
    (Some (Inr (rule_response X (e_identity e) (e_policy e) msg body t, Some a)), e') \<and> e_vault e' = e_vault e"
proof -
  have f: "run_state (filled_in msg) e = (msg, e)" using assms(2,3) by (auto simp: filled_in_def)
  obtain m where v: "VerifyRequest (x_ssh X) (x_say X) (x_fallback X) msg = (m, [])"
    and s: "ar_kind msg \<noteq> REQUEST_KIND_OPAQUE_SIGN" "\<not> ar_grant_only msg" "must_prompt msg = []"
      "ev_action (Evaluate (x_lower X) (e_policy e) m) = ACTION_APPROVE"
    using assms(1) by (auto simp: rule_settles_def Let_def split: prod.splits)
  have k: "ar_kind m = ar_kind msg" "ar_grant_only m = ar_grant_only msg" "must_prompt m = must_prompt msg"
    "ar_request_id m = ar_request_id msg" "ar_local_key m = ar_local_key msg"
    using VerifyRequest_keeps [of "x_ssh X" "x_say X" "x_fallback X" msg] v by (simp_all add: must_prompt_def)
  obtain d where d: "x_request X m = Inr d" using assms(5) by blast
  define e1 where "e1 = snd (run_state (logEntry ((entry_of AUDIT_EVENT_REQUEST (ar_request_id m))\<lparr>ae_request := Some m\<rparr>)) e)"
  have l: "run_state (logEntry ((entry_of AUDIT_EVENT_REQUEST (ar_request_id m))\<lparr>ae_request := Some m\<rparr>)) e = ((), e1)"
    by (simp add: e1_def prod_eq_iff)
  have e1: "e_vault e1 = e_vault e" "e_identity e1 = e_identity e" "e_clock e1 = (\<lambda>_. t)"
    by (simp_all add: e1_def logEntry_vault still_clock assms(6))
  let ?req = "request_for X (e_policy e) m body d origin"
  let ?ev = "Evaluate (x_lower X) (e_policy e) m"
  let ?r = "(approve DECISION_SOURCE_POLICY (ev_rule ?ev))\<lparr>rs_notify_only := ev_notify ?ev\<rparr>"
  have "rq_msg ?req = m" "rq_origin ?req = origin" by (simp_all add: request_for_def Let_def)
  then have "\<not> parkedBySession e1 ?req" using assms(4) by (simp add: parkedBySession_def split: option.split)
  define e2 where "e2 = snd (run_state (quietly ?req ?r) e1)"
  have q: "run_state (quietly ?req ?r) e1 = (?r, e2)" by (simp add: e2_def quietly_def split: prod.split)
  have e2: "e_vault e2 = e_vault e" "e_identity e2 = e_identity e" "e_clock e2 = (\<lambda>_. t)"
    using e1 by (simp_all add: e2_def quietly_def notify_response_def)
  have r: "run_state (decide X ?req (e_policy e) [] evs) e1 = ((?req, Some (?r, None)), e2)"
    using s k \<open>rq_msg ?req = m\<close> \<open>\<not> parkedBySession e1 ?req\<close> q by (simp add: decide_def Let_def)
  let ?r1 = "rule_response X (e_identity e) (e_policy e) msg body t"
  define e3 where "e3 = e2\<lparr>e_clock := rest_of (e_clock e2)\<rparr>"
  have c: "run_state (completed X m body ?r) e2 = (?r1, e3)"
    using e2 k v by (simp add: completed_def rule_response_def e3_def Let_def)
  have e3: "e_vault e3 = e_vault e" "e_identity e3 = e_identity e" using e2 by (simp_all add: e3_def)
  show ?thesis
    using f v d l r c assms(7) e3
    by (auto simp: submit_def Let_def split: prod.splits) (metis logEntry_vault(1) snd_conv)
qed

section \<open>Properties\<close>

text \<open>
  C7: A rule answers by itself. When the policy approves a request that nothing bars and nothing forces a
  prompt for, submitting it returns a signed approval whatever the approvers do - also when none of
  them ever answers - and leaves the store as it was.
\<close>

theorem rule_answers:
  assumes "rule_settles X (e_policy e) origin msg" and "ar_request_id msg \<noteq> []" and "ar_created_at msg \<noteq> None"
    and "\<And>m. \<exists>d. x_request X m = Inr d" and "\<And>r. \<exists>a. SignApproval (x_ssh X) (x_response X) (e_identity e) (Some r) = Inr a"
  shows "\<exists>resp a e'. run_state (submit X (Some msg) body origin evs shown) e = (Some (Inr (resp, Some a)), e') \<and>
    rs_decision resp = DECISION_APPROVE \<and> e_vault e' = e_vault e"
  by (rule submit_by_rule [OF assms])

definition open_policy :: policy_document where
  "open_policy = demo_policy\<lparr>pd_rules := [\<lparr>ru_name = [], ru_description = [], ru_match = None, ru_action = ACTION_APPROVE,
     ru_notify = None\<rparr>]\<rparr>"

lemma open_approves: "ev_action (Evaluate ul open_policy msg) = ACTION_APPROVE"
  by (simp add: Evaluate_def open_policy_def matches_def empty_match_def)

theorem rule_answers_witness:
  "\<exists>resp a e'. run_state (submit demo_env (Some demo_request) None OriginLocal [] None) (demo_engine\<lparr>e_policy := open_policy\<rparr>) =
     (Some (Inr (resp, Some a)), e') \<and> rs_decision resp = DECISION_APPROVE"
proof -
  let ?e = "demo_engine\<lparr>e_policy := open_policy\<rparr>"
  have v: "VerifyRequest L say fb demo_request = (demo_request, [])" for L say fb
    by (simp add: VerifyRequest_def demo_request_def empty_request_def get_sshsig_def)
  have "rule_settles demo_env (e_policy ?e) OriginLocal demo_request"
    by (simp add: rule_settles_def v open_approves)
       (simp add: demo_request_def empty_request_def must_prompt_def get_ssh_auth_def)
  moreover have "ar_request_id demo_request \<noteq> []" "ar_created_at demo_request \<noteq> None"
    by (simp_all add: demo_request_def)
  moreover have "\<exists>d. x_request demo_env m = Inr d" for m by (simp add: demo_env_def)
  moreover have "e_identity ?e = toy_identity" by (simp add: demo_engine_def)
  ultimately show ?thesis using rule_answers [of demo_env ?e OriginLocal demo_request None "[]" None] demo_signs by auto
qed

end
