(* ===== verification/Peer_Sign.thy ===== *)
theory Peer_Sign
  imports Peer_Node Agent Engine_Answers
begin

text \<open>
  What an instance does for the peers it approves for: deciding their requests
  (\<^verbatim>\<open>src/pkg/peer/service.go\<close>) and signing with its own keys for them, the holder's half of
  \<^verbatim>\<open>src/pkg/peer/keys.go\<close>, with the endorsement a requester presents (\<^verbatim>\<open>endorsements.go\<close>).

  The answers of the approvers are the event list of the engine; a handler whose decision is still
  being waited for returns \<^const>\<open>None\<close>.
\<close>

section \<open>The bytes and what they are\<close>

definition blobFor :: "ssh_lib \<Rightarrow> bytes \<Rightarrow> bool \<Rightarrow> sshsig_request option \<Rightarrow> peer_error + bytes" where
  "blobFor L payload wrapSSHSIG sig =
     (if payload = [] then Inl NothingToSign
      else if \<not> wrapSSHSIG then Inr payload
      else (let namespace = getf ss_namespace [] sig
            in if namespace = [] then Inl NoNamespace
               else map_sum WrapFailed id (SigningBlobFor L namespace (getf ss_hash_algorithm [] sig) payload)))"

text \<open>The code writes the digest into the request, so the changed request comes back too.\<close>

definition signingBlob ::
    "ssh_lib \<Rightarrow> bytes \<Rightarrow> bool \<Rightarrow> approval_request \<Rightarrow> rpc_error + bytes \<times> approval_request" where
  "signingBlob L payload wrapSSHSIG msg =
     (case blobFor L payload wrapSSHSIG (get_sshsig msg) of
        Inl e \<Rightarrow> Inl (Rpc CodeInvalidArgument e)
      | Inr blob \<Rightarrow>
          (let digest = lib_sha256 L blob
           in if ar_payload_sha256 msg \<noteq> [] \<and> ar_payload_sha256 msg \<noteq> digest
              then Inl (Rpc CodeInvalidArgument OtherPayload)
              else Inr (blob, msg\<lparr>ar_payload_sha256 := digest\<rparr>)))"

definition rebuildSshsig :: "approval_request \<Rightarrow> sshsig_request \<Rightarrow> bytes \<Rightarrow> bool \<Rightarrow> approval_request" where
  "rebuildSshsig msg sig payload wrapSSHSIG =
     (let git = get_git_context msg;
          git' = (if ss_namespace sig \<noteq> GitNamespace then None
                  else if wrapSSHSIG
                  then Some ((case git of None \<Rightarrow> empty_git_context | Some g \<Rightarrow> g)\<lparr>gc_object := payload\<rparr>)
                  else git)
      in msg\<lparr>ar_operation := OpSshsig (sig\<lparr>ss_git_context := git'\<rparr>)\<rparr>)"

definition rebuildSSHAuth :: "approval_request \<Rightarrow> ssh_auth_request \<Rightarrow> rpc_error + approval_request" where
  "rebuildSSHAuth msg auth =
     (let claimed = get_ssh_auth msg
      in if getf sa_session_id [] claimed \<noteq> [] \<and> getf sa_session_id [] claimed \<noteq> sa_session_id auth
         then Inl (Rpc CodeInvalidArgument OtherLogin)
         else
           (let auth1 = auth\<lparr>sa_bound := getf sa_bound False claimed, sa_forwarded := getf sa_forwarded False claimed,
                  sa_binding_chain := getf sa_binding_chain [] claimed,
                  sa_forwarded_hops := getf sa_forwarded_hops 0 claimed,
                  sa_destination := getf sa_destination None claimed,
                  sa_destination_label := getf sa_destination_label [] claimed\<rparr>
            in case sa_payload_destination auth1 of
                None \<Rightarrow> Inr (msg\<lparr>ar_operation := OpSshAuth auth1\<rparr>)
              | Some payload \<Rightarrow>
                  (case getf sa_destination None claimed of
                     Some named \<Rightarrow>
                       if hk_fingerprint named \<noteq> hk_fingerprint payload
                       then Inl (Rpc CodeInvalidArgument OtherDestination)
                       else Inr (msg\<lparr>ar_operation := OpSshAuth auth1\<rparr>)
                   | None \<Rightarrow>
                       Inr (msg\<lparr>ar_operation := OpSshAuth (auth1\<lparr>sa_destination := Some payload,
                              sa_destination_label := hk_fingerprint payload\<rparr>)\<rparr>))))"

definition rebuildOperation ::
    "ssh_lib \<Rightarrow> (string \<Rightarrow> string) \<Rightarrow> approval_request \<Rightarrow> bytes \<Rightarrow> bool \<Rightarrow> rpc_error + approval_request" where
  "rebuildOperation L quote msg payload wrapSSHSIG =
     (case blobFor L payload wrapSSHSIG (get_sshsig msg) of
        Inl e \<Rightarrow> Inl (Rpc CodeInvalidArgument e)
      | Inr blob \<Rightarrow>
          (let class = Classify L quote blob; msg1 = msg\<lparr>ar_kind := cl_kind class\<rparr>
           in case cl_sshsig class of
               Some sig \<Rightarrow> Inr (rebuildSshsig msg1 sig payload wrapSSHSIG)
             | None \<Rightarrow>
                 (case cl_ssh_auth class of
                    Some auth \<Rightarrow> rebuildSSHAuth msg1 auth
                  | None \<Rightarrow>
                      Inr (msg1\<lparr>ar_operation := (case cl_opaque class of
                        Some op \<Rightarrow> OpOpaqueSign op | None \<Rightarrow> NoOperation)\<rparr>))))"

section \<open>The key\<close>

definition keysFor :: "'raw node_env \<Rightarrow> trust_record \<Rightarrow> vault \<Rightarrow> key_ref list" where
  "keysFor V record v =
     (case nv_keys V of
        None \<Rightarrow> []
      | Some _ \<Rightarrow> filter (\<lambda>ref. MayUseKey record (kr_fingerprint ref)) (KeyRefs v))"

definition ListKeys :: "'raw node_env \<Rightarrow> peer_identity option \<Rightarrow> (rpc_error + key_ref list) nd" where
  "ListKeys V peer = do {
     a \<leftarrow> authorize V peer;
     case a of
       Inl e \<Rightarrow> State_Monad.return (Inl e)
     | Inr (p, record) \<Rightarrow> do {
         v \<leftarrow> asks_node nd_vault;
         State_Monad.return (Inr (keysFor V record v))
       }
   }"

definition named_key :: "key_ref option \<Rightarrow> key_ref \<Rightarrow> bool" where
  "named_key named ref \<longleftrightarrow>
     (let blob = getf kr_public_key [] named; fingerprint = getf kr_fingerprint [] named
      in (blob \<noteq> [] \<and> kr_public_key ref = blob) \<or>
         (blob = [] \<and> fingerprint \<noteq> [] \<and> kr_fingerprint ref = fingerprint))"

definition borrowableKey :: "trust_record \<Rightarrow> key_ref option \<Rightarrow> vault \<Rightarrow> rpc_error + key_ref" where
  "borrowableKey record named v =
     (case find (named_key named) (KeyRefs v) of
        Some ref \<Rightarrow>
          if \<not> MayUseKey record (kr_fingerprint ref)
          then Inl (Rpc CodePermissionDenied (MayNotSignWith (tr_name record) (kr_label ref)))
          else Inr ref
      | None \<Rightarrow> Inl (Rpc CodeNotFound (NoKeyInStore (getf kr_fingerprint [] named))))"

definition signBlob :: "ssh_signer \<Rightarrow> bytes \<Rightarrow> string \<Rightarrow> peer_error + ssh_signature" where
  "signBlob signer blob algorithm =
     (if algorithm = [] then map_sum SignBlobFailed id (SignBlob signer blob)
      else case sr_sign_with signer of
          None \<Rightarrow> Inl (CannotSignWith algorithm)
        | Some sign_with \<Rightarrow> map_sum (SignWithRefused algorithm) id (sign_with blob algorithm))"

section \<open>Signing for a peer\<close>

text \<open>The request as the holder reads it: its own account of the bytes, the key it resolved and who is asking.\<close>

definition rebuilt ::
    "'raw node_env \<Rightarrow> trust_record \<Rightarrow> requester_info \<Rightarrow> approval_request \<Rightarrow> bytes \<Rightarrow> bool \<Rightarrow> vault
       \<Rightarrow> rpc_error + key_ref \<times> bytes \<times> approval_request" where
  "rebuilt V record requester msg payload wrapSSHSIG v =
     (let L = x_ssh (nv_env V)
      in case borrowableKey record (ar_key msg) v of
          Inl e \<Rightarrow> Inl e
        | Inr ref \<Rightarrow>
            (case signingBlob L payload wrapSSHSIG msg of
               Inl e \<Rightarrow> Inl e
             | Inr (blob, msg1) \<Rightarrow>
                 (case rebuildOperation L (nv_quote V) msg1 payload wrapSSHSIG of
                    Inl e \<Rightarrow> Inl e
                  | Inr msg2 \<Rightarrow> Inr (ref, blob, msg2\<lparr>ar_key := Some ref, ar_requester := Some requester\<rparr>))))"

definition signForPeer ::
    "'raw node_env \<Rightarrow> trust_record \<Rightarrow> requester_info \<Rightarrow> approval_request \<Rightarrow> bytes \<Rightarrow> bytes \<Rightarrow> bool \<Rightarrow>
     event list \<Rightarrow> presented_project option \<Rightarrow> (rpc_error + signed_artifact option \<times> bytes) option nd" where
  "signForPeer V record requester msg body payload wrapSSHSIG evs shown =
     (case nv_keys V of
        None \<Rightarrow> State_Monad.return (Some (Inl (Rpc CodeUnimplemented NoKeysHere)))
      | Some keys \<Rightarrow> do {
          v \<leftarrow> asks_node nd_vault;
          (case rebuilt V record requester msg payload wrapSSHSIG v of
             Inl e \<Rightarrow> State_Monad.return (Some (Inl e))
           | Inr (ref, blob, msg') \<Rightarrow> do {
               answer \<leftarrow> in_engine (SubmitPeerSigning (nv_env V) (Some msg') (Some body) evs shown);
               (case answer of
                  None \<Rightarrow> State_Monad.return None
                | Some (Inl err) \<Rightarrow> State_Monad.return (Some (Inl (Rpc CodeInternal (DecideFailed err))))
                | Some (Inr (resp, artifact)) \<Rightarrow>
                    if rs_decision resp \<noteq> DECISION_APPROVE then State_Monad.return (Some (Inr (artifact, [])))
                    else do {
                      v' \<leftarrow> asks_node nd_vault;
                      (case Signer keys (nv_hw V) (nv_hardware V) (nv_gate V) (kr_fingerprint ref) v' of
                         Inl err \<Rightarrow> State_Monad.return (Some (Inl (Rpc CodeInternal (LoadKeyFailed err))))
                       | Inr (signer, _) \<Rightarrow>
                           (case signBlob signer blob (ar_signature_algorithm msg') of
                              Inl err \<Rightarrow> State_Monad.return (Some (Inl (Rpc CodeInternal err)))
                            | Inr signature \<Rightarrow> do {
                                in_engine (Signed msg' (Some ref));
                                State_Monad.return (Some (Inr (artifact,
                                  lib_marshal_signature (x_ssh (nv_env V)) signature)))
                              }))
                    })
             })
        })"

definition parseSignRequest :: "'raw node_env \<Rightarrow> bytes \<Rightarrow> rpc_error + approval_request" where
  "parseSignRequest V body =
     (if body = [] then Inl (Rpc CodeInvalidArgument RequestEmpty)
      else case pc_unmarshal (nv_request V) body of
          Inl e \<Rightarrow> Inl (Rpc CodeInvalidArgument (RequestUnparsed e))
        | Inr msg \<Rightarrow> Inr msg)"

text \<open>Who is asking, from the channel and the record; the process is the asking machine's word.\<close>

definition peer_requester :: "peer_identity \<Rightarrow> trust_record \<Rightarrow> approval_request \<Rightarrow> requester_info" where
  "peer_requester p record msg = \<lparr>ri_instance_id = pi_fingerprint p, ri_name = tr_name record, ri_local = False,
     ri_headless = getf ri_headless False (ar_requester msg), ri_remote_address = pi_remote_addr p,
     ri_process = requester_process msg\<rparr>"

definition keepEndorsement :: "signed_artifact \<Rightarrow> endorsement \<Rightarrow> bool \<Rightarrow> (vault_error + unit) nd" where
  "keepEndorsement artifact e published =
     in_engine (on_vault_at (\<lambda>sv now. AddEndorsement sv now artifact e published))"

definition acceptPresented :: "'raw node_env \<Rightarrow> string \<Rightarrow> signed_artifact option \<Rightarrow> unit nd" where
  "acceptPresented V peerFingerprint presented =
     (case presented of
        None \<Rightarrow> State_Monad.return ()
      | Some artifact \<Rightarrow>
          if \<not> nv_endorsements V then State_Monad.return ()
          else (case VerifyEndorsement (x_ssh (nv_env V)) (x_endorsement (nv_env V)) (Some artifact) of
                  Inl e \<Rightarrow> State_Monad.return ()
                | Inr e \<Rightarrow>
                    if en_requester_fingerprint e \<noteq> peerFingerprint then State_Monad.return ()
                    else do { _ \<leftarrow> keepEndorsement artifact e False; State_Monad.return () }))"

record RemoteSignRequest =
  sq_request :: bytes
  sq_payload :: bytes
  sq_wrap_sshsig :: bool
  sq_endorsement :: "signed_artifact option"

definition RemoteSign ::
    "'raw node_env \<Rightarrow> peer_identity option \<Rightarrow> RemoteSignRequest \<Rightarrow> event list \<Rightarrow> presented_project option \<Rightarrow>
     (rpc_error + RemoteSignResponse) option nd" where
  "RemoteSign V peer req evs shown = do {
     a \<leftarrow> authorize V peer;
     case a of
       Inl e \<Rightarrow> State_Monad.return (Some (Inl e))
     | Inr (p, record) \<Rightarrow> with_slot (pi_fingerprint p)
         (case parseSignRequest V (sq_request req) of
            Inl e \<Rightarrow> State_Monad.return (Some (Inl e))
          | Inr msg \<Rightarrow> do {
              acceptPresented V (pi_fingerprint p) (sq_endorsement req);
              r \<leftarrow> signForPeer V record (peer_requester p record msg) msg (sq_request req) (sq_payload req)
                     (sq_wrap_sshsig req) evs shown;
              State_Monad.return (map_option (map_sum id
                (\<lambda>(artifact, signature). \<lparr>rr_signature = signature, rr_approval = artifact\<rparr>)) r)
            })
   }"

section \<open>Deciding for a peer\<close>

datatype ApprovalEventKind = APPROVAL_EVENT_KIND_ACCEPTED | APPROVAL_EVENT_KIND_DECIDED

record ApprovalEvent =
  av_kind :: ApprovalEventKind
  av_timestamp :: timestamp
  av_approval :: "signed_artifact option"

text \<open>
  The answer is a stream: beside the result come the events that were sent. \<open>sends\<close> says whether each of
  the two sends fails.
\<close>

definition decide_for_peer ::
    "'raw node_env \<Rightarrow> peer_identity \<Rightarrow> trust_record \<Rightarrow> bytes \<Rightarrow> event list \<Rightarrow> presented_project option \<Rightarrow>
     string option \<times> string option \<Rightarrow> (rpc_error + ApprovalEvent list) option nd" where
  "decide_for_peer V p record body evs shown sends =
     (case parseSignRequest V body of
        Inl e \<Rightarrow> State_Monad.return (Some (Inl e))
      | Inr msg \<Rightarrow>
          if ar_kind msg = REQUEST_KIND_PAIRING
          then State_Monad.return (Some (Inl (Rpc CodePermissionDenied PairingNotThisWay)))
          else do {
            t1 \<leftarrow> now_n;
            (case fst sends of
               Some e \<Rightarrow> State_Monad.return (Some (Inl (PlainError (AcknowledgeFailed e))))
             | None \<Rightarrow> do {
                 answer \<leftarrow> in_engine (SubmitPeer (nv_env V)
                   (Some (msg\<lparr>ar_requester := Some (peer_requester p record msg)\<rparr>)) (Some body) evs shown);
                 (case answer of
                    None \<Rightarrow> State_Monad.return None
                  | Some (Inl err) \<Rightarrow> State_Monad.return (Some (Inl (Rpc CodeInternal (DecideFailed err))))
                  | Some (Inr (resp, artifact)) \<Rightarrow> do {
                      t2 \<leftarrow> now_n;
                      State_Monad.return (Some (case snd sends of
                         Some e \<Rightarrow> Inl (PlainError (SendFailed e))
                       | None \<Rightarrow> Inr
                          [\<lparr>av_kind = APPROVAL_EVENT_KIND_ACCEPTED, av_timestamp = Some t1, av_approval = None\<rparr>,
                           \<lparr>av_kind = APPROVAL_EVENT_KIND_DECIDED, av_timestamp = Some t2, av_approval = artifact\<rparr>]))
                    })
               })
          })"

definition RequestApproval ::
    "'raw node_env \<Rightarrow> peer_identity option \<Rightarrow> bytes \<Rightarrow> event list \<Rightarrow> presented_project option \<Rightarrow>
     string option \<times> string option \<Rightarrow> (rpc_error + ApprovalEvent list) option nd" where
  "RequestApproval V peer body evs shown sends = do {
     a \<leftarrow> authorize V peer;
     case a of
       Inl e \<Rightarrow> State_Monad.return (Some (Inl e))
     | Inr (p, record) \<Rightarrow> with_slot (pi_fingerprint p) (decide_for_peer V p record body evs shown sends)
   }"

definition CancelApproval :: "'raw node_env \<Rightarrow> peer_identity option \<Rightarrow> (rpc_error + unit) nd" where
  "CancelApproval V peer = do {
     a \<leftarrow> authorize V peer;
     State_Monad.return (map_sum id (\<lambda>_. ()) a)
   }"

definition canPrompt :: "Node \<Rightarrow> bool" where
  "canPrompt n = HasLocalApprover (nd_engine n)"

section \<open>What the holder's request says\<close>

text \<open>
  A request is true to the bytes when its digest, kind and operation are what those bytes parse to: a git
  object that was sent whole is the one shown, a signature outside git has none, and a login whose bytes
  carry the server's host key names that server.
\<close>

definition same_login :: "ssh_auth_request \<Rightarrow> ssh_auth_request \<Rightarrow> bool" where
  "same_login auth a \<longleftrightarrow> sa_username a = sa_username auth \<and> sa_service a = sa_service auth \<and>
     sa_method a = sa_method auth \<and> sa_session_id a = sa_session_id auth \<and>
     sa_payload_destination a = sa_payload_destination auth \<and>
     (case sa_payload_destination auth of
        None \<Rightarrow> True
      | Some h \<Rightarrow> map_option hk_fingerprint (sa_destination a) = Some (hk_fingerprint h))"

definition same_signature :: "bytes \<Rightarrow> bool \<Rightarrow> sshsig_request \<Rightarrow> sshsig_request \<Rightarrow> bool" where
  "same_signature payload wrapSSHSIG sig s \<longleftrightarrow> s\<lparr>ss_git_context := ss_git_context sig\<rparr> = sig \<and>
     (if ss_namespace sig \<noteq> GitNamespace then ss_git_context s = None
      else wrapSSHSIG \<longrightarrow> map_option gc_object (ss_git_context s) = Some payload)"

definition true_to :: "ssh_lib \<Rightarrow> (string \<Rightarrow> string) \<Rightarrow> bytes \<Rightarrow> bool \<Rightarrow> bytes \<Rightarrow> approval_request \<Rightarrow> bool" where
  "true_to L quote payload wrapSSHSIG blob msg \<longleftrightarrow>
     (let class = Classify L quote blob
      in ar_payload_sha256 msg = lib_sha256 L blob \<and> ar_kind msg = cl_kind class \<and>
         (case cl_sshsig class of
            Some sig \<Rightarrow> pred_option (same_signature payload wrapSSHSIG sig) (get_sshsig msg) \<and> get_sshsig msg \<noteq> None
          | None \<Rightarrow>
              (case cl_ssh_auth class of
                 Some auth \<Rightarrow> pred_option (same_login auth) (get_ssh_auth msg) \<and> get_ssh_auth msg \<noteq> None
               | None \<Rightarrow> True)))"

lemma rebuildSSHAuth_login:
  assumes "rebuildSSHAuth msg auth = Inr msg'"
  shows "ar_payload_sha256 msg' = ar_payload_sha256 msg" "ar_kind msg' = ar_kind msg"
    "\<exists>a. get_ssh_auth msg' = Some a \<and> same_login auth a"
  using assms
  by (auto simp: rebuildSSHAuth_def same_login_def get_ssh_auth_def Let_def split: if_splits option.splits)

lemma rebuildSshsig_fields:
  "ar_payload_sha256 (rebuildSshsig msg sig payload w) = ar_payload_sha256 msg"
  "ar_kind (rebuildSshsig msg sig payload w) = ar_kind msg"
  "get_sshsig (rebuildSshsig msg sig payload w) = Some (sig\<lparr>ss_git_context :=
     (if ss_namespace sig \<noteq> GitNamespace then None
      else if w then Some ((case get_git_context msg of None \<Rightarrow> empty_git_context | Some g \<Rightarrow> g)\<lparr>gc_object := payload\<rparr>)
      else get_git_context msg)\<rparr>)"
  by (simp_all add: rebuildSshsig_def get_sshsig_def Let_def)

lemma rebuildOperation_true:
  assumes "rebuildOperation L q msg payload w = Inr msg'" "blobFor L payload w (get_sshsig msg) = Inr blob"
    "ar_payload_sha256 msg = lib_sha256 L blob"
  shows "true_to L q payload w blob msg'"
proof (cases "cl_sshsig (Classify L q blob)")
  case (Some sig)
  with assms(1,2) have "msg' = rebuildSshsig (msg\<lparr>ar_kind := cl_kind (Classify L q blob)\<rparr>) sig payload w"
    by (simp add: rebuildOperation_def Let_def)
  then show ?thesis using Some assms(3)
    by (simp add: true_to_def Let_def rebuildSshsig_fields same_signature_def)
next
  case None
  note sig = this
  show ?thesis
  proof (cases "cl_ssh_auth (Classify L q blob)")
    case (Some auth)
    with sig assms(1,2) have "rebuildSSHAuth (msg\<lparr>ar_kind := cl_kind (Classify L q blob)\<rparr>) auth = Inr msg'"
      by (simp add: rebuildOperation_def Let_def)
    from rebuildSSHAuth_login [OF this] show ?thesis using sig Some assms(3) by (auto simp: true_to_def Let_def)
  next
    case None
    with sig assms show ?thesis by (auto simp: rebuildOperation_def true_to_def Let_def)
  qed
qed

lemma operation_kept [simp]:
  "get_sshsig (msg\<lparr>ar_key := k, ar_requester := r\<rparr>) = get_sshsig msg"
  "get_ssh_auth (msg\<lparr>ar_key := k, ar_requester := r\<rparr>) = get_ssh_auth msg"
  by (simp_all add: get_sshsig_def get_ssh_auth_def)

lemma rebuilt_true:
  assumes "rebuilt V rcd requester msg payload w v = Inr (ref, blob, msg')"
  shows "find (named_key (ar_key msg)) (KeyRefs v) = Some ref" "MayUseKey rcd (kr_fingerprint ref)"
    "blobFor (x_ssh (nv_env V)) payload w (get_sshsig msg) = Inr blob"
    "true_to (x_ssh (nv_env V)) (nv_quote V) payload w blob msg'"
    "ar_key msg' = Some ref" "ar_requester msg' = Some requester"
proof -
  obtain msg1 msg2 where b: "borrowableKey rcd (ar_key msg) v = Inr ref"
    and s: "signingBlob (x_ssh (nv_env V)) payload w msg = Inr (blob, msg1)"
    and r: "rebuildOperation (x_ssh (nv_env V)) (nv_quote V) msg1 payload w = Inr msg2"
    and m: "msg' = msg2\<lparr>ar_key := Some ref, ar_requester := Some requester\<rparr>"
    using assms by (auto simp: rebuilt_def Let_def split: sum.splits prod.splits)
  show "find (named_key (ar_key msg)) (KeyRefs v) = Some ref" "MayUseKey rcd (kr_fingerprint ref)"
    using b by (auto simp: borrowableKey_def split: option.splits if_splits)
  show blob: "blobFor (x_ssh (nv_env V)) payload w (get_sshsig msg) = Inr blob"
    using s by (auto simp: signingBlob_def Let_def split: sum.splits if_splits)
  have m1: "msg1 = msg\<lparr>ar_payload_sha256 := lib_sha256 (x_ssh (nv_env V)) blob\<rparr>"
    using s by (auto simp: signingBlob_def Let_def split: sum.splits if_splits)
  have "true_to (x_ssh (nv_env V)) (nv_quote V) payload w blob msg2"
    by (rule rebuildOperation_true [OF r]) (use blob in \<open>simp_all add: m1 get_sshsig_def\<close>)
  then show "true_to (x_ssh (nv_env V)) (nv_quote V) payload w blob msg'"
    unfolding m true_to_def operation_kept by simp
  show "ar_key msg' = Some ref" "ar_requester msg' = Some requester" by (simp_all add: m)
qed

lemma rebuilt_id:
  assumes "rebuilt V rcd requester msg payload w v = Inr (ref, blob, msg')"
  shows "ar_request_id msg' = ar_request_id msg"
  using assms
  by (auto simp: rebuilt_def signingBlob_def rebuildOperation_def rebuildSshsig_def rebuildSSHAuth_def Let_def
      split: sum.splits prod.splits option.splits if_splits)

section \<open>What a signature for a peer rests on\<close>

definition peer_backed :: "env \<Rightarrow> event list \<Rightarrow> Engine \<Rightarrow> approval_request \<Rightarrow> bool" where
  "peer_backed X evs e req \<longleftrightarrow>
     (let (req', problem) = VerifyRequest (x_ssh X) (x_say X) (x_fallback X) req
      in ar_kind req \<noteq> REQUEST_KIND_OPAQUE_SIGN \<and> problem = [] \<and>
         ev_action (Evaluate (x_lower X) (e_policy e) req') \<noteq> ACTION_DENY \<and>
         ((must_prompt req = [] \<and> stands_approved X e (e_policy e) OriginPeerSigning req') \<or>
          somebody_approved req evs))"

lemma signForPeer_cases:
  fixes V :: "'raw node_env"
  assumes "run_state (signForPeer V rcd requester msg body payload w evs shown) n = (Some (Inr (art, sig)), n')"
  obtains (refused) ref blob and msg' :: approval_request and resp where
      "rebuilt V rcd requester msg payload w (nd_vault n) = Inr (ref, blob, msg')"
      "fst (run_state (submit (nv_env V) (Some msg') (Some body) OriginPeerSigning evs shown) (nd_engine n)) =
         Some (Inr (resp, art))" "rs_decision resp \<noteq> DECISION_APPROVE" "sig = []"
  | (made) keys ref blob and msg' :: approval_request and resp e signer k s where
      "nv_keys V = Some keys" "rebuilt V rcd requester msg payload w (nd_vault n) = Inr (ref, blob, msg')"
      "run_state (submit (nv_env V) (Some msg') (Some body) OriginPeerSigning evs shown) (nd_engine n) =
         (Some (Inr (resp, art)), e)" "rs_decision resp = DECISION_APPROVE"
      "Signer keys (nv_hw V) (nv_hardware V) (nv_gate V) (kr_fingerprint ref) (e_vault e) = Inr (signer, k)"
      "signBlob signer blob (ar_signature_algorithm msg') = Inr s" "sig = lib_marshal_signature (x_ssh (nv_env V)) s"
      "n' = n\<lparr>nd_engine := snd (run_state (Signed msg' (Some ref)) e)\<rparr>"
proof (cases "nv_keys V")
  case None
  with assms show ?thesis by (simp add: signForPeer_def)
next
  case (Some keys)
  note k = this
  show ?thesis
  proof (cases "rebuilt V rcd requester msg payload w (nd_vault n)")
    case (Inl e)
    with assms k show ?thesis by (simp add: signForPeer_def)
  next
    case (Inr x)
    obtain ref blob and msg' :: approval_request where x: "x = (ref, blob, msg')" by (cases x) auto
    obtain answer e where s: "run_state (submit (nv_env V) (Some msg') (Some body) OriginPeerSigning evs shown)
        (nd_engine n) = (answer, e)" by fastforce
    have run: "run_state (SubmitPeerSigning (nv_env V) (Some msg') (Some body) evs shown) (nd_engine n) = (answer, e)"
      by (simp add: SubmitPeerSigning_def s)
    have d: "run_state (signForPeer V rcd requester msg body payload w evs shown) n = run_state
        (case answer of
           None \<Rightarrow> State_Monad.return None
         | Some (Inl err) \<Rightarrow> State_Monad.return (Some (Inl (Rpc CodeInternal (DecideFailed err))))
         | Some (Inr (resp, artifact)) \<Rightarrow>
             if rs_decision resp \<noteq> DECISION_APPROVE then State_Monad.return (Some (Inr (artifact, [])))
             else (case Signer keys (nv_hw V) (nv_hardware V) (nv_gate V) (kr_fingerprint ref) (e_vault e) of
                     Inl err \<Rightarrow> State_Monad.return (Some (Inl (Rpc CodeInternal (LoadKeyFailed err))))
                   | Inr (signer, _) \<Rightarrow>
                       (case signBlob signer blob (ar_signature_algorithm msg') of
                          Inl err \<Rightarrow> State_Monad.return (Some (Inl (Rpc CodeInternal err)))
                        | Inr signature \<Rightarrow> do {
                            in_engine (Signed msg' (Some ref));
                            State_Monad.return (Some (Inr (artifact,
                              lib_marshal_signature (x_ssh (nv_env V)) signature)))
                          }))) (n\<lparr>nd_engine := e\<rparr>)"
      by (simp add: signForPeer_def k Inr x run split: option.split sum.split prod.split)
    from assms [unfolded d] obtain resp where r: "answer = Some (Inr (resp, art))"
      by (auto split: option.splits sum.splits if_splits prod.splits)
    show ?thesis
    proof (cases "rs_decision resp = DECISION_APPROVE")
      case False
      with assms [unfolded d] r have "sig = []" by simp
      with False r s Inr x show ?thesis by (intro refused) auto
    next
      case True
      from assms [unfolded d] r True obtain signer k' sg where
        "Signer keys (nv_hw V) (nv_hardware V) (nv_gate V) (kr_fingerprint ref) (e_vault e) = Inr (signer, k')"
        "signBlob signer blob (ar_signature_algorithm msg') = Inr sg"
        "sig = lib_marshal_signature (x_ssh (nv_env V)) sg"
        "n' = n\<lparr>nd_engine := snd (run_state (Signed msg' (Some ref)) e)\<rparr>"
        by (auto split: sum.splits prod.splits)
      with True r s Inr x k show ?thesis by (intro made) auto
    qed
  qed
qed

lemma submit_peer_backed:
  assumes "run_state (submit X (Some req) body OriginPeerSigning evs shown) e = (Some (Inr (resp, art)), e')"
    "rs_decision resp = DECISION_APPROVE"
  shows "peer_backed X evs e req" "\<not> ar_grant_only req"
    "\<exists>a. art = Some a \<and> SignApproval (x_ssh X) (x_response X) (e_identity e) (Some resp) = Inr a"
proof -
  obtain req' problem where v: "VerifyRequest (x_ssh X) (x_say X) (x_fallback X) req = (req', problem)" by fastforce
  have "approved resp" using assms(2) by (simp add: approved_def)
  note g = submit_grounds [OF assms(1) this v]
  show "peer_backed X evs e req" "\<not> ar_grant_only req"
    "\<exists>a. art = Some a \<and> SignApproval (x_ssh X) (x_response X) (e_identity e) (Some resp) = Inr a"
    using g by (auto simp: peer_backed_def v)
qed

lemma with_slot_Some:
  assumes "run_state (with_slot fp work) n = (Some (Inr x), n')"
  obtains c n2 where "acquire fp (nd_count n) = (True, c)"
    "run_state work (n\<lparr>nd_count := c\<rparr>) = (Some (Inr x), n2)" "n' = n2\<lparr>nd_count := release fp (nd_count n2)\<rparr>"
proof -
  obtain ok c where a: "acquire fp (nd_count n) = (ok, c)" by fastforce
  obtain r n2 where w: "run_state work (n\<lparr>nd_count := c\<rparr>) = (r, n2)" by fastforce
  show ?thesis
    using assms that a w
    by (auto simp: with_slot_def take_slot_def free_slot_def split: if_splits option.splits)
qed

text \<open>
  What the engine decides on when a peer's request reaches it: the state after the caller was recorded,
  took its slot and its endorsement, if it is one about the caller, was kept.
\<close>

definition deciding_node ::
    "'raw node_env \<Rightarrow> peer_identity \<Rightarrow> RemoteSignRequest \<Rightarrow> Node \<Rightarrow> Node" where
  "deciding_node V p req n =
     (let n1 = n\<lparr>nd_engine := ticked (nd_engine n), nd_seen := (nd_seen n)(pi_fingerprint p \<mapsto> e_clock (nd_engine n) 0)\<rparr>;
          n2 = n1\<lparr>nd_count := snd (acquire (pi_fingerprint p) (nd_count n))\<rparr>
      in snd (run_state (acceptPresented V (pi_fingerprint p) (sq_endorsement req)) n2))"

lemma AddEndorsement_frame:
  "keys_of (fst (AddEndorsement sv now a e published v)) = keys_of v"
  "peers_of (fst (AddEndorsement sv now a e published v)) = peers_of v"
  by (simp_all add: AddEndorsement_def save_def with_endorsements_def Let_def split: option.split)

lemma acceptPresented_frame:
  assumes "run_state (acceptPresented V fp presented) n = (u, n')"
  shows "keys_of (nd_vault n') = keys_of (nd_vault n) \<and> peers_of (nd_vault n') = peers_of (nd_vault n) \<and>
    e_policy (nd_engine n') = e_policy (nd_engine n) \<and> e_identity (nd_engine n') = e_identity (nd_engine n)"
  using assms
  by (auto simp: acceptPresented_def keepEndorsement_def on_vault_at_def run_on_vault AddEndorsement_frame
      split: option.splits sum.splits if_splits)

lemma deciding_node_frame:
  "keys_of (nd_vault (deciding_node V p req n)) = keys_of (nd_vault n) \<and>
   peers_of (nd_vault (deciding_node V p req n)) = peers_of (nd_vault n) \<and>
   e_policy (nd_engine (deciding_node V p req n)) = e_policy (nd_engine n) \<and>
   e_identity (nd_engine (deciding_node V p req n)) = e_identity (nd_engine n)"
proof -
  define n2 where "n2 = n\<lparr>nd_engine := ticked (nd_engine n),
    nd_seen := (nd_seen n)(pi_fingerprint p \<mapsto> e_clock (nd_engine n) 0),
    nd_count := snd (acquire (pi_fingerprint p) (nd_count n))\<rparr>"
  obtain n3 where a: "run_state (acceptPresented V (pi_fingerprint p) (sq_endorsement req)) n2 = ((), n3)"
    by (cases "run_state (acceptPresented V (pi_fingerprint p) (sq_endorsement req)) n2") auto
  then have "deciding_node V p req n = n3" by (simp add: deciding_node_def n2_def)
  with acceptPresented_frame [OF a] show ?thesis by (simp add: n2_def)
qed

lemma RemoteSign_Inr:
  assumes "run_state (RemoteSign V peer req evs shown) n = (Some (Inr resp), n')"
  obtains p rcd msg n2 where "peer = Some p" "Peer (nv_fold V) (pi_fingerprint p) (nd_vault n) = Some rcd"
    "tr_may_request rcd" "parseSignRequest V (sq_request req) = Inr msg"
    "run_state (signForPeer V rcd (peer_requester p rcd msg) msg (sq_request req) (sq_payload req)
       (sq_wrap_sshsig req) evs shown) (deciding_node V p req n) = (Some (Inr (rr_approval resp, rr_signature resp)), n2)"
    "n' = n2\<lparr>nd_count := release (pi_fingerprint p) (nd_count n2)\<rparr>"
proof -
  obtain a n1 where a: "run_state (authorize V peer) n = (a, n1)" by fastforce
  show ?thesis
  proof (cases a)
    case (Inl e)
    with assms a show ?thesis by (simp add: RemoteSign_def)
  next
    case (Inr x)
    obtain p rcd where x: "x = (p, rcd)" by fastforce
    note auth = authorize_Inr [OF a [unfolded Inr x]]
    let ?work = "case parseSignRequest V (sq_request req) of
        Inl e \<Rightarrow> State_Monad.return (Some (Inl e))
      | Inr msg \<Rightarrow> do {
          acceptPresented V (pi_fingerprint p) (sq_endorsement req);
          r \<leftarrow> signForPeer V rcd (peer_requester p rcd msg) msg (sq_request req) (sq_payload req)
                 (sq_wrap_sshsig req) evs shown;
          State_Monad.return (map_option (map_sum id
            (\<lambda>(artifact, signature). \<lparr>rr_signature = signature, rr_approval = artifact\<rparr>)) r)
        }"
    have "run_state (with_slot (pi_fingerprint p) ?work) n1 = (Some (Inr resp), n')"
      using assms a Inr x by (simp add: RemoteSign_def)
    then obtain c n2 where c: "acquire (pi_fingerprint p) (nd_count n1) = (True, c)"
      "run_state ?work (n1\<lparr>nd_count := c\<rparr>) = (Some (Inr resp), n2)" "n' = n2\<lparr>nd_count := release (pi_fingerprint p) (nd_count n2)\<rparr>"
      by (rule with_slot_Some)
    have d: "snd (run_state (acceptPresented V (pi_fingerprint p) (sq_endorsement req)) (n1\<lparr>nd_count := c\<rparr>)) =
        deciding_node V p req n"
      using c(1) auth(4) by (simp add: deciding_node_def Let_def)
    obtain msg where m: "parseSignRequest V (sq_request req) = Inr msg" using c(2) by (auto split: sum.splits)
    obtain r n3 where s: "run_state (signForPeer V rcd (peer_requester p rcd msg) msg (sq_request req)
        (sq_payload req) (sq_wrap_sshsig req) evs shown) (deciding_node V p req n) = (r, n3)" by fastforce
    have "n3 = n2" "map_option (map_sum id (\<lambda>(artifact, signature). \<lparr>rr_signature = signature, rr_approval = artifact\<rparr>)) r =
        Some (Inr resp)"
      using c(2) m s d by (simp_all split: prod.splits)
    then have "r = Some (Inr (rr_approval resp, rr_signature resp))"
      by (cases r; cases "the r") auto
    with s \<open>n3 = n2\<close> show ?thesis using that [OF auth(1-3) m _ c(3)] by simp
  qed
qed

text \<open>A request the holder's rules approve is signed.\<close>

lemma signForPeer_approved:
  assumes "nv_keys V = Some keys" "rebuilt V rcd requester msg payload w (nd_vault n) = Inr (ref, blob, msg')"
    and "run_state (submit (nv_env V) (Some msg') (Some body) OriginPeerSigning evs shown) (nd_engine n) = (Some (Inr (resp, Some a)), e')"
    and "rs_decision resp = DECISION_APPROVE" "e_vault e' = nd_vault n"
    and "Signer keys (nv_hw V) (nv_hardware V) (nv_gate V) (kr_fingerprint ref) (nd_vault n) = Inr (signer, k)"
    and "signBlob signer blob (ar_signature_algorithm msg') = Inr s"
  shows "\<exists>n'. run_state (signForPeer V rcd requester msg body payload w evs shown) n =
    (Some (Inr (Some a, lib_marshal_signature (x_ssh (nv_env V)) s)), n')"
  using assms by (simp add: signForPeer_def SubmitPeerSigning_def)

lemma signForPeer_by_rule:
  assumes "nv_keys V = Some keys" "rebuilt V rcd requester msg payload w (nd_vault n) = Inr (ref, blob, msg')"
    and "rule_settles (nv_env V) (e_policy (nd_engine n)) OriginPeerSigning msg'"
    and "ar_request_id msg' \<noteq> []" "ar_created_at msg' \<noteq> None" and "\<And>m. \<exists>d. x_request (nv_env V) m = Inr d"
    and "\<And>r. \<exists>a. SignApproval (x_ssh (nv_env V)) (x_response (nv_env V)) (e_identity (nd_engine n)) (Some r) = Inr a"
    and "Signer keys (nv_hw V) (nv_hardware V) (nv_gate V) (kr_fingerprint ref) (nd_vault n) = Inr (signer, k)"
    and "signBlob signer blob (ar_signature_algorithm msg') = Inr s"
  shows "\<exists>a n'. run_state (signForPeer V rcd requester msg body payload w evs shown) n =
    (Some (Inr (Some a, lib_marshal_signature (x_ssh (nv_env V)) s)), n')"
  using submit_by_rule [OF assms(3-7)] signForPeer_approved [OF assms(1,2) _ _ _ assms(8,9)] by metis

lemma RemoteSign_runs:
  assumes "Peer (nv_fold V) (pi_fingerprint p) (nd_vault n) = Some rcd" "tr_may_request rcd"
    "fst (acquire (pi_fingerprint p) (nd_count n))" "parseSignRequest V (sq_request req) = Inr msg"
    "run_state (signForPeer V rcd (peer_requester p rcd msg) msg (sq_request req) (sq_payload req)
       (sq_wrap_sshsig req) evs shown) (deciding_node V p req n) = (Some (Inr (art, sig)), n2)"
  shows "\<exists>n'. run_state (RemoteSign V (Some p) req evs shown) n = (Some (Inr \<lparr>rr_signature = sig, rr_approval = art\<rparr>), n')"
proof -
  define n1 where "n1 = n\<lparr>nd_engine := ticked (nd_engine n), nd_seen := (nd_seen n)(pi_fingerprint p \<mapsto> e_clock (nd_engine n) 0)\<rparr>"
  have a: "run_state (authorize V (Some p)) n = (Inr (p, rcd), n1)"
    using assms(1,2) by (simp add: authorize_def find_peer_def run_saw n1_def)
  obtain c where c: "acquire (pi_fingerprint p) (nd_count n1) = (True, c)"
    using assms(3) by (cases "acquire (pi_fingerprint p) (nd_count n1)") (simp add: n1_def)
  have "run_state (acceptPresented V (pi_fingerprint p) (sq_endorsement req)) (n1\<lparr>nd_count := c\<rparr>) =
      ((), deciding_node V p req n)"
    using c by (simp add: prod_eq_iff deciding_node_def n1_def)
  then show ?thesis
    using a c assms(4,5) by (simp add: RemoteSign_def with_slot_def take_slot_def free_slot_def)
qed

section \<open>Properties\<close>


text \<open>A holder with one key, one peer that may use it and a policy that approves.\<close>

definition demo_key :: stored_key where
  "demo_key = \<lparr>sk_label = ''work'', sk_fingerprint = ''SHA256:K'', sk_algorithm = ''toy'', sk_comment = [], sk_public_key = ''K'',
     sk_private_key = ''pem'', sk_added_at = None, sk_origin = KEY_ORIGIN_UNSPECIFIED, sk_disabled = False,
     sk_hardware_handle = [], sk_handed_to = [], sk_received_from = None, sk_agent_use = None\<rparr>"

definition demo_record :: trust_record where
  "demo_record = empty_record\<lparr>tr_fingerprint := ''SHA256:P'', tr_name := ''box'', tr_may_request := True,
     tr_may_use_all_keys := True\<rparr>"

definition demo_payload :: bytes where
  "demo_payload = sshsig_payload ''file'' [] ''sha512'' ''digest''"

definition demo_asks :: approval_request where
  "demo_asks = empty_request\<lparr>ar_request_id := ''r1'', ar_created_at := Some 1,
     ar_key := Some (KeyRef demo_key)\<rparr>"

definition demo_holder :: "unit node_env" where
  "demo_holder = plain_env\<lparr>nv_request := only_codec demo_asks,
     nv_keys := Some (av_keys (demo_agent sample_artifact))\<rparr>"

definition demo_node :: Node where
  "demo_node = \<lparr>nd_engine = demo_engine\<lparr>e_policy := open_policy,
       e_vault := empty_vault\<lparr>v_doc := empty_document\<lparr>sd_keys := [demo_key], sd_peers := [demo_record]\<rparr>\<rparr>\<rparr>,
     nd_count = Map.empty, nd_seen = Map.empty, nd_collecting = Map.empty, nd_collecting_tunnelled = Map.empty\<rparr>"

definition demo_peer :: peer_identity where
  "demo_peer = \<lparr>pi_fingerprint = ''SHA256:P'', pi_remote_addr = [], pi_tunnelled = False\<rparr>"

definition demo_ask :: RemoteSignRequest where
  "demo_ask = \<lparr>sq_request = ''B'', sq_payload = demo_payload, sq_wrap_sshsig = False, sq_endorsement = None\<rparr>"

lemma demo_class: "cl_sshsig (Classify L q demo_payload) = Some \<lparr>ss_namespace = ''file'', ss_hash_algorithm = ''sha512'',
    ss_message_digest = ''digest'', ss_git_context = None\<rparr>" "cl_kind (Classify L q demo_payload) = REQUEST_KIND_SSHSIG"
proof -
  have "parseSshsig demo_payload = Inr \<lparr>ss_namespace = ''file'', ss_hash_algorithm = ''sha512'',
    ss_message_digest = ''digest'', ss_git_context = None\<rparr>"
    by (subst parseSshsig_iff) (auto simp: demo_payload_def short_def)
  then show "cl_sshsig (Classify L q demo_payload) = Some \<lparr>ss_namespace = ''file'', ss_hash_algorithm = ''sha512'',
    ss_message_digest = ''digest'', ss_git_context = None\<rparr>" "cl_kind (Classify L q demo_payload) = REQUEST_KIND_SSHSIG"
    by (simp_all add: Classify_def GitNamespace_def)
qed

lemma demo_payload_some: "demo_payload \<noteq> []"
  by (simp add: demo_payload_def sshsig_payload_def Magic_def)

text \<open>How this holder reads a request over those bytes that names its key.\<close>

definition demo_reads :: "requester_info \<Rightarrow> approval_request \<Rightarrow> approval_request" where
  "demo_reads requester msg = msg\<lparr>ar_payload_sha256 := demo_payload, ar_kind := REQUEST_KIND_SSHSIG,
     ar_operation := OpSshsig \<lparr>ss_namespace = ''file'', ss_hash_algorithm = ''sha512'', ss_message_digest = ''digest'',
       ss_git_context = None\<rparr>, ar_key := Some (KeyRef demo_key), ar_requester := Some requester\<rparr>"

lemma demo_rebuilt:
  assumes "x_ssh (nv_env V) = toy_lib" "ar_key msg = Some (KeyRef demo_key)" "ar_payload_sha256 msg = []"
  shows "rebuilt V demo_record requester msg demo_payload False (nd_vault demo_node) =
     Inr (KeyRef demo_key, demo_payload, demo_reads requester msg)"
proof -
  have k: "KeyRefs (nd_vault demo_node) = [KeyRef demo_key]"
    by (simp add: KeyRefs_def demo_node_def demo_key_def)
  have b: "borrowableKey demo_record (ar_key msg) (nd_vault demo_node) = Inr (KeyRef demo_key)"
    by (simp add: borrowableKey_def k named_key_def assms(2) MayUseKey_def demo_record_def
        KeyRef_def demo_key_def Let_def)
  have f: "blobFor toy_lib demo_payload False sig = Inr demo_payload" for sig
    by (simp add: blobFor_def demo_payload_some)
  have s: "signingBlob toy_lib demo_payload False msg = Inr (demo_payload, msg\<lparr>ar_payload_sha256 := demo_payload\<rparr>)"
    by (simp add: signingBlob_def f assms(3)) (simp add: toy_lib_def)
  have "''file'' \<noteq> GitNamespace" by (simp add: GitNamespace_def)
  then show ?thesis
    by (simp add: rebuilt_def b assms(1) s rebuildOperation_def f demo_class rebuildSshsig_def demo_reads_def Let_def)
qed

lemma demo_settles:
  assumes "\<not> ar_grant_only msg" "ar_local_key msg = None"
  shows "rule_settles X open_policy OriginPeerSigning (demo_reads requester msg)"
proof -
  let ?m = "demo_reads requester msg"
  have v: "VerifyRequest L say fb ?m = (?m, [])" for L say fb
    by (simp add: VerifyRequest_def demo_reads_def get_sshsig_def)
  show ?thesis
    by (simp add: rule_settles_def v open_approves)
       (simp add: assms demo_reads_def must_prompt_def get_ssh_auth_def)
qed

definition demo_signature :: ssh_signature where
  "demo_signature = \<lparr>sig_format = ''toy'', sig_blob = ''K'' @ demo_payload\<rparr>"

lemma demo_signer:
  "Signer (av_keys (demo_agent sa)) H hardware None (kr_fingerprint (KeyRef demo_key)) (nd_vault demo_node) = Inr (toy_signer, demo_key)"
  "signBlob toy_signer demo_payload [] = Inr demo_signature"
  by (simp_all add: Signer_def demo_agent_def demo_node_def demo_key_def KeyRef_def signBlob_def SignBlob_def
      toy_signer_def toy_key_def KeyAlgoRSA_def demo_signature_def)

lemma demo_paired:
  assumes "nv_fold V = (=)"
  shows "Peer (nv_fold V) (pi_fingerprint demo_peer) (nd_vault demo_node) = Some demo_record" "tr_may_request demo_record"
    "fst (acquire (pi_fingerprint demo_peer) (nd_count demo_node))"
  by (simp_all add: Peer_def assms demo_node_def demo_peer_def MatchesRef_def demo_record_def acquire_def maxDecisionsPerPeer_def)

lemma demo_deciding:
  assumes "sq_endorsement req = None"
  shows "nd_vault (deciding_node V demo_peer req demo_node) = nd_vault demo_node"
    "e_policy (nd_engine (deciding_node V demo_peer req demo_node)) = open_policy"
    "e_identity (nd_engine (deciding_node V demo_peer req demo_node)) = toy_identity"
    "e_clock (nd_engine (deciding_node V demo_peer req demo_node)) = (\<lambda>_. 5)"
  by (simp_all add: deciding_node_def acceptPresented_def assms demo_node_def demo_engine_def ticked_def rest_of_def)

lemma demo_signed:
  "\<exists>resp n'. run_state (RemoteSign demo_holder (Some demo_peer) demo_ask [] None) demo_node = (Some (Inr resp), n') \<and>
     rr_signature resp \<noteq> []"
proof -
  let ?V = demo_holder
  let ?who = "peer_requester demo_peer demo_record demo_asks"
  obtain keys where keys: "nv_keys ?V = Some keys" "keys = av_keys (demo_agent sample_artifact)"
    by (simp add: demo_holder_def plain_env_def)
  have E: "nv_env ?V = demo_env" "nv_fold ?V = (=)" "nv_gate ?V = None" "x_ssh (nv_env ?V) = toy_lib"
    by (simp_all add: demo_holder_def plain_env_def demo_env_def)
  have A: "sq_payload demo_ask = demo_payload" "sq_wrap_sshsig demo_ask = False" "sq_endorsement demo_ask = None"
    "parseSignRequest ?V (sq_request demo_ask) = Inr demo_asks"
    by (simp_all add: demo_ask_def parseSignRequest_def demo_holder_def plain_env_def only_codec_def)
  have M: "ar_key demo_asks = Some (KeyRef demo_key)" "ar_payload_sha256 demo_asks = []" "\<not> ar_grant_only demo_asks"
    "ar_local_key demo_asks = None" "ar_request_id (demo_reads ?who demo_asks) \<noteq> []" "ar_created_at (demo_reads ?who demo_asks) \<noteq> None"
    "ar_signature_algorithm (demo_reads ?who demo_asks) = []"
    by (simp_all add: demo_asks_def empty_request_def demo_reads_def)
  have x: "\<exists>d. x_request demo_env m = Inr d" for m by (simp add: demo_env_def)
  let ?n = "deciding_node ?V demo_peer demo_ask demo_node"
  note d = demo_deciding [OF A(3), of ?V]
  obtain a n2 where s: "run_state (signForPeer ?V demo_record ?who demo_asks (sq_request demo_ask) demo_payload False [] None) ?n =
      (Some (Inr (Some a, lib_marshal_signature (x_ssh (nv_env ?V)) demo_signature)), n2)"
    using signForPeer_by_rule [of ?V keys demo_record ?who demo_asks demo_payload False ?n "KeyRef demo_key" demo_payload
        "demo_reads ?who demo_asks" toy_signer demo_key demo_signature "sq_request demo_ask" "[]" None]
      keys demo_rebuilt [OF E(4) M(1,2)] demo_settles [OF M(3,4)] M(5-7) x demo_signs demo_signer E(1,3) d by auto
  then obtain n' where "run_state (RemoteSign ?V (Some demo_peer) demo_ask [] None) demo_node =
      (Some (Inr \<lparr>rr_signature = lib_marshal_signature (x_ssh (nv_env ?V)) demo_signature, rr_approval = Some a\<rparr>), n')"
    using RemoteSign_runs [OF demo_paired [OF E(2)] A(4)] A(1,2) by metis
  moreover have "lib_marshal_signature (x_ssh (nv_env ?V)) demo_signature \<noteq> []"
    by (simp add: E(4) toy_lib_def demo_signature_def)
  ultimately show ?thesis by auto
qed


end
