(* ===== verification/Peer_Answers.thy ===== *)
theory Peer_Answers
  imports Peer_Sign Vault_Settings
begin

text \<open>
  Asking a paired peer to approve, \<^verbatim>\<open>src/pkg/peer/approver.go\<close>, and what may be left behind by an answer: a
  delegation (\<^verbatim>\<open>delegations.go\<close>) or an endorsement (\<^verbatim>\<open>endorsements.go\<close>).

  The network is an argument: a way to a peer is a list of targets, and a target says what comes back
  for the bytes that are sent over it. \<open>describe\<close> is \<^verbatim>\<open>project.Describe\<close>, which runs git.
\<close>

section \<open>The answer of a peer\<close>

datatype answer_error =
    NoDecision string
  | Unverifiable string identity_error
  | NotThePairedKey string string
  | OtherRequest string string string
  | OtherContents string

definition colon :: string where "colon = '': ''"

definition answer_of :: "trust_record \<Rightarrow> signed_artifact \<Rightarrow> approval_response \<Rightarrow> Answer" where
  "answer_of record artifact resp = \<lparr>an_decision = rs_decision resp, an_reason = tr_name record @ colon @ rs_reason resp,
     an_grant_ttl = 0, an_grant_reach = GrantReachSession,
     an_approver = Some \<lparr>ai_instance_id = tr_fingerprint record, ai_name = tr_name record, ai_local = False\<rparr>,
     an_source = rs_source resp, an_signed = Some artifact\<rparr>"

definition answerFromPeer ::
    "ssh_lib \<Rightarrow> approval_response proto_codec \<Rightarrow> trust_record \<Rightarrow> ssh_public_key \<Rightarrow> signed_artifact option \<Rightarrow> string \<Rightarrow> bytes
       \<Rightarrow> answer_error + Answer \<times> approval_response" where
  "answerFromPeer L C record key artifact requestID digest =
     (let name = tr_name record
      in case artifact of
          None \<Rightarrow> Inl (NoDecision name)
        | Some a \<Rightarrow>
            (case VerifyApproval L C (Some a) of
               Inl e \<Rightarrow> Inl (Unverifiable name e)
             | Inr (resp, pub) \<Rightarrow>
                 if pk_marshal pub \<noteq> pk_marshal key then Inl (NotThePairedKey name (sg_fingerprint a))
                 else if rs_request_id resp \<noteq> requestID then Inl (OtherRequest name (rs_request_id resp) requestID)
                 else if rs_request_digest resp \<noteq> digest then Inl (OtherContents name)
                 else Inr (answer_of record a resp, resp)))"

section \<open>What an answer may leave behind\<close>

definition acceptDelegation ::
    "'raw node_env \<Rightarrow> trust_record \<Rightarrow> ssh_public_key \<Rightarrow> approval_response \<Rightarrow> unit nd" where
  "acceptDelegation V record key resp =
     (case rs_delegation resp of
        None \<Rightarrow> State_Monad.return ()
      | Some artifact \<Rightarrow>
          if \<not> nv_delegations V then State_Monad.return ()
          else (case VerifyDelegation (x_ssh (nv_env V)) (x_delegation (nv_env V)) (Some artifact) of
                  Inl e \<Rightarrow> State_Monad.return ()
                | Inr (d, pub) \<Rightarrow>
                    if pk_marshal pub \<noteq> pk_marshal key then State_Monad.return ()
                    else do {
                      me \<leftarrow> asks_node (\<lambda>n. Fingerprint (x_ssh (nv_env V)) (e_identity (nd_engine n)));
                      if dg_requester_fingerprint d \<noteq> me then State_Monad.return ()
                      else if \<not> tr_may_approve record then State_Monad.return ()
                      else do {
                        _ \<leftarrow> in_engine (on_vault_at (\<lambda>sv now. AddDelegation sv now artifact d));
                        State_Monad.return ()
                      }
                    }))"

definition acceptRenewedDelegation :: "'raw node_env \<Rightarrow> trust_record \<Rightarrow> signed_artifact \<Rightarrow> unit nd" where
  "acceptRenewedDelegation V record artifact =
     (case lib_parse_public (x_ssh (nv_env V)) (tr_identity_public_key record) of
        Inl e \<Rightarrow> State_Monad.return ()
      | Inr key \<Rightarrow> acceptDelegation V record key (empty_response\<lparr>rs_delegation := Some artifact\<rparr>))"

definition acceptEndorsement :: "'raw node_env \<Rightarrow> signed_artifact option \<Rightarrow> unit nd" where
  "acceptEndorsement V given =
     (case given of
        None \<Rightarrow> State_Monad.return ()
      | Some artifact \<Rightarrow>
          if \<not> nv_endorsements V then State_Monad.return ()
          else (case VerifyEndorsement (x_ssh (nv_env V)) (x_endorsement (nv_env V)) (Some artifact) of
                  Inl e \<Rightarrow> State_Monad.return ()
                | Inr e \<Rightarrow> do {
                    me \<leftarrow> asks_node (\<lambda>n. Fingerprint (x_ssh (nv_env V)) (e_identity (nd_engine n)));
                    if en_requester_fingerprint e \<noteq> me then State_Monad.return ()
                    else do { _ \<leftarrow> keepEndorsement artifact e False; State_Monad.return () }
                  }))"

definition endorsementFor :: "'raw node_env \<Rightarrow> string \<Rightarrow> signed_artifact option nd" where
  "endorsementFor V keyPrint =
     (if \<not> nv_endorsements V \<or> keyPrint = [] then State_Monad.return None
      else do {
        r \<leftarrow> in_engine (on_vault_at Endorsements);
        case r of
          Inl e \<Rightarrow> State_Monad.return None
        | Inr held \<Rightarrow> do {
            me \<leftarrow> asks_node (\<lambda>n. Fingerprint (x_ssh (nv_env V)) (e_identity (nd_engine n)));
            now \<leftarrow> now_n;
            State_Monad.return (map_option he_signed (find (\<lambda>h.
              en_key_fingerprint (he_endorsement h) = keyPrint \<and> en_requester_fingerprint (he_endorsement h) = me \<and>
              now < as_time (en_expires_at (he_endorsement h))) held))
          }
      })"

section \<open>Asking\<close>

datatype ask_error =
    AskDeadline
  | NotSerializedAsk string
  | NoAddress
  | AskFailed string string
  | StreamFailed string string
  | ClosedUndecided string
  | BadAnswer answer_error
  | TunnelIsDown

text \<open>\<^verbatim>\<open>project.Describe\<close> and publishing on the way past.\<close>

definition published_text :: "(string \<Rightarrow> string) \<Rightarrow> Publication \<Rightarrow> string" where
  "published_text quote p = ''published '' @ quote (pb_name p) @ '' from '' @ pb_path p @ '', because a signature was asked for in it''"

definition autoPublish :: "'raw node_env \<Rightarrow> (string \<Rightarrow> string + Publication) \<Rightarrow> git_context option \<Rightarrow> unit nd" where
  "autoPublish V describe git =
     (let pid = getf gc_project_id [] git; path = getf gc_repository_path [] git
      in do {
        v \<leftarrow> asks_node nd_vault;
        if pid = [] \<or> path = [] \<or> \<not> AutoPublish v then State_Monad.return ()
        else if Publication_of (nv_fold V) pid v \<noteq> None then State_Monad.return ()
        else (case describe path of
                Inl e \<Rightarrow> State_Monad.return ()
              | Inr p \<Rightarrow> do {
                  r \<leftarrow> in_engine (on_vault (\<lambda>sv. PutPublication sv p));
                  case r of
                    Inl e \<Rightarrow> State_Monad.return ()
                  | Inr _ \<Rightarrow> in_engine (LogLifecycle (published_text (nv_quote V) p))
                })
      })"

text \<open>The request as the peer should see it; \<open>deadline\<close> is the one of the context, if it has one.\<close>

definition outgoing_requester :: "'raw node_env \<Rightarrow> Identity \<Rightarrow> requester_info option \<Rightarrow> requester_info" where
  "outgoing_requester V ident given =
     (case given of None \<Rightarrow> empty_requester | Some r \<Rightarrow> r)\<lparr>ri_instance_id := Fingerprint (x_ssh (nv_env V)) ident,
       ri_name := id_name ident, ri_local := False, ri_headless := nv_headless V\<rparr>"

definition with_deadline :: "timestamp \<Rightarrow> approval_request \<Rightarrow> (ask_error + approval_request) nd" where
  "with_deadline deadline msg =
     (case deadline of
        None \<Rightarrow> State_Monad.return (Inr msg)
      | Some d \<Rightarrow> do {
          now \<leftarrow> now_n;
          State_Monad.return (if d - now \<le> 0 then Inl AskDeadline else Inr (msg\<lparr>ar_timeout := Some (d - now)\<rparr>))
        })"

definition serialized :: "'raw node_env \<Rightarrow> approval_request \<Rightarrow> ask_error + approval_request \<times> bytes" where
  "serialized V msg =
     (case pc_marshal (nv_request V) msg of Inl e \<Rightarrow> Inl (NotSerializedAsk e) | Inr body \<Rightarrow> Inr (msg, body))"

definition outgoing ::
    "'raw node_env \<Rightarrow> (string \<Rightarrow> string + Publication) \<Rightarrow> timestamp \<Rightarrow> approval_request
       \<Rightarrow> (ask_error + approval_request \<times> bytes) nd" where
  "outgoing V describe deadline msg = do {
     ident \<leftarrow> asks_node (\<lambda>n. e_identity (nd_engine n));
     r \<leftarrow> with_deadline deadline (msg\<lparr>ar_requester := Some (outgoing_requester V ident (ar_requester msg))\<rparr>);
     case r of
       Inl e \<Rightarrow> State_Monad.return (Inl e)
     | Inr out \<Rightarrow> do {
         autoPublish V describe (get_git_context out);
         State_Monad.return (serialized V out)
       }
   }"

text \<open>
  What comes back over one target: it may not be up, the call may fail at once, or a stream of events
  comes, which may end with an error. \<open>given_up\<close> says the caller has stopped waiting by then.
\<close>

datatype stream_outcome =
    NotUp
  | CallFails string
  | Stream "ApprovalEvent list" "string option"

record approval_target =
  at_tunnel :: bool
  at_answer :: "bytes \<Rightarrow> stream_outcome"
  at_given_up :: bool

record remote_link =
  ln_record :: trust_record
  ln_key :: ssh_public_key

definition decided_event :: "ApprovalEvent list \<Rightarrow> ApprovalEvent option" where
  "decided_event evs = find (\<lambda>ev. av_kind ev = APPROVAL_EVENT_KIND_DECIDED) evs"

definition ask ::
    "'raw node_env \<Rightarrow> remote_link \<Rightarrow> approval_target \<Rightarrow> string \<Rightarrow> bytes \<Rightarrow> bytes \<Rightarrow> (ask_error + Answer) nd" where
  "ask V l over requestID body digest =
     (let name = tr_name (ln_record l)
      in case at_answer over body of
          NotUp \<Rightarrow> State_Monad.return (Inl TunnelIsDown)
        | CallFails e \<Rightarrow> State_Monad.return (Inl (AskFailed name e))
        | Stream evs ending \<Rightarrow>
            (case decided_event evs of
               Some ev \<Rightarrow>
                 (case answerFromPeer (x_ssh (nv_env V)) (x_response (nv_env V)) (ln_record l) (ln_key l)
                         (av_approval ev) requestID digest of
                    Inl e \<Rightarrow> State_Monad.return (Inl (BadAnswer e))
                  | Inr (answer, resp) \<Rightarrow> do {
                      acceptDelegation V (ln_record l) (ln_key l) resp;
                      State_Monad.return (Inr answer)
                    })
             | None \<Rightarrow>
                 State_Monad.return (Inl (case ending of
                    Some e \<Rightarrow> StreamFailed name e | None \<Rightarrow> ClosedUndecided name))))"

text \<open>The loop of \<^verbatim>\<open>Decide\<close> over the targets, with the last error seen; what it tells the link is left out.\<close>

fun ask_over ::
    "'raw node_env \<Rightarrow> remote_link \<Rightarrow> string \<Rightarrow> bytes \<Rightarrow> bytes \<Rightarrow> ask_error option \<Rightarrow> approval_target list
       \<Rightarrow> (ask_error + Answer) nd" where
  "ask_over V l requestID body digest lastErr [] =
     State_Monad.return (Inl (case lastErr of None \<Rightarrow> TunnelIsDown | Some e \<Rightarrow> e))"
| "ask_over V l requestID body digest lastErr (over # rest) = do {
     r \<leftarrow> ask V l over requestID body digest;
     case r of
       Inr answer \<Rightarrow> State_Monad.return (Inr answer)
     | Inl e \<Rightarrow>
         if at_given_up over then State_Monad.return (Inl e)
         else if at_tunnel over \<and> e = TunnelIsDown then ask_over V l requestID body digest lastErr rest
         else ask_over V l requestID body digest (Some e) rest
   }"

definition remote_Decide ::
    "'raw node_env \<Rightarrow> (string \<Rightarrow> string + Publication) \<Rightarrow> remote_link \<Rightarrow> approval_target list \<Rightarrow> timestamp \<Rightarrow> approval_request
       \<Rightarrow> (ask_error + Answer) nd" where
  "remote_Decide V describe l targets deadline msg = do {
     r \<leftarrow> outgoing V describe deadline msg;
     case r of
       Inl e \<Rightarrow> State_Monad.return (Inl e)
     | Inr (out, body) \<Rightarrow>
         if targets = [] then State_Monad.return (Inl NoAddress)
         else ask_over V l (ar_request_id out) body (Digest (x_ssh (nv_env V)) body) None targets
   }"

section \<open>Lemmas\<close>

lemma answerFromPeer_Inr:
  "answerFromPeer L C rcd key artifact rid digest = Inr (answer, resp) \<longleftrightarrow>
     (\<exists>a pub. artifact = Some a \<and> VerifyApproval L C (Some a) = Inr (resp, pub) \<and> pk_marshal pub = pk_marshal key \<and>
        rs_request_id resp = rid \<and> rs_request_digest resp = digest \<and> answer = answer_of rcd a resp)"
  by (auto simp: answerFromPeer_def Let_def split: option.splits sum.splits if_splits)

lemma VerifyApproval_Inr:
  "VerifyApproval L C (Some a) = Inr (resp, pub) \<longleftrightarrow>
     identity_half L (sg_public_key a) (sg_fingerprint a) (sg_signature a) (signingInput (sg_body a)) = Inr pub \<and>
     pc_unmarshal C (sg_body a) = Inr resp"
  by (auto simp: VerifyApproval_def split: sum.splits)

text \<open>What a delegation that was kept rests on.\<close>

definition kept_rightly :: "'raw node_env \<Rightarrow> trust_record \<Rightarrow> ssh_public_key \<Rightarrow> Identity \<Rightarrow> held_delegation \<Rightarrow> bool" where
  "kept_rightly V rcd key me h \<longleftrightarrow> tr_may_approve rcd \<and>
     dg_requester_fingerprint (hd_delegation h) = Fingerprint (x_ssh (nv_env V)) me \<and>
     (case VerifyDelegation (x_ssh (nv_env V)) (x_delegation (nv_env V)) (Some (hd_signed h)) of
        Inr (d, pub) \<Rightarrow> d = hd_delegation h \<and> pk_marshal pub = pk_marshal key | Inl e \<Rightarrow> False)"

lemma AddDelegation_held:
  "held_delegations (fst (AddDelegation sv now a d v)) =
     filter (\<lambda>h. delegation_id h \<noteq> dg_delegation_id d) (held_delegations v) @
     [\<lparr>hd_signed = a, hd_delegation = d, hd_received_at = Some now,
       hd_unreported_uses = (let same = filter (\<lambda>h. delegation_id h = dg_delegation_id d) (held_delegations v)
         in if same = [] then [] else hd_unreported_uses (last same)),
       hd_use_count = (let same = filter (\<lambda>h. delegation_id h = dg_delegation_id d) (held_delegations v)
         in if same = [] then 0 else hd_use_count (last same))\<rparr>]"
  by (auto simp: AddDelegation_def Let_def save_def with_delegations_def split: option.splits)

lemma AddDelegation_frame:
  "peers_of (fst (AddDelegation sv now a d v)) = peers_of v" "keys_of (fst (AddDelegation sv now a d v)) = keys_of v"
  "grants (fst (AddDelegation sv now a d v)) = grants v"
  by (auto simp: AddDelegation_def Let_def save_def with_delegations_def split: option.splits)

lemma acceptDelegation_cases:
  fixes V :: "'raw node_env" and n :: Node
  obtains (none) "snd (run_state (acceptDelegation V rcd key resp) n) = n"
  | (kept) a d pub sv now where "rs_delegation resp = Some a"
      "VerifyDelegation (x_ssh (nv_env V)) (x_delegation (nv_env V)) (Some a) = Inr (d, pub)" "pk_marshal pub = pk_marshal key"
      "dg_requester_fingerprint d = Fingerprint (x_ssh (nv_env V)) (e_identity (nd_engine n))" "tr_may_approve rcd"
      "nd_vault (snd (run_state (acceptDelegation V rcd key resp) n)) = fst (AddDelegation sv now a d (nd_vault n))"
      "e_identity (nd_engine (snd (run_state (acceptDelegation V rcd key resp) n))) = e_identity (nd_engine n)"
proof (cases "rs_delegation resp")
  case None
  with none show ?thesis by (simp add: acceptDelegation_def)
next
  case (Some a)
  note a = this
  let ?v = "VerifyDelegation (x_ssh (nv_env V)) (x_delegation (nv_env V)) (Some a)"
  show ?thesis
  proof (cases ?v)
    case (Inl e)
    with a none show ?thesis by (simp add: acceptDelegation_def)
  next
    case (Inr x)
    obtain d pub where x: "x = (d, pub)" by fastforce
    let ?fits = "nv_delegations V \<and> pk_marshal pub = pk_marshal key \<and>
      dg_requester_fingerprint d = Fingerprint (x_ssh (nv_env V)) (e_identity (nd_engine n)) \<and> tr_may_approve rcd"
    show ?thesis
    proof (cases ?fits)
      case True
      with a Inr x show ?thesis
        by (intro kept [of a d pub "e_saves (nd_engine n) 0" "e_clock (nd_engine n) 0"])
           (auto simp: acceptDelegation_def on_vault_at_def run_on_vault)
    next
      case False
      with a Inr x show ?thesis by (intro none) (auto simp: acceptDelegation_def)
    qed
  qed
qed

lemma ask_Inr:
  assumes "run_state (ask V l over rid body digest) n = (Inr answer, n')"
  obtains evs ending and ev :: ApprovalEvent and resp where "at_answer over body = Stream evs ending" "decided_event evs = Some ev"
    "answerFromPeer (x_ssh (nv_env V)) (x_response (nv_env V)) (ln_record l) (ln_key l) (av_approval ev) rid digest =
       Inr (answer, resp)"
    "n' = snd (run_state (acceptDelegation V (ln_record l) (ln_key l) resp) n)"
  using assms
  by (auto simp: ask_def Let_def split: stream_outcome.splits option.splits sum.splits prod.splits)

lemma ask_Inl: "run_state (ask V l over rid body digest) n = (Inl e, n') \<Longrightarrow> n' = n"
  by (auto simp: ask_def Let_def split: stream_outcome.splits option.splits sum.splits prod.splits)

lemma ask_over_Inr:
  "run_state (ask_over V l rid body digest lastErr targets) n = (Inr answer, n') \<Longrightarrow>
     \<exists>over \<in> set targets. run_state (ask V l over rid body digest) n = (Inr answer, n')"
proof (induction targets arbitrary: lastErr)
  case (Cons over rest)
  obtain r n1 where a: "run_state (ask V l over rid body digest) n = (r, n1)" by fastforce
  show ?case
  proof (cases r)
    case (Inl e)
    with ask_Inl a have "n1 = n" by blast
    with Cons Inl a show ?thesis by (auto split: if_splits)
  next
    case (Inr x)
    with Cons.prems a show ?thesis by auto
  qed
qed simp

section \<open>Both ends of a question\<close>

lemma RequestApproval_Inr:
  assumes "run_state (RequestApproval V peer body evs shown (None, None)) n = (Some (Inr sent), n')"
  obtains p rcd msg e resp artifact e' t where "peer = Some p"
    "Peer (nv_fold V) (pi_fingerprint p) (nd_vault n) = Some rcd" "tr_may_request rcd" "parseSignRequest V body = Inr msg"
    "ar_kind msg \<noteq> REQUEST_KIND_PAIRING" "e_identity e = e_identity (nd_engine n)"
    "run_state (submit (nv_env V) (Some (msg\<lparr>ar_requester := Some (peer_requester p rcd msg)\<rparr>)) (Some body) OriginPeer evs shown) e =
       (Some (Inr (resp, artifact)), e')"
    "decided_event sent = Some \<lparr>av_kind = APPROVAL_EVENT_KIND_DECIDED, av_timestamp = Some t, av_approval = artifact\<rparr>"
proof -
  obtain a n1 where a: "run_state (authorize V peer) n = (a, n1)" by fastforce
  show ?thesis
  proof (cases a)
    case (Inl e)
    with assms a show ?thesis by (simp add: RequestApproval_def)
  next
    case (Inr x)
    obtain p rcd where x: "x = (p, rcd)" by fastforce
    note auth = authorize_Inr [OF a [unfolded Inr x]]
    from assms a Inr x have
      "run_state (with_slot (pi_fingerprint p) (decide_for_peer V p rcd body evs shown (None, None))) n1 = (Some (Inr sent), n')"
      by (simp add: RequestApproval_def)
    then obtain c n2 where c: "run_state (decide_for_peer V p rcd body evs shown (None, None)) (n1\<lparr>nd_count := c\<rparr>) =
        (Some (Inr sent), n2)" by (rule with_slot_Some)
    obtain msg where m: "parseSignRequest V body = Inr msg" "ar_kind msg \<noteq> REQUEST_KIND_PAIRING"
      using c by (auto simp: decide_for_peer_def split: sum.splits if_splits)
    let ?e = "ticked (nd_engine n1)"
    let ?msg = "msg\<lparr>ar_requester := Some (peer_requester p rcd msg)\<rparr>"
    obtain answer e' where s: "run_state (SubmitPeer (nv_env V) (Some ?msg) (Some body) evs shown) ?e = (answer, e')" by fastforce
    from c m s obtain resp artifact where r: "answer = Some (Inr (resp, artifact))"
      by (auto simp: decide_for_peer_def split: option.splits sum.splits)
    with c m s obtain t1 t2 where "sent = [\<lparr>av_kind = APPROVAL_EVENT_KIND_ACCEPTED, av_timestamp = Some t1, av_approval = None\<rparr>,
        \<lparr>av_kind = APPROVAL_EVENT_KIND_DECIDED, av_timestamp = Some t2, av_approval = artifact\<rparr>]"
      by (auto simp: decide_for_peer_def)
    then have "decided_event sent = Some \<lparr>av_kind = APPROVAL_EVENT_KIND_DECIDED, av_timestamp = Some t2, av_approval = artifact\<rparr>"
      by (simp add: decided_event_def)
    then show ?thesis using that [OF auth(1-3) m _ s [unfolded r SubmitPeer_def]] auth(4) by simp
  qed
qed

text \<open>An artifact the approver's engine made is taken as its answer by the requester that asked.\<close>

lemma answer_accepted:
  assumes "key_law L (id_signer i)" "\<forall>sig. signature_law L sig" "codec_law C"
    and "SignApproval L C i (Some resp) = Inr a" "pk_marshal (sr_public (id_signer i)) = pk_marshal key"
  shows "answerFromPeer L C rcd key (Some a) (rs_request_id resp) (rs_request_digest resp) = Inr (answer_of rcd a resp, resp)"
proof -
  from assms(4) obtain b where b: "pc_marshal C resp = Inr b" "sign_identity L i signingInput b = Inr a"
    by (auto simp: SignApproval_def split: sum.splits)
  then have "VerifyApproval L C (Some a) = Inr (resp, sr_public (id_signer i))"
    using sign_identity_half [OF assms(1,2) b(2)] assms(3) by (auto simp: VerifyApproval_def codec_law_def)
  with assms(5) show ?thesis by (auto simp: answerFromPeer_Inr)
qed

section \<open>Properties\<close>

text \<open>
  C4: What is taken as a peer's answer is that peer's answer to this very request: some target
  returned an artifact whose signature verifies over its body under the key the pairing recorded,
  and the body names this request's identifier and the digest of exactly the bytes that were sent;
  the decision taken is the one in that body and the name beside it is the one on the trust record.
\<close>

theorem peer_answer_is_theirs:
  assumes "run_state (ask_over V l rid body (Digest (x_ssh (nv_env V)) body) lastErr targets) n = (Inr answer, n')"
  shows "\<exists>a pub sig resp. an_signed answer = Some a \<and> lib_parse_public (x_ssh (nv_env V)) (sg_public_key a) = Inr pub \<and>
     pk_marshal pub = pk_marshal (ln_key l) \<and>
     lib_verify (x_ssh (nv_env V)) pub (signingInput (sg_body a)) sig = None \<and>
     pc_unmarshal (x_response (nv_env V)) (sg_body a) = Inr resp \<and> rs_request_id resp = rid \<and>
     rs_request_digest resp = lib_sha256 (x_ssh (nv_env V)) body \<and> an_decision answer = rs_decision resp \<and>
     an_approver answer = Some \<lparr>ai_instance_id = tr_fingerprint (ln_record l), ai_name = tr_name (ln_record l), ai_local = False\<rparr>"
proof -
  obtain over where "run_state (ask V l over rid body (Digest (x_ssh (nv_env V)) body)) n = (Inr answer, n')"
    using ask_over_Inr [OF assms] by blast
  then obtain ev :: ApprovalEvent and resp where "answerFromPeer (x_ssh (nv_env V)) (x_response (nv_env V)) (ln_record l) (ln_key l) (av_approval ev)
      rid (Digest (x_ssh (nv_env V)) body) = Inr (answer, resp)"
    by (rule ask_Inr)
  then obtain a pub where a: "VerifyApproval (x_ssh (nv_env V)) (x_response (nv_env V)) (Some a) = Inr (resp, pub)"
    "pk_marshal pub = pk_marshal (ln_key l)" "rs_request_id resp = rid" "rs_request_digest resp = lib_sha256 (x_ssh (nv_env V)) body"
    "answer = answer_of (ln_record l) a resp"
    unfolding answerFromPeer_Inr Digest_def by blast
  then obtain sig where "lib_parse_public (x_ssh (nv_env V)) (sg_public_key a) = Inr pub"
    "lib_verify (x_ssh (nv_env V)) pub (signingInput (sg_body a)) sig = None" "pc_unmarshal (x_response (nv_env V)) (sg_body a) = Inr resp"
    unfolding VerifyApproval_Inr identity_half_Inr by blast
  with a show ?thesis by (intro exI [of _ a] exI [of _ pub] exI [of _ sig] exI [of _ resp]) (simp add: answer_of_def)
qed

text \<open>
  C6: Nobody else's promise is kept. Whatever comes back beside an answer, every delegation the store
  then holds was there before with the same identifier untouched, or is one whose artifact verifies
  under the paired key, which is addressed to this instance and comes from a peer that may approve.
\<close>

theorem delegation_kept_rightly:
  "list_all (\<lambda>h. h \<in> set (held_delegations (nd_vault n)) \<or> kept_rightly V rcd key (e_identity (nd_engine n)) h)
     (held_delegations (nd_vault (snd (run_state (acceptDelegation V rcd key resp) n))))"
proof (cases rule: acceptDelegation_cases [of V rcd key resp n])
  case none
  then show ?thesis by (simp add: list_all_iff)
next
  case (kept a d pub sv now)
  then show ?thesis by (auto simp: AddDelegation_held list_all_iff kept_rightly_def)
qed


text \<open>An approver whose policy approves, and a requester that asks it over one target.\<close>

definition asked_of :: peer_identity where
  "asked_of = caller_F"

definition asked_record :: trust_record where
  "asked_record = empty_record\<lparr>tr_fingerprint := ''F'', tr_name := ''box'', tr_may_request := True\<rparr>"

definition asked_msg :: approval_request where
  "asked_msg = demo_request\<lparr>ar_requester := Some (peer_requester caller_F asked_record demo_request)\<rparr>"

definition yes_response :: approval_response where
  "yes_response = rule_response demo_env toy_identity open_policy asked_msg ''B'' 5"

definition both_ends :: "unit node_env" where
  "both_ends = plain_env\<lparr>nv_env := demo_env\<lparr>x_response := only_codec yes_response\<rparr>, nv_request := only_codec demo_request\<rparr>"

definition yes_node :: Node where
  "yes_node = (one_peer ''F'' ''box'')\<lparr>nd_engine := (nd_engine (one_peer ''F'' ''box''))\<lparr>e_policy := open_policy\<rparr>\<rparr>"

definition the_link :: remote_link where
  "the_link = \<lparr>ln_record = asked_record, ln_key = toy_key\<rparr>"

lemma both_ends_env:
  "x_ssh (nv_env both_ends) = toy_lib" "x_response (nv_env both_ends) = only_codec yes_response"
  "pc_unmarshal (nv_request both_ends) ''B'' = Inr demo_request" "nv_fold both_ends = (=)"
  "\<And>m. \<exists>d. x_request (nv_env both_ends) m = Inr d"
  by (simp_all add: both_ends_def plain_env_def demo_env_def only_codec_def)

lemma yes_engine:
  "e_identity (nd_engine yes_node) = toy_identity" "e_policy (nd_engine yes_node) = open_policy"
  "e_clock (nd_engine yes_node) = (\<lambda>_. 5)" "peers_of (nd_vault yes_node) = [asked_record]" "nd_count yes_node = Map.empty"
  by (simp_all add: yes_node_def one_peer_def demo_engine_def asked_record_def)

lemma yes_settles: "rule_settles (nv_env both_ends) open_policy OriginPeer asked_msg"
proof -
  have v: "VerifyRequest L say fb asked_msg = (asked_msg, [])" for L say fb
    by (simp add: VerifyRequest_def asked_msg_def demo_request_def empty_request_def get_sshsig_def)
  show ?thesis
    by (simp add: rule_settles_def v open_approves)
       (simp add: asked_msg_def demo_request_def empty_request_def must_prompt_def get_ssh_auth_def)
qed

lemma yes_answer:
  "\<exists>sent m' a. run_state (RequestApproval both_ends (Some caller_F) ''B'' [] None (None, None)) yes_node = (Some (Inr sent), m') \<and>
     map_option av_approval (decided_event sent) = Some (Some a)"
proof -
  define e where "e = ticked (ticked (nd_engine yes_node))"
  have e: "e_identity e = toy_identity" "e_policy e = open_policy" "e_clock e = (\<lambda>_. 5)"
    using yes_engine by (simp_all add: e_def ticked_def rest_of_def)
  have rr: "rule_response (nv_env both_ends) toy_identity open_policy asked_msg ''B'' 5 = yes_response"
    by (simp add: yes_response_def rule_response_def both_ends_def)
  obtain a where a: "SignApproval toy_lib (only_codec yes_response) toy_identity (Some yes_response) = Inr a"
    using toy_signs(1) by blast
  have ids: "ar_request_id asked_msg \<noteq> []" "ar_created_at asked_msg \<noteq> None"
    by (simp_all add: asked_msg_def demo_request_def)
  obtain e' where s: "run_state (SubmitPeer (nv_env both_ends) (Some asked_msg) (Some ''B'') [] None) e =
      (Some (Inr (yes_response, Some a)), e')"
    using submit_rule_response [where X = "nv_env both_ends" and e = e and origin = OriginPeer and msg = asked_msg and t = 5
        and body = "''B''" and a = a and evs = "[]" and shown = None]
      yes_settles ids both_ends_env e rr a unfolding SubmitPeer_def by auto
  have p: "Peer (nv_fold both_ends) (pi_fingerprint caller_F) (nd_vault yes_node) = Some asked_record"
    by (simp add: Peer_def yes_engine both_ends_env MatchesRef_def asked_record_def caller_F_def)
  have m: "parseSignRequest both_ends ''B'' = Inr demo_request"
    by (simp add: parseSignRequest_def both_ends_env)
  have k: "ar_kind demo_request \<noteq> REQUEST_KIND_PAIRING" by (simp add: demo_request_def)
  have r: "tr_may_request asked_record" by (simp add: asked_record_def)
  define n1 where "n1 = snd (run_state (authorize both_ends (Some caller_F)) yes_node)"
  have au: "run_state (authorize both_ends (Some caller_F)) yes_node = (Inr (caller_F, asked_record), n1)"
    using p r by (simp add: n1_def authorize_def find_peer_def run_saw)
  have n1: "nd_engine n1 = ticked (nd_engine yes_node)" "nd_count n1 = Map.empty"
    using authorize_Inr(4) [OF au] yes_engine by simp_all
  have "\<exists>sent n2. run_state (decide_for_peer both_ends caller_F asked_record ''B'' [] None (None, None)) (n1\<lparr>nd_count := c\<rparr>) =
      (Some (Inr sent), n2) \<and> map_option av_approval (decided_event sent) = Some (Some a)" for c
    using m k s n1 by (simp add: decide_for_peer_def asked_msg_def [symmetric] e_def [symmetric] decided_event_def)
  then obtain sent n2 where d: "run_state (decide_for_peer both_ends caller_F asked_record ''B'' [] None (None, None))
      (n1\<lparr>nd_count := [pi_fingerprint caller_F \<mapsto> 1]\<rparr>) = (Some (Inr sent), n2)"
    "map_option av_approval (decided_event sent) = Some (Some a)" by blast
  then show ?thesis
    using au n1 by (auto simp: RequestApproval_def with_slot_def take_slot_def free_slot_def acquire_def maxDecisionsPerPeer_def)
qed


theorem peer_answer_is_theirs_witness:
  "\<exists>over answer n' a. run_state (ask_over both_ends the_link ''r1'' ''B'' (Digest (x_ssh (nv_env both_ends)) ''B'') None [over]) yes_node =
     (Inr answer, n') \<and> an_signed answer = Some a"
proof -
  obtain a where a: "SignApproval toy_lib (only_codec yes_response) toy_identity (Some yes_response) = Inr a"
    using toy_signs(1) by blast
  define over where "over = \<lparr>at_tunnel = False, at_answer = (\<lambda>_ :: bytes. Stream [\<lparr>av_kind = APPROVAL_EVENT_KIND_DECIDED,
      av_timestamp = None, av_approval = Some a\<rparr>] None), at_given_up = False\<rparr>"
  have y: "rs_request_id yes_response = ''r1''" "rs_request_digest yes_response = Digest toy_lib ''B''"
    "rs_delegation yes_response = None"
    by (simp_all add: yes_response_def rule_response_def asked_msg_def demo_request_def demo_env_def Let_def)
  have "pk_marshal (sr_public (id_signer toy_identity)) = pk_marshal (ln_key the_link)"
    by (simp add: toy_identity_def toy_signer_def the_link_def)
  from answer_accepted [OF toy_identity_law toy_laws(1) only_codec_law a this, of asked_record]
  obtain answer n' where r: "run_state (ask_over both_ends the_link ''r1'' ''B'' (Digest (x_ssh (nv_env both_ends)) ''B'') None [over]) yes_node =
      (Inr answer, n')"
    by (simp add: ask_def over_def decided_event_def both_ends_env y the_link_def acceptDelegation_def)
  from peer_answer_is_theirs [OF r] r show ?thesis by blast
qed

end
