(* ===== verification/Peer_Borrow.thy ===== *)
theory Peer_Borrow
  imports Peer_Answers "HOL-Library.Char_ord" "HOL-Library.List_Lexorder" "HOL-Library.Product_Lexorder"
begin

text \<open>
  Borrowing a signature, the requester's half of \<^verbatim>\<open>src/pkg/peer/keys.go\<close>: which keys the paired holders
  lend, in which order they are asked, and what is checked of what comes back, down a link or out of
  the inbox a holder that cannot be dialled collects from (\<^verbatim>\<open>inbox.go\<close>).

  What the network does is an argument: a holder's targets say what a call over them returns, and the
  answers a collecting holder posts before the deadline are a list.
\<close>

section \<open>The keys that are lent\<close>

text \<open>
  A call to a holder over one target, and a link to a holder: its record and key, the keys it offers,
  when it was last there and the targets it can be called over.
\<close>

datatype sign_outcome =
    SignNotUp
  | SignFails string
  | SignAnswers RemoteSignResponse

record sign_target =
  st_answer :: "RemoteSignRequest \<Rightarrow> sign_outcome"
  st_given_up :: bool

record holder_link =
  ho_link :: remote_link
  ho_offered :: "key_ref list"
  ho_last_seen :: timestamp
  ho_targets :: "sign_target list"

abbreviation ho_fingerprint :: "holder_link \<Rightarrow> string" where
  "ho_fingerprint l \<equiv> tr_fingerprint (ln_record (ho_link l))"

abbreviation ho_name :: "holder_link \<Rightarrow> string" where
  "ho_name l \<equiv> tr_name (ln_record (ho_link l))"

text \<open>What a node knows of its holders besides the store: links, held polls, its tunnel version, whether it has wake-up routes.\<close>

record holders =
  hs_links :: "holder_link list"
  hs_polling :: "string \<Rightarrow> bool"
  hs_tunnel_version :: int
  hs_wakeups :: bool

record BorrowedKeyStatus =
  bs_key :: key_ref
  bs_peer :: string
  bs_peer_fingerprint :: string
  bs_available :: bool
  bs_last_seen_at :: timestamp
  bs_held_here :: bool

definition sortedLinks :: "holders \<Rightarrow> holder_link list" where
  "sortedLinks hs = sort_key ho_fingerprint (hs_links hs)"

definition heldHere :: "'raw node_env \<Rightarrow> vault \<Rightarrow> string \<Rightarrow> bool" where
  "heldHere V v fp = (nv_keys V \<noteq> None \<and> list_ex (\<lambda>ref. kr_fingerprint ref = fp) (KeyRefs v))"

definition canCollectFor :: "holders \<Rightarrow> trust_record \<Rightarrow> vault \<Rightarrow> bool" where
  "canCollectFor hs record v =
     (if \<not> tr_may_approve record then False
      else if hs_polling hs (tr_fingerprint record) then True
      else if \<not> hs_wakeups hs then False
      else case PeerWakeup (tr_fingerprint record) v of None \<Rightarrow> False | Some w \<Rightarrow> pw_route w \<noteq> None)"

definition link_to :: "holders \<Rightarrow> string \<Rightarrow> holder_link option" where
  "link_to hs fp = find (\<lambda>l. ho_fingerprint l = fp) (rev (sortedLinks hs))"

definition paired_record :: "vault \<Rightarrow> string \<Rightarrow> trust_record option" where
  "paired_record v fp = find (\<lambda>r. tr_fingerprint r = fp) (rev (peers_of v))"

definition borrowed_status ::
    "'raw node_env \<Rightarrow> holders \<Rightarrow> vault \<Rightarrow> borrowed_key \<Rightarrow> trust_record \<Rightarrow> BorrowedKeyStatus" where
  "borrowed_status V hs v b record =
     (let holder = bk_peer_fingerprint b; l = link_to hs holder;
          available = (case l of
             None \<Rightarrow> canCollectFor hs record v
           | Some l \<Rightarrow> list_ex (\<lambda>ref. kr_fingerprint ref = kr_fingerprint (bk_key b)) (ho_offered l))
      in \<lparr>bs_key = bk_key b, bs_peer = tr_name record, bs_peer_fingerprint = holder, bs_available = available,
          bs_last_seen_at = (case l of
             Some l \<Rightarrow> if ho_last_seen l \<noteq> None \<and> available then ho_last_seen l else bk_last_seen_at b
           | None \<Rightarrow> bk_last_seen_at b),
          bs_held_here = heldHere V v (kr_fingerprint (bk_key b))\<rparr>)"

text \<open>Equal peers and labels stay in the order of the store; the code's sort promises no order for them.\<close>

definition BorrowedKeys :: "'raw node_env \<Rightarrow> holders \<Rightarrow> vault \<Rightarrow> BorrowedKeyStatus list" where
  "BorrowedKeys V hs v =
     sort_key (\<lambda>b. (bs_peer b, kr_label (bs_key b)))
       (concat (map (\<lambda>b. case paired_record v (bk_peer_fingerprint b) of
                       None \<Rightarrow> [] | Some record \<Rightarrow> [borrowed_status V hs v b record]) (borrowed_of v)))"

definition RemoteKeyRefs :: "'raw node_env \<Rightarrow> holders \<Rightarrow> vault \<Rightarrow> key_ref list" where
  "RemoteKeyRefs V hs v = map bs_key (filter (\<lambda>b. bs_available b \<and> \<not> bs_held_here b) (BorrowedKeys V hs v))"

definition BorrowedKey :: "'raw node_env \<Rightarrow> holders \<Rightarrow> vault \<Rightarrow> bytes \<Rightarrow> key_ref option" where
  "BorrowedKey V hs v blob = map_option bs_key (find (\<lambda>b. kr_public_key (bs_key b) = blob) (BorrowedKeys V hs v))"

definition rememberKeys :: "string \<Rightarrow> key_ref list \<Rightarrow> unit nd" where
  "rememberKeys fp keys = do {
     _ \<leftarrow> in_engine (on_vault_at (\<lambda>sv now. SetBorrowedKeys sv fp keys now));
     State_Monad.return ()
   }"

section \<open>What revoking a pairing takes along\<close>

definition dropPeerDelegations :: "'raw node_env \<Rightarrow> trust_record \<Rightarrow> unit nd" where
  "dropPeerDelegations V record =
     (if \<not> nv_delegations V then State_Monad.return ()
      else do { _ \<leftarrow> in_engine (on_vault (\<lambda>sv. DropDelegationsFrom sv (tr_fingerprint record))); State_Monad.return () })"

definition dropPeerEndorsements :: "'raw node_env \<Rightarrow> trust_record \<Rightarrow> unit nd" where
  "dropPeerEndorsements V record =
     (if \<not> nv_endorsements V then State_Monad.return ()
      else do {
        _ \<leftarrow> in_engine (on_vault (\<lambda>sv. DropEndorsementsFrom sv (tr_fingerprint record)));
        _ \<leftarrow> in_engine (on_vault (\<lambda>sv. DropEndorsementsAbout sv (tr_fingerprint record)));
        State_Monad.return ()
      })"

definition dropPeerWakeup :: "holders \<Rightarrow> trust_record \<Rightarrow> unit nd" where
  "dropPeerWakeup hs record =
     (if \<not> hs_wakeups hs then State_Monad.return ()
      else do { _ \<leftarrow> in_engine (on_vault (\<lambda>sv. DropPeerWakeup sv (tr_fingerprint record))); State_Monad.return () })"

text \<open>A failure to drop the keys ends it; the rest does not depend on each other.\<close>

definition dropPeerKeys :: "'raw node_env \<Rightarrow> holders \<Rightarrow> trust_record \<Rightarrow> unit nd" where
  "dropPeerKeys V hs record = do {
     r \<leftarrow> in_engine (on_vault (\<lambda>sv. DropBorrowedKeys sv (tr_fingerprint record)));
     case r of
       Inl e \<Rightarrow> State_Monad.return ()
     | Inr _ \<Rightarrow> do {
         dropPeerDelegations V record;
         dropPeerEndorsements V record;
         dropPeerWakeup hs record
       }
   }"

section \<open>Checking what comes back\<close>

datatype verify_error =
    KeyUnparsed string
  | NoBlob peer_error
  | SignatureUnparsed string
  | DoesNotVerify string

definition verifySignature ::
    "ssh_lib \<Rightarrow> key_ref option \<Rightarrow> bytes \<Rightarrow> bool \<Rightarrow> sshsig_request option \<Rightarrow> bytes \<Rightarrow> verify_error option" where
  "verifySignature L key payload wrapSSHSIG sig signature =
     (case lib_parse_public L (getf kr_public_key [] key) of
        Inl e \<Rightarrow> Some (KeyUnparsed e)
      | Inr pub \<Rightarrow>
          (case blobFor L payload wrapSSHSIG sig of
             Inl e \<Rightarrow> Some (NoBlob e)
           | Inr blob \<Rightarrow>
               (case lib_unmarshal_signature L signature of
                  Inl e \<Rightarrow> Some (SignatureUnparsed e)
                | Inr parsed \<Rightarrow> map_option DoesNotVerify (lib_verify L pub blob parsed))))"

datatype borrow_error =
    ErrNoRemoteKey string
  | ErrHolderUnreachable string string timestamp
  | BorrowRefused ask_error
  | NoHolderAddress
  | HolderTunnelDown string
  | AskToSign string string
  | WrongAnswer answer_error
  | ApprovedWithoutSigning string
  | SignatureNotUsable string verify_error
  | DidNotAnswer string
  | NothingTried

definition acceptBorrowedSignature ::
    "'raw node_env \<Rightarrow> string \<Rightarrow> approval_request \<Rightarrow> bytes \<Rightarrow> bool \<Rightarrow> Answer \<Rightarrow> approval_response \<Rightarrow> bytes
       \<Rightarrow> (borrow_error + RemoteSignResponse) nd" where
  "acceptBorrowedSignature V holder msg payload wrapSSHSIG answer decision signature = do {
     let decision' = decision\<lparr>rs_approver := an_approver answer, rs_reason := an_reason answer\<rparr>;
     in_engine (Delegated (nv_env V) msg decision' (an_signed answer));
     acceptEndorsement V (rs_endorsement decision');
     let out = \<lparr>rr_signature = signature, rr_approval = an_signed answer\<rparr>;
     State_Monad.return
       (if an_decision answer \<noteq> DECISION_APPROVE then Inr out
        else if signature = [] then Inl (ApprovedWithoutSigning holder)
        else case verifySignature (x_ssh (nv_env V)) (ar_key msg) payload wrapSSHSIG (get_sshsig msg) signature of
            Some e \<Rightarrow> Inl (SignatureNotUsable holder e)
          | None \<Rightarrow> Inr out)
   }"

definition checkSignature ::
    "'raw node_env \<Rightarrow> remote_link \<Rightarrow> approval_request \<Rightarrow> bytes \<Rightarrow> bytes \<Rightarrow> bool \<Rightarrow> RemoteSignResponse
       \<Rightarrow> (borrow_error + RemoteSignResponse) nd" where
  "checkSignature V l msg body payload wrapSSHSIG resp =
     (case answerFromPeer (x_ssh (nv_env V)) (x_response (nv_env V)) (ln_record l) (ln_key l) (rr_approval resp)
             (ar_request_id msg) (Digest (x_ssh (nv_env V)) body) of
        Inl e \<Rightarrow> State_Monad.return (Inl (WrongAnswer e))
      | Inr (answer, decision) \<Rightarrow>
          acceptBorrowedSignature V (tr_name (ln_record l)) msg payload wrapSSHSIG answer decision (rr_signature resp))"

section \<open>Asking one holder\<close>

definition waitFor :: "approval_request \<Rightarrow> duration" where
  "waitFor msg =
     (case ar_timeout msg of
        Some requested \<Rightarrow> if 0 < requested then requested
          else if ar_kind msg = REQUEST_KIND_SSH_AUTH then DefaultSSHAuthTimeout else DefaultSignTimeout
      | None \<Rightarrow> if ar_kind msg = REQUEST_KIND_SSH_AUTH then DefaultSSHAuthTimeout else DefaultSignTimeout)"

text \<open>\<^verbatim>\<open>context.WithTimeout\<close>: the earlier of the deadline there is and the new one.\<close>

definition within :: "timestamp \<Rightarrow> time \<Rightarrow> duration \<Rightarrow> timestamp" where
  "within deadline now wait = Some (case deadline of None \<Rightarrow> now + wait | Some d \<Rightarrow> min d (now + wait))"

definition borrowing_requester :: "'raw node_env \<Rightarrow> Identity \<Rightarrow> approval_request \<Rightarrow> requester_info" where
  "borrowing_requester V ident msg = empty_requester\<lparr>ri_instance_id := Fingerprint (x_ssh (nv_env V)) ident,
     ri_name := id_name ident, ri_headless := nv_headless V, ri_process := requester_process msg\<rparr>"

definition outgoingSign ::
    "'raw node_env \<Rightarrow> timestamp \<Rightarrow> approval_request \<Rightarrow> (ask_error + approval_request \<times> bytes) nd" where
  "outgoingSign V deadline msg = do {
     ident \<leftarrow> asks_node (\<lambda>n. e_identity (nd_engine n));
     r \<leftarrow> with_deadline deadline (msg\<lparr>ar_requester := Some (borrowing_requester V ident msg)\<rparr>);
     State_Monad.return (case r of Inl e \<Rightarrow> Inl e | Inr out \<Rightarrow> serialized V out)
   }"

fun sign_over ::
    "'raw node_env \<Rightarrow> remote_link \<Rightarrow> approval_request \<Rightarrow> RemoteSignRequest \<Rightarrow> borrow_error option \<Rightarrow> sign_target list
       \<Rightarrow> (borrow_error + RemoteSignResponse) nd" where
  "sign_over V l out request lastErr [] =
     State_Monad.return (Inl (case lastErr of None \<Rightarrow> HolderTunnelDown (tr_name (ln_record l)) | Some e \<Rightarrow> e))"
| "sign_over V l out request lastErr (over # rest) =
     (case st_answer over request of
        SignNotUp \<Rightarrow> sign_over V l out request lastErr rest
      | SignFails e \<Rightarrow>
          (let err = AskToSign (tr_name (ln_record l)) e
           in if st_given_up over then State_Monad.return (Inl err)
              else sign_over V l out request (Some err) rest)
      | SignAnswers resp \<Rightarrow>
          checkSignature V l out (sq_request request) (sq_payload request) (sq_wrap_sshsig request) resp)"

definition signOverLink ::
    "'raw node_env \<Rightarrow> holder_link \<Rightarrow> timestamp \<Rightarrow> approval_request \<Rightarrow> bytes \<Rightarrow> bool \<Rightarrow> (borrow_error + RemoteSignResponse) nd" where
  "signOverLink V l deadline msg payload wrapSSHSIG = do {
     now \<leftarrow> now_n;
     r \<leftarrow> outgoingSign V (within deadline now (waitFor msg)) msg;
     case r of
       Inl e \<Rightarrow> State_Monad.return (Inl (BorrowRefused e))
     | Inr (out, body) \<Rightarrow>
         if ho_targets l = [] then State_Monad.return (Inl NoHolderAddress)
         else do {
           en \<leftarrow> endorsementFor V (key_fingerprint msg);
           sign_over V (ho_link l) out \<lparr>sq_request = body, sq_payload = payload, sq_wrap_sshsig = wrapSSHSIG,
             sq_endorsement = en\<rparr> None (ho_targets l)
         }
   }"

text \<open>A request that waits for a holder to come and get it, and what the holder handed back.\<close>

record parked_entry =
  pe_peer :: string
  pe_id :: string
  pe_body :: bytes
  pe_digest :: bytes
  pe_since :: time
  pe_deadline :: timestamp
  pe_payload :: bytes
  pe_wrap_sshsig :: bool
  pe_endorsement :: "signed_artifact option"

record collectedAnswer =
  ca_answer :: Answer
  ca_decision :: approval_response
  ca_signature :: bytes

definition wantsSignature :: "parked_entry \<Rightarrow> bool" where
  "wantsSignature waiting \<longleftrightarrow> pe_payload waiting \<noteq> []"

text \<open>\<^verbatim>\<open>AnswerPending\<close> for an entry that was found, up to settling it.\<close>

definition answer_parked ::
    "'raw node_env \<Rightarrow> trust_record \<Rightarrow> parked_entry \<Rightarrow> signed_artifact option \<Rightarrow> bytes \<Rightarrow> (rpc_error + collectedAnswer) nd" where
  "answer_parked V record waiting approval signature =
     (case Trust.PublicKey (lib_parse_public (x_ssh (nv_env V))) (lib_fingerprint (x_ssh (nv_env V))) record of
        Inl e \<Rightarrow> State_Monad.return (Inl (Rpc CodeInternal (BadRecord e)))
      | Inr key \<Rightarrow>
          (case answerFromPeer (x_ssh (nv_env V)) (x_response (nv_env V)) record key approval (pe_id waiting) (pe_digest waiting) of
             Inl e \<Rightarrow> State_Monad.return (Inl (Rpc CodePermissionDenied (AnswerRefused (tr_name record))))
           | Inr (answer, decision) \<Rightarrow>
               if wantsSignature waiting \<and> signature = [] \<and> an_decision answer = DECISION_APPROVE
               then State_Monad.return (Inl (Rpc CodeInvalidArgument NoSignatureInAnswer))
               else do {
                 acceptDelegation V record key decision;
                 State_Monad.return (Inr \<lparr>ca_answer = answer\<lparr>an_grant_ttl := 0\<rparr>, ca_decision = decision, ca_signature = signature\<rparr>)
               }))"

text \<open>The first post that is accepted settles the entry; \<^const>\<open>None\<close> when the deadline passes before one is.\<close>

fun collected ::
    "'raw node_env \<Rightarrow> trust_record \<Rightarrow> parked_entry \<Rightarrow> (signed_artifact option \<times> bytes) list \<Rightarrow> collectedAnswer option nd" where
  "collected V record waiting [] = State_Monad.return None"
| "collected V record waiting ((approval, signature) # posts) = do {
     r \<leftarrow> answer_parked V record waiting approval signature;
     case r of
       Inl e \<Rightarrow> collected V record waiting posts
     | Inr c \<Rightarrow> State_Monad.return (Some c)
   }"

definition signThroughInbox ::
    "'raw node_env \<Rightarrow> trust_record \<Rightarrow> timestamp \<Rightarrow> approval_request \<Rightarrow> bytes \<Rightarrow> bool \<Rightarrow> (signed_artifact option \<times> bytes) list
       \<Rightarrow> (borrow_error + RemoteSignResponse) nd" where
  "signThroughInbox V record deadline msg payload wrapSSHSIG posts = do {
     now \<leftarrow> now_n;
     r \<leftarrow> outgoingSign V (within deadline now (waitFor msg)) msg;
     case r of
       Inl e \<Rightarrow> State_Monad.return (Inl (BorrowRefused e))
     | Inr (out, body) \<Rightarrow> do {
         since \<leftarrow> now_n;
         en \<leftarrow> endorsementFor V (key_fingerprint msg);
         let waiting = \<lparr>pe_peer = tr_fingerprint record, pe_id = ar_request_id out, pe_body = body,
           pe_digest = Digest (x_ssh (nv_env V)) body, pe_since = since, pe_deadline = within deadline now (waitFor msg),
           pe_payload = payload, pe_wrap_sshsig = wrapSSHSIG, pe_endorsement = en\<rparr>;
         c \<leftarrow> collected V record waiting posts;
         case c of
           None \<Rightarrow> State_Monad.return (Inl (DidNotAnswer (tr_name record)))
         | Some c \<Rightarrow> acceptBorrowedSignature V (tr_name record) out payload wrapSSHSIG (ca_answer c) (ca_decision c) (ca_signature c)
       }
   }"

section \<open>Asking the holders in turn\<close>

datatype holderRoute =
    RouteLink holder_link
  | RouteInbox trust_record "(signed_artifact option \<times> bytes) list"

definition reportedNoApprover :: "'raw node_env \<Rightarrow> RemoteSignResponse \<Rightarrow> bool" where
  "reportedNoApprover V resp =
     (case VerifyApproval (x_ssh (nv_env V)) (x_response (nv_env V)) (rr_approval resp) of
        Inl e \<Rightarrow> False
      | Inr (decision, _) \<Rightarrow>
          rs_decision decision \<noteq> DECISION_APPROVE \<and> rs_source decision = DECISION_SOURCE_NO_APPROVER)"

definition collectingHoldersOf :: "'raw node_env \<Rightarrow> holders \<Rightarrow> vault \<Rightarrow> string \<Rightarrow> trust_record list" where
  "collectingHoldersOf V hs v fp =
     concat (map (\<lambda>b.
       if kr_fingerprint (bs_key b) \<noteq> fp \<or> \<not> bs_available b then []
       else case Peer (nv_fold V) (bs_peer_fingerprint b) v of
           None \<Rightarrow> []
         | Some record \<Rightarrow> if Dialable record (hs_tunnel_version hs) then [] else [record]) (BorrowedKeys V hs v))"

text \<open>\<open>posts\<close> says what a collecting holder posts before the deadline, by its fingerprint.\<close>

definition holderRoutes ::
    "'raw node_env \<Rightarrow> holders \<Rightarrow> vault \<Rightarrow> (string \<Rightarrow> (signed_artifact option \<times> bytes) list) \<Rightarrow> string \<Rightarrow> holderRoute list" where
  "holderRoutes V hs v posts fp =
     map RouteLink (filter (\<lambda>l. list_ex (\<lambda>ref. kr_fingerprint ref = fp) (ho_offered l)) (sortedLinks hs)) @
     map (\<lambda>r. RouteInbox r (posts (tr_fingerprint r))) (collectingHoldersOf V hs v fp)"

definition route_sign ::
    "'raw node_env \<Rightarrow> timestamp \<Rightarrow> approval_request \<Rightarrow> bytes \<Rightarrow> bool \<Rightarrow> holderRoute \<Rightarrow> (borrow_error + RemoteSignResponse) nd" where
  "route_sign V deadline msg payload wrapSSHSIG route =
     (case route of
        RouteLink l \<Rightarrow> signOverLink V l deadline msg payload wrapSSHSIG
      | RouteInbox record posts \<Rightarrow> signThroughInbox V record deadline msg payload wrapSSHSIG posts)"

text \<open>\<open>gone i\<close> says that the caller has given up by the time route \<open>i\<close> has failed.\<close>

fun try_routes ::
    "'raw node_env \<Rightarrow> timestamp \<Rightarrow> approval_request \<Rightarrow> bytes \<Rightarrow> bool \<Rightarrow> (nat \<Rightarrow> bool) \<Rightarrow> nat \<Rightarrow> holderRoute list
       \<Rightarrow> (borrow_error + RemoteSignResponse) nd" where
  "try_routes V deadline msg payload w gone i [] = State_Monad.return (Inl NothingTried)"
| "try_routes V deadline msg payload w gone i (route # rest) = do {
     r \<leftarrow> route_sign V deadline msg payload w route;
     case r of
       Inl e \<Rightarrow>
         if rest = [] \<or> gone i then State_Monad.return (Inl e)
         else try_routes V deadline msg payload w gone (Suc i) rest
     | Inr resp \<Rightarrow>
         if rest = [] \<or> \<not> reportedNoApprover V resp then State_Monad.return (Inr resp)
         else try_routes V deadline msg payload w gone (Suc i) rest
   }"

definition describeKey :: "key_ref \<Rightarrow> string" where
  "describeKey key = (if kr_label key \<noteq> [] then kr_label key else kr_fingerprint key)"

definition noHolder :: "'raw node_env \<Rightarrow> holders \<Rightarrow> vault \<Rightarrow> key_ref option \<Rightarrow> borrow_error" where
  "noHolder V hs v key =
     (case find (\<lambda>b. kr_fingerprint (bs_key b) = getf kr_fingerprint [] key) (BorrowedKeys V hs v) of
        Some b \<Rightarrow> ErrHolderUnreachable (bs_peer b) (describeKey (bs_key b)) (bs_last_seen_at b)
      | None \<Rightarrow> ErrNoRemoteKey (getf kr_fingerprint [] key))"

definition RemoteSign_ask ::
    "'raw node_env \<Rightarrow> holders \<Rightarrow> timestamp \<Rightarrow> (string \<Rightarrow> (signed_artifact option \<times> bytes) list) \<Rightarrow> (nat \<Rightarrow> bool)
       \<Rightarrow> approval_request \<Rightarrow> bytes \<Rightarrow> bool \<Rightarrow> (borrow_error + RemoteSignResponse) nd" where
  "RemoteSign_ask V hs deadline posts gone msg payload wrapSSHSIG = do {
     v \<leftarrow> asks_node nd_vault;
     let routes = holderRoutes V hs v posts (key_fingerprint msg);
     if routes = [] then State_Monad.return (Inl (noHolder V hs v (ar_key msg)))
     else try_routes V deadline msg payload wrapSSHSIG gone 0 routes
   }"

section \<open>What an accepted signature rests on\<close>

text \<open>
  The request as it was sent differs from the one that was asked about only in who asks and how long
  there is; an answer is genuine when it is the holder's own to exactly those bytes and an approval
  comes with a signature over the payload under the key that was asked for.
\<close>

definition sent_as :: "'raw node_env \<Rightarrow> approval_request \<Rightarrow> approval_request \<Rightarrow> bytes \<Rightarrow> bool" where
  "sent_as V msg out body \<longleftrightarrow> pc_marshal (nv_request V) out = Inr body \<and>
     out = msg\<lparr>ar_requester := ar_requester out, ar_timeout := ar_timeout out\<rparr>"

definition genuine ::
    "'raw node_env \<Rightarrow> trust_record \<Rightarrow> ssh_public_key \<Rightarrow> approval_request \<Rightarrow> bytes \<Rightarrow> bytes \<Rightarrow> bool \<Rightarrow> RemoteSignResponse \<Rightarrow> bool" where
  "genuine V record key msg body payload w resp \<longleftrightarrow>
     (\<exists>a decision pub. rr_approval resp = Some a \<and>
        VerifyApproval (x_ssh (nv_env V)) (x_response (nv_env V)) (Some a) = Inr (decision, pub) \<and> pk_marshal pub = pk_marshal key \<and>
        rs_request_id decision = ar_request_id msg \<and> rs_request_digest decision = Digest (x_ssh (nv_env V)) body \<and>
        (rs_decision decision = DECISION_APPROVE \<longrightarrow>
           verifySignature (x_ssh (nv_env V)) (ar_key msg) payload w (get_sshsig msg) (rr_signature resp) = None))"

lemma verifySignature_None:
  "verifySignature L key payload w sig signature = None \<longleftrightarrow>
     (\<exists>pub blob parsed. lib_parse_public L (getf kr_public_key [] key) = Inr pub \<and> blobFor L payload w sig = Inr blob \<and>
        lib_unmarshal_signature L signature = Inr parsed \<and> lib_verify L pub blob parsed = None)"
  by (auto simp: verifySignature_def split: sum.splits)

lemma acceptBorrowed_Inr:
  assumes "run_state (acceptBorrowedSignature V holder msg payload w answer decision signature) n = (Inr resp, n')"
  shows "resp = \<lparr>rr_signature = signature, rr_approval = an_signed answer\<rparr>"
    "an_decision answer = DECISION_APPROVE \<Longrightarrow>
       verifySignature (x_ssh (nv_env V)) (ar_key msg) payload w (get_sshsig msg) signature = None"
  using assms
  by (auto simp: acceptBorrowedSignature_def Let_def split: prod.splits if_splits option.splits)

lemma accepted_genuine:
  assumes "answerFromPeer (x_ssh (nv_env V)) (x_response (nv_env V)) rcd key artifact (ar_request_id msg)
      (Digest (x_ssh (nv_env V)) body) = Inr (answer, decision)"
    and "run_state (acceptBorrowedSignature V holder msg payload w (answer\<lparr>an_grant_ttl := t\<rparr>) decision signature) n = (Inr resp, n')"
  shows "genuine V rcd key msg body payload w resp"
proof -
  from assms(1) obtain a pub where a: "VerifyApproval (x_ssh (nv_env V)) (x_response (nv_env V)) (Some a) = Inr (decision, pub)"
    "pk_marshal pub = pk_marshal key" "rs_request_id decision = ar_request_id msg"
    "rs_request_digest decision = Digest (x_ssh (nv_env V)) body" "answer = answer_of rcd a decision"
    unfolding answerFromPeer_Inr by blast
  have r: "resp = \<lparr>rr_signature = signature, rr_approval = Some a\<rparr>"
    using acceptBorrowed_Inr(1) [OF assms(2)] a(5) by (simp add: answer_of_def)
  have "verifySignature (x_ssh (nv_env V)) (ar_key msg) payload w (get_sshsig msg) signature = None"
    if "rs_decision decision = DECISION_APPROVE"
    using acceptBorrowed_Inr(2) [OF assms(2)] that a(5) by (simp add: answer_of_def)
  with a r show ?thesis by (auto simp: genuine_def)
qed

lemma checkSignature_genuine:
  assumes "run_state (checkSignature V l msg body payload w resp0) n = (Inr resp, n')"
  shows "genuine V (ln_record l) (ln_key l) msg body payload w resp"
proof -
  let ?a = "answerFromPeer (x_ssh (nv_env V)) (x_response (nv_env V)) (ln_record l) (ln_key l) (rr_approval resp0)
      (ar_request_id msg) (Digest (x_ssh (nv_env V)) body)"
  obtain answer decision where a: "?a = Inr (answer, decision)"
    using assms by (auto simp: checkSignature_def split: sum.splits)
  have "answer = answer\<lparr>an_grant_ttl := an_grant_ttl answer\<rparr>" by simp
  with a assms have "run_state (acceptBorrowedSignature V (tr_name (ln_record l)) msg payload w
      (answer\<lparr>an_grant_ttl := an_grant_ttl answer\<rparr>) decision (rr_signature resp0)) n = (Inr resp, n')"
    by (simp add: checkSignature_def)
  from accepted_genuine [OF a this] show ?thesis .
qed

lemma sign_over_genuine:
  "run_state (sign_over V l out request lastErr targets) n = (Inr resp, n') \<Longrightarrow>
     genuine V (ln_record l) (ln_key l) out (sq_request request) (sq_payload request) (sq_wrap_sshsig request) resp"
  by (induction targets arbitrary: lastErr)
     (auto simp: Let_def intro: checkSignature_genuine split: sign_outcome.splits if_splits)

lemma outgoingSign_sent:
  assumes "run_state (outgoingSign V deadline msg) n = (Inr (out, body), n')"
  shows "sent_as V msg out body"
  using assms
  by (auto simp: outgoingSign_def with_deadline_def serialized_def sent_as_def split: option.splits sum.splits if_splits)

lemma sent_as_same:
  assumes "sent_as V msg out body"
  shows "ar_request_id out = ar_request_id msg" "ar_key out = ar_key msg" "get_sshsig out = get_sshsig msg"
    "ar_operation out = ar_operation msg" "ar_kind out = ar_kind msg" "ar_payload_sha256 out = ar_payload_sha256 msg"
proof -
  have o: "out = msg\<lparr>ar_requester := ar_requester out, ar_timeout := ar_timeout out\<rparr>" using assms by (simp add: sent_as_def)
  show "ar_request_id out = ar_request_id msg" by (subst o) simp
  show "ar_key out = ar_key msg" by (subst o) simp
  show op: "ar_operation out = ar_operation msg" by (subst o) simp
  show "ar_kind out = ar_kind msg" by (subst o) simp
  show "ar_payload_sha256 out = ar_payload_sha256 msg" by (subst o) simp
  show "get_sshsig out = get_sshsig msg" using op by (simp add: get_sshsig_def)
qed

lemma signOverLink_genuine:
  assumes "run_state (signOverLink V l deadline msg payload w) n = (Inr resp, n')"
  shows "\<exists>out body. sent_as V msg out body \<and> genuine V (ln_record (ho_link l)) (ln_key (ho_link l)) out body payload w resp"
proof -
  let ?n = "n\<lparr>nd_engine := ticked (nd_engine n)\<rparr>"
  obtain r n1 where r: "run_state (outgoingSign V (within deadline (e_clock (nd_engine n) 0) (waitFor msg)) msg) ?n = (r, n1)" by fastforce
  with assms obtain out body where o: "r = Inr (out, body)" and t: "ho_targets l \<noteq> []"
    by (auto simp: signOverLink_def split: sum.splits if_splits)
  obtain en n2 where e: "run_state (endorsementFor V (key_fingerprint msg)) n1 = (en, n2)" by fastforce
  have "run_state (sign_over V (ho_link l) out \<lparr>sq_request = body, sq_payload = payload, sq_wrap_sshsig = w,
      sq_endorsement = en\<rparr> None (ho_targets l)) n2 = (Inr resp, n')"
    using assms r o t e by (simp add: signOverLink_def)
  from sign_over_genuine [OF this] outgoingSign_sent [OF r [unfolded o]] show ?thesis by auto
qed

lemma answer_parked_Inr:
  assumes "run_state (answer_parked V rcd waiting approval signature) n = (Inr c, n')"
  obtains key answer where
    "Trust.PublicKey (lib_parse_public (x_ssh (nv_env V))) (lib_fingerprint (x_ssh (nv_env V))) rcd = Inr key"
    "answerFromPeer (x_ssh (nv_env V)) (x_response (nv_env V)) rcd key approval (pe_id waiting) (pe_digest waiting) =
       Inr (answer, ca_decision c)" "ca_answer c = answer\<lparr>an_grant_ttl := 0\<rparr>" "ca_signature c = signature"
    "wantsSignature waiting \<Longrightarrow> an_decision answer = DECISION_APPROVE \<Longrightarrow> signature \<noteq> []"
proof -
  let ?k = "Trust.PublicKey (lib_parse_public (x_ssh (nv_env V))) (lib_fingerprint (x_ssh (nv_env V))) rcd"
  obtain key where k: "?k = Inr key" using assms by (cases ?k) (auto simp: answer_parked_def)
  let ?a = "answerFromPeer (x_ssh (nv_env V)) (x_response (nv_env V)) rcd key approval (pe_id waiting) (pe_digest waiting)"
  obtain answer decision where a: "?a = Inr (answer, decision)" using assms k by (cases ?a) (auto simp: answer_parked_def)
  have w: "\<not> (wantsSignature waiting \<and> signature = [] \<and> an_decision answer = DECISION_APPROVE)"
    using assms k a by (auto simp: answer_parked_def)
  with assms k a have "c = \<lparr>ca_answer = answer\<lparr>an_grant_ttl := 0\<rparr>, ca_decision = decision, ca_signature = signature\<rparr>"
    by (auto simp: answer_parked_def split: prod.splits)
  with k a w show ?thesis by (intro that [of key answer]) auto
qed

lemma collected_Some:
  "run_state (collected V rcd waiting posts) n = (Some c, n') \<Longrightarrow>
     \<exists>post \<in> set posts. \<exists>n1 n2. run_state (answer_parked V rcd waiting (fst post) (snd post)) n1 = (Inr c, n2)"
proof (induction posts arbitrary: n)
  case (Cons post posts)
  obtain r n1 where r: "run_state (answer_parked V rcd waiting (fst post) (snd post)) n = (r, n1)" by fastforce
  have unfold: "run_state (collected V rcd waiting (post # posts)) n =
      (case r of Inl e \<Rightarrow> run_state (collected V rcd waiting posts) n1 | Inr c \<Rightarrow> (Some c, n1))"
    using r by (cases post) (simp split: sum.split)
  show ?case
  proof (cases r)
    case (Inl e)
    with Cons.prems unfold have "run_state (collected V rcd waiting posts) n1 = (Some c, n')" by simp
    from Cons.IH [OF this] show ?thesis by simp
  next
    case (Inr c')
    with Cons.prems unfold have "c' = c" by simp
    with r Inr show ?thesis by auto
  qed
qed simp

lemma signThroughInbox_genuine:
  assumes "run_state (signThroughInbox V rcd deadline msg payload w posts) n = (Inr resp, n')"
  shows "\<exists>key out body. Trust.PublicKey (lib_parse_public (x_ssh (nv_env V))) (lib_fingerprint (x_ssh (nv_env V))) rcd = Inr key \<and>
     sent_as V msg out body \<and> genuine V rcd key out body payload w resp"
proof -
  let ?n = "n\<lparr>nd_engine := ticked (nd_engine n)\<rparr>"
  let ?d = "within deadline (e_clock (nd_engine n) 0) (waitFor msg)"
  obtain r n1 where r: "run_state (outgoingSign V ?d msg) ?n = (r, n1)" by fastforce
  with assms obtain out body where o: "r = Inr (out, body)"
    by (auto simp: signThroughInbox_def split: sum.splits if_splits)
  let ?m = "n1\<lparr>nd_engine := ticked (nd_engine n1)\<rparr>"
  obtain en n2 where e: "run_state (endorsementFor V (key_fingerprint msg)) ?m = (en, n2)" by fastforce
  define waiting where "waiting = \<lparr>pe_peer = tr_fingerprint rcd, pe_id = ar_request_id out, pe_body = body,
    pe_digest = Digest (x_ssh (nv_env V)) body, pe_since = e_clock (nd_engine n1) 0, pe_deadline = ?d,
    pe_payload = payload, pe_wrap_sshsig = w, pe_endorsement = en\<rparr>"
  obtain c n3 where c: "run_state (collected V rcd waiting posts) n2 = (c, n3)" by fastforce
  from assms r o e c obtain c' where c': "c = Some c'" and
    acc: "run_state (acceptBorrowedSignature V (tr_name rcd) out payload w (ca_answer c') (ca_decision c') (ca_signature c')) n3 = (Inr resp, n')"
    by (auto simp: signThroughInbox_def waiting_def [symmetric] split: option.splits)
  from collected_Some [OF c [unfolded c']] obtain post m1 m2 where
    "run_state (answer_parked V rcd waiting (fst post) (snd post)) m1 = (Inr c', m2)" by blast
  then show ?thesis
  proof (cases rule: answer_parked_Inr)
    case (1 key answer)
    have a: "answerFromPeer (x_ssh (nv_env V)) (x_response (nv_env V)) rcd key (fst post) (ar_request_id out)
        (Digest (x_ssh (nv_env V)) body) = Inr (answer, ca_decision c')"
      using 1(2) by (simp add: waiting_def)
    from accepted_genuine [OF a acc [unfolded 1(3)]] 1(1) outgoingSign_sent [OF r [unfolded o]] show ?thesis by blast
  qed
qed

text \<open>The holders there are: the links, and the paired peers that collect.\<close>

definition holder_of :: "'raw node_env \<Rightarrow> holders \<Rightarrow> vault \<Rightarrow> trust_record \<Rightarrow> ssh_public_key \<Rightarrow> bool" where
  "holder_of V hs v record key \<longleftrightarrow>
     list_ex (\<lambda>l. ho_link l = \<lparr>ln_record = record, ln_key = key\<rparr>) (hs_links hs) \<or>
     record \<in> set (peers_of v) \<and>
     Trust.PublicKey (lib_parse_public (x_ssh (nv_env V))) (lib_fingerprint (x_ssh (nv_env V))) record = Inr key"

lemma try_routes_Inr:
  "run_state (try_routes V deadline msg payload w gone i routes) n = (Inr resp, n') \<Longrightarrow>
     \<exists>route \<in> set routes. \<exists>n1. run_state (route_sign V deadline msg payload w route) n1 = (Inr resp, n')"
proof (induction routes arbitrary: i n)
  case (Cons route rest)
  obtain r n1 where r: "run_state (route_sign V deadline msg payload w route) n = (r, n1)" by fastforce
  show ?case
  proof (cases "run_state (try_routes V deadline msg payload w gone (Suc i) rest) n1 = (Inr resp, n')")
    case True
    from Cons.IH [OF this] show ?thesis by auto
  next
    case False
    with Cons.prems r have "r = Inr resp \<and> n1 = n'" by (auto split: sum.splits if_splits)
    with r show ?thesis by auto
  qed
qed simp

lemma collecting_paired: "r \<in> set (collectingHoldersOf V hs v fp) \<Longrightarrow> r \<in> set (peers_of v)"
  by (auto simp: collectingHoldersOf_def Peer_def split: if_splits option.splits dest!: sym [of "Some r"] find_SomeD)

lemma route_genuine:
  assumes "run_state (route_sign V deadline msg payload w route) n = (Inr resp, n')"
    and "route \<in> set (holderRoutes V hs v posts fp)"
  shows "\<exists>rcd key out body. holder_of V hs v rcd key \<and> sent_as V msg out body \<and> genuine V rcd key out body payload w resp"
proof (cases route)
  case (RouteLink l)
  with assms(2) have "l \<in> set (hs_links hs)" by (auto simp: holderRoutes_def sortedLinks_def)
  then have "holder_of V hs v (ln_record (ho_link l)) (ln_key (ho_link l))"
    unfolding holder_of_def list_ex_iff by (intro disjI1 bexI [of _ l]) simp_all
  moreover obtain out body where "sent_as V msg out body"
    "genuine V (ln_record (ho_link l)) (ln_key (ho_link l)) out body payload w resp"
    using signOverLink_genuine [of V l deadline msg payload w n resp n'] assms(1) RouteLink by (auto simp: route_sign_def)
  ultimately show ?thesis by blast
next
  case (RouteInbox rcd ps)
  with assms(2) have "rcd \<in> set (peers_of v)" by (auto simp: holderRoutes_def dest: collecting_paired)
  moreover obtain key out body where
    "Trust.PublicKey (lib_parse_public (x_ssh (nv_env V))) (lib_fingerprint (x_ssh (nv_env V))) rcd = Inr key"
    "sent_as V msg out body" "genuine V rcd key out body payload w resp"
    using signThroughInbox_genuine [of V rcd deadline msg payload w ps n resp n'] assms(1) RouteInbox by (auto simp: route_sign_def)
  ultimately show ?thesis unfolding holder_of_def by blast
qed

lemma RemoteSign_ask_genuine:
  assumes "run_state (RemoteSign_ask V hs deadline posts gone msg payload w) n = (Inr resp, n')"
  shows "\<exists>rcd key out body. holder_of V hs (nd_vault n) rcd key \<and> sent_as V msg out body \<and> genuine V rcd key out body payload w resp"
proof -
  have "run_state (try_routes V deadline msg payload w gone 0 (holderRoutes V hs (nd_vault n) posts (key_fingerprint msg))) n = (Inr resp, n')"
    using assms by (auto simp: RemoteSign_ask_def Let_def split: if_splits)
  from try_routes_Inr [OF this] show ?thesis using route_genuine by blast
qed

lemma try_routes_settled:
  "run_state (try_routes V deadline msg payload w gone i routes) n = (Inr resp, n') \<Longrightarrow> \<not> reportedNoApprover V resp \<Longrightarrow>
     run_state (try_routes V deadline msg payload w gone i (routes @ others)) n = (Inr resp, n')"
proof (induction routes arbitrary: i n)
  case (Cons route rest)
  obtain r n1 where r: "run_state (route_sign V deadline msg payload w route) n = (r, n1)" by fastforce
  have step: "run_state (try_routes V deadline msg payload w gone i (route # rs)) n =
      (case r of
         Inl e \<Rightarrow> if rs = [] \<or> gone i then (Inl e, n1) else run_state (try_routes V deadline msg payload w gone (Suc i) rs) n1
       | Inr resp \<Rightarrow> if rs = [] \<or> \<not> reportedNoApprover V resp then (Inr resp, n1)
           else run_state (try_routes V deadline msg payload w gone (Suc i) rs) n1)" for rs
    using r by (simp split: sum.split)
  show ?case
  proof (cases r)
    case (Inl e)
    with Cons.prems(1) step have "rest \<noteq> []" "\<not> gone i"
      "run_state (try_routes V deadline msg payload w gone (Suc i) rest) n1 = (Inr resp, n')"
      by (auto split: if_splits)
    with Inl step [of "rest @ others"] Cons.IH [OF this(3) Cons.prems(2)] show ?thesis by simp
  next
    case (Inr resp')
    show ?thesis
    proof (cases "rest = [] \<or> \<not> reportedNoApprover V resp'")
      case True
      with Inr Cons.prems(1) step have "resp' = resp" "n1 = n'" by auto
      with Inr step [of "rest @ others"] Cons.prems(2) show ?thesis by simp
    next
      case False
      with Inr Cons.prems(1) step have "run_state (try_routes V deadline msg payload w gone (Suc i) rest) n1 = (Inr resp, n')" by simp
      with Inr False step [of "rest @ others"] Cons.IH [OF this Cons.prems(2)] show ?thesis by simp
    qed
  qed
qed simp

section \<open>The agent's way to the peers\<close>

text \<open>
  The node as the agent's \<^verbatim>\<open>RemoteKeys\<close>: what it knew of its holders before the agent had it look again and
  after. What a call leaves in the engine is not seen by the agent's own run.
\<close>

definition node_remote ::
    "'raw node_env \<Rightarrow> holders \<Rightarrow> holders \<Rightarrow> timestamp \<Rightarrow> (string \<Rightarrow> (signed_artifact option \<times> bytes) list) \<Rightarrow> (nat \<Rightarrow> bool)
       \<Rightarrow> (borrow_error \<Rightarrow> string) \<Rightarrow> Node \<Rightarrow> remote_keys" where
  "node_remote V before after deadline posts gone describe n =
     \<lparr>rk_refs = RemoteKeyRefs V before (nd_vault n), rk_refreshed = RemoteKeyRefs V after (nd_vault n),
      rk_borrowed = BorrowedKey V after (nd_vault n),
      rk_sign = (\<lambda>req data w. map_sum describe id (fst (run_state (RemoteSign_ask V after deadline posts gone req data w) n)))\<rparr>"

lemma BorrowedKey_public: "BorrowedKey V hs v blob = Some ref \<Longrightarrow> kr_public_key ref = blob"
  by (auto simp: BorrowedKey_def dest: find_SomeD)

lemma node_borrows_honestly:
  "av_remote A = Some (node_remote V before after deadline posts gone describe n) \<Longrightarrow> borrows_honestly A"
  by (auto simp: borrows_honestly_def node_remote_def dest: BorrowedKey_public)

definition borrowed_rightly ::
    "'raw node_env \<Rightarrow> holders \<Rightarrow> vault \<Rightarrow> approval_request \<Rightarrow> bytes \<Rightarrow> bytes \<Rightarrow> ssh_signature \<Rightarrow> bool" where
  "borrowed_rightly V hs v req blob data sig \<longleftrightarrow>
     (\<exists>pub. lib_parse_public (x_ssh (nv_env V)) blob = Inr pub \<and> lib_verify (x_ssh (nv_env V)) pub data sig = None) \<and>
     (\<exists>rcd key out body resp. holder_of V hs v rcd key \<and> sent_as V req out body \<and> genuine V rcd key out body data False resp)"

lemma remotely_borrowed:
  assumes "backed_remotely A req data sig" "ar_key req = Some ref"
    and "av_remote A = Some (node_remote V before after deadline posts gone describe n)" "av_env A = nv_env V"
  shows "borrowed_rightly V after (nd_vault n) req (kr_public_key ref) data sig"
proof -
  let ?L = "x_ssh (nv_env V)"
  from assms(1,3,4) obtain resp decision approver where
    r: "fst (run_state (RemoteSign_ask V after deadline posts gone req data False) n) = Inr resp"
    and v: "VerifyApproval ?L (x_response (nv_env V)) (rr_approval resp) = Inr (decision, approver)"
      "rs_decision decision = DECISION_APPROVE" and u: "lib_unmarshal_signature ?L (rr_signature resp) = Inr sig"
    by (auto simp: backed_remotely_def node_remote_def map_sum_def split: sum.splits)
  from r obtain n' where "run_state (RemoteSign_ask V after deadline posts gone req data False) n = (Inr resp, n')"
    by (metis prod.collapse)
  from RemoteSign_ask_genuine [OF this] obtain rcd key out body where
    h: "holder_of V after (nd_vault n) rcd key" "sent_as V req out body" and g: "genuine V rcd key out body data False resp" by blast
  from g v have "verifySignature ?L (ar_key out) data False (get_sshsig out) (rr_signature resp) = None"
    by (auto simp: genuine_def)
  then have "\<exists>pub. lib_parse_public ?L (kr_public_key ref) = Inr pub \<and> lib_verify ?L pub data sig = None"
    using sent_as_same(2) [OF h(2)] assms(2) u by (auto simp: verifySignature_None blobFor_def split: if_splits)
  with h g show ?thesis unfolding borrowed_rightly_def by blast
qed

section \<open>Both ends of a borrowed signature\<close>

lemma signBlob_verifies:
  assumes "key_law L signer" "signBlob signer blob algorithm = Inr s"
  shows "lib_verify L (sr_public signer) blob s = None"
  using assms
  by (auto simp: signBlob_def SignBlob_def key_law_def Let_def map_sum_def split: if_splits option.splits sum.splits)

text \<open>A key the request names signs under the public key the request names.\<close>

definition lends_honestly :: "'raw node_env \<Rightarrow> vault \<Rightarrow> approval_request \<Rightarrow> bool" where
  "lends_honestly W v msg \<longleftrightarrow>
     (\<forall>keys ref signer k. nv_keys W = Some keys \<longrightarrow> ref \<in> set (KeyRefs v) \<longrightarrow> named_key (ar_key msg) ref \<longrightarrow>
        Signer keys (nv_hw W) (nv_hardware W) (nv_gate W) (kr_fingerprint ref) v = Inr (signer, k) \<longrightarrow>
        key_law (x_ssh (nv_env W)) signer \<and> pk_marshal (sr_public signer) = getf kr_public_key [] (ar_key msg))"

lemma Signer_keys: "keys_of v' = keys_of v \<Longrightarrow> Signer keys H hw g fp v' = Signer keys H hw g fp v"
  by (simp add: Signer_def)

lemma submit_keys:
  "run_state (submit X msg body origin evs shown) e = (r, e') \<Longrightarrow> keys_of (e_vault e') = keys_of (e_vault e)"
  using frameD [OF trust.frame_submit [of X msg body origin evs shown], of e] by (simp add: same_trust_def trust_part_def)

lemma RemoteSign_made:
  assumes "run_state (RemoteSign W peer req evs shown) m = (Some (Inr resp), m')" and "rr_signature resp \<noteq> []"
    and "pc_unmarshal (nv_request W) (sq_request req) = Inr out" "ar_request_id out \<noteq> []"
  obtains a r ref blob signer k s keys alg where "rr_approval resp = Some a" "rs_request_id r = ar_request_id out"
    "rs_request_digest r = Digest (x_ssh (nv_env W)) (sq_request req)" "rs_decision r = DECISION_APPROVE"
    "SignApproval (x_ssh (nv_env W)) (x_response (nv_env W)) (e_identity (nd_engine m)) (Some r) = Inr a"
    "ref \<in> set (KeyRefs (nd_vault m))" "named_key (ar_key out) ref" "nv_keys W = Some keys"
    "Signer keys (nv_hw W) (nv_hardware W) (nv_gate W) (kr_fingerprint ref) (nd_vault m) = Inr (signer, k)"
    "blobFor (x_ssh (nv_env W)) (sq_payload req) (sq_wrap_sshsig req) (get_sshsig out) = Inr blob"
    "signBlob signer blob alg = Inr s" "rr_signature resp = lib_marshal_signature (x_ssh (nv_env W)) s"
  using assms(1)
proof (cases rule: RemoteSign_Inr)
  case (1 p rcd msg n2)
  have m: "msg = out" using 1(4) assms(3) by (auto simp: parseSignRequest_def split: if_splits)
  from 1(5) show ?thesis
  proof (cases rule: signForPeer_cases)
    case (refused ref blob msg' r)
    with assms(2) show ?thesis by simp
  next
    case (made keys ref blob msg' r e signer k s)
    note t = rebuilt_true [OF made(2)]
    note f = deciding_node_frame [of W p req m]
    have id: "ar_request_id msg' = ar_request_id out" using rebuilt_id [OF made(2)] m by simp
    have "ar_request_id msg' \<noteq> []" using id assms(4) by simp
    note names = submit_names [OF made(3) this]
    obtain a where a: "rr_approval resp = Some a"
      "SignApproval (x_ssh (nv_env W)) (x_response (nv_env W)) (e_identity (nd_engine m)) (Some r) = Inr a"
      using submit_peer_backed(3) [OF made(3,4)] f by auto
    have "Signer keys (nv_hw W) (nv_hardware W) (nv_gate W) (kr_fingerprint ref) (nd_vault m) = Inr (signer, k)"
      using made(5) submit_keys [OF made(3)] f Signer_keys [of "e_vault e" "nd_vault m"] by metis
    moreover have "ref \<in> set (KeyRefs (nd_vault m))" "named_key (ar_key out) ref"
      using find_SomeD [OF t(1)] f m by (simp_all add: KeyRefs_def)
    ultimately show ?thesis
      using that a names(1,2) id made(1,4,6,7) t(3) m by metis
  qed
qed

section \<open>Properties\<close>

text \<open>
  A borrowed signature is the one that was asked for. Whatever the holders and the network do, what is
  returned for a request comes from a linked holder or a paired one that collects, is that holder's
  signed decision on this request's identifier and exactly the bytes that were sent, and when the
  decision is an approval the signature beside it verifies over the bytes the payload stands for
  under the public key the request names.
\<close>

theorem borrowed_signature_genuine:
  assumes "run_state (RemoteSign_ask V hs deadline posts gone msg payload w) n = (Inr resp, n')"
  shows "\<exists>rcd key out body a decision pub. holder_of V hs (nd_vault n) rcd key \<and> sent_as V msg out body \<and>
    rr_approval resp = Some a \<and>
    VerifyApproval (x_ssh (nv_env V)) (x_response (nv_env V)) (Some a) = Inr (decision, pub) \<and> pk_marshal pub = pk_marshal key \<and>
    rs_request_id decision = ar_request_id msg \<and> rs_request_digest decision = Digest (x_ssh (nv_env V)) body \<and>
    (rs_decision decision = DECISION_APPROVE \<longrightarrow>
      (\<exists>named blob sig. lib_parse_public (x_ssh (nv_env V)) (getf kr_public_key [] (ar_key msg)) = Inr named \<and>
        blobFor (x_ssh (nv_env V)) payload w (get_sshsig msg) = Inr blob \<and>
        lib_unmarshal_signature (x_ssh (nv_env V)) (rr_signature resp) = Inr sig \<and>
        lib_verify (x_ssh (nv_env V)) named blob sig = None))"
proof -
  obtain rcd key out body where h: "holder_of V hs (nd_vault n) rcd key" "sent_as V msg out body"
    and g: "genuine V rcd key out body payload w resp" using RemoteSign_ask_genuine [OF assms] by blast
  note same = sent_as_same [OF h(2)]
  from g obtain a decision pub where "rr_approval resp = Some a"
    "VerifyApproval (x_ssh (nv_env V)) (x_response (nv_env V)) (Some a) = Inr (decision, pub)" "pk_marshal pub = pk_marshal key"
    "rs_request_id decision = ar_request_id msg" "rs_request_digest decision = Digest (x_ssh (nv_env V)) body"
    "rs_decision decision = DECISION_APPROVE \<longrightarrow>
       verifySignature (x_ssh (nv_env V)) (ar_key msg) payload w (get_sshsig msg) (rr_signature resp) = None"
    unfolding genuine_def same by blast
  with h show ?thesis unfolding verifySignature_None by blast
qed

text \<open>
  Nobody shops for a yes. Once asking holders in turn gave a decision - anything but a report that
  nobody was there to ask - the answer and the state are the same however many holders are left.
\<close>

theorem decision_is_final:
  assumes "run_state (try_routes V deadline msg payload w gone i routes) n = (Inr resp, n')" and "\<not> reportedNoApprover V resp"
  shows "run_state (try_routes V deadline msg payload w gone i (routes @ others)) n = (Inr resp, n')"
  by (rule try_routes_settled [OF assms])


text \<open>
  A signature a holder makes is accepted by the requester that asked for it: when the holder's handler
  answers the bytes the requester sent with a signature, and the two have paired with each other's
  identities, checking the response succeeds and hands on exactly that signature.
\<close>

theorem borrowed_signature_arrives:
  assumes "run_state (RemoteSign W peer req evs shown) m = (Some (Inr resp), m')" and "rr_signature resp \<noteq> []"
    and "pc_marshal (nv_request V) out = Inr (sq_request req)" and "ar_request_id out \<noteq> []"
    and "codec_law (nv_request V)" and "nv_request W = nv_request V"
    and "x_ssh (nv_env W) = x_ssh (nv_env V)" and "x_response (nv_env W) = x_response (nv_env V)"
    and "codec_law (x_response (nv_env V))" and "\<forall>sig. signature_law (x_ssh (nv_env V)) sig"
    and "key_law (x_ssh (nv_env V)) (id_signer (e_identity (nd_engine m)))"
    and "pk_marshal (sr_public (id_signer (e_identity (nd_engine m)))) = pk_marshal (ln_key l)"
    and "lends_honestly W (nd_vault m) out"
  shows "\<exists>n'. run_state (checkSignature V l out (sq_request req) (sq_payload req) (sq_wrap_sshsig req) resp) n = (Inr resp, n')"
proof -
  let ?L = "x_ssh (nv_env V)"
  have "pc_unmarshal (nv_request W) (sq_request req) = Inr out" using assms(3,5,6) by (simp add: codec_law_def)
  from RemoteSign_made [OF assms(1,2) this assms(4)] show ?thesis
  proof cases
    case (1 a r ref blob signer k s keys alg)
    from 1(5) assms(7,8) have sa: "SignApproval ?L (x_response (nv_env V)) (e_identity (nd_engine m)) (Some r) = Inr a" by simp
    from answer_accepted [OF assms(11,10,9) sa assms(12)] 1(2,3) assms(7)
    have ans: "answerFromPeer ?L (x_response (nv_env V)) (ln_record l) (ln_key l) (Some a) (ar_request_id out)
        (Digest ?L (sq_request req)) = Inr (answer_of (ln_record l) a r, r)" by simp
    have law: "key_law ?L signer" "pk_marshal (sr_public signer) = getf kr_public_key [] (ar_key out)"
      using assms(13) 1(6-9) assms(7) unfolding lends_honestly_def by metis+
    have "lib_parse_public ?L (getf kr_public_key [] (ar_key out)) = Inr (sr_public signer)"
      using law by (simp add: key_law_def)
    moreover have "lib_unmarshal_signature ?L (rr_signature resp) = Inr s"
      using 1(12) assms(7,10) by (simp add: signature_law_def)
    ultimately have v: "verifySignature ?L (ar_key out) (sq_payload req) (sq_wrap_sshsig req) (get_sshsig out) (rr_signature resp) = None"
      using signBlob_verifies [OF law(1) 1(11)] 1(10) assms(7) unfolding verifySignature_None by auto
    have "resp = \<lparr>rr_signature = rr_signature resp, rr_approval = Some a\<rparr>" using 1(1) by simp
    with ans v 1(1,4) assms(2) show ?thesis
      by (simp add: checkSignature_def acceptBorrowedSignature_def Let_def answer_of_def split: prod.split)
  qed
qed

text \<open>A holder that lends its key to the peer that asks, by its own rule.\<close>

definition lend_sees :: approval_request where
  "lend_sees = demo_reads (peer_requester demo_peer demo_record demo_asks) demo_asks"

definition lend_response :: approval_response where
  "lend_response = rule_response demo_env toy_identity open_policy lend_sees ''B'' 5"

definition lend_env :: "unit node_env" where
  "lend_env = demo_holder\<lparr>nv_env := demo_env\<lparr>x_response := only_codec lend_response\<rparr>\<rparr>"

definition lend_link :: remote_link where
  "lend_link = \<lparr>ln_record = demo_record, ln_key = toy_key\<rparr>"

lemma lend_envs:
  "x_ssh (nv_env lend_env) = toy_lib" "x_response (nv_env lend_env) = only_codec lend_response"
  "nv_request lend_env = only_codec demo_asks" "nv_fold lend_env = (=)" "nv_gate lend_env = None"
  "nv_keys lend_env = Some (av_keys (demo_agent sample_artifact))" "\<And>m. \<exists>d. x_request (nv_env lend_env) m = Inr d"
  by (simp_all add: lend_env_def demo_holder_def plain_env_def demo_env_def)

lemma lend_msg:
  "ar_key demo_asks = Some (KeyRef demo_key)" "ar_payload_sha256 demo_asks = []" "\<not> ar_grant_only demo_asks"
  "ar_local_key demo_asks = None" "ar_request_id lend_sees \<noteq> []" "ar_created_at lend_sees \<noteq> None"
  "ar_signature_algorithm lend_sees = []" "ar_local_key lend_sees = None" "ar_request_id demo_asks \<noteq> []"
  by (simp_all add: demo_asks_def empty_request_def lend_sees_def demo_reads_def)

lemma lend_ask:
  "sq_payload demo_ask = demo_payload" "sq_wrap_sshsig demo_ask = False" "sq_endorsement demo_ask = None"
  "sq_request demo_ask = ''B''" "parseSignRequest lend_env ''B'' = Inr demo_asks" "pc_marshal (nv_request lend_env) demo_asks = Inr ''B''"
  by (simp_all add: demo_ask_def parseSignRequest_def lend_envs only_codec_def)

lemma lend_given:
  "\<exists>a n'. run_state (RemoteSign lend_env (Some demo_peer) demo_ask [] None) demo_node =
     (Some (Inr \<lparr>rr_signature = lib_marshal_signature toy_lib demo_signature, rr_approval = Some a\<rparr>), n')"
proof -
  let ?n = "deciding_node lend_env demo_peer demo_ask demo_node"
  let ?keys = "av_keys (demo_agent sample_artifact)"
  let ?who = "peer_requester demo_peer demo_record demo_asks"
  note d = demo_deciding [OF lend_ask(3), of lend_env]
  obtain a where a: "SignApproval toy_lib (only_codec lend_response) toy_identity (Some lend_response) = Inr a"
    using toy_signs(1) by blast
  have rr: "rule_response (nv_env lend_env) toy_identity open_policy lend_sees ''B'' 5 = lend_response"
    by (simp add: lend_response_def rule_response_def lend_env_def)
  obtain e' where s: "run_state (submit (nv_env lend_env) (Some lend_sees) (Some ''B'') OriginPeerSigning [] None) (nd_engine ?n) =
      (Some (Inr (lend_response, Some a)), e')" "e_vault e' = nd_vault ?n"
    using submit_rule_response [where X = "nv_env lend_env" and e = "nd_engine ?n" and origin = OriginPeerSigning and msg = lend_sees
        and t = 5 and body = "''B''" and a = a and evs = "[]" and shown = None]
      demo_settles [OF lend_msg(3,4)] lend_msg(5-8) lend_envs d rr a unfolding lend_sees_def by auto
  have ap: "rs_decision lend_response = DECISION_APPROVE" by (simp add: lend_response_def rule_response_def Let_def)
  have b: "rebuilt lend_env demo_record ?who demo_asks demo_payload False (nd_vault ?n) = Inr (KeyRef demo_key, demo_payload, lend_sees)"
    using demo_rebuilt [OF lend_envs(1) lend_msg(1,2)] d(1) by (simp add: lend_sees_def)
  have g: "Signer ?keys (nv_hw lend_env) (nv_hardware lend_env) (nv_gate lend_env) (kr_fingerprint (KeyRef demo_key)) (nd_vault ?n) =
      Inr (toy_signer, demo_key)" "signBlob toy_signer demo_payload (ar_signature_algorithm lend_sees) = Inr demo_signature"
    using demo_signer d(1) by (simp_all add: lend_envs(5) lend_msg(7))
  obtain n2 where "run_state (signForPeer lend_env demo_record ?who demo_asks ''B'' demo_payload False [] None) ?n =
      (Some (Inr (Some a, lib_marshal_signature (x_ssh (nv_env lend_env)) demo_signature)), n2)"
    using signForPeer_approved [OF lend_envs(6) b s(1) ap s(2) g] by blast
  then show ?thesis
    using RemoteSign_runs [OF demo_paired [OF lend_envs(4)], of demo_ask demo_asks "[]" None] lend_ask lend_envs(1) by metis
qed

lemma lend_honest: "lends_honestly lend_env (nd_vault demo_node) demo_asks"
proof -
  have k: "KeyRefs (nd_vault demo_node) = [KeyRef demo_key]" by (simp add: KeyRefs_def demo_node_def demo_key_def)
  have p: "pk_marshal (sr_public toy_signer) = kr_public_key (KeyRef demo_key)"
    by (simp add: toy_signer_def toy_key_def KeyRef_def demo_key_def)
  have g: "Signer keys (nv_hw lend_env) (nv_hardware lend_env) (nv_gate lend_env) (kr_fingerprint (KeyRef demo_key))
      (nd_vault demo_node) = Inr (toy_signer, demo_key)" if "nv_keys lend_env = Some keys" for keys
    using that demo_signer(1) by (auto simp: lend_envs)
  show ?thesis unfolding lends_honestly_def k lend_envs(1) lend_msg(1)
    using g toy_key_law p by auto
qed

theorem borrowed_signature_arrives_witness:
  "\<exists>resp m' n'. run_state (RemoteSign lend_env (Some demo_peer) demo_ask [] None) demo_node = (Some (Inr resp), m') \<and>
     run_state (checkSignature lend_env lend_link demo_asks ''B'' demo_payload False resp) demo_node = (Inr resp, n')"
proof -
  obtain a m' where r: "run_state (RemoteSign lend_env (Some demo_peer) demo_ask [] None) demo_node =
     (Some (Inr \<lparr>rr_signature = lib_marshal_signature toy_lib demo_signature, rr_approval = Some a\<rparr>), m')" using lend_given by blast
  let ?resp = "\<lparr>rr_signature = lib_marshal_signature toy_lib demo_signature, rr_approval = Some a\<rparr>"
  have i: "e_identity (nd_engine demo_node) = toy_identity" by (simp add: demo_node_def demo_engine_def)
  have "\<exists>n'. run_state (checkSignature lend_env lend_link demo_asks (sq_request demo_ask) (sq_payload demo_ask) (sq_wrap_sshsig demo_ask)
      ?resp) demo_node = (Inr ?resp, n')"
  proof (rule borrowed_signature_arrives [OF r])
    show "rr_signature ?resp \<noteq> []" by (simp add: toy_lib_def demo_signature_def)
    show "pc_marshal (nv_request lend_env) demo_asks = Inr (sq_request demo_ask)" using lend_ask by simp
    show "ar_request_id demo_asks \<noteq> []" by (rule lend_msg(9))
    show "codec_law (nv_request lend_env)" "codec_law (x_response (nv_env lend_env))"
      by (simp_all add: lend_envs only_codec_law)
    show "\<forall>sig. signature_law (x_ssh (nv_env lend_env)) sig" using toy_laws(1) by (simp add: lend_envs)
    show "key_law (x_ssh (nv_env lend_env)) (id_signer (e_identity (nd_engine demo_node)))"
      using toy_identity_law by (simp add: i lend_envs)
    show "pk_marshal (sr_public (id_signer (e_identity (nd_engine demo_node)))) = pk_marshal (ln_key lend_link)"
      by (simp add: i toy_identity_def toy_signer_def lend_link_def)
    show "lends_honestly lend_env (nd_vault demo_node) demo_asks" by (rule lend_honest)
  qed simp_all
  with r lend_ask show ?thesis by auto
qed

text \<open>An asking node whose one linked holder answers a given request with an approval and a signature.\<close>

definition asked_out :: "approval_request \<Rightarrow> approval_request" where
  "asked_out msg = msg\<lparr>ar_requester := Some (borrowing_requester demo_holder toy_identity msg), ar_timeout := Some (waitFor msg)\<rparr>"

definition asked_yes :: "approval_request \<Rightarrow> approval_response" where
  "asked_yes msg = (approve DECISION_SOURCE_USER [])\<lparr>rs_request_id := ar_request_id msg, rs_request_digest := Digest toy_lib ''B''\<rparr>"

definition asked_env :: "approval_request \<Rightarrow> unit node_env" where
  "asked_env msg = demo_holder\<lparr>nv_env := demo_env\<lparr>x_response := only_codec (asked_yes msg)\<rparr>, nv_request := only_codec (asked_out msg)\<rparr>"

definition asked_signature :: "bytes \<Rightarrow> ssh_signature" where
  "asked_signature data = \<lparr>sig_format = ''toy'', sig_blob = ''K'' @ data\<rparr>"

definition asked_resp :: "signed_artifact \<Rightarrow> bytes \<Rightarrow> RemoteSignResponse" where
  "asked_resp a data = \<lparr>rr_signature = lib_marshal_signature toy_lib (asked_signature data), rr_approval = Some a\<rparr>"

definition asked_holder :: "signed_artifact \<Rightarrow> bytes \<Rightarrow> holder_link" where
  "asked_holder a data = \<lparr>ho_link = lend_link, ho_offered = [KeyRef demo_key], ho_last_seen = None,
     ho_targets = [\<lparr>st_answer = (\<lambda>_. SignAnswers (asked_resp a data)), st_given_up = False\<rparr>]\<rparr>"

definition asked_holders :: "signed_artifact \<Rightarrow> bytes \<Rightarrow> holders" where
  "asked_holders a data = \<lparr>hs_links = [asked_holder a data], hs_polling = (\<lambda>_. False), hs_tunnel_version = 1, hs_wakeups = False\<rparr>"

definition asking_node :: Node where
  "asking_node = demo_node\<lparr>nd_engine := (nd_engine demo_node)\<lparr>e_vault := empty_vault\<lparr>v_doc := empty_document\<lparr>sd_peers := [demo_record],
     sd_borrowed_keys := [\<lparr>bk_peer_fingerprint = ''SHA256:P'', bk_key = KeyRef demo_key, bk_last_seen_at = None\<rparr>]\<rparr>\<rparr>\<rparr>\<rparr>"

lemma asked_envs:
  "x_ssh (nv_env (asked_env msg)) = toy_lib" "x_response (nv_env (asked_env msg)) = only_codec (asked_yes msg)"
  "nv_request (asked_env msg) = only_codec (asked_out msg)"
  "borrowing_requester (asked_env msg) = borrowing_requester demo_holder"
  by (simp_all add: asked_env_def demo_holder_def plain_env_def demo_env_def borrowing_requester_def fun_eq_iff)

lemma asked_artifact:
  obtains a where "SignApproval toy_lib (only_codec (asked_yes msg)) toy_identity (Some (asked_yes msg)) = Inr a"
  using toy_signs(1) by blast

lemma waitFor_pos: "0 < waitFor msg"
  by (simp add: waitFor_def DefaultSSHAuthTimeout_def DefaultSignTimeout_def split: option.split)

lemma asked_outgoing:
  "\<exists>n'. run_state (outgoingSign (asked_env msg) (within None 5 (waitFor msg)) msg) (asking_node\<lparr>nd_engine := ticked (nd_engine asking_node)\<rparr>) =
     (Inr (asked_out msg, ''B''), n')"
proof -
  have "e_identity (nd_engine asking_node) = toy_identity" "e_clock (nd_engine asking_node) = (\<lambda>_. 5)"
    by (simp_all add: asking_node_def demo_node_def demo_engine_def)
  then show ?thesis using waitFor_pos [of msg]
    by (simp add: outgoingSign_def with_deadline_def within_def serialized_def asked_envs asked_out_def only_codec_def
        ticked_def rest_of_def)
qed

lemma asked_checked:
  assumes "SignApproval toy_lib (only_codec (asked_yes msg)) toy_identity (Some (asked_yes msg)) = Inr a"
    and "ar_key msg = Some (KeyRef demo_key)" "data \<noteq> []"
  shows "\<exists>n'. run_state (checkSignature (asked_env msg) lend_link (asked_out msg) ''B'' data False (asked_resp a data)) n =
    (Inr (asked_resp a data), n')"
proof -
  let ?s = "asked_signature data"
  have y: "rs_request_id (asked_yes msg) = ar_request_id msg" "rs_request_digest (asked_yes msg) = Digest toy_lib ''B''"
    "rs_decision (asked_yes msg) = DECISION_APPROVE" by (simp_all add: asked_yes_def)
  have o: "ar_request_id (asked_out msg) = ar_request_id msg" "ar_key (asked_out msg) = Some (KeyRef demo_key)"
    using assms(2) by (simp_all add: asked_out_def)
  have ans: "answerFromPeer toy_lib (only_codec (asked_yes msg)) rcd toy_key (Some a) (ar_request_id msg) (Digest toy_lib ''B'') =
      Inr (answer_of rcd a (asked_yes msg), asked_yes msg)" for rcd
    using answer_accepted [OF toy_identity_law toy_laws(1) only_codec_law assms(1), of toy_key rcd]
    by (simp add: y toy_identity_def toy_signer_def)
  have "lib_unmarshal_signature toy_lib (lib_marshal_signature toy_lib ?s) = Inr ?s"
    using toy_laws(1) by (simp add: signature_law_def)
  moreover have "lib_parse_public toy_lib (kr_public_key (KeyRef demo_key)) = Inr toy_key"
    by (simp add: toy_lib_def KeyRef_def demo_key_def)
  moreover have "lib_verify toy_lib toy_key data ?s = None" by (simp add: toy_lib_def toy_key_def asked_signature_def)
  ultimately have v: "verifySignature toy_lib (Some (KeyRef demo_key)) data False sig (lib_marshal_signature toy_lib ?s) = None" for sig
    using assms(3) by (simp add: verifySignature_def blobFor_def)
  have "lib_marshal_signature toy_lib ?s \<noteq> []" by (simp add: toy_lib_def asked_signature_def)
  then show ?thesis
    by (simp add: checkSignature_def asked_resp_def asked_envs lend_link_def o ans acceptBorrowedSignature_def v Let_def
        answer_of_def y split: prod.split)
qed

lemma asked_over_link:
  assumes "SignApproval toy_lib (only_codec (asked_yes msg)) toy_identity (Some (asked_yes msg)) = Inr a"
    and "ar_key msg = Some (KeyRef demo_key)" "data \<noteq> []"
  shows "\<exists>n'. run_state (signOverLink (asked_env msg) (asked_holder a data) None msg data False) asking_node =
    (Inr (asked_resp a data), n')"
proof -
  have c: "e_clock (nd_engine asking_node) 0 = 5" by (simp add: asking_node_def demo_node_def demo_engine_def)
  obtain n1 where o: "run_state (outgoingSign (asked_env msg) (within None 5 (waitFor msg)) msg)
      (asking_node\<lparr>nd_engine := ticked (nd_engine asking_node)\<rparr>) = (Inr (asked_out msg, ''B''), n1)"
    using asked_outgoing by blast
  show ?thesis
    using o asked_checked [OF assms]
    by (simp add: signOverLink_def c asked_holder_def split: prod.split)
qed

lemma asked_not_absent:
  assumes "SignApproval toy_lib (only_codec (asked_yes msg)) toy_identity (Some (asked_yes msg)) = Inr a"
  shows "\<not> reportedNoApprover (asked_env msg) (asked_resp a data)"
proof -
  from sign_identity_half [OF toy_identity_law toy_laws(1), of signingInput "''B''" a] assms
  have "VerifyApproval toy_lib (only_codec (asked_yes msg)) (Some a) = Inr (asked_yes msg, sr_public (id_signer toy_identity))"
    by (auto simp: VerifyApproval_def SignApproval_def only_codec_def)
  then show ?thesis by (simp add: reportedNoApprover_def asked_resp_def asked_envs asked_yes_def)
qed

lemma asked_runs:
  assumes "SignApproval toy_lib (only_codec (asked_yes msg)) toy_identity (Some (asked_yes msg)) = Inr a"
    and "ar_key msg = Some (KeyRef demo_key)" "data \<noteq> []"
  shows "\<exists>n'. run_state (RemoteSign_ask (asked_env msg) (asked_holders a data) None (\<lambda>_. []) (\<lambda>_. False) msg data False) asking_node =
    (Inr (asked_resp a data), n')"
proof -
  have "key_fingerprint msg = kr_fingerprint (KeyRef demo_key)" using assms(2) by (simp add: key_fingerprint_def)
  then have r: "\<exists>more. holderRoutes (asked_env msg) (asked_holders a data) v posts (key_fingerprint msg) = RouteLink (asked_holder a data) # more" for v posts
    by (simp add: holderRoutes_def sortedLinks_def asked_holders_def asked_holder_def)
  then obtain others where o: "holderRoutes (asked_env msg) (asked_holders a data) (nd_vault asking_node) (\<lambda>_. []) (key_fingerprint msg) =
    RouteLink (asked_holder a data) # others" by blast
  obtain n' where "run_state (signOverLink (asked_env msg) (asked_holder a data) None msg data False) asking_node =
    (Inr (asked_resp a data), n')" using asked_over_link [OF assms] by blast
  then show ?thesis
    using asked_not_absent [OF assms(1), of data] by (simp add: RemoteSign_ask_def o route_sign_def)
qed

theorem borrowed_signature_genuine_witness:
  "\<exists>a n' rcd key. run_state (RemoteSign_ask (asked_env demo_asks) (asked_holders a ''x'') None (\<lambda>_. []) (\<lambda>_. False) demo_asks ''x'' False)
     asking_node = (Inr (asked_resp a ''x''), n') \<and> holder_of (asked_env demo_asks) (asked_holders a ''x'') (nd_vault asking_node) rcd key"
proof -
  obtain a where a: "SignApproval toy_lib (only_codec (asked_yes demo_asks)) toy_identity (Some (asked_yes demo_asks)) = Inr a"
    by (rule asked_artifact)
  from asked_runs [OF a lend_msg(1), of "''x''"] obtain n' where
    r: "run_state (RemoteSign_ask (asked_env demo_asks) (asked_holders a ''x'') None (\<lambda>_. []) (\<lambda>_. False) demo_asks ''x'' False)
     asking_node = (Inr (asked_resp a ''x''), n')" by auto
  from borrowed_signature_genuine [OF r] r show ?thesis by blast
qed

theorem decision_is_final_witness:
  "\<exists>a n'. \<forall>others. run_state (try_routes (asked_env demo_asks) None demo_asks ''x'' False (\<lambda>_. False) 0
     (RouteLink (asked_holder a ''x'') # others)) asking_node = (Inr (asked_resp a ''x''), n')"
proof -
  obtain a where a: "SignApproval toy_lib (only_codec (asked_yes demo_asks)) toy_identity (Some (asked_yes demo_asks)) = Inr a"
    by (rule asked_artifact)
  from asked_over_link [OF a lend_msg(1), of "''x''"] obtain n' where
    r: "run_state (try_routes (asked_env demo_asks) None demo_asks ''x'' False (\<lambda>_. False) 0 [RouteLink (asked_holder a ''x'')])
     asking_node = (Inr (asked_resp a ''x''), n')" by (auto simp: route_sign_def)
  from decision_is_final [OF r asked_not_absent [OF a]] show ?thesis by auto
qed

lemma asked_borrowed:
  "RemoteKeyRefs (asked_env msg) (asked_holders a data) (nd_vault asking_node) = [KeyRef demo_key]"
proof -
  have v: "borrowed_of (nd_vault asking_node) = [\<lparr>bk_peer_fingerprint = ''SHA256:P'', bk_key = KeyRef demo_key, bk_last_seen_at = None\<rparr>]"
    "peers_of (nd_vault asking_node) = [demo_record]" "KeyRefs (nd_vault asking_node) = []"
    by (simp_all add: asking_node_def KeyRefs_def empty_document_def)
  have r: "tr_fingerprint demo_record = ''SHA256:P''" by (simp add: demo_record_def)
  have l: "link_to (asked_holders a data) ''SHA256:P'' = Some (asked_holder a data)"
    by (simp add: link_to_def sortedLinks_def asked_holders_def asked_holder_def lend_link_def r)
  show ?thesis
    by (simp add: RemoteKeyRefs_def BorrowedKeys_def v paired_record_def r borrowed_status_def l heldHere_def Let_def)
       (simp add: asked_holder_def)
qed

definition asking_agent :: "approval_request \<Rightarrow> signed_artifact \<Rightarrow> unit agent_env" where
  "asking_agent msg a = (demo_agent a)\<lparr>av_env := nv_env (asked_env msg), av_remote := Some (node_remote (asked_env msg)
     (asked_holders a ''x'') (asked_holders a ''x'') None (\<lambda>_. []) (\<lambda>_. False) (\<lambda>_. []) asking_node)\<rparr>"

lemma x_opaque: "cl_ssh_auth (Classify toy_lib id ''x'') = None" "cl_sshsig (Classify toy_lib id ''x'') = None"
  by (simp_all add: Classify_def parseSshsig_def parseAuthBlob_def field_then_def stringValue_def uint32Value_def
      bytes_read_def opaque_def)

lemma asking_request:
  "\<exists>req. ar_key req = Some (KeyRef demo_key) \<and>
     (\<forall>msg a. buildRequest (asking_agent msg a) demo_moment (KeyRef demo_key) ''x'' 0 c = Some (req, c))"
proof -
  have e: "x_ssh (av_env (asking_agent msg a)) = toy_lib" "av_quote (asking_agent msg a) = id"
    "av_identity (asking_agent msg a) = None" "av_peer (asking_agent msg a) = None" for msg a
    by (simp_all add: asking_agent_def asked_envs demo_agent_def)
  have i: "requesterInfo (asking_agent msg a) = requesterInfo (demo_agent sample_artifact)" for msg a
    by (simp add: requesterInfo_def server_requesterInfo_def e asked_envs) (simp add: demo_agent_def)
  show ?thesis
    by (simp add: buildRequest_def e x_opaque Let_def request_base_def i)
qed


end
