(* ===== verification/Peer_Promises.thy ===== *)
theory Peer_Promises
  imports Peer_Answers
begin

text \<open>
  Delegated promises after they were made (\<^verbatim>\<open>src/pkg/peer/delegations.go\<close>): the holder of a promise
  accounts for what it did under it, the approver takes it back or re-issues it, and a round trip
  brings the two stores into line.

  An operation that calls a peer runs on this node and on the world behind the network: a call is a
  state transformer of that world which returns an error or the peer's answer. The composition with
  the handler at the other end, where every call may be lost on the way there or on the way back, is
  the world \<open>wire\<close>.
\<close>

section \<open>Calls\<close>

definition at_node :: "'a nd \<Rightarrow> (Node \<times> 'w, 'a) state" where
  "at_node f = State (\<lambda>(n, w). case run_state f n of (r, n') \<Rightarrow> (r, (n', w)))"

definition over_net :: "('w, 'a) state \<Rightarrow> (Node \<times> 'w, 'a) state" where
  "over_net f = State (\<lambda>(n, w). case run_state f w of (r, w') \<Rightarrow> (r, (n, w')))"

record ReconcileGrantsRequest =
  rg_revoked_delegation_ids :: "string list"
  rg_acknowledged_request_ids :: "string list"
  rg_renewed_delegations :: "signed_artifact list"

record ReconcileGrantsResponse =
  rg_uses :: "grant_use list"
  rg_held_delegation_ids :: "string list"

datatype promise_error =
    ReadGrants vault_error
  | ReconcileFailed string string
  | RecordFailed string vault_error
  | FinishFailed string string
  | TakeBackFailed string promise_error
  | HandOverFailed string promise_error
  | HolderUnknown string

section \<open>The holder's account\<close>

definition delegated_to :: "string \<Rightarrow> grant \<Rightarrow> bool" where
  "delegated_to fp g \<longleftrightarrow> gr_delegated g \<and> gr_delegate_fingerprint g = fp"

definition recordReported :: "trust_record \<Rightarrow> grant_use list \<Rightarrow> (vault_error + string list) nd" where
  "recordReported record uses =
     (if uses = [] then State_Monad.return (Inr [])
      else do {
        r \<leftarrow> in_engine (on_vault_at Grants);
        case r of
          Inl e \<Rightarrow> State_Monad.return (Inl e)
        | Inr gs \<Rightarrow> do {
            let theirs = map gr_grant_id (filter (delegated_to (tr_fingerprint record)) gs);
            let kept = filter (\<lambda>u. gu_grant_id u \<in> set theirs) uses;
            r \<leftarrow> in_engine (on_vault (\<lambda>sv. RecordGrantUses sv kept));
            State_Monad.return (map_sum id (\<lambda>_. map gu_request_id kept) r)
          }
      })"

definition ReportGrantUse :: "'raw node_env \<Rightarrow> peer_identity option \<Rightarrow> grant_use list \<Rightarrow> (rpc_error + string list) nd" where
  "ReportGrantUse V peer uses = do {
     a \<leftarrow> find_peer V peer;
     case a of
       Inl e \<Rightarrow> State_Monad.return (Inl e)
     | Inr (p, record) \<Rightarrow>
         if \<not> nv_delegations V then State_Monad.return (Inr [])
         else do {
           r \<leftarrow> recordReported record uses;
           State_Monad.return (map_sum (\<lambda>e. Rpc CodeInternal (StoreFailed e)) id r)
         }
   }"

text \<open>What an approver that can be dialled is told at once.\<close>

definition pushGrantActivity ::
    "(grant_use list \<Rightarrow> ('w, string + string list) state) \<Rightarrow> grant_use list \<Rightarrow> (Node \<times> 'w, unit) state" where
  "pushGrantActivity call uses = do {
     r \<leftarrow> over_net (call uses);
     case r of
       Inl e \<Rightarrow> State_Monad.return ()
     | Inr acknowledged \<Rightarrow> do {
         _ \<leftarrow> at_node (in_engine (on_vault (\<lambda>sv. AcknowledgeUses sv acknowledged)));
         State_Monad.return ()
       }
   }"

definition PushGrantActivity ::
    "'raw node_env \<Rightarrow> int \<Rightarrow> (trust_record \<Rightarrow> grant_use list \<Rightarrow> ('w, string + string list) state) \<Rightarrow> string \<Rightarrow> (Node \<times> 'w, unit) state" where
  "PushGrantActivity V tunnelVersion call approver =
     (if \<not> nv_delegations V \<or> approver = [] then State_Monad.return ()
      else do {
        v \<leftarrow> at_node (asks_node nd_vault);
        case Peer (nv_fold V) approver v of
          None \<Rightarrow> State_Monad.return ()
        | Some record \<Rightarrow>
            if \<not> Dialable record tunnelVersion then State_Monad.return ()
            else (let uses = UnreportedUses approver v
                  in if uses = [] then State_Monad.return () else pushGrantActivity (call record) uses)
      })"

definition HasGrantActivityFor :: "'raw node_env \<Rightarrow> string \<Rightarrow> vault \<Rightarrow> bool" where
  "HasGrantActivityFor V approver v = (nv_delegations V \<and> UnreportedUses approver v \<noteq> [])"

section \<open>The requester's side\<close>

definition dropRevoked :: "trust_record \<Rightarrow> string list \<Rightarrow> (vault_error + nat) nd" where
  "dropRevoked record ids = do {
     r \<leftarrow> in_engine (on_vault_at Delegations);
     case r of
       Inl e \<Rightarrow> State_Monad.return (Inl e)
     | Inr held \<Rightarrow> do {
         let mine = map delegation_id (filter (\<lambda>h. dg_approver_fingerprint (hd_delegation h) = tr_fingerprint record) held);
         let theirs = filter (\<lambda>i. i \<in> set mine) ids;
         in_engine (on_vault (\<lambda>sv. DropDelegations sv theirs))
       }
   }"

fun accept_renewed :: "'raw node_env \<Rightarrow> trust_record \<Rightarrow> signed_artifact list \<Rightarrow> unit nd" where
  "accept_renewed V record [] = State_Monad.return ()"
| "accept_renewed V record (a # rest) = do { acceptRenewedDelegation V record a; accept_renewed V record rest }"

text \<open>The handler once the caller is known, in the two steps that may fail and the answer.\<close>

definition take_back :: "trust_record \<Rightarrow> string list \<Rightarrow> (vault_error + unit) nd" where
  "take_back record ids =
     (if ids = [] then State_Monad.return (Inr ())
      else do { r \<leftarrow> dropRevoked record ids; State_Monad.return (map_sum id (\<lambda>_. ()) r) })"

definition account_for :: "trust_record \<Rightarrow> (vault_error + ReconcileGrantsResponse) nd" where
  "account_for record = do {
     r \<leftarrow> in_engine (on_vault_at Delegations);
     v \<leftarrow> asks_node nd_vault;
     State_Monad.return (map_sum id (\<lambda>held. \<lparr>rg_uses = UnreportedUses (tr_fingerprint record) v,
       rg_held_delegation_ids = map delegation_id
         (filter (\<lambda>h. dg_approver_fingerprint (hd_delegation h) = tr_fingerprint record) held)\<rparr>) r)
   }"

definition reconciled_with ::
    "'raw node_env \<Rightarrow> trust_record \<Rightarrow> ReconcileGrantsRequest \<Rightarrow> (vault_error + ReconcileGrantsResponse) nd" where
  "reconciled_with V record req = do {
     r \<leftarrow> take_back record (rg_revoked_delegation_ids req);
     case r of
       Inl e \<Rightarrow> State_Monad.return (Inl e)
     | Inr _ \<Rightarrow> do {
         r \<leftarrow> in_engine (on_vault (\<lambda>sv. AcknowledgeUses sv (rg_acknowledged_request_ids req)));
         case r of
           Inl e \<Rightarrow> State_Monad.return (Inl e)
         | Inr _ \<Rightarrow> do {
             accept_renewed V record (rg_renewed_delegations req);
             account_for record
           }
       }
   }"

definition ReconcileGrants ::
    "'raw node_env \<Rightarrow> peer_identity option \<Rightarrow> ReconcileGrantsRequest \<Rightarrow> (rpc_error + ReconcileGrantsResponse) nd" where
  "ReconcileGrants V peer req = do {
     a \<leftarrow> publisherFor V peer;
     case a of
       Inl e \<Rightarrow> State_Monad.return (Inl e)
     | Inr (p, record) \<Rightarrow>
         if \<not> nv_delegations V then State_Monad.return (Inr \<lparr>rg_uses = [], rg_held_delegation_ids = []\<rparr>)
         else do {
           r \<leftarrow> reconciled_with V record req;
           State_Monad.return (map_sum (\<lambda>e. Rpc CodeInternal (StoreFailed e)) id r)
         }
   }"

section \<open>The approver's side\<close>

definition tellReconciled ::
    "(ReconcileGrantsRequest \<Rightarrow> ('w, string + ReconcileGrantsResponse) state) \<Rightarrow> trust_record \<Rightarrow> string list \<Rightarrow> string list
       \<Rightarrow> signed_artifact list \<Rightarrow> (Node \<times> 'w, promise_error + unit) state" where
  "tellReconciled call record revoked acknowledged renewed = do {
     r \<leftarrow> over_net (call \<lparr>rg_revoked_delegation_ids = revoked, rg_acknowledged_request_ids = acknowledged,
            rg_renewed_delegations = renewed\<rparr>);
     State_Monad.return (map_sum (FinishFailed (tr_name record)) (\<lambda>_. ()) r)
   }"

fun revoke_all :: "string list \<Rightarrow> unit nd" where
  "revoke_all [] = State_Monad.return ()"
| "revoke_all (i # rest) = do { _ \<leftarrow> in_engine (on_vault (\<lambda>sv. RevokeGrant sv i)); revoke_all rest }"

definition finishPendingRevocations :: "string \<Rightarrow> unit nd" where
  "finishPendingRevocations fp = do {
     v \<leftarrow> asks_node nd_vault;
     revoke_all (PendingRevocations fp v)
   }"

definition live_for :: "string \<Rightarrow> grant \<Rightarrow> bool" where
  "live_for fp g \<longleftrightarrow> delegated_to fp g \<and> \<not> gr_revoke_pending g"

text \<open>The round after the first call: what was heard is filed, what is not live here is taken back.\<close>

definition settle_account ::
    "(ReconcileGrantsRequest \<Rightarrow> ('w, string + ReconcileGrantsResponse) state) \<Rightarrow> trust_record \<Rightarrow> string list
       \<Rightarrow> ReconcileGrantsResponse \<Rightarrow> (Node \<times> 'w, promise_error + unit) state" where
  "settle_account call record standing resp = do {
     let revoked = filter (\<lambda>i. i \<notin> set standing) (rg_held_delegation_ids resp);
     r \<leftarrow> at_node (in_engine (on_vault (\<lambda>sv. RecordGrantUses sv (rg_uses resp))));
     case r of
       Inl e \<Rightarrow> State_Monad.return (Inl (RecordFailed (tr_name record) e))
     | Inr _ \<Rightarrow> do {
         let received = map gu_request_id (rg_uses resp);
         if revoked = [] \<and> received = [] then State_Monad.return (Inr ())
         else do {
           t \<leftarrow> tellReconciled call record revoked received [];
           case t of
             Inl e \<Rightarrow> State_Monad.return (Inl e)
           | Inr _ \<Rightarrow> do {
               at_node (finishPendingRevocations (tr_fingerprint record));
               State_Monad.return (Inr ())
             }
         }
       }
   }"

definition reconcileWith ::
    "'raw node_env \<Rightarrow> (ReconcileGrantsRequest \<Rightarrow> ('w, string + ReconcileGrantsResponse) state) \<Rightarrow> trust_record
       \<Rightarrow> (Node \<times> 'w, promise_error + unit) state" where
  "reconcileWith V call record =
     (if \<not> nv_delegations V then State_Monad.return (Inr ())
      else do {
        r \<leftarrow> at_node (in_engine (on_vault_at Grants));
        case r of
          Inl e \<Rightarrow> State_Monad.return (Inl (ReadGrants e))
        | Inr gs \<Rightarrow> do {
            let theirs = filter (live_for (tr_fingerprint record)) gs;
            r \<leftarrow> over_net (call \<lparr>rg_revoked_delegation_ids = [],
                   rg_acknowledged_request_ids = concat (map (\<lambda>g. map gu_request_id (gr_recent_uses g)) theirs),
                   rg_renewed_delegations = []\<rparr>);
            case r of
              Inl e \<Rightarrow> State_Monad.return (Inl (ReconcileFailed (tr_name record) e))
            | Inr resp \<Rightarrow> settle_account call record (map gr_grant_id theirs) resp
          }
      })"

text \<open>The peers this instance approves for and can dial.\<close>

definition requesters :: "int \<Rightarrow> vault \<Rightarrow> trust_record list" where
  "requesters tunnelVersion v = filter (\<lambda>r. tr_may_request r \<and> Dialable r tunnelVersion) (peers_of v)"

fun reconcile_each ::
    "'raw node_env \<Rightarrow> (trust_record \<Rightarrow> ReconcileGrantsRequest \<Rightarrow> ('w, string + ReconcileGrantsResponse) state) \<Rightarrow> trust_record list
       \<Rightarrow> (Node \<times> 'w, unit) state" where
  "reconcile_each V call [] = State_Monad.return ()"
| "reconcile_each V call (record # rest) = do { _ \<leftarrow> reconcileWith V (call record) record; reconcile_each V call rest }"

definition ReconcileDelegations ::
    "'raw node_env \<Rightarrow> int \<Rightarrow> (trust_record \<Rightarrow> ReconcileGrantsRequest \<Rightarrow> ('w, string + ReconcileGrantsResponse) state)
       \<Rightarrow> (Node \<times> 'w, unit) state" where
  "ReconcileDelegations V tunnelVersion call =
     (if \<not> nv_delegations V then State_Monad.return ()
      else do { v \<leftarrow> at_node (asks_node nd_vault); reconcile_each V call (requesters tunnelVersion v) })"

definition RevokeDelegation ::
    "'raw node_env \<Rightarrow> (trust_record \<Rightarrow> ReconcileGrantsRequest \<Rightarrow> ('w, string + ReconcileGrantsResponse) state) \<Rightarrow> string
       \<Rightarrow> (Node \<times> 'w, promise_error + bool) state" where
  "RevokeDelegation V call grantID =
     (if \<not> nv_delegations V then State_Monad.return (Inr False)
      else do {
        r \<leftarrow> at_node (in_engine (on_vault_at Grants));
        case r of
          Inl e \<Rightarrow> State_Monad.return (Inl (ReadGrants e))
        | Inr gs \<Rightarrow>
            (case find (\<lambda>g. gr_grant_id g = grantID) gs of
               None \<Rightarrow> State_Monad.return (Inr False)
             | Some g \<Rightarrow>
                 if \<not> gr_delegated g \<or> gr_delegate_fingerprint g = [] then State_Monad.return (Inr False)
                 else do {
                   v \<leftarrow> at_node (asks_node nd_vault);
                   case find (\<lambda>r. tr_fingerprint r = gr_delegate_fingerprint g) (peers_of v) of
                     None \<Rightarrow> State_Monad.return (Inl (HolderUnknown grantID))
                   | Some record \<Rightarrow> do {
                       t \<leftarrow> tellReconciled (call record) record [grantID] [] [];
                       State_Monad.return (map_sum (TakeBackFailed (tr_name record)) (\<lambda>_. True) t)
                     }
                 })
      })"

definition RenewDelegation ::
    "(trust_record \<Rightarrow> ReconcileGrantsRequest \<Rightarrow> ('w, string + ReconcileGrantsResponse) state) \<Rightarrow> string \<Rightarrow> signed_artifact
       \<Rightarrow> (Node \<times> 'w, promise_error + unit) state" where
  "RenewDelegation call holder artifact = do {
     v \<leftarrow> at_node (asks_node nd_vault);
     case find (\<lambda>r. tr_fingerprint r = holder) (peers_of v) of
       None \<Rightarrow> State_Monad.return (Inl (HolderUnknown []))
     | Some record \<Rightarrow> do {
         t \<leftarrow> tellReconciled (call record) record [] [] [artifact];
         State_Monad.return (map_sum (HandOverFailed (tr_name record)) id t)
       }
   }"

section \<open>The world at the other end\<close>

text \<open>Each call is lost on the way there, lost on the way back, or answered.\<close>

datatype delivery = Undelivered string | AnswerLost string | Delivered

definition wire ::
    "'raw node_env \<Rightarrow> peer_identity option \<Rightarrow> ReconcileGrantsRequest
       \<Rightarrow> ((nat \<Rightarrow> delivery) \<times> Node, string + ReconcileGrantsResponse) state" where
  "wire W peer req = State (\<lambda>(ds, m).
     case ds 0 of
       Undelivered e \<Rightarrow> (Inl e, (rest_of ds, m))
     | AnswerLost e \<Rightarrow> (Inl e, (rest_of ds, snd (run_state (ReconcileGrants W peer req) m)))
     | Delivered \<Rightarrow> (case run_state (ReconcileGrants W peer req) m of
         (r, m') \<Rightarrow> (map_sum (\<lambda>_. ''refused'') id r, (rest_of ds, m'))))"

section \<open>What the requester's side does\<close>

lemma run_at [simp]:
  "run_state (at_node f) (n, w) = (fst (run_state f n), (snd (run_state f n), w))"
  "run_state (over_net g) (n, w) = (fst (run_state g w), (n, snd (run_state g w)))"
  by (simp_all add: at_node_def over_net_def split: prod.split)

lemma run_on_vault_at [simp]:
  "run_state (on_vault_at f) e = run_state (on_vault (\<lambda>sv. f sv (e_clock e 0))) (ticked e)"
  by (simp add: on_vault_at_def ticked_def)

lemma DropDelegations_held:
  "held_delegations (fst (DropDelegations sv ids v)) = filter (\<lambda>h. delegation_id h \<notin> set ids) (held_delegations v)"
  "peers_of (fst (DropDelegations sv ids v)) = peers_of v"
  by (auto simp: DropDelegations_def drop_delegations_def Let_def filter_empty_conv filter_id_conv)

lemma AcknowledgeUses_held:
  "held_delegations (fst (AcknowledgeUses sv rids v)) =
     map (\<lambda>h. h\<lparr>hd_unreported_uses := filter (\<lambda>u. gu_request_id u \<notin> set rids) (hd_unreported_uses h)\<rparr>) (held_delegations v)"
  "peers_of (fst (AcknowledgeUses sv rids v)) = peers_of v"
  by (simp_all add: AcknowledgeUses_def Let_def)

lemma take_back_held:
  assumes "run_state (take_back rcd ids) m = (Inr (), m')"
  shows "set (held_delegations (nd_vault m')) \<subseteq> set (held_delegations (nd_vault m))"
    "peers_of (nd_vault m') = peers_of (nd_vault m)"
    "\<And>h. h \<in> set (held_delegations (nd_vault m')) \<Longrightarrow> dg_approver_fingerprint (hd_delegation h) = tr_fingerprint rcd \<Longrightarrow>
       delegation_id h \<notin> set ids"
proof -
  have "set (held_delegations (nd_vault m')) \<subseteq> set (held_delegations (nd_vault m)) \<and> peers_of (nd_vault m') = peers_of (nd_vault m) \<and>
      (\<forall>h \<in> set (held_delegations (nd_vault m')). dg_approver_fingerprint (hd_delegation h) = tr_fingerprint rcd \<longrightarrow>
        delegation_id h \<notin> set ids)"
  proof (cases "ids = []")
    case True
    with assms show ?thesis by (simp add: take_back_def)
  next
    case False
    let ?D = "Delegations (e_saves (nd_engine m) 0) (e_clock (nd_engine m) 0) (nd_vault m)"
    obtain held where h: "snd ?D = Inr held"
      using assms False by (cases "snd ?D") (auto simp: take_back_def dropRevoked_def run_on_vault)
    note held = Delegations_result [OF h]
    define mine where "mine = map delegation_id (filter (\<lambda>h. dg_approver_fingerprint (hd_delegation h) = tr_fingerprint rcd) held)"
    have v: "\<exists>sv. nd_vault m' = fst (DropDelegations sv (filter (\<lambda>i. i \<in> set mine) ids) (fst ?D))"
      using assms False h by (auto simp: take_back_def dropRevoked_def run_on_vault mine_def)
    then obtain sv where v: "nd_vault m' = fst (DropDelegations sv (filter (\<lambda>i. i \<in> set mine) ids) (fst ?D))" by blast
    show ?thesis
      unfolding v DropDelegations_held Delegations_doc held [symmetric] by (auto simp: held Delegations_doc mine_def)
  qed
  then show "set (held_delegations (nd_vault m')) \<subseteq> set (held_delegations (nd_vault m))"
    "peers_of (nd_vault m') = peers_of (nd_vault m)"
    "\<And>h. h \<in> set (held_delegations (nd_vault m')) \<Longrightarrow> dg_approver_fingerprint (hd_delegation h) = tr_fingerprint rcd \<Longrightarrow>
       delegation_id h \<notin> set ids" by blast+
qed

lemma account_for_answer:
  assumes "run_state (account_for rcd) m = (Inr resp, m')"
  shows "rg_uses resp = UnreportedUses (tr_fingerprint rcd) (nd_vault m')"
    "rg_held_delegation_ids resp = map delegation_id
       (filter (\<lambda>h. dg_approver_fingerprint (hd_delegation h) = tr_fingerprint rcd) (held_delegations (nd_vault m')))"
    "set (held_delegations (nd_vault m')) \<subseteq> set (held_delegations (nd_vault m))" "peers_of (nd_vault m') = peers_of (nd_vault m)"
proof -
  let ?D = "Delegations (e_saves (nd_engine m) 0) (e_clock (nd_engine m) 0) (nd_vault m)"
  have r: "map_sum id (\<lambda>held. \<lparr>rg_uses = UnreportedUses (tr_fingerprint rcd) (fst ?D),
       rg_held_delegation_ids = map delegation_id
         (filter (\<lambda>h. dg_approver_fingerprint (hd_delegation h) = tr_fingerprint rcd) held)\<rparr>) (snd ?D) = Inr resp"
    and v: "nd_vault m' = fst ?D"
    using assms by (auto simp: account_for_def run_on_vault)
  from r obtain held where h: "snd ?D = Inr held" by (cases "snd ?D") auto
  from r h have "resp = \<lparr>rg_uses = UnreportedUses (tr_fingerprint rcd) (fst ?D),
       rg_held_delegation_ids = map delegation_id
         (filter (\<lambda>h. dg_approver_fingerprint (hd_delegation h) = tr_fingerprint rcd) held)\<rparr>" by simp
  with Delegations_result [OF h] v Delegations_doc
  show "rg_uses resp = UnreportedUses (tr_fingerprint rcd) (nd_vault m')"
    "rg_held_delegation_ids resp = map delegation_id
       (filter (\<lambda>h. dg_approver_fingerprint (hd_delegation h) = tr_fingerprint rcd) (held_delegations (nd_vault m')))"
    "set (held_delegations (nd_vault m')) \<subseteq> set (held_delegations (nd_vault m))" "peers_of (nd_vault m') = peers_of (nd_vault m)"
    by auto
qed

text \<open>
  What a round without renewals leaves of the held delegations: no new ones, none that was taken back,
  and of the uses they owe only those that were not acknowledged.
\<close>

definition settled_held :: "string \<Rightarrow> ReconcileGrantsRequest \<Rightarrow> held_delegation list \<Rightarrow> held_delegation list \<Rightarrow> bool" where
  "settled_held fp req hs hs' \<longleftrightarrow>
     (\<forall>h' \<in> set hs'. \<exists>h \<in> set hs. hd_delegation h' = hd_delegation h \<and>
        hd_unreported_uses h' = filter (\<lambda>u. gu_request_id u \<notin> set (rg_acknowledged_request_ids req)) (hd_unreported_uses h) \<and>
        (dg_approver_fingerprint (hd_delegation h) = fp \<longrightarrow> delegation_id h \<notin> set (rg_revoked_delegation_ids req)))"

lemma reconciled_with_held:
  assumes "run_state (reconciled_with W rcd req) m = (Inr resp, m')" and "rg_renewed_delegations req = []"
  shows "settled_held (tr_fingerprint rcd) req (held_delegations (nd_vault m)) (held_delegations (nd_vault m'))"
    "peers_of (nd_vault m') = peers_of (nd_vault m)"
    "rg_uses resp = UnreportedUses (tr_fingerprint rcd) (nd_vault m')"
    "rg_held_delegation_ids resp = map delegation_id
       (filter (\<lambda>h. dg_approver_fingerprint (hd_delegation h) = tr_fingerprint rcd) (held_delegations (nd_vault m')))"
proof -
  obtain r m1 where t: "run_state (take_back rcd (rg_revoked_delegation_ids req)) m = (r, m1)" by fastforce
  with assms(1) have r: "r = Inr ()" by (cases r) (auto simp: reconciled_with_def)
  let ?A = "AcknowledgeUses (e_saves (nd_engine m1) 0) (rg_acknowledged_request_ids req) (nd_vault m1)"
  obtain m2 where a: "run_state (account_for rcd) m2 = (Inr resp, m')" and m2: "nd_vault m2 = fst ?A"
    using assms t r by (auto simp: reconciled_with_def run_on_vault split: sum.splits)
  note tb = take_back_held [OF t [unfolded r]]
  note af = account_for_answer [OF a]
  show "rg_uses resp = UnreportedUses (tr_fingerprint rcd) (nd_vault m')"
    "rg_held_delegation_ids resp = map delegation_id
       (filter (\<lambda>h. dg_approver_fingerprint (hd_delegation h) = tr_fingerprint rcd) (held_delegations (nd_vault m')))"
    by (rule af)+
  show "peers_of (nd_vault m') = peers_of (nd_vault m)" using af(4) tb(2) by (simp add: m2 AcknowledgeUses_held)
  show "settled_held (tr_fingerprint rcd) req (held_delegations (nd_vault m)) (held_delegations (nd_vault m'))"
    unfolding settled_held_def
  proof
    fix h' assume "h' \<in> set (held_delegations (nd_vault m'))"
    with af(3) obtain h where h: "h \<in> set (held_delegations (nd_vault m1))"
      "h' = h\<lparr>hd_unreported_uses := filter (\<lambda>u. gu_request_id u \<notin> set (rg_acknowledged_request_ids req)) (hd_unreported_uses h)\<rparr>"
      by (auto simp: m2 AcknowledgeUses_held)
    then show "\<exists>h \<in> set (held_delegations (nd_vault m)). hd_delegation h' = hd_delegation h \<and>
        hd_unreported_uses h' = filter (\<lambda>u. gu_request_id u \<notin> set (rg_acknowledged_request_ids req)) (hd_unreported_uses h) \<and>
        (dg_approver_fingerprint (hd_delegation h) = tr_fingerprint rcd \<longrightarrow> delegation_id h \<notin> set (rg_revoked_delegation_ids req))"
      using tb(1,3) by (intro bexI [of _ h]) auto
  qed
qed

lemma ReconcileGrants_held:
  assumes "run_state (ReconcileGrants W (Some p) req) m = (Inr resp, m')" and "nv_delegations W" "rg_renewed_delegations req = []"
    and "Peer (nv_fold W) (pi_fingerprint p) (nd_vault m) = Some rcd"
  shows "settled_held (tr_fingerprint rcd) req (held_delegations (nd_vault m)) (held_delegations (nd_vault m'))"
    "peers_of (nd_vault m') = peers_of (nd_vault m)"
    "rg_uses resp = UnreportedUses (tr_fingerprint rcd) (nd_vault m')"
    "rg_held_delegation_ids resp = map delegation_id
       (filter (\<lambda>h. dg_approver_fingerprint (hd_delegation h) = tr_fingerprint rcd) (held_delegations (nd_vault m')))"
proof -
  obtain a m1 where a: "run_state (publisherFor W (Some p)) m = (a, m1)" by fastforce
  obtain p' rcd' where x: "a = Inr (p', rcd')" using assms(1) a by (cases a) (auto simp: ReconcileGrants_def)
  note auth = publisherFor_Inr [OF a [unfolded x]]
  have r: "p' = p" "rcd' = rcd" using auth(1,2) assms(4) by auto
  have v: "nd_vault m1 = nd_vault m" using auth(4) by simp
  from assms(1,2) a x r have "run_state (reconciled_with W rcd req) m1 = (Inr resp, m')"
    by (cases "run_state (reconciled_with W rcd req) m1") (auto simp: ReconcileGrants_def map_sum_def split: sum.splits)
  from reconciled_with_held [OF this assms(3)] v
  show "settled_held (tr_fingerprint rcd) req (held_delegations (nd_vault m)) (held_delegations (nd_vault m'))"
    "peers_of (nd_vault m') = peers_of (nd_vault m)"
    "rg_uses resp = UnreportedUses (tr_fingerprint rcd) (nd_vault m')"
    "rg_held_delegation_ids resp = map delegation_id
       (filter (\<lambda>h. dg_approver_fingerprint (hd_delegation h) = tr_fingerprint rcd) (held_delegations (nd_vault m')))"
    by simp_all
qed

lemma wire_Inr:
  assumes "run_state (wire W peer req) (ds, m) = (Inr resp, (ds', m'))"
  shows "run_state (ReconcileGrants W peer req) m = (Inr resp, m')"
  using assms
  by (auto simp: wire_def map_sum_def split: delivery.splits prod.splits sum.splits)

section \<open>What the round trip does\<close>

lemma UnreportedUses_in: "u \<in> set (UnreportedUses fp v) \<longleftrightarrow>
    (\<exists>h \<in> set (held_delegations v). (fp = [] \<or> dg_approver_fingerprint (hd_delegation h) = fp) \<and> u \<in> set (hd_unreported_uses h))"
  by (auto simp: UnreportedUses_def)

text \<open>Every delegation held from \<open>fp\<close> has its identifier in \<open>ids\<close>, and nothing done under one is unreported.\<close>

definition in_line :: "string \<Rightarrow> string set \<Rightarrow> vault \<Rightarrow> bool" where
  "in_line fp ids v \<longleftrightarrow>
     (\<forall>h \<in> set (held_delegations v). dg_approver_fingerprint (hd_delegation h) = fp \<longrightarrow> delegation_id h \<in> ids) \<and>
     UnreportedUses fp v = []"

lemma settle_account_in_line:
  assumes "run_state (settle_account (wire W (Some p)) rcd ids resp) (n, (ds, m)) = (Inr (), (n', (ds', m')))"
    and "nv_delegations W" and "Peer (nv_fold W) (pi_fingerprint p) (nd_vault m) = Some me"
    and "rg_uses resp = UnreportedUses (tr_fingerprint me) (nd_vault m)"
    and "rg_held_delegation_ids resp = map delegation_id
       (filter (\<lambda>h. dg_approver_fingerprint (hd_delegation h) = tr_fingerprint me) (held_delegations (nd_vault m)))"
  shows "in_line (tr_fingerprint me) (set ids) (nd_vault m')"
proof -
  let ?revoked = "filter (\<lambda>i. i \<notin> set ids) (rg_held_delegation_ids resp)"
  let ?received = "map gu_request_id (rg_uses resp)"
  let ?R = "RecordGrantUses (e_saves (nd_engine n) 0) (rg_uses resp) (nd_vault n)"
  obtain u where ok: "snd ?R = Inr u"
    using assms(1) by (cases "snd ?R") (auto simp: settle_account_def run_on_vault Let_def)
  show ?thesis
  proof (cases "?revoked = [] \<and> ?received = []")
    case True
    with assms(1) ok have "m' = m" by (auto simp: settle_account_def run_on_vault Let_def)
    with True assms(4,5) show ?thesis by (auto simp: in_line_def filter_empty_conv)
  next
    case False
    define req where "req = \<lparr>rg_revoked_delegation_ids = ?revoked, rg_acknowledged_request_ids = ?received, rg_renewed_delegations = []\<rparr>"
    obtain r ds1 m1 where w: "run_state (wire W (Some p) req) (ds, m) = (r, (ds1, m1))" by (metis prod.exhaust)
    obtain resp' where r: "r = Inr resp'" "m1 = m'"
    proof (cases r)
      case (Inl e)
      with assms(1) ok False w show ?thesis
        by (auto simp: settle_account_def run_on_vault tellReconciled_def Let_def req_def [symmetric])
    next
      case (Inr resp')
      with assms(1) ok False w show ?thesis
        by (intro that [of resp']) (auto simp: settle_account_def run_on_vault tellReconciled_def Let_def req_def [symmetric])
    qed
    have "rg_renewed_delegations req = []" by (simp add: req_def)
    from ReconcileGrants_held(1) [OF wire_Inr [OF w [unfolded r]] assms(2) this assms(3)]
    have st: "settled_held (tr_fingerprint me) req (held_delegations (nd_vault m)) (held_delegations (nd_vault m'))" .
    show ?thesis unfolding in_line_def
    proof (intro conjI ballI impI)
      fix h' assume h': "h' \<in> set (held_delegations (nd_vault m'))" "dg_approver_fingerprint (hd_delegation h') = tr_fingerprint me"
      with st obtain h where h: "h \<in> set (held_delegations (nd_vault m))" "hd_delegation h' = hd_delegation h"
        "delegation_id h \<notin> set ?revoked" unfolding settled_held_def by (auto simp: req_def)
      with h'(2) assms(5) have "delegation_id h \<in> set (rg_held_delegation_ids resp)" by auto
      with h show "delegation_id h' \<in> set ids" by (auto simp: delegation_id_def)
    next
      have "u \<notin> set (UnreportedUses (tr_fingerprint me) (nd_vault m'))" for u
      proof
        assume "u \<in> set (UnreportedUses (tr_fingerprint me) (nd_vault m'))"
        then obtain h' where h': "h' \<in> set (held_delegations (nd_vault m'))"
          "tr_fingerprint me = [] \<or> dg_approver_fingerprint (hd_delegation h') = tr_fingerprint me" "u \<in> set (hd_unreported_uses h')"
          by (auto simp: UnreportedUses_in)
        with st obtain h where h: "h \<in> set (held_delegations (nd_vault m))" "hd_delegation h' = hd_delegation h"
          "u \<in> set (hd_unreported_uses h)" "gu_request_id u \<notin> set ?received" unfolding settled_held_def by (fastforce simp: req_def)
        with h'(2) have "u \<in> set (rg_uses resp)" unfolding assms(4) UnreportedUses_in by auto
        with h(4) show False by simp
      qed
      then show "UnreportedUses (tr_fingerprint me) (nd_vault m') = []" by (metis last_in_set)
    qed
  qed
qed

section \<open>Whose promises a report is filed under\<close>

lemma filter_update_first:
  "(\<And>x. x \<in> set xs \<Longrightarrow> P x \<Longrightarrow> Q x \<and> Q (f x)) \<Longrightarrow> filter (\<lambda>x. \<not> Q x) (update_first P f xs) = filter (\<lambda>x. \<not> Q x) xs"
  by (induction xs) auto

definition files_under :: "string \<Rightarrow> grant_use list \<Rightarrow> grant list \<Rightarrow> bool" where
  "files_under fp us gs \<longleftrightarrow> (\<forall>u \<in> set us. \<forall>g \<in> set gs. gr_grant_id g = gu_grant_id u \<longrightarrow> delegated_to fp g)"

lemma record_one_own:
  assumes "files_under fp (u # us) (fst st)"
  shows "filter (\<lambda>g. \<not> delegated_to fp g) (fst (record_one u st)) = filter (\<lambda>g. \<not> delegated_to fp g) (fst st)"
    "files_under fp us (fst (record_one u st))"
proof -
  let ?upd = "update_first (\<lambda>g. gr_grant_id g = gu_grant_id u) (use_grant u) (fst st)"
  have same: "gr_grant_id (use_grant u g) = gr_grant_id g" "delegated_to fp (use_grant u g) = delegated_to fp g" for g
    by (simp_all add: use_grant_def delegated_to_def)
  have "filter (\<lambda>g. \<not> delegated_to fp g) ?upd = filter (\<lambda>g. \<not> delegated_to fp g) (fst st)"
    using assms by (intro filter_update_first) (auto simp: files_under_def same)
  moreover have "files_under fp us ?upd"
    using assms by (auto simp: files_under_def same dest!: in_update_firstD)
  moreover have "files_under fp us (fst st)" using assms by (simp add: files_under_def)
  moreover have "fst (record_one u st) = fst st \<or> fst (record_one u st) = ?upd"
    by (auto simp: record_one_def split: option.split)
  ultimately show "filter (\<lambda>g. \<not> delegated_to fp g) (fst (record_one u st)) = filter (\<lambda>g. \<not> delegated_to fp g) (fst st)"
    "files_under fp us (fst (record_one u st))" by auto
qed

lemma RecordGrantUses_own:
  assumes "files_under fp us (grants v)"
  shows "filter (\<lambda>g. \<not> delegated_to fp g) (grants (fst (RecordGrantUses sv us v))) = filter (\<lambda>g. \<not> delegated_to fp g) (grants v)"
proof -
  have "files_under fp us (fst st) \<Longrightarrow>
      filter (\<lambda>g. \<not> delegated_to fp g) (fst (fold record_one us st)) = filter (\<lambda>g. \<not> delegated_to fp g) (fst st)" for st
    by (induction us arbitrary: st) (simp_all add: record_one_own)
  from this [of "(grants v, False)"] assms show ?thesis by (auto simp: RecordGrantUses_def split: prod.split)
qed

lemma recordReported_own:
  assumes "run_state (recordReported rcd uses) n = (r, n')" and "uses \<noteq> []" and "distinct (map gr_grant_id (grants (nd_vault n)))"
  shows "filter (\<lambda>g. \<not> delegated_to (tr_fingerprint rcd) g) (grants (nd_vault n')) =
    filter (\<lambda>g. \<not> delegated_to (tr_fingerprint rcd) g \<and> grant_live (e_clock (nd_engine n) 0) g) (grants (nd_vault n))"
proof -
  let ?G = "Grants (e_saves (nd_engine n) 0) (e_clock (nd_engine n) 0) (nd_vault n)"
  let ?fp = "tr_fingerprint rcd"
  have live: "filter (\<lambda>g. \<not> delegated_to ?fp g) (grants (fst ?G)) =
      filter (\<lambda>g. \<not> delegated_to ?fp g \<and> grant_live (e_clock (nd_engine n) 0) g) (grants (nd_vault n))"
    by (simp add: Grants_doc conj_commute)
  show ?thesis
  proof (cases "snd ?G")
    case (Inl e)
    with assms(1,2) live show ?thesis by (auto simp: recordReported_def run_on_vault)
  next
    case (Inr gs)
    note gs = Grants_result [OF Inr]
    define kept where "kept = filter (\<lambda>u. gu_grant_id u \<in> set (map gr_grant_id (filter (delegated_to ?fp) gs))) uses"
    obtain sv where v: "nd_vault n' = fst (RecordGrantUses sv kept (fst ?G))"
      using assms(1,2) Inr by (auto simp: recordReported_def run_on_vault kept_def Let_def)
    have d: "distinct (map gr_grant_id (grants (fst ?G)))"
      using assms(3) by (simp add: Grants_doc distinct_map_filter)
    have "delegated_to ?fp g" if "u \<in> set kept" "g \<in> set (grants (fst ?G))" "gr_grant_id g = gu_grant_id u" for u g
    proof -
      from that(1) obtain g' where g': "g' \<in> set (grants (fst ?G))" "delegated_to ?fp g'" "gr_grant_id g' = gu_grant_id u"
        by (auto simp: kept_def gs Grants_doc)
      with d that(2,3) have "g' = g" by (metis distinct_map inj_onD)
      with g' show ?thesis by simp
    qed
    then have "files_under ?fp kept (grants (fst ?G))" by (simp add: files_under_def)
    from RecordGrantUses_own [OF this] live show ?thesis by (simp add: v)
  qed
qed

section \<open>A round that gets through\<close>

definition writes :: "Node \<Rightarrow> bool" where
  "writes n \<longleftrightarrow> e_saves (nd_engine n) = (\<lambda>_. None)"

lemma all_saved:
  "\<exists>x. snd (Delegations None now v) = Inr x" "\<exists>x. snd (DropDelegations None ids v) = Inr x"
  "\<exists>x. snd (AcknowledgeUses None rids v) = Inr x" "\<exists>x. snd (RecordGrantUses None us v) = Inr x"
  by (auto simp: Delegations_def liveDelegations_def DropDelegations_def drop_delegations_def AcknowledgeUses_def
      RecordGrantUses_def Let_def split: prod.split)

lemma take_back_returns:
  assumes "writes m"
  shows "\<exists>m'. run_state (take_back rcd ids) m = (Inr (), m') \<and> writes m'"
proof (cases "ids = []")
  case True
  with assms show ?thesis by (simp add: take_back_def)
next
  case False
  let ?D = "Delegations None (e_clock (nd_engine m) 0) (nd_vault m)"
  obtain held where h: "snd ?D = Inr held" using all_saved(1) by blast
  let ?ids = "filter (\<lambda>i. i \<in> set (map delegation_id (filter (\<lambda>h. dg_approver_fingerprint (hd_delegation h) = tr_fingerprint rcd) held))) ids"
  obtain k where k: "snd (DropDelegations None ?ids (fst ?D)) = Inr k" using all_saved(2) by blast
  show ?thesis using False assms h k
    by (simp add: take_back_def dropRevoked_def run_on_vault writes_def Let_def)
qed

lemma reconciled_with_returns:
  assumes "writes m" "rg_renewed_delegations req = []"
  shows "\<exists>resp m'. run_state (reconciled_with W rcd req) m = (Inr resp, m') \<and> writes m'"
proof -
  obtain m1 where t: "run_state (take_back rcd (rg_revoked_delegation_ids req)) m = (Inr (), m1)" "writes m1"
    using take_back_returns [OF assms(1)] by blast
  let ?A = "AcknowledgeUses None (rg_acknowledged_request_ids req) (nd_vault m1)"
  obtain k where k: "snd ?A = Inr k" using all_saved(3) by blast
  obtain held where h: "snd (Delegations None (e_clock (nd_engine m1) 0) (fst ?A)) = Inr held" using all_saved(1) by blast
  show ?thesis using t k h assms(2)
    by (simp add: reconciled_with_def run_on_vault writes_def account_for_def)
qed

lemma ReconcileGrants_returns:
  assumes "writes m" "rg_renewed_delegations req = []" "nv_delegations W"
    and "Peer (nv_fold W) (pi_fingerprint p) (nd_vault m) = Some me" "tr_may_approve me"
  shows "\<exists>resp m'. run_state (ReconcileGrants W (Some p) req) m = (Inr resp, m') \<and> writes m' \<and>
    Peer (nv_fold W) (pi_fingerprint p) (nd_vault m') = Some me"
proof -
  define m1 where "m1 = m\<lparr>nd_engine := ticked (nd_engine m), nd_seen := (nd_seen m)(pi_fingerprint p \<mapsto> e_clock (nd_engine m) 0)\<rparr>"
  have a: "run_state (publisherFor W (Some p)) m = (Inr (p, me), m1)"
    using assms(4,5) by (simp add: publisherFor_def find_peer_def run_saw m1_def)
  have "writes m1" using assms(1) by (simp add: writes_def m1_def)
  from reconciled_with_returns [OF this assms(2), of W me] obtain resp m' where
    r: "run_state (reconciled_with W me req) m1 = (Inr resp, m')" "writes m'" by blast
  with a assms(3) have run: "run_state (ReconcileGrants W (Some p) req) m = (Inr resp, m')" by (simp add: ReconcileGrants_def)
  with ReconcileGrants_held(2) [OF run assms(3,2,4)] assms(4) r(2) show ?thesis by (auto simp: Peer_def)
qed

lemma wire_returns:
  assumes "writes m" "rg_renewed_delegations req = []" "nv_delegations W" "ds = (\<lambda>_. Delivered)"
    and "Peer (nv_fold W) (pi_fingerprint p) (nd_vault m) = Some me" "tr_may_approve me"
  shows "\<exists>resp m'. run_state (wire W (Some p) req) (ds, m) = (Inr resp, (ds, m')) \<and> writes m' \<and>
    Peer (nv_fold W) (pi_fingerprint p) (nd_vault m') = Some me"
proof -
  obtain resp m' where "run_state (ReconcileGrants W (Some p) req) m = (Inr resp, m')" "writes m'"
    "Peer (nv_fold W) (pi_fingerprint p) (nd_vault m') = Some me"
    using ReconcileGrants_returns [OF assms(1-3,5,6)] by blast
  then show ?thesis by (simp add: wire_def assms(4))
qed

lemma settle_account_returns:
  assumes "writes m" "nv_delegations W" "ds = (\<lambda>_. Delivered)"
    and "Peer (nv_fold W) (pi_fingerprint p) (nd_vault m) = Some me" "tr_may_approve me" "e_saves (nd_engine n) 0 = None"
  shows "\<exists>s'. run_state (settle_account (wire W (Some p)) rcd ids resp) (n, (ds, m)) = (Inr (), s')"
proof -
  define again where "again = \<lparr>rg_revoked_delegation_ids = filter (\<lambda>i. i \<notin> set ids) (rg_held_delegation_ids resp),
    rg_acknowledged_request_ids = map gu_request_id (rg_uses resp), rg_renewed_delegations = []\<rparr>"
  have "rg_renewed_delegations again = []" by (simp add: again_def)
  from wire_returns [OF assms(1) this assms(2-5)] obtain resp2 m2 where
    w2: "run_state (wire W (Some p) again) (ds, m) = (Inr resp2, (ds, m2))" by blast
  obtain k where "snd (RecordGrantUses None (rg_uses resp) (nd_vault n)) = Inr k" using all_saved(4) by blast
  then show ?thesis
    using assms(6) w2 by (simp add: settle_account_def run_on_vault tellReconciled_def again_def [symmetric] Let_def)
qed

lemma reconcileWith_returns:
  assumes "writes n" and "writes m" and "ds = (\<lambda>_. Delivered)" and "nv_delegations V" and "nv_delegations W"
    and "Peer (nv_fold W) (pi_fingerprint p) (nd_vault m) = Some me" and "tr_may_approve me"
  shows "\<exists>s'. run_state (reconcileWith V (wire W (Some p)) rcd) (n, (ds, m)) = (Inr (), s')"
proof -
  let ?G = "Grants None (e_clock (nd_engine n) 0) (nd_vault n)"
  obtain gs where g: "snd ?G = Inr gs" using Grants_total by blast
  let ?theirs = "filter (live_for (tr_fingerprint rcd)) gs"
  define req where "req = \<lparr>rg_revoked_delegation_ids = [],
    rg_acknowledged_request_ids = concat (map (\<lambda>g. map gu_request_id (gr_recent_uses g)) ?theirs), rg_renewed_delegations = []\<rparr>"
  have "rg_renewed_delegations req = []" by (simp add: req_def)
  from wire_returns [OF assms(2) this assms(5,3,6,7)] obtain resp m1 where
    w: "run_state (wire W (Some p) req) (ds, m) = (Inr resp, (ds, m1))" "writes m1"
      "Peer (nv_fold W) (pi_fingerprint p) (nd_vault m1) = Some me" by blast
  then show ?thesis
    using assms(1,4) g w(1) settle_account_returns [OF w(2) assms(5,3) w(3) assms(7)]
    by (simp add: reconcileWith_def run_on_vault writes_def req_def [symmetric] Let_def)
qed

section \<open>Properties\<close>

text \<open>
  C13: A reconciliation that reports success brought the other machine into line, whichever calls were lost
  before: every delegation that machine then holds from this approver is one the approver's store has
  as delegated to it, unexpired and not taken back, and it owes the approver no account of a use.
\<close>

theorem reconciled_in_line:
  assumes "run_state (reconcileWith V (wire W (Some p)) rcd) (n, (ds, m)) = (Inr (), (n', (ds', m')))"
    and "nv_delegations V" and "nv_delegations W" and "Peer (nv_fold W) (pi_fingerprint p) (nd_vault m) = Some me"
  shows "in_line (tr_fingerprint me)
    {gr_grant_id g | g. g \<in> set (grants (nd_vault n)) \<and> live_for (tr_fingerprint rcd) g \<and> grant_live (e_clock (nd_engine n) 0) g}
    (nd_vault m')"
proof -
  let ?G = "Grants (e_saves (nd_engine n) 0) (e_clock (nd_engine n) 0) (nd_vault n)"
  obtain gs where g: "snd ?G = Inr gs"
    using assms(1,2) by (cases "snd ?G") (auto simp: reconcileWith_def run_on_vault)
  have gs: "gs = filter (grant_live (e_clock (nd_engine n) 0)) (grants (nd_vault n))" using Grants_result [OF g] .
  let ?theirs = "filter (live_for (tr_fingerprint rcd)) gs"
  define req where "req = \<lparr>rg_revoked_delegation_ids = [],
    rg_acknowledged_request_ids = concat (map (\<lambda>g. map gu_request_id (gr_recent_uses g)) ?theirs), rg_renewed_delegations = []\<rparr>"
  obtain r ds1 m1 where w: "run_state (wire W (Some p) req) (ds, m) = (r, (ds1, m1))" by (metis prod.exhaust)
  obtain resp n1 where r: "r = Inr resp"
    and st: "run_state (settle_account (wire W (Some p)) rcd (map gr_grant_id ?theirs) resp) (n1, (ds1, m1)) = (Inr (), (n', (ds', m')))"
    using assms(1,2) g w
    by (cases r) (auto simp: reconcileWith_def run_on_vault Let_def req_def [symmetric])
  have "rg_renewed_delegations req = []" by (simp add: req_def)
  note held = ReconcileGrants_held [OF wire_Inr [OF w [unfolded r]] assms(3) this assms(4)]
  have me: "Peer (nv_fold W) (pi_fingerprint p) (nd_vault m1) = Some me" using assms(4) held(2) by (simp add: Peer_def)
  from settle_account_in_line [OF st assms(3) me held(3,4)]
  show ?thesis by (rule arg_cong [where f = "\<lambda>x. in_line (tr_fingerprint me) x (nd_vault m')", THEN iffD1, rotated]) (auto simp: gs)
qed

text \<open>
  C14: "Revoked" is never said of a promise the other machine goes on honouring: when taking a delegation
  back reports that it was taken, that machine then holds none of this approver's with that
  identifier, whichever calls were lost.
\<close>

theorem revoked_is_gone:
  assumes "run_state (RevokeDelegation V (\<lambda>_. wire W (Some p)) grantID) (n, (ds, m)) = (Inr True, (n', (ds', m')))"
    and "nv_delegations W" and "Peer (nv_fold W) (pi_fingerprint p) (nd_vault m) = Some me"
  shows "\<not> list_ex (\<lambda>h. delegation_id h = grantID \<and> dg_approver_fingerprint (hd_delegation h) = tr_fingerprint me)
    (held_delegations (nd_vault m'))"
proof -
  define req where "req = \<lparr>rg_revoked_delegation_ids = [grantID], rg_acknowledged_request_ids = [], rg_renewed_delegations = []\<rparr>"
  obtain r ds1 m1 where w: "run_state (wire W (Some p) req) (ds, m) = (r, (ds1, m1))" by (metis prod.exhaust)
  from assms(1) w obtain resp where r: "r = Inr resp" "m1 = m'"
    by (cases r) (auto simp: RevokeDelegation_def run_on_vault tellReconciled_def req_def [symmetric]
        split: sum.splits option.splits if_splits)
  have "rg_renewed_delegations req = []" by (simp add: req_def)
  from ReconcileGrants_held(1) [OF wire_Inr [OF w [unfolded r]] assms(2) this assms(3)]
  show ?thesis unfolding settled_held_def list_ex_iff by (fastforce simp: req_def delegation_id_def)
qed

text \<open>
  A peer files what it did under its own promises and nobody else's: after its report, the promises
  that are not delegated to it are the ones there were, untouched, less those that had expired.
\<close>

theorem reports_stay_own:
  assumes "run_state (ReportGrantUse V (Some p) uses) n = (r, n')" and "Peer (nv_fold V) (pi_fingerprint p) (nd_vault n) = Some rcd"
    and "nv_delegations V" and "uses \<noteq> []" and "distinct (map gr_grant_id (grants (nd_vault n)))"
  shows "filter (\<lambda>g. \<not> delegated_to (tr_fingerprint rcd) g) (grants (nd_vault n')) =
    filter (\<lambda>g. \<not> delegated_to (tr_fingerprint rcd) g \<and> grant_live (e_clock (nd_engine n) 0) g) (grants (nd_vault n))"
proof -
  obtain r' n1 where "run_state (recordReported rcd uses) n = (r', n1)" by fastforce
  moreover from this assms(1-3) have "n1 = n'" by (auto simp: ReportGrantUse_def find_peer_def)
  ultimately show ?thesis using recordReported_own assms(4,5) by blast
qed

text \<open>
  A round trip whose calls arrive gets through: when both stores can be written, the machine is paired
  as one this instance approves for and it takes approvals from this instance, reconciling succeeds.
\<close>

theorem reconciliation_gets_through:
  assumes "writes n" and "writes m" and "ds = (\<lambda>_. Delivered)" and "nv_delegations V" and "nv_delegations W"
    and "Peer (nv_fold W) (pi_fingerprint p) (nd_vault m) = Some me" and "tr_may_approve me"
  shows "\<exists>s'. run_state (reconcileWith V (wire W (Some p)) rcd) (n, (ds, m)) = (Inr (), s')"
  by (rule reconcileWith_returns [OF assms])

text \<open>An approver with one promise left, and a machine that still holds that one and an older one.\<close>

definition promised :: grant where
  "promised = empty_grant\<lparr>gr_grant_id := ''g'', gr_delegated := True, gr_delegate_fingerprint := ''R'', gr_expires_at := Some hour\<rparr>"

definition held_as :: "string \<Rightarrow> held_delegation" where
  "held_as i = sample_held\<lparr>hd_delegation := (hd_delegation sample_held)\<lparr>dg_delegation_id := i, dg_approver_fingerprint := ''F''\<rparr>\<rparr>"

definition knows :: "trust_record \<Rightarrow> grant list \<Rightarrow> held_delegation list \<Rightarrow> Node" where
  "knows rcd gs hs = (one_peer ''F'' ''box'')\<lparr>nd_engine := demo_engine\<lparr>e_vault := empty_vault\<lparr>v_doc := empty_document\<lparr>sd_peers := [rcd],
     sd_grants := gs, sd_held_delegations := hs\<rparr>\<rparr>\<rparr>\<rparr>"

definition approver_record :: trust_record where
  "approver_record = empty_record\<lparr>tr_fingerprint := ''F'', tr_name := ''phone'', tr_may_approve := True\<rparr>"

definition machine_record :: trust_record where
  "machine_record = empty_record\<lparr>tr_fingerprint := ''R'', tr_name := ''box'', tr_may_request := True\<rparr>"

lemma knows_sel:
  "peers_of (nd_vault (knows rcd gs hs)) = [rcd]" "grants (nd_vault (knows rcd gs hs)) = gs"
  "held_delegations (nd_vault (knows rcd gs hs)) = hs" "writes (knows rcd gs hs)" "e_clock (nd_engine (knows rcd gs hs)) 0 = 5"
  by (simp_all add: knows_def writes_def demo_engine_def)

lemma approver_known:
  "Peer (nv_fold plain_env) (pi_fingerprint caller_F) (nd_vault (knows approver_record gs hs)) = Some approver_record"
  "tr_may_approve approver_record" "nv_delegations plain_env"
  by (simp_all add: Peer_def knows_sel MatchesRef_def approver_record_def caller_F_def plain_env_def)

theorem reconciliation_gets_through_witness:
  "\<exists>s'. run_state (reconcileWith plain_env (wire plain_env (Some caller_F)) machine_record)
     (knows machine_record [promised] [], ((\<lambda>_. Delivered), knows approver_record [] [held_as ''g'', held_as ''old''])) = (Inr (), s')"
  by (rule reconciliation_gets_through [OF knows_sel(4) knows_sel(4) refl approver_known(3,3,1,2)])

theorem reconciled_in_line_witness:
  "\<exists>n' ds' m'. run_state (reconcileWith plain_env (wire plain_env (Some caller_F)) machine_record)
     (knows machine_record [promised] [], ((\<lambda>_. Delivered), knows approver_record [] [held_as ''g'', held_as ''old''])) =
       (Inr (), (n', (ds', m'))) \<and> in_line ''F'' {''g''} (nd_vault m')"
proof -
  let ?n = "knows machine_record [promised] []"
  let ?m = "knows approver_record [] [held_as ''g'', held_as ''old'']"
  obtain n' ds' m' where r: "run_state (reconcileWith plain_env (wire plain_env (Some caller_F)) machine_record) (?n, ((\<lambda>_. Delivered), ?m)) =
      (Inr (), (n', (ds', m')))"
    using reconcileWith_returns [OF knows_sel(4) knows_sel(4) refl approver_known(3,3,1,2)] by (metis prod.exhaust)
  have g: "{gr_grant_id g | g. g \<in> set (grants (nd_vault ?n)) \<and> live_for (tr_fingerprint machine_record) g \<and>
      grant_live (e_clock (nd_engine ?n) 0) g} = {''g''}"
    unfolding knows_sel
    by (auto simp: promised_def live_for_def delegated_to_def machine_record_def grant_live_def empty_grant_def)
  have "tr_fingerprint approver_record = ''F''" by (simp add: approver_record_def)
  with reconciled_in_line [OF r approver_known(3,3,1)] r g show ?thesis by auto
qed

theorem revoked_is_gone_witness:
  "\<exists>n' ds' m'. run_state (RevokeDelegation plain_env (\<lambda>_. wire plain_env (Some caller_F)) ''g'')
     (knows machine_record [promised] [], ((\<lambda>_. Delivered), knows approver_record [] [held_as ''g''])) = (Inr True, (n', (ds', m'))) \<and>
     \<not> list_ex (\<lambda>h. delegation_id h = ''g'' \<and> dg_approver_fingerprint (hd_delegation h) = ''F'') (held_delegations (nd_vault m'))"
proof -
  let ?n = "knows machine_record [promised] []"
  let ?m = "knows approver_record [] [held_as ''g'']"
  let ?req = "\<lparr>rg_revoked_delegation_ids = [''g''], rg_acknowledged_request_ids = [], rg_renewed_delegations = []\<rparr>"
  obtain resp m' where w: "run_state (wire plain_env (Some caller_F) ?req) ((\<lambda>_. Delivered), ?m) = (Inr resp, ((\<lambda>_. Delivered), m'))"
    using wire_returns [OF knows_sel(4) _ approver_known(3) refl approver_known(1) [of "[]" "[held_as ''g'']"] approver_known(2), of ?req]
    by (metis ReconcileGrantsRequest.select_convs(3))
  have p: "gr_grant_id promised = ''g''" "gr_delegated promised" "gr_delegate_fingerprint promised = ''R''" "grant_live 5 promised"
    by (simp_all add: promised_def grant_live_def)
  have mr: "tr_fingerprint machine_record = ''R''" by (simp add: machine_record_def)
  have "\<exists>n'. run_state (RevokeDelegation plain_env (\<lambda>_. wire plain_env (Some caller_F)) ''g'') (?n, ((\<lambda>_. Delivered), ?m)) =
      (Inr True, (n', ((\<lambda>_. Delivered), m')))"
    using w by (simp add: RevokeDelegation_def approver_known run_on_vault knows_sel Grants_def p Let_def mr tellReconciled_def)
  then obtain n' where r: "run_state (RevokeDelegation plain_env (\<lambda>_. wire plain_env (Some caller_F)) ''g'') (?n, ((\<lambda>_. Delivered), ?m)) =
      (Inr True, (n', ((\<lambda>_. Delivered), m')))" by blast
  have "tr_fingerprint approver_record = ''F''" by (simp add: approver_record_def)
  with revoked_is_gone [OF r approver_known(3,1)] r show ?thesis by auto
qed

theorem reports_stay_own_witness:
  "\<exists>r n'. run_state (ReportGrantUse plain_env (Some caller_F) [sample_use 1]) (knows approver_record [promised] []) = (r, n') \<and>
     filter (\<lambda>g. \<not> delegated_to ''F'' g) (grants (nd_vault n')) = [promised]"
proof -
  let ?n = "knows approver_record [promised] []"
  obtain r n' where r: "run_state (ReportGrantUse plain_env (Some caller_F) [sample_use 1]) ?n = (r, n')" by fastforce
  have "distinct (map gr_grant_id (grants (nd_vault ?n)))" by (simp add: knows_sel)
  from reports_stay_own [OF r approver_known(1,3) _ this] r show ?thesis
    by (simp add: knows_sel approver_record_def promised_def delegated_to_def grant_live_def empty_grant_def)
qed

text \<open>
  What a round trip records is not held to the same rule: a machine's answer may name uses of promises
  made to others. And a revocation that was delivered while its acknowledgement was lost stays
  marked as waiting: the next round finds nothing to say and returns before it would finish it.
\<close>

lemma promised_facts:
  "gr_grant_id promised = ''g''" "gr_delegated promised" "gr_delegate_fingerprint promised = ''R''" "grant_live 5 promised"
  "\<not> gr_revoke_pending promised" "gr_recent_uses promised = []" "gr_use_count promised = 0"
  by (simp_all add: promised_def grant_live_def empty_grant_def)

lemma round_files_anything:
  "\<exists>n' w'. run_state (reconcileWith plain_env (\<lambda>_. State_Monad.return (Inr \<lparr>rg_uses = [sample_use 1], rg_held_delegation_ids = []\<rparr>))
     approver_record) (knows approver_record [promised] [], ()) = (Inr (), (n', w')) \<and>
     \<not> delegated_to (tr_fingerprint approver_record) promised \<and> map gr_use_count (grants (nd_vault n')) = [1]"
proof -
  let ?n = "knows approver_record [promised] []"
  let ?v = "with_grants (\<lambda>_. [use_grant (sample_use 1) promised]) (nd_vault ?n)"
  have g: "Grants sv 5 (nd_vault ?n) = (nd_vault ?n, Inr [promised])" for sv
    by (simp add: Grants_def knows_sel promised_facts)
  have f: "delegated_to (tr_fingerprint approver_record) promised = False"
    by (simp add: delegated_to_def promised_facts approver_record_def)
  have u: "gu_grant_id (sample_use 1) = ''g''" by (simp add: sample_use_def)
  have r: "RecordGrantUses None [sample_use 1] (nd_vault ?n) = (?v\<lparr>v_disk := v_doc ?v\<rparr>, Inr ())"
    by (simp add: RecordGrantUses_def knows_sel record_one_def u [simplified] promised_facts hasUse_def save_def)
  have sv: "e_saves (nd_engine ?n) 0 = None" "rest_of (e_saves (nd_engine ?n)) = e_saves (nd_engine ?n)"
    using knows_sel(4) [of approver_record "[promised]" "[]"] by (simp_all add: writes_def)
  have p: "PendingRevocations (tr_fingerprint approver_record) (?v\<lparr>v_disk := d\<rparr>) = []" for d
    by (simp add: PendingRevocations_def use_grant_def promised_facts)
  show ?thesis
    by (simp add: reconcileWith_def approver_known run_on_vault knows_sel(5) g f live_for_def settle_account_def
        tellReconciled_def Let_def finishPendingRevocations_def sv r [simplified] p [simplified])
       (simp add: use_grant_def promised_facts)
qed

lemma delivered_revocation_waits:
  assumes "gr_revoke_pending g" "delegated_to ''R'' g" "grant_live 5 g"
  shows "\<exists>n' w'. run_state (reconcileWith plain_env (wire plain_env (Some caller_F)) machine_record)
     (knows machine_record [g] [], ((\<lambda>_. Delivered), knows approver_record [] [])) = (Inr (), (n', w')) \<and>
     PendingRevocations ''R'' (nd_vault n') = [gr_grant_id g]"
proof -
  let ?n = "knows machine_record [g] []"
  let ?m = "knows approver_record [] []"
  let ?req = "\<lparr>rg_revoked_delegation_ids = [], rg_acknowledged_request_ids = [], rg_renewed_delegations = []\<rparr>"
  have gs: "Grants sv 5 (nd_vault ?n) = (nd_vault ?n, Inr [g])" for sv
    using assms(3) by (simp add: Grants_def knows_sel)
  obtain resp m' where w: "run_state (wire plain_env (Some caller_F) ?req) ((\<lambda>_. Delivered), ?m) = (Inr resp, ((\<lambda>_. Delivered), m'))"
    using wire_returns [OF knows_sel(4) _ approver_known(3) refl approver_known(1) [of "[]" "[]"] approver_known(2), of ?req]
    by (metis ReconcileGrantsRequest.select_convs(3))
  have "settled_held (tr_fingerprint approver_record) ?req [] (held_delegations (nd_vault m'))"
    and h: "rg_uses resp = UnreportedUses (tr_fingerprint approver_record) (nd_vault m')"
      "rg_held_delegation_ids resp = map delegation_id
       (filter (\<lambda>h. dg_approver_fingerprint (hd_delegation h) = tr_fingerprint approver_record) (held_delegations (nd_vault m')))"
    using ReconcileGrants_held [OF wire_Inr [OF w] approver_known(3) _ approver_known(1)] by (simp_all add: knows_sel)
  then have "held_delegations (nd_vault m') = []" by (auto simp: settled_held_def)
  with h have e: "rg_uses resp = []" "rg_held_delegation_ids resp = []" by (simp_all add: UnreportedUses_def)
  show ?thesis using assms(1,2) w e
    by (simp add: reconcileWith_def approver_known run_on_vault knows_sel gs live_for_def settle_account_def Let_def
        RecordGrantUses_def PendingRevocations_def delegated_to_def)
qed

end
