(* ===== verification/Peer_Endorse.thy ===== *)
theory Peer_Endorse
  imports Peer_Promises
begin

text \<open>
  Promises about a key among the machines that hold it (\<^verbatim>\<open>src/pkg/peer/endorsements.go\<close>): telling holders of an
  endorsement, taking one back, and passing a retraction on.

  What the code starts in the background is returned by the operation that starts it, so that it can
  be run at any later moment. A call to a holder transforms this node and the world behind the
  network; being without a link or an address is one of the ways such a call fails.
\<close>

section \<open>What a holder is told\<close>

datatype not_kept = KeepsNoEndorsements | EndorsementNotKept vault_error

record PublishEndorsementResponse =
  pr_accepted :: bool
  pr_reason :: "not_kept option"
  pr_retractions :: "signed_artifact list"

definition PublishEndorsement_rpc ::
    "'raw node_env \<Rightarrow> peer_identity option \<Rightarrow> signed_artifact option \<Rightarrow> (rpc_error + PublishEndorsementResponse) nd" where
  "PublishEndorsement_rpc V peer given = do {
     a \<leftarrow> authorize V peer;
     case a of
       Inl e \<Rightarrow> State_Monad.return (Inl e)
     | Inr _ \<Rightarrow>
         if \<not> nv_endorsements V
         then State_Monad.return (Inr \<lparr>pr_accepted = False, pr_reason = Some KeepsNoEndorsements, pr_retractions = []\<rparr>)
         else (case (VerifyEndorsement (x_ssh (nv_env V)) (x_endorsement (nv_env V)) given, given) of
                 (Inr e, Some artifact) \<Rightarrow> do {
                   r \<leftarrow> keepEndorsement artifact e True;
                   rs \<leftarrow> in_engine (on_vault_at (\<lambda>sv now. RetractionsForKey sv now (en_key_fingerprint e)));
                   State_Monad.return (Inr (case r of
                      Inl err \<Rightarrow> \<lparr>pr_accepted = False, pr_reason = Some (EndorsementNotKept err), pr_retractions = rs\<rparr>
                    | Inr _ \<Rightarrow> \<lparr>pr_accepted = True, pr_reason = None, pr_retractions = rs\<rparr>))
                 }
               | (Inl err, _) \<Rightarrow> State_Monad.return (Inl (Rpc CodeInvalidArgument (EndorsementUnverified err)))
               | (_, None) \<Rightarrow> State_Monad.return (Inl (Rpc CodeInvalidArgument (EndorsementUnverified NilMessage))))
   }"

text \<open>Beside the answer comes what is passed on in the background.\<close>

definition PublishRetraction_rpc ::
    "'raw node_env \<Rightarrow> peer_identity option \<Rightarrow> signed_artifact option
       \<Rightarrow> ((rpc_error + bool) \<times> (signed_artifact \<times> retraction) option) nd" where
  "PublishRetraction_rpc V peer given = do {
     a \<leftarrow> authorize V peer;
     case a of
       Inl e \<Rightarrow> State_Monad.return (Inl e, None)
     | Inr _ \<Rightarrow>
         if \<not> nv_endorsements V then State_Monad.return (Inr False, None)
         else (case (VerifyRetraction (x_ssh (nv_env V)) (nv_retraction V) given, given) of
                 (Inr r, Some artifact) \<Rightarrow> do {
                   (fresh, failed) \<leftarrow> in_engine (on_vault_at (\<lambda>sv now. AddRetraction sv now artifact r));
                   State_Monad.return (case failed of
                      Some err \<Rightarrow> (Inl (Rpc CodeInternal (StoreFailed err)), None)
                    | None \<Rightarrow> (Inr True, if fresh then Some (artifact, r) else None))
                 }
               | (Inl err, _) \<Rightarrow> State_Monad.return (Inl (Rpc CodeInvalidArgument (RetractionUnverified err)), None)
               | (_, None) \<Rightarrow> State_Monad.return (Inl (Rpc CodeInvalidArgument (RetractionUnverified NilMessage)), None))
   }"

fun keepRetractions :: "'raw node_env \<Rightarrow> signed_artifact list \<Rightarrow> (signed_artifact \<times> retraction) list nd" where
  "keepRetractions V [] = State_Monad.return []"
| "keepRetractions V (a # rest) =
     (case VerifyRetraction (x_ssh (nv_env V)) (nv_retraction V) (Some a) of
        Inl e \<Rightarrow> keepRetractions V rest
      | Inr r \<Rightarrow> do {
          (fresh, failed) \<leftarrow> in_engine (on_vault_at (\<lambda>sv now. AddRetraction sv now a r));
          news \<leftarrow> keepRetractions V rest;
          State_Monad.return (if fresh \<and> failed = None then (a, r) # news else news)
        })"

section \<open>Telling the holders\<close>

definition holdersOf :: "'raw node_env \<Rightarrow> string \<Rightarrow> vault \<Rightarrow> string list" where
  "holdersOf V key v = (if \<not> nv_endorsements V then [] else KeyHolders key v)"

fun tell_each ::
    "(string \<Rightarrow> (Node \<times> 'w, string option) state) \<Rightarrow> string \<Rightarrow> string list \<Rightarrow> (Node \<times> 'w, string list \<times> string list) state" where
  "tell_each call skip [] = State_Monad.return ([], [])"
| "tell_each call skip (fp # rest) =
     (if fp = skip then tell_each call skip rest
      else do {
        failed \<leftarrow> call fp;
        (told, unreached) \<leftarrow> tell_each call skip rest;
        State_Monad.return (case failed of
           Some e \<Rightarrow> (told, fp # unreached)
         | None \<Rightarrow> (fp # told, unreached))
      })"

definition tellHolders ::
    "'raw node_env \<Rightarrow> (string \<Rightarrow> (Node \<times> 'w, string option) state) \<Rightarrow> string \<Rightarrow> string \<Rightarrow> (Node \<times> 'w, string list \<times> string list) state" where
  "tellHolders V call key skip = do {
     v \<leftarrow> at_node (asks_node nd_vault);
     tell_each call skip (holdersOf V key v)
   }"

text \<open>
  The callback around the call of \<^verbatim>\<open>PublishEndorsement\<close> to one holder. Retractions that were news are passed on in
  the background, which is not part of this call.
\<close>

definition publish_to ::
    "'raw node_env \<Rightarrow> (string \<Rightarrow> ('w, string + PublishEndorsementResponse) state) \<Rightarrow> string \<Rightarrow> (Node \<times> 'w, string option) state" where
  "publish_to V call fp = do {
     r \<leftarrow> over_net (call fp);
     case r of
       Inl e \<Rightarrow> State_Monad.return (Some e)
     | Inr resp \<Rightarrow> do {
         _ \<leftarrow> at_node (keepRetractions V (pr_retractions resp));
         State_Monad.return None
       }
   }"

definition PublishEndorsement ::
    "'raw node_env \<Rightarrow> (string \<Rightarrow> ('w, string + PublishEndorsementResponse) state) \<Rightarrow> signed_artifact \<Rightarrow> (Node \<times> 'w, unit) state" where
  "PublishEndorsement V call artifact =
     (if \<not> nv_endorsements V then State_Monad.return ()
      else (case VerifyEndorsement (x_ssh (nv_env V)) (x_endorsement (nv_env V)) (Some artifact) of
              Inl e \<Rightarrow> State_Monad.return ()
            | Inr e \<Rightarrow> do {
                (told, unreached) \<leftarrow> tellHolders V (publish_to V call) (en_key_fingerprint e) (en_requester_fingerprint e);
                _ \<leftarrow> at_node (in_engine (on_vault (\<lambda>sv. NoteEndorsementReach sv (en_endorsement_id e) told unreached)));
                State_Monad.return ()
              }))"

definition retract_at :: "(string \<Rightarrow> ('w, string option) state) \<Rightarrow> string \<Rightarrow> (Node \<times> 'w, string option) state" where
  "retract_at call fp = over_net (call fp)"

fun note_told :: "string \<Rightarrow> string list \<Rightarrow> unit nd" where
  "note_told rid [] = State_Monad.return ()"
| "note_told rid (fp # rest) = do { _ \<leftarrow> in_engine (on_vault (\<lambda>sv. NoteGossiped sv rid fp)); note_told rid rest }"

definition gossipRetraction ::
    "'raw node_env \<Rightarrow> (string \<Rightarrow> ('w, string option) state) \<Rightarrow> retraction \<Rightarrow> (Node \<times> 'w, unit) state" where
  "gossipRetraction V call r = do {
     (told, unreached) \<leftarrow> tellHolders V (retract_at call) (rt_key_fingerprint r) [];
     at_node (note_told (rt_retraction_id r) told)
   }"

section \<open>Taking a promise back\<close>

datatype retract_error =
    RetractKeepsNone
  | NotAHolder signer_error
  | RetractNotSigned identity_error
  | RetractNotKept vault_error

definition endorsementExpiry :: "string \<Rightarrow> time option nd" where
  "endorsementExpiry i = do {
     r \<leftarrow> in_engine (on_vault_at Endorsements);
     State_Monad.return (case r of
        Inl e \<Rightarrow> None
      | Inr held \<Rightarrow> map_option (\<lambda>h. as_time (en_expires_at (he_endorsement h))) (find (\<lambda>h. endorsement_id h = i) held))
   }"

text \<open>How long a retraction has to be remembered follows what it takes back.\<close>

definition retraction_of ::
    "'raw node_env \<Rightarrow> Identity \<Rightarrow> string \<Rightarrow> time \<Rightarrow> time option \<Rightarrow> string \<Rightarrow> string \<Rightarrow> string \<Rightarrow> duration \<Rightarrow> retraction" where
  "retraction_of V ident rid now expiry eid key reason maxTTL =
     \<lparr>rt_retraction_id = rid, rt_key_fingerprint = key, rt_endorsement_id = eid,
      rt_issued_before = (if eid \<noteq> [] then None else Some now), rt_issued_at = Some now,
      rt_remember_until = Some ((if eid \<noteq> [] then case expiry of Some t \<Rightarrow> t | None \<Rightarrow> now + maxTTL else now + maxTTL) + hour),
      rt_issuer_fingerprint = Fingerprint (x_ssh (nv_env V)) ident, rt_issuer_name = id_name ident, rt_reason = reason\<rparr>"

definition held_count :: "nat nd" where
  "held_count = do {
     r \<leftarrow> in_engine (on_vault_at Endorsements);
     State_Monad.return (case r of Inl e \<Rightarrow> 0 | Inr held \<Rightarrow> length held)
   }"

text \<open>Writing it down here first: the count of endorsements that went with it.\<close>

definition keep_own :: "signed_artifact \<Rightarrow> retraction \<Rightarrow> (retract_error + int) nd" where
  "keep_own artifact r = do {
     before \<leftarrow> held_count;
     (fresh, failed) \<leftarrow> in_engine (on_vault_at (\<lambda>sv now. AddRetraction sv now artifact r));
     case failed of
       Some err \<Rightarrow> State_Monad.return (Inl (RetractNotKept err))
     | None \<Rightarrow> do {
         after \<leftarrow> held_count;
         State_Monad.return (Inr (int before - int after))
       }
   }"

definition sign_with_key ::
    "'raw node_env \<Rightarrow> 'raw key_lib \<Rightarrow> string \<Rightarrow> Identity \<Rightarrow> retraction \<Rightarrow> vault \<Rightarrow> retract_error + signed_artifact \<times> retraction" where
  "sign_with_key V keys key ident r v =
     (case Signer keys (nv_hw V) (nv_hardware V) (nv_gate V) key v of
        Inl e \<Rightarrow> Inl (NotAHolder e)
      | Inr (signer, _) \<Rightarrow>
          (case SignRetraction (x_ssh (nv_env V)) (nv_retraction V) ident (Some r) (Some signer) of
             Inl e \<Rightarrow> Inl (RetractNotSigned e)
           | Inr artifact \<Rightarrow> Inr (artifact, r)))"

definition sign_retraction ::
    "'raw node_env \<Rightarrow> string \<Rightarrow> string \<Rightarrow> string \<Rightarrow> duration \<Rightarrow> (retract_error + signed_artifact \<times> retraction) nd" where
  "sign_retraction V eid key reason maxTTL =
     (case nv_keys V of
        None \<Rightarrow> State_Monad.return (Inl RetractKeepsNone)
      | Some keys \<Rightarrow>
          if \<not> nv_endorsements V then State_Monad.return (Inl RetractKeepsNone)
          else do {
            now \<leftarrow> now_n;
            rid \<leftarrow> in_engine NewRequestID;
            ident \<leftarrow> asks_node (\<lambda>n. e_identity (nd_engine n));
            expiry \<leftarrow> (if eid \<noteq> [] then endorsementExpiry eid else State_Monad.return None);
            v \<leftarrow> asks_node nd_vault;
            State_Monad.return (sign_with_key V keys key ident (retraction_of V ident rid now expiry eid key reason maxTTL) v)
          })"

definition Retract ::
    "'raw node_env \<Rightarrow> (signed_artifact \<Rightarrow> string \<Rightarrow> ('w, string option) state) \<Rightarrow> string \<Rightarrow> string \<Rightarrow> string \<Rightarrow> duration
       \<Rightarrow> (Node \<times> 'w, retract_error + string list \<times> string list \<times> int) state" where
  "Retract V call eid key reason maxTTL = do {
     s \<leftarrow> at_node (sign_retraction V eid key reason maxTTL);
     case s of
       Inl e \<Rightarrow> State_Monad.return (Inl e)
     | Inr (artifact, r) \<Rightarrow> do {
         k \<leftarrow> at_node (keep_own artifact r);
         case k of
           Inl e \<Rightarrow> State_Monad.return (Inl e)
         | Inr dropped \<Rightarrow> do {
             (told, unreached) \<leftarrow> tellHolders V (retract_at (call artifact)) key [];
             State_Monad.return (Inr (told, unreached, dropped))
           }
       }
   }"

section \<open>What a retraction call does\<close>

definition remembers :: "string \<Rightarrow> vault \<Rightarrow> bool" where
  "remembers rid v \<longleftrightarrow> list_ex (\<lambda>h. rt_retraction_id (hr_retraction h) = rid) (retractions_of v)"

lemma AddRetraction_frame:
  "keys_of (fst (AddRetraction sv now a r v)) = keys_of v" "peers_of (fst (AddRetraction sv now a r v)) = peers_of v"
  "sd_borrowed_keys (v_doc (fst (AddRetraction sv now a r v))) = sd_borrowed_keys (v_doc v)"
  by (auto simp: AddRetraction_def Let_def save_def with_endorsements_def with_retractions_def split: option.splits)

lemma AddRetraction_facts:
  "remembers (rt_retraction_id r) (fst (AddRetraction sv now a r v))"
  "remembers rid v \<Longrightarrow> remembers rid (fst (AddRetraction sv now a r v))"
  "fst (snd (AddRetraction sv now a r v)) \<longleftrightarrow> \<not> remembers (rt_retraction_id r) v"
  "snd (snd (AddRetraction None now a r v)) = None"
  by (auto simp: remembers_def AddRetraction_def Let_def save_def with_endorsements_def with_retractions_def list_ex_iff
      split: option.splits)

lemma AddRetraction_saved: "snd (AddRetraction None now a r v) = (\<not> remembers (rt_retraction_id r) v, None)"
  by (simp add: prod_eq_iff AddRetraction_facts)

lemma KeyHolders_frame:
  "keys_of v' = keys_of v \<Longrightarrow> sd_borrowed_keys (v_doc v') = sd_borrowed_keys (v_doc v) \<Longrightarrow> KeyHolders key v' = KeyHolders key v"
  by (simp add: KeyHolders_def)

lemma PublishRetraction_facts:
  assumes "run_state (PublishRetraction_rpc V peer (Some a)) n = ((r, news), n')"
    and "VerifyRetraction (x_ssh (nv_env V)) (nv_retraction V) (Some a) = Inr rt"
  shows "KeyHolders key (nd_vault n') = KeyHolders key (nd_vault n)" "peers_of (nd_vault n') = peers_of (nd_vault n)"
    "remembers rid (nd_vault n) \<Longrightarrow> remembers rid (nd_vault n')" "writes n \<Longrightarrow> writes n'"
    "news = None \<or> news = Some (a, rt) \<and> \<not> remembers (rt_retraction_id rt) (nd_vault n) \<and> remembers (rt_retraction_id rt) (nd_vault n')"
    "nv_endorsements V \<Longrightarrow> r = Inr ok \<Longrightarrow> remembers (rt_retraction_id rt) (nd_vault n')"
proof -
  obtain x n1 where x: "run_state (authorize V peer) n = (x, n1)" by fastforce
  have f: "keys_of (nd_vault n') = keys_of (nd_vault n) \<and> sd_borrowed_keys (v_doc (nd_vault n')) = sd_borrowed_keys (v_doc (nd_vault n)) \<and>
      peers_of (nd_vault n') = peers_of (nd_vault n) \<and> (remembers rid (nd_vault n) \<longrightarrow> remembers rid (nd_vault n')) \<and> (writes n \<longrightarrow> writes n') \<and>
      (news = None \<or> news = Some (a, rt) \<and> \<not> remembers (rt_retraction_id rt) (nd_vault n) \<and> remembers (rt_retraction_id rt) (nd_vault n')) \<and>
      (nv_endorsements V \<longrightarrow> (\<forall>x. r = Inr x \<longrightarrow> remembers (rt_retraction_id rt) (nd_vault n')))"
  proof (cases x)
    case (Inl e)
    with assms(1) x have "n' = n1" "r = Inl e" "news = None" by (auto simp: PublishRetraction_rpc_def)
    with authorize_Inl [OF x [unfolded Inl]] show ?thesis by simp
  next
    case (Inr y)
    obtain p rcd where y: "y = (p, rcd)" by fastforce
    note au = authorize_Inr(4) [OF x [unfolded Inr y]]
    have n1: "nd_vault n1 = nd_vault n" "e_saves (nd_engine n1) = e_saves (nd_engine n)" using au by simp_all
    show ?thesis
    proof (cases "nv_endorsements V")
      case False
      with assms(1) x Inr have "n' = n1" "r = Inr False" "news = None" by (auto simp: PublishRetraction_rpc_def)
      with n1 False show ?thesis by (simp add: writes_def)
    next
      case True
      let ?A = "AddRetraction (e_saves (nd_engine n) 0) (e_clock (nd_engine n1) 0) a rt (nd_vault n)"
      obtain fresh failed where sn: "snd ?A = (fresh, failed)" by fastforce
      have run: "(r, news) = (case failed of Some err \<Rightarrow> (Inl (Rpc CodeInternal (StoreFailed err)), None)
          | None \<Rightarrow> (Inr True, if fresh then Some (a, rt) else None))" and v: "nd_vault n' = fst ?A"
        and sv: "e_saves (nd_engine n') = rest_of (e_saves (nd_engine n))"
        using assms x Inr True n1 sn by (auto simp: PublishRetraction_rpc_def run_on_vault)
      have "fresh \<longleftrightarrow> \<not> remembers (rt_retraction_id rt) (nd_vault n)" using AddRetraction_facts(3) sn by (metis fst_conv)
      moreover have "writes n \<longrightarrow> writes n'" using sv by (simp add: writes_def)
      ultimately show ?thesis using run unfolding v
        by (auto simp: AddRetraction_frame AddRetraction_facts split: option.splits if_splits)
    qed
  qed
  then show "KeyHolders key (nd_vault n') = KeyHolders key (nd_vault n)" by (intro KeyHolders_frame) auto
  from f show "peers_of (nd_vault n') = peers_of (nd_vault n)"
    "remembers rid (nd_vault n) \<Longrightarrow> remembers rid (nd_vault n')" "writes n \<Longrightarrow> writes n'"
    "news = None \<or> news = Some (a, rt) \<and> \<not> remembers (rt_retraction_id rt) (nd_vault n) \<and> remembers (rt_retraction_id rt) (nd_vault n')"
    "nv_endorsements V \<Longrightarrow> r = Inr ok \<Longrightarrow> remembers (rt_retraction_id rt) (nd_vault n')" by blast+
qed

lemma PublishRetraction_accepted:
  assumes "run_state (PublishRetraction_rpc V (Some p) (Some a)) n = ((r, news), n')"
    and "VerifyRetraction (x_ssh (nv_env V)) (nv_retraction V) (Some a) = Inr rt" "nv_endorsements V" "writes n"
    and "Peer (nv_fold V) (pi_fingerprint p) (nd_vault n) = Some rcd" "tr_may_request rcd"
  shows "r = Inr True" "news = (if remembers (rt_retraction_id rt) (nd_vault n) then None else Some (a, rt))"
proof -
  have au: "run_state (authorize V (Some p)) n = (Inr (p, rcd), n\<lparr>nd_engine := ticked (nd_engine n),
      nd_seen := (nd_seen n)(pi_fingerprint p \<mapsto> e_clock (nd_engine n) 0)\<rparr>)"
    using assms(5,6) by (simp add: authorize_def find_peer_def run_saw)
  have "(r, news) = (Inr True, if remembers (rt_retraction_id rt) (nd_vault n) then None else Some (a, rt))"
    using assms(1-4) au
    by (auto simp: PublishRetraction_rpc_def run_on_vault writes_def AddRetraction_saved)
  then show "r = Inr True" "news = (if remembers (rt_retraction_id rt) (nd_vault n) then None else Some (a, rt))" by simp_all
qed

section \<open>A retraction among the machines\<close>

text \<open>
  The machines by their fingerprints and the retraction calls that are under way, as sender and
  addressee. A call arrives and what it starts is under way then, or it is lost.
\<close>

definition as_caller :: "string \<Rightarrow> peer_identity" where
  "as_caller fp = \<lparr>pi_fingerprint = fp, pi_remote_addr = [], pi_tunnelled = False\<rparr>"

definition gossip_targets :: "'raw node_env \<Rightarrow> retraction \<Rightarrow> Node \<Rightarrow> string list" where
  "gossip_targets V r n = filter (\<lambda>fp. fp \<noteq> []) (holdersOf V (rt_key_fingerprint r) (nd_vault n))"

definition passed_on :: "'raw node_env \<Rightarrow> string \<Rightarrow> (signed_artifact \<times> retraction) option \<Rightarrow> Node \<Rightarrow> (string \<times> string) list" where
  "passed_on V fp news n =
     (case news of None \<Rightarrow> [] | Some (_, r) \<Rightarrow> map (Pair fp) (gossip_targets V r n))"

inductive delivers :: "'raw node_env \<Rightarrow> signed_artifact \<Rightarrow> (string \<Rightarrow> Node) \<times> (string \<times> string) list \<Rightarrow>
    (string \<Rightarrow> Node) \<times> (string \<times> string) list \<Rightarrow> bool" for V :: "'raw node_env" and a :: signed_artifact where
  arrives: "run_state (PublishRetraction_rpc V (Some (as_caller sender)) (Some a)) (w addressee) = ((r, news), n') \<Longrightarrow>
    delivers V a (w, q1 @ (sender, addressee) # q2) (w(addressee := n'), q1 @ q2 @ passed_on V addressee news n')"

inductive gossip_step :: "'raw node_env \<Rightarrow> signed_artifact \<Rightarrow> (string \<Rightarrow> Node) \<times> (string \<times> string) list \<Rightarrow>
    (string \<Rightarrow> Node) \<times> (string \<times> string) list \<Rightarrow> bool" for V :: "'raw node_env" and a :: signed_artifact where
  delivered: "delivers V a s s' \<Longrightarrow> gossip_step V a s s'"
| lost: "gossip_step V a (w, q1 @ call # q2) (w, q1 @ q2)"

text \<open>How many calls there can still be: those under way, and one to each holder from every machine that has yet to hear.\<close>

definition calls_left ::
    "'raw node_env \<Rightarrow> retraction \<Rightarrow> string set \<Rightarrow> (string \<Rightarrow> Node) \<times> (string \<times> string) list \<Rightarrow> nat" where
  "calls_left V rt A s = length (snd s) +
     (\<Sum>x \<in> {x \<in> A. \<not> remembers (rt_retraction_id rt) (nd_vault (fst s x))}. length (gossip_targets V rt (fst s x)))"

definition among ::
    "'raw node_env \<Rightarrow> retraction \<Rightarrow> string set \<Rightarrow> (string \<Rightarrow> Node) \<times> (string \<times> string) list \<Rightarrow> bool" where
  "among V rt A s \<longleftrightarrow> snd ` set (snd s) \<subseteq> A \<and>
     (\<forall>x \<in> A. set (gossip_targets V rt (fst s x)) \<subseteq> A)"

lemma sum_less_one:
  fixes f :: "'a \<Rightarrow> nat"
  assumes "finite U" "x \<in> U" "U' \<subseteq> U - {x}" "\<And>y. y \<in> U' \<Longrightarrow> g y = f y"
  shows "(\<Sum>y \<in> U'. g y) + f x \<le> (\<Sum>y \<in> U. f y)"
proof -
  have "(\<Sum>y \<in> U'. g y) = (\<Sum>y \<in> U'. f y)" using assms(4) by (rule sum.cong [OF refl])
  also have "\<dots> \<le> (\<Sum>y \<in> U - {x}. f y)" using assms(1,3) by (intro sum_mono2) auto
  finally show ?thesis using assms(1,2) by (simp add: sum.remove [of U x f])
qed

lemma gossip_step_left:
  assumes "gossip_step V a s s'" "finite A" "among V rt A s"
    and "VerifyRetraction (x_ssh (nv_env V)) (nv_retraction V) (Some a) = Inr rt"
  shows "calls_left V rt A s' < calls_left V rt A s \<and> among V rt A s'"
  using assms(1)
proof cases
  case (lost w q1 call q2)
  with assms(3) show ?thesis by (auto simp: calls_left_def among_def)
next
  case delivered
  then show ?thesis
  proof cases
    case 1: (arrives sender w addressee r news n' q1 q2)
    let ?i = "rt_retraction_id rt"
    note f = PublishRetraction_facts [OF 1(3) assms(4)]
    have h: "gossip_targets V rt n' = gossip_targets V rt (w addressee)" using f(1) by (simp add: gossip_targets_def holdersOf_def)
    have A: "addressee \<in> A" using assms(3) 1(1) by (auto simp: among_def)
    let ?U = "{x \<in> A. \<not> remembers ?i (nd_vault (w x))}"
    let ?U' = "{x \<in> A. \<not> remembers ?i (nd_vault ((w(addressee := n')) x))}"
    let ?f = "\<lambda>x. length (gossip_targets V rt (w x))"
    let ?g = "\<lambda>x. length (gossip_targets V rt ((w(addressee := n')) x))"
    have sub: "?U' \<subseteq> ?U" using f(3) [of ?i] by (auto split: if_splits)
    have eq: "?g y = ?f y" for y using h by simp
    have fin: "finite ?U" using assms(2) by simp
    show ?thesis
    proof (cases news)
      case None
      have "among V rt A s'" using assms(3) 1(1,2) h None by (auto simp: among_def passed_on_def)
      moreover have "(\<Sum>y \<in> ?U'. ?g y) \<le> (\<Sum>y \<in> ?U. ?f y)"
        unfolding eq by (rule sum_mono2 [OF fin sub]) simp
      ultimately show ?thesis using None 1(1,2) by (simp add: calls_left_def passed_on_def)
    next
      case (Some x)
      with f(5) have x: "x = (a, rt)" "\<not> remembers ?i (nd_vault (w addressee))" "remembers ?i (nd_vault n')" by auto
      then have "addressee \<in> ?U" "?U' \<subseteq> ?U - {addressee}" using A sub by auto
      from sum_less_one [OF fin this, of ?g ?f] eq
      have "(\<Sum>y \<in> ?U'. ?g y) + ?f addressee \<le> (\<Sum>y \<in> ?U. ?f y)" by blast
      moreover have "y \<in> A" if "y \<in> set (gossip_targets V rt (w addressee))" for y using that assms(3) 1(1) A unfolding among_def by auto
      then have "among V rt A s'" using assms(3) 1(1,2) h Some x(1) by (auto simp: among_def passed_on_def)
      ultimately show ?thesis using Some x 1(1,2) h by (simp add: calls_left_def passed_on_def)
    qed
  qed
qed

lemma gossip_steps_left:
  assumes "(gossip_step V a ^^ k) s s'" "finite A" "among V rt A s"
    and "VerifyRetraction (x_ssh (nv_env V)) (nv_retraction V) (Some a) = Inr rt"
  shows "k + calls_left V rt A s' \<le> calls_left V rt A s \<and> among V rt A s'"
  using assms(1)
proof (induction k arbitrary: s')
  case 0
  with assms(3) show ?case by simp
next
  case (Suc k)
  then obtain t where "(gossip_step V a ^^ k) s t" "gossip_step V a t s'" by auto
  with Suc.IH gossip_step_left [OF _ assms(2) _ assms(4)] show ?case by fastforce
qed

subsection \<open>Every machine hears of it\<close>

definition hears_of_it ::
    "'raw node_env \<Rightarrow> retraction \<Rightarrow> (string \<Rightarrow> Node) \<times> (string \<times> string) list \<Rightarrow> bool" where
  "hears_of_it V rt s \<longleftrightarrow>
     (\<forall>x y. remembers (rt_retraction_id rt) (nd_vault (fst s x)) \<and> y \<in> set (gossip_targets V rt (fst s x)) \<longrightarrow>
        remembers (rt_retraction_id rt) (nd_vault (fst s y)) \<or> (x, y) \<in> set (snd s)) \<and>
     (\<forall>(x, y) \<in> set (snd s). y \<in> set (gossip_targets V rt (fst s x)))"

definition accepts_gossip :: "'raw node_env \<Rightarrow> retraction \<Rightarrow> (string \<Rightarrow> Node) \<Rightarrow> bool" where
  "accepts_gossip V rt w \<longleftrightarrow> (\<forall>x. writes (w x)) \<and>
     (\<forall>x y. y \<in> set (gossip_targets V rt (w x)) \<longrightarrow>
        (\<exists>rcd. Peer (nv_fold V) x (nd_vault (w y)) = Some rcd \<and> tr_may_request rcd))"

lemma delivers_kept:
  assumes "delivers V a s s'" "hears_of_it V rt s" "accepts_gossip V rt (fst s)" "nv_endorsements V"
    and "VerifyRetraction (x_ssh (nv_env V)) (nv_retraction V) (Some a) = Inr rt"
  shows "hears_of_it V rt s' \<and> accepts_gossip V rt (fst s') \<and>
    (\<forall>x. gossip_targets V rt (fst s' x) = gossip_targets V rt (fst s x)) \<and>
    (\<forall>x i. remembers i (nd_vault (fst s x)) \<longrightarrow> remembers i (nd_vault (fst s' x)))"
  using assms(1)
proof cases
  case 1: (arrives sender w addressee r news n' q1 q2)
  let ?i = "rt_retraction_id rt"
  note f = PublishRetraction_facts [OF 1(3) assms(5)]
  have h: "gossip_targets V rt ((w(addressee := n')) x) = gossip_targets V rt (w x)" for x
    using f(1) by (simp add: gossip_targets_def holdersOf_def)
  have m: "remembers i (nd_vault (w x)) \<Longrightarrow> remembers i (nd_vault ((w(addressee := n')) x))" for x i using f(3) by auto
  have "addressee \<in> set (gossip_targets V rt (w sender))" using assms(2) 1(1) by (auto simp: hears_of_it_def)
  then obtain rcd where rcd: "Peer (nv_fold V) sender (nd_vault (w addressee)) = Some rcd" "tr_may_request rcd" and wr: "writes (w addressee)"
    using assms(3) unfolding accepts_gossip_def 1(1) fst_conv by blast
  note acc = PublishRetraction_accepted [OF 1(3) assms(5,4) wr, unfolded as_caller_def, simplified, OF rcd]
  have now: "remembers ?i (nd_vault n')" using f(6) assms(4) acc(1) by blast
  have p: "Peer (nv_fold V) fp (nd_vault ((w(addressee := n')) x)) = Peer (nv_fold V) fp (nd_vault (w x))" for fp x
    using f(2) by (simp add: Peer_def)
  have "writes ((w(addressee := n')) x)" for x using assms(3) 1(1) f(4) by (simp add: accepts_gossip_def)
  then have "accepts_gossip V rt (fst s')"
    using assms(3) unfolding 1(1,2) accepts_gossip_def fst_conv h p by blast
  moreover have "hears_of_it V rt s'" unfolding hears_of_it_def
  proof (intro conjI allI impI ballI)
    fix x y
    assume *: "remembers ?i (nd_vault (fst s' x)) \<and> y \<in> set (gossip_targets V rt (fst s' x))"
    show "remembers ?i (nd_vault (fst s' y)) \<or> (x, y) \<in> set (snd s')"
    proof (cases "remembers ?i (nd_vault (w x))")
      case True
      with * 1(1,2) h assms(2) have "remembers ?i (nd_vault (w y)) \<or> (x, y) \<in> set (snd s)" by (auto simp: hears_of_it_def)
      with 1(1,2) m now show ?thesis by auto
    next
      case False
      with * 1(2) have x: "x = addressee" by (auto split: if_splits)
      with False acc(2) have "news = Some (a, rt)" by simp
      with * x 1(2) show ?thesis by (auto simp: passed_on_def)
    qed
  next
    fix c assume c: "c \<in> set (snd s')"
    obtain x y where xy: "c = (x, y)" by fastforce
    have "(x, y) \<in> set (snd s) \<or> x = addressee \<and> y \<in> set (gossip_targets V rt n')"
      using c xy 1(1,2) acc(2) by (auto simp: passed_on_def split: if_splits)
    with assms(2) h [of addressee] 1(1) have "y \<in> set (gossip_targets V rt (w x))" by (auto simp: hears_of_it_def)
    then show "case c of (x, y) \<Rightarrow> y \<in> set (gossip_targets V rt (fst s' x))" unfolding xy 1(2) fst_conv h by simp
  qed
  ultimately show ?thesis using 1(1,2) h m by simp
qed

lemma delivers_all_kept:
  assumes "(delivers V a)\<^sup>*\<^sup>* s s'" "hears_of_it V rt s" "accepts_gossip V rt (fst s)" "nv_endorsements V"
    and "VerifyRetraction (x_ssh (nv_env V)) (nv_retraction V) (Some a) = Inr rt"
  shows "hears_of_it V rt s' \<and> accepts_gossip V rt (fst s') \<and>
    (\<forall>x. gossip_targets V rt (fst s' x) = gossip_targets V rt (fst s x)) \<and>
    (\<forall>x i. remembers i (nd_vault (fst s x)) \<longrightarrow> remembers i (nd_vault (fst s' x)))"
  using assms(1)
proof (induction rule: rtranclp_induct)
  case base
  with assms(2,3) show ?case by simp
next
  case (step t u)
  with delivers_kept [OF step(2) _ _ assms(4,5)] show ?case by simp
qed

lemma quiet_heard:
  assumes "hears_of_it V rt (w, [])" "remembers (rt_retraction_id rt) (nd_vault (w x))"
    and "(\<lambda>x y. y \<in> set (gossip_targets V rt (w x)))\<^sup>*\<^sup>* x y"
  shows "remembers (rt_retraction_id rt) (nd_vault (w y))"
  using assms(3) by (induction rule: rtranclp_induct) (use assms(1,2) in \<open>auto simp: hears_of_it_def\<close>)

lemma delivers_runs_out:
  assumes "finite A" "among V rt A s" "VerifyRetraction (x_ssh (nv_env V)) (nv_retraction V) (Some a) = Inr rt"
  shows "\<exists>w. (delivers V a)\<^sup>*\<^sup>* s (w, [])"
  using assms(2)
proof (induction "calls_left V rt A s" arbitrary: s rule: less_induct)
  case less
  obtain w q where s: "s = (w, q)" by fastforce
  show ?case
  proof (cases q)
    case Nil
    with s show ?thesis by blast
  next
    case (Cons c q2)
    obtain x y where c: "c = (x, y)" by fastforce
    obtain r news n' where "run_state (PublishRetraction_rpc V (Some (as_caller x)) (Some a)) (w y) = ((r, news), n')"
      by (metis prod.exhaust)
    from arrives [of V x a w y, OF this, of "[]" q2] s Cons c
    obtain t where t: "delivers V a s t" by auto
    with gossip_step_left [OF gossip_step.delivered assms(1) less.prems assms(3)] have "\<exists>w. (delivers V a)\<^sup>*\<^sup>* t (w, [])"
      by (intro less.hyps) auto
    with t show ?thesis by (meson converse_rtranclp_into_rtranclp)
  qed
qed

section \<open>Whoever is listed as told knows\<close>

text \<open>The holders behind the network, each call lost on the way there or back, or answered.\<close>

definition retract_wire ::
    "'raw node_env \<Rightarrow> string \<Rightarrow> signed_artifact \<Rightarrow> string \<Rightarrow> ((nat \<Rightarrow> delivery) \<times> (string \<Rightarrow> Node), string option) state" where
  "retract_wire V self a fp = State (\<lambda>(ds, w).
     case run_state (PublishRetraction_rpc V (Some (as_caller self)) (Some a)) (w fp) of
       ((r, _), m) \<Rightarrow>
         (case ds 0 of
            Undelivered e \<Rightarrow> (Some e, (rest_of ds, w))
          | AnswerLost e \<Rightarrow> (Some e, (rest_of ds, w(fp := m)))
          | Delivered \<Rightarrow> (case r of Inl _ \<Rightarrow> Some ''refused'' | Inr _ \<Rightarrow> None, (rest_of ds, w(fp := m)))))"

lemma tell_each_parts:
  assumes "run_state (tell_each call skip fps) s = ((told, unreached), s')"
  shows "set told \<union> set unreached = set fps - {skip}" "distinct fps \<Longrightarrow> set told \<inter> set unreached = {}"
proof -
  have "set told \<union> set unreached = set fps - {skip} \<and> (distinct fps \<longrightarrow> set told \<inter> set unreached = {})"
    using assms
  proof (induction fps arbitrary: s told unreached s')
    case (Cons fp rest)
    show ?case
    proof (cases "fp = skip")
      case True
      with Cons show ?thesis by fastforce
    next
      case False
      obtain failed s1 where "run_state (call fp) s = (failed, s1)" by (metis prod.exhaust)
      moreover obtain t u s2 where t: "run_state (tell_each call skip rest) s1 = ((t, u), s2)" by (metis prod.exhaust)
      ultimately have "(told, unreached) = (case failed of Some e \<Rightarrow> (t, fp # u) | None \<Rightarrow> (fp # t, u))"
        using Cons.prems False by auto
      with Cons.IH [OF t] False show ?thesis by (auto split: option.splits)
    qed
  qed simp
  then show "set told \<union> set unreached = set fps - {skip}" "distinct fps \<Longrightarrow> set told \<inter> set unreached = {}" by auto
qed

lemma retract_wire_facts:
  assumes "run_state (retract_wire V self a fp) (ds, w) = (failed, (ds', w'))" "nv_endorsements V"
    and "VerifyRetraction (x_ssh (nv_env V)) (nv_retraction V) (Some a) = Inr rt"
  shows "remembers i (nd_vault (w x)) \<Longrightarrow> remembers i (nd_vault (w' x))"
    "failed = None \<Longrightarrow> remembers (rt_retraction_id rt) (nd_vault (w' fp))"
proof -
  obtain r news m where r: "run_state (PublishRetraction_rpc V (Some (as_caller self)) (Some a)) (w fp) = ((r, news), m)"
    by (metis prod.exhaust)
  note f = PublishRetraction_facts [OF r assms(3)]
  have "w' = w \<or> w' = w(fp := m)" using assms(1) r by (auto simp: retract_wire_def split: delivery.splits)
  then show "remembers i (nd_vault (w x)) \<Longrightarrow> remembers i (nd_vault (w' x))" using f(3) by auto
  assume "failed = None"
  then obtain ok where "r = Inr ok" "w' = w(fp := m)"
    using assms(1) r by (auto simp: retract_wire_def split: delivery.splits sum.splits)
  with f(6) assms(2) show "remembers (rt_retraction_id rt) (nd_vault (w' fp))" by simp
qed

lemma run_retract_at:
  "run_state (retract_at call fp) (n, w) = (fst (run_state (call fp) w), (n, snd (run_state (call fp) w)))"
  by (simp add: retract_at_def)

lemma told_remember:
  assumes "run_state (tell_each (retract_at (retract_wire V self a)) skip fps) (n, (ds, w)) = ((told, unreached), (n', (ds', w')))"
    and "nv_endorsements V" "VerifyRetraction (x_ssh (nv_env V)) (nv_retraction V) (Some a) = Inr rt"
  shows "n' = n \<and> (\<forall>x i. remembers i (nd_vault (w x)) \<longrightarrow> remembers i (nd_vault (w' x))) \<and>
    (\<forall>fp \<in> set told. remembers (rt_retraction_id rt) (nd_vault (w' fp)))"
  using assms(1)
proof (induction fps arbitrary: ds w told unreached)
  case (Cons fp rest)
  show ?case
  proof (cases "fp = skip")
    case True
    with Cons show ?thesis by simp
  next
    case False
    obtain failed ds1 w1 where c: "run_state (retract_wire V self a fp) (ds, w) = (failed, (ds1, w1))" by (metis prod.exhaust)
    obtain t u s2 where t: "run_state (tell_each (retract_at (retract_wire V self a)) skip rest) (n, (ds1, w1)) = ((t, u), s2)"
      by (metis prod.exhaust)
    have "s2 = (n', (ds', w'))" "(told, unreached) = (case failed of Some e \<Rightarrow> (t, fp # u) | None \<Rightarrow> (fp # t, u))"
      using Cons.prems False c t by (auto simp: run_retract_at)
    with Cons.IH t retract_wire_facts [OF c assms(2,3)] show ?thesis by (auto split: option.splits)
  qed
qed simp

lemma SignRetraction_verifies:
  assumes "key_law L (id_signer i)" "key_law L key" "\<forall>sig. signature_law L sig" "\<forall>w. wire_law L w" "codec_law C"
    and "SignRetraction L C i (Some r) (Some key) = Inr a" "rt_issuer_fingerprint r = Fingerprint L i"
    and "rt_endorsement_id r \<noteq> [] \<longleftrightarrow> rt_issued_before r = None"
  shows "VerifyRetraction L C (Some a) = Inr r"
proof -
  from assms(6) obtain b where b: "pc_marshal C r = Inr b" "sign_both L i retractionInput RetractionNamespace key b = Inr a"
    and k: "lib_fingerprint L (sr_public key) = rt_key_fingerprint r"
    by (auto simp: SignRetraction_def split: sum.splits if_splits)
  have "pc_unmarshal C b = Inr r" using assms(5) b(1) by (simp add: codec_law_def)
  then show ?thesis
    using sign_both_halves [OF assms(1-4) b(2)] k assms(7,8) by (simp add: VerifyRetraction_def)
qed

lemma Endorsements_frame:
  "keys_of (fst (Endorsements sv now v)) = keys_of v"
  "sd_borrowed_keys (v_doc (fst (Endorsements sv now v))) = sd_borrowed_keys (v_doc v)"
  "retractions_of (fst (Endorsements sv now v)) = retractions_of v"
  by (auto simp: Endorsements_def liveEndorsements_def save_then_def save_def with_endorsements_def split: option.splits)

text \<open>What reading the endorsements leaves of a node.\<close>

definition same_holders :: "Node \<Rightarrow> Node \<Rightarrow> bool" where
  "same_holders n n' \<longleftrightarrow> keys_of (nd_vault n') = keys_of (nd_vault n) \<and>
     sd_borrowed_keys (v_doc (nd_vault n')) = sd_borrowed_keys (v_doc (nd_vault n)) \<and>
     e_identity (nd_engine n') = e_identity (nd_engine n) \<and> (\<forall>i. remembers i (nd_vault n) \<longrightarrow> remembers i (nd_vault n'))"

lemma reading_same_holders:
  "same_holders n (snd (run_state held_count n))" "same_holders n (snd (run_state (endorsementExpiry i) n))"
  by (simp_all add: same_holders_def held_count_def endorsementExpiry_def run_on_vault Endorsements_frame remembers_def ticked_def)

lemma keep_own_facts:
  assumes "run_state (keep_own a r) n = (Inr dropped, n')"
  shows "same_holders n n'" "remembers (rt_retraction_id r) (nd_vault n')"
proof -
  obtain before n1 where b: "run_state held_count n = (before, n1)" by fastforce
  let ?A = "AddRetraction (e_saves (nd_engine n1) 0) (e_clock (nd_engine n1) 0) a r (nd_vault n1)"
  obtain fresh failed where sn: "snd ?A = (fresh, failed)" by fastforce
  define n2 where "n2 = snd (run_state (in_engine (on_vault_at (\<lambda>sv now. AddRetraction sv now a r))) n1)"
  have v: "nd_vault n2 = fst ?A" "e_identity (nd_engine n2) = e_identity (nd_engine n1)"
    by (simp_all add: n2_def run_on_vault ticked_def)
  obtain after n3 where c: "run_state held_count n2 = (after, n3)" by fastforce
  have "n' = n3" using assms b c sn
    by (auto simp: keep_own_def n2_def run_on_vault split: option.splits)
  moreover have "same_holders n n1" "same_holders n2 n3" using reading_same_holders(1) b c by (metis snd_conv)+
  moreover have "same_holders n1 n2" "remembers (rt_retraction_id r) (nd_vault n2)"
    using v by (simp_all add: same_holders_def AddRetraction_frame AddRetraction_facts)
  ultimately show "same_holders n n'" "remembers (rt_retraction_id r) (nd_vault n')" by (auto simp: same_holders_def)
qed

lemma sign_retraction_facts:
  assumes "run_state (sign_retraction V eid key reason ttl) n = (Inr (a, r), n')"
    and "key_law (x_ssh (nv_env V)) (id_signer (e_identity (nd_engine n)))" "\<forall>sig. signature_law (x_ssh (nv_env V)) sig"
    and "\<forall>w. wire_law (x_ssh (nv_env V)) w" "codec_law (nv_retraction V)"
    and "\<forall>keys v signer k. nv_keys V = Some keys \<longrightarrow> Signer keys (nv_hw V) (nv_hardware V) (nv_gate V) key v = Inr (signer, k) \<longrightarrow>
      key_law (x_ssh (nv_env V)) signer"
  shows "same_holders n n'" "VerifyRetraction (x_ssh (nv_env V)) (nv_retraction V) (Some a) = Inr r"
    "rt_key_fingerprint r = key" "rt_endorsement_id r = eid" "rt_retraction_id r = e_ids (nd_engine n) 0"
proof -
  from assms(1) obtain keys where keys: "nv_keys V = Some keys" by (cases "nv_keys V") (auto simp: sign_retraction_def)
  define n1 where "n1 = n\<lparr>nd_engine := (ticked (nd_engine n))\<lparr>e_ids := rest_of (e_ids (nd_engine n))\<rparr>\<rparr>"
  obtain expiry n2 where x: "run_state (if eid \<noteq> [] then endorsementExpiry eid else State_Monad.return None) n1 = (expiry, n2)"
    by (metis prod.exhaust)
  have sh: "same_holders n1 n2"
  proof (cases "eid = []")
    case True
    with x show ?thesis by (simp add: same_holders_def)
  next
    case False
    with x reading_same_holders(2) [of n1 eid] show ?thesis by simp
  qed
  let ?r = "retraction_of V (e_identity (nd_engine n)) (e_ids (nd_engine n) 0) (e_clock (nd_engine n) 0) expiry eid key reason ttl"
  have run: "(Inr (a, r), n') = (sign_with_key V keys key (e_identity (nd_engine n)) ?r (nd_vault n2), n2)"
    using assms(1) keys x sh by (auto simp: sign_retraction_def n1_def ticked_def Let_def same_holders_def split: if_splits)
  then obtain signer k where s: "Signer keys (nv_hw V) (nv_hardware V) (nv_gate V) key (nd_vault n2) = Inr (signer, k)"
    and a: "SignRetraction (x_ssh (nv_env V)) (nv_retraction V) (e_identity (nd_engine n)) (Some ?r) (Some signer) = Inr a"
    and r: "r = ?r" and n': "n' = n2" by (auto simp: sign_with_key_def split: sum.splits)
  have law: "key_law (x_ssh (nv_env V)) signer" using assms(6) keys s by blast
  show "same_holders n n'" using sh unfolding n' by (simp add: same_holders_def n1_def ticked_def)
  show "VerifyRetraction (x_ssh (nv_env V)) (nv_retraction V) (Some a) = Inr r"
    unfolding r by (rule SignRetraction_verifies [OF assms(2) law assms(3-5) a]) (simp_all add: retraction_of_def)
  show "rt_key_fingerprint r = key" "rt_endorsement_id r = eid" "rt_retraction_id r = e_ids (nd_engine n) 0"
    by (simp_all add: r retraction_of_def)
qed

lemma KeyHolders_distinct: "distinct (KeyHolders key v)" "[] \<notin> set (KeyHolders key v)"
proof -
  have "distinct (fold add_once fps []) \<and> [] \<notin> set (fold add_once fps [])" for fps using fold_add_once [of "[]" fps] by simp
  then show "distinct (KeyHolders key v)" "[] \<notin> set (KeyHolders key v)" unfolding KeyHolders_def by blast+
qed


text \<open>
  C17: A retraction does not go round for ever: among finitely many machines that name only one another as
  holders, however calls are delivered, reordered or lost, there are at most as many of them as are
  under way at first and as the machines that have not heard of it have holders to tell.
\<close>

theorem gossip_bounded:
  assumes "(gossip_step V a ^^ k) s s'" "finite A" "among V rt A s"
    and "VerifyRetraction (x_ssh (nv_env V)) (nv_retraction V) (Some a) = Inr rt"
  shows "k \<le> calls_left V rt A s"
  using gossip_steps_left [OF assms] by simp

text \<open>
  C16: When the calls arrive, in whatever order, everyone hears of it: started by a machine that remembers the
  retraction and tells its holders, the calls come to an end, and then every machine that can be reached
  from it from holder to holder remembers the retraction, if each can write its store and lets the
  machine that calls it make requests.
\<close>

theorem gossip_converges:
  assumes "finite A" "x \<in> A" "\<forall>y \<in> A. set (gossip_targets V rt (w y)) \<subseteq> A" "nv_endorsements V"
    and "VerifyRetraction (x_ssh (nv_env V)) (nv_retraction V) (Some a) = Inr rt" "accepts_gossip V rt w"
    and "\<forall>y. remembers (rt_retraction_id rt) (nd_vault (w y)) \<longleftrightarrow> y = x"
  shows "(\<exists>w'. (delivers V a)\<^sup>*\<^sup>* (w, map (Pair x) (gossip_targets V rt (w x))) (w', [])) \<and>
    (\<forall>w' y. (delivers V a)\<^sup>*\<^sup>* (w, map (Pair x) (gossip_targets V rt (w x))) (w', []) \<and>
       (\<lambda>x y. y \<in> set (gossip_targets V rt (w x)))\<^sup>*\<^sup>* x y \<longrightarrow> remembers (rt_retraction_id rt) (nd_vault (w' y)))"
proof -
  let ?s = "(w, map (Pair x) (gossip_targets V rt (w x)))"
  have "y \<in> A" if "y \<in> set (gossip_targets V rt (w x))" for y using assms(2,3) that by blast
  then have "among V rt A ?s" using assms(3) by (auto simp: among_def)
  then have "\<exists>w'. (delivers V a)\<^sup>*\<^sup>* ?s (w', [])" using delivers_runs_out assms(1,5) by blast
  moreover have h: "hears_of_it V rt ?s" using assms(7) by (auto simp: hears_of_it_def)
  have "remembers (rt_retraction_id rt) (nd_vault (w' y))"
    if d: "(delivers V a)\<^sup>*\<^sup>* ?s (w', [])" and y: "(\<lambda>x y. y \<in> set (gossip_targets V rt (w x)))\<^sup>*\<^sup>* x y" for w' y
  proof -
    have k: "hears_of_it V rt (w', [])" "\<forall>x. gossip_targets V rt (w' x) = gossip_targets V rt (w x)"
      "remembers (rt_retraction_id rt) (nd_vault (w' x))"
      using delivers_all_kept [OF d h _ assms(4,5)] assms(6,7) by auto
    show ?thesis by (rule quiet_heard [OF k(1,3)]) (use y k(2) in simp)
  qed
  ultimately show ?thesis by blast
qed

text \<open>Three machines with one key: each handed it to the next, and takes requests from the one before.\<close>

definition hands_on :: "string \<Rightarrow> string list \<Rightarrow> Node" where
  "hands_on from to = demo_node\<lparr>nd_engine := demo_engine\<lparr>e_vault := empty_vault\<lparr>v_doc := empty_document\<lparr>
     sd_keys := [demo_key\<lparr>sk_handed_to := map (\<lambda>fp. \<lparr>kt_peer_fingerprint = fp, kt_peer_name = [], kt_at = None\<rparr>) to\<rparr>],
     sd_peers := [empty_record\<lparr>tr_fingerprint := from, tr_may_request := True\<rparr>]\<rparr>\<rparr>\<rparr>\<rparr>"

definition three_machines :: "string \<Rightarrow> Node" where
  "three_machines fp = (if fp = ''a'' then hands_on ''c'' [''b''] else if fp = ''b'' then hands_on ''a'' [''c''] else hands_on ''b'' [])"

definition taken_back :: retraction where
  "taken_back = retraction_of plain_env toy_identity ''id'' 5 None [] ''SHA256:K'' [] hour"

definition retracting_env :: "unit node_env" where
  "retracting_env = plain_env\<lparr>nv_endorsements := True, nv_retraction := only_codec taken_back,
     nv_keys := Some (av_keys (demo_agent sample_artifact))\<rparr>"

lemma retracting_env_sel:
  "x_ssh (nv_env retracting_env) = toy_lib" "nv_retraction retracting_env = only_codec taken_back" "nv_endorsements retracting_env"
  "nv_keys retracting_env = Some (av_keys (demo_agent sample_artifact))" "nv_gate retracting_env = None" "nv_fold retracting_env = (=)"
  by (simp_all add: retracting_env_def plain_env_def demo_env_def)

lemma hands_on_sel:
  "KeyHolders ''SHA256:K'' (nd_vault (hands_on from to)) = fold add_once to []" "writes (hands_on from to)"
  "retractions_of (nd_vault (hands_on from to)) = []" "held_endorsements (nd_vault (hands_on from to)) = []"
  "peers_of (nd_vault (hands_on from to)) = [empty_record\<lparr>tr_fingerprint := from, tr_may_request := True\<rparr>]"
  "e_saves (nd_engine (hands_on from to)) = (\<lambda>_. None)" "e_clock (nd_engine (hands_on from to)) = (\<lambda>_. 5)"
  "e_ids (nd_engine (hands_on from to)) = (\<lambda>_. ''id'')" "e_identity (nd_engine (hands_on from to)) = toy_identity"
  by (simp_all add: hands_on_def KeyHolders_def demo_key_def writes_def demo_engine_def o_def add_once_def empty_vault_def empty_document_def)

lemma taken_back_signed: "\<exists>a. SignRetraction toy_lib (only_codec taken_back) toy_identity (Some taken_back) (Some toy_signer) = Inr a"
proof -
  have "lib_fingerprint toy_lib (sr_public toy_signer) = rt_key_fingerprint taken_back"
    by (simp add: toy_lib_def toy_signer_def toy_key_def taken_back_def retraction_of_def)
  moreover obtain b where "sign_identity toy_lib toy_identity retractionInput ''B'' = Inr b"
    using toy_sign_identity by blast
  moreover obtain s where "Sign toy_lib toy_signer RetractionNamespace HashSHA512 ''B'' = Inr s"
    using toy_Sign [of RetractionNamespace HashSHA512 "''B''"] by (auto simp: RetractionNamespace_def HashSHA512_def)
  ultimately show ?thesis by (simp add: SignRetraction_def only_codec_def sign_both_def)
qed

lemma taken_back_verifies:
  assumes "SignRetraction toy_lib (only_codec taken_back) toy_identity (Some taken_back) (Some toy_signer) = Inr a"
  shows "VerifyRetraction (x_ssh (nv_env retracting_env)) (nv_retraction retracting_env) (Some a) = Inr taken_back"
  unfolding retracting_env_sel
  by (rule SignRetraction_verifies [OF toy_identity_law toy_key_law toy_laws only_codec_law assms])
     (simp_all add: taken_back_def retraction_of_def plain_env_def demo_env_def)

definition starts_retraction :: "signed_artifact \<Rightarrow> string \<Rightarrow> Node" where
  "starts_retraction a = three_machines(''a'' := snd (run_state (in_engine (on_vault_at (\<lambda>sv now. AddRetraction sv now a taken_back)))
     (hands_on ''c'' [''b''])))"

lemma starts_retraction_sel:
  "gossip_targets retracting_env taken_back (starts_retraction a x) =
     (if x = ''a'' then [''b''] else if x = ''b'' then [''c''] else [])"
  "remembers (rt_retraction_id taken_back) (nd_vault (starts_retraction a x)) \<longleftrightarrow> x = ''a''"
  "accepts_gossip retracting_env taken_back (starts_retraction a)"
proof -
  let ?A = "AddRetraction None 5 a taken_back (nd_vault (hands_on ''c'' [''b'']))"
  have v: "nd_vault (starts_retraction a ''a'') = fst ?A" "x \<noteq> ''a'' \<Longrightarrow> starts_retraction a x = three_machines x" for x
    by (simp_all add: starts_retraction_def run_on_vault hands_on_sel(6,7))
  have k: "rt_key_fingerprint taken_back = ''SHA256:K''" by (simp add: taken_back_def retraction_of_def)
  have no: "\<not> remembers i (nd_vault (hands_on from to))" for i "from" to by (simp add: remembers_def hands_on_sel)
  have h: "KeyHolders key (fst ?A) = KeyHolders key (nd_vault (hands_on ''c'' [''b'']))" for key
    by (rule KeyHolders_frame) (simp_all add: AddRetraction_frame)
  show t: "gossip_targets retracting_env taken_back (starts_retraction a x) =
     (if x = ''a'' then [''b''] else if x = ''b'' then [''c''] else [])" for x
    using v by (cases "x = ''a''")
      (simp_all add: gossip_targets_def holdersOf_def retracting_env_sel h k hands_on_sel three_machines_def add_once_def)
  show "remembers (rt_retraction_id taken_back) (nd_vault (starts_retraction a x)) \<longleftrightarrow> x = ''a''"
    using v no by (cases "x = ''a''") (simp_all add: AddRetraction_facts three_machines_def)
  have "writes (starts_retraction a x)" for x
    using hands_on_sel(2) by (simp add: starts_retraction_def three_machines_def run_on_vault writes_def)
  then show "accepts_gossip retracting_env taken_back (starts_retraction a)"
    unfolding accepts_gossip_def t
    by (auto simp: v three_machines_def Peer_def hands_on_sel MatchesRef_def retracting_env_sel)
qed

theorem gossip_converges_witness:
  "\<exists>a w'. (delivers retracting_env a)\<^sup>*\<^sup>* (starts_retraction a, [(''a'', ''b'')]) (w', []) \<and>
     remembers (rt_retraction_id taken_back) (nd_vault (w' ''c''))"
proof -
  obtain a where a: "SignRetraction toy_lib (only_codec taken_back) toy_identity (Some taken_back) (Some toy_signer) = Inr a"
    using taken_back_signed by blast
  let ?w = "starts_retraction a"
  let ?R = "\<lambda>x y. y \<in> set (gossip_targets retracting_env taken_back (?w x))"
  have c: "(\<exists>w'. (delivers retracting_env a)\<^sup>*\<^sup>* (?w, map (Pair ''a'') (gossip_targets retracting_env taken_back (?w ''a''))) (w', [])) \<and>
      (\<forall>w' y. (delivers retracting_env a)\<^sup>*\<^sup>* (?w, map (Pair ''a'') (gossip_targets retracting_env taken_back (?w ''a''))) (w', []) \<and>
       ?R\<^sup>*\<^sup>* ''a'' y \<longrightarrow> remembers (rt_retraction_id taken_back) (nd_vault (w' y)))"
    by (rule gossip_converges [of "{''a'', ''b'', ''c''}", OF _ _ _ retracting_env_sel(3) taken_back_verifies [OF a] starts_retraction_sel(3)])
       (auto simp: starts_retraction_sel)
  have "?R ''a'' ''b''" "?R ''b'' ''c''" by (simp_all add: starts_retraction_sel)
  then have "?R\<^sup>*\<^sup>* ''a'' ''c''" by (meson rtranclp.rtrancl_into_rtrancl rtranclp.rtrancl_refl)
  with c show ?thesis by (auto simp: starts_retraction_sel)
qed

theorem gossip_bounded_witness:
  "\<exists>a s'. gossip_step retracting_env a (starts_retraction a, [(''a'', ''b'')]) s' \<and>
     1 \<le> calls_left retracting_env taken_back {''a'', ''b'', ''c''} (starts_retraction a, [(''a'', ''b'')])"
proof -
  obtain a where a: "SignRetraction toy_lib (only_codec taken_back) toy_identity (Some taken_back) (Some toy_signer) = Inr a"
    using taken_back_signed by blast
  have g: "gossip_step retracting_env a (starts_retraction a, [(''a'', ''b'')]) (starts_retraction a, [])"
    using lost [of retracting_env a "starts_retraction a" "[]" "(''a'', ''b'')" "[]"] by simp
  then have "(gossip_step retracting_env a ^^ 1) (starts_retraction a, [(''a'', ''b'')]) (starts_retraction a, [])" by (simp only: relpowp_1)
  from gossip_bounded [OF this _ _ taken_back_verifies [OF a], of "{''a'', ''b'', ''c''}"] g show ?thesis
    by (auto simp: among_def starts_retraction_sel)
qed

lemma retracting_signs:
  assumes "SignRetraction toy_lib (only_codec taken_back) toy_identity (Some taken_back) (Some toy_signer) = Inr a"
  shows "\<exists>n'. run_state (sign_retraction retracting_env [] ''SHA256:K'' [] hour) (hands_on ''c'' [''b'']) = (Inr (a, taken_back), n') \<and>
    nd_vault n' = nd_vault (hands_on ''c'' [''b'']) \<and> writes n'"
proof -
  have r: "retraction_of retracting_env toy_identity ''id'' 5 None [] ''SHA256:K'' [] hour = taken_back"
    by (simp add: taken_back_def retraction_of_def retracting_env_sel plain_env_def demo_env_def)
  have "Signer (av_keys (demo_agent sample_artifact)) H hardware None ''SHA256:K'' (nd_vault (hands_on ''c'' [''b''])) =
      Inr (toy_signer, the (find (\<lambda>k. sk_fingerprint k = ''SHA256:K'') (keys_of (nd_vault (hands_on ''c'' [''b''])))))" for H hardware
    by (simp add: Signer_def demo_agent_def hands_on_def demo_key_def)
  with assms show ?thesis
    using hands_on_sel(2) [of "''c''" "[''b'']"]
    by (simp add: sign_retraction_def retracting_env_sel hands_on_sel sign_with_key_def ticked_def r writes_def)
qed


text \<open>
  A retraction whose write failed is in memory all the same. When it is sent again it is not news: it is
  accepted, though it was never written, and it is never passed on.
\<close>

lemma unwritten_retraction_accepted:
  assumes "run_state (PublishRetraction_rpc V (Some p) (Some a)) n = ((r1, news1), n1)"
    and "run_state (PublishRetraction_rpc V (Some p) (Some a)) n1 = ((r2, news2), n2)"
    and "VerifyRetraction (x_ssh (nv_env V)) (nv_retraction V) (Some a) = Inr rt" "nv_endorsements V"
    and "Peer (nv_fold V) (pi_fingerprint p) (nd_vault n) = Some rcd" "tr_may_request rcd"
    and "e_saves (nd_engine n) 0 = Some err" "\<not> remembers (rt_retraction_id rt) (nd_vault n)"
  shows "\<exists>e. r1 = Inl e" "r2 = Inr True" "news1 = None" "news2 = None" "v_disk (nd_vault n2) = v_disk (nd_vault n)"
proof -
  have au: "run_state (authorize V (Some p)) m = (Inr (p, rcd), m\<lparr>nd_engine := ticked (nd_engine m),
      nd_seen := (nd_seen m)(pi_fingerprint p \<mapsto> e_clock (nd_engine m) 0)\<rparr>)" if "peers_of (nd_vault m) = peers_of (nd_vault n)" for m
    using assms(5,6) that by (simp add: authorize_def find_peer_def run_saw Peer_def)
  let ?A = "AddRetraction (Some err) (e_clock (nd_engine n) 1) a rt (nd_vault n)"
  have A: "snd (snd ?A) \<noteq> None" "v_disk (fst ?A) = v_disk (nd_vault n)" "remembers (rt_retraction_id rt) (fst ?A)"
    using assms(8) by (auto simp: AddRetraction_def remembers_def Let_def save_def)
  obtain fresh failed where sn: "snd ?A = (fresh, failed)" by fastforce
  have 1: "(\<exists>e. r1 = Inl e) \<and> news1 = None \<and> nd_vault n1 = fst ?A"
    using assms(1,3,4,7) au [OF refl] A(1) sn
    by (auto simp: PublishRetraction_rpc_def run_on_vault ticked_def rest_of_def split: option.splits)
  then have p: "peers_of (nd_vault n1) = peers_of (nd_vault n)" by (simp add: AddRetraction_frame)
  have "AddRetraction sv now a rt (nd_vault n1) = (nd_vault n1, (False, None))" for sv now
    using 1 A(3) by (simp add: AddRetraction_def [of sv now] remembers_def)
  then have 2: "r2 = Inr True \<and> news2 = None \<and> nd_vault n2 = nd_vault n1"
    using assms(2-4) au [OF p] by (auto simp: PublishRetraction_rpc_def run_on_vault)
  show "\<exists>e. r1 = Inl e" "r2 = Inr True" "news1 = None" "news2 = None" "v_disk (nd_vault n2) = v_disk (nd_vault n)"
    using 1 2 A(2) by auto
qed

end
