(* ===== verification/Peer_Inbox.thy ===== *)
theory Peer_Inbox
  imports Peer_Promises Peer_Borrow
begin

text \<open>
  Requests that wait to be collected (\<^verbatim>\<open>src/pkg/peer/inbox.go\<close>): the entries a requester parks, the polls an approver
  holds open, and the answers that settle an entry.

  Entries and channels are shared between goroutines, so they have addresses: an entry is a position
  in the list of all that were made, a channel a position in the list that says which are closed. What a method
  does under the lock is one step of the model; a call that gives the lock up is several.
\<close>

section \<open>Entries, waiters and what a method does to them\<close>

record parked_cell =
  cell_entry :: parked_entry
  cell_taken :: bool
  cell_answer :: "collectedAnswer option"

record inbox =
  ib_cells :: "parked_cell list"
  ib_parked :: "string \<rightharpoonup> nat"
  ib_waiters :: "string \<rightharpoonup> nat list"
  ib_closed :: "bool list"

record PendingApproval =
  pa_request_id :: string
  pa_request :: bytes
  pa_waiting_since :: time
  pa_expires_in :: "duration option"
  pa_payload :: bytes
  pa_wrap_sshsig :: bool
  pa_endorsement :: "signed_artifact option"

definition maxFetchWait :: duration where "maxFetchWait = minute"

definition fetch_wait :: "duration \<Rightarrow> duration" where
  "fetch_wait d = (if d > maxFetchWait then maxFetchWait else d)"

definition parkKey :: "string \<Rightarrow> string \<Rightarrow> string" where
  "parkKey fp i = fp @ CHR 0x00 # i"

abbreviation entry_at :: "inbox \<Rightarrow> nat \<Rightarrow> parked_entry" where
  "entry_at ib a \<equiv> cell_entry (ib_cells ib ! a)"

definition key_at :: "inbox \<Rightarrow> nat \<Rightarrow> string" where
  "key_at ib a = parkKey (pe_peer (entry_at ib a)) (pe_id (entry_at ib a))"

definition new_cell :: "parked_entry \<Rightarrow> inbox \<Rightarrow> inbox" where
  "new_cell e ib = ib\<lparr>ib_cells := ib_cells ib @ [\<lparr>cell_entry = e, cell_taken = False, cell_answer = None\<rparr>]\<rparr>"

definition put_parked :: "nat \<Rightarrow> inbox \<Rightarrow> inbox" where
  "put_parked a ib = ib\<lparr>ib_parked := (ib_parked ib)(key_at ib a \<mapsto> a)\<rparr>"

definition unpark :: "string \<Rightarrow> string \<Rightarrow> inbox \<Rightarrow> inbox" where
  "unpark fp i ib = ib\<lparr>ib_parked := (ib_parked ib)(parkKey fp i := None)\<rparr>"

definition waiting_on :: "string \<Rightarrow> inbox \<Rightarrow> nat list" where
  "waiting_on fp ib = (case ib_waiters ib fp of None \<Rightarrow> [] | Some cs \<Rightarrow> cs)"

text \<open>\<^verbatim>\<open>wake\<close> takes the waiters under the lock and closes their channels after it.\<close>

definition take_waiters :: "string \<Rightarrow> inbox \<Rightarrow> inbox" where
  "take_waiters fp ib = ib\<lparr>ib_waiters := (ib_waiters ib)(fp := None)\<rparr>"

definition close_all :: "nat list \<Rightarrow> inbox \<Rightarrow> inbox" where
  "close_all cs ib = ib\<lparr>ib_closed := map (\<lambda>c. ib_closed ib ! c \<or> c \<in> set cs) [0..<length (ib_closed ib)]\<rparr>"

definition wake :: "string \<Rightarrow> inbox \<Rightarrow> bool \<times> inbox" where
  "wake fp ib = (let cs = waiting_on fp ib in (cs \<noteq> [], close_all cs (take_waiters fp ib)))"

definition waiter :: "string \<Rightarrow> inbox \<Rightarrow> nat \<times> inbox" where
  "waiter fp ib =
     (let c = length (ib_closed ib)
      in (c, ib\<lparr>ib_closed := ib_closed ib @ [False], ib_waiters := (ib_waiters ib)(fp \<mapsto> waiting_on fp ib @ [c])\<rparr>))"

definition abandon :: "string \<Rightarrow> nat \<Rightarrow> inbox \<Rightarrow> inbox" where
  "abandon fp c ib =
     (case ib_waiters ib fp of
        None \<Rightarrow> ib
      | Some cs \<Rightarrow>
          (let left = filter (\<lambda>x. x \<noteq> c) cs
           in ib\<lparr>ib_waiters := (ib_waiters ib)(fp := (if left = [] then None else Some left))\<rparr>))"

definition settle :: "nat \<Rightarrow> collectedAnswer \<Rightarrow> inbox \<Rightarrow> bool \<times> inbox" where
  "settle a c ib =
     (if cell_taken (ib_cells ib ! a) then (False, ib)
      else (True, ib\<lparr>ib_cells := (ib_cells ib)[a := (ib_cells ib ! a)\<lparr>cell_taken := True, cell_answer := Some c\<rparr>]\<rparr>))"

definition is_parked :: "inbox \<Rightarrow> nat \<Rightarrow> bool" where
  "is_parked ib a \<longleftrightarrow> ib_parked ib (key_at ib a) = Some a"

definition pendingFor :: "string \<Rightarrow> inbox \<Rightarrow> nat list" where
  "pendingFor fp ib =
     sort_key (\<lambda>a. pe_since (entry_at ib a))
       (filter (\<lambda>a. is_parked ib a \<and> pe_peer (entry_at ib a) = fp) [0..<length (ib_cells ib)])"

definition parkedFor :: "string \<Rightarrow> string \<Rightarrow> inbox \<Rightarrow> nat option" where
  "parkedFor i fp ib = ib_parked ib (parkKey fp i)"

definition expired_at :: "time \<Rightarrow> parked_entry \<Rightarrow> bool" where
  "expired_at now e = (case pe_deadline e of None \<Rightarrow> False | Some d \<Rightarrow> d - now \<le> 0)"

definition pending_of :: "time \<Rightarrow> parked_entry \<Rightarrow> PendingApproval" where
  "pending_of now e = \<lparr>pa_request_id = pe_id e, pa_request = pe_body e, pa_waiting_since = pe_since e,
     pa_expires_in = map_option (\<lambda>d. d - now) (pe_deadline e), pa_payload = pe_payload e,
     pa_wrap_sshsig = pe_wrap_sshsig e, pa_endorsement = pe_endorsement e\<rparr>"

definition offered :: "time \<Rightarrow> string \<Rightarrow> inbox \<Rightarrow> nat list" where
  "offered now fp ib = filter (\<lambda>a. \<not> cell_taken (ib_cells ib ! a) \<and> \<not> expired_at now (entry_at ib a)) (pendingFor fp ib)"

definition pendingApprovals :: "time \<Rightarrow> string \<Rightarrow> inbox \<Rightarrow> PendingApproval list" where
  "pendingApprovals now fp ib = map (\<lambda>a. pending_of now (entry_at ib a)) (offered now fp ib)"

section \<open>An answer from a collecting approver\<close>

definition AnswerPending ::
    "'raw node_env \<Rightarrow> peer_identity option \<Rightarrow> string \<Rightarrow> signed_artifact option \<Rightarrow> bytes \<Rightarrow> (Node \<times> inbox, rpc_error + bool) state" where
  "AnswerPending V peer rid approval signature = do {
     found \<leftarrow> at_node (publisherFor V peer);
     case found of
       Inl e \<Rightarrow> State_Monad.return (Inl e)
     | Inr (p, record) \<Rightarrow> do {
         waiting \<leftarrow> over_net (State (\<lambda>ib. (map_option (\<lambda>a. (a, entry_at ib a)) (parkedFor rid (pi_fingerprint p) ib), ib)));
         case waiting of
           None \<Rightarrow> State_Monad.return (Inr False)
         | Some (a, e) \<Rightarrow> do {
             r \<leftarrow> at_node (answer_parked V record e approval signature);
             case r of
               Inl err \<Rightarrow> State_Monad.return (Inl err)
             | Inr c \<Rightarrow> do { accepted \<leftarrow> over_net (State (settle a c)); State_Monad.return (Inr accepted) }
           }
       }
   }"

section \<open>Goroutines over one inbox\<close>

text \<open>
  \<^verbatim>\<open>InboxApprover.Decide\<close>: an entry is made, put under the lock, the waiters are taken, their channels closed or a push
  sent, and then the call waits for the answer or for its context, and takes the entry out.
\<close>

datatype decider =
    Fresh
  | Parked
  | Waking "nat list"
  | Waiting
  | Leaving "collectedAnswer option"
  | Left "collectedAnswer option"

text \<open>\<^verbatim>\<open>collect\<close>: a look, a channel to be woken on, a second look, the wait, and a last look before the channel is given back.\<close>

datatype poll_pc =
    FirstLook
  | Registering
  | SecondLook nat
  | Blocked nat time
  | LastLook nat
  | Abandoning nat "PendingApproval list"
  | Answered "PendingApproval list"

record poll =
  pl_peer :: string
  pl_wait :: duration
  pl_pc :: poll_pc

record inbox_world =
  iw_clock :: time
  iw_inbox :: inbox
  iw_deciders :: "decider list"
  iw_polls :: "poll list"
  iw_posts :: "(nat \<times> collectedAnswer) list"
  iw_accepted :: "(nat \<times> collectedAnswer) list"
  iw_pushes :: "(string \<times> string) list"

definition set_decider :: "nat \<Rightarrow> decider \<Rightarrow> inbox_world \<Rightarrow> inbox_world" where
  "set_decider a d w = w\<lparr>iw_deciders := (iw_deciders w)[a := d]\<rparr>"

definition set_poll :: "nat \<Rightarrow> poll_pc \<Rightarrow> inbox_world \<Rightarrow> inbox_world" where
  "set_poll p pc w = w\<lparr>iw_polls := (iw_polls w)[p := (iw_polls w ! p)\<lparr>pl_pc := pc\<rparr>]\<rparr>"

definition on_inbox :: "(inbox \<Rightarrow> inbox) \<Rightarrow> inbox_world \<Rightarrow> inbox_world" where
  "on_inbox f w = w\<lparr>iw_inbox := f (iw_inbox w)\<rparr>"

definition decider_is :: "inbox_world \<Rightarrow> nat \<Rightarrow> decider \<Rightarrow> bool" where
  "decider_is w a d \<longleftrightarrow> a < length (iw_deciders w) \<and> iw_deciders w ! a = d"

definition poll_is :: "inbox_world \<Rightarrow> nat \<Rightarrow> string \<Rightarrow> poll_pc \<Rightarrow> bool" where
  "poll_is w p fp pc \<longleftrightarrow> p < length (iw_polls w) \<and> pl_peer (iw_polls w ! p) = fp \<and> pl_pc (iw_polls w ! p) = pc"

text \<open>The second half of \<^verbatim>\<open>park\<close>: a push is sent when nobody was polling.\<close>

definition released :: "nat \<Rightarrow> nat list \<Rightarrow> inbox_world \<Rightarrow> inbox_world" where
  "released a cs w =
     (let e = entry_at (iw_inbox w) a
      in set_decider a Waiting (on_inbox (close_all cs)
           (w\<lparr>iw_pushes := (if cs = [] then iw_pushes w @ [(pe_peer e, pe_id e)] else iw_pushes w)\<rparr>)))"

definition look :: "string \<Rightarrow> inbox_world \<Rightarrow> PendingApproval list" where
  "look fp w = pendingApprovals (iw_clock w) fp (iw_inbox w)"

inductive decider_step :: "inbox_world \<Rightarrow> inbox_world \<Rightarrow> bool" where
  asked: "decider_step w (on_inbox (new_cell e) (w\<lparr>iw_deciders := iw_deciders w @ [Fresh]\<rparr>))"
| parked: "decider_is w a Fresh \<Longrightarrow> decider_step w (set_decider a Parked (on_inbox (put_parked a) w))"
| taken: "decider_is w a Parked \<Longrightarrow> fp = pe_peer (entry_at (iw_inbox w) a) \<Longrightarrow>
    decider_step w (set_decider a (Waking (waiting_on fp (iw_inbox w))) (on_inbox (take_waiters fp) w))"
| woken: "decider_is w a (Waking cs) \<Longrightarrow> decider_step w (released a cs w)"
| got: "decider_is w a Waiting \<Longrightarrow> cell_answer (ib_cells (iw_inbox w) ! a) = Some c \<Longrightarrow>
    decider_step w (set_decider a (Leaving (Some c)) w)"
| gave_up: "decider_is w a Waiting \<Longrightarrow> decider_step w (set_decider a (Leaving None) w)"
| left: "decider_is w a (Leaving r) \<Longrightarrow> e = entry_at (iw_inbox w) a \<Longrightarrow>
    decider_step w (set_decider a (Left r) (on_inbox (unpark (pe_peer e) (pe_id e)) w))"

inductive poll_step :: "inbox_world \<Rightarrow> inbox_world \<Rightarrow> bool" where
  polled: "poll_step w (w\<lparr>iw_polls := iw_polls w @ [\<lparr>pl_peer = fp, pl_wait = d, pl_pc = FirstLook\<rparr>]\<rparr>)"
| at_once: "poll_is w p fp FirstLook \<Longrightarrow> look fp w \<noteq> [] \<or> pl_wait (iw_polls w ! p) \<le> 0 \<Longrightarrow>
    poll_step w (set_poll p (Answered (look fp w)) w)"
| stays: "poll_is w p fp FirstLook \<Longrightarrow> look fp w = [] \<Longrightarrow> 0 < pl_wait (iw_polls w ! p) \<Longrightarrow> poll_step w (set_poll p Registering w)"
| registered: "poll_is w p fp Registering \<Longrightarrow> waiter fp (iw_inbox w) = (c, ib) \<Longrightarrow>
    poll_step w (set_poll p (SecondLook c) (w\<lparr>iw_inbox := ib\<rparr>))"
| in_between: "poll_is w p fp (SecondLook c) \<Longrightarrow> look fp w \<noteq> [] \<Longrightarrow> poll_step w (set_poll p (Abandoning c (look fp w)) w)"
| blocks: "poll_is w p fp (SecondLook c) \<Longrightarrow> look fp w = [] \<Longrightarrow>
    poll_step w (set_poll p (Blocked c (iw_clock w + fetch_wait (pl_wait (iw_polls w ! p)))) w)"
| released_by: "poll_is w p fp (Blocked c t) \<Longrightarrow> ib_closed (iw_inbox w) ! c \<Longrightarrow> poll_step w (set_poll p (LastLook c) w)"
| timed_out: "poll_is w p fp (Blocked c t) \<Longrightarrow> t \<le> iw_clock w \<Longrightarrow> poll_step w (set_poll p (LastLook c) w)"
| cancelled: "poll_is w p fp (Blocked c t) \<Longrightarrow> poll_step w (set_poll p (LastLook c) w)"
| looks: "poll_is w p fp (LastLook c) \<Longrightarrow> poll_step w (set_poll p (Abandoning c (look fp w)) w)"
| abandons: "poll_is w p fp (Abandoning c found) \<Longrightarrow> poll_step w (set_poll p (Answered found) (on_inbox (abandon fp c) w))"

text \<open>A post that was found an entry for and passed its checks is on its way to settle it.\<close>

inductive post_step :: "inbox_world \<Rightarrow> inbox_world \<Rightarrow> bool" where
  posted: "parkedFor i fp (iw_inbox w) = Some a \<Longrightarrow> post_step w (w\<lparr>iw_posts := iw_posts w @ [(a, c)]\<rparr>)"
| settles: "iw_posts w = xs @ (a, c) # ys \<Longrightarrow> settle a c (iw_inbox w) = (ok, ib) \<Longrightarrow>
    post_step w (w\<lparr>iw_posts := xs @ ys, iw_inbox := ib,
      iw_accepted := (if ok then iw_accepted w @ [(a, c)] else iw_accepted w)\<rparr>)"

inductive inbox_step :: "inbox_world \<Rightarrow> inbox_world \<Rightarrow> bool" where
  decider: "decider_step w w' \<Longrightarrow> inbox_step w w'"
| poll: "poll_step w w' \<Longrightarrow> inbox_step w w'"
| post: "post_step w w' \<Longrightarrow> inbox_step w w'"
| tick: "iw_clock w \<le> t \<Longrightarrow> inbox_step w (w\<lparr>iw_clock := t\<rparr>)"

definition inbox_start :: inbox_world where
  "inbox_start = \<lparr>iw_clock = 0, iw_inbox = \<lparr>ib_cells = [], ib_parked = Map.empty, ib_waiters = Map.empty, ib_closed = []\<rparr>,
     iw_deciders = [], iw_polls = [], iw_posts = [], iw_accepted = [], iw_pushes = []\<rparr>"

section \<open>Lemmas\<close>

lemmas inbox_ops = new_cell_def put_parked_def unpark_def take_waiters_def close_all_def
lemmas world_ops = set_decider_def set_poll_def on_inbox_def released_def Let_def

lemma nth_update_any: "xs[i := x] ! j = (if i = j \<and> j < length xs then x else xs ! j)"
  by (cases "i < length xs") (auto simp: nth_list_update list_update_beyond)

lemma settle_cases:
  assumes "settle a c ib = (ok, ib')"
  obtains "ok" "\<not> cell_taken (ib_cells ib ! a)"
      "ib' = ib\<lparr>ib_cells := (ib_cells ib)[a := (ib_cells ib ! a)\<lparr>cell_taken := True, cell_answer := Some c\<rparr>]\<rparr>"
    | "\<not> ok" "ib' = ib" "cell_taken (ib_cells ib ! a)"
  using assms by (auto simp: settle_def split: if_splits)

lemma waiting_on_abandon: "set (waiting_on fp (abandon fp' c ib)) = set (waiting_on fp ib) - (if fp = fp' then {c} else {})"
  by (auto simp: waiting_on_def abandon_def Let_def filter_empty_conv split: option.splits)

lemma abandon_frame [simp]:
  "ib_cells (abandon fp c ib) = ib_cells ib" "ib_parked (abandon fp c ib) = ib_parked ib" "ib_closed (abandon fp c ib) = ib_closed ib"
  by (simp_all add: abandon_def Let_def split: option.splits)

lemma waiter_eq:
  assumes "waiter fp ib = (c, ib')"
  shows "c = length (ib_closed ib)" "ib_cells ib' = ib_cells ib" "ib_parked ib' = ib_parked ib" "ib_closed ib' = ib_closed ib @ [False]"
    "waiting_on fp' ib' = waiting_on fp' ib @ (if fp' = fp then [c] else [])"
  using assms by (auto simp: waiter_def Let_def waiting_on_def)

lemma offered_empty:
  "offered now fp ib = [] \<longleftrightarrow>
     (\<forall>a < length (ib_cells ib). is_parked ib a \<and> pe_peer (entry_at ib a) = fp \<longrightarrow>
        cell_taken (ib_cells ib ! a) \<or> expired_at now (entry_at ib a))"
  by (auto simp: offered_def pendingFor_def filter_empty_conv)

lemma expired_later: "expired_at t e \<Longrightarrow> t \<le> t' \<Longrightarrow> expired_at t' e"
  by (auto simp: expired_at_def split: option.splits)

text \<open>Polls touch no entry.\<close>

lemma poll_step_frame:
  assumes "poll_step w w'"
  shows "ib_cells (iw_inbox w') = ib_cells (iw_inbox w)" "ib_parked (iw_inbox w') = ib_parked (iw_inbox w)"
    "iw_deciders w' = iw_deciders w" "iw_posts w' = iw_posts w" "iw_accepted w' = iw_accepted w" "iw_clock w' = iw_clock w"
    "key_at (iw_inbox w') a = key_at (iw_inbox w) a" "decider_is w' a d = decider_is w a d"
proof -
  have "ib_cells (iw_inbox w') = ib_cells (iw_inbox w) \<and> ib_parked (iw_inbox w') = ib_parked (iw_inbox w) \<and>
    iw_deciders w' = iw_deciders w \<and> iw_posts w' = iw_posts w \<and> iw_accepted w' = iw_accepted w \<and> iw_clock w' = iw_clock w"
    using assms
  proof cases
    case (registered p fp c ib)
    with waiter_eq(2,3) [OF registered(3)] show ?thesis by (simp add: set_poll_def)
  qed (simp_all add: set_poll_def on_inbox_def)
  then show "ib_cells (iw_inbox w') = ib_cells (iw_inbox w)" "ib_parked (iw_inbox w') = ib_parked (iw_inbox w)"
    "iw_deciders w' = iw_deciders w" "iw_posts w' = iw_posts w" "iw_accepted w' = iw_accepted w" "iw_clock w' = iw_clock w"
    "key_at (iw_inbox w') a = key_at (iw_inbox w) a" "decider_is w' a d = decider_is w a d"
    by (simp_all add: key_at_def decider_is_def)
qed

subsection \<open>The map of entries\<close>

definition map_inv :: "inbox_world \<Rightarrow> bool" where
  "map_inv w \<longleftrightarrow> length (iw_deciders w) = length (ib_cells (iw_inbox w)) \<and>
     (\<forall>k a. ib_parked (iw_inbox w) k = Some a \<longrightarrow> a < length (ib_cells (iw_inbox w)) \<and> k = key_at (iw_inbox w) a) \<and>
     (\<forall>x \<in> set (iw_posts w). fst x < length (ib_cells (iw_inbox w)))"

lemma map_inv_step: "inbox_step w w' \<Longrightarrow> map_inv w \<Longrightarrow> map_inv w'"
proof (induction rule: inbox_step.induct)
  case (decider w w')
  then show ?case
    by cases (auto simp: map_inv_def world_ops inbox_ops key_at_def decider_is_def nth_append less_Suc_eq split: if_splits)
next
  case (poll w w')
  then show ?case
    unfolding map_inv_def by (simp add: poll_step_frame [OF poll(1)])
next
  case (post w w')
  then show ?case
  proof cases
    case (posted i fp a c)
    with post(2) show ?thesis by (auto simp: map_inv_def parkedFor_def)
  next
    case (settles xs a c ys ok ib)
    from settles(3) post(2) settles(1,2) show ?thesis
      by (cases rule: settle_cases) (auto simp: map_inv_def key_at_def nth_list_update)
  qed
next
  case (tick w t)
  then show ?case by (simp add: map_inv_def)
qed

subsection \<open>Settling\<close>

definition settled_inv :: "inbox_world \<Rightarrow> bool" where
  "settled_inv w \<longleftrightarrow> distinct (map fst (iw_accepted w)) \<and>
     (\<forall>a c. (a, c) \<in> set (iw_accepted w) \<longleftrightarrow> a < length (ib_cells (iw_inbox w)) \<and> cell_answer (ib_cells (iw_inbox w) ! a) = Some c) \<and>
     (\<forall>x \<in> set (ib_cells (iw_inbox w)). cell_taken x \<longleftrightarrow> cell_answer x \<noteq> None) \<and>
     (\<forall>a c. decider_is w a (Leaving (Some c)) \<or> decider_is w a (Left (Some c)) \<longrightarrow> (a, c) \<in> set (iw_accepted w))"

lemma settled_cong:
  assumes "iw_accepted w' = iw_accepted w" "ib_cells (iw_inbox w') = ib_cells (iw_inbox w)" "iw_deciders w' = iw_deciders w"
  shows "settled_inv w' = settled_inv w"
  unfolding settled_inv_def decider_is_def assms ..

lemma settled_inv_step: "inbox_step w w' \<Longrightarrow> map_inv w \<Longrightarrow> settled_inv w \<Longrightarrow> settled_inv w'"
proof (induction rule: inbox_step.induct)
  case (decider w w')
  then show ?case
    by cases (auto simp: settled_inv_def map_inv_def world_ops inbox_ops decider_is_def nth_append nth_list_update less_Suc_eq
        split: if_splits)
next
  case (poll w w')
  from poll(3) settled_cong [of w' w] show ?case by (simp add: poll_step_frame [OF poll(1)])
next
  case (post w w')
  then show ?case
  proof cases
    case (posted i fp a c)
    with post(3) settled_cong [of w' w] show ?thesis by simp
  next
    case (settles xs a c ys ok ib)
    have a: "a < length (ib_cells (iw_inbox w))" using post(2) settles(2) by (auto simp: map_inv_def)
    from settles(3) show ?thesis
    proof (cases rule: settle_cases)
      case 1
      have none: "cell_answer (ib_cells (iw_inbox w) ! a) = None" using post(3) 1(2) a by (auto simp: settled_inv_def)
      then have new: "a \<notin> fst ` set (iw_accepted w)" using post(3) by (force simp: settled_inv_def)
      from post(3) 1(1,3) settles(1) a new none show ?thesis
        by (auto simp: settled_inv_def decider_is_def nth_list_update dest!: set_update_subset_insert [THEN subsetD])
    next
      case 2
      with post(3) settles(1) settled_cong [of w' w] show ?thesis by simp
    qed
  qed
next
  case (tick w t)
  then show ?case using settled_cong [of "w\<lparr>iw_clock := t\<rparr>" w] by simp
qed

subsection \<open>Polls and their channels\<close>

fun chan :: "poll_pc \<Rightarrow> nat option" where
  "chan (SecondLook c) = Some c"
| "chan (Blocked c t) = Some c"
| "chan (LastLook c) = Some c"
| "chan (Abandoning c found) = Some c"
| "chan pc = None"

text \<open>A poll that has still to be woken: it is about to wait on its channel, or does.\<close>

fun to_wake :: "poll_pc \<Rightarrow> nat option" where
  "to_wake (SecondLook c) = Some c"
| "to_wake (Blocked c t) = Some c"
| "to_wake pc = None"

abbreviation chan_at :: "inbox_world \<Rightarrow> nat \<Rightarrow> nat option" where
  "chan_at w p \<equiv> chan (pl_pc (iw_polls w ! p))"

definition owned_inv :: "inbox_world \<Rightarrow> bool" where
  "owned_inv w \<longleftrightarrow>
     (\<forall>p < length (iw_polls w). \<forall>c. chan_at w p = Some c \<longrightarrow> c < length (ib_closed (iw_inbox w))) \<and>
     (\<forall>p < length (iw_polls w). \<forall>q < length (iw_polls w). \<forall>c. chan_at w p = Some c \<and> chan_at w q = Some c \<longrightarrow> p = q) \<and>
     (\<forall>fp c. c \<in> set (waiting_on fp (iw_inbox w)) \<longrightarrow> (\<exists>p < length (iw_polls w). pl_peer (iw_polls w ! p) = fp \<and> chan_at w p = Some c))"

definition woken_inv :: "inbox_world \<Rightarrow> bool" where
  "woken_inv w \<longleftrightarrow>
     (\<forall>p < length (iw_polls w). \<forall>c. to_wake (pl_pc (iw_polls w ! p)) = Some c \<and> \<not> ib_closed (iw_inbox w) ! c \<longrightarrow>
        c \<in> set (waiting_on (pl_peer (iw_polls w ! p)) (iw_inbox w)) \<or> (\<exists>a cs. decider_is w a (Waking cs) \<and> c \<in> set cs)) \<and>
     (\<forall>p fp c t a. poll_is w p fp (Blocked c t) \<and> c \<in> set (waiting_on fp (iw_inbox w)) \<and> a < length (ib_cells (iw_inbox w)) \<and>
        is_parked (iw_inbox w) a \<and> pe_peer (entry_at (iw_inbox w) a) = fp \<and> \<not> cell_taken (ib_cells (iw_inbox w) ! a) \<and>
        \<not> expired_at (iw_clock w) (entry_at (iw_inbox w) a) \<longrightarrow> decider_is w a Parked)"

lemma owned_invD:
  assumes "owned_inv w"
  shows "p < length (iw_polls w) \<Longrightarrow> chan_at w p = Some c \<Longrightarrow> c < length (ib_closed (iw_inbox w))"
    "p < length (iw_polls w) \<Longrightarrow> q < length (iw_polls w) \<Longrightarrow> chan_at w p = Some c \<Longrightarrow> chan_at w q = Some c \<Longrightarrow> p = q"
    "c \<in> set (waiting_on fp (iw_inbox w)) \<Longrightarrow> \<exists>p < length (iw_polls w). pl_peer (iw_polls w ! p) = fp \<and> chan_at w p = Some c"
  using assms unfolding owned_inv_def by blast+

lemma to_wake_chan: "to_wake pc = Some c \<Longrightarrow> chan pc = Some c"
  by (cases pc) auto

text \<open>What a step of an entry or of an answer does to the waiters.\<close>

lemma decider_step_frame:
  assumes "decider_step w w'"
  shows "iw_polls w' = iw_polls w" "iw_clock w' = iw_clock w" "length (ib_closed (iw_inbox w')) = length (ib_closed (iw_inbox w))"
    "set (waiting_on fp (iw_inbox w')) \<subseteq> set (waiting_on fp (iw_inbox w))"
proof -
  have "iw_polls w' = iw_polls w \<and> iw_clock w' = iw_clock w \<and> length (ib_closed (iw_inbox w')) = length (ib_closed (iw_inbox w)) \<and>
     set (waiting_on fp (iw_inbox w')) \<subseteq> set (waiting_on fp (iw_inbox w))"
    using assms by cases (auto simp: world_ops inbox_ops waiting_on_def split: if_splits option.splits)
  then show "iw_polls w' = iw_polls w" "iw_clock w' = iw_clock w" "length (ib_closed (iw_inbox w')) = length (ib_closed (iw_inbox w))"
    "set (waiting_on fp (iw_inbox w')) \<subseteq> set (waiting_on fp (iw_inbox w))" by auto
qed

lemma post_step_frame:
  assumes "post_step w w'"
  shows "iw_polls w' = iw_polls w" "iw_clock w' = iw_clock w" "ib_closed (iw_inbox w') = ib_closed (iw_inbox w)"
    "waiting_on fp (iw_inbox w') = waiting_on fp (iw_inbox w)" "iw_deciders w' = iw_deciders w"
    "ib_parked (iw_inbox w') = ib_parked (iw_inbox w)" "length (ib_cells (iw_inbox w')) = length (ib_cells (iw_inbox w))"
    "entry_at (iw_inbox w') a = entry_at (iw_inbox w) a"
    "cell_taken (ib_cells (iw_inbox w) ! a) \<Longrightarrow> cell_taken (ib_cells (iw_inbox w') ! a)"
proof -
  have "iw_polls w' = iw_polls w \<and> iw_clock w' = iw_clock w \<and> ib_closed (iw_inbox w') = ib_closed (iw_inbox w) \<and>
    waiting_on fp (iw_inbox w') = waiting_on fp (iw_inbox w) \<and> iw_deciders w' = iw_deciders w \<and>
    ib_parked (iw_inbox w') = ib_parked (iw_inbox w) \<and> length (ib_cells (iw_inbox w')) = length (ib_cells (iw_inbox w)) \<and>
    entry_at (iw_inbox w') a = entry_at (iw_inbox w) a \<and>
    (cell_taken (ib_cells (iw_inbox w) ! a) \<longrightarrow> cell_taken (ib_cells (iw_inbox w') ! a))"
    using assms
  proof cases
    case (settles xs b c ys ok ib)
    from settles(3) settles(1) show ?thesis
      by (cases rule: settle_cases) (auto simp: waiting_on_def nth_update_any split: if_splits)
  qed simp
  then show "iw_polls w' = iw_polls w" "iw_clock w' = iw_clock w" "ib_closed (iw_inbox w') = ib_closed (iw_inbox w)"
    "waiting_on fp (iw_inbox w') = waiting_on fp (iw_inbox w)" "iw_deciders w' = iw_deciders w"
    "ib_parked (iw_inbox w') = ib_parked (iw_inbox w)" "length (ib_cells (iw_inbox w')) = length (ib_cells (iw_inbox w))"
    "entry_at (iw_inbox w') a = entry_at (iw_inbox w) a"
    "cell_taken (ib_cells (iw_inbox w) ! a) \<Longrightarrow> cell_taken (ib_cells (iw_inbox w') ! a)" by auto
qed

lemma owned_kept:
  assumes "owned_inv w" "iw_polls w' = iw_polls w" "length (ib_closed (iw_inbox w')) = length (ib_closed (iw_inbox w))"
    "\<And>fp. set (waiting_on fp (iw_inbox w')) \<subseteq> set (waiting_on fp (iw_inbox w))"
  shows "owned_inv w'"
  unfolding owned_inv_def using assms by (simp add: owned_inv_def) blast

text \<open>A poll that keeps its channel, or never had one, leaves the ownership as it is.\<close>

lemma owned_moved:
  assumes "owned_inv w" "p < length (iw_polls w)" "chan pc = chan_at w p"
  shows "owned_inv (set_poll p pc w)"
proof -
  have "chan_at (set_poll p pc w) q = chan_at w q" "pl_peer (iw_polls (set_poll p pc w) ! q) = pl_peer (iw_polls w ! q)" for q
    using assms(2,3) by (auto simp: set_poll_def nth_list_update)
  moreover have "length (iw_polls (set_poll p pc w)) = length (iw_polls w)" "iw_inbox (set_poll p pc w) = iw_inbox w"
    by (simp_all add: set_poll_def)
  ultimately show ?thesis using assms(1) unfolding owned_inv_def by simp
qed

lemma set_poll_sel:
  "p < length (iw_polls w) \<Longrightarrow> chan_at (set_poll p pc w) q = (if q = p then chan pc else chan_at w q)"
  "pl_peer (iw_polls (set_poll p pc w) ! q) = pl_peer (iw_polls w ! q)"
  "length (iw_polls (set_poll p pc w)) = length (iw_polls w)" "iw_inbox (set_poll p pc w) = iw_inbox w"
  by (simp_all add: set_poll_def nth_update_any)

lemma owned_registered:
  assumes "owned_inv w" "poll_is w p fp Registering" "waiter fp (iw_inbox w) = (c, ib)"
  shows "owned_inv (set_poll p (SecondLook c) (w\<lparr>iw_inbox := ib\<rparr>))" (is "owned_inv ?w")
proof -
  note e = waiter_eq [OF assms(3)]
  have p: "p < length (iw_polls w)" "pl_peer (iw_polls w ! p) = fp" "chan_at w p = None" using assms(2) by (auto simp: poll_is_def)
  have ch: "chan_at ?w q = (if q = p then Some c else chan_at w q)" "pl_peer (iw_polls ?w ! q) = pl_peer (iw_polls w ! q)"
    "length (iw_polls ?w) = length (iw_polls w)" "iw_inbox ?w = ib" for q
    using p(1) by (simp_all add: set_poll_sel)
  have old: "q < length (iw_polls w) \<Longrightarrow> chan_at w q = Some d \<Longrightarrow> d < c" for q d
    using owned_invD(1) [OF assms(1)] e(1) by auto
  show ?thesis unfolding owned_inv_def
  proof (intro conjI allI impI)
    fix q d assume "q < length (iw_polls ?w)" "chan_at ?w q = Some d"
    then show "d < length (ib_closed (iw_inbox ?w))" using old [of q d] e(1,4) unfolding ch by (auto split: if_splits)
  next
    fix q r d assume "q < length (iw_polls ?w)" "r < length (iw_polls ?w)" "chan_at ?w q = Some d \<and> chan_at ?w r = Some d"
    then show "q = r" using old [of q d] old [of r d] owned_invD(2) [OF assms(1), of q r d] unfolding ch by (auto split: if_splits)
  next
    fix fp' d assume "d \<in> set (waiting_on fp' (iw_inbox ?w))"
    then consider "d \<in> set (waiting_on fp' (iw_inbox w))" | "fp' = fp" "d = c" unfolding ch using e(5) by (auto split: if_splits)
    then show "\<exists>q < length (iw_polls ?w). pl_peer (iw_polls ?w ! q) = fp' \<and> chan_at ?w q = Some d"
    proof cases
      case 1
      then obtain q where "q < length (iw_polls w)" "pl_peer (iw_polls w ! q) = fp'" "chan_at w q = Some d"
        using owned_invD(3) [OF assms(1)] by blast
      with p(3) show ?thesis unfolding ch by (intro exI [of _ q]) auto
    next
      case 2
      with p show ?thesis unfolding ch by (intro exI [of _ p]) auto
    qed
  qed
qed

lemma owned_abandoned:
  assumes "owned_inv w" "poll_is w p fp (Abandoning c found)"
  shows "owned_inv (set_poll p (Answered found) (on_inbox (abandon fp c) w))" (is "owned_inv ?w")
proof -
  have p: "p < length (iw_polls w)" "pl_peer (iw_polls w ! p) = fp" "chan_at w p = Some c" using assms(2) by (auto simp: poll_is_def)
  have ch: "chan_at ?w q = (if q = p then None else chan_at w q)" "pl_peer (iw_polls ?w ! q) = pl_peer (iw_polls w ! q)"
    "length (iw_polls ?w) = length (iw_polls w)" "iw_inbox ?w = abandon fp c (iw_inbox w)" for q
    using p(1) by (simp_all add: set_poll_def on_inbox_def nth_update_any)
  show ?thesis unfolding owned_inv_def
  proof (intro conjI allI impI)
    fix q d assume "q < length (iw_polls ?w)" "chan_at ?w q = Some d"
    then show "d < length (ib_closed (iw_inbox ?w))" using owned_invD(1) [OF assms(1), of q d] unfolding ch by (auto split: if_splits)
  next
    fix q r d assume "q < length (iw_polls ?w)" "r < length (iw_polls ?w)" "chan_at ?w q = Some d \<and> chan_at ?w r = Some d"
    then show "q = r" using owned_invD(2) [OF assms(1), of q r d] unfolding ch by (auto split: if_splits)
  next
    fix fp' d assume "d \<in> set (waiting_on fp' (iw_inbox ?w))"
    then have d: "d \<in> set (waiting_on fp' (iw_inbox w))" "\<not> (fp' = fp \<and> d = c)"
      unfolding ch by (auto simp: waiting_on_abandon split: if_splits)
    then obtain q where q: "q < length (iw_polls w)" "pl_peer (iw_polls w ! q) = fp'" "chan_at w q = Some d"
      using owned_invD(3) [OF assms(1)] by blast
    with p d(2) have "q \<noteq> p" by auto
    with q show "\<exists>q < length (iw_polls ?w). pl_peer (iw_polls ?w ! q) = fp' \<and> chan_at ?w q = Some d"
      unfolding ch by (intro exI [of _ q]) auto
  qed
qed

lemma owned_polled:
  assumes "owned_inv w"
  shows "owned_inv (w\<lparr>iw_polls := iw_polls w @ [\<lparr>pl_peer = fp, pl_wait = d, pl_pc = FirstLook\<rparr>]\<rparr>)" (is "owned_inv ?w")
proof -
  have ch: "iw_polls ?w ! q = iw_polls w ! q" if "q < length (iw_polls w)" for q using that by (simp add: nth_append)
  have no: "q < length (iw_polls w)" if "chan_at ?w q = Some c" "q < length (iw_polls ?w)" for q c
    using that by (cases "q < length (iw_polls w)") (auto simp: nth_append less_Suc_eq)
  have i: "iw_inbox ?w = iw_inbox w" by simp
  show ?thesis unfolding owned_inv_def i
  proof (intro conjI allI impI)
    fix q c assume "q < length (iw_polls ?w)" "chan_at ?w q = Some c"
    then show "c < length (ib_closed (iw_inbox w))" using no ch owned_invD(1) [OF assms] by metis
  next
    fix q r c assume "q < length (iw_polls ?w)" "r < length (iw_polls ?w)" "chan_at ?w q = Some c \<and> chan_at ?w r = Some c"
    then show "q = r" using no ch owned_invD(2) [OF assms] by metis
  next
    fix fp c assume "c \<in> set (waiting_on fp (iw_inbox w))"
    then obtain q where "q < length (iw_polls w)" "pl_peer (iw_polls w ! q) = fp" "chan_at w q = Some c"
      using owned_invD(3) [OF assms] by blast
    then show "\<exists>q < length (iw_polls ?w). pl_peer (iw_polls ?w ! q) = fp \<and> chan_at ?w q = Some c"
      by (intro exI [of _ q]) (simp add: nth_append)
  qed
qed

lemma owned_inv_step: "inbox_step w w' \<Longrightarrow> owned_inv w \<Longrightarrow> owned_inv w'"
proof (induction rule: inbox_step.induct)
  case (decider w w')
  then show ?case by (intro owned_kept [of w w']) (simp_all add: decider_step_frame)
next
  case (poll w w')
  from poll(1) show ?case
  proof cases
    case (polled fp d)
    then show ?thesis using owned_polled poll(2) by simp
  next
    case (registered p fp c ib)
    with owned_registered poll(2) show ?thesis by simp
  next
    case (abandons p fp c found)
    with owned_abandoned poll(2) show ?thesis by simp
  qed (use poll(2) in \<open>auto simp: poll_is_def intro!: owned_moved\<close>)
next
  case (post w w')
  then show ?case by (intro owned_kept [of w w']) (simp_all add: post_step_frame)
next
  case (tick w t)
  then show ?case by (simp add: owned_inv_def)
qed

subsection \<open>No wake-up is lost\<close>

lemma woken_invD:
  assumes "woken_inv w"
  shows "p < length (iw_polls w) \<Longrightarrow> to_wake (pl_pc (iw_polls w ! p)) = Some c \<Longrightarrow> \<not> ib_closed (iw_inbox w) ! c \<Longrightarrow>
      c \<in> set (waiting_on (pl_peer (iw_polls w ! p)) (iw_inbox w)) \<or> (\<exists>a cs. decider_is w a (Waking cs) \<and> c \<in> set cs)"
    "poll_is w p fp (Blocked c t) \<Longrightarrow> c \<in> set (waiting_on fp (iw_inbox w)) \<Longrightarrow> a < length (ib_cells (iw_inbox w)) \<Longrightarrow>
      is_parked (iw_inbox w) a \<Longrightarrow> pe_peer (entry_at (iw_inbox w) a) = fp \<Longrightarrow> \<not> cell_taken (ib_cells (iw_inbox w) ! a) \<Longrightarrow>
      \<not> expired_at (iw_clock w) (entry_at (iw_inbox w) a) \<Longrightarrow> decider_is w a Parked"
  using assms unfolding woken_inv_def by blast+

lemma waking_stays:
  "decider_step w w' \<Longrightarrow> decider_is w a (Waking ds) \<Longrightarrow> decider_is w' a (Waking ds) \<or> w' = released a ds w"
  by (cases rule: decider_step.cases, assumption)
     (auto simp: set_decider_def on_inbox_def released_def Let_def decider_is_def nth_update_any nth_append)

lemma waiting_stays:
  assumes "decider_step w w'" "c \<in> set (waiting_on fp (iw_inbox w))"
  shows "c \<in> set (waiting_on fp (iw_inbox w')) \<or> (\<exists>b ds. decider_is w' b (Waking ds) \<and> c \<in> set ds)"
  using assms(1)
proof cases
  case (taken b fp')
  then have "decider_is w' b (Waking (waiting_on fp' (iw_inbox w)))" by (simp add: set_decider_def on_inbox_def decider_is_def)
  moreover have "fp' \<noteq> fp \<Longrightarrow> c \<in> set (waiting_on fp (iw_inbox w'))"
    using assms(2) taken(1) by (simp add: world_ops inbox_ops waiting_on_def)
  ultimately show ?thesis using assms(2) by blast
qed (use assms(2) in \<open>auto simp: world_ops inbox_ops waiting_on_def\<close>)

lemma woken_decider:
  assumes "decider_step w w'" "map_inv w" "woken_inv w" "owned_inv w"
  shows "woken_inv w'"
  unfolding woken_inv_def
proof (intro conjI allI impI)
  fix p c
  assume p: "p < length (iw_polls w')" and c: "to_wake (pl_pc (iw_polls w' ! p)) = Some c \<and> \<not> ib_closed (iw_inbox w') ! c"
  let ?fp = "pl_peer (iw_polls w ! p)"
  note fr = decider_step_frame [OF assms(1)]
  have p': "p < length (iw_polls w)" "to_wake (pl_pc (iw_polls w ! p)) = Some c" using p c fr(1) by simp_all
  have lt: "c < length (ib_closed (iw_inbox w))" using owned_invD(1) [OF assms(4) p'(1)] to_wake_chan [OF p'(2)] by blast
  from assms(1) have open_before: "\<not> ib_closed (iw_inbox w) ! c"
    using c lt by cases (auto simp: world_ops inbox_ops)
  note before = woken_invD(1) [OF assms(3) p' open_before]
  have "c \<notin> set ds" if "w' = released a ds w" for a ds using c lt that by (auto simp: world_ops inbox_ops)
  with before waking_stays [OF assms(1)] waiting_stays [OF assms(1)]
  have "c \<in> set (waiting_on ?fp (iw_inbox w')) \<or> (\<exists>a cs. decider_is w' a (Waking cs) \<and> c \<in> set cs)" by blast
  then show "c \<in> set (waiting_on (pl_peer (iw_polls w' ! p)) (iw_inbox w')) \<or> (\<exists>a cs. decider_is w' a (Waking cs) \<and> c \<in> set cs)"
    using fr(1) by simp
next
  fix p fp c t a
  assume *: "poll_is w' p fp (Blocked c t) \<and> c \<in> set (waiting_on fp (iw_inbox w')) \<and> a < length (ib_cells (iw_inbox w')) \<and>
     is_parked (iw_inbox w') a \<and> pe_peer (entry_at (iw_inbox w') a) = fp \<and> \<not> cell_taken (ib_cells (iw_inbox w') ! a) \<and>
     \<not> expired_at (iw_clock w') (entry_at (iw_inbox w') a)"
  note fr = decider_step_frame [OF assms(1)]
  have b: "poll_is w p fp (Blocked c t)" "c \<in> set (waiting_on fp (iw_inbox w))" using * fr by (auto simp: poll_is_def)
  note before = woken_invD(2) [OF assms(3) b, of a]
  from assms(1) show "decider_is w' a Parked"
  proof cases
    case (asked e)
    have "a < length (ib_cells (iw_inbox w))"
      using * asked assms(2) by (auto simp: world_ops inbox_ops is_parked_def key_at_def map_inv_def less_Suc_eq)
    with * asked before show ?thesis
      by (auto simp: world_ops inbox_ops is_parked_def key_at_def decider_is_def nth_append)
  next
    case (parked b')
    with * before assms(2) show ?thesis
      by (cases "a = b'") (auto simp: world_ops inbox_ops is_parked_def key_at_def decider_is_def nth_update_any map_inv_def split: if_splits)
  next
    case (taken b' fp')
    with * have "fp \<noteq> fp'" by (auto simp: world_ops inbox_ops waiting_on_def)
    with * before taken show ?thesis
      by (auto simp: world_ops inbox_ops is_parked_def key_at_def decider_is_def nth_update_any)
  qed (use * before in \<open>auto simp: world_ops inbox_ops is_parked_def key_at_def decider_is_def nth_update_any split: if_splits\<close>)
qed

lemma set_poll_is:
  assumes "p < length (iw_polls w)"
  shows "poll_is (set_poll p pc w) q fp pc' \<longleftrightarrow>
    (if q = p then pl_peer (iw_polls w ! p) = fp \<and> pc = pc' else poll_is w q fp pc')"
  using assms by (auto simp: poll_is_def set_poll_def nth_update_any)

lemma set_poll_rest [simp]:
  "iw_clock (set_poll p pc w) = iw_clock w" "decider_is (set_poll p pc w) a d = decider_is w a d"
  by (simp_all add: set_poll_def decider_is_def)

text \<open>Steps that wake nobody, offer nothing new and put nobody to sleep.\<close>

lemma woken_transfer:
  assumes "woken_inv w"
    and "\<And>p c. p < length (iw_polls w') \<Longrightarrow> to_wake (pl_pc (iw_polls w' ! p)) = Some c \<Longrightarrow> \<not> ib_closed (iw_inbox w') ! c \<Longrightarrow>
      p < length (iw_polls w) \<and> to_wake (pl_pc (iw_polls w ! p)) = Some c \<and> \<not> ib_closed (iw_inbox w) ! c \<and>
      (c \<in> set (waiting_on (pl_peer (iw_polls w ! p)) (iw_inbox w)) \<longrightarrow> c \<in> set (waiting_on (pl_peer (iw_polls w' ! p)) (iw_inbox w')))"
    and "\<And>a d. decider_is w' a d = decider_is w a d"
    and "\<And>p fp c t. poll_is w' p fp (Blocked c t) \<Longrightarrow> c \<in> set (waiting_on fp (iw_inbox w')) \<Longrightarrow>
      poll_is w p fp (Blocked c t) \<and> c \<in> set (waiting_on fp (iw_inbox w))"
    and "\<And>a. a < length (ib_cells (iw_inbox w')) \<Longrightarrow> is_parked (iw_inbox w') a \<Longrightarrow> \<not> cell_taken (ib_cells (iw_inbox w') ! a) \<Longrightarrow>
      \<not> expired_at (iw_clock w') (entry_at (iw_inbox w') a) \<Longrightarrow>
      a < length (ib_cells (iw_inbox w)) \<and> is_parked (iw_inbox w) a \<and> \<not> cell_taken (ib_cells (iw_inbox w) ! a) \<and>
      entry_at (iw_inbox w') a = entry_at (iw_inbox w) a \<and> \<not> expired_at (iw_clock w) (entry_at (iw_inbox w) a)"
  shows "woken_inv w'"
  unfolding woken_inv_def
proof (intro conjI allI impI)
  fix p c assume "p < length (iw_polls w')" "to_wake (pl_pc (iw_polls w' ! p)) = Some c \<and> \<not> ib_closed (iw_inbox w') ! c"
  with assms(2) [of p c] woken_invD(1) [OF assms(1), of p c]
  show "c \<in> set (waiting_on (pl_peer (iw_polls w' ! p)) (iw_inbox w')) \<or> (\<exists>a cs. decider_is w' a (Waking cs) \<and> c \<in> set cs)"
    unfolding assms(3) by blast
next
  fix p fp c t a
  assume "poll_is w' p fp (Blocked c t) \<and> c \<in> set (waiting_on fp (iw_inbox w')) \<and> a < length (ib_cells (iw_inbox w')) \<and>
     is_parked (iw_inbox w') a \<and> pe_peer (entry_at (iw_inbox w') a) = fp \<and> \<not> cell_taken (ib_cells (iw_inbox w') ! a) \<and>
     \<not> expired_at (iw_clock w') (entry_at (iw_inbox w') a)"
  with assms(4) [of p fp c t] assms(5) [of a] woken_invD(2) [OF assms(1), of p fp c t a] show "decider_is w' a Parked"
    unfolding assms(3) by metis
qed

lemma woken_moved:
  assumes "woken_inv w" "p < length (iw_polls w)" "to_wake pc = None"
  shows "woken_inv (set_poll p pc w)"
proof (rule woken_transfer [OF assms(1)])
  fix q c assume "to_wake (pl_pc (iw_polls (set_poll p pc w) ! q)) = Some c" "q < length (iw_polls (set_poll p pc w))"
    "\<not> ib_closed (iw_inbox (set_poll p pc w)) ! c"
  then show "q < length (iw_polls w) \<and> to_wake (pl_pc (iw_polls w ! q)) = Some c \<and> \<not> ib_closed (iw_inbox w) ! c \<and>
      (c \<in> set (waiting_on (pl_peer (iw_polls w ! q)) (iw_inbox w)) \<longrightarrow>
       c \<in> set (waiting_on (pl_peer (iw_polls (set_poll p pc w) ! q)) (iw_inbox (set_poll p pc w))))"
    using assms(2,3) by (auto simp: set_poll_def nth_update_any split: if_splits)
next
  fix q fp c t assume "poll_is (set_poll p pc w) q fp (Blocked c t)" "c \<in> set (waiting_on fp (iw_inbox (set_poll p pc w)))"
  then show "poll_is w q fp (Blocked c t) \<and> c \<in> set (waiting_on fp (iw_inbox w))"
    using assms(2,3) by (auto simp: set_poll_is set_poll_sel split: if_splits)
qed (simp_all add: set_poll_sel(4))

lemma woken_registered:
  assumes "woken_inv w" "owned_inv w" "poll_is w p fp Registering" "waiter fp (iw_inbox w) = (c, ib)"
  shows "woken_inv (set_poll p (SecondLook c) (w\<lparr>iw_inbox := ib\<rparr>))" (is "woken_inv ?w")
proof -
  note e = waiter_eq [OF assms(4)]
  have p: "p < length (iw_polls w)" "pl_peer (iw_polls w ! p) = fp" using assms(3) by (auto simp: poll_is_def)
  have d: "decider_is ?w a x = decider_is w a x" for a x by (simp add: set_poll_def decider_is_def)
  have i: "iw_inbox ?w = ib" "iw_clock ?w = iw_clock w" "length (iw_polls ?w) = length (iw_polls w)"
    "pl_peer (iw_polls ?w ! q) = pl_peer (iw_polls w ! q)" for q
    by (simp_all add: set_poll_def nth_update_any)
  have t: "to_wake (pl_pc (iw_polls ?w ! q)) = (if q = p then Some c else to_wake (pl_pc (iw_polls w ! q)))" for q
    using p(1) by (simp add: set_poll_def nth_update_any)
  have k: "is_parked ib a = is_parked (iw_inbox w) a" for a by (simp add: is_parked_def key_at_def e)
  show ?thesis unfolding woken_inv_def
  proof (intro conjI allI impI)
    fix q x assume q: "q < length (iw_polls ?w)" and x: "to_wake (pl_pc (iw_polls ?w ! q)) = Some x \<and> \<not> ib_closed (iw_inbox ?w) ! x"
    show "x \<in> set (waiting_on (pl_peer (iw_polls ?w ! q)) (iw_inbox ?w)) \<or> (\<exists>a cs. decider_is ?w a (Waking cs) \<and> x \<in> set cs)"
    proof (cases "q = p")
      case True
      with x t p(2) show ?thesis unfolding i by (simp add: e)
    next
      case False
      have tq: "to_wake (pl_pc (iw_polls w ! q)) = Some x" "q < length (iw_polls w)" using x t False q i by simp_all
      then have "x < length (ib_closed (iw_inbox w))" using owned_invD(1) [OF assms(2)] to_wake_chan by blast
      with x have "\<not> ib_closed (iw_inbox w) ! x" unfolding i by (simp add: e nth_append)
      from woken_invD(1) [OF assms(1) tq(2,1) this] show ?thesis unfolding i d by (auto simp: e)
    qed
  next
    fix q fp' x u a
    assume *: "poll_is ?w q fp' (Blocked x u) \<and> x \<in> set (waiting_on fp' (iw_inbox ?w)) \<and> a < length (ib_cells (iw_inbox ?w)) \<and>
      is_parked (iw_inbox ?w) a \<and> pe_peer (entry_at (iw_inbox ?w) a) = fp' \<and> \<not> cell_taken (ib_cells (iw_inbox ?w) ! a) \<and>
      \<not> expired_at (iw_clock ?w) (entry_at (iw_inbox ?w) a)"
    then have b: "poll_is w q fp' (Blocked x u)"
      using p(1) by (auto simp: poll_is_def set_poll_def nth_update_any split: if_splits)
    then have "x < length (ib_closed (iw_inbox w))" using owned_invD(1) [OF assms(2), of q x] by (simp add: poll_is_def)
    with * have "x \<in> set (waiting_on fp' (iw_inbox w))" unfolding i by (auto simp: e split: if_splits)
    with * woken_invD(2) [OF assms(1) b, of a] show "decider_is ?w a Parked" unfolding i d by (auto simp: e k)
  qed
qed

lemma woken_blocks:
  assumes "woken_inv w" "poll_is w p fp (SecondLook c)" "look fp w = []"
  shows "woken_inv (set_poll p (Blocked c t) w)"
proof -
  have p: "p < length (iw_polls w)" "pl_peer (iw_polls w ! p) = fp" "to_wake (pl_pc (iw_polls w ! p)) = Some c"
    using assms(2) by (auto simp: poll_is_def)
  have t: "to_wake (pl_pc (iw_polls (set_poll p (Blocked c t) w) ! q)) = to_wake (pl_pc (iw_polls w ! q))" for q
    using p by (cases "q = p") (simp_all add: set_poll_def nth_update_any)
  have seen: "offered (iw_clock w) fp (iw_inbox w) = []" using assms(3) by (simp add: look_def pendingApprovals_def)
  show ?thesis unfolding woken_inv_def set_poll_sel(2-4) set_poll_rest t set_poll_is [OF p(1)] p(2)
    using woken_invD [OF assms(1)] seen [unfolded offered_empty] by (auto split: if_splits)
qed

lemma woken_abandoned:
  assumes "woken_inv w" "owned_inv w" "poll_is w p fp (Abandoning c found)"
  shows "woken_inv (set_poll p (Answered found) (on_inbox (abandon fp c) w))"
proof (rule woken_moved)
  have p: "p < length (iw_polls w)" "chan_at w p = Some c" "to_wake (pl_pc (iw_polls w ! p)) = None" using assms(3) by (auto simp: poll_is_def)
  let ?w = "on_inbox (abandon fp c) w"
  have d: "decider_is ?w a x = decider_is w a x" "poll_is ?w q fp' pc = poll_is w q fp' pc" "is_parked (iw_inbox ?w) a = is_parked (iw_inbox w) a"
    "iw_polls ?w = iw_polls w" "iw_clock ?w = iw_clock w" for a x q fp' pc
    by (simp_all add: on_inbox_def decider_is_def poll_is_def is_parked_def key_at_def)
  have i: "ib_cells (iw_inbox ?w) = ib_cells (iw_inbox w)" "ib_closed (iw_inbox ?w) = ib_closed (iw_inbox w)"
    "set (waiting_on fp' (iw_inbox ?w)) = set (waiting_on fp' (iw_inbox w)) - (if fp' = fp then {c} else {})" for fp'
    by (simp_all add: on_inbox_def waiting_on_abandon)
  have other: "x \<noteq> c" if "q < length (iw_polls w)" "to_wake (pl_pc (iw_polls w ! q)) = Some x" for q x
    using owned_invD(2) [OF assms(2) that(1) p(1), of x] to_wake_chan [OF that(2)] p(2,3) that(2) by auto
  show "woken_inv ?w"
  proof (rule woken_transfer [OF assms(1)])
    fix q x assume q: "q < length (iw_polls ?w)" "to_wake (pl_pc (iw_polls ?w ! q)) = Some x" "\<not> ib_closed (iw_inbox ?w) ! x"
    with other [of q x] show "q < length (iw_polls w) \<and> to_wake (pl_pc (iw_polls w ! q)) = Some x \<and> \<not> ib_closed (iw_inbox w) ! x \<and>
      (x \<in> set (waiting_on (pl_peer (iw_polls w ! q)) (iw_inbox w)) \<longrightarrow> x \<in> set (waiting_on (pl_peer (iw_polls ?w ! q)) (iw_inbox ?w)))"
      unfolding d i by auto
  qed (simp_all add: d i)
  show "p < length (iw_polls ?w)" using p(1) d by simp
qed simp

lemma woken_inv_step:
  assumes "inbox_step w w'" "map_inv w" "owned_inv w" "woken_inv w"
  shows "woken_inv w'"
  using assms(1)
proof cases
  case decider
  with woken_decider assms show ?thesis by blast
next
  case poll
  then show ?thesis
  proof cases
    case (polled fp d)
    show ?thesis
    proof (rule woken_transfer [OF assms(4)])
      fix q c assume "q < length (iw_polls w')" "to_wake (pl_pc (iw_polls w' ! q)) = Some c" "\<not> ib_closed (iw_inbox w') ! c"
      with polled show "q < length (iw_polls w) \<and> to_wake (pl_pc (iw_polls w ! q)) = Some c \<and> \<not> ib_closed (iw_inbox w) ! c \<and>
        (c \<in> set (waiting_on (pl_peer (iw_polls w ! q)) (iw_inbox w)) \<longrightarrow> c \<in> set (waiting_on (pl_peer (iw_polls w' ! q)) (iw_inbox w')))"
        by (cases "q < length (iw_polls w)") (auto simp: nth_append less_Suc_eq)
    next
      fix q fp' c t assume "poll_is w' q fp' (Blocked c t)" "c \<in> set (waiting_on fp' (iw_inbox w'))"
      with polled show "poll_is w q fp' (Blocked c t) \<and> c \<in> set (waiting_on fp' (iw_inbox w))"
        by (cases "q < length (iw_polls w)") (auto simp: poll_is_def nth_append less_Suc_eq)
    qed (use polled in \<open>simp_all add: decider_is_def\<close>)
  next
    case (registered p fp c ib)
    with woken_registered assms(3,4) show ?thesis by blast
  next
    case (blocks p fp c)
    with woken_blocks assms(4) show ?thesis by blast
  next
    case (abandons p fp c found)
    with woken_abandoned assms(3,4) show ?thesis by blast
  qed (use assms(4) in \<open>auto simp: poll_is_def intro!: woken_moved\<close>)
next
  case post
  note f = post_step_frame [OF post]
  have k: "is_parked (iw_inbox w') a = is_parked (iw_inbox w) a" for a by (simp add: is_parked_def key_at_def f)
  show ?thesis
    by (rule woken_transfer [OF assms(4)]) (use f(9) in \<open>auto simp: f(1-8) k decider_is_def poll_is_def\<close>)
next
  case (tick t)
  then show ?thesis
    by (intro woken_transfer [OF assms(4)]) (auto simp: decider_is_def poll_is_def dest: expired_later)
qed

lemma inbox_invariants:
  assumes "inbox_step\<^sup>*\<^sup>* inbox_start w"
  shows "map_inv w" "settled_inv w" "owned_inv w" "woken_inv w"
proof -
  have "map_inv w \<and> settled_inv w \<and> owned_inv w \<and> woken_inv w"
    using assms
  proof (induction rule: rtranclp_induct)
    case base
    show ?case
      by (simp add: inbox_start_def map_inv_def settled_inv_def owned_inv_def woken_inv_def decider_is_def poll_is_def waiting_on_def)
  next
    case (step w w')
    then show ?case using map_inv_step settled_inv_step owned_inv_step woken_inv_step by blast
  qed
  then show "map_inv w" "settled_inv w" "owned_inv w" "woken_inv w" by simp_all
qed

section \<open>Properties\<close>

text \<open>
  C12: No wake-up is lost. However parking, polling and answering interleave, while a poll is blocked on a channel
  that is not closed, a request that is parked for it and could be offered is one whose wake-up is still under
  way: it has been put and the waiters are about to be taken, or they were taken and the channel is about
  to be closed.
\<close>

theorem wakeup_not_lost:
  assumes "inbox_step\<^sup>*\<^sup>* inbox_start w" "poll_is w p fp (Blocked c t)" "\<not> ib_closed (iw_inbox w) ! c"
    and "a \<in> set (offered (iw_clock w) fp (iw_inbox w))"
  shows "decider_is w a Parked \<or> (\<exists>b cs. decider_is w b (Waking cs) \<and> c \<in> set cs)"
proof -
  note inv = inbox_invariants(4) [OF assms(1)]
  have p: "p < length (iw_polls w)" "pl_peer (iw_polls w ! p) = fp" "to_wake (pl_pc (iw_polls w ! p)) = Some c"
    using assms(2) by (simp_all add: poll_is_def)
  have a: "a < length (ib_cells (iw_inbox w))" "is_parked (iw_inbox w) a" "pe_peer (entry_at (iw_inbox w) a) = fp"
    "\<not> cell_taken (ib_cells (iw_inbox w) ! a)" "\<not> expired_at (iw_clock w) (entry_at (iw_inbox w) a)"
    using assms(4) by (auto simp: offered_def pendingFor_def)
  from woken_invD(1) [OF inv p(1,3) assms(3)] woken_invD(2) [OF inv assms(2) _ a] p(2) show ?thesis by blast
qed

text \<open>
  An entry is settled once. Whatever interleaving, at most one post is accepted for it; what its waiter returns
  with is the accepted answer; and from then on it is not offered to any poll.
\<close>

theorem entry_settles_once:
  assumes "inbox_step\<^sup>*\<^sup>* inbox_start w"
  shows "distinct (map fst (iw_accepted w)) \<and>
    (\<forall>a c. decider_is w a (Leaving (Some c)) \<or> decider_is w a (Left (Some c)) \<longrightarrow> (a, c) \<in> set (iw_accepted w)) \<and>
    (\<forall>now fp. set (offered now fp (iw_inbox w)) \<inter> fst ` set (iw_accepted w) = {})"
proof -
  note inv = inbox_invariants(2) [OF assms]
  have "cell_taken (ib_cells (iw_inbox w) ! a)" if "(a, c) \<in> set (iw_accepted w)" for a c
    using inv that by (auto simp: settled_inv_def)
  then have "\<forall>now fp. set (offered now fp (iw_inbox w)) \<inter> fst ` set (iw_accepted w) = {}" by (auto simp: offered_def)
  with inv show ?thesis unfolding settled_inv_def by blast
qed

text \<open>
  A push is held back only for somebody: every channel a request finds to wake belongs to a poll of that very
  peer that has not ended.
\<close>

theorem push_held_back_rightly:
  assumes "inbox_step\<^sup>*\<^sup>* inbox_start w" "c \<in> set (waiting_on fp (iw_inbox w))"
  shows "\<exists>p pc. poll_is w p fp pc \<and> chan pc = Some c"
  using owned_invD(3) [OF inbox_invariants(3) [OF assms(1)] assms(2)] by (auto simp: poll_is_def)

text \<open>A poll that waits, and a request that is parked meanwhile.\<close>

definition waiting_for :: parked_entry where
  "waiting_for = \<lparr>pe_peer = ''P'', pe_id = ''r'', pe_body = ''B'', pe_digest = [], pe_since = 0, pe_deadline = None,
     pe_payload = [], pe_wrap_sshsig = False, pe_endorsement = None\<rparr>"

definition sleeping :: inbox_world where
  "sleeping = inbox_start\<lparr>iw_polls := [\<lparr>pl_peer = ''P'', pl_wait = 5, pl_pc = Blocked 0 5\<rparr>],
     iw_inbox := \<lparr>ib_cells = [], ib_parked = Map.empty, ib_waiters = [''P'' \<mapsto> [0]], ib_closed = [False]\<rparr>\<rparr>"

definition put_for :: inbox_world where
  "put_for = set_decider 0 Parked (on_inbox (put_parked 0) (on_inbox (new_cell waiting_for) (sleeping\<lparr>iw_deciders := [Fresh]\<rparr>)))"

lemma sleeping_reachable: "inbox_step\<^sup>*\<^sup>* inbox_start sleeping"
proof -
  define w1 where "w1 = inbox_start\<lparr>iw_polls := [\<lparr>pl_peer = ''P'', pl_wait = 5, pl_pc = FirstLook\<rparr>]\<rparr>"
  have e: "look fp w1 = []" for fp by (simp add: w1_def look_def pendingApprovals_def offered_def pendingFor_def inbox_start_def)
  have 1: "inbox_step inbox_start w1"
    unfolding w1_def using polled [of inbox_start "''P''" 5] by (intro inbox_step.poll) (simp add: inbox_start_def)
  have 2: "inbox_step w1 (set_poll 0 Registering w1)"
    by (rule inbox_step.poll, rule stays [where fp = "''P''"]) (simp_all add: poll_is_def e, simp_all add: w1_def)
  let ?w2 = "set_poll 0 Registering w1"
  let ?ib = "\<lparr>ib_cells = [], ib_parked = Map.empty, ib_waiters = [''P'' \<mapsto> [0]], ib_closed = [False]\<rparr>"
  have 3: "inbox_step ?w2 (set_poll 0 (SecondLook 0) (?w2\<lparr>iw_inbox := ?ib\<rparr>))"
    by (rule inbox_step.poll, rule registered [where fp = "''P''"])
       (simp_all add: poll_is_def set_poll_def w1_def inbox_start_def waiter_def waiting_on_def)
  let ?w3 = "set_poll 0 (SecondLook 0) (?w2\<lparr>iw_inbox := ?ib\<rparr>)"
  have b: "set_poll 0 (Blocked 0 (iw_clock ?w3 + fetch_wait (pl_wait (iw_polls ?w3 ! 0)))) ?w3 = sleeping"
    by (simp add: sleeping_def set_poll_def w1_def inbox_start_def fetch_wait_def maxFetchWait_def)
  have "poll_step ?w3 (set_poll 0 (Blocked 0 (iw_clock ?w3 + fetch_wait (pl_wait (iw_polls ?w3 ! 0)))) ?w3)"
    by (rule blocks [where fp = "''P''"])
       (simp_all add: poll_is_def set_poll_def w1_def inbox_start_def look_def pendingApprovals_def offered_def pendingFor_def)
  then have 4: "inbox_step ?w3 sleeping" unfolding b by (rule inbox_step.poll)
  from 1 2 3 4 show ?thesis by (meson rtranclp.rtrancl_into_rtrancl rtranclp.rtrancl_refl)
qed

lemma put_for_reachable: "inbox_step\<^sup>*\<^sup>* inbox_start put_for"
proof -
  let ?w = "on_inbox (new_cell waiting_for) (sleeping\<lparr>iw_deciders := [Fresh]\<rparr>)"
  have "inbox_step sleeping ?w"
    using asked [of sleeping waiting_for] by (intro inbox_step.decider) (simp add: sleeping_def inbox_start_def)
  moreover have "inbox_step ?w put_for" unfolding put_for_def
    by (rule inbox_step.decider, rule parked) (simp add: decider_is_def on_inbox_def)
  ultimately show ?thesis using sleeping_reachable by (meson rtranclp.rtrancl_into_rtrancl)
qed

lemma put_for_sel:
  "poll_is put_for 0 ''P'' (Blocked 0 5)" "\<not> ib_closed (iw_inbox put_for) ! 0" "offered (iw_clock put_for) ''P'' (iw_inbox put_for) = [0]"
  "waiting_on ''P'' (iw_inbox put_for) = [0]"
  by (simp_all add: put_for_def world_ops inbox_ops sleeping_def poll_is_def waiting_on_def offered_def pendingFor_def is_parked_def
      key_at_def waiting_for_def expired_at_def)

theorem wakeup_not_lost_witness:
  "0 \<in> set (offered (iw_clock put_for) ''P'' (iw_inbox put_for)) \<and>
   (decider_is put_for 0 Parked \<or> (\<exists>b cs. decider_is put_for b (Waking cs) \<and> 0 \<in> set cs))"
  using wakeup_not_lost [OF put_for_reachable put_for_sel(1,2), of 0] put_for_sel(3) by simp

theorem entry_settles_once_witness: "distinct (map fst (iw_accepted put_for)) \<and> offered 0 ''P'' (iw_inbox put_for) \<noteq> []"
  using entry_settles_once [OF put_for_reachable] put_for_sel(3) by (simp add: put_for_def world_ops sleeping_def inbox_start_def)

theorem push_held_back_rightly_witness: "\<exists>p pc. poll_is put_for p ''P'' pc \<and> chan pc = Some 0"
  by (rule push_held_back_rightly [OF put_for_reachable]) (simp add: put_for_sel)

end
