(* ===== verification/Peer_Collect.thy ===== *)
theory Peer_Collect
  imports Peer_Inbox
begin

text \<open>
  Collecting requests and deciding them (\<^verbatim>\<open>src/pkg/peer/collect.go\<close>): what an approver remembers of the requests it took
  from an inbox, so that each is put to a person once and the same answer is delivered again when it did not arrive.
\<close>

section \<open>What has been done about a request\<close>

record given =
  gv_approval :: "signed_artifact option"
  gv_signature :: bytes

record handledRequest =
  hq_answer :: "given option"
  hq_delivered :: bool
  hq_delivering :: bool
  hq_until :: time

type_synonym handled = "string \<rightharpoonup> handledRequest"

definition forgetStale :: "time \<Rightarrow> handled \<Rightarrow> handled" where
  "forgetStale now h = (\<lambda>i. case h i of None \<Rightarrow> None | Some e \<Rightarrow> if hq_until e > now then Some e else None)"

definition claim :: "time \<Rightarrow> string \<Rightarrow> time \<Rightarrow> handled \<Rightarrow> bool \<times> handled" where
  "claim now i until h =
     (let h' = forgetStale now h
      in if h' i \<noteq> None then (False, h')
         else (True, h'(i \<mapsto> \<lparr>hq_answer = None, hq_delivered = False, hq_delivering = False, hq_until = until\<rparr>)))"

definition forget :: "string \<Rightarrow> handled \<Rightarrow> handled" where
  "forget i h = h(i := None)"

definition answerGiven :: "string \<Rightarrow> given \<Rightarrow> handled \<Rightarrow> handled" where
  "answerGiven i g h = (case h i of None \<Rightarrow> h | Some e \<Rightarrow> h(i \<mapsto> e\<lparr>hq_answer := Some g\<rparr>))"

definition answerDelivered :: "string \<Rightarrow> handled \<Rightarrow> handled" where
  "answerDelivered i h = (case h i of None \<Rightarrow> h | Some e \<Rightarrow> h(i \<mapsto> e\<lparr>hq_delivered := True, hq_delivering := False\<rparr>))"

definition answerToRedeliver :: "string \<Rightarrow> handled \<Rightarrow> given option \<times> handled" where
  "answerToRedeliver i h =
     (case h i of
        None \<Rightarrow> (None, h)
      | Some e \<Rightarrow>
          if hq_answer e = None \<or> hq_delivered e \<or> hq_delivering e then (None, h)
          else (hq_answer e, h(i \<mapsto> e\<lparr>hq_delivering := True\<rparr>)))"

definition redeliveryDone :: "string \<Rightarrow> handled \<Rightarrow> handled" where
  "redeliveryDone i h = (case h i of None \<Rightarrow> h | Some e \<Rightarrow> h(i \<mapsto> e\<lparr>hq_delivering := False\<rparr>))"

definition maxCollectedTimeout :: duration where "maxCollectedTimeout = hour"

definition collectedTimeout :: "PendingApproval \<Rightarrow> duration" where
  "collectedTimeout item =
     (let remaining = (case pa_expires_in item of None \<Rightarrow> 0 | Some d \<Rightarrow> d)
      in if remaining \<le> 0 \<or> remaining > maxCollectedTimeout then maxCollectedTimeout else remaining)"

section \<open>Deciding what was collected\<close>

datatype collect_error =
    CollectedEmpty
  | CollectedUnparsed string
  | CollectedOther
  | CollectedPairing
  | CollectedSign rpc_error
  | CollectedDecide submit_error

definition collected_requester :: "trust_record \<Rightarrow> approval_request \<Rightarrow> requester_info" where
  "collected_requester record msg = \<lparr>ri_instance_id = tr_fingerprint record, ri_name = tr_name record, ri_local = False,
     ri_headless = getf ri_headless False (ar_requester msg), ri_remote_address = [], ri_process = requester_process msg\<rparr>"

definition decideFor ::
    "'raw node_env \<Rightarrow> trust_record \<Rightarrow> PendingApproval \<Rightarrow> event list \<Rightarrow> presented_project option \<Rightarrow> (collect_error + given) option nd" where
  "decideFor V record item evs shown =
     (let body = pa_request item
      in if body = [] then State_Monad.return (Some (Inl CollectedEmpty))
         else (case pc_unmarshal (nv_request V) body of
                 Inl e \<Rightarrow> State_Monad.return (Some (Inl (CollectedUnparsed e)))
               | Inr msg \<Rightarrow>
                   if ar_request_id msg \<noteq> pa_request_id item then State_Monad.return (Some (Inl CollectedOther))
                   else if ar_kind msg = REQUEST_KIND_PAIRING then State_Monad.return (Some (Inl CollectedPairing))
                   else if pa_payload item \<noteq> []
                   then do {
                     acceptPresented V (tr_fingerprint record) (pa_endorsement item);
                     r \<leftarrow> signForPeer V record (collected_requester record msg) msg body (pa_payload item) (pa_wrap_sshsig item) evs shown;
                     State_Monad.return (map_option (map_sum CollectedSign
                       (\<lambda>(artifact, signature). \<lparr>gv_approval = artifact, gv_signature = signature\<rparr>)) r)
                   }
                   else do {
                     r \<leftarrow> in_engine (SubmitPeer (nv_env V) (Some (msg\<lparr>ar_requester := Some (collected_requester record msg)\<rparr>))
                            (Some body) evs shown);
                     State_Monad.return (map_option (map_sum CollectedDecide
                       (\<lambda>(resp, artifact). \<lparr>gv_approval = artifact, gv_signature = []\<rparr>)) r)
                   }))"

section \<open>Rounds\<close>

text \<open>What the handling of a poll's answer starts.\<close>

datatype collect_job =
    DecideCollected trust_record PendingApproval
  | Redeliver trust_record string given

text \<open>The clock is read for the deadline and, under the lock, for what has gone stale.\<close>

definition handle_item ::
    "trust_record \<Rightarrow> PendingApproval \<Rightarrow> (Node \<times> handled, bool \<times> collect_job list) state" where
  "handle_item record item = do {
     t \<leftarrow> at_node now_n;
     now \<leftarrow> at_node now_n;
     mine \<leftarrow> over_net (State (claim now (pa_request_id item) (t + collectedTimeout item)));
     if mine then State_Monad.return (False, [DecideCollected record item])
     else do {
       answer \<leftarrow> over_net (State (answerToRedeliver (pa_request_id item)));
       State_Monad.return (True, case answer of None \<Rightarrow> [] | Some g \<Rightarrow> [Redeliver record (pa_request_id item) g])
     }
   }"

fun handleCollected :: "trust_record \<Rightarrow> PendingApproval list \<Rightarrow> (Node \<times> handled, bool \<times> collect_job list) state" where
  "handleCollected record [] = State_Monad.return (False, [])"
| "handleCollected record (item # rest) = do {
     (held, jobs) \<leftarrow> handle_item record item;
     (held', jobs') \<leftarrow> handleCollected record rest;
     State_Monad.return (held \<or> held', jobs @ jobs')
   }"

section \<open>Goroutines over what is remembered\<close>

text \<open>
  A decision is being made for a peer, its answer posted, or one that was given before posted again.
  The log keeps what a person was asked with the deadline, what failed before anybody was asked,
  what was decided, and what was posted to whom.
\<close>

datatype collecting =
    Deciding string string
  | Posting string string given
  | Redelivering string string given

datatype collect_event =
    Asked string time
  | Failed string
  | Decided string given
  | Posted string string given

record collector =
  co_clock :: time
  co_handled :: handled
  co_jobs :: "collecting list"
  co_log :: "collect_event list"

inductive collect_step :: "collector \<Rightarrow> collector \<Rightarrow> bool" where
  claimed: "claim (co_clock w) i until (co_handled w) = (True, h) \<Longrightarrow>
    collect_step w (w\<lparr>co_handled := h, co_jobs := co_jobs w @ [Deciding fp i], co_log := co_log w @ [Asked i until]\<rparr>)"
| known: "claim (co_clock w) i until (co_handled w) = (False, h) \<Longrightarrow> answerToRedeliver i h = (None, h') \<Longrightarrow>
    collect_step w (w\<lparr>co_handled := h'\<rparr>)"
| again: "claim (co_clock w) i until (co_handled w) = (False, h) \<Longrightarrow> answerToRedeliver i h = (Some g, h') \<Longrightarrow>
    collect_step w (w\<lparr>co_handled := h', co_jobs := co_jobs w @ [Redelivering fp i g]\<rparr>)"
| failed: "co_jobs w = xs @ Deciding fp i # ys \<Longrightarrow>
    collect_step w (w\<lparr>co_handled := forget i (co_handled w), co_jobs := xs @ ys, co_log := co_log w @ [Failed i]\<rparr>)"
| decided: "co_jobs w = xs @ Deciding fp i # ys \<Longrightarrow>
    collect_step w (w\<lparr>co_handled := answerGiven i g (co_handled w), co_jobs := xs @ Posting fp i g # ys, co_log := co_log w @ [Decided i g]\<rparr>)"
| posted: "co_jobs w = xs @ Posting fp i g # ys \<Longrightarrow> h = (if ok then answerDelivered i (co_handled w) else co_handled w) \<Longrightarrow>
    collect_step w (w\<lparr>co_handled := h, co_jobs := xs @ ys, co_log := co_log w @ [Posted fp i g]\<rparr>)"
| reposted: "co_jobs w = xs @ Redelivering fp i g # ys \<Longrightarrow>
    h = redeliveryDone i (if ok then answerDelivered i (co_handled w) else co_handled w) \<Longrightarrow>
    collect_step w (w\<lparr>co_handled := h, co_jobs := xs @ ys, co_log := co_log w @ [Posted fp i g]\<rparr>)"
| passes: "co_clock w \<le> t \<Longrightarrow> collect_step w (w\<lparr>co_clock := t\<rparr>)"

definition collect_start :: collector where
  "collect_start = \<lparr>co_clock = 0, co_handled = Map.empty, co_jobs = [], co_log = []\<rparr>"

section \<open>One request, one question\<close>

text \<open>What is in hand and in the log of a request, by what is remembered of it.\<close>

definition jobs_of :: "string \<Rightarrow> collecting list \<Rightarrow> collecting list" where
  "jobs_of i = filter (\<lambda>j. case j of Deciding _ k \<Rightarrow> k = i | Posting _ k _ \<Rightarrow> k = i | Redelivering _ k _ \<Rightarrow> k = i)"

definition log_of :: "string \<Rightarrow> collect_event list \<Rightarrow> collect_event list" where
  "log_of i = filter (\<lambda>e. case e of Asked k _ \<Rightarrow> k = i | Failed k \<Rightarrow> k = i | Decided k _ \<Rightarrow> k = i | Posted _ k _ \<Rightarrow> k = i)"

fun is_asked :: "collect_event \<Rightarrow> bool" where "is_asked (Asked i t) = True" | "is_asked e = False"
fun is_failed :: "collect_event \<Rightarrow> bool" where "is_failed (Failed i) = True" | "is_failed e = False"
fun is_deciding :: "collecting \<Rightarrow> bool" where "is_deciding (Deciding fp i) = True" | "is_deciding j = False"

fun answer_of_event :: "collect_event \<Rightarrow> given list" where
  "answer_of_event (Decided i g) = [g]" | "answer_of_event (Posted fp i g) = [g]" | "answer_of_event e = []"

fun answer_of_job :: "collecting \<Rightarrow> given list" where
  "answer_of_job (Posting fp i g) = [g]" | "answer_of_job (Redelivering fp i g) = [g]" | "answer_of_job j = []"

definition answers_to :: "string \<Rightarrow> collector \<Rightarrow> given set" where
  "answers_to i w = set (concat (map answer_of_job (jobs_of i (co_jobs w)))) \<union> set (concat (map answer_of_event (log_of i (co_log w))))"

definition asked_count :: "string \<Rightarrow> collector \<Rightarrow> nat" where
  "asked_count i w = length (filter is_asked (log_of i (co_log w)))"

definition failed_count :: "string \<Rightarrow> collector \<Rightarrow> nat" where
  "failed_count i w = length (filter is_failed (log_of i (co_log w)))"

definition deciding_count :: "string \<Rightarrow> collector \<Rightarrow> nat" where
  "deciding_count i w = length (filter is_deciding (jobs_of i (co_jobs w)))"

definition request_inv :: "string \<Rightarrow> collector \<Rightarrow> bool" where
  "request_inv i w \<longleftrightarrow>
     (case co_handled w i of
        None \<Rightarrow> deciding_count i w = 0 \<and> asked_count i w = failed_count i w \<and> answers_to i w = {}
      | Some e \<Rightarrow> asked_count i w = failed_count i w + 1 \<and> (\<exists>t. Asked i t \<in> set (co_log w) \<and> t = hq_until e) \<and>
          (case hq_answer e of
             None \<Rightarrow> deciding_count i w = 1 \<and> answers_to i w = {}
           | Some g \<Rightarrow> deciding_count i w = 0 \<and> answers_to i w = {g}))"

lemma jobs_of_simps [simp]: "jobs_of i (xs @ ys) = jobs_of i xs @ jobs_of i ys" "jobs_of i [] = []"
  "jobs_of i (Deciding fp k # xs) = (if k = i then [Deciding fp k] else []) @ jobs_of i xs"
  "jobs_of i (Posting fp k g # xs) = (if k = i then [Posting fp k g] else []) @ jobs_of i xs"
  "jobs_of i (Redelivering fp k g # xs) = (if k = i then [Redelivering fp k g] else []) @ jobs_of i xs"
  by (simp_all add: jobs_of_def)

lemma log_of_simps [simp]: "log_of i (xs @ ys) = log_of i xs @ log_of i ys" "log_of i [] = []"
  "log_of i [Asked k t] = (if k = i then [Asked k t] else [])" "log_of i [Failed k] = (if k = i then [Failed k] else [])"
  "log_of i [Decided k g] = (if k = i then [Decided k g] else [])" "log_of i [Posted fp k g] = (if k = i then [Posted fp k g] else [])"
  by (simp_all add: log_of_def)

lemmas counts = asked_count_def failed_count_def deciding_count_def answers_to_def

definition in_time :: "collector \<Rightarrow> bool" where
  "in_time w \<longleftrightarrow> (\<forall>i t. Asked i t \<in> set (co_log w) \<longrightarrow> co_clock w < t)"

lemma collect_step_grows:
  assumes "collect_step w w'"
  shows "set (co_log w) \<subseteq> set (co_log w')" "co_clock w \<le> co_clock w'"
  using assms by (auto elim!: collect_step.cases)

lemma in_time_before: "collect_step w w' \<Longrightarrow> in_time w' \<Longrightarrow> in_time w"
  using collect_step_grows unfolding in_time_def by (meson le_less_trans subsetD)

lemma request_invD:
  assumes "request_inv i w"
  shows "deciding_count i w > 0 \<Longrightarrow> \<exists>e. co_handled w i = Some e \<and> hq_answer e = None"
    "g \<in> answers_to i w \<Longrightarrow> \<exists>e. co_handled w i = Some e \<and> hq_answer e = Some g"
    "co_handled w i = Some e \<Longrightarrow> Asked i (hq_until e) \<in> set (co_log w)"
  using assms by (auto simp: request_inv_def split: option.splits)

lemma nothing_stale:
  assumes "\<forall>i. request_inv i w" "in_time w"
  shows "forgetStale (co_clock w) (co_handled w) = co_handled w"
proof
  fix i
  have "hq_until e > co_clock w" if "co_handled w i = Some e" for e
    using request_invD(3) [of i w e] assms that by (auto simp: in_time_def)
  then show "forgetStale (co_clock w) (co_handled w) i = co_handled w i"
    by (simp add: forgetStale_def split: option.split)
qed

lemma request_inv_step:
  assumes "collect_step w w'" "\<forall>i. request_inv i w" "in_time w"
  shows "request_inv k w'"
proof -
  note stale = nothing_stale [OF assms(2,3)]
  have k: "request_inv k w" using assms(2) by blast
  from assms(1) show ?thesis
  proof cases
    case (claimed i until h fp)
    from claimed(2) stale have h: "h = (co_handled w)(i \<mapsto> \<lparr>hq_answer = None, hq_delivered = False, hq_delivering = False, hq_until = until\<rparr>)"
      "co_handled w i = None" by (auto simp: claim_def Let_def split: if_splits)
    with k claimed(1) show ?thesis by (cases "k = i") (auto simp: request_inv_def counts split: option.splits)
  next
    case (known i until h h')
    then have "h = co_handled w" "h' = h" using stale by (auto simp: claim_def answerToRedeliver_def Let_def split: if_splits option.splits)
    with k known(1) show ?thesis by simp
  next
    case (again i until h g h' fp)
    from again(2,3) stale obtain e where e: "co_handled w i = Some e" "hq_answer e = Some g" "h' = (co_handled w)(i \<mapsto> e\<lparr>hq_delivering := True\<rparr>)"
      by (auto simp: claim_def answerToRedeliver_def Let_def split: if_splits option.splits)
    with k again(1) show ?thesis by (cases "k = i") (auto simp: request_inv_def counts split: option.splits)
  next
    case (failed xs fp i ys)
    have "deciding_count i w > 0" using failed(2) by (simp add: counts)
    with request_invD(1) assms(2) obtain e where "co_handled w i = Some e" "hq_answer e = None" by blast
    with k failed show ?thesis
      by (cases "k = i") (auto simp: request_inv_def counts forget_def split: option.splits)
  next
    case (decided xs fp i ys g)
    have "deciding_count i w > 0" using decided(2) by (simp add: counts)
    with request_invD(1) assms(2) obtain e where "co_handled w i = Some e" "hq_answer e = None" by blast
    with k decided show ?thesis
      by (cases "k = i") (auto simp: request_inv_def counts answerGiven_def split: option.splits)
  next
    case (posted xs fp i g ys h ok)
    have "g \<in> answers_to i w" using posted(2) by (simp add: counts)
    with request_invD(2) assms(2) obtain e where "co_handled w i = Some e" "hq_answer e = Some g" by blast
    with k posted show ?thesis
      by (cases "k = i") (auto simp: request_inv_def counts answerDelivered_def split: option.splits)
  next
    case (reposted xs fp i g ys h ok)
    have "g \<in> answers_to i w" using reposted(2) by (simp add: counts)
    with request_invD(2) assms(2) obtain e where "co_handled w i = Some e" "hq_answer e = Some g" by blast
    with k reposted show ?thesis
      by (cases "k = i") (auto simp: request_inv_def counts answerDelivered_def redeliveryDone_def split: option.splits)
  next
    case (passes t)
    with k show ?thesis by (auto simp: request_inv_def counts split: option.splits)
  qed
qed

lemma request_inv_run:
  assumes "collect_step\<^sup>*\<^sup>* collect_start w" "in_time w"
  shows "request_inv i w"
proof -
  have "in_time w \<longrightarrow> (\<forall>i. request_inv i w)" using assms(1)
  proof (induction rule: rtranclp_induct)
    case base
    show ?case by (simp add: request_inv_def collect_start_def counts)
  next
    case (step w w')
    then show ?case using in_time_before request_inv_step by blast
  qed
  with assms(2) show ?thesis by blast
qed

section \<open>Properties\<close>


text \<open>A round handles each item in one of the three ways of the step relation.\<close>

lemma handle_item_steps:
  assumes "run_state (handle_item record item) (n, co_handled w) = ((held, jobs), (n', h))"
    and "co_clock w = e_clock (nd_engine n) 1"
  shows "jobs = [DecideCollected record item] \<and> \<not> held \<and> collect_step w (w\<lparr>co_handled := h,
      co_jobs := co_jobs w @ [Deciding (tr_fingerprint record) (pa_request_id item)],
      co_log := co_log w @ [Asked (pa_request_id item) (e_clock (nd_engine n) 0 + collectedTimeout item)]\<rparr>) \<or>
    held \<and> (jobs = [] \<and> collect_step w (w\<lparr>co_handled := h\<rparr>) \<or>
      (\<exists>g. jobs = [Redeliver record (pa_request_id item) g] \<and> collect_step w (w\<lparr>co_handled := h,
        co_jobs := co_jobs w @ [Redelivering (tr_fingerprint record) (pa_request_id item) g]\<rparr>)))"
proof -
  let ?until = "e_clock (nd_engine n) 0 + collectedTimeout item"
  obtain mine h1 where c: "claim (co_clock w) (pa_request_id item) ?until (co_handled w) = (mine, h1)" by fastforce
  show ?thesis
  proof (cases mine)
    case True
    with assms c have "jobs = [DecideCollected record item]" "\<not> held" "h = h1" by (auto simp: handle_item_def ticked_def rest_of_def)
    with True claimed [of w "pa_request_id item" ?until h1 "tr_fingerprint record"] c show ?thesis by simp
  next
    case False
    obtain answer h2 where a: "answerToRedeliver (pa_request_id item) h1 = (answer, h2)" by fastforce
    with assms c False have "held" "h = h2" "jobs = (case answer of None \<Rightarrow> [] | Some g \<Rightarrow> [Redeliver record (pa_request_id item) g])"
      by (auto simp: handle_item_def ticked_def rest_of_def)
    with False c a known [of w "pa_request_id item" ?until h1 h2] again [of w "pa_request_id item" ?until h1 _ h2 "tr_fingerprint record"]
    show ?thesis by (cases answer) auto
  qed
qed


text \<open>An approver that collects one request, and the requester it waits at.\<close>

definition parked_yes :: parked_entry where
  "parked_yes = waiting_for\<lparr>pe_peer := ''SHA256:K'', pe_id := ''r1'', pe_digest := Digest toy_lib ''B''\<rparr>"

definition inbox_yes :: inbox where
  "inbox_yes = put_parked 0 (new_cell parked_yes \<lparr>ib_cells = [], ib_parked = Map.empty, ib_waiters = Map.empty, ib_closed = []\<rparr>)"

definition approver_K :: trust_record where
  "approver_K = empty_record\<lparr>tr_fingerprint := ''SHA256:K'', tr_name := ''phone'', tr_identity_public_key := ''K'', tr_may_approve := True\<rparr>"

definition caller_K :: peer_identity where
  "caller_K = \<lparr>pi_fingerprint = ''SHA256:K'', pi_remote_addr = [], pi_tunnelled = False\<rparr>"

lemma decide_yes:
  "\<exists>a m'. run_state (decideFor both_ends asked_record (pending_of now parked_yes) [] None) yes_node =
     (Some (Inr \<lparr>gv_approval = Some a, gv_signature = []\<rparr>), m')"
proof -
  have rq: "collected_requester asked_record demo_request = peer_requester caller_F asked_record demo_request"
    by (simp add: collected_requester_def peer_requester_def asked_record_def caller_F_def)
  have rr: "rule_response (nv_env both_ends) toy_identity open_policy asked_msg ''B'' 5 = yes_response"
    by (simp add: yes_response_def rule_response_def both_ends_def)
  obtain a where a: "SignApproval toy_lib (only_codec yes_response) toy_identity (Some yes_response) = Inr a"
    using toy_signs(1) by blast
  have ids: "ar_request_id asked_msg \<noteq> []" "ar_created_at asked_msg \<noteq> None" by (simp_all add: asked_msg_def demo_request_def)
  obtain e' where s: "run_state (SubmitPeer (nv_env both_ends) (Some asked_msg) (Some ''B'') [] None) (nd_engine yes_node) =
      (Some (Inr (yes_response, Some a)), e')"
    using submit_rule_response [where X = "nv_env both_ends" and e = "nd_engine yes_node" and origin = OriginPeer and msg = asked_msg
        and t = 5 and body = "''B''" and a = a and evs = "[]" and shown = None]
      yes_settles ids both_ends_env yes_engine rr a unfolding SubmitPeer_def by auto
  have p: "pa_request (pending_of now parked_yes) = ''B''" "pa_payload (pending_of now parked_yes) = []"
    "pa_request_id (pending_of now parked_yes) = ''r1''"
    by (simp_all add: pending_of_def parked_yes_def waiting_for_def)
  have m: "ar_request_id demo_request = ''r1''" "ar_kind demo_request \<noteq> REQUEST_KIND_PAIRING" by (simp_all add: demo_request_def)
  show ?thesis using s by (simp add: decideFor_def p m both_ends_env rq asked_msg_def [symmetric] Let_def)
qed


definition told_once :: collector where
  "told_once = collect_start\<lparr>co_handled := [''r'' \<mapsto> \<lparr>hq_answer = None, hq_delivered = False, hq_delivering = False, hq_until = 5\<rparr>],
     co_jobs := [Deciding ''B'' ''r''], co_log := [Asked ''r'' 5]\<rparr>"

lemma told_once_reachable: "collect_step\<^sup>*\<^sup>* collect_start told_once"
proof -
  have "claim (co_clock collect_start) ''r'' 5 (co_handled collect_start) = (True, co_handled told_once)"
    by (simp add: claim_def forgetStale_def collect_start_def told_once_def Let_def)
  from claimed [OF this, of "''B''"] show ?thesis by (simp add: told_once_def collect_start_def r_into_rtranclp)
qed


text \<open>
  What is remembered goes by the identifier of the request alone, which the requester chooses. A peer that offers a
  request under an identifier another peer's request has is sent the answer to that one, and its own request is
  never put to anybody.
\<close>

lemma answer_to_another_peer:
  "\<exists>w. collect_step\<^sup>*\<^sup>* told_once w \<and> co_log w = [Asked ''r'' 5, Decided ''r'' g, Posted ''B'' ''r'' g, Posted ''A'' ''r'' g]"
proof -
  let ?e = "\<lparr>hq_answer = Some g, hq_delivered = False, hq_delivering = False, hq_until = 5\<rparr>"
  let ?w1 = "told_once\<lparr>co_handled := [''r'' \<mapsto> ?e], co_jobs := [Posting ''B'' ''r'' g], co_log := [Asked ''r'' 5, Decided ''r'' g]\<rparr>"
  let ?w2 = "?w1\<lparr>co_jobs := [], co_log := [Asked ''r'' 5, Decided ''r'' g, Posted ''B'' ''r'' g]\<rparr>"
  let ?w3 = "?w2\<lparr>co_handled := [''r'' \<mapsto> ?e\<lparr>hq_delivering := True\<rparr>], co_jobs := [Redelivering ''A'' ''r'' g]\<rparr>"
  let ?w4 = "?w3\<lparr>co_handled := [''r'' \<mapsto> ?e\<lparr>hq_delivered := True\<rparr>], co_jobs := [],
      co_log := [Asked ''r'' 5, Decided ''r'' g, Posted ''B'' ''r'' g, Posted ''A'' ''r'' g]\<rparr>"
  have 1: "collect_step told_once ?w1"
    using decided [of told_once "[]" "''B''" "''r''" "[]" g] by (simp add: told_once_def collect_start_def answerGiven_def)
  have 2: "collect_step ?w1 ?w2" using posted [of ?w1 "[]" "''B''" "''r''" g "[]" "co_handled ?w1" False] by simp
  have "claim (co_clock ?w2) ''r'' 9 (co_handled ?w2) = (False, [''r'' \<mapsto> ?e])"
    by (auto simp: claim_def forgetStale_def Let_def told_once_def collect_start_def)
  moreover have "answerToRedeliver ''r'' [''r'' \<mapsto> ?e] = (Some g, [''r'' \<mapsto> ?e\<lparr>hq_delivering := True\<rparr>])"
    by (simp add: answerToRedeliver_def)
  ultimately have 3: "collect_step ?w2 ?w3"
    using again [of ?w2 "''r''" 9 "[''r'' \<mapsto> ?e]" g "[''r'' \<mapsto> ?e\<lparr>hq_delivering := True\<rparr>]" "''A''"] by simp
  have 4: "collect_step ?w3 ?w4"
    using reposted [of ?w3 "[]" "''A''" "''r''" g "[]" "[''r'' \<mapsto> ?e\<lparr>hq_delivered := True\<rparr>]" True]
    by (simp add: answerDelivered_def redeliveryDone_def)
  have "collect_step\<^sup>*\<^sup>* told_once ?w4" using 1 2 3 4 by (meson rtranclp.rtrancl_into_rtrancl rtranclp.rtrancl_refl)
  then show ?thesis by (intro exI [of _ ?w4]) simp
qed

end
