(* ===== verification/Relay_Rule.thy ===== *)
theory Relay_Rule
  imports Codec
begin

text \<open>
  Where an instance is willing to connect because a peer said so (\<^verbatim>\<open>src/pkg/peer/wakeup.go\<close>): the relay a peer asks to be woken
  through, and the relays its tunnel address names.

  Parsing a URL, reading JSON and reading an address are arguments, as the library answers them; what is asked of an address
  once it is read (\<^verbatim>\<open>net/netip\<close>) is written out on its bits.
\<close>

section \<open>Addresses\<close>

datatype netaddr = V4 "32 word" | V6 "128 word" string

definition v4_byte :: "nat \<Rightarrow> 32 word \<Rightarrow> nat" where
  "v4_byte i a = unat (drop_bit (8 * (3 - i)) a) mod 256"

definition v6_byte :: "nat \<Rightarrow> 128 word \<Rightarrow> nat" where
  "v6_byte i a = unat (drop_bit (8 * (15 - i)) a) mod 256"

definition Unmap :: "netaddr \<Rightarrow> netaddr" where
  "Unmap a = (case a of
     V4 x \<Rightarrow> a
   | V6 x zone \<Rightarrow> if unat (drop_bit 32 x) = 0xffff then V4 (ucast x) else a)"

definition IsPrivate :: "netaddr \<Rightarrow> bool" where
  "IsPrivate a = (case Unmap a of
     V4 x \<Rightarrow> v4_byte 0 x = 10 \<or> v4_byte 0 x = 172 \<and> v4_byte 1 x div 16 = 1 \<or> v4_byte 0 x = 192 \<and> v4_byte 1 x = 168
   | V6 x zone \<Rightarrow> v6_byte 0 x div 2 = 0x7e)"

definition IsLoopback :: "netaddr \<Rightarrow> bool" where
  "IsLoopback a = (case Unmap a of V4 x \<Rightarrow> v4_byte 0 x = 127 | V6 x zone \<Rightarrow> x = 1)"

definition IsLinkLocalUnicast :: "netaddr \<Rightarrow> bool" where
  "IsLinkLocalUnicast a = (case Unmap a of
     V4 x \<Rightarrow> v4_byte 0 x = 169 \<and> v4_byte 1 x = 254
   | V6 x zone \<Rightarrow> v6_byte 0 x = 0xfe \<and> v6_byte 1 x div 64 = 2)"

definition IsMulticast :: "netaddr \<Rightarrow> bool" where
  "IsMulticast a = (case Unmap a of V4 x \<Rightarrow> v4_byte 0 x div 16 = 14 | V6 x zone \<Rightarrow> v6_byte 0 x = 0xff)"

definition IsLinkLocalMulticast :: "netaddr \<Rightarrow> bool" where
  "IsLinkLocalMulticast a = (case Unmap a of
     V4 x \<Rightarrow> v4_byte 0 x = 224 \<and> v4_byte 1 x = 0 \<and> v4_byte 2 x = 0
   | V6 x zone \<Rightarrow> v6_byte 0 x = 0xff \<and> v6_byte 1 x mod 16 = 2)"

definition IsInterfaceLocalMulticast :: "netaddr \<Rightarrow> bool" where
  "IsInterfaceLocalMulticast a = (case a of
     V4 x \<Rightarrow> False
   | V6 x zone \<Rightarrow> unat (drop_bit 32 x) \<noteq> 0xffff \<and> v6_byte 0 x = 0xff \<and> v6_byte 1 x mod 16 = 1)"

text \<open>The address is compared with the two unspecified ones, the zone included.\<close>

definition IsUnspecified :: "netaddr \<Rightarrow> bool" where
  "IsUnspecified a \<longleftrightarrow> a = V4 0 \<or> a = V6 0 []"

text \<open>The two prefixes of a tailnet. An address with a zone is in no prefix.\<close>

definition in_tailnet_ranges :: "netaddr \<Rightarrow> bool" where
  "in_tailnet_ranges a = (case a of
     V4 x \<Rightarrow> v4_byte 0 x = 100 \<and> v4_byte 1 x div 64 = 1
   | V6 x zone \<Rightarrow> zone = [] \<and> unat (drop_bit 80 x) = 0xfd7a115ca1e0)"

section \<open>What a peer may name\<close>

record url =
  ul_scheme :: string
  ul_host :: string
  ul_hostname :: string

record relayNode =
  rn_host :: string
  rn_ipv4 :: string
  rn_ipv6 :: string
  rn_derp_port :: int
  rn_stun_port :: int
  rn_cert_name :: string
  rn_insecure :: bool

record relayRegion =
  rr_id :: int
  rr_nodes :: "relayNode list"

record net_lib =
  nl_url :: "string \<Rightarrow> string + url"
  nl_addr :: "string \<Rightarrow> netaddr option"
  nl_show :: "netaddr \<Rightarrow> string"
  nl_lower :: "string \<Rightarrow> string"
  nl_fold :: "string \<Rightarrow> string \<Rightarrow> bool"
  nl_regions :: "string \<Rightarrow> string + relayRegion list"

datatype relay_refusal =
    UrlUnparsed string | UrlNoHost | UrlNotAllowed
  | RegionsUnread string | RelayNoHost | RelayInsecure | RelayCertName | RelayPort int | StunPort int
  | RelayNotPublic string | RelayNameAlone | RelayAddressUnread string | RelayNoAddress
  | RelayOnThisMachine | RelayNotPublicName string | RelayOnTailnet

definition has_suffix :: "string \<Rightarrow> string \<Rightarrow> bool" where
  "has_suffix s t \<longleftrightarrow> length t \<le> length s \<and> drop (length s - length t) s = t"

definition isLoopback :: "string \<Rightarrow> bool" where
  "isLoopback host \<longleftrightarrow> host = ''localhost'' \<or> host = ''127.0.0.1'' \<or> host = ''::1''"

definition isTailnet :: "net_lib \<Rightarrow> string \<Rightarrow> bool" where
  "isTailnet N host \<longleftrightarrow> has_suffix host ''.ts.net'' \<or>
     (case nl_addr N host of None \<Rightarrow> False | Some a \<Rightarrow> in_tailnet_ranges a)"

definition checkRelayURL :: "net_lib \<Rightarrow> string \<Rightarrow> relay_refusal option" where
  "checkRelayURL N raw =
     (case nl_url N raw of
        Inl e \<Rightarrow> Some (UrlUnparsed e)
      | Inr u \<Rightarrow>
          if ul_host u = [] then Some UrlNoHost
          else if ul_scheme u = ''https'' then None
          else if ul_scheme u = ''http'' \<and> (isLoopback (ul_hostname u) \<or> isTailnet N (ul_hostname u)) then None
          else Some UrlNotAllowed)"

definition publicRelayAddress :: "net_lib \<Rightarrow> netaddr \<Rightarrow> bool" where
  "publicRelayAddress N addr =
     (let a = Unmap addr
      in \<not> IsPrivate a \<and> \<not> IsLoopback a \<and> \<not> IsLinkLocalUnicast a \<and> \<not> IsLinkLocalMulticast a \<and>
         \<not> IsInterfaceLocalMulticast a \<and> \<not> IsMulticast a \<and> \<not> IsUnspecified a \<and> \<not> isTailnet N (nl_show N a))"

definition trim_dot :: "string \<Rightarrow> string" where
  "trim_dot s = (if has_suffix s ''.'' then butlast s else s)"

definition this_machine :: "string \<Rightarrow> bool" where
  "this_machine name \<longleftrightarrow> name = ''localhost'' \<or> has_suffix name ''.localhost''"

definition this_network :: "string \<Rightarrow> bool" where
  "this_network name \<longleftrightarrow> CHR ''.'' \<notin> set name \<or> has_suffix name ''.local'' \<or> has_suffix name ''.internal'' \<or>
     has_suffix name ''.lan'' \<or> has_suffix name ''.home.arpa''"

definition checkRelayHostName :: "net_lib \<Rightarrow> string \<Rightarrow> relay_refusal option" where
  "checkRelayHostName N host =
     (let name = nl_lower N (trim_dot host)
      in if this_machine name then Some RelayOnThisMachine
         else if this_network name then Some (RelayNotPublicName host)
         else if isTailnet N name then Some RelayOnTailnet
         else None)"

definition no_family :: string where "no_family = ''none''"

text \<open>One of the two addresses beside a host: refused, or passed with whether it was a literal.\<close>

definition check_given :: "net_lib \<Rightarrow> bool \<Rightarrow> string \<Rightarrow> relay_refusal + nat" where
  "check_given N host_is_name given =
     (if given = no_family then Inr 0
      else if given = [] then (if host_is_name then Inl RelayNameAlone else Inr 0)
      else case nl_addr N given of
          None \<Rightarrow> Inl (RelayAddressUnread given)
        | Some a \<Rightarrow> if publicRelayAddress N a then Inr 1 else Inl (RelayNotPublic given))"

definition checkRelayNode :: "net_lib \<Rightarrow> relayNode \<Rightarrow> relay_refusal option" where
  "checkRelayNode N node =
     (if rn_host node = [] then Some RelayNoHost
      else if rn_insecure node then Some RelayInsecure
      else if rn_cert_name node \<noteq> [] then Some RelayCertName
      else if rn_derp_port node \<noteq> 0 \<and> rn_derp_port node \<noteq> 443 then Some (RelayPort (rn_derp_port node))
      else if rn_stun_port node \<noteq> 0 \<and> rn_stun_port node \<noteq> 3478 \<and> rn_stun_port node \<noteq> -1 then Some (StunPort (rn_stun_port node))
      else
        (let host_refused = (case nl_addr N (rn_host node) of
               None \<Rightarrow> checkRelayHostName N (rn_host node)
             | Some a \<Rightarrow> if publicRelayAddress N a then None else Some (RelayNotPublic (rn_host node)));
             by_name = (nl_addr N (rn_host node) = None)
         in case host_refused of
             Some e \<Rightarrow> Some e
           | None \<Rightarrow>
               (case check_given N by_name (rn_ipv4 node) of
                  Inl e \<Rightarrow> Some e
                | Inr k \<Rightarrow>
                    (case check_given N by_name (rn_ipv6 node) of
                       Inl e \<Rightarrow> Some e
                     | Inr l \<Rightarrow> if by_name \<and> k + l = 0 then Some RelayNoAddress else None))))"

definition same_relay :: "net_lib \<Rightarrow> relayNode \<Rightarrow> relayNode \<Rightarrow> bool" where
  "same_relay N node candidate \<longleftrightarrow>
     nl_fold N (rn_host node) (rn_host candidate) \<and> rn_derp_port node = rn_derp_port candidate \<and>
     rn_stun_port node = rn_stun_port candidate \<and> rn_cert_name node = rn_cert_name candidate \<and>
     rn_insecure node = rn_insecure candidate \<and>
     (rn_ipv4 node = [] \<or> rn_ipv4 node = rn_ipv4 candidate) \<and> (rn_ipv6 node = [] \<or> rn_ipv6 node = rn_ipv6 candidate)"

definition regionWithin :: "net_lib \<Rightarrow> relayRegion \<Rightarrow> relayRegion \<Rightarrow> bool" where
  "regionWithin N region known \<longleftrightarrow>
     list_all (\<lambda>node. list_ex (same_relay N node) (rr_nodes known)) (rr_nodes region)"

fun first_refusal :: "('a \<Rightarrow> relay_refusal option) \<Rightarrow> 'a list \<Rightarrow> relay_refusal option" where
  "first_refusal f [] = None"
| "first_refusal f (x # xs) = (case f x of Some e \<Rightarrow> Some e | None \<Rightarrow> first_refusal f xs)"

definition checkRelayRegion :: "net_lib \<Rightarrow> relayRegion \<Rightarrow> relayRegion list \<Rightarrow> relay_refusal option" where
  "checkRelayRegion N region ours =
     (if rr_nodes region = [] then None
      else if list_ex (regionWithin N region) ours then None
      else first_refusal (checkRelayNode N) (rr_nodes region))"

definition checkRelayRegionJSON :: "net_lib \<Rightarrow> string \<Rightarrow> string \<Rightarrow> relay_refusal option" where
  "checkRelayRegionJSON N regions known =
     (case nl_regions N regions of
        Inl e \<Rightarrow> Some (RegionsUnread e)
      | Inr embedded \<Rightarrow>
          (let ours = (if known = [] then [] else case nl_regions N known of Inl e \<Rightarrow> [] | Inr rs \<Rightarrow> rs)
           in first_refusal (\<lambda>region. checkRelayRegion N region ours) embedded))"

section \<open>What the rule leaves\<close>

text \<open>
  Where a client of a relay connects, for each family: to the literal given for it, nowhere, or - when none is given - to
  the host, which is looked up if it is a name. What a lookup answers is anybody's choice.
\<close>

definition dials_family :: "net_lib \<Rightarrow> (string \<Rightarrow> netaddr list) \<Rightarrow> string \<Rightarrow> string \<Rightarrow> netaddr list" where
  "dials_family N lookup host given =
     (if given = no_family then []
      else if given = [] then (case nl_addr N host of Some a \<Rightarrow> [a] | None \<Rightarrow> lookup host)
      else case nl_addr N given of Some a \<Rightarrow> [a] | None \<Rightarrow> [])"

definition dials :: "net_lib \<Rightarrow> (string \<Rightarrow> netaddr list) \<Rightarrow> relayNode \<Rightarrow> netaddr list" where
  "dials N lookup node = dials_family N lookup (rn_host node) (rn_ipv4 node) @ dials_family N lookup (rn_host node) (rn_ipv6 node)"

definition plain_relay :: "net_lib \<Rightarrow> relayNode \<Rightarrow> bool" where
  "plain_relay N node \<longleftrightarrow> \<not> rn_insecure node \<and> rn_cert_name node = [] \<and> rn_derp_port node \<in> {0, 443} \<and> rn_stun_port node \<in> {0, 3478, -1} \<and>
     (\<forall>lookup. \<forall>a \<in> set (dials N lookup node). publicRelayAddress N a)"

lemma check_given_dials:
  assumes "check_given N (nl_addr N host = None) given = Inr k" "\<And>a. nl_addr N host = Some a \<Longrightarrow> publicRelayAddress N a"
    "a \<in> set (dials_family N lookup host given)"
  shows "publicRelayAddress N a"
  using assms by (auto simp: check_given_def dials_family_def split: if_splits option.splits)

lemma checkRelayNode_plain:
  assumes "checkRelayNode N node = None"
  shows "plain_relay N node"
proof -
  let ?by = "nl_addr N (rn_host node) = None"
  have host: "publicRelayAddress N a" if "nl_addr N (rn_host node) = Some a" for a
    using assms that by (auto simp: checkRelayNode_def Let_def split: if_splits option.splits sum.splits)
  obtain k l where given: "check_given N ?by (rn_ipv4 node) = Inr k" "check_given N ?by (rn_ipv6 node) = Inr l"
    using assms by (auto simp: checkRelayNode_def Let_def split: if_splits option.splits sum.splits)
  have "\<forall>lookup. \<forall>a \<in> set (dials N lookup node). publicRelayAddress N a"
    using check_given_dials [OF given(1) host] check_given_dials [OF given(2) host] by (auto simp: dials_def)
  then show ?thesis using assms by (auto simp: plain_relay_def checkRelayNode_def split: if_splits)
qed

lemma first_refusal_None: "first_refusal f xs = None \<longleftrightarrow> (\<forall>x \<in> set xs. f x = None)"
  by (induction xs) (auto split: option.split)

lemma checkRelayRegion_safe:
  assumes "checkRelayRegion N region ours = None" "node \<in> set (rr_nodes region)"
  shows "(\<exists>known \<in> set ours. \<exists>own \<in> set (rr_nodes known). same_relay N node own) \<or> plain_relay N node"
proof (cases "list_ex (regionWithin N region) ours")
  case True
  then obtain known where "known \<in> set ours" "regionWithin N region known" by (auto simp: list_ex_iff)
  then show ?thesis using assms(2) unfolding regionWithin_def list_all_iff list_ex_iff by blast
next
  case False
  then have "first_refusal (checkRelayNode N) (rr_nodes region) = None" using assms by (auto simp: checkRelayRegion_def split: if_splits)
  then show ?thesis using assms(2) checkRelayNode_plain by (auto simp: first_refusal_None)
qed

section \<open>Properties\<close>


definition toy_relay :: relayNode where
  "toy_relay = \<lparr>rn_host = ''derp.example.org'', rn_ipv4 = ''8.8.8.8'', rn_ipv6 = ''none'', rn_derp_port = 0, rn_stun_port = 0,
     rn_cert_name = [], rn_insecure = False\<rparr>"

definition toy_net :: net_lib where
  "toy_net = \<lparr>nl_url = (\<lambda>_. Inl ''no''), nl_addr = (\<lambda>s. if s = ''8.8.8.8'' then Some (V4 0x08080808) else None),
     nl_show = (\<lambda>_. ''8.8.8.8''), nl_lower = id, nl_fold = (=),
     nl_regions = (\<lambda>s. if s = ''r'' then Inr [\<lparr>rr_id = 1, rr_nodes = [toy_relay]\<rparr>] else Inl ''no'')\<rparr>"

lemma toy_passes: "checkRelayRegionJSON toy_net ''r'' [] = None"
  by (simp add: checkRelayRegionJSON_def toy_net_def toy_relay_def checkRelayRegion_def checkRelayNode_def check_given_def no_family_def
      checkRelayHostName_def trim_dot_def has_suffix_def this_machine_def this_network_def isTailnet_def publicRelayAddress_def
      Unmap_def IsPrivate_def IsLoopback_def IsLinkLocalUnicast_def IsLinkLocalMulticast_def IsInterfaceLocalMulticast_def
      IsMulticast_def IsUnspecified_def in_tailnet_ranges_def v4_byte_def Let_def)


text \<open>Bytes of an address as parts of its number.\<close>

lemma v4_byte_div: "v4_byte 0 x = unat x div 2 ^ 24" "v4_byte 1 x = unat x div 2 ^ 16 mod 256"
proof -
  have "unat x < 2 ^ 32" using unsigned_less [of x] by simp
  then have "unat x div 2 ^ 24 < 256" by (simp add: less_mult_imp_div_less)
  then show "v4_byte 0 x = unat x div 2 ^ 24"
    unfolding v4_byte_def unat_drop_bit_eq by (simp add: drop_bit_eq_div)
  show "v4_byte 1 x = unat x div 2 ^ 16 mod 256" unfolding v4_byte_def unat_drop_bit_eq by (simp add: drop_bit_eq_div)
qed

text \<open>The addresses of version 4 that a peer may not name, from the first to the last of each block.\<close>

definition blocked4 :: "nat \<Rightarrow> bool" where
  "blocked4 n \<longleftrightarrow> n = 0 \<or> n div 2 ^ 24 \<in> {10, 127} \<or> n div 2 ^ 20 = 172 * 16 + 1 \<or> n div 2 ^ 16 \<in> {192 * 256 + 168, 169 * 256 + 254} \<or>
     n div 2 ^ 28 = 14 \<or> n div 2 ^ 22 = 100 * 4 + 1"

lemma upper_half:
  fixes n :: nat
  shows "n div 2 ^ 24 = n div 2 ^ 16 div 256" "n div 2 ^ 20 = n div 2 ^ 16 div 16" "n div 2 ^ 28 = n div 2 ^ 16 div 4096"
    "n div 2 ^ 22 = n div 2 ^ 16 div 64"
  by (simp_all flip: div_mult2_eq)

lemma by_bytes:
  fixes m :: nat
  shows "m div 16 = m div 256 * 16 + m mod 256 div 16" "m div 64 = m div 256 * 4 + m mod 256 div 64"
    "m div 4096 = m div 256 div 16" "m = m div 256 * 256 + m mod 256"
proof -
  have "(16 * (m div 256 * 16) + m mod 256) div 16 = m div 256 * 16 + m mod 256 div 16" by (rule div_mult_self4) simp
  moreover have "(64 * (m div 256 * 4) + m mod 256) div 64 = m div 256 * 4 + m mod 256 div 64" by (rule div_mult_self4) simp
  moreover have "16 * (m div 256 * 16) + m mod 256 = m" "64 * (m div 256 * 4) + m mod 256 = m" by simp_all
  ultimately show "m div 16 = m div 256 * 16 + m mod 256 div 16" "m div 64 = m div 256 * 4 + m mod 256 div 64"
    by (simp_all only:)
  show "m div 4096 = m div 256 div 16" by (simp flip: div_mult2_eq)
qed simp

lemma blocks_by_bytes:
  fixes m :: nat
  shows "m div 16 = 172 * 16 + 1 \<longleftrightarrow> m div 256 = 172 \<and> m mod 256 div 16 = 1"
    "m = 192 * 256 + 168 \<longleftrightarrow> m div 256 = 192 \<and> m mod 256 = 168" "m = 169 * 256 + 254 \<longleftrightarrow> m div 256 = 169 \<and> m mod 256 = 254"
    "m div 4096 = 14 \<longleftrightarrow> m div 256 div 16 = 14" "m div 64 = 100 * 4 + 1 \<longleftrightarrow> m div 256 = 100 \<and> m mod 256 div 64 = 1"
proof -
  have b: "m mod 256 < 256" "m mod 256 div 16 < 16" "m mod 256 div 64 < 4" by (simp_all add: less_mult_imp_div_less)
  have digits: "c < 16 \<Longrightarrow> a * 16 + c = 172 * 16 + 1 \<longleftrightarrow> a = 172 \<and> c = 1" "d < 4 \<Longrightarrow> a * 4 + d = 100 * 4 + 1 \<longleftrightarrow> a = 100 \<and> d = 1"
    for a c d :: nat by presburger+
  show "m div 16 = 172 * 16 + 1 \<longleftrightarrow> m div 256 = 172 \<and> m mod 256 div 16 = 1" by (subst by_bytes(1)) (rule digits(1) [OF b(2)])
  show "m div 64 = 100 * 4 + 1 \<longleftrightarrow> m div 256 = 100 \<and> m mod 256 div 64 = 1" by (subst by_bytes(2)) (rule digits(2) [OF b(3)])
  show "m = 192 * 256 + 168 \<longleftrightarrow> m div 256 = 192 \<and> m mod 256 = 168" by (auto intro: trans [OF by_bytes(4)])
  show "m = 169 * 256 + 254 \<longleftrightarrow> m div 256 = 169 \<and> m mod 256 = 254" by (auto intro: trans [OF by_bytes(4)])
qed (simp add: by_bytes(3))

lemma blocked4_by_bytes:
  "blocked4 (unat x) \<longleftrightarrow> x = 0 \<or> v4_byte 0 x = 10 \<or> v4_byte 0 x = 127 \<or> v4_byte 0 x = 172 \<and> v4_byte 1 x div 16 = 1 \<or>
     v4_byte 0 x = 192 \<and> v4_byte 1 x = 168 \<or> v4_byte 0 x = 169 \<and> v4_byte 1 x = 254 \<or> v4_byte 0 x div 16 = 14 \<or>
     v4_byte 0 x = 100 \<and> v4_byte 1 x div 64 = 1"
  unfolding blocked4_def v4_byte_div upper_half insert_iff empty_iff blocks_by_bytes unat_eq_0 by auto

lemma public4:
  assumes "nl_addr N (nl_show N (V4 x)) = Some (V4 x)" "\<not> has_suffix (nl_show N (V4 x)) ''.ts.net''"
  shows "publicRelayAddress N (V4 x) \<longleftrightarrow> \<not> blocked4 (unat x)"
proof -
  have "isTailnet N (nl_show N (V4 x)) \<longleftrightarrow> v4_byte 0 x = 100 \<and> v4_byte 1 x div 64 = 1"
    using assms by (simp add: isTailnet_def in_tailnet_ranges_def)
  then show ?thesis
    by (auto simp: blocked4_by_bytes publicRelayAddress_def Unmap_def IsPrivate_def IsLoopback_def IsLinkLocalUnicast_def IsLinkLocalMulticast_def
        IsInterfaceLocalMulticast_def IsMulticast_def IsUnspecified_def Let_def)
qed

text \<open>
  The address of version 6 that stands for no address is refused only without a zone: with one it is not equal to
  \<^verbatim>\<open>netip.IPv6Unspecified\<close> and passes as public, although a connection to it reaches this machine.
\<close>

lemma zoned_unspecified_public:
  assumes "nl_addr N (nl_show N (V6 0 zone)) = Some (V6 0 zone)" "\<not> has_suffix (nl_show N (V6 0 zone)) ''.ts.net''" "zone \<noteq> []"
  shows "publicRelayAddress N (V6 0 zone)"
  using assms
  by (simp add: publicRelayAddress_def Unmap_def IsPrivate_def IsLoopback_def IsLinkLocalUnicast_def IsLinkLocalMulticast_def
      IsInterfaceLocalMulticast_def IsMulticast_def IsUnspecified_def isTailnet_def in_tailnet_ranges_def Let_def v6_byte_def)

end
