(* ===== verification/Peer_Wakeup.thy ===== *)
theory Peer_Wakeup
  imports Peer_Collect Relay_Rule
begin

text \<open>
  Waking a peer that cannot be dialled, from both ends (\<^verbatim>\<open>src/pkg/peer/wakeup.go\<close>): the approver announces where it can be
  woken, the requester knocks there. Whether the instance was given a store of routes is an argument, as is the relay: what
  a call to it answers. Beside the node is what was last said to each requester and the calls made to relays.
\<close>

section \<open>State\<close>

datatype WakeStyle = WAKE_STYLE_ALERT | WAKE_STYLE_SILENT
datatype WakeSubject = WAKE_SUBJECT_APPROVAL | WAKE_SUBJECT_KEY_OFFER
datatype WakeOutcome = WAKE_OUTCOME_DELIVERED | WAKE_OUTCOME_THROTTLED | WAKE_OUTCOME_UNREGISTERED | WAKE_OUTCOME_UNKNOWN

record announced =
  an_at :: time
  an_route :: string
  an_quiet :: time

record knock =
  kn_peer :: string
  kn_relay :: string
  kn_instance :: string
  kn_style :: WakeStyle
  kn_subject :: WakeSubject

record waking =
  wk_announced :: "string \<rightharpoonup> announced"
  wk_knocks :: "knock list"

type_synonym 'a wk = "(Node \<times> waking, 'a) state"

record AnnounceWakeupRequest =
  aw_route :: "wakeup_route option"
  aw_quiet_until :: timestamp

datatype announce_answer = AnnounceAccepted | SendsNoWakeups | RelayRefused relay_refusal | RouteNamesNoInstance

definition announceRefresh :: duration where "announceRefresh = 6 * hour"

section \<open>Being told\<close>

definition AnnounceWakeup ::
    "'raw node_env \<Rightarrow> net_lib \<Rightarrow> bool \<Rightarrow> peer_identity option \<Rightarrow> AnnounceWakeupRequest \<Rightarrow> (rpc_error + announce_answer) nd" where
  "AnnounceWakeup V N wakeups peer req = do {
     a \<leftarrow> publisherFor V peer;
     case a of
       Inl e \<Rightarrow> State_Monad.return (Inl e)
     | Inr (p, record) \<Rightarrow>
         if \<not> wakeups then State_Monad.return (Inr SendsNoWakeups)
         else (case aw_route req of
            None \<Rightarrow> do {
              r \<leftarrow> in_engine (on_vault (\<lambda>sv. DropPeerWakeup sv (pi_fingerprint p)));
              State_Monad.return (case r of Inl e \<Rightarrow> Inl (Rpc CodeInternal (StoreFailed e)) | Inr _ \<Rightarrow> Inr AnnounceAccepted)
            }
          | Some route \<Rightarrow>
              (case checkRelayURL N (wr_relay_url route) of
                 Some why \<Rightarrow> State_Monad.return (Inr (RelayRefused why))
               | None \<Rightarrow>
                   if wr_instance_id route = [] then State_Monad.return (Inr RouteNamesNoInstance)
                   else do {
                     now \<leftarrow> now_n;
                     r \<leftarrow> in_engine (on_vault (\<lambda>sv. PutPeerWakeup sv
                            \<lparr>pw_peer_fingerprint = pi_fingerprint p, pw_route = Some route, pw_announced_at = Some now,
                             pw_quiet_until = aw_quiet_until req\<rparr>));
                     State_Monad.return (case r of Inl e \<Rightarrow> Inl (Rpc CodeInternal (StoreFailed e)) | Inr _ \<Rightarrow> Inr AnnounceAccepted)
                   }))
   }"

section \<open>Knocking\<close>

definition noteWoken :: "string \<Rightarrow> WakeOutcome \<Rightarrow> unit nd" where
  "noteWoken fp outcome =
     (if outcome \<noteq> WAKE_OUTCOME_UNREGISTERED \<and> outcome \<noteq> WAKE_OUTCOME_UNKNOWN then State_Monad.return ()
      else do { _ \<leftarrow> in_engine (on_vault (\<lambda>sv. DropPeerWakeup sv fp)); State_Monad.return () })"

definition sendWake :: "(knock \<Rightarrow> string + WakeOutcome) \<Rightarrow> peer_wakeup \<Rightarrow> string \<Rightarrow> WakeStyle \<Rightarrow> WakeSubject \<Rightarrow> unit wk" where
  "sendWake relay wakeup fp style subject =
     (let k = \<lparr>kn_peer = fp, kn_relay = getf wr_relay_url [] (pw_route wakeup), kn_instance = getf wr_instance_id [] (pw_route wakeup),
               kn_style = style, kn_subject = subject\<rparr>
      in do {
        over_net (State (\<lambda>w. ((), w\<lparr>wk_knocks := wk_knocks w @ [k]\<rparr>)));
        case relay k of
          Inl e \<Rightarrow> State_Monad.return ()
        | Inr outcome \<Rightarrow> at_node (noteWoken fp outcome)
      })"

definition quiet :: "time \<Rightarrow> peer_wakeup \<Rightarrow> bool" where
  "quiet now wakeup = (case pw_quiet_until wakeup of None \<Rightarrow> False | Some t \<Rightarrow> now < t)"

text \<open>\<open>stopped\<close> says the node ended during the grace after a quiet knock, \<open>parked\<close> that the request was still parked after it.\<close>

definition runWake :: "(knock \<Rightarrow> string + WakeOutcome) \<Rightarrow> peer_wakeup \<Rightarrow> string \<Rightarrow> bool \<Rightarrow> bool \<Rightarrow> unit wk" where
  "runWake relay wakeup fp stopped parked = do {
     now \<leftarrow> at_node now_n;
     if \<not> quiet now wakeup then sendWake relay wakeup fp WAKE_STYLE_ALERT WAKE_SUBJECT_APPROVAL
     else do {
       sendWake relay wakeup fp WAKE_STYLE_SILENT WAKE_SUBJECT_APPROVAL;
       if stopped \<or> \<not> parked then State_Monad.return ()
       else sendWake relay wakeup fp WAKE_STYLE_ALERT WAKE_SUBJECT_APPROVAL
     }
   }"

text \<open>The route a peer announced, if it is to be woken at all.\<close>

definition wake_route :: "bool \<Rightarrow> string \<Rightarrow> vault \<Rightarrow> peer_wakeup option" where
  "wake_route wakeups fp v =
     (if \<not> wakeups then None
      else case PeerWakeup fp v of
          None \<Rightarrow> None
        | Some w \<Rightarrow> if pw_route w = None then None else Some w)"

definition wakePeer :: "bool \<Rightarrow> (knock \<Rightarrow> string + WakeOutcome) \<Rightarrow> string \<Rightarrow> bool \<Rightarrow> bool \<Rightarrow> unit wk" where
  "wakePeer wakeups relay fp stopped parked = do {
     found \<leftarrow> at_node (asks_node (\<lambda>n. wake_route wakeups fp (nd_vault n)));
     case found of
       None \<Rightarrow> State_Monad.return ()
     | Some w \<Rightarrow> runWake relay w fp stopped parked
   }"

definition wakeForKey :: "bool \<Rightarrow> (knock \<Rightarrow> string + WakeOutcome) \<Rightarrow> string \<Rightarrow> unit wk" where
  "wakeForKey wakeups relay fp = do {
     found \<leftarrow> at_node (asks_node (\<lambda>n. wake_route wakeups fp (nd_vault n)));
     case found of
       None \<Rightarrow> State_Monad.return ()
     | Some w \<Rightarrow> sendWake relay w fp WAKE_STYLE_ALERT WAKE_SUBJECT_KEY_OFFER
   }"

section \<open>Telling\<close>

text \<open>\<^verbatim>\<open>Engine.QuietUntil\<close> reads the grants of the engine.\<close>

definition QuietUntil_e :: "string \<Rightarrow> time eng" where
  "QuietUntil_e fp = do {
     has \<leftarrow> asks e_has_grants;
     if \<not> has \<or> fp = [] then State_Monad.return zero_time
     else do {
       r \<leftarrow> on_vault_at Grants;
       case r of
         Inl e \<Rightarrow> State_Monad.return zero_time
       | Inr gs \<Rightarrow> do { now \<leftarrow> now_e; State_Monad.return (QuietUntil (Some (Inr gs)) fp now) }
     }
   }"

definition ownRoute :: "string \<Rightarrow> (wakeup_route option \<times> time) nd" where
  "ownRoute fp = do {
     settings \<leftarrow> asks_node (\<lambda>n. WakeupSettings (nd_vault n));
     if \<not> ws_enabled settings \<or> ws_instance_id settings = [] \<or> ws_device_token settings = []
     then State_Monad.return (None, zero_time)
     else do {
       until \<leftarrow> in_engine (QuietUntil_e fp);
       State_Monad.return (Some \<lparr>wr_kind = WAKEUP_KIND_RELAY, wr_relay_url = ws_relay_url settings,
         wr_instance_id = ws_instance_id settings\<rparr>, until)
     }
   }"

definition routeKey :: "wakeup_route option \<Rightarrow> string" where
  "routeKey route = (case route of None \<Rightarrow> [] | Some r \<Rightarrow> wr_relay_url r @ [CHR 0x00] @ wr_instance_id r)"

definition shouldAnnounce :: "string \<Rightarrow> wakeup_route option \<Rightarrow> time \<Rightarrow> bool wk" where
  "shouldAnnounce fp route until = do {
     told \<leftarrow> over_net (State (\<lambda>w. (wk_announced w, w)));
     if route = None \<and> told fp = None then State_Monad.return False
     else do {
       now \<leftarrow> at_node now_n;
       if (case told fp of None \<Rightarrow> False
             | Some last_one \<Rightarrow> an_route last_one = routeKey route \<and> an_quiet last_one = until \<and> now - an_at last_one < announceRefresh)
       then State_Monad.return False
       else do {
         at \<leftarrow> at_node now_n;
         over_net (State (\<lambda>w. ((), w\<lparr>wk_announced := (wk_announced w)(fp \<mapsto> \<lparr>an_at = at, an_route = routeKey route, an_quiet = until\<rparr>)\<rparr>)));
         State_Monad.return True
       }
     }
   }"

definition forgetAnnouncement :: "string \<Rightarrow> waking \<Rightarrow> waking" where
  "forgetAnnouncement fp w = w\<lparr>wk_announced := (wk_announced w)(fp := None)\<rparr>"

definition in_waking :: "(Node \<times> waking, 'a) state \<Rightarrow> ((Node \<times> waking) \<times> 'w, 'a) state" where
  "in_waking f = State (\<lambda>(s, w). case run_state f s of (a, s') \<Rightarrow> (a, (s', w)))"

definition calling :: "('w, 'a) state \<Rightarrow> ((Node \<times> waking) \<times> 'w, 'a) state" where
  "calling f = State (\<lambda>(s, w). case run_state f w of (a, w') \<Rightarrow> (a, (s, w')))"

definition announceTo ::
    "(AnnounceWakeupRequest \<Rightarrow> ('w, string + announce_answer) state) \<Rightarrow> trust_record \<Rightarrow> wakeup_route option \<Rightarrow> time
       \<Rightarrow> ((Node \<times> waking) \<times> 'w, unit) state" where
  "announceTo call record route until = do {
     r \<leftarrow> calling (call \<lparr>aw_route = route, aw_quiet_until = (if until = zero_time then None else Some until)\<rparr>);
     case r of
       Inl e \<Rightarrow> in_waking (over_net (State (\<lambda>w. ((), forgetAnnouncement (tr_fingerprint record) w))))
     | Inr answer \<Rightarrow> State_Monad.return ()
   }"

fun announce_each ::
    "(trust_record \<Rightarrow> AnnounceWakeupRequest \<Rightarrow> ('w, string + announce_answer) state) \<Rightarrow> trust_record list
       \<Rightarrow> ((Node \<times> waking) \<times> 'w, unit) state" where
  "announce_each call [] = State_Monad.return ()"
| "announce_each call (record # rest) = do {
     route \<leftarrow> in_waking (at_node (ownRoute (tr_fingerprint record)));
     go \<leftarrow> in_waking (shouldAnnounce (tr_fingerprint record) (fst route) (snd route));
     _ \<leftarrow> (if go then announceTo (call record) record (fst route) (snd route) else State_Monad.return ());
     announce_each call rest
   }"

definition AnnounceWakeups ::
    "bool \<Rightarrow> int \<Rightarrow> (trust_record \<Rightarrow> AnnounceWakeupRequest \<Rightarrow> ('w, string + announce_answer) state)
       \<Rightarrow> ((Node \<times> waking) \<times> 'w, unit) state" where
  "AnnounceWakeups wakeups tunnelVersion call =
     (if \<not> wakeups then State_Monad.return ()
      else do {
        v \<leftarrow> in_waking (at_node (asks_node nd_vault));
        announce_each call (requesters tunnelVersion v)
      })"

datatype wakeups_error = DoesNoWakeups | WakeupsNotStored vault_error

definition SetWakeups ::
    "bool \<Rightarrow> int \<Rightarrow> (trust_record \<Rightarrow> AnnounceWakeupRequest \<Rightarrow> ('w, string + announce_answer) state) \<Rightarrow> string + bytes
       \<Rightarrow> wakeup_settings option \<Rightarrow> ((Node \<times> waking) \<times> 'w, wakeups_error + unit) state" where
  "SetWakeups wakeups tunnelVersion call random settings =
     (if \<not> wakeups then State_Monad.return (Inl DoesNoWakeups)
      else do {
        r \<leftarrow> in_waking (at_node (in_engine (on_vault (\<lambda>sv. SetWakeupSettings sv random settings))));
        case r of
          Inl e \<Rightarrow> State_Monad.return (Inl (WakeupsNotStored e))
        | Inr _ \<Rightarrow> do {
            in_waking (over_net (State (\<lambda>w. ((), w\<lparr>wk_announced := (\<lambda>fp. map_option (\<lambda>a. a\<lparr>an_at := zero_time\<rparr>) (wk_announced w fp))\<rparr>))));
            AnnounceWakeups wakeups tunnelVersion call;
            State_Monad.return (Inr ())
          }
      })"

section \<open>What an announcement does\<close>

lemma run_waking [simp]:
  "run_state (in_waking f) (s, w) = (fst (run_state f s), (snd (run_state f s), w))"
  "run_state (calling g) (s, w) = (fst (run_state g w), (s, snd (run_state g w)))"
  by (simp_all add: in_waking_def calling_def split: prod.split)

lemma find_snoc: "find P xs = None \<Longrightarrow> find P (xs @ [x]) = (if P x then Some x else None)"
  by (induction xs) (auto split: if_splits)

lemma PutPeerWakeup_found:
  assumes "PutPeerWakeup sv w v = (v', Inr ())"
  shows "\<exists>u. PeerWakeup (pw_peer_fingerprint w) v' = Some u \<and> pw_route u = pw_route w \<and>
    as_time (pw_quiet_until u) = as_time (pw_quiet_until w)"
proof -
  let ?P = "\<lambda>e. pw_peer_fingerprint e = pw_peer_fingerprint w"
  show ?thesis
  proof (cases "find ?P (wakeups_of v)")
    case None
    then have "wakeups_of v' = wakeups_of v @ [w]"
      using assms by (auto simp: PutPeerWakeup_def save_def split: if_splits option.splits)
    then show ?thesis using None by (simp add: PeerWakeup_def find_snoc)
  next
    case (Some e)
    show ?thesis
    proof (cases "sameRoute e w")
      case True
      then have "v' = v" using assms Some by (auto simp: PutPeerWakeup_def split: if_splits)
      then show ?thesis using Some True by (simp add: PeerWakeup_def sameRoute_def)
    next
      case False
      then have "wakeups_of v' = update_first ?P (\<lambda>_. w) (wakeups_of v)"
        using assms Some by (auto simp: PutPeerWakeup_def save_def split: if_splits option.splits)
      then show ?thesis using Some by (simp add: PeerWakeup_def find_update_first)
    qed
  qed
qed

lemma DropPeerWakeup_gone: "PeerWakeup fp (fst (DropPeerWakeup sv fp v)) = None"
  by (auto simp: DropPeerWakeup_def PeerWakeup_def save_then_def save_def find_None_iff list_ex_iff split: option.split)

text \<open>
  What was accepted is what is remembered: the route and until when the peer answers quietly, or that it has none. It came
  from a peer that may approve here, over a relay this instance is willing to call.
\<close>

theorem announcement_remembered:
  assumes "run_state (AnnounceWakeup V N wakeups peer req) m = (Inr AnnounceAccepted, m')"
  shows "\<exists>p record. peer = Some p \<and> Peer (nv_fold V) (pi_fingerprint p) (nd_vault m) = Some record \<and> tr_may_approve record \<and>
    (case aw_route req of
       None \<Rightarrow> PeerWakeup (pi_fingerprint p) (nd_vault m') = None
     | Some route \<Rightarrow> checkRelayURL N (wr_relay_url route) = None \<and> (\<exists>w. PeerWakeup (pi_fingerprint p) (nd_vault m') = Some w \<and>
         pw_route w = Some route \<and> as_time (pw_quiet_until w) = as_time (aw_quiet_until req)))"
proof -
  obtain a n1 where pub: "run_state (publisherFor V peer) m = (a, n1)" by (metis prod.exhaust)
  obtain p rcd where a: "a = Inr (p, rcd)" using assms pub by (cases a) (auto simp: AnnounceWakeup_def)
  note who = publisherFor_Inr [OF pub [unfolded a]]
  show ?thesis
  proof (cases "aw_route req")
    case None
    then have "nd_vault m' = fst (DropPeerWakeup (e_saves (nd_engine n1) 0) (pi_fingerprint p) (nd_vault n1))"
      using assms pub a by (auto simp: AnnounceWakeup_def run_on_vault split: if_splits)
    then show ?thesis using None who DropPeerWakeup_gone by auto
  next
    case (Some route)
    let ?w = "\<lparr>pw_peer_fingerprint = pi_fingerprint p, pw_route = Some route, pw_announced_at = Some (e_clock (nd_engine n1) 0),
        pw_quiet_until = aw_quiet_until req\<rparr>"
    have "checkRelayURL N (wr_relay_url route) = None"
      "PutPeerWakeup (e_saves (nd_engine n1) 0) ?w (nd_vault n1) = (nd_vault m', Inr ())"
      using assms pub a Some
      by (auto simp: AnnounceWakeup_def run_on_vault now_n_def ticked_def prod_eq_iff split: if_splits option.splits sum.splits)
    then show ?thesis using Some who PutPeerWakeup_found by fastforce
  qed
qed

text \<open>A failed announcement is forgotten, and while there is no route nothing is said to whom nothing was said.\<close>

lemma announceTo_failed:
  assumes "run_state (call \<lparr>aw_route = route, aw_quiet_until = (if until = zero_time then None else Some until)\<rparr>) w = (Inl e, w')"
  shows "wk_announced (snd (fst (snd (run_state (announceTo call rcd route until) ((n, k), w))))) (tr_fingerprint rcd) = None"
  using assms by (simp add: announceTo_def over_net_def forgetAnnouncement_def)

definition route_off :: "vault \<Rightarrow> bool" where
  "route_off v \<longleftrightarrow> \<not> ws_enabled (WakeupSettings v)"

lemma announce_each_silent:
  assumes "route_off (nd_vault n)" "\<forall>r \<in> set rs. wk_announced k (tr_fingerprint r) = None"
  shows "run_state (announce_each call rs) ((n, k), w) = ((), ((n, k), w))"
  using assms
proof (induction rs)
  case (Cons r rs)
  have "run_state (ownRoute (tr_fingerprint r)) n = ((None, zero_time), n)"
    using Cons.prems(1) by (simp add: ownRoute_def route_off_def)
  moreover have "run_state (shouldAnnounce (tr_fingerprint r) None zero_time) (n, k) = (False, (n, k))"
    using Cons.prems(2) by (simp add: shouldAnnounce_def over_net_def)
  ultimately show ?case using Cons by simp
qed simp

text \<open>
  A withdrawal that could not be delivered is not tried again. When wake-ups were switched off and the calls that should say
  so failed, what was announced is forgotten, and every later round is silent: the requesters keep the route and go on
  knocking at it.
\<close>

theorem withdrawal_not_retried:
  assumes "route_off (nd_vault n)" "\<forall>r \<in> set (requesters version (nd_vault n)). wk_announced k (tr_fingerprint r) = None"
  shows "run_state (AnnounceWakeups True version call) ((n, k), w) = ((), ((n, k), w))"
  using announce_each_silent [OF assms] by (simp add: AnnounceWakeups_def)

text \<open>A knock that was quiet is followed by a loud one while the request is still parked; otherwise it is loud at once.\<close>

lemma runWake_ends_loud:
  assumes "run_state (runWake relay wakeup fp False True) (n, w) = ((), (n', w'))"
  shows "wk_knocks w' \<noteq> [] \<and> kn_style (last (wk_knocks w')) = WAKE_STYLE_ALERT \<and> kn_peer (last (wk_knocks w')) = fp"
  using assms by (auto simp: runWake_def sendWake_def over_net_def Let_def split: if_splits sum.splits)

end
