(* ===== verification/Peer_Handover.thy ===== *)
theory Peer_Handover
  imports Peer_Wakeup
begin

text \<open>
  Handing a key to a paired peer (\<^verbatim>\<open>src/pkg/peer/handover.go\<close>): queueing and pushing on one side, collecting, taking and
  acknowledging on the other.

  The store the keys are in is an argument, \<^const>\<open>None\<close> where the code's field is nil. Beside the node there is what the
  code keeps in memory about handovers, with the random bytes that are still to be read and the state of waking peers.
\<close>

section \<open>State\<close>

record handing =
  hs_settled :: "string list"
  hs_random :: "nat \<Rightarrow> string + bytes"
  hs_waking :: waking

type_synonym 'a hand = "(Node \<times> handing, 'a) state"

record OfferedKey =
  ok_handover_id :: string
  ok_label :: string
  ok_comment :: string
  ok_private_key :: bytes

datatype take_error = CannotBeHanded | NoKeyInOffer | TooLargeForKey | NotTaken key_error

definition next_random :: "(string + bytes) hand" where
  "next_random = over_net (State (\<lambda>h. (hs_random h 0, h\<lparr>hs_random := rest_of (hs_random h)\<rparr>)))"

definition maxKeyBytes :: nat where "maxKeyBytes = 32768"

section \<open>Taking an offered key\<close>

definition transfer_in :: "(string \<Rightarrow> string) \<Rightarrow> string \<Rightarrow> string \<Rightarrow> string" where
  "transfer_in quote name label = quote name @ '' handed over the key '' @ quote label @ '', which is waiting to be answered''"

definition transfer_out :: "(string \<Rightarrow> string) \<Rightarrow> string \<Rightarrow> string \<Rightarrow> string" where
  "transfer_out quote label name = ''handed the key '' @ quote label @ '' to '' @ quote name"

definition takeOfferedKey ::
    "'raw node_env \<Rightarrow> 'raw key_lib option \<Rightarrow> string \<Rightarrow> trust_record \<Rightarrow> OfferedKey \<Rightarrow> (take_error + pending_key_offer) hand" where
  "takeOfferedKey V handovers peer record off =
     (case handovers of
        None \<Rightarrow> State_Monad.return (Inl CannotBeHanded)
      | Some L \<Rightarrow>
          if ok_private_key off = [] then State_Monad.return (Inl NoKeyInOffer)
          else if length (ok_private_key off) > maxKeyBytes then State_Monad.return (Inl TooLargeForKey)
          else do {
            random \<leftarrow> next_random;
            r \<leftarrow> at_node (in_engine (on_vault_at (\<lambda>sv now. AddKeyOffer L sv random peer (tr_name record) (ok_label off)
                   (ok_comment off) (ok_handover_id off) (ok_private_key off) now)));
            case r of
              Inl e \<Rightarrow> State_Monad.return (Inl (NotTaken e))
            | Inr offer \<Rightarrow> do {
                at_node (in_engine (LogKeyTransfer (transfer_in (nv_quote V) (tr_name record) (po_label offer)) (po_fingerprint offer)));
                State_Monad.return (Inr offer)
              }
          })"

definition OfferKey ::
    "'raw node_env \<Rightarrow> 'raw key_lib option \<Rightarrow> peer_identity option \<Rightarrow> string \<Rightarrow> string \<Rightarrow> bytes \<Rightarrow> (rpc_error + take_error + string) hand" where
  "OfferKey V handovers peer label comment private_key = do {
     a \<leftarrow> at_node (pairedPeer V peer);
     case a of
       Inl e \<Rightarrow> State_Monad.return (Inl e)
     | Inr (p, record) \<Rightarrow> do {
         r \<leftarrow> takeOfferedKey V handovers (pi_fingerprint p) record
                \<lparr>ok_handover_id = [], ok_label = label, ok_comment = comment, ok_private_key = private_key\<rparr>;
         State_Monad.return (Inr (map_sum id po_id r))
       }
   }"

section \<open>Sending\<close>

definition handoverDelivered :: "queued_key_handover \<Rightarrow> unit nd" where
  "handoverDelivered q = do {
     now \<leftarrow> now_n;
     _ \<leftarrow> in_engine (on_vault (\<lambda>sv. CompleteHandover sv (qh_id q) now));
     State_Monad.return ()
   }"

fun complete_each :: "queued_key_handover list \<Rightarrow> unit nd" where
  "complete_each [] = State_Monad.return ()"
| "complete_each (q # rest) = do { handoverDelivered q; complete_each rest }"

definition offered_as :: "queued_key_handover \<Rightarrow> OfferedKey" where
  "offered_as q = \<lparr>ok_handover_id = qh_id q, ok_label = qh_label q, ok_comment = qh_comment q, ok_private_key = qh_private_key q\<rparr>"

text \<open>What is acknowledged is looked up in the queue as it was when the call came in.\<close>

definition acknowledged :: "string \<Rightarrow> string list \<Rightarrow> queued_key_handover list \<Rightarrow> queued_key_handover list" where
  "acknowledged peer received queued =
     concat (map (\<lambda>i. filter (\<lambda>q. qh_id q = i \<and> qh_peer_fingerprint q = peer) queued) received)"

definition CollectKeyOffers ::
    "'raw node_env \<Rightarrow> 'raw key_lib option \<Rightarrow> peer_identity option \<Rightarrow> string list \<Rightarrow> (rpc_error + OfferedKey list) nd" where
  "CollectKeyOffers V handovers peer received = do {
     a \<leftarrow> pairedPeer V peer;
     case a of
       Inl e \<Rightarrow> State_Monad.return (Inl e)
     | Inr (p, record) \<Rightarrow>
         (case handovers of
            None \<Rightarrow> State_Monad.return (Inr [])
          | Some _ \<Rightarrow> do {
              queued \<leftarrow> asks_node (\<lambda>n. handovers_of (nd_vault n));
              complete_each (acknowledged (pi_fingerprint p) received queued);
              held \<leftarrow> asks_node (\<lambda>n. handovers_of (nd_vault n));
              State_Monad.return (Inr (map offered_as (filter (\<lambda>q. qh_peer_fingerprint q = pi_fingerprint p) held)))
            })
   }"

text \<open>A call offers the key to the peer; it fails when it is lost or refused.\<close>

definition in_hand :: "(Node \<times> handing, 'a) state \<Rightarrow> ((Node \<times> handing) \<times> 'w, 'a) state" where
  "in_hand f = State (\<lambda>(s, w). case run_state f s of (a, s') \<Rightarrow> (a, (s', w)))"

definition on_wire :: "('w, 'a) state \<Rightarrow> ((Node \<times> handing) \<times> 'w, 'a) state" where
  "on_wire f = State (\<lambda>(s, w). case run_state f w of (a, w') \<Rightarrow> (a, (s, w')))"

definition while_waking :: "'a wk \<Rightarrow> 'a hand" where
  "while_waking f = State (\<lambda>(n, h). case run_state f (n, hs_waking h) of (a, (n', w)) \<Rightarrow> (a, (n', h\<lparr>hs_waking := w\<rparr>)))"

text \<open>\<open>relay\<close> is what a call to a relay answers, with whether this instance keeps routes at all.\<close>

type_synonym relay_of = "bool \<times> (knock \<Rightarrow> string + WakeOutcome)"

definition deliverHandover ::
    "relay_of \<Rightarrow> int \<Rightarrow> (OfferedKey \<Rightarrow> ('w, string option) state) \<Rightarrow> trust_record \<Rightarrow> queued_key_handover \<Rightarrow> ((Node \<times> handing) \<times> 'w, unit) state" where
  "deliverHandover relay tunnelVersion call record q =
     (if \<not> Dialable record tunnelVersion then in_hand (while_waking (wakeForKey (fst relay) (snd relay) (tr_fingerprint record)))
      else do {
        failed \<leftarrow> on_wire (call ((offered_as q)\<lparr>ok_handover_id := []\<rparr>));
        case failed of
          Some e \<Rightarrow> State_Monad.return ()
        | None \<Rightarrow> in_hand (at_node (handoverDelivered q))
      })"

datatype send_error = CannotHandOver | NotQueued vault_error

definition SendKey ::
    "'raw node_env \<Rightarrow> 'raw key_lib option \<Rightarrow> relay_of \<Rightarrow> int \<Rightarrow> (OfferedKey \<Rightarrow> ('w, string option) state) \<Rightarrow> trust_record \<Rightarrow> stored_key
       \<Rightarrow> ((Node \<times> handing) \<times> 'w, send_error + queued_key_handover) state" where
  "SendKey V handovers relay tunnelVersion call record key =
     (case handovers of
        None \<Rightarrow> State_Monad.return (Inl CannotHandOver)
      | Some _ \<Rightarrow> do {
          random \<leftarrow> in_hand next_random;
          r \<leftarrow> in_hand (at_node (in_engine (on_vault_at (\<lambda>sv now.
                 QueueHandover sv random (tr_fingerprint record) (tr_name record) key now))));
          case r of
            Inl e \<Rightarrow> State_Monad.return (Inl (NotQueued e))
          | Inr q \<Rightarrow> do {
              in_hand (at_node (in_engine (LogKeyTransfer (transfer_out (nv_quote V) (sk_label key) (tr_name record)) (sk_fingerprint key))));
              deliverHandover relay tunnelVersion call record q;
              State_Monad.return (Inr q)
            }
        })"

fun deliver_each ::
    "'raw node_env \<Rightarrow> relay_of \<Rightarrow> int \<Rightarrow> (trust_record \<Rightarrow> OfferedKey \<Rightarrow> ('w, string option) state) \<Rightarrow> queued_key_handover list
       \<Rightarrow> ((Node \<times> handing) \<times> 'w, unit) state" where
  "deliver_each V relay tunnelVersion call [] = State_Monad.return ()"
| "deliver_each V relay tunnelVersion call (q # rest) = do {
     found \<leftarrow> in_hand (at_node (asks_node (\<lambda>n. Peer (nv_fold V) (qh_peer_fingerprint q) (nd_vault n))));
     _ \<leftarrow> (case found of
        None \<Rightarrow> State_Monad.return ()
      | Some record \<Rightarrow>
          if \<not> Dialable record tunnelVersion then State_Monad.return ()
          else deliverHandover relay tunnelVersion (call record) record q);
     deliver_each V relay tunnelVersion call rest
   }"

definition deliverQueuedKeys ::
    "'raw node_env \<Rightarrow> 'raw key_lib option \<Rightarrow> relay_of \<Rightarrow> int \<Rightarrow> (trust_record \<Rightarrow> OfferedKey \<Rightarrow> ('w, string option) state)
       \<Rightarrow> ((Node \<times> handing) \<times> 'w, unit) state" where
  "deliverQueuedKeys V handovers relay tunnelVersion call =
     (case handovers of
        None \<Rightarrow> State_Monad.return ()
      | Some _ \<Rightarrow> do {
          queued \<leftarrow> in_hand (at_node (asks_node (\<lambda>n. handovers_of (nd_vault n))));
          deliver_each V relay tunnelVersion call queued
        })"

section \<open>Collecting\<close>

definition settleHandover :: "string \<Rightarrow> handing \<Rightarrow> handing" where
  "settleHandover i h = (if i = [] \<or> i \<in> set (hs_settled h) then h else h\<lparr>hs_settled := hs_settled h @ [i]\<rparr>)"

definition forgetSettled :: "string list \<Rightarrow> handing \<Rightarrow> handing" where
  "forgetSettled ids h = h\<lparr>hs_settled := filter (\<lambda>i. i \<notin> set ids) (hs_settled h)\<rparr>"

definition receivedFrom :: "string \<Rightarrow> vault \<Rightarrow> handing \<Rightarrow> string list" where
  "receivedFrom fp v h =
     filter (\<lambda>i. i \<noteq> []) (map po_handover_id (filter (\<lambda>q. po_peer_fingerprint q = fp) (offers_of v))) @ hs_settled h"

definition is_duplicate :: "take_error \<Rightarrow> bool" where
  "is_duplicate e = (case e of NotTaken (StoreError (ErrDuplicateKey l)) \<Rightarrow> True | _ \<Rightarrow> False)"

definition take_one :: "'raw node_env \<Rightarrow> 'raw key_lib option \<Rightarrow> trust_record \<Rightarrow> OfferedKey \<Rightarrow> unit hand" where
  "take_one V handovers record off = do {
     r \<leftarrow> takeOfferedKey V handovers (tr_fingerprint record) record off;
     case r of
       Inr _ \<Rightarrow> State_Monad.return ()
     | Inl e \<Rightarrow>
         if is_duplicate e then over_net (State (\<lambda>h. ((), settleHandover (ok_handover_id off) h)))
         else State_Monad.return ()
   }"

fun take_each :: "'raw node_env \<Rightarrow> 'raw key_lib option \<Rightarrow> trust_record \<Rightarrow> OfferedKey list \<Rightarrow> unit hand" where
  "take_each V handovers record [] = State_Monad.return ()"
| "take_each V handovers record (off # rest) = do { take_one V handovers record off; take_each V handovers record rest }"

definition collectKeysFrom ::
    "'raw node_env \<Rightarrow> 'raw key_lib option \<Rightarrow> (string list \<Rightarrow> ('w, string + OfferedKey list) state) \<Rightarrow> trust_record
       \<Rightarrow> ((Node \<times> handing) \<times> 'w, string option) state" where
  "collectKeysFrom V handovers call record =
     (case handovers of
        None \<Rightarrow> State_Monad.return None
      | Some _ \<Rightarrow> do {
          received \<leftarrow> in_hand (State (\<lambda>(n, h). (receivedFrom (tr_fingerprint record) (nd_vault n) h, (n, h))));
          r \<leftarrow> on_wire (call received);
          case r of
            Inl e \<Rightarrow> State_Monad.return (Some e)
          | Inr offers \<Rightarrow> do {
              in_hand (take_each V handovers record offers);
              in_hand (over_net (State (\<lambda>h. ((), forgetSettled received h))));
              State_Monad.return None
            }
        })"

definition dropPeerHandovers :: "'raw key_lib option \<Rightarrow> trust_record \<Rightarrow> unit nd" where
  "dropPeerHandovers handovers record =
     (case handovers of
        None \<Rightarrow> State_Monad.return ()
      | Some _ \<Rightarrow> do {
          _ \<leftarrow> in_engine (on_vault (\<lambda>sv. DropPeerHandovers sv (tr_fingerprint record)));
          _ \<leftarrow> in_engine (on_vault (\<lambda>sv. DropPeerKeyOffers sv (tr_fingerprint record)));
          State_Monad.return ()
        })"

section \<open>What each side leaves\<close>

lemma run_hand [simp]:
  "run_state (in_hand f) (s, w) = (fst (run_state f s), (snd (run_state f s), w))"
  "run_state (on_wire g) (s, w) = (fst (run_state g w), (s, snd (run_state g w)))"
  by (simp_all add: in_hand_def on_wire_def split: prod.split)

lemma CompleteHandover_queue:
  "handovers_of (fst (CompleteHandover sv i at v)) = filter (\<lambda>q. qh_id q \<noteq> i) (handovers_of v)"
proof (cases "filter (\<lambda>q. qh_id q = i) (handovers_of v)")
  case Nil
  then have "filter (\<lambda>q. qh_id q \<noteq> i) (handovers_of v) = handovers_of v" by (auto simp: filter_empty_conv filter_id_conv)
  with Nil show ?thesis by (simp add: CompleteHandover_def)
next
  case (Cons q qs)
  then show ?thesis by (simp add: CompleteHandover_def noteHandoverLocked_def)
qed

lemma complete_each_queue:
  "handovers_of (nd_vault (snd (run_state (complete_each qs) n))) = filter (\<lambda>q. qh_id q \<notin> qh_id ` set qs) (handovers_of (nd_vault n))"
proof (induction qs arbitrary: n)
  case (Cons q qs)
  then show ?case
    by (simp add: handoverDelivered_def run_on_vault CompleteHandover_queue filter_filter split: prod.split)
qed simp

text \<open>A sender lets go of what was acknowledged by the peer it is for, and offers that peer all that is left for it.\<close>

lemma CollectKeyOffers_keeps:
  assumes "run_state (CollectKeyOffers V (Some L) (Some p) received) m = (r, m')"
    and "distinct (map qh_id (handovers_of (nd_vault m)))"
  shows "handovers_of (nd_vault m') = filter (\<lambda>q. \<not> (qh_peer_fingerprint q = pi_fingerprint p \<and> qh_id q \<in> set received)) (handovers_of (nd_vault m)) \<or>
      handovers_of (nd_vault m') = handovers_of (nd_vault m)"
    "r = Inr offers \<Longrightarrow> offers = map offered_as (filter (\<lambda>q. qh_peer_fingerprint q = pi_fingerprint p) (handovers_of (nd_vault m')))"
proof -
  let ?qs = "handovers_of (nd_vault m)" and ?acks = "acknowledged (pi_fingerprint p) received (handovers_of (nd_vault m))"
  have acks: "qh_id q \<in> qh_id ` set ?acks \<longleftrightarrow> qh_peer_fingerprint q = pi_fingerprint p \<and> qh_id q \<in> set received" if "q \<in> set ?qs" for q
    using that assms(2) by (auto simp: acknowledged_def distinct_map inj_on_def image_iff)
  have "(\<exists>e. r = Inl e) \<and> m' = m \<or> r = Inr (map offered_as (filter (\<lambda>q. qh_peer_fingerprint q = pi_fingerprint p) (handovers_of (nd_vault m')))) \<and>
      handovers_of (nd_vault m') = filter (\<lambda>q. qh_id q \<notin> qh_id ` set ?acks) ?qs"
    using assms(1) complete_each_queue [of ?acks m]
    by (auto simp: CollectKeyOffers_def pairedPeer_def find_peer_def split: option.splits prod.splits)
  moreover have "filter (\<lambda>q. qh_id q \<notin> qh_id ` set ?acks) ?qs =
      filter (\<lambda>q. \<not> (qh_peer_fingerprint q = pi_fingerprint p \<and> qh_id q \<in> set received)) ?qs"
    using acks by (intro filter_cong) auto
  ultimately show "handovers_of (nd_vault m') = filter (\<lambda>q. \<not> (qh_peer_fingerprint q = pi_fingerprint p \<and> qh_id q \<in> set received)) ?qs \<or>
      handovers_of (nd_vault m') = ?qs"
    "r = Inr offers \<Longrightarrow> offers = map offered_as (filter (\<lambda>q. qh_peer_fingerprint q = pi_fingerprint p) (handovers_of (nd_vault m')))"
    by auto
qed

text \<open>The key in a private key as the store reads it.\<close>

definition key_in :: "'raw key_lib \<Rightarrow> bytes \<Rightarrow> string option" where
  "key_in L pem = (case parsePrivateKey L pem [] of Inl e \<Rightarrow> None | Inr (signer, _) \<Rightarrow> Some (kl_fingerprint L (sr_public signer)))"

lemma AddKeyOffer_facts:
  assumes "AddKeyOffer L sv random peer name label comment hid pem at v = (v', r)"
  shows "keys_of v' = keys_of v"
    "o' \<in> set (offers_of v') \<Longrightarrow> o' \<in> set (offers_of v) \<or> po_peer_fingerprint o' = peer \<and> po_handover_id o' = hid \<and> key_in L pem = Some (po_fingerprint o')"
    "r = Inl (StoreError (ErrDuplicateKey l)) \<Longrightarrow> \<exists>k \<in> set (keys_of v). key_in L pem = Some (sk_fingerprint k)"
proof -
  have "keys_of v' = keys_of v \<and>
    (\<forall>o' \<in> set (offers_of v'). o' \<in> set (offers_of v) \<or> po_peer_fingerprint o' = peer \<and> po_handover_id o' = hid \<and> key_in L pem = Some (po_fingerprint o')) \<and>
    (r = Inl (StoreError (ErrDuplicateKey l)) \<longrightarrow> (\<exists>k \<in> set (keys_of v). key_in L pem = Some (sk_fingerprint k)))"
  proof (cases "parsePrivateKey L pem []")
    case (Inl e)
    then have "v' = v" "r = Inl e" using assms by (simp_all add: AddKeyOffer_def)
    moreover have "e \<noteq> StoreError x" for x using Inl by (auto simp: parsePrivateKey_def Let_def split: sum.splits if_splits raw_error.splits)
    ultimately show ?thesis by auto
  next
    case (Inr y)
    obtain signer normalized where y: "y = (signer, normalized)" by fastforce
    have k: "key_in L pem = Some (kl_fingerprint L (sr_public signer))" using Inr y by (simp add: key_in_def)
    show ?thesis using assms Inr y k
      by (auto simp: AddKeyOffer_def Let_def new_offer_def stored_by_def save_then_def save_def find_Some_iff
          split: sum.splits option.splits if_splits prod.splits) (metis nth_mem)+
  qed
  then show "keys_of v' = keys_of v"
    "o' \<in> set (offers_of v') \<Longrightarrow> o' \<in> set (offers_of v) \<or> po_peer_fingerprint o' = peer \<and> po_handover_id o' = hid \<and> key_in L pem = Some (po_fingerprint o')"
    "r = Inl (StoreError (ErrDuplicateKey l)) \<Longrightarrow> \<exists>k \<in> set (keys_of v). key_in L pem = Some (sk_fingerprint k)" by blast+
qed

section \<open>A key that was handed over\<close>

text \<open>
  Two instances and a network between them that loses calls and answers: the one the keys are queued at, the one they are
  for, and every store the second has had. A step is a round of collecting, anything done to the receiver's store that is
  not another offer, forgetting what is in memory, or somebody else collecting from the sender.
\<close>

record hand_over =
  ho_past :: "vault list"
  ho_node :: Node
  ho_mem :: handing
  ho_sender :: Node

definition offers_wire ::
    "'raw node_env \<Rightarrow> 'raw key_lib option \<Rightarrow> peer_identity option \<Rightarrow> delivery \<Rightarrow> string list \<Rightarrow> (Node, string + OfferedKey list) state" where
  "offers_wire W handovers peer d received = State (\<lambda>m.
     case d of
       Undelivered e \<Rightarrow> (Inl e, m)
     | AnswerLost e \<Rightarrow> (Inl e, snd (run_state (CollectKeyOffers W handovers peer received) m))
     | Delivered \<Rightarrow> (case run_state (CollectKeyOffers W handovers peer received) m of
         (r, m') \<Rightarrow> (map_sum (\<lambda>_. ''refused'') id r, m')))"

definition is_offering :: "'raw key_op \<Rightarrow> bool" where
  "is_offering op = (case op of K_AddOffer a b c d e f g \<Rightarrow> True | _ \<Rightarrow> False)"

inductive hands ::
    "'raw node_env \<Rightarrow> 'raw key_world \<Rightarrow> 'raw node_env \<Rightarrow> peer_identity \<Rightarrow> trust_record \<Rightarrow> hand_over \<Rightarrow> hand_over \<Rightarrow> bool"
    for V K W p rcd where
  hands_round: "run_state (collectKeysFrom V (Some (kw_lib K)) (offers_wire W (Some (kw_lib K)) (Some p) d) rcd)
       ((ho_node s, ho_mem s), ho_sender s) = (r, ((n, h), m)) \<Longrightarrow>
     hands V K W p rcd s \<lparr>ho_past = nd_vault n # ho_past s, ho_node = n, ho_mem = h, ho_sender = m\<rparr>"
| hands_store: "\<not> is_offering op \<Longrightarrow> v = run_key_op K sv now op (nd_vault (ho_node s)) \<Longrightarrow>
     hands V K W p rcd s (s\<lparr>ho_past := v # ho_past s,
       ho_node := (ho_node s)\<lparr>nd_engine := (nd_engine (ho_node s))\<lparr>e_vault := v\<rparr>\<rparr>\<rparr>)"
| hands_forget: "hands V K W p rcd s (s\<lparr>ho_mem := (ho_mem s)\<lparr>hs_settled := []\<rparr>\<rparr>)"
| hands_other: "pi_fingerprint other \<noteq> pi_fingerprint p \<Longrightarrow>
     run_state (CollectKeyOffers W (Some (kw_lib K)) (Some other) received) (ho_sender s) = (r, m) \<Longrightarrow>
     hands V K W p rcd s (s\<lparr>ho_sender := m\<rparr>)"

text \<open>A store got a key from a peer: it is offered there, or held.\<close>

definition got :: "'raw key_lib \<Rightarrow> string \<Rightarrow> queued_key_handover \<Rightarrow> vault \<Rightarrow> bool" where
  "got L peer q v \<longleftrightarrow>
     (\<exists>o' \<in> set (offers_of v). po_peer_fingerprint o' = peer \<and> key_in L (qh_private_key q) = Some (po_fingerprint o')) \<or>
     (\<exists>k \<in> set (keys_of v). key_in L (qh_private_key q) = Some (sk_fingerprint k))"

definition named_right :: "'raw key_lib \<Rightarrow> string \<Rightarrow> queued_key_handover set \<Rightarrow> vault \<Rightarrow> bool" where
  "named_right L peer Q v \<longleftrightarrow> (\<forall>o' \<in> set (offers_of v). po_peer_fingerprint o' = peer \<and> po_handover_id o' \<noteq> [] \<longrightarrow>
     (\<exists>q \<in> Q. qh_id q = po_handover_id o' \<and> key_in L (qh_private_key q) = Some (po_fingerprint o')))"

definition settled_right :: "'raw key_lib \<Rightarrow> string \<Rightarrow> queued_key_handover set \<Rightarrow> vault list \<Rightarrow> string list \<Rightarrow> bool" where
  "settled_right L peer Q past ids \<longleftrightarrow> (\<forall>i \<in> set ids. \<exists>q \<in> Q. qh_id q = i \<and> (\<exists>v \<in> set past. got L peer q v))"

definition hand_inv :: "'raw key_lib \<Rightarrow> string \<Rightarrow> string \<Rightarrow> queued_key_handover set \<Rightarrow> hand_over \<Rightarrow> bool" where
  "hand_inv L sender receiver Q s \<longleftrightarrow>
     set (handovers_of (nd_vault (ho_sender s))) \<subseteq> Q \<and> distinct (map qh_id (handovers_of (nd_vault (ho_sender s)))) \<and>
     named_right L sender Q (nd_vault (ho_node s)) \<and> settled_right L sender Q (ho_past s) (hs_settled (ho_mem s)) \<and>
     nd_vault (ho_node s) \<in> set (ho_past s) \<and>
     (\<forall>q \<in> Q. qh_peer_fingerprint q = receiver \<longrightarrow>
        q \<in> set (handovers_of (nd_vault (ho_sender s))) \<or> (\<exists>v \<in> set (ho_past s). got L sender q v))"

lemma settled_right_later: "settled_right L peer Q past ids \<Longrightarrow> settled_right L peer Q (v # past) ids"
  unfolding settled_right_def by (metis list.set_intros(2))

lemma named_right_fewer:
  "named_right L peer Q v \<Longrightarrow> set (offers_of v') \<subseteq> set (offers_of v) \<Longrightarrow> named_right L peer Q v'"
  unfolding named_right_def by (meson subsetD)

lemma AcceptKeyOffer_offers: "set (offers_of (fst (AcceptKeyOffer L sv now i label v))) \<subseteq> set (offers_of v)"
proof -
  have "offers_of v' \<in> {offers_of u}" if "addKeyLocked ef fpo sv now pub pem c l orig from u = (v', r)" for ef fpo pub pem c l orig "from" u v' r
    using that by (auto simp: addKeyLocked_def Let_def save_then_def save_def split: option.splits if_splits)
  then show ?thesis
    by (auto simp: AcceptKeyOffer_def takeOffer_def Let_def split: prod.split option.split sum.split list.split)
qed

lemma store_offers:
  assumes "\<not> is_offering op"
  shows "set (offers_of (run_key_op K sv now op v)) \<subseteq> set (offers_of v)"
proof (cases op)
  case (K_Accept i label)
  then show ?thesis
    using AcceptKeyOffer_offers [of "kw_lib K" sv now i label v] by simp
qed (use assms in \<open>auto simp: is_offering_def run_op_offers ImportKey_def GenerateKey_def AdoptKey_def GenerateHardwareKey_def
      addHardwareKey_def addKey_def addKeyLocked_def stored_by_def QueueHandover_def CompleteHandover_def noteHandoverLocked_def
      DropPeerHandovers_def RefuseKeyOffer_def DropPeerKeyOffers_def takeOffer_def Let_def case_prod_unfold
      split: sum.splits option.splits list.splits if_splits\<close>)

lemma take_one_leaves:
  assumes "run_state (take_one V (Some L) rcd off) (n, h) = (r, (n', h'))"
  shows "keys_of (nd_vault n') = keys_of (nd_vault n)"
    "o' \<in> set (offers_of (nd_vault n')) \<Longrightarrow> o' \<in> set (offers_of (nd_vault n)) \<or>
       po_peer_fingerprint o' = tr_fingerprint rcd \<and> po_handover_id o' = ok_handover_id off \<and>
       key_in L (ok_private_key off) = Some (po_fingerprint o')"
    "i \<in> set (hs_settled h') \<Longrightarrow> i \<in> set (hs_settled h) \<or>
       i = ok_handover_id off \<and> (\<exists>k \<in> set (keys_of (nd_vault n)). key_in L (ok_private_key off) = Some (sk_fingerprint k))"
proof -
  let ?A = "AddKeyOffer L (e_saves (nd_engine n) 0) (hs_random h 0) (tr_fingerprint rcd) (tr_name rcd) (ok_label off)
     (ok_comment off) (ok_handover_id off) (ok_private_key off) (e_clock (nd_engine n) 0) (nd_vault n)"
  obtain v ra where A: "?A = (v, ra)" by fastforce
  have "keys_of (nd_vault n') = keys_of (nd_vault n) \<and> (nd_vault n' = nd_vault n \<or> nd_vault n' = v) \<and>
      (hs_settled h' = hs_settled h \<or> (\<exists>l. ra = Inl (StoreError (ErrDuplicateKey l))) \<and> hs_settled h' = hs_settled h @ [ok_handover_id off])"
    using assms A AddKeyOffer_facts(1) [OF A]
    by (auto simp: take_one_def takeOfferedKey_def next_random_def is_duplicate_def settleHandover_def run_on_vault ticked_def
        LogKeyTransfer_def logEntry_vault split: if_splits sum.splits take_error.splits key_error.splits vault_error.splits)
  then show "keys_of (nd_vault n') = keys_of (nd_vault n)"
    "o' \<in> set (offers_of (nd_vault n')) \<Longrightarrow> o' \<in> set (offers_of (nd_vault n)) \<or>
       po_peer_fingerprint o' = tr_fingerprint rcd \<and> po_handover_id o' = ok_handover_id off \<and>
       key_in L (ok_private_key off) = Some (po_fingerprint o')"
    "i \<in> set (hs_settled h') \<Longrightarrow> i \<in> set (hs_settled h) \<or>
       i = ok_handover_id off \<and> (\<exists>k \<in> set (keys_of (nd_vault n)). key_in L (ok_private_key off) = Some (sk_fingerprint k))"
    using AddKeyOffer_facts(2,3) [OF A] by auto
qed

lemma take_each_leaves:
  assumes "run_state (take_each V (Some L) rcd offs) (n, h) = (r, (n', h'))"
  shows "keys_of (nd_vault n') = keys_of (nd_vault n) \<and>
    (\<forall>o' \<in> set (offers_of (nd_vault n')). o' \<in> set (offers_of (nd_vault n)) \<or> (\<exists>off \<in> set offs.
       po_peer_fingerprint o' = tr_fingerprint rcd \<and> po_handover_id o' = ok_handover_id off \<and>
       key_in L (ok_private_key off) = Some (po_fingerprint o'))) \<and>
    (\<forall>i \<in> set (hs_settled h'). i \<in> set (hs_settled h) \<or> (\<exists>off \<in> set offs.
       i = ok_handover_id off \<and> (\<exists>k \<in> set (keys_of (nd_vault n)). key_in L (ok_private_key off) = Some (sk_fingerprint k))))"
  using assms
proof (induction offs arbitrary: n h)
  case (Cons off offs)
  obtain r1 n1 h1 where one: "run_state (take_one V (Some L) rcd off) (n, h) = (r1, (n1, h1))" by (metis prod.exhaust)
  then have "run_state (take_each V (Some L) rcd offs) (n1, h1) = (r, (n', h'))" using Cons.prems by simp
  note IH = Cons.IH [OF this] and one = take_one_leaves [OF one]
  show ?case
  proof (intro conjI ballI)
    show "keys_of (nd_vault n') = keys_of (nd_vault n)" using IH one(1) by simp
  next
    fix o' assume "o' \<in> set (offers_of (nd_vault n'))"
    then show "o' \<in> set (offers_of (nd_vault n)) \<or> (\<exists>off \<in> set (off # offs).
       po_peer_fingerprint o' = tr_fingerprint rcd \<and> po_handover_id o' = ok_handover_id off \<and>
       key_in L (ok_private_key off) = Some (po_fingerprint o'))" using IH one(2) [of o'] by auto
  next
    fix i assume "i \<in> set (hs_settled h')"
    then show "i \<in> set (hs_settled h) \<or> (\<exists>off \<in> set (off # offs).
       i = ok_handover_id off \<and> (\<exists>k \<in> set (keys_of (nd_vault n)). key_in L (ok_private_key off) = Some (sk_fingerprint k)))"
      using IH one(1) one(3) [of i] by auto
  qed
qed simp

text \<open>What a round can have done: the sender was left alone or took the acknowledgements, and what was taken came from it.\<close>

lemma round_cases:
  assumes "run_state (collectKeysFrom V (Some L) (offers_wire W (Some L) (Some p) d) rcd) ((n, h), m) = (r, ((n', h'), m'))"
    and "distinct (map qh_id (handovers_of (nd_vault m)))"
  defines "acks \<equiv> receivedFrom (tr_fingerprint rcd) (nd_vault n) h"
  shows "handovers_of (nd_vault m') = handovers_of (nd_vault m) \<or>
      handovers_of (nd_vault m') = filter (\<lambda>q. \<not> (qh_peer_fingerprint q = pi_fingerprint p \<and> qh_id q \<in> set acks)) (handovers_of (nd_vault m))"
    "n' = n \<and> h' = h \<or> (\<exists>offs h1. set offs \<subseteq> offered_as ` set (handovers_of (nd_vault m)) \<and>
       run_state (take_each V (Some L) rcd offs) (n, h) = ((), (n', h1)) \<and> h' = forgetSettled acks h1)"
proof -
  obtain rc mc where c: "run_state (CollectKeyOffers W (Some L) (Some p) acks) m = (rc, mc)" by (metis prod.exhaust)
  note keeps = CollectKeyOffers_keeps [OF c assms(2)]
  have ran: "m' = m \<or> m' = mc"
    using assms(1) c unfolding acks_def
    by (auto simp: collectKeysFrom_def offers_wire_def split: delivery.splits sum.splits prod.splits)
  have taken: "n' = n \<and> h' = h \<or> (\<exists>offs h1. rc = Inr offs \<and> run_state (take_each V (Some L) rcd offs) (n, h) = ((), (n', h1)) \<and> h' = forgetSettled acks h1)"
  proof (cases "d = Delivered \<and> (\<exists>offs. rc = Inr offs)")
    case True
    then obtain offs where rc: "d = Delivered" "rc = Inr offs" by blast
    obtain n1 h1 where "run_state (take_each V (Some L) rcd offs) (n, h) = ((), (n1, h1))" by (metis prod.exhaust unit.exhaust)
    then show ?thesis using assms(1) c rc unfolding acks_def by (auto simp: collectKeysFrom_def offers_wire_def)
  next
    case False
    then show ?thesis using assms(1) c unfolding acks_def
      by (cases rc; cases d) (auto simp: collectKeysFrom_def offers_wire_def)
  qed
  show "handovers_of (nd_vault m') = handovers_of (nd_vault m) \<or>
      handovers_of (nd_vault m') = filter (\<lambda>q. \<not> (qh_peer_fingerprint q = pi_fingerprint p \<and> qh_id q \<in> set acks)) (handovers_of (nd_vault m))"
    using ran keeps(1) by auto
  have "set offs \<subseteq> offered_as ` set (handovers_of (nd_vault m))" if "rc = Inr offs" for offs
    using keeps(1) keeps(2) [OF that] by auto
  with taken show "n' = n \<and> h' = h \<or> (\<exists>offs h1. set offs \<subseteq> offered_as ` set (handovers_of (nd_vault m)) \<and>
       run_state (take_each V (Some L) rcd offs) (n, h) = ((), (n', h1)) \<and> h' = forgetSettled acks h1)" by blast
qed

lemma acks_right:
  assumes "hand_inv L peer receiver Q s" "inj_on qh_id Q" "q \<in> Q"
    "qh_id q \<in> set (receivedFrom peer (nd_vault (ho_node s)) (ho_mem s))"
  shows "\<exists>v \<in> set (ho_past s). got L peer q v"
proof -
  have same: "q' = q" if "q' \<in> Q" "qh_id q' = qh_id q" for q' using assms(2,3) that by (auto dest: inj_onD)
  consider o' where "o' \<in> set (offers_of (nd_vault (ho_node s)))" "po_peer_fingerprint o' = peer" "po_handover_id o' \<noteq> []"
      "po_handover_id o' = qh_id q" | "qh_id q \<in> set (hs_settled (ho_mem s))"
    using assms(4) by (auto simp: receivedFrom_def)
  then show ?thesis
  proof cases
    case 1
    then have "got L peer q (nd_vault (ho_node s))"
      using assms(1) same unfolding hand_inv_def named_right_def got_def by metis
    then show ?thesis using assms(1) by (auto simp: hand_inv_def)
  next
    case 2
    then show ?thesis using assms(1) same unfolding hand_inv_def settled_right_def by metis
  qed
qed

lemma round_inv:
  assumes inv: "hand_inv L (tr_fingerprint rcd) (pi_fingerprint p) Q s" and inj: "inj_on qh_id Q"
    and ran: "run_state (collectKeysFrom V (Some L) (offers_wire W (Some L) (Some p) d) rcd) ((ho_node s, ho_mem s), ho_sender s) = (r, ((n, h), m))"
  shows "hand_inv L (tr_fingerprint rcd) (pi_fingerprint p) Q \<lparr>ho_past = nd_vault n # ho_past s, ho_node = n, ho_mem = h, ho_sender = m\<rparr>"
proof -
  let ?S = "tr_fingerprint rcd" and ?qs = "handovers_of (nd_vault (ho_sender s))"
  have here: "nd_vault (ho_node s) \<in> set (ho_past s)" and sub: "set ?qs \<subseteq> Q" and dist: "distinct (map qh_id ?qs)"
    and right: "named_right L ?S Q (nd_vault (ho_node s))" "settled_right L ?S Q (ho_past s) (hs_settled (ho_mem s))"
    and kept: "\<And>q. q \<in> Q \<Longrightarrow> qh_peer_fingerprint q = pi_fingerprint p \<Longrightarrow> q \<in> set ?qs \<or> (\<exists>v \<in> set (ho_past s). got L ?S q v)"
    using inv by (auto simp: hand_inv_def)
  note r = round_cases [OF ran dist]
  have queue: "set (handovers_of (nd_vault m)) \<subseteq> set ?qs" "distinct (map qh_id (handovers_of (nd_vault m)))"
    using r(1) dist by (auto intro: distinct_map_filter)
  have still: "q \<in> set (handovers_of (nd_vault m)) \<or> (\<exists>v \<in> set (ho_past s). got L ?S q v)"
    if "q \<in> Q" "qh_peer_fingerprint q = pi_fingerprint p" for q
    using r(1) kept [OF that] acks_right [OF inv inj that(1)] by auto
  have news: "\<exists>q \<in> Q. off = offered_as q" if "set offs \<subseteq> offered_as ` set ?qs" "off \<in> set offs" for off offs
    using that sub by blast
  have "named_right L ?S Q (nd_vault n) \<and> settled_right L ?S Q (ho_past s) (hs_settled h)"
    using r(2)
  proof (elim disjE exE conjE)
    fix offs h1
    assume offs: "set offs \<subseteq> offered_as ` set ?qs"
      and t: "run_state (take_each V (Some L) rcd offs) (ho_node s, ho_mem s) = ((), n, h1)"
      and h: "h = forgetSettled (receivedFrom ?S (nd_vault (ho_node s)) (ho_mem s)) h1"
    note t = take_each_leaves [OF t]
    have "named_right L ?S Q (nd_vault n)" unfolding named_right_def
    proof (intro ballI impI)
      fix o' assume o: "o' \<in> set (offers_of (nd_vault n))" "po_peer_fingerprint o' = ?S \<and> po_handover_id o' \<noteq> []"
      show "\<exists>q \<in> Q. qh_id q = po_handover_id o' \<and> key_in L (qh_private_key q) = Some (po_fingerprint o')"
        using t o right(1) news [OF offs] unfolding named_right_def by (fastforce simp: offered_as_def)
    qed
    moreover have "settled_right L ?S Q (ho_past s) (hs_settled h)" unfolding settled_right_def
    proof
      fix i assume "i \<in> set (hs_settled h)"
      then have "i \<in> set (hs_settled h1)" using h by (simp add: forgetSettled_def)
      then consider "i \<in> set (hs_settled (ho_mem s))"
        | off where "off \<in> set offs" "i = ok_handover_id off"
            "\<exists>k \<in> set (keys_of (nd_vault (ho_node s))). key_in L (ok_private_key off) = Some (sk_fingerprint k)"
        using t by blast
      then show "\<exists>q \<in> Q. qh_id q = i \<and> (\<exists>v \<in> set (ho_past s). got L ?S q v)"
      proof cases
        case 1
        then show ?thesis using right(2) by (simp add: settled_right_def)
      next
        case 2
        then obtain q where "q \<in> Q" "off = offered_as q" using news [OF offs] by blast
        then show ?thesis using 2 here by (auto simp: offered_as_def got_def)
      qed
    qed
    ultimately show ?thesis by simp
  qed (use right in simp)
  then show ?thesis using queue sub still by (auto simp: hand_inv_def settled_right_later)
qed

lemma hands_inv:
  assumes "hands V K W p rcd s s'" "hand_inv (kw_lib K) (tr_fingerprint rcd) (pi_fingerprint p) Q s" "inj_on qh_id Q"
  shows "hand_inv (kw_lib K) (tr_fingerprint rcd) (pi_fingerprint p) Q s'"
  using assms(1)
proof cases
  case (hands_round d r n h m)
  then show ?thesis using round_inv [OF assms(2,3)] by simp
next
  case (hands_store op v sv now)
  have "named_right (kw_lib K) (tr_fingerprint rcd) Q v"
    using store_offers [OF hands_store(2)] hands_store(3) assms(2) named_right_fewer by (simp add: hand_inv_def) blast
  then show ?thesis using assms(2) hands_store(1) by (auto simp: hand_inv_def settled_right_later)
next
  case hands_forget
  then show ?thesis using assms(2) by (auto simp: hand_inv_def settled_right_def)
next
  case (hands_other other received r m)
  have dist: "distinct (map qh_id (handovers_of (nd_vault (ho_sender s))))" using assms(2) by (simp add: hand_inv_def)
  have "handovers_of (nd_vault m) = handovers_of (nd_vault (ho_sender s)) \<or>
      handovers_of (nd_vault m) = filter (\<lambda>q. \<not> (qh_peer_fingerprint q = pi_fingerprint other \<and> qh_id q \<in> set received)) (handovers_of (nd_vault (ho_sender s)))"
    using CollectKeyOffers_keeps(1) [OF hands_other(3) dist] by auto
  then have "set (handovers_of (nd_vault m)) \<subseteq> set (handovers_of (nd_vault (ho_sender s)))"
    "distinct (map qh_id (handovers_of (nd_vault m)))"
    "\<And>q. q \<in> set (handovers_of (nd_vault (ho_sender s))) \<Longrightarrow> qh_peer_fingerprint q = pi_fingerprint p \<Longrightarrow> q \<in> set (handovers_of (nd_vault m))"
    using dist hands_other(2) by (auto intro: distinct_map_filter)
  then show ?thesis using assms(2) hands_other(1) by (auto simp: hand_inv_def)
qed

section \<open>Properties\<close>


definition queued_key :: queued_key_handover where
  "queued_key = \<lparr>qh_id = ''h1'', qh_peer_fingerprint = ''F'', qh_peer_name = ''box'', qh_label = ''work'', qh_comment = [],
     qh_fingerprint = ''blob'', qh_private_key = ''pem'', qh_queued_at = Some 1\<rparr>"

definition with_a_key :: Node where
  "with_a_key = (one_peer ''F'' ''box'')\<lparr>nd_engine := (nd_engine (one_peer ''F'' ''box''))\<lparr>
     e_vault := with_handovers (\<lambda>_. [queued_key]) (nd_vault (one_peer ''F'' ''box''))\<rparr>\<rparr>"

definition waits_for_key :: hand_over where
  "waits_for_key = \<lparr>ho_past = [nd_vault (one_peer ''S'' ''desk'')], ho_node = one_peer ''S'' ''desk'',
     ho_mem = \<lparr>hs_settled = [], hs_random = (\<lambda>_. Inr ''0123456789abcdef''), hs_waking = \<lparr>wk_announced = Map.empty, wk_knocks = []\<rparr>\<rparr>, ho_sender = with_a_key\<rparr>"

definition from_desk :: trust_record where
  "from_desk = empty_record\<lparr>tr_fingerprint := ''S'', tr_name := ''desk''\<rparr>"

definition after_round :: "delivery \<Rightarrow> hand_over \<Rightarrow> hand_over" where
  "after_round d s =
     (case run_state (collectKeysFrom plain_env (Some small_key_lib) (offers_wire plain_env (Some small_key_lib) (Some caller_F) d) from_desk)
         ((ho_node s, ho_mem s), ho_sender s) of
        (_, ((n, h), m)) \<Rightarrow> \<lparr>ho_past = nd_vault n # ho_past s, ho_node = n, ho_mem = h, ho_sender = m\<rparr>)"

lemma after_round_hands: "hands plain_env small_world plain_env caller_F from_desk s (after_round d s)"
proof -
  obtain r n h m where "run_state (collectKeysFrom plain_env (Some (kw_lib small_world))
      (offers_wire plain_env (Some (kw_lib small_world)) (Some caller_F) d) from_desk) ((ho_node s, ho_mem s), ho_sender s) = (r, ((n, h), m))"
    by (metis prod.exhaust)
  from this hands.hands_round [OF this] show ?thesis by (simp add: after_round_def small_world_def)
qed


text \<open>
  A key that is pushed to a peer that already holds it is refused there, and the sender keeps it queued: unlike the peer that
  collects, the one that is pushed at has no way to say that there is nothing left to do, and every round pushes it again.
\<close>

lemma pushed_duplicate_stays:
  assumes "Dialable rcd version" "parsePrivateKey L (qh_private_key q) [] = Inr (signer, normalized)"
    and "qh_private_key q \<noteq> []" "length (qh_private_key q) \<le> maxKeyBytes"
    and "k \<in> set (keys_of (nd_vault m))" "sk_fingerprint k = kl_fingerprint L (sr_public signer)" "newOfferID (hs_random hm 0) = Inr i"
    and call: "\<And>off. call off = State (\<lambda>(m, hm). case run_state (takeOfferedKey V (Some L) peer pr off) (m, hm) of
           (r, s) \<Rightarrow> (case r of Inl e \<Rightarrow> Some ''refused'' | Inr _ \<Rightarrow> None, s))"
  shows "nd_vault (fst (fst (snd (run_state (deliverHandover relay version call rcd q) ((n, h), (m, hm)))))) = nd_vault n"
proof -
  obtain k' where "find (\<lambda>k. sk_fingerprint k = kl_fingerprint L (sr_public signer)) (keys_of (nd_vault m)) = Some k'"
    using assms(5,6) by (cases "find (\<lambda>k. sk_fingerprint k = kl_fingerprint L (sr_public signer)) (keys_of (nd_vault m))")
      (auto simp: find_None_iff)
  then show ?thesis using assms
    by (simp add: deliverHandover_def takeOfferedKey_def offered_as_def next_random_def run_on_vault ticked_def AddKeyOffer_def
        new_offer_def Let_def)
qed

end
