(* ===== verification/Cpace.thy ===== *)
theory Cpace
  imports Codec
begin

text \<open>
  The password-authenticated exchange behind the pairing PIN (\<^verbatim>\<open>src/internal/cpace/cpace.go\<close>).

  The group is the record \<open>group_lib\<close>, what the ristretto255 package answers over its own types of scalars and elements, with
  SHA-512 and HMAC-SHA-512 beside it. Where the code reads random bytes, each read of 32 bytes is an answer of a supply: the
  bytes, or the error.
\<close>

section \<open>Parts with their lengths\<close>

function leb128 :: "nat \<Rightarrow> bytes" where
  "leb128 n = (if n < 128 then [byte_of n] else byte_of (n mod 128 + 128) # leb128 (n div 128))"
  by auto
termination by (relation "measure id") auto

declare leb128.simps [simp del]

definition prependLen :: "bytes \<Rightarrow> bytes" where
  "prependLen part = leb128 (length part) @ part"

definition LVCat :: "bytes list \<Rightarrow> bytes" where
  "LVCat parts = concat (map prependLen parts)"

text \<open>A reader for what these write. It is not part of the code: nothing there parses them.\<close>

fun read_leb :: "bytes \<Rightarrow> (nat \<times> bytes) option" where
  "read_leb [] = None"
| "read_leb (c # cs) =
     (if (of_char c :: nat) < 128 then Some (of_char c, cs)
      else case read_leb cs of None \<Rightarrow> None | Some (n, rest) \<Rightarrow> Some (of_char c - 128 + 128 * n, rest))"

definition read_part :: "bytes \<Rightarrow> (bytes \<times> bytes) option" where
  "read_part s = (case read_leb s of None \<Rightarrow> None | Some (n, rest) \<Rightarrow> Some (take n rest, drop n rest))"

lemma read_leb_written: "read_leb (leb128 n @ rest) = Some (n, rest)"
proof (induction n rule: leb128.induct)
  case (1 n)
  show ?case
  proof (cases "n < 128")
    case True
    then show ?thesis by (subst leb128.simps) simp
  next
    case False
    then show ?thesis using 1 by (subst leb128.simps) (simp add: mult.commute [of 128] div_mult_mod_eq)
  qed
qed

lemma read_part_written: "read_part (prependLen part @ rest) = Some (part, rest)"
  by (simp add: read_part_def prependLen_def read_leb_written)

lemma prependLen_append_eq: "prependLen a @ x = prependLen b @ y \<longleftrightarrow> a = b \<and> x = y"
  by (metis read_part_written option.inject prod.inject)

lemma prependLen_not_Nil: "prependLen a \<noteq> []"
  by (simp add: prependLen_def leb128.simps [of "length a"])

lemma LVCat_simps: "LVCat [] = []" "LVCat (p # ps) = prependLen p @ LVCat ps"
  by (simp_all add: LVCat_def)

lemma LVCat_inj: "LVCat xs = LVCat ys \<longleftrightarrow> xs = ys"
proof (induction xs arbitrary: ys)
  case Nil
  then show ?case by (cases ys) (simp_all add: LVCat_simps prependLen_not_Nil)
next
  case (Cons x xs)
  then show ?case by (cases ys) (simp_all add: LVCat_simps prependLen_not_Nil prependLen_append_eq)
qed

lemma LVCat_append_inj: "length xs = length ys \<Longrightarrow> LVCat xs @ a = LVCat ys @ b \<longleftrightarrow> xs = ys \<and> a = b"
  by (induction xs ys rule: list_induct2) (auto simp: LVCat_simps prependLen_append_eq)

section \<open>The exchange\<close>

record ('s, 'e) group_lib =
  gl_scalar :: "bytes \<Rightarrow> string + 's"
  gl_zero :: 's
  gl_uniform :: "bytes \<Rightarrow> string + 'e"
  gl_element :: "bytes \<Rightarrow> string + 'e"
  gl_mult :: "'s \<Rightarrow> 'e \<Rightarrow> 'e"
  gl_identity :: 'e
  gl_bytes :: "'e \<Rightarrow> bytes"
  gl_sha512 :: "bytes \<Rightarrow> bytes"
  gl_hmac :: "bytes \<Rightarrow> bytes \<Rightarrow> bytes"

datatype cpace_error =
    ErrInvalidShare | ErrNoSessionID | ErrSpent | NoScalarRandomness string | ScalarNotSampled string | GeneratorNotDerived string

type_synonym reads = "nat \<Rightarrow> string + bytes"

definition DSI :: string where "DSI = ''CPaceRistretto255''"
definition isk_label :: string where "isk_label = DSI @ ''_ISK''"
definition mac_label :: string where "mac_label = ''CPaceMac''"
definition sInBytes :: nat where "sInBytes = 128"
definition fieldSizeBytes :: nat where "fieldSizeBytes = 32"

record Inputs =
  in_prs :: bytes
  in_ci :: bytes
  in_sid :: bytes

record 's Initiator =
  it_in :: Inputs
  it_y :: "'s option"
  it_share :: bytes
  it_ad :: bytes
  it_done :: bool

record Session =
  ss_isk :: bytes
  ss_macKey :: bytes
  ss_ownMsg :: bytes
  ss_peerMsg :: bytes

definition generatorString :: "bytes \<Rightarrow> bytes \<Rightarrow> bytes \<Rightarrow> bytes \<Rightarrow> nat \<Rightarrow> bytes" where
  "generatorString dsi prs ci sid s_in_bytes =
     LVCat [dsi, prs, replicate (s_in_bytes - 1 - length (prependLen prs) - length (prependLen dsi)) (CHR 0x00), ci, sid]"

definition calculateGenerator :: "('s, 'e) group_lib \<Rightarrow> bytes \<Rightarrow> bytes \<Rightarrow> bytes \<Rightarrow> cpace_error + 'e" where
  "calculateGenerator G prs ci sid =
     map_sum GeneratorNotDerived id
       (gl_uniform G (take (2 * fieldSizeBytes) (gl_sha512 G (generatorString DSI prs ci sid sInBytes))))"

text \<open>The top nibble is cleared, which keeps the number below the order of the group.\<close>

definition clear_top :: "bytes \<Rightarrow> bytes" where
  "clear_top buf = buf[31 := byte_of (byte_at buf 31 mod 16)]"

partial_function (option) sampleScalar :: "('s, 'e) group_lib \<Rightarrow> reads \<Rightarrow> ((cpace_error + 's) \<times> reads) option" where
  "sampleScalar G random =
     (case random 0 of
        Inl e \<Rightarrow> Some (Inl (NoScalarRandomness e), random \<circ> Suc)
      | Inr buf \<Rightarrow>
          (case gl_scalar G (clear_top buf) of
             Inl e \<Rightarrow> Some (Inl (ScalarNotSampled e), random \<circ> Suc)
           | Inr s \<Rightarrow> if s \<noteq> gl_zero G then Some (Inr s, random \<circ> Suc) else sampleScalar G (random \<circ> Suc)))"

definition scalarMult :: "('s, 'e) group_lib \<Rightarrow> 's \<Rightarrow> 'e \<Rightarrow> bytes" where
  "scalarMult G y g = gl_bytes G (gl_mult G y g)"

definition scalarMultVfy :: "('s, 'e) group_lib \<Rightarrow> 's option \<Rightarrow> bytes \<Rightarrow> cpace_error + bytes" where
  "scalarMultVfy G y encoded =
     (case y of
        None \<Rightarrow> Inl ErrSpent
      | Some y \<Rightarrow>
          (case gl_element G encoded of
             Inl e \<Rightarrow> Inl ErrInvalidShare
           | Inr x \<Rightarrow>
               let k = gl_mult G y x
               in if k = gl_identity G then Inl ErrInvalidShare else Inr (gl_bytes G k)))"

definition isk_input :: "bytes \<Rightarrow> bytes \<Rightarrow> bytes \<Rightarrow> bytes \<Rightarrow> bytes" where
  "isk_input sid k msgA msgB = LVCat [isk_label, sid, k] @ msgA @ msgB"

definition mac_key_input :: "bytes \<Rightarrow> bytes \<Rightarrow> bytes" where
  "mac_key_input sid isk = mac_label @ sid @ isk"

definition newSession :: "('s, 'e) group_lib \<Rightarrow> bytes \<Rightarrow> bytes \<Rightarrow> bytes \<Rightarrow> bytes \<Rightarrow> bytes \<Rightarrow> bytes \<Rightarrow> Session" where
  "newSession G sid k ownMsg peerMsg msgA msgB =
     (let isk = gl_sha512 G (isk_input sid k msgA msgB)
      in \<lparr>ss_isk = isk, ss_macKey = gl_sha512 G (mac_key_input sid isk), ss_ownMsg = ownMsg, ss_peerMsg = peerMsg\<rparr>)"

definition newInitiator ::
    "('s, 'e) group_lib \<Rightarrow> Inputs \<Rightarrow> bytes \<Rightarrow> reads \<Rightarrow> ((cpace_error + 's Initiator) \<times> reads) option" where
  "newInitiator G inp ad random =
     (if in_sid inp = [] then Some (Inl ErrNoSessionID, random)
      else case sampleScalar G random of
          None \<Rightarrow> None
        | Some (Inl e, rest) \<Rightarrow> Some (Inl e, rest)
        | Some (Inr y, rest) \<Rightarrow>
            (case calculateGenerator G (in_prs inp) (in_ci inp) (in_sid inp) of
               Inl e \<Rightarrow> Some (Inl e, rest)
             | Inr g \<Rightarrow> Some (Inr \<lparr>it_in = inp, it_y = Some y, it_share = scalarMult G y g, it_ad = ad, it_done = False\<rparr>, rest)))"

definition Finish ::
    "('s, 'e) group_lib \<Rightarrow> 's Initiator \<Rightarrow> bytes \<Rightarrow> bytes \<Rightarrow> 's Initiator \<times> (cpace_error + Session)" where
  "Finish G a peerShare peerAD =
     (if it_done a then (a, Inl ErrSpent)
      else let a' = a\<lparr>it_done := True, it_y := None\<rparr>
        in case scalarMultVfy G (it_y a) peerShare of
            Inl e \<Rightarrow> (a', Inl e)
          | Inr k \<Rightarrow>
              let ownMsg = LVCat [it_share a, it_ad a]; peerMsg = LVCat [peerShare, peerAD]
              in (a', Inr (newSession G (in_sid (it_in a)) k ownMsg peerMsg ownMsg peerMsg)))"

definition respond ::
    "('s, 'e) group_lib \<Rightarrow> Inputs \<Rightarrow> bytes \<Rightarrow> bytes \<Rightarrow> bytes \<Rightarrow> reads \<Rightarrow> ((cpace_error + bytes \<times> Session) \<times> reads) option" where
  "respond G inp ad peerShare peerAD random =
     (if in_sid inp = [] then Some (Inl ErrNoSessionID, random)
      else case sampleScalar G random of
          None \<Rightarrow> None
        | Some (Inl e, rest) \<Rightarrow> Some (Inl e, rest)
        | Some (Inr y, rest) \<Rightarrow>
            (case calculateGenerator G (in_prs inp) (in_ci inp) (in_sid inp) of
               Inl e \<Rightarrow> Some (Inl e, rest)
             | Inr g \<Rightarrow>
                 let share = scalarMult G y g
                 in case scalarMultVfy G (Some y) peerShare of
                     Inl e \<Rightarrow> Some (Inl e, rest)
                   | Inr k \<Rightarrow>
                       let ownMsg = LVCat [share, ad]; peerMsg = LVCat [peerShare, peerAD]
                       in Some (Inr (share, newSession G (in_sid inp) k ownMsg peerMsg peerMsg ownMsg), rest)))"

definition tag :: "('s, 'e) group_lib \<Rightarrow> bytes \<Rightarrow> bytes \<Rightarrow> bytes" where
  "tag G key msg = gl_hmac G key msg"

definition Session_Confirmation :: "('s, 'e) group_lib \<Rightarrow> Session \<Rightarrow> bytes" where
  "Session_Confirmation G s = tag G (ss_macKey s) (ss_ownMsg s)"

definition Session_Verify :: "('s, 'e) group_lib \<Rightarrow> Session \<Rightarrow> bytes \<Rightarrow> bool" where
  "Session_Verify G s peerTag \<longleftrightarrow> tag G (ss_macKey s) (ss_peerMsg s) = peerTag"

section \<open>What the exchange settles\<close>

text \<open>What the exchange relies on of the group and the hash.\<close>

definition group_laws :: "('s, 'e) group_lib \<Rightarrow> bool" where
  "group_laws G \<longleftrightarrow>
     (\<forall>x y e. gl_mult G x (gl_mult G y e) = gl_mult G y (gl_mult G x e)) \<and>
     (\<forall>y e e'. y \<noteq> gl_zero G \<and> gl_mult G y e = gl_mult G y e' \<longrightarrow> e = e') \<and>
     (\<forall>e. gl_element G (gl_bytes G e) = Inr e) \<and> (\<forall>x. length (gl_sha512 G x) = 64)"

lemma group_lawsD:
  assumes "group_laws G"
  shows "gl_mult G x (gl_mult G y e) = gl_mult G y (gl_mult G x e)"
    "y \<noteq> gl_zero G \<Longrightarrow> gl_mult G y e = gl_mult G y e' \<longleftrightarrow> e = e'"
    "gl_element G (gl_bytes G e) = Inr e" "length (gl_sha512 G z) = 64" "gl_bytes G e = gl_bytes G e' \<longleftrightarrow> e = e'"
  using assms unfolding group_laws_def by (blast, blast, blast, blast, metis sum.inject(2))

lemma sampleScalar_nonzero:
  assumes "sampleScalar G random = Some (Inr y, rest)"
  shows "y \<noteq> gl_zero G"
proof -
  have "\<forall>y. fst p = Inr y \<longrightarrow> y \<noteq> gl_zero G" if "sampleScalar G random = Some p" for p
    using _ that by (rule sampleScalar.raw_induct) (auto split: sum.splits if_splits)
  then show ?thesis using assms by auto
qed

lemma sampleScalar_returns:
  assumes "case random i of Inl e \<Rightarrow> True | Inr buf \<Rightarrow> gl_scalar G (clear_top buf) \<noteq> Inr (gl_zero G)"
  shows "\<exists>r rest. sampleScalar G random = Some (r, rest)"
  using assms
proof (induction i arbitrary: random)
  case 0
  then show ?case by (subst sampleScalar.simps) (auto split: sum.splits)
next
  case (Suc i)
  then have "\<exists>r rest. sampleScalar G (random \<circ> Suc) = Some (r, rest)" by simp
  then show ?case by (subst sampleScalar.simps) (auto split: sum.split)
qed

lemma newInitiator_run:
  assumes "newInitiator G inp ad random = Some (Inr a, rest)"
  obtains y g where "y \<noteq> gl_zero G" "calculateGenerator G (in_prs inp) (in_ci inp) (in_sid inp) = Inr g" "in_sid inp \<noteq> []"
    "a = \<lparr>it_in = inp, it_y = Some y, it_share = gl_bytes G (gl_mult G y g), it_ad = ad, it_done = False\<rparr>"
  using assms sampleScalar_nonzero [of G random]
  by (auto simp: newInitiator_def scalarMult_def split: if_splits option.splits sum.splits prod.splits)

lemma respond_run:
  assumes "respond G inp ad peerShare peerAD random = Some (Inr (share, s), rest)" "sampleScalar G random = Some (Inr y, rest)"
  obtains g x where "y \<noteq> gl_zero G" "calculateGenerator G (in_prs inp) (in_ci inp) (in_sid inp) = Inr g"
    "share = gl_bytes G (gl_mult G y g)" "gl_element G peerShare = Inr x" "gl_mult G y x \<noteq> gl_identity G"
    "s = newSession G (in_sid inp) (gl_bytes G (gl_mult G y x)) (LVCat [share, ad]) (LVCat [peerShare, peerAD])
           (LVCat [peerShare, peerAD]) (LVCat [share, ad])"
  using assms sampleScalar_nonzero [OF assms(2)]
  by (auto simp: respond_def scalarMult_def scalarMultVfy_def Let_def split: if_splits option.splits sum.splits prod.splits)

lemma Finish_run:
  assumes "it_y a = Some y" "\<not> it_done a"
  shows "snd (Finish G a share ad) = Inr s \<longleftrightarrow> (\<exists>x. gl_element G share = Inr x \<and> gl_mult G y x \<noteq> gl_identity G \<and>
    s = newSession G (in_sid (it_in a)) (gl_bytes G (gl_mult G y x)) (LVCat [it_share a, it_ad a]) (LVCat [share, ad])
          (LVCat [it_share a, it_ad a]) (LVCat [share, ad]))"
  using assms by (auto simp: Finish_def scalarMultVfy_def Let_def split: sum.split)

text \<open>Two strings that a function takes to the same value are the same.\<close>

definition told_apart :: "('a \<Rightarrow> 'b) \<Rightarrow> 'a \<Rightarrow> 'a \<Rightarrow> bool" where
  "told_apart f x y \<longleftrightarrow> f x \<noteq> f y \<or> x = y"

definition generator_of :: "('s, 'e) group_lib \<Rightarrow> bytes \<Rightarrow> string + 'e" where
  "generator_of G s = gl_uniform G (take (2 * fieldSizeBytes) (gl_sha512 G s))"

definition input_string :: "Inputs \<Rightarrow> bytes" where
  "input_string inp = generatorString DSI (in_prs inp) (in_ci inp) (in_sid inp) sInBytes"

text \<open>
  The four pairs of inputs that the two sides of a run hash or authenticate: what the generators come from, what the session
  keys come from, what the keys of the tags come from, and the tags.
\<close>

definition run_apart ::
    "('s, 'e) group_lib \<Rightarrow> 's Initiator \<Rightarrow> Inputs \<Rightarrow> 's \<Rightarrow> bytes \<Rightarrow> bytes \<Rightarrow> bytes \<Rightarrow> bytes \<Rightarrow> bytes \<Rightarrow> Session \<Rightarrow> Session \<Rightarrow> bool" where
  "run_apart G a inB yB shareA adA shareB adB adB' sa sb \<longleftrightarrow>
     told_apart (generator_of G) (input_string (it_in a)) (input_string inB) \<and>
     told_apart (gl_sha512 G)
       (isk_input (in_sid (it_in a)) (projr (scalarMultVfy G (it_y a) shareB)) (LVCat [it_share a, it_ad a]) (LVCat [shareB, adB']))
       (isk_input (in_sid inB) (projr (scalarMultVfy G (Some yB) shareA)) (LVCat [shareA, adA]) (LVCat [shareB, adB])) \<and>
     told_apart (gl_sha512 G) (mac_key_input (in_sid (it_in a)) (ss_isk sa)) (mac_key_input (in_sid inB) (ss_isk sb)) \<and>
     told_apart (\<lambda>(k, m). gl_hmac G k m) (ss_macKey sa, ss_peerMsg sa) (ss_macKey sb, ss_ownMsg sb)"

lemma input_string_inj: "input_string x = input_string y \<longleftrightarrow> x = y"
  by (auto simp: input_string_def generatorString_def LVCat_inj)

lemma calculateGenerator_iff:
  "calculateGenerator G (in_prs inp) (in_ci inp) (in_sid inp) = Inr g \<longleftrightarrow> generator_of G (input_string inp) = Inr g"
  by (cases "generator_of G (input_string inp)") (simp_all add: calculateGenerator_def generator_of_def input_string_def)

lemma newSession_simps [simp]:
  "ss_ownMsg (newSession G sid k o' p a b) = o'" "ss_peerMsg (newSession G sid k o' p a b) = p"
  "ss_isk (newSession G sid k o' p a b) = gl_sha512 G (isk_input sid k a b)"
  "ss_macKey (newSession G sid k o' p a b) = gl_sha512 G (mac_key_input sid (gl_sha512 G (isk_input sid k a b)))"
  by (simp_all add: newSession_def Let_def)

text \<open>
  C19: The PIN exchange tells exactly who knows the PIN. Between a listener and a joiner that each run it on what they have, the
  tag of the joiner verifies at the listener if and only if both used the same PIN, the same two identity keys and the same
  session, and the listener's share and the labels of both sides arrived as they were sent - unless two different inputs of
  this very run were hashed or authenticated to the same value.
\<close>

theorem pin_exchange_exact:
  assumes G: "group_laws G"
    and A: "newInitiator G inA adA rA = Some (Inr a, rA')"
    and B: "respond G inB adB shareA adA' rB = Some (Inr (shareB, sb), rB')" "sampleScalar G rB = Some (Inr yB, rB')"
    and F: "Finish G a shareB adB' = (a', Inr sa)"
    and apart: "run_apart G a inB yB shareA adA' shareB adB adB' sa sb"
  shows "Session_Verify G sa (Session_Confirmation G sb) \<longleftrightarrow> inB = inA \<and> shareA = it_share a \<and> adA' = adA \<and> adB' = adB"
proof -
  note laws = group_lawsD [OF G]
  obtain ya ga where a: "ya \<noteq> gl_zero G" "calculateGenerator G (in_prs inA) (in_ci inA) (in_sid inA) = Inr ga"
    "a = \<lparr>it_in = inA, it_y = Some ya, it_share = gl_bytes G (gl_mult G ya ga), it_ad = adA, it_done = False\<rparr>"
    using newInitiator_run [OF A] by metis
  obtain gb x where b: "yB \<noteq> gl_zero G" "calculateGenerator G (in_prs inB) (in_ci inB) (in_sid inB) = Inr gb"
    "shareB = gl_bytes G (gl_mult G yB gb)" "gl_element G shareA = Inr x" "gl_mult G yB x \<noteq> gl_identity G"
    and sb: "sb = newSession G (in_sid inB) (gl_bytes G (gl_mult G yB x)) (LVCat [shareB, adB]) (LVCat [shareA, adA'])
           (LVCat [shareA, adA']) (LVCat [shareB, adB])"
    using respond_run [OF B] by metis
  let ?kA = "gl_mult G ya (gl_mult G yB gb)"
  have sa: "sa = newSession G (in_sid inA) (gl_bytes G ?kA) (LVCat [it_share a, adA]) (LVCat [shareB, adB'])
      (LVCat [it_share a, adA]) (LVCat [shareB, adB'])" and kA: "?kA \<noteq> gl_identity G"
    using F Finish_run [of a ya G shareB adB' sa] a(3) b(3) laws(3) by auto
  have vA: "scalarMultVfy G (it_y a) shareB = Inr (gl_bytes G ?kA)" "scalarMultVfy G (Some yB) shareA = Inr (gl_bytes G (gl_mult G yB x))"
    using a(3) b kA laws(3) by (simp_all add: scalarMultVfy_def)
  have gen: "ga = gb \<Longrightarrow> inA = inB"
    using apart a(2,3) b(2) by (auto simp: calculateGenerator_iff run_apart_def told_apart_def input_string_inj)
  show ?thesis
  proof
    assume "Session_Verify G sa (Session_Confirmation G sb)"
    then have "gl_hmac G (ss_macKey sa) (ss_peerMsg sa) = gl_hmac G (ss_macKey sb) (ss_ownMsg sb)"
      by (simp add: Session_Verify_def Session_Confirmation_def tag_def)
    then have "ss_macKey sa = ss_macKey sb" "adB' = adB"
      using apart sa sb by (auto simp: run_apart_def told_apart_def LVCat_inj)
    then have "mac_key_input (in_sid inA) (ss_isk sa) = mac_key_input (in_sid inB) (ss_isk sb)"
      using apart sa sb a(3) by (auto simp: run_apart_def told_apart_def)
    then have "ss_isk sa = ss_isk sb"
      using laws(4) sa sb by (auto simp: mac_key_input_def append_eq_append_conv)
    then have "isk_input (in_sid inA) (gl_bytes G ?kA) (LVCat [it_share a, adA]) (LVCat [shareB, adB']) =
        isk_input (in_sid inB) (gl_bytes G (gl_mult G yB x)) (LVCat [shareA, adA']) (LVCat [shareB, adB])"
      using apart sa sb a(3) vA by (auto simp: run_apart_def told_apart_def)
    then have "gl_bytes G ?kA = gl_bytes G (gl_mult G yB x)" "shareA = it_share a" "adA' = adA"
      by (simp_all add: isk_input_def LVCat_append_inj)
    moreover from this have "x = gl_mult G ya ga" using b(4) a(3) laws(3) by simp
    ultimately show "inB = inA \<and> shareA = it_share a \<and> adA' = adA \<and> adB' = adB"
      using gen laws(1,2,5) a(1) b(1) \<open>adB' = adB\<close> by metis
  next
    assume same: "inB = inA \<and> shareA = it_share a \<and> adA' = adA \<and> adB' = adB"
    then have "ga = gb" "x = gl_mult G ya ga" using a b laws(3) by auto
    then have "gl_mult G yB x = ?kA" using laws(1) by simp
    then show "Session_Verify G sa (Session_Confirmation G sb)"
      using sa sb same by (simp add: Session_Verify_def Session_Confirmation_def)
  qed
qed

definition two_group :: "(bool, bool) group_lib" where
  "two_group = \<lparr>gl_scalar = (\<lambda>b. Inr (byte_at b 0 \<noteq> 0)), gl_zero = False, gl_uniform = (\<lambda>_. Inr True),
     gl_element = (\<lambda>b. if b = ''1'' then Inr True else if b = ''0'' then Inr False else Inl ''not canonical''),
     gl_mult = (\<and>), gl_identity = False, gl_bytes = (\<lambda>e. if e then ''1'' else ''0''),
     gl_sha512 = (\<lambda>_. replicate 64 (CHR ''h'')), gl_hmac = (\<lambda>k m. k @ m)\<rparr>"

lemma two_group_laws: "group_laws two_group"
  by (auto simp: group_laws_def two_group_def)

lemma two_group_simps:
  "gl_bytes two_group True = ''1''" "gl_element two_group ''1'' = Inr True" "gl_mult two_group True True" "\<not> gl_identity two_group"
  "gl_uniform two_group b = Inr True"
  by (simp_all add: two_group_def)

definition toy_reads :: reads where
  "toy_reads = (\<lambda>i. Inr (if i = 0 then replicate 32 (CHR 0x00) else CHR 0x07 # replicate 31 (CHR 0x00)))"

lemma toy_sample: "\<exists>rest. sampleScalar two_group toy_reads = Some (Inr True, rest)"
proof -
  have "byte_at (replicate 32 (CHR 0x00)) 0 = 0" "byte_at (CHR 0x07 # bs) 0 = 7" for bs by (simp_all add: byte_at_def)
  then show ?thesis
    by (subst sampleScalar.simps, subst sampleScalar.simps)
       (simp add: toy_reads_def two_group_def clear_top_def byte_at_def nth_list_update)
qed

definition toy_inputs :: Inputs where
  "toy_inputs = \<lparr>in_prs = ''123456'', in_ci = LVCat [''joiner'', ''listener''], in_sid = ''session''\<rparr>"

definition toy_initiator :: "bool Initiator" where
  "toy_initiator = \<lparr>it_in = toy_inputs, it_y = Some True, it_share = ''1'', it_ad = ''L'', it_done = False\<rparr>"

definition toy_session :: "bytes \<Rightarrow> bytes \<Rightarrow> Session" where
  "toy_session o' p = newSession two_group ''session'' ''1'' o' p (LVCat [''1'', ''L'']) (LVCat [''1'', ''J''])"

lemma toy_run:
  "\<exists>rest. newInitiator two_group toy_inputs ''L'' toy_reads = Some (Inr toy_initiator, rest) \<and> sampleScalar two_group toy_reads = Some (Inr True, rest) \<and>
     respond two_group toy_inputs ''J'' ''1'' ''L'' toy_reads = Some (Inr (''1'', toy_session (LVCat [''1'', ''J'']) (LVCat [''1'', ''L''])), rest)"
  "\<exists>a. Finish two_group toy_initiator ''1'' ''J'' = (a, Inr (toy_session (LVCat [''1'', ''L'']) (LVCat [''1'', ''J''])))"
proof -
  obtain rest where r: "sampleScalar two_group toy_reads = Some (Inr True, rest)" using toy_sample by blast
  have g: "calculateGenerator two_group p c s = Inr True" for p c s by (simp add: calculateGenerator_def two_group_simps)
  show "\<exists>rest. newInitiator two_group toy_inputs ''L'' toy_reads = Some (Inr toy_initiator, rest) \<and> sampleScalar two_group toy_reads = Some (Inr True, rest) \<and>
     respond two_group toy_inputs ''J'' ''1'' ''L'' toy_reads = Some (Inr (''1'', toy_session (LVCat [''1'', ''J'']) (LVCat [''1'', ''L''])), rest)"
    using r by (simp add: newInitiator_def respond_def g toy_initiator_def toy_inputs_def scalarMult_def scalarMultVfy_def toy_session_def two_group_simps Let_def)
  show "\<exists>a. Finish two_group toy_initiator ''1'' ''J'' = (a, Inr (toy_session (LVCat [''1'', ''L'']) (LVCat [''1'', ''J''])))"
    by (simp add: Finish_def toy_initiator_def toy_inputs_def scalarMultVfy_def toy_session_def two_group_simps Let_def)
qed

theorem pin_exchange_exact_witness:
  "Session_Verify two_group (toy_session (LVCat [''1'', ''L'']) (LVCat [''1'', ''J'']))
     (Session_Confirmation two_group (toy_session (LVCat [''1'', ''J'']) (LVCat [''1'', ''L''])))"
proof -
  obtain rest where r: "newInitiator two_group toy_inputs ''L'' toy_reads = Some (Inr toy_initiator, rest)"
      "sampleScalar two_group toy_reads = Some (Inr True, rest)"
      "respond two_group toy_inputs ''J'' ''1'' ''L'' toy_reads = Some (Inr (''1'', toy_session (LVCat [''1'', ''J'']) (LVCat [''1'', ''L''])), rest)"
    using toy_run(1) by blast
  obtain a where f: "Finish two_group toy_initiator ''1'' ''J'' = (a, Inr (toy_session (LVCat [''1'', ''L'']) (LVCat [''1'', ''J''])))"
    using toy_run(2) by blast
  have "run_apart two_group toy_initiator toy_inputs True ''1'' ''L'' ''1'' ''J'' ''J''
      (toy_session (LVCat [''1'', ''L'']) (LVCat [''1'', ''J''])) (toy_session (LVCat [''1'', ''J'']) (LVCat [''1'', ''L'']))"
    by (simp add: run_apart_def told_apart_def toy_initiator_def toy_session_def toy_inputs_def)
  from pin_exchange_exact [OF two_group_laws r(1) r(3) r(2) f this] show ?thesis by (simp add: toy_initiator_def)
qed

text \<open>
  C20: Two sides that used the same PIN, identities and session always agree: whatever numbers they drew, the listener's half
  succeeds on the joiner's share, both have the same session key, and each accepts the other's tag.
\<close>

theorem pin_exchange_agrees:
  assumes "group_laws G" "newInitiator G inp adA rA = Some (Inr a, rA')"
    and "respond G inp adB (it_share a) adA rB = Some (Inr (shareB, sb), rB')"
  shows "\<exists>sa. snd (Finish G a shareB adB) = Inr sa \<and> ss_isk sa = ss_isk sb \<and>
    Session_Verify G sa (Session_Confirmation G sb) \<and> Session_Verify G sb (Session_Confirmation G sa)"
proof -
  note laws = group_lawsD [OF assms(1)]
  obtain yB where y: "sampleScalar G rB = Some (Inr yB, rB')"
    using assms(3) by (auto simp: respond_def Let_def split: if_splits option.splits sum.splits prod.splits)
  obtain ya g where a: "calculateGenerator G (in_prs inp) (in_ci inp) (in_sid inp) = Inr g"
    "a = \<lparr>it_in = inp, it_y = Some ya, it_share = gl_bytes G (gl_mult G ya g), it_ad = adA, it_done = False\<rparr>"
    using newInitiator_run [OF assms(2)] by metis
  obtain gb x where b: "calculateGenerator G (in_prs inp) (in_ci inp) (in_sid inp) = Inr gb"
    "shareB = gl_bytes G (gl_mult G yB gb)" "gl_element G (it_share a) = Inr x" "gl_mult G yB x \<noteq> gl_identity G"
    "sb = newSession G (in_sid inp) (gl_bytes G (gl_mult G yB x)) (LVCat [shareB, adB]) (LVCat [it_share a, adA])
           (LVCat [it_share a, adA]) (LVCat [shareB, adB])"
    using respond_run [OF assms(3) y] by metis
  have k: "gl_mult G ya (gl_mult G yB g) = gl_mult G yB x" using a b(3) laws(1,3) by simp
  then show ?thesis
    using a b laws(3) Finish_run [of a ya G shareB adB]
    by (auto simp: Session_Verify_def Session_Confirmation_def)
qed

theorem pin_exchange_agrees_witness:
  "\<exists>sa. snd (Finish two_group toy_initiator ''1'' ''J'') = Inr sa \<and>
     Session_Verify two_group sa (Session_Confirmation two_group (toy_session (LVCat [''1'', ''J'']) (LVCat [''1'', ''L''])))"
proof -
  obtain rest where r: "newInitiator two_group toy_inputs ''L'' toy_reads = Some (Inr toy_initiator, rest)"
      "respond two_group toy_inputs ''J'' (it_share toy_initiator) ''L'' toy_reads =
         Some (Inr (''1'', toy_session (LVCat [''1'', ''J'']) (LVCat [''1'', ''L''])), rest)"
    using toy_run(1) by (auto simp: toy_initiator_def)
  from pin_exchange_agrees [OF two_group_laws this] show ?thesis by blast
qed

end
