(* ===== verification/Pair_Window.thy ===== *)
theory Pair_Window
  imports Cpace Pairing_Code Messages
begin

text \<open>
  The window in which a displayed pairing code can be proved (\<^verbatim>\<open>pairingWindow\<close> of \<^verbatim>\<open>src/pkg/peer/pairing.go\<close>).

  Every operation here is what the code does under the window's lock, so the calls that use a window interleave between them
  and not within. A channel that is only closed is a flag, and closing it twice, which panics, is recorded. The channel of
  attempts is the list of what has not been read from it; a timer is whether it is armed.
\<close>

section \<open>State\<close>

record 's pin_exchange =
  px_fingerprint :: string
  px_remote :: string
  px_initiator :: "'s Initiator"
  px_timer :: bool
  px_taken :: bool

record 's pairing_window =
  pw_pin :: string
  pw_secret :: string
  pw_expires :: time
  pw_intent :: Intent
  pw_arrived :: "string option"
  pw_attempted :: "pairing_attempt list"
  pw_exhausted :: bool
  pw_spent :: bool
  pw_done :: bool
  pw_charged :: int
  pw_proving :: int
  pw_failures :: "pairing_attempt list"
  pw_exchanges :: "(string \<times> 's pin_exchange) list"
  pw_closed :: bool
  pw_settled :: bool
  pw_tired :: bool
  pw_panicked :: bool

datatype window_error = ErrPairingSpent | ErrPairingClosed | ErrPairingExhausted | ErrNoExchange | ErrExchangeOwner

definition newPairingWindow :: "string \<Rightarrow> string \<Rightarrow> Intent \<Rightarrow> time \<Rightarrow> 's pairing_window" where
  "newPairingWindow pin secret intent now = \<lparr>pw_pin = pin, pw_secret = secret, pw_expires = now + CodeValidity, pw_intent = intent,
     pw_arrived = None, pw_attempted = [], pw_exhausted = False, pw_spent = False, pw_done = False, pw_charged = 0, pw_proving = 0,
     pw_failures = [], pw_exchanges = [], pw_closed = False, pw_settled = False, pw_tired = False, pw_panicked = False\<rparr>"

section \<open>Operations\<close>

definition settle_arrived :: "string \<Rightarrow> 's pairing_window \<Rightarrow> 's pairing_window" where
  "settle_arrived session w = (case pw_arrived w of None \<Rightarrow> w\<lparr>pw_arrived := Some session\<rparr> | Some _ \<Rightarrow> w)"

definition admits :: "time \<Rightarrow> 's pairing_window \<Rightarrow> bool" where
  "admits now w \<longleftrightarrow> \<not> pw_closed w \<and> now < pw_expires w"

definition stop_timers :: "'s pairing_window \<Rightarrow> 's pairing_window" where
  "stop_timers w = w\<lparr>pw_exchanges := map (\<lambda>(i, x). (i, x\<lparr>px_timer := False\<rparr>)) (pw_exchanges w)\<rparr>"

definition close_spent :: "'s pairing_window \<Rightarrow> 's pairing_window" where
  "close_spent w = w\<lparr>pw_spent := True, pw_panicked := pw_panicked w \<or> pw_spent w\<rparr>"

definition closeLocked :: "'s pairing_window \<Rightarrow> 's pairing_window" where
  "closeLocked w = stop_timers (w\<lparr>pw_done := True, pw_panicked := pw_panicked w \<or> \<not> pw_closed w \<and> pw_done w, pw_closed := True\<rparr>)"

definition chargeLocked :: "'s pairing_window \<Rightarrow> 's pairing_window \<times> window_error option" where
  "chargeLocked w =
     (if pw_settled w then (w, Some ErrPairingSpent)
      else if pw_closed w then (w, Some ErrPairingClosed)
      else if pw_tired w \<or> pw_charged w \<ge> int MaxAttempts then (w, Some ErrPairingExhausted)
      else (w\<lparr>pw_charged := pw_charged w + 1\<rparr>, None))"

definition failLocked :: "time \<Rightarrow> string \<Rightarrow> string \<Rightarrow> 's pairing_window \<Rightarrow> 's pairing_window" where
  "failLocked now source outcome w =
     (let attempt = \<lparr>pt_source = source, pt_at = Some now, pt_outcome = outcome\<rparr>;
          w = w\<lparr>pw_failures := pw_failures w @ [attempt],
                 pw_attempted := (if length (pw_attempted w) < 4 * MaxAttempts then pw_attempted w @ [attempt] else pw_attempted w)\<rparr>
      in if pw_charged w \<ge> int MaxAttempts \<and> pw_exchanges w = [] \<and> pw_proving w = 0 \<and> \<not> pw_settled w \<and> \<not> pw_tired w
         then close_spent (w\<lparr>pw_tired := True, pw_exhausted := True, pw_panicked := pw_panicked w \<or> pw_exhausted w\<rparr>)
         else w)"

definition claimLocked :: "'s pairing_window \<Rightarrow> 's pairing_window \<times> bool" where
  "claimLocked w =
     (let w = (if pw_charged w > 0 then w\<lparr>pw_charged := pw_charged w - 1\<rparr> else w)
      in if pw_settled w \<or> pw_closed w \<or> pw_tired w then (w, False)
         else (stop_timers (close_spent (w\<lparr>pw_settled := True\<rparr>)), True))"

definition chargeProof :: "'s pairing_window \<Rightarrow> 's pairing_window \<times> window_error option" where
  "chargeProof w =
     (case chargeLocked w of
        (w, Some e) \<Rightarrow> (w, Some e)
      | (w, None) \<Rightarrow> (w\<lparr>pw_proving := pw_proving w + 1\<rparr>, None))"

definition failProof :: "time \<Rightarrow> string \<Rightarrow> string \<Rightarrow> 's pairing_window \<Rightarrow> 's pairing_window" where
  "failProof now source outcome w = failLocked now source outcome (w\<lparr>pw_proving := pw_proving w - 1\<rparr>)"

definition passProof :: "'s pairing_window \<Rightarrow> 's pairing_window \<times> bool" where
  "passProof w = claimLocked (w\<lparr>pw_proving := pw_proving w - 1\<rparr>)"

definition drop_exchange :: "string \<Rightarrow> 's pairing_window \<Rightarrow> 's pairing_window" where
  "drop_exchange i w = w\<lparr>pw_exchanges := filter (\<lambda>p. fst p \<noteq> i) (pw_exchanges w)\<rparr>"

definition started_again :: string where "started_again = ''started again before finishing''"
definition never_finished :: string where "never_finished = ''started and never finished''"

text \<open>The exchanges an identity had not finished, each dropped and written down when it starts another.\<close>

fun drop_started :: "time \<Rightarrow> (string \<times> 's pin_exchange) list \<Rightarrow> 's pairing_window \<Rightarrow> 's pairing_window" where
  "drop_started now [] w = w"
| "drop_started now ((i, x) # rest) w = drop_started now rest (failLocked now (px_remote x) started_again (drop_exchange i w))"

definition startExchange :: "time \<Rightarrow> string \<Rightarrow> 's pin_exchange \<Rightarrow> 's pairing_window \<Rightarrow> 's pairing_window \<times> window_error option" where
  "startExchange now i exchange w =
     (case chargeLocked (drop_started now
              (filter (\<lambda>p. px_fingerprint (snd p) = px_fingerprint exchange \<and> \<not> px_taken (snd p)) (pw_exchanges w)) w) of
        (w, Some e) \<Rightarrow> (w, Some e)
      | (w, None) \<Rightarrow> ((drop_exchange i w)\<lparr>pw_exchanges := pw_exchanges (drop_exchange i w) @ [(i, exchange\<lparr>px_timer := True\<rparr>)]\<rparr>, None))"

definition abandon_exchange :: "time \<Rightarrow> string \<Rightarrow> 's pairing_window \<Rightarrow> 's pairing_window" where
  "abandon_exchange now i w =
     (case map_of (pw_exchanges w) i of
        None \<Rightarrow> w
      | Some x \<Rightarrow> if px_taken x then w else failLocked now (px_remote x) never_finished (drop_exchange i w))"

definition takeExchange :: "string \<Rightarrow> string \<Rightarrow> 's pairing_window \<Rightarrow> 's pairing_window \<times> (window_error + 's pin_exchange)" where
  "takeExchange i fingerprint w =
     (case map_of (pw_exchanges w) i of
        None \<Rightarrow> (w, Inl ErrNoExchange)
      | Some x \<Rightarrow>
          if px_taken x then (w, Inl ErrNoExchange)
          else if px_fingerprint x \<noteq> fingerprint then (w, Inl ErrExchangeOwner)
          else let x' = x\<lparr>px_taken := True, px_timer := False\<rparr>
            in (w\<lparr>pw_exchanges := map (\<lambda>(j, y). if j = i then (j, x') else (j, y)) (pw_exchanges w)\<rparr>, Inr x'))"

definition failExchange :: "time \<Rightarrow> string \<Rightarrow> string \<Rightarrow> string \<Rightarrow> 's pairing_window \<Rightarrow> 's pairing_window" where
  "failExchange now i source outcome w = failLocked now source outcome (drop_exchange i w)"

definition passExchange :: "string \<Rightarrow> 's pairing_window \<Rightarrow> 's pairing_window \<times> bool" where
  "passExchange i w = claimLocked (drop_exchange i w)"

section \<open>Calls on a window\<close>

text \<open>
  What can happen to a window, in any order: first rounds, second rounds that are taken and then found wrong or right, older
  proofs, timers, the screen reading, and the screen going away. Beside the window are the second rounds and the proofs that
  are being checked, and how often a caller was told that the code is its own.
\<close>

record 's window_run =
  wr_window :: "'s pairing_window"
  wr_taken :: "string list"
  wr_proofs :: nat
  wr_claims :: nat

definition claimed :: "'s window_run \<Rightarrow> 's pairing_window \<times> bool \<Rightarrow> 's window_run" where
  "claimed r c = r\<lparr>wr_window := fst c, wr_claims := wr_claims r + (if snd c then 1 else 0)\<rparr>"

inductive window_step :: "'s window_run \<Rightarrow> 's window_run \<Rightarrow> bool" where
  ws_start: "i \<notin> fst ` set (pw_exchanges (wr_window r)) \<Longrightarrow> \<not> px_taken x \<Longrightarrow>
     window_step r (r\<lparr>wr_window := fst (startExchange now i x (wr_window r))\<rparr>)"
| ws_abandon: "window_step r (r\<lparr>wr_window := abandon_exchange now i (wr_window r)\<rparr>)"
| ws_take: "takeExchange i fp (wr_window r) = (w, Inr x) \<Longrightarrow> window_step r (r\<lparr>wr_window := w, wr_taken := i # wr_taken r\<rparr>)"
| ws_wrong: "i \<in> set (wr_taken r) \<Longrightarrow>
     window_step r (r\<lparr>wr_window := failExchange now i source outcome (wr_window r), wr_taken := remove1 i (wr_taken r)\<rparr>)"
| ws_right: "i \<in> set (wr_taken r) \<Longrightarrow>
     window_step r (claimed (r\<lparr>wr_taken := remove1 i (wr_taken r)\<rparr>) (passExchange i (wr_window r)))"
| ws_proof: "chargeProof (wr_window r) = (w, None) \<Longrightarrow> window_step r (r\<lparr>wr_window := w, wr_proofs := wr_proofs r + 1\<rparr>)"
| ws_proof_wrong: "wr_proofs r > 0 \<Longrightarrow>
     window_step r (r\<lparr>wr_window := failProof now source outcome (wr_window r), wr_proofs := wr_proofs r - 1\<rparr>)"
| ws_proof_right: "wr_proofs r > 0 \<Longrightarrow>
     window_step r (claimed (r\<lparr>wr_proofs := wr_proofs r - 1\<rparr>) (passProof (wr_window r)))"
| ws_read: "pw_attempted (wr_window r) = a # as \<Longrightarrow> window_step r (r\<lparr>wr_window := (wr_window r)\<lparr>pw_attempted := as\<rparr>\<rparr>)"
| ws_close: "window_step r (r\<lparr>wr_window := closeLocked (wr_window r)\<rparr>)"

definition fresh_run :: "string \<Rightarrow> string \<Rightarrow> Intent \<Rightarrow> time \<Rightarrow> 's window_run" where
  "fresh_run pin secret intent now = \<lparr>wr_window = newPairingWindow pin secret intent now, wr_taken = [], wr_proofs = 0, wr_claims = 0\<rparr>"

section \<open>The books of a window\<close>

definition taken_ids :: "(string \<times> 's pin_exchange) list \<Rightarrow> string set" where
  "taken_ids xs = fst ` set (filter (\<lambda>p. px_taken (snd p)) xs)"

definition books :: "'s window_run \<Rightarrow> bool" where
  "books r \<longleftrightarrow>
     (let w = wr_window r
      in pw_charged w = int (length (pw_failures w) + length (pw_exchanges w) + wr_proofs r) \<and> pw_proving w = int (wr_proofs r) \<and>
         pw_charged w \<le> int MaxAttempts \<and> distinct (map fst (pw_exchanges w)) \<and> distinct (wr_taken r) \<and>
         set (wr_taken r) = taken_ids (pw_exchanges w) \<and>
         (pw_tired w \<longrightarrow> pw_exchanges w = [] \<and> wr_proofs r = 0 \<and> \<not> pw_settled w) \<and>
         wr_claims r = (if pw_settled w then 1 else 0) \<and> pw_spent w = (pw_settled w \<or> pw_tired w) \<and>
         pw_exhausted w = pw_tired w \<and> pw_done w = pw_closed w \<and> \<not> pw_panicked w)"

text \<open>A failure that is written down when what it was about has been taken out of the count of what is in flight.\<close>

lemma failLocked_books:
  assumes "pw_charged w = int (length (pw_failures w) + length (pw_exchanges w) + proofs + 1)" "pw_proving w = int proofs"
    "pw_charged w \<le> int MaxAttempts" "distinct (map fst (pw_exchanges w))" "distinct taken"
    "set taken = taken_ids (pw_exchanges w)" "\<not> pw_tired w"
    "claims = (if pw_settled w then 1 else 0)" "pw_spent w = pw_settled w" "\<not> pw_exhausted w" "pw_done w = pw_closed w" "\<not> pw_panicked w"
  shows "books \<lparr>wr_window = failLocked now source outcome w, wr_taken = taken, wr_proofs = proofs, wr_claims = claims\<rparr>"
  using assms by (auto simp: books_def failLocked_def close_spent_def Let_def MaxAttempts_def)

lemma books_start: "books (fresh_run pin secret intent now)"
  by (simp add: books_def fresh_run_def newPairingWindow_def MaxAttempts_def taken_ids_def)

abbreviation run_of :: "'s pairing_window \<Rightarrow> string list \<Rightarrow> nat \<Rightarrow> nat \<Rightarrow> 's window_run" where
  "run_of w taken proofs claims \<equiv> \<lparr>wr_window = w, wr_taken = taken, wr_proofs = proofs, wr_claims = claims\<rparr>"

lemma failLocked_exchanges [simp]: "pw_exchanges (failLocked now source outcome w) = pw_exchanges w"
  by (simp add: failLocked_def close_spent_def Let_def)

lemma drop_exchange_simps [simp]:
  "pw_exchanges (drop_exchange i w) = filter (\<lambda>p. fst p \<noteq> i) (pw_exchanges w)"
  "pw_charged (drop_exchange i w) = pw_charged w" "pw_failures (drop_exchange i w) = pw_failures w"
  "pw_proving (drop_exchange i w) = pw_proving w" "pw_tired (drop_exchange i w) = pw_tired w"
  "pw_settled (drop_exchange i w) = pw_settled w" "pw_closed (drop_exchange i w) = pw_closed w"
  "pw_spent (drop_exchange i w) = pw_spent w" "pw_exhausted (drop_exchange i w) = pw_exhausted w"
  "pw_done (drop_exchange i w) = pw_done w" "pw_panicked (drop_exchange i w) = pw_panicked w"
  by (simp_all add: drop_exchange_def)

lemma drop_length:
  "distinct (map fst xs) \<Longrightarrow> (i, x) \<in> set xs \<Longrightarrow> length xs = Suc (length (filter (\<lambda>p. fst p \<noteq> i) xs))"
proof (induction xs)
  case (Cons p xs)
  show ?case
  proof (cases "fst p = i")
    case True
    then have "filter (\<lambda>p. fst p \<noteq> i) xs = xs" using Cons.prems(1) by (intro filter_True) (metis distinct.simps(2) imageI list.set_map list.simps(9))
    with True show ?thesis by simp
  next
    case False
    then show ?thesis using Cons by auto
  qed
qed simp

lemma taken_without:
  assumes "distinct (map fst xs)" "(i, x) \<in> set xs"
  shows "taken_ids (filter (\<lambda>p. fst p \<noteq> i) xs) = taken_ids xs - {i}"
    "i \<in> taken_ids xs \<longleftrightarrow> px_taken x"
proof -
  show "taken_ids (filter (\<lambda>p. fst p \<noteq> i) xs) = taken_ids xs - {i}"
    by (auto simp: taken_ids_def)
  show "i \<in> taken_ids xs \<longleftrightarrow> px_taken x"
    using assms by (force simp: taken_ids_def dest: eq_key_imp_eq_value)
qed

lemma distinct_without: "distinct (map fst xs) \<Longrightarrow> distinct (map fst (filter P xs))"
  by (rule distinct_map_filter)

lemma booksD:
  assumes "books (run_of w t p c)"
  shows "pw_charged w = int (length (pw_failures w) + length (pw_exchanges w) + p)" "pw_proving w = int p"
    "pw_charged w \<le> int MaxAttempts" "distinct (map fst (pw_exchanges w))" "distinct t"
    "set t = taken_ids (pw_exchanges w)"
    "pw_tired w \<Longrightarrow> pw_exchanges w = [] \<and> p = 0 \<and> \<not> pw_settled w"
    "c = (if pw_settled w then 1 else 0)" "pw_spent w = (pw_settled w \<or> pw_tired w)" "pw_exhausted w = pw_tired w"
    "pw_done w = pw_closed w" "\<not> pw_panicked w"
  using assms by (simp_all add: books_def Let_def)

lemma untaken_fails:
  assumes b: "books (run_of w t p c)" and x: "(i, x) \<in> set (pw_exchanges w)" "\<not> px_taken x"
  shows "books (run_of (failLocked now source outcome (drop_exchange i w)) t p c)"
proof -
  note b = booksD [OF b]
  have busy: "\<not> pw_tired w" using b(7) x(1) by auto
  have "set t = taken_ids (pw_exchanges w) - {i}"
    using b(6) taken_without(2) [OF b(4) x(1)] x(2) by simp
  then show ?thesis
    using b(1-5,8-12) drop_length [OF b(4) x(1)] busy taken_without(1) [OF b(4) x(1)]
    by (intro failLocked_books) (simp_all add: distinct_without)
qed

lemma taken_in:
  assumes "books (run_of w t p c)" "i \<in> set t"
  obtains x where "(i, x) \<in> set (pw_exchanges w)" "px_taken x"
  using assms(2) unfolding booksD(6) [OF assms(1)] by (force simp: taken_ids_def)

lemma taken_fails:
  assumes b: "books (run_of w t p c)" and i: "i \<in> set t"
  shows "books (run_of (failExchange now i source outcome w) (remove1 i t) p c)"
proof -
  obtain x where x: "(i, x) \<in> set (pw_exchanges w)" using taken_in [OF b i] by metis
  note b = booksD [OF b]
  have busy: "\<not> pw_tired w" using b(7) x by auto
  have "set (remove1 i t) = taken_ids (pw_exchanges w) - {i}"
    using b(5,6) by simp
  then show ?thesis unfolding failExchange_def
    using b(1-5,8-12) drop_length [OF b(4) x] busy taken_without(1) [OF b(4) x]
    by (intro failLocked_books) (simp_all add: distinct_without)
qed

lemma stop_timers_simps:
  "map fst (pw_exchanges (stop_timers v)) = map fst (pw_exchanges v)"
  "taken_ids (pw_exchanges (stop_timers v)) = taken_ids (pw_exchanges v)"
  "length (pw_exchanges (stop_timers v)) = length (pw_exchanges v)" "pw_exchanges (stop_timers v) = [] \<longleftrightarrow> pw_exchanges v = []"
  "pw_charged (stop_timers v) = pw_charged v" "pw_failures (stop_timers v) = pw_failures v"
  "pw_proving (stop_timers v) = pw_proving v" "pw_tired (stop_timers v) = pw_tired v" "pw_settled (stop_timers v) = pw_settled v"
  "pw_spent (stop_timers v) = pw_spent v" "pw_exhausted (stop_timers v) = pw_exhausted v" "pw_done (stop_timers v) = pw_done v"
  "pw_closed (stop_timers v) = pw_closed v" "pw_panicked (stop_timers v) = pw_panicked v"
  by (force simp: stop_timers_def taken_ids_def)+

text \<open>A proof that verified: its charge is given back, and the code is claimed if it is still to be had.\<close>

lemma claimLocked_books:
  assumes "pw_charged w = int (length (pw_failures w) + length (pw_exchanges w) + p + 1)" "pw_proving w = int p"
    "pw_charged w \<le> int MaxAttempts" "distinct (map fst (pw_exchanges w))" "distinct t"
    "set t = taken_ids (pw_exchanges w)" "\<not> pw_tired w"
    "c = (if pw_settled w then 1 else 0)" "pw_spent w = pw_settled w" "\<not> pw_exhausted w" "pw_done w = pw_closed w" "\<not> pw_panicked w"
  shows "books (claimed (run_of w0 t p c) (claimLocked w))"
    "snd (claimLocked w) \<longleftrightarrow> \<not> pw_settled w \<and> \<not> pw_closed w"
proof -
  show "books (claimed (run_of w0 t p c) (claimLocked w))"
    unfolding books_def claimed_def claimLocked_def Let_def
    using assms by (simp add: stop_timers_simps close_spent_def)
  show "snd (claimLocked w) \<longleftrightarrow> \<not> pw_settled w \<and> \<not> pw_closed w"
    using assms by (simp add: claimLocked_def Let_def)
qed

lemma taken_passes:
  assumes b: "books (run_of w t p c)" and i: "i \<in> set t"
  shows "books (claimed (run_of w0 (remove1 i t) p c) (passExchange i w))"
    "snd (passExchange i w) \<longleftrightarrow> \<not> pw_settled w \<and> \<not> pw_closed w"
proof -
  obtain x where x: "(i, x) \<in> set (pw_exchanges w)" using taken_in [OF b i] by metis
  note b = booksD [OF b]
  have busy: "\<not> pw_tired w" using b(7) x by auto
  have "set (remove1 i t) = taken_ids (pw_exchanges w) - {i}" using b(5,6) by simp
  then have ready: "pw_charged (drop_exchange i w) = int (length (pw_failures (drop_exchange i w)) + length (pw_exchanges (drop_exchange i w)) + p + 1)"
    "set (remove1 i t) = taken_ids (pw_exchanges (drop_exchange i w))" "distinct (remove1 i t)"
    "distinct (map fst (pw_exchanges (drop_exchange i w)))" "\<not> pw_tired (drop_exchange i w)"
    using b(1,4,5) drop_length [OF b(4) x] busy taken_without(1) [OF b(4) x] by (simp_all add: distinct_without)
  show "books (claimed (run_of w0 (remove1 i t) p c) (passExchange i w))"
    "snd (passExchange i w) \<longleftrightarrow> \<not> pw_settled w \<and> \<not> pw_closed w"
    unfolding passExchange_def
    using claimLocked_books [OF ready(1) _ _ ready(4,3,2,5), of c] b(2,3,8-12) busy by simp_all
qed

lemma proof_resolves:
  assumes b: "books (run_of w t p c)" and p: "p > 0"
  shows "books (run_of (failProof now source outcome w) t (p - 1) c)"
    "books (claimed (run_of w0 t (p - 1) c) (passProof w))" "snd (passProof w) \<longleftrightarrow> \<not> pw_settled w \<and> \<not> pw_closed w"
proof -
  note b = booksD [OF b]
  let ?w = "w\<lparr>pw_proving := pw_proving w - 1\<rparr>"
  have busy: "\<not> pw_tired w" using b(7) p by auto
  have ready: "pw_charged ?w = int (length (pw_failures ?w) + length (pw_exchanges ?w) + (p - 1) + 1)" "pw_proving ?w = int (p - 1)"
    using b(1,2) p by auto
  show "books (run_of (failProof now source outcome w) t (p - 1) c)" unfolding failProof_def
    using failLocked_books [OF ready] b(3-6,8-12) busy by simp
  show "books (claimed (run_of w0 t (p - 1) c) (passProof w))" "snd (passProof w) \<longleftrightarrow> \<not> pw_settled w \<and> \<not> pw_closed w"
    unfolding passProof_def using claimLocked_books [OF ready] b(3-6,8-12) busy by simp_all
qed

lemma drop_started_books:
  assumes "books (run_of w t p c)" "set xs \<subseteq> {q \<in> set (pw_exchanges w). \<not> px_taken (snd q)}" "distinct (map fst xs)"
  shows "books (run_of (drop_started now xs w) t p c) \<and> set (pw_exchanges (drop_started now xs w)) \<subseteq> set (pw_exchanges w)"
  using assms
proof (induction xs arbitrary: w)
  case (Cons q xs)
  obtain i x where q: "q = (i, x)" by fastforce
  let ?w = "failLocked now (px_remote x) started_again (drop_exchange i w)"
  have "books (run_of ?w t p c)" using Cons.prems(1,2) q by (intro untaken_fails) auto
  moreover have "set xs \<subseteq> {q \<in> set (pw_exchanges ?w). \<not> px_taken (snd q)}" using Cons.prems(2,3) q by (auto intro: rev_image_eqI)
  ultimately have "books (run_of (drop_started now xs ?w) t p c) \<and> set (pw_exchanges (drop_started now xs ?w)) \<subseteq> set (pw_exchanges ?w)"
    using Cons.prems(3) by (intro Cons.IH) auto
  then show ?case using q by auto
qed simp

lemma startExchange_books:
  assumes b: "books (run_of w t p c)" and i: "i \<notin> fst ` set (pw_exchanges w)" and x: "\<not> px_taken x"
  shows "books (run_of (fst (startExchange now i x w)) t p c)"
proof -
  let ?xs = "filter (\<lambda>q. px_fingerprint (snd q) = px_fingerprint x \<and> \<not> px_taken (snd q)) (pw_exchanges w)"
  let ?w = "drop_started now ?xs w"
  have w: "books (run_of ?w t p c)" "set (pw_exchanges ?w) \<subseteq> set (pw_exchanges w)"
    using drop_started_books [OF b, of ?xs now] booksD(4) [OF b] by (auto intro: distinct_without)
  have fresh: "filter (\<lambda>q. fst q \<noteq> i) (pw_exchanges ?w) = pw_exchanges ?w" using i w(2) by (auto simp: filter_id_conv)
  show ?thesis
  proof (cases "snd (chargeLocked ?w)")
    case (Some e)
    then have "fst (startExchange now i x w) = ?w" by (auto simp: startExchange_def chargeLocked_def split: if_splits)
    then show ?thesis using w(1) by simp
  next
    case None
    then have go: "\<not> pw_tired ?w" "pw_charged ?w < int MaxAttempts" and
      run: "fst (startExchange now i x w) = ?w\<lparr>pw_charged := pw_charged ?w + 1, pw_exchanges := pw_exchanges ?w @ [(i, x\<lparr>px_timer := True\<rparr>)]\<rparr>"
      using fresh by (auto simp: startExchange_def chargeLocked_def drop_exchange_def split: if_splits)
    have "i \<notin> fst ` set (pw_exchanges ?w)" using i w(2) by blast
    moreover have "taken_ids (pw_exchanges ?w @ [(i, x\<lparr>px_timer := True\<rparr>)]) = taken_ids (pw_exchanges ?w)" using x by (simp add: taken_ids_def)
    ultimately show ?thesis unfolding run using booksD [OF w(1)] go by (simp add: books_def Let_def)
  qed
qed

lemma takeExchange_books:
  assumes b: "books (run_of w t p c)" and take: "takeExchange i fp w = (w', Inr x)"
  shows "books (run_of w' (i # t) p c)"
proof -
  note b = booksD [OF b]
  obtain y where y: "map_of (pw_exchanges w) i = Some y" "\<not> px_taken y" "x = y\<lparr>px_taken := True, px_timer := False\<rparr>"
    and w': "w' = w\<lparr>pw_exchanges := map (\<lambda>(j, z). if j = i then (j, x) else (j, z)) (pw_exchanges w)\<rparr>"
    using take by (auto simp: takeExchange_def Let_def split: option.splits if_splits)
  have yin: "(i, y) \<in> set (pw_exchanges w)" using y(1) by (rule map_of_SomeD)
  have names: "map fst (pw_exchanges w') = map fst (pw_exchanges w)" using w' by auto
  have ids: "taken_ids (pw_exchanges w') = insert i (taken_ids (pw_exchanges w))"
    using yin y(3) unfolding taken_ids_def w' by (force split: if_splits)
  have "i \<notin> set t" using taken_without(2) [OF b(4) yin] y(2) b(6) by simp
  moreover have "distinct (map fst (pw_exchanges w'))" using names b(4) by (simp only:)
  moreover have "\<not> pw_tired w" using b(7) yin by auto
  moreover have "length (pw_exchanges w') = length (pw_exchanges w)" "pw_charged w' = pw_charged w" "pw_failures w' = pw_failures w"
    "pw_proving w' = pw_proving w" "pw_tired w' = pw_tired w" "pw_settled w' = pw_settled w" "pw_spent w' = pw_spent w"
    "pw_exhausted w' = pw_exhausted w" "pw_done w' = pw_done w" "pw_closed w' = pw_closed w" "pw_panicked w' = pw_panicked w"
    by (simp_all add: w')
  ultimately show ?thesis using b ids by (simp add: books_def Let_def)
qed

lemma abandon_books: "books (run_of w t p c) \<Longrightarrow> books (run_of (abandon_exchange now i w) t p c)"
  by (auto simp: abandon_exchange_def intro: untaken_fails dest: map_of_SomeD split: option.split)

lemma closeLocked_books: "books (run_of w t p c) \<Longrightarrow> books (run_of (closeLocked w) t p c)"
proof -
  assume b: "books (run_of w t p c)"
  show ?thesis using booksD [OF b] by (simp add: books_def Let_def closeLocked_def stop_timers_simps)
qed

lemma chargeProof_books: "books (run_of w t p c) \<Longrightarrow> chargeProof w = (w', None) \<Longrightarrow> books (run_of w' t (p + 1) c)"
proof -
  assume b: "books (run_of w t p c)" and c: "chargeProof w = (w', None)"
  from c have "\<not> pw_tired w" "pw_charged w < int MaxAttempts" "w' = w\<lparr>pw_charged := pw_charged w + 1, pw_proving := pw_proving w + 1\<rparr>"
    by (auto simp: chargeProof_def chargeLocked_def split: if_splits)
  then show ?thesis using booksD [OF b] by (simp add: books_def Let_def)
qed

lemma window_step_books:
  assumes "window_step r r'" "books r"
  shows "books r'"
proof -
  obtain w t p c where r: "r = run_of w t p c" by (metis window_run.surjective old.unit.exhaust)
  note b = assms(2) [unfolded r]
  from assms(1) show ?thesis
  proof cases
    case (ws_start i x now)
    then show ?thesis using startExchange_books [OF b] r by simp
  next
    case (ws_abandon now i)
    then show ?thesis using abandon_books [OF b] r by simp
  next
    case (ws_take i fp w' x)
    then show ?thesis using takeExchange_books [OF b] r by simp
  next
    case (ws_wrong i now source outcome)
    then show ?thesis using taken_fails [OF b] r by simp
  next
    case (ws_right i)
    then show ?thesis using taken_passes(1) [OF b] r by simp
  next
    case (ws_proof w')
    then show ?thesis using chargeProof_books [OF b] r by simp
  next
    case (ws_proof_wrong now source outcome)
    then show ?thesis using proof_resolves(1) [OF b] r by simp
  next
    case ws_proof_right
    then show ?thesis using proof_resolves(2) [OF b] r by simp
  next
    case (ws_read a as)
    then show ?thesis using booksD [OF b] r by (simp add: books_def Let_def)
  next
    case ws_close
    then show ?thesis using closeLocked_books [OF b] r by simp
  qed
qed

lemma window_books: "window_step\<^sup>*\<^sup>* (fresh_run pin secret intent now) r \<Longrightarrow> books r"
  by (induction rule: rtranclp_induct) (auto intro: books_start window_step_books)

section \<open>Properties\<close>

text \<open>
  C21: A displayed code is worth five attempts and one pairing. However calls on a window interleave, with first rounds
  begun again, abandoned and finished in any order beside older proofs, the attempts that failed and those in flight are never
  more than five together, at most one caller is told the code is its own, and no channel is closed twice.
\<close>

theorem window_guesses_bounded:
  assumes "window_step\<^sup>*\<^sup>* (fresh_run pin secret intent now) r"
  shows "length (pw_failures (wr_window r)) + length (pw_exchanges (wr_window r)) + wr_proofs r \<le> 5 \<and>
    wr_claims r \<le> 1 \<and> \<not> pw_panicked (wr_window r)"
  using window_books [OF assms] by (auto simp: books_def Let_def MaxAttempts_def)

definition one_exchange :: "bool pin_exchange" where
  "one_exchange = \<lparr>px_fingerprint = ''SHA256:J'', px_remote = ''10.0.0.2'', px_initiator = toy_initiator, px_timer = False, px_taken = False\<rparr>"

definition after_start :: "bool window_run" where
  "after_start = (fresh_run ''123456'' [] IntentMutual 0)\<lparr>wr_window :=
     fst (startExchange 1 ''s1'' one_exchange (wr_window (fresh_run ''123456'' [] IntentMutual 0)))\<rparr>"

definition after_take :: "bool window_run" where
  "after_take = after_start\<lparr>wr_window := fst (takeExchange ''s1'' ''SHA256:J'' (wr_window after_start)), wr_taken := [''s1'']\<rparr>"

lemma after_take_reached: "window_step\<^sup>*\<^sup>* (fresh_run ''123456'' [] IntentMutual 0) after_take"
proof -
  have "window_step (fresh_run ''123456'' [] IntentMutual 0) after_start" unfolding after_start_def
    by (rule ws_start) (simp_all add: fresh_run_def newPairingWindow_def one_exchange_def)
  moreover obtain w x where t: "takeExchange ''s1'' ''SHA256:J'' (wr_window after_start) = (w, Inr x)"
    by (auto simp: after_start_def fresh_run_def newPairingWindow_def startExchange_def chargeLocked_def MaxAttempts_def
        drop_exchange_def takeExchange_def one_exchange_def Let_def)
  then have "after_take = after_start\<lparr>wr_window := w, wr_taken := ''s1'' # wr_taken after_start\<rparr>"
    by (simp add: after_take_def after_start_def fresh_run_def)
  then have "window_step after_start after_take" using ws_take [OF t] by simp
  ultimately show ?thesis by (meson rtranclp.rtrancl_into_rtrancl rtranclp.rtrancl_refl)
qed

theorem window_guesses_bounded_witness: "wr_claims after_take \<le> 1 \<and> \<not> pw_panicked (wr_window after_take)"
  using window_guesses_bounded [OF after_take_reached] by simp

text \<open>
  C22: An answer that is right is not refused for what others got wrong. A second round or an older proof that is being checked
  and verifies is told the code is its own, unless another verified first or the window was closed - whatever other attempts
  fail, run out or are abandoned meanwhile.
\<close>

theorem right_answer_claims:
  assumes "window_step\<^sup>*\<^sup>* (fresh_run pin secret intent now) r"
  shows "(i \<in> set (wr_taken r) \<longrightarrow> snd (passExchange i (wr_window r)) = (wr_claims r = 0 \<and> \<not> pw_closed (wr_window r))) \<and>
    (0 < wr_proofs r \<longrightarrow> snd (passProof (wr_window r)) = (wr_claims r = 0 \<and> \<not> pw_closed (wr_window r)))"
proof -
  obtain w t p c where r: "r = run_of w t p c" by (metis window_run.surjective old.unit.exhaust)
  note b = window_books [OF assms, unfolded r]
  have "c = 0 \<longleftrightarrow> \<not> pw_settled w" using booksD(8) [OF b] by simp
  then show ?thesis using taken_passes(2) [OF b] proof_resolves(3) [OF b] r by simp
qed

theorem right_answer_claims_witness: "snd (passExchange ''s1'' (wr_window after_take))"
proof -
  have "''s1'' \<in> set (wr_taken after_take)" "wr_claims after_take = 0" "\<not> pw_closed (wr_window after_take)"
    by (simp_all add: after_take_def after_start_def fresh_run_def newPairingWindow_def startExchange_def chargeLocked_def MaxAttempts_def
        drop_exchange_def takeExchange_def one_exchange_def Let_def)
  then show ?thesis using right_answer_claims [OF after_take_reached, of "''s1''"] by simp
qed

end
