(* ===== verification/Peer_Tunnel.thy ===== *)
theory Peer_Tunnel
  imports Peer_Wakeup
begin

text \<open>
  The tunnel between paired instances as far as this repository decides it (\<^verbatim>\<open>src/pkg/peer/tunnel.go\<close>): what is offered, what
  of a peer's offer is written down, which client keys may reach the server, and the door behind it. With it the refusals that
  are held until a peer has heard them (\<^verbatim>\<open>refusal.go\<close>), whose keys stay admitted.

  The tunnelling engine is the record \<open>tunnel_lib\<close>, and the list of keys it admits is part of the state. A timer that was
  set is in a list until it fires. Reading the clock for a timer is left to whoever fires it.
\<close>

section \<open>State\<close>

record tunnel_lib =
  tl_version :: int
  tl_client_key :: bytes
  tl_relay_region :: "string \<Rightarrow> string + string"
  tl_known_relays :: string
  tl_region :: string

record heldRefusal =
  hr_pending :: pending_pairing
  hr_reason :: string
  hr_key :: "bytes option"
  hr_at :: time
  hr_heard :: bool

datatype timer = RevokeLater bytes | ReleaseLater string

record tunnel_side =
  ts_tunnel :: "tunnel_lib option"
  ts_address :: string
  ts_detail :: string
  ts_client_only :: bool
  ts_closed :: bool
  ts_stale :: duration
  ts_seen :: "string \<rightharpoonup> time"
  ts_contradicted :: "string \<rightharpoonup> time"
  ts_allowed :: "bytes list"
  ts_refusals :: "(string \<times> heldRefusal) list"
  ts_timers :: "timer list"

type_synonym 'a tun = "(Node \<times> tunnel_side, 'a) state"

definition asks_tun :: "(tunnel_side \<Rightarrow> 'a) \<Rightarrow> 'a tun" where
  "asks_tun f = over_net (State (\<lambda>t. (f t, t)))"

definition modify_tun :: "(tunnel_side \<Rightarrow> tunnel_side) \<Rightarrow> unit tun" where
  "modify_tun f = over_net (State (\<lambda>t. ((), f t)))"

definition tunnelContradictionGrace :: duration where "tunnelContradictionGrace = 10 * minute"
definition heldRefusalCap :: nat where "heldRefusalCap = 32"

section \<open>What is offered\<close>

definition empty_offer :: tunnel_offer where
  "empty_offer = \<lparr>to_versions = [], to_server_address = [], to_client_key = []\<rparr>"

definition tunnelVersion :: "tunnel_side \<Rightarrow> int" where
  "tunnelVersion t = (case ts_tunnel t of None \<Rightarrow> 0 | Some e \<Rightarrow> max (tl_version e) 0)"

definition own_offer :: "tunnel_side \<Rightarrow> tunnel_offer option" where
  "own_offer t =
     (if ts_closed t then None
      else case ts_tunnel t of
          None \<Rightarrow> Some empty_offer
        | Some e \<Rightarrow>
            if ts_client_only t
            then Some \<lparr>to_versions = [word_of_int (max (tl_version e) 0)], to_server_address = [], to_client_key = tl_client_key e\<rparr>
            else if ts_address t = [] then None
            else Some \<lparr>to_versions = [word_of_int (max (tl_version e) 0)], to_server_address = ts_address t,
                       to_client_key = tl_client_key e\<rparr>)"

section \<open>What of an offer is kept\<close>

datatype region_refusal = AddressUnparsed string | RegionRefused relay_refusal

definition checkOfferRegion :: "net_lib \<Rightarrow> string \<Rightarrow> tunnel_side \<Rightarrow> region_refusal option" where
  "checkOfferRegion N address t =
     (case ts_tunnel t of
        None \<Rightarrow> None
      | Some e \<Rightarrow>
          (case tl_relay_region e address of
             Inl err \<Rightarrow> Some (AddressUnparsed err)
           | Inr region \<Rightarrow> map_option RegionRefused (checkRelayRegionJSON N region (tl_known_relays e))))"

definition normalizeOffer :: "net_lib \<Rightarrow> tunnel_offer option \<Rightarrow> tunnel_side \<Rightarrow> tunnel_offer option" where
  "normalizeOffer N offer t =
     (case offer of
        None \<Rightarrow> None
      | Some off \<Rightarrow>
          if to_versions off = [] then Some empty_offer
          else if to_server_address off \<noteq> [] \<and> checkOfferRegion N (to_server_address off) t \<noteq> None
          then Some (off\<lparr>to_server_address := []\<rparr>)
          else Some off)"

definition admissible :: "tunnel_offer option \<Rightarrow> bytes option" where
  "admissible offer =
     (if getf to_versions [] offer = [] \<or> getf to_client_key [] offer = [] then None else Some (getf to_client_key [] offer))"

section \<open>Who may reach the server\<close>

definition heldRefusalKeys :: "tunnel_side \<Rightarrow> bytes list" where
  "heldRefusalKeys t = concat (map (\<lambda>(s, h). case hr_key h of None \<Rightarrow> [] | Some k \<Rightarrow> [k]) (ts_refusals t))"

definition keys_in :: "tunnel_offer option list \<Rightarrow> bytes list" where
  "keys_in offers = concat (map (\<lambda>off. case admissible off of None \<Rightarrow> [] | Some k \<Rightarrow> [k]) offers)"

definition admissibleKeys :: "vault \<Rightarrow> tunnel_side \<Rightarrow> bytes list" where
  "admissibleKeys v t = keys_in (map tr_tunnel (peers_of v)) @ keys_in (map pp_tunnel (pendings_of v)) @ heldRefusalKeys t"

definition admitKey :: "bytes option \<Rightarrow> tunnel_side \<Rightarrow> tunnel_side" where
  "admitKey key t =
     (case key of
        None \<Rightarrow> t
      | Some k \<Rightarrow> if k = [] \<or> ts_tunnel t = None then t else t\<lparr>ts_allowed := List.insert k (ts_allowed t)\<rparr>)"

definition revokeKey :: "bytes option \<Rightarrow> tunnel_side \<Rightarrow> tunnel_side" where
  "revokeKey key t =
     (case key of
        None \<Rightarrow> t
      | Some k \<Rightarrow> if k = [] \<or> ts_tunnel t = None then t else t\<lparr>ts_allowed := filter (\<lambda>x. x \<noteq> k) (ts_allowed t)\<rparr>)"

definition revokeUnheld :: "bytes option \<Rightarrow> unit tun" where
  "revokeUnheld key = State (\<lambda>(n, t).
     case key of
       None \<Rightarrow> ((), (n, t))
     | Some k \<Rightarrow> if k \<in> set (admissibleKeys (nd_vault n) t) then ((), (n, t)) else ((), (n, revokeKey key t)))"

definition pendingOffer :: "net_lib \<Rightarrow> tunnel_offer option \<Rightarrow> tunnel_offer option tun" where
  "pendingOffer N offer = do {
     wanted \<leftarrow> asks_tun (normalizeOffer N offer);
     if getf to_versions [] wanted = [] then State_Monad.return None
     else do { modify_tun (admitKey (admissible wanted)); State_Monad.return wanted }
   }"

definition forgetPendingTunnel :: "pending_pairing \<Rightarrow> tunnel_side \<Rightarrow> tunnel_side" where
  "forgetPendingTunnel p t =
     (case admissible (pp_tunnel p) of None \<Rightarrow> t | Some k \<Rightarrow> t\<lparr>ts_timers := ts_timers t @ [RevokeLater k]\<rparr>)"

definition forgetRecordTunnel :: "trust_record \<Rightarrow> tunnel_side \<Rightarrow> tunnel_side" where
  "forgetRecordTunnel r t =
     (revokeKey (admissible (tr_tunnel r)) t)\<lparr>ts_seen := (ts_seen t)(tr_fingerprint r := None),
        ts_contradicted := (ts_contradicted t)(tr_fingerprint r := None)\<rparr>"

text \<open>An offer that arrived on a link or a beat. \<^verbatim>\<open>Reconcile\<close>, which hands links their new record, follows a change.\<close>

definition learnTunnel :: "'raw node_env \<Rightarrow> net_lib \<Rightarrow> string \<Rightarrow> tunnel_offer option \<Rightarrow> unit tun" where
  "learnTunnel V N fp offer = do {
     found \<leftarrow> at_node (asks_node (\<lambda>n. Peer (nv_fold V) fp (nd_vault n)));
     case found of
       None \<Rightarrow> State_Monad.return ()
     | Some record \<Rightarrow>
         (let held = tr_tunnel record
          in case offer of
              None \<Rightarrow>
                if getf to_versions [] held = [] then State_Monad.return ()
                else do {
                  dated \<leftarrow> asks_tun ts_contradicted;
                  if dated fp \<noteq> None then State_Monad.return ()
                  else do { now \<leftarrow> at_node now_n; modify_tun (\<lambda>t. t\<lparr>ts_contradicted := (ts_contradicted t)(fp \<mapsto> now)\<rparr>) }
                }
            | Some off \<Rightarrow> do {
                modify_tun (\<lambda>t. t\<lparr>ts_contradicted := (ts_contradicted t)(fp := None)\<rparr>);
                _ \<leftarrow> (if to_versions off = [] then State_Monad.return ()
                   else do { now \<leftarrow> at_node now_n; modify_tun (\<lambda>t. t\<lparr>ts_seen := (ts_seen t)(fp \<mapsto> now)\<rparr>) });
                wanted \<leftarrow> asks_tun (normalizeOffer N (Some off));
                if getf to_versions [] wanted = [] \<and> getf to_versions [] held = [] then State_Monad.return ()
                else if held = wanted then State_Monad.return ()
                else do {
                  now \<leftarrow> at_node now_n;
                  r \<leftarrow> at_node (in_engine (on_vault (\<lambda>sv. PutPeer sv (record\<lparr>tr_tunnel := wanted, tr_tunnel_updated_at := Some now\<rparr>))));
                  case r of
                    Inl e \<Rightarrow> State_Monad.return ()
                  | Inr _ \<Rightarrow>
                      (if admissible held = admissible wanted then State_Monad.return ()
                       else modify_tun (\<lambda>t. admitKey (admissible wanted) (revokeKey (admissible held) t)))
                }
              })
   }"

definition tunnelStaleFor :: "time \<Rightarrow> trust_record \<Rightarrow> tunnel_side \<Rightarrow> bool" where
  "tunnelStaleFor now record t =
     (if tr_addresses record = [] then False
      else let seen = (case ts_seen t (tr_fingerprint record) of None \<Rightarrow> zero_time | Some s \<Rightarrow> s);
               updated = as_time (tr_tunnel_updated_at record)
           in if (case ts_contradicted t (tr_fingerprint record) of None \<Rightarrow> False | Some c \<Rightarrow> now - c > tunnelContradictionGrace) then True
              else now - max seen updated > ts_stale t)"

section \<open>The server\<close>

definition admitAll :: "vault \<Rightarrow> vault \<Rightarrow> tunnel_side \<Rightarrow> tunnel_side" where
  "admitAll before after t =
     (let admitted = admissibleKeys before t; current = admissibleKeys after t
      in t\<lparr>ts_allowed := filter (\<lambda>k. k \<in> set admitted \<longrightarrow> k \<in> set current) (remdups (admitted @ ts_allowed t))\<rparr>)"

text \<open>\<open>started\<close> and \<open>listening\<close> are what the engine answers; \<open>same\<close> says the engine is still the node's afterwards.\<close>

definition startServer :: "string + string \<Rightarrow> string option \<Rightarrow> bool \<Rightarrow> vault \<Rightarrow> tunnel_side \<Rightarrow> tunnel_side \<times> bool" where
  "startServer started listening same v t =
     (if ts_closed t \<or> ts_tunnel t = None then (t, True)
      else case started of
          Inl e \<Rightarrow> (if same then t\<lparr>ts_detail := e\<rparr> else t, False)
        | Inr address \<Rightarrow>
            if address = [] then (if same then t\<lparr>ts_client_only := True, ts_detail := []\<rparr> else t, True)
            else (case listening of
                Some e \<Rightarrow> (if same then t\<lparr>ts_detail := e\<rparr> else t, False)
              | None \<Rightarrow>
                  (let t = admitAll v v t
                   in (if same then t\<lparr>ts_address := address, ts_detail := []\<rparr> else t, True))))"

definition SetTunnel :: "tunnel_lib option \<Rightarrow> tunnel_side \<Rightarrow> tunnel_side" where
  "SetTunnel e t =
     (if ts_closed t then t
      else t\<lparr>ts_tunnel := e, ts_address := [], ts_detail := [], ts_client_only := False, ts_allowed := []\<rparr>)"

definition closeTunnel :: "tunnel_side \<Rightarrow> tunnel_side" where
  "closeTunnel t = t\<lparr>ts_closed := True, ts_tunnel := None, ts_address := [], ts_client_only := False, ts_allowed := []\<rparr>"

section \<open>Refusals that were not heard\<close>

definition refused_answer :: "pairing_answer \<Rightarrow> bool" where
  "refused_answer a \<longleftrightarrow> a = PAIRING_ANSWER_DECLINED \<or> a = PAIRING_ANSWER_WITHDRAWN"

definition refusedHere :: "pending_pairing \<Rightarrow> bool" where
  "refusedHere p \<longleftrightarrow> refused_answer (pp_our_answer p) \<and> \<not> refused_answer (pp_their_answer p)"

text \<open>The oldest of the held refusals; of two as old, the one held first.\<close>

fun oldest_of :: "(string \<times> heldRefusal) list \<Rightarrow> (string \<times> heldRefusal) option" where
  "oldest_of [] = None"
| "oldest_of (x # xs) =
     (case oldest_of xs of None \<Rightarrow> Some x | Some y \<Rightarrow> if hr_at (snd x) \<le> hr_at (snd y) then Some x else Some y)"

definition without_session :: "string \<Rightarrow> (string \<times> heldRefusal) list \<Rightarrow> (string \<times> heldRefusal) list" where
  "without_session s hs = filter (\<lambda>p. fst p \<noteq> s) hs"

definition holdRefusal :: "pending_pairing \<Rightarrow> string \<Rightarrow> unit tun" where
  "holdRefusal p reason = do {
     now \<leftarrow> at_node now_n;
     held \<leftarrow> asks_tun (\<lambda>t. without_session (pp_session_id p) (ts_refusals t) @
        [(pp_session_id p, \<lparr>hr_pending = p, hr_reason = reason, hr_key = admissible (pp_tunnel p), hr_at = now, hr_heard = False\<rparr>)]);
     case (if length held > heldRefusalCap then oldest_of held else None) of
       None \<Rightarrow> modify_tun (\<lambda>t. t\<lparr>ts_refusals := held\<rparr>)
     | Some (s, evicted) \<Rightarrow> do {
         modify_tun (\<lambda>t. t\<lparr>ts_refusals := without_session s held\<rparr>);
         revokeUnheld (hr_key evicted)
       }
   }"

text \<open>The newest refusal held for an identity.\<close>

fun newest_for :: "string \<Rightarrow> (string \<times> heldRefusal) list \<Rightarrow> heldRefusal option" where
  "newest_for fp [] = None"
| "newest_for fp ((s, h) # rest) =
     (if pp_fingerprint (hr_pending h) \<noteq> fp then newest_for fp rest
      else case newest_for fp rest of
          None \<Rightarrow> Some h
        | Some h' \<Rightarrow> if hr_at h' > hr_at h then Some h' else Some h)"

definition heldRefusalOf :: "string \<Rightarrow> tunnel_side \<Rightarrow> heldRefusal option" where
  "heldRefusalOf fp t = newest_for fp (ts_refusals t)"

definition releaseRefusal :: "string \<Rightarrow> unit tun" where
  "releaseRefusal session = do {
     found \<leftarrow> asks_tun (\<lambda>t. map_of (ts_refusals t) session);
     modify_tun (\<lambda>t. t\<lparr>ts_refusals := without_session session (ts_refusals t)\<rparr>);
     case found of
       None \<Rightarrow> State_Monad.return ()
     | Some h \<Rightarrow> revokeUnheld (hr_key h)
   }"

text \<open>A timer that fires.\<close>

definition fire :: "timer \<Rightarrow> unit tun" where
  "fire timer = do {
     modify_tun (\<lambda>t. t\<lparr>ts_timers := remove1 timer (ts_timers t)\<rparr>);
     case timer of
       RevokeLater k \<Rightarrow> revokeUnheld (Some k)
     | ReleaseLater s \<Rightarrow> releaseRefusal s
   }"

section \<open>The door\<close>

definition pairing_prefix :: string where "pairing_prefix = ''/ladulas.v1.PairingService/''"
definition settleProcedure :: string where "settleProcedure = ''/ladulas.v1.PairingService/SettlePairing''"

datatype gate_error = NotPairedForTunnel string | OtherClientKey string | TunnelDoesNotPair | OnlySettles

definition gate_matches :: "string \<Rightarrow> tunnel_offer option \<Rightarrow> bytes \<Rightarrow> gate_error option" where
  "gate_matches name offer clientKey =
     (case admissible offer of
        None \<Rightarrow> Some (OtherClientKey name)
      | Some k \<Rightarrow> if clientKey = [] \<or> k \<noteq> clientKey then Some (OtherClientKey name) else None)"

definition Admit :: "(string \<Rightarrow> string \<Rightarrow> bool) \<Rightarrow> string \<Rightarrow> bytes \<Rightarrow> vault \<Rightarrow> tunnel_side \<Rightarrow> gate_error option" where
  "Admit ef fp clientKey v t =
     (case Peer ef fp v of
        Some r \<Rightarrow> gate_matches (tr_name r) (tr_tunnel r) clientKey
      | None \<Rightarrow>
          (case (case PendingPairing ef fp v of Some p \<Rightarrow> if pp_fingerprint p = fp then Some p else None | None \<Rightarrow> None) of
             Some p \<Rightarrow> gate_matches (pp_name p) (pp_tunnel p) clientKey
           | None \<Rightarrow>
               (case heldRefusalOf fp t of
                  Some h \<Rightarrow> gate_matches (pp_name (hr_pending h)) (pp_tunnel (hr_pending h)) clientKey
                | None \<Rightarrow> Some (NotPairedForTunnel fp))))"

definition Permit :: "(string \<Rightarrow> string \<Rightarrow> bool) \<Rightarrow> string \<Rightarrow> string \<Rightarrow> vault \<Rightarrow> gate_error option" where
  "Permit ef fp procedure v =
     (if has_prefix procedure pairing_prefix \<and> procedure \<noteq> settleProcedure then Some TunnelDoesNotPair
      else if Peer ef fp v \<noteq> None then None
      else if procedure = settleProcedure then None
      else Some OnlySettles)"

section \<open>The books of the refusals\<close>

lemma run_tun [simp]:
  "run_state (asks_tun f) (n, t) = (f t, (n, t))"
  "run_state (modify_tun g) (n, t) = ((), (n, g t))"
  by (simp_all add: asks_tun_def modify_tun_def over_net_def)

text \<open>Sessions are held once, each with the key its offer names, and there are no more of them than the cap.\<close>

definition held_wf :: "tunnel_side \<Rightarrow> bool" where
  "held_wf t \<longleftrightarrow> distinct (map fst (ts_refusals t)) \<and> length (ts_refusals t) \<le> heldRefusalCap \<and>
     list_all (\<lambda>p. hr_key (snd p) = admissible (pp_tunnel (hr_pending (snd p)))) (ts_refusals t)"

lemma held_wfD:
  assumes "held_wf t"
  shows "distinct (map fst (ts_refusals t))" "length (ts_refusals t) \<le> heldRefusalCap"
    "(s, h) \<in> set (ts_refusals t) \<Longrightarrow> hr_key h = admissible (pp_tunnel (hr_pending h))"
  using assms by (auto simp: held_wf_def list_all_iff)

lemma distinct_without_session: "distinct (map fst hs) \<Longrightarrow> distinct (map fst (without_session s hs))"
  unfolding without_session_def by (rule distinct_map_filter)

lemma without_notin [simp]: "s \<notin> fst ` set (without_session s hs)"
  by (auto simp: without_session_def)

lemma length_without: "length (without_session s hs) \<le> length hs"
  by (simp add: without_session_def)

lemma without_shorter:
  assumes "s \<in> fst ` set hs" shows "length (without_session s hs) < length hs"
  using assms unfolding without_session_def by (auto intro: length_filter_less)

lemma set_without: "set (without_session s hs) = {p \<in> set hs. fst p \<noteq> s}"
  by (auto simp: without_session_def)

lemma oldest_of_mem: "oldest_of hs = Some x \<Longrightarrow> x \<in> set hs"
  by (induction hs arbitrary: x) (auto split: option.splits if_splits)

lemma oldest_of_Some: "hs \<noteq> [] \<Longrightarrow> \<exists>x. oldest_of hs = Some x"
  by (cases hs) (auto split: option.split)

lemma refusals_of_keys [simp]:
  "ts_refusals (admitKey k t) = ts_refusals t" "ts_refusals (revokeKey k t) = ts_refusals t"
  "ts_refusals (forgetPendingTunnel p t) = ts_refusals t" "ts_refusals (forgetRecordTunnel r t) = ts_refusals t"
  by (simp_all add: admitKey_def revokeKey_def forgetPendingTunnel_def forgetRecordTunnel_def split: option.split)

lemma revokeUnheld_run:
  "run_state (revokeUnheld k) (n, t) =
     ((), (n, if (\<exists>x. k = Some x \<and> x \<in> set (admissibleKeys (nd_vault n) t)) then t else revokeKey k t))"
  by (auto simp: revokeUnheld_def revokeKey_def split: option.split)

lemma holdRefusal_held:
  assumes "held_wf t" "run_state (holdRefusal p reason) (n, t) = ((), (n', t'))"
  shows "held_wf t'"
proof -
  let ?h = "\<lparr>hr_pending = p, hr_reason = reason, hr_key = admissible (pp_tunnel p), hr_at = e_clock (nd_engine n) 0, hr_heard = False\<rparr>"
  let ?held = "without_session (pp_session_id p) (ts_refusals t) @ [(pp_session_id p, ?h)]"
  have dist: "distinct (map fst ?held)"
    using distinct_without_session [OF held_wfD(1) [OF assms(1)]] without_notin [of "pp_session_id p"] by simp
  have keys: "list_all (\<lambda>q. hr_key (snd q) = admissible (pp_tunnel (hr_pending (snd q)))) ?held"
    using assms(1) by (auto simp: held_wf_def list_all_iff set_without)
  have len: "length ?held \<le> Suc heldRefusalCap"
    using held_wfD(2) [OF assms(1)] length_without [of "pp_session_id p" "ts_refusals t"] by simp
  show ?thesis
  proof (cases "length ?held > heldRefusalCap")
    case False
    then have "ts_refusals t' = ?held"
      using assms(2) by (auto simp: holdRefusal_def now_n_def ticked_def)
    with dist keys False show ?thesis by (simp add: held_wf_def)
  next
    case True
    obtain s e where o: "oldest_of ?held = Some (s, e)"
      using oldest_of_Some [of ?held] by (auto simp del: oldest_of.simps)
    have "ts_refusals t' = without_session s ?held"
      using assms(2) True o by (auto simp: holdRefusal_def now_n_def ticked_def revokeUnheld_run split: if_splits)
    moreover have "length (without_session s ?held) < length ?held"
      using oldest_of_mem [OF o] by (intro without_shorter) force
    ultimately show ?thesis
      using distinct_without_session [OF dist, of s] keys len by (auto simp: held_wf_def list_all_iff set_without)
  qed
qed

lemma releaseRefusal_run:
  "run_state (releaseRefusal s) (n, t) =
     ((), (n, let t1 = t\<lparr>ts_refusals := without_session s (ts_refusals t)\<rparr>
              in case map_of (ts_refusals t) s of
                   None \<Rightarrow> t1
                 | Some h \<Rightarrow> snd (snd (run_state (revokeUnheld (hr_key h)) (n, t1)))))"
  by (simp add: releaseRefusal_def revokeUnheld_run Let_def split: option.split)

lemma releaseRefusal_refusals:
  "ts_refusals (snd (snd (run_state (releaseRefusal s) (n, t)))) = without_session s (ts_refusals t)"
  by (simp add: releaseRefusal_run revokeUnheld_run Let_def split: option.split)

lemma held_wf_without: "held_wf t \<Longrightarrow> ts_refusals t' = without_session s (ts_refusals t) \<Longrightarrow> held_wf t'"
  using length_without [of s "ts_refusals t"] distinct_without_session [of "ts_refusals t" s]
  by (auto simp: held_wf_def list_all_iff set_without)

lemma held_wf_same: "held_wf t \<Longrightarrow> ts_refusals t' = ts_refusals t \<Longrightarrow> held_wf t'"
  by (simp add: held_wf_def)

section \<open>Nobody the door admits is kept from it\<close>

lemma keys_in_mem: "k \<in> set (keys_in offers) \<longleftrightarrow> (\<exists>off \<in> set offers. admissible off = Some k)"
  by (auto simp: keys_in_def split: option.splits) force

lemma heldRefusalKeys_mem: "k \<in> set (heldRefusalKeys t) \<longleftrightarrow> (\<exists>s h. (s, h) \<in> set (ts_refusals t) \<and> hr_key h = Some k)"
  by (force simp: heldRefusalKeys_def split: option.splits)

lemma newest_for_mem: "newest_for fp hs = Some h \<Longrightarrow> pp_fingerprint (hr_pending h) = fp \<and> (\<exists>s. (s, h) \<in> set hs)"
  by (induction hs arbitrary: h) (auto split: if_splits option.splits)

lemma gate_matches_None: "gate_matches name offer k = None \<longleftrightarrow> k \<noteq> [] \<and> admissible offer = Some k"
  by (auto simp: gate_matches_def split: option.splits)

text \<open>Who the door admits, spelled out: an identity this instance knows in one of three ways, with the key it offered.\<close>

datatype standing = Paired trust_record | HalfPaired pending_pairing | Refused heldRefusal

fun known_as :: "(string \<Rightarrow> string \<Rightarrow> bool) \<Rightarrow> string \<Rightarrow> vault \<Rightarrow> tunnel_side \<Rightarrow> standing \<Rightarrow> bool" where
  "known_as ef fp v t (Paired r) \<longleftrightarrow> Peer ef fp v = Some r"
| "known_as ef fp v t (HalfPaired p) \<longleftrightarrow> Peer ef fp v = None \<and> p \<in> set (pendings_of v) \<and> pp_fingerprint p = fp"
| "known_as ef fp v t (Refused h) \<longleftrightarrow> Peer ef fp v = None \<and> h \<in> snd ` set (ts_refusals t) \<and> pp_fingerprint (hr_pending h) = fp"

fun offer_of :: "standing \<Rightarrow> tunnel_offer option" where
  "offer_of (Paired r) = tr_tunnel r"
| "offer_of (HalfPaired p) = pp_tunnel p"
| "offer_of (Refused h) = pp_tunnel (hr_pending h)"

lemma Admit_known:
  assumes "Admit ef fp k v t = None"
  shows "k \<noteq> [] \<and> (\<exists>s. known_as ef fp v t s \<and> admissible (offer_of s) = Some k)"
proof (cases "Peer ef fp v")
  case (Some r)
  with assms have "k \<noteq> [] \<and> admissible (tr_tunnel r) = Some k" by (simp add: Admit_def gate_matches_None)
  with Some show ?thesis by (auto intro!: exI [of _ "Paired r"])
next
  case None
  note unpaired = None
  show ?thesis
  proof (cases "\<exists>p. PendingPairing ef fp v = Some p \<and> pp_fingerprint p = fp")
    case True
    then obtain p where p: "PendingPairing ef fp v = Some p" "pp_fingerprint p = fp" by auto
    then have "p \<in> set (pendings_of v)" using find_SomeD by (metis PendingPairing_def)
    moreover have "k \<noteq> [] \<and> admissible (pp_tunnel p) = Some k"
      using assms None p by (simp add: Admit_def gate_matches_None)
    ultimately show ?thesis using unpaired p by (auto intro!: exI [of _ "HalfPaired p"])
  next
    case False
    then obtain h where h: "heldRefusalOf fp t = Some h" "k \<noteq> []" "admissible (pp_tunnel (hr_pending h)) = Some k"
      using assms None by (auto simp: Admit_def gate_matches_None split: option.splits if_splits)
    then show ?thesis
      using unpaired newest_for_mem [of fp "ts_refusals t" h] by (force simp: heldRefusalOf_def intro!: exI [of _ "Refused h"])
  qed
qed

lemma Admit_admissible:
  assumes "held_wf t" "Admit ef fp k v t = None"
  shows "k \<in> set (admissibleKeys v t)"
proof -
  obtain s where s: "known_as ef fp v t s" "admissible (offer_of s) = Some k" using Admit_known [OF assms(2)] by auto
  show ?thesis
  proof (cases s)
    case (Paired r)
    then have "r \<in> set (peers_of v)" using s find_SomeD by (metis Peer_def known_as.simps(1))
    then show ?thesis using s Paired by (auto simp: admissibleKeys_def keys_in_mem)
  next
    case (HalfPaired p)
    then show ?thesis using s by (auto simp: admissibleKeys_def keys_in_mem)
  next
    case (Refused h)
    then show ?thesis
      using s held_wfD(3) [OF assms(1)] by (auto simp: admissibleKeys_def heldRefusalKeys_mem)
  qed
qed

text \<open>
  A key is only taken off the list by a timer or a release when nothing holds it any more, so whoever the door would let in is
  not stopped before it.
\<close>

definition reachable_door :: "Node \<times> tunnel_side \<Rightarrow> bool" where
  "reachable_door s \<longleftrightarrow> set (admissibleKeys (nd_vault (fst s)) (snd s)) \<subseteq> set (ts_allowed (snd s))"

lemma reachable_doorI:
  assumes "reachable_door (n, t)" "set (admissibleKeys (nd_vault n) t') \<subseteq> set (admissibleKeys (nd_vault n) t)"
    "ts_allowed t' = ts_allowed t"
  shows "reachable_door (n, t')"
  using assms by (auto simp: reachable_door_def)

lemma admissibleKeys_upd [simp]:
  "admissibleKeys v (t\<lparr>ts_allowed := a\<rparr>) = admissibleKeys v t" "admissibleKeys v (t\<lparr>ts_timers := b\<rparr>) = admissibleKeys v t"
  "admissibleKeys v (t\<lparr>ts_address := c\<rparr>) = admissibleKeys v t" "admissibleKeys v (t\<lparr>ts_detail := d\<rparr>) = admissibleKeys v t"
  by (simp_all add: admissibleKeys_def heldRefusalKeys_def)

lemma admissibleKeys_revokeKey [simp]: "admissibleKeys v (revokeKey k t) = admissibleKeys v t"
  by (simp add: revokeKey_def split: option.split)

lemma reachable_door_revokeUnheld:
  assumes "reachable_door (n, t)" shows "reachable_door (snd (run_state (revokeUnheld k) (n, t)))"
proof (cases "\<exists>x. k = Some x \<and> x \<in> set (admissibleKeys (nd_vault n) t)")
  case True
  then show ?thesis using assms by (simp add: revokeUnheld_run)
next
  case False
  then have "x \<in> set (ts_allowed (revokeKey k t))" if "x \<in> set (ts_allowed t)" "x \<in> set (admissibleKeys (nd_vault n) t)" for x
    using that by (auto simp: revokeKey_def split: option.split)
  then show ?thesis using assms False by (auto simp: revokeUnheld_run reachable_door_def)
qed

lemma reachable_door_without:
  assumes "reachable_door (n, t)" shows "reachable_door (n, t\<lparr>ts_refusals := without_session s (ts_refusals t)\<rparr>)"
  using assms by (rule reachable_doorI) (auto simp: admissibleKeys_def heldRefusalKeys_mem set_without)

lemma reachable_door_releaseRefusal:
  assumes "reachable_door (n, t)" shows "reachable_door (snd (run_state (releaseRefusal s) (n, t)))"
proof (cases "map_of (ts_refusals t) s")
  case None
  then show ?thesis using reachable_door_without [OF assms] by (simp add: releaseRefusal_run)
next
  case (Some h)
  then show ?thesis
    using reachable_door_revokeUnheld [OF reachable_door_without [OF assms, of s]]
    by (simp add: releaseRefusal_run revokeUnheld_run Let_def)
qed

lemma fire_books:
  assumes "held_wf t" "reachable_door (n, t)" "run_state (fire timer) (n, t) = ((), (n', t'))"
  shows "held_wf t' \<and> reachable_door (n', t')"
proof -
  let ?t = "t\<lparr>ts_timers := remove1 timer (ts_timers t)\<rparr>"
  have door: "reachable_door (n, ?t)"
    using assms(2) by (rule reachable_doorI) simp_all
  have held: "held_wf ?t" using assms(1) by (rule held_wf_same) simp
  show ?thesis
  proof (cases timer)
    case (RevokeLater k)
    then have "(n', t') = snd (run_state (revokeUnheld (Some k)) (n, ?t))" using assms(3) by (simp add: fire_def)
    moreover from this have "ts_refusals t' = ts_refusals ?t" by (auto simp: revokeUnheld_run)
    ultimately show ?thesis using reachable_door_revokeUnheld [OF door] held_wf_same [OF held] by metis
  next
    case (ReleaseLater s)
    then have "(n', t') = snd (run_state (releaseRefusal s) (n, ?t))" using assms(3) by (simp add: fire_def)
    moreover from this have "ts_refusals t' = without_session s (ts_refusals ?t)"
      using releaseRefusal_refusals [of s n ?t] by (metis snd_conv)
    ultimately show ?thesis using reachable_door_releaseRefusal [OF door] held_wf_without [OF held] by metis
  qed
qed

lemma startServer_opens:
  assumes "startServer started listening same v t = (t', True)" "ts_tunnel t = Some e" "\<not> ts_closed t" "started = Inr a" "a \<noteq> []"
  shows "set (admissibleKeys v t') \<subseteq> set (ts_allowed t')"
proof -
  have "set (ts_allowed t') = set (admissibleKeys v t) \<union> set (ts_allowed t)" "admissibleKeys v t' = admissibleKeys v t"
    using assms by (auto simp: startServer_def admitAll_def Let_def split: option.splits if_splits)
  then show ?thesis by simp
qed

section \<open>A client key two peers offer\<close>

text \<open>
  Changing an offer takes the old key off the list without asking whether another record holds it, which \<open>revokeUnheld\<close> does
  ask. Two peers are paired, the second offers the first one's client key and then another: the first can no longer reach the
  server, though the door would let it in.
\<close>

lemma admissible_Some: "admissible off = Some k \<Longrightarrow> k \<noteq> [] \<and> getf to_versions [] off \<noteq> []"
  by (auto simp: admissible_def split: if_splits)

lemma swap_key_allowed:
  assumes "ts_tunnel t \<noteq> None" "k \<noteq> []" "k' \<noteq> Some k"
  shows "k \<notin> set (ts_allowed (admitKey k' (revokeKey (Some k) t)))"
  using assms by (auto simp: admitKey_def revokeKey_def split: option.splits)

lemma PutPeer_saves: "tr_fingerprint r \<noteq> [] \<Longrightarrow> snd (PutPeer None r v) = Inr ()"
  by (simp add: PutPeer_def save_def split: if_splits)

lemma normalizeOffer_upd [simp]:
  "normalizeOffer N off (t\<lparr>ts_contradicted := c\<rparr>) = normalizeOffer N off t"
  "normalizeOffer N off (t\<lparr>ts_seen := d\<rparr>) = normalizeOffer N off t"
  by (cases off; simp add: normalizeOffer_def checkOfferRegion_def)+

lemma learnTunnel_swaps:
  assumes "Peer (nv_fold V) fp (nd_vault n) = Some r" "admissible (tr_tunnel r) = Some k" "ts_tunnel t \<noteq> None"
    "normalizeOffer N (Some off) t = Some w" "admissible (Some w) \<noteq> Some k" "tr_fingerprint r \<noteq> []" "e_saves (nd_engine n) 0 = None"
    "run_state (learnTunnel V N fp (Some off)) (n, t) = ((), (n', t'))"
  shows "k \<notin> set (ts_allowed t') \<and> (\<exists>at. nd_vault n' = fst (PutPeer None (r\<lparr>tr_tunnel := Some w, tr_tunnel_updated_at := at\<rparr>) (nd_vault n)))"
proof -
  note k = admissible_Some [OF assms(2)]
  have differ: "tr_tunnel r \<noteq> Some w" using assms(2,5) by auto
  have put: "snd (PutPeer None (r\<lparr>tr_tunnel := x, tr_tunnel_updated_at := at\<rparr>) v) = Inr ()" for x at v
    using assms(6) by (simp add: PutPeer_saves)
  let ?c = "t\<lparr>ts_contradicted := (ts_contradicted t)(fp := None)\<rparr>"
  have "(t' = admitKey (admissible (Some w)) (revokeKey (Some k) ?c) \<or>
      (\<exists>d. t' = admitKey (admissible (Some w)) (revokeKey (Some k) (?c\<lparr>ts_seen := d\<rparr>)))) \<and>
      (\<exists>at. nd_vault n' = fst (PutPeer None (r\<lparr>tr_tunnel := Some w, tr_tunnel_updated_at := at\<rparr>) (nd_vault n)))"
    using assms(8) assms(1,2,4,5,7) k differ
    by (auto simp: learnTunnel_def now_n_def ticked_def run_on_vault Let_def put split: if_splits)
  then show ?thesis
    using assms(3,5) k swap_key_allowed [of ?c k] swap_key_allowed [of "?c\<lparr>ts_seen := d\<rparr>" k for d] by auto
qed

theorem shared_client_key_shut_out:
  assumes "Peer (nv_fold V) fp (nd_vault n) = Some r" "admissible (tr_tunnel r) = Some k" "ts_tunnel t \<noteq> None"
    "normalizeOffer N (Some off) t = Some w" "admissible (Some w) \<noteq> Some k" "e_saves (nd_engine n) 0 = None"
    "vault_wf (nd_vault n)" "other \<in> set (peers_of (nd_vault n))" "tr_fingerprint other \<noteq> tr_fingerprint r"
    "admissible (tr_tunnel other) = Some k"
    "run_state (learnTunnel V N fp (Some off)) (n, t) = ((), (n', t'))"
  shows "\<not> reachable_door (n', t')"
proof -
  have peers: "peers_wf (peers_of (nd_vault n))" by (rule vault_wf_parts(5) [OF assms(7)])
  have "r \<in> set (peers_of (nd_vault n))" using assms(1) find_SomeD by (metis Peer_def)
  then have fp: "tr_fingerprint r \<noteq> []" using peers by (auto simp: peers_wf_def image_iff)
  obtain at where gone: "k \<notin> set (ts_allowed t')"
      and v: "nd_vault n' = fst (PutPeer None (r\<lparr>tr_tunnel := Some w, tr_tunnel_updated_at := at\<rparr>) (nd_vault n))"
    using learnTunnel_swaps [OF assms(1-5) fp assms(6,11)] by auto
  have "other \<in> set (peers_of (nd_vault n'))"
    unfolding v using PutPeer_records [OF peers, of "r\<lparr>tr_tunnel := Some w, tr_tunnel_updated_at := at\<rparr>" None] fp assms(8,9) by auto
  then have "k \<in> set (admissibleKeys (nd_vault n') t')"
    using assms(10) by (auto simp: admissibleKeys_def keys_in_mem)
  with gone show ?thesis by (auto simp: reachable_door_def)
qed

section \<open>Properties\<close>


definition door_offer :: tunnel_offer where
  "door_offer = \<lparr>to_versions = [1], to_server_address = [], to_client_key = ''k''\<rparr>"

definition door_pending :: pending_pairing where
  "door_pending = \<lparr>pp_session_id = ''s'', pp_fingerprint = ''fp'', pp_name = [], pp_identity_public_key = [], pp_addresses = [],
     pp_may_approve = True, pp_may_request = True, pp_we_dialled = False, pp_key_from_code = False, pp_remote_address = [],
     pp_our_answer = PAIRING_ANSWER_DECLINED, pp_their_answer = PAIRING_ANSWER_UNSPECIFIED, pp_started_at = None,
     pp_answered_at = None, pp_confirmation_request_id = [], pp_failed_attempts = [], pp_tunnel = Some door_offer\<rparr>"

definition door_side :: tunnel_side where
  "door_side = \<lparr>ts_tunnel = None, ts_address = [], ts_detail = [], ts_client_only = False, ts_closed = False, ts_stale = 0,
     ts_seen = Map.empty, ts_contradicted = Map.empty, ts_allowed = [],
     ts_refusals = [(''s'', \<lparr>hr_pending = door_pending, hr_reason = [], hr_key = Some ''k'', hr_at = 0, hr_heard = False\<rparr>)],
     ts_timers = []\<rparr>"

lemma door_open: "held_wf door_side" "Admit (=) ''fp'' ''k'' empty_vault door_side = None"
  by (simp_all add: held_wf_def door_side_def door_pending_def door_offer_def heldRefusalCap_def admissible_def Admit_def Peer_def
      PendingPairing_def empty_vault_def empty_document_def empty_defs heldRefusalOf_def gate_matches_def)


end
