(* ===== verification/Spec2Isabelle.thy ===== *)
theory Spec2Isabelle
  imports Engine_Promises Flights Pairing_Code Vault_Settings Agent Peer_Borrow Peer_Endorse Peer_Handover Pair_Window Peer_Tunnel
begin

text \<open>
  A verification library for Ladulas, an SSH agent that signs only what somebody approved. One instance holds keys and an
  identity, decides what may be signed with them by rules, by standing promises and by asking a person, and works with
  paired instances: a phone approves for a desktop, a desktop borrows a key a phone holds, promises, endorsements and keys
  are handed on.

  \<^bold>\<open>The parts and how they interact.\<close> A program asks the \<^emph>\<open>agent\<close> for a signature over bytes. The agent classifies the bytes,
  adds what it knows of the session, and submits an approval request to the \<^emph>\<open>engine\<close>. The engine applies hard rules, the
  \<^emph>\<open>policy\<close>, \<^emph>\<open>grants\<close> and delegations, then asks approvers - screens here, or peers - and signs its answer with the
  \<^emph>\<open>identity\<close>. What must survive is in the \<^emph>\<open>vault\<close>, an encrypted document that is written as a whole. The \<^emph>\<open>peer node\<close>
  serves other instances and calls them: approvals, borrowed signatures, an inbox for approvers that cannot be dialled,
  reconciliation of promises, gossip of retractions, keys handed over, and pairing itself.

  \<^bold>\<open>Theories.\<close> The order is that of the imports.

  \<^item> \<^verbatim>\<open>Go_Prelude\<close>, \<^verbatim>\<open>Codec\<close>, \<^verbatim>\<open>Ssh_Wire\<close>, \<^verbatim>\<open>Random_Ids\<close>: what the code uses of Go and its standard library (strings as bytes, runes,
    times, printing numbers, base 64, big-endian lengths, SSH strings, random identifiers), and shared lemmas and simp sets.
  \<^item> \<^verbatim>\<open>Messages\<close>: the messages of \<^verbatim>\<open>src/proto/ladulas/v1\<close> as records and datatypes; a nil message is \<^const>\<open>None\<close>.
  \<^item> \<^verbatim>\<open>Policy\<close>, \<^verbatim>\<open>Prompt\<close>, \<^verbatim>\<open>Grants\<close> (\<^verbatim>\<open>src/pkg/approval\<close>): rules and globbing with a proof that the matcher is the reference
    relation, what a prompt says, and what a promise covers.
  \<^item> \<^verbatim>\<open>Sshsig\<close>, \<^verbatim>\<open>Identity\<close>, \<^verbatim>\<open>Gitctx\<close> (\<^verbatim>\<open>src/pkg/sshsig\<close>, \<^verbatim>\<open>identity\<close>, \<^verbatim>\<open>gitctx\<close>): signatures in the SSHSIG format and their
    round trip, signed artifacts and the separation of their kinds, the git object a signature is about.
  \<^item> \<^verbatim>\<open>Trust\<close>, \<^verbatim>\<open>Pairing_Code\<close> (\<^verbatim>\<open>src/pkg/trust\<close>): trust records, directions, the code that is displayed and typed.
  \<^item> \<^verbatim>\<open>Vault\<close>, \<^verbatim>\<open>Vault_Endorsements\<close>, \<^verbatim>\<open>Vault_Peers\<close>, \<^verbatim>\<open>Vault_Handover\<close>, \<^verbatim>\<open>Vault_Settings\<close> (\<^verbatim>\<open>src/pkg/keystore\<close>): every operation on
    the document with writes that fail, its well-formedness from an empty store on, and what is durable.
  \<^item> \<^verbatim>\<open>Engine\<close>, \<^verbatim>\<open>Engine_Decide\<close>, \<^verbatim>\<open>Engine_Frame\<close>, \<^verbatim>\<open>Engine_Safety\<close>, \<^verbatim>\<open>Engine_Answers\<close>, \<^verbatim>\<open>Engine_Promises\<close>, \<^verbatim>\<open>Flights\<close>
    (\<^verbatim>\<open>src/pkg/approval/engine.go\<close>, \<^verbatim>\<open>inflight.go\<close>): deciding, the race between approvers as a step relation which the engine's
    loop refines, the grounds of every approval, and that every decision is logged. The locale \<^verbatim>\<open>engine_frame\<close> is the
    contract of the engine's primitive operations; it is interpreted for the log, the vault and the supplies.
  \<^item> \<^verbatim>\<open>Agent_Classify\<close>, \<^verbatim>\<open>Agent_Session\<close>, \<^verbatim>\<open>Local_Keys\<close>, \<^verbatim>\<open>Agent\<close> (\<^verbatim>\<open>src/pkg/agent\<close>): what bytes are, where a connection leads, keys
    that programs park, and a whole connection with its invariant and the account of every signature.
  \<^item> \<^verbatim>\<open>Peer_Node\<close>, \<^verbatim>\<open>Peer_Sign\<close>, \<^verbatim>\<open>Peer_Answers\<close>, \<^verbatim>\<open>Peer_Borrow\<close> (\<^verbatim>\<open>src/pkg/peer/peer.go\<close>, \<^verbatim>\<open>service.go\<close>, \<^verbatim>\<open>keys.go\<close>, \<^verbatim>\<open>approver.go\<close>): who
    may call, signing for a peer, asking a peer, and borrowing a signature, up to the agent that hands it to a program.
  \<^item> \<^verbatim>\<open>Peer_Inbox\<close>, \<^verbatim>\<open>Peer_Collect\<close> (\<^verbatim>\<open>inbox.go\<close>, \<^verbatim>\<open>collect.go\<close>): requests parked for approvers that poll, as goroutines over shared
    entries, and the approver's side of it.
  \<^item> \<^verbatim>\<open>Peer_Promises\<close>, \<^verbatim>\<open>Peer_Endorse\<close>, \<^verbatim>\<open>Peer_Handover\<close> (\<^verbatim>\<open>delegations.go\<close>, \<^verbatim>\<open>endorsements.go\<close>, \<^verbatim>\<open>handover.go\<close>): promises in other hands,
    retractions passed from holder to holder, and keys on their way to a peer.
  \<^item> \<^verbatim>\<open>Cpace\<close>, \<^verbatim>\<open>Pair_Window\<close> (\<^verbatim>\<open>src/internal/cpace\<close>, \<^verbatim>\<open>src/pkg/peer/pairing.go\<close>): the exchange behind the PIN and the attempts a
    displayed code allows.

  \<^bold>\<open>State and operations.\<close> A struct is a record with the fields the modelled code reads, a method the function of the same
  name. Operations on the vault take and return it; the engine, the node and everything above it are state monads over
  records, written as the code's statements in order. An error is a value of a datatype of its own, one constructor for each
  way the code fails. What the code reads from outside is a supply the state carries: clocks, identifiers, random bytes,
  whether a write of the store or of the log succeeded. Handlers that block are given the list of events that reach them,
  or, where interleaving matters (\<^verbatim>\<open>Flights\<close>, \<^verbatim>\<open>Peer_Inbox\<close>, \<^verbatim>\<open>Pair_Window\<close>, \<^verbatim>\<open>Peer_Handover\<close>), are step relations whose
  steps are what the code does under one lock.

  \<^bold>\<open>What is an argument.\<close> Code that is not part of the repository is a parameter: records such as \<open>ssh_lib\<close>, \<open>key_lib\<close>,
  \<open>hw_lib\<close>, \<open>park_lib\<close> and \<open>group_lib\<close> for SSH, PEM, the secure element and the group; codecs for protobuf encodings;
  \<^verbatim>\<open>strings.EqualFold\<close> and \<^verbatim>\<open>unicode.ToLower\<close>; \<open>env\<close> and \<open>node_env\<close> bundle them for the engine and the node. Laws that are
  used are named hypotheses (that a codec reads back what it wrote, that a signature verifies under its key, that scalars
  commute) and each such theorem has a witness at an instance where they hold. The network is an argument too: a call may be
  undelivered, delivered with its answer lost, or delivered, and the theorems hold for every choice.

  \<^bold>\<open>What the theorems show.\<close> From the agent outwards: no signature leaves without its grounds, every decision is logged once,
  and what the log says is what was answered; a peer signs only on its own reading of the bytes; an answer, a delegation, a
  retraction and a borrowed signature are taken only if they verify; decisions, revocations, retractions and keys arrive
  when the network delivers, are not lost when it does not, and are not acted on twice; the store keeps its invariants
  through failing writes. Termination and bounds: gossip is finite, polls and slots are bounded, the glob matcher, the loops
  of the agent and the classifier are total; a pairing code is worth five attempts and one pairing.

  \<^bold>\<open>Loops.\<close> Loops are structural recursion or functions with a measure. Where a loop ends only if its input does
  (\<^verbatim>\<open>parseKnownHosts\<close>, \<^verbatim>\<open>sampleScalar\<close>) it is a partial function with value \<^const>\<open>None\<close> when it does not return, and that it
  returns is a lemma. No definition takes fuel.

  \<^bold>\<open>Not modelled.\<close> Sockets, TLS, HTTP and the generated stubs; encrypting and locking the store file; keeping links to
  peers up (dialling, probing, backing off); the tunnelling library; the push relay's service; projects and their
  rendering for a phone; collecting a git context by running git; screens, the command line and the phone's bindings. They
  carry no decision: what they deliver is an argument of the model, and the theorems hold for every delivery.
\<close>

end
